(* ===== verification/Prelude.thy ===== *)
theory Prelude
  imports Main "HOL-Library.Word"
begin

text \<open>
  Shared vocabulary of the development: Go byte strings, results with errors as values,
  the combinators that thread them, and the generic facts on lists, options, characters
  and association lists that the component theories use through the collections
  \<open>result_simps\<close> (inverting a chain of fallible calls) and \<open>byte_simps\<close>.

  A Go \<^verbatim>\<open>string\<close> and a Go \<^verbatim>\<open>[]byte\<close> are both finite sequences of bytes; both are \<open>bytes\<close>
  here, a list of 8-bit \<open>char\<close>. Where the source tells a nil slice from an empty one the
  model uses \<open>bytes option\<close>.
\<close>

named_theorems result_simps \<open>inversion of chained fallible calls\<close>
named_theorems byte_simps \<open>characters as numbers below 256\<close>

type_synonym bytes = string
type_synonym header_list = "(string \<times> string) list"

section \<open>Results\<close>

definition rbind :: "('e + 'a) \<Rightarrow> ('a \<Rightarrow> 'e + 'b) \<Rightarrow> 'e + 'b" where
  "rbind m f = (case m of Inl e \<Rightarrow> Inl e | Inr x \<Rightarrow> f x)"

definition of_option :: "'e \<Rightarrow> 'a option \<Rightarrow> 'e + 'a" where
  "of_option e x = (case x of None \<Rightarrow> Inl e | Some y \<Rightarrow> Inr y)"

definition guard :: "bool \<Rightarrow> 'e \<Rightarrow> ('e + 'a) \<Rightarrow> 'e + 'a" where
  "guard bad e m = (if bad then Inl e else m)"

lemma rbind_Inl [simp]: "rbind (Inl e) f = Inl e"
  by (simp add: rbind_def)

lemma rbind_Inr [simp]: "rbind (Inr x) f = f x"
  by (simp add: rbind_def)

lemma rbind_eq_Inr [result_simps]: "rbind m f = Inr y \<longleftrightarrow> (\<exists>x. m = Inr x \<and> f x = Inr y)"
  by (cases m) auto

lemma rbind_eq_Inl [result_simps]:
  "rbind m f = Inl e \<longleftrightarrow> m = Inl e \<or> (\<exists>x. m = Inr x \<and> f x = Inl e)"
  by (cases m) auto

lemma rbind_cong [fundef_cong]:
  "m = m' \<Longrightarrow> (\<And>x. m' = Inr x \<Longrightarrow> f x = f' x) \<Longrightarrow> rbind m f = rbind m' f'"
  by (cases m') auto

lemma of_option_eq_Inr [result_simps]: "of_option e x = Inr y \<longleftrightarrow> x = Some y"
  by (cases x) (auto simp: of_option_def)

lemma of_option_eq_Inl [result_simps]: "of_option e x = Inl e' \<longleftrightarrow> x = None \<and> e' = e"
  by (cases x) (auto simp: of_option_def)

lemma of_option_Some [simp]: "of_option e (Some y) = Inr y"
  by (simp add: of_option_def)

lemma of_option_None [simp]: "of_option e None = Inl e"
  by (simp add: of_option_def)

lemma guard_eq_Inr [result_simps]: "guard b e m = Inr y \<longleftrightarrow> \<not> b \<and> m = Inr y"
  by (simp add: guard_def)

lemma guard_eq_Inl [result_simps]: "guard b e m = Inl e' \<longleftrightarrow> b \<and> e' = e \<or> \<not> b \<and> m = Inl e'"
  by (auto simp: guard_def)

lemma guard_True [simp]: "guard True e m = Inl e"
  by (simp add: guard_def)

lemma guard_False [simp]: "guard False e m = m"
  by (simp add: guard_def)

section \<open>Bytes\<close>

abbreviation byte_val :: "char \<Rightarrow> nat" where
  "byte_val c \<equiv> of_char c"

definition byte_of :: "nat \<Rightarrow> char" where
  "byte_of n = char_of (n mod 256)"

lemma byte_val_less [simp, byte_simps]: "(of_char c :: nat) < 256"
  by (rule nat_of_char_less_256)

lemma byte_val_byte_of [simp, byte_simps]: "of_char (byte_of n) = n mod 256"
  by (simp add: byte_of_def)

lemma byte_of_byte_val [simp, byte_simps]: "byte_of (of_char c) = c"
  by (simp add: byte_of_def)

lemma byte_val_inject: "(of_char c :: nat) = of_char d \<longleftrightarrow> c = d"
  by (metis byte_of_byte_val)

lemma byte_of_inject: "m < 256 \<Longrightarrow> n < 256 \<Longrightarrow> byte_of m = byte_of n \<longleftrightarrow> m = n"
  by (metis byte_val_byte_of mod_less)

lemma byte_of_eq: "(of_char c :: nat) = n \<Longrightarrow> byte_of n = c"
  by auto

section \<open>Lists\<close>

lemma append_eq_append_same_length:
  "length xs = length ys \<Longrightarrow> xs @ us = ys @ vs \<longleftrightarrow> xs = ys \<and> us = vs"
  by auto

lemma take_append_exact [simp]: "length xs = n \<Longrightarrow> take n (xs @ ys) = xs"
  by simp

lemma drop_append_exact [simp]: "length xs = n \<Longrightarrow> drop n (xs @ ys) = ys"
  by simp

lemma length_2E:
  assumes "length xs = 2"
  obtains x y where "xs = [x, y]"
  using assms by (cases xs; cases "tl xs") auto

text \<open>\<^verbatim>\<open>strings.HasPrefix\<close>, \<^verbatim>\<open>strings.Index\<close> of one byte and \<^verbatim>\<open>strings.SplitN(s, sep, 2)\<close>.\<close>

fun has_prefix :: "string \<Rightarrow> string \<Rightarrow> bool" where
  "has_prefix s [] = True"
| "has_prefix [] (p # ps) = False"
| "has_prefix (c # s) (p # ps) = (c = p \<and> has_prefix s ps)"

lemma has_prefix_iff: "has_prefix s p \<longleftrightarrow> (\<exists>r. s = p @ r)"
  by (induction s p rule: has_prefix.induct) auto

fun index_byte :: "string \<Rightarrow> char \<Rightarrow> nat option" where
  "index_byte [] c = None"
| "index_byte (x # xs) c = (if x = c then Some 0 else map_option Suc (index_byte xs c))"

lemma index_byte_Some:
  "index_byte s c = Some i \<Longrightarrow> i < length s \<and> s ! i = c \<and> c \<notin> set (take i s)"
  by (induction s arbitrary: i) (auto split: if_splits)

lemma index_byte_None: "index_byte s c = None \<longleftrightarrow> c \<notin> set s"
  by (induction s) auto

lemma index_byte_append:
  "c \<notin> set p \<Longrightarrow> index_byte (p @ c # r) c = Some (length p)"
  by (induction p) auto

lemma index_byte_split:
  "index_byte s c = Some i \<Longrightarrow> s = take i s @ c # drop (Suc i) s"
  using index_byte_Some id_take_nth_drop by metis

section \<open>Association lists as Go maps with a fixed iteration order\<close>

text \<open>
  \<^verbatim>\<open>http.Header.Set\<close>/\<^verbatim>\<open>Get\<close> and Go maps whose iteration order is observed: an association
  list with distinct keys, updated in place or extended at the end.
\<close>

fun al_set :: "'k \<Rightarrow> 'v \<Rightarrow> ('k \<times> 'v) list \<Rightarrow> ('k \<times> 'v) list" where
  "al_set k v [] = [(k, v)]"
| "al_set k v ((k', v') # r) = (if k' = k then (k, v) # r else (k', v') # al_set k v r)"

definition al_del :: "'k \<Rightarrow> ('k \<times> 'v) list \<Rightarrow> ('k \<times> 'v) list" where
  "al_del k m = filter (\<lambda>(k', _). k' \<noteq> k) m"

lemma map_of_al_set [simp]: "map_of (al_set k v m) = (map_of m)(k \<mapsto> v)"
  by (induction k v m rule: al_set.induct) (auto simp: fun_eq_iff)

lemma map_of_al_del [simp]: "map_of (al_del k m) = (map_of m)(k := None)"
  by (induction m) (auto simp: al_del_def fun_eq_iff)

lemma fst_al_set [simp]: "fst ` set (al_set k v m) = insert k (fst ` set m)"
  by (induction k v m rule: al_set.induct) auto

lemma distinct_al_set [simp]: "distinct (map fst m) \<Longrightarrow> distinct (map fst (al_set k v m))"
  by (induction k v m rule: al_set.induct) (auto simp: image_iff split: if_splits)

lemma fst_al_del [simp]: "fst ` set (al_del k m) = fst ` set m - {k}"
  by (auto simp: al_del_def)

lemma distinct_al_del [simp]: "distinct (map fst m) \<Longrightarrow> distinct (map fst (al_del k m))"
  by (induction m) (auto simp: al_del_def)

end
