(* ===== verification/Go_Encoding.thy ===== *)
theory Go_Encoding
  imports Prelude
begin

text \<open>
  The parts of Go's standard library that turn bytes into text and back, as the source
  uses them: \<^verbatim>\<open>encoding/hex\<close>, \<^verbatim>\<open>encoding/base64\<close> (standard, raw standard, raw URL, and the
  strict variant), \<^verbatim>\<open>strconv.FormatInt\<close> in base 10 and \<^verbatim>\<open>net/url.PathEscape\<close>. Each encoder
  comes with its round trip and with the exact image of the decoder where a component
  needs it.
\<close>

section \<open>encoding/hex\<close>

definition hexdigit :: "nat \<Rightarrow> char" where
  "hexdigit n = (if n < 10 then byte_of (n + 48) else byte_of (n + 87))"

definition fromHexChar :: "char \<Rightarrow> nat option" where
  "fromHexChar c =
     (let n = byte_val c in
      if 48 \<le> n \<and> n \<le> 57 then Some (n - 48)
      else if 97 \<le> n \<and> n \<le> 102 then Some (n - 87)
      else if 65 \<le> n \<and> n \<le> 70 then Some (n - 55)
      else None)"

fun hex_encode :: "bytes \<Rightarrow> string" where
  "hex_encode [] = []"
| "hex_encode (c # r) = hexdigit (byte_val c div 16) # hexdigit (byte_val c mod 16) # hex_encode r"

fun hex_decode :: "string \<Rightarrow> bytes option" where
  "hex_decode [] = Some []"
| "hex_decode [c] = None"
| "hex_decode (a # b # r) =
     (case (fromHexChar a, fromHexChar b, hex_decode r) of
        (Some x, Some y, Some bs) \<Rightarrow> Some (byte_of (16 * x + y) # bs)
      | _ \<Rightarrow> None)"

definition is_lower_hex_char :: "char \<Rightarrow> bool" where
  "is_lower_hex_char c = (let n = byte_val c in (48 \<le> n \<and> n \<le> 57) \<or> (97 \<le> n \<and> n \<le> 102))"

lemma fromHexChar_hexdigit [simp]: "n < 16 \<Longrightarrow> fromHexChar (hexdigit n) = Some n"
  by (auto simp: hexdigit_def fromHexChar_def Let_def)

lemma is_lower_hex_hexdigit [simp]: "n < 16 \<Longrightarrow> is_lower_hex_char (hexdigit n)"
  by (auto simp: hexdigit_def is_lower_hex_char_def Let_def)

lemma hexdigit_fromHexChar:
  assumes "is_lower_hex_char c" "fromHexChar c = Some n"
  shows "n < 16 \<and> hexdigit n = c"
  using assms
  by (auto simp: is_lower_hex_char_def fromHexChar_def hexdigit_def Let_def
      intro: byte_of_eq split: if_splits)

lemma fromHexChar_less: "fromHexChar c = Some n \<Longrightarrow> n < 16"
  by (auto simp: fromHexChar_def Let_def split: if_splits)

lemma length_hex_encode [simp]: "length (hex_encode b) = 2 * length b"
  by (induction b) auto

lemma hex_decode_encode [simp]: "hex_decode (hex_encode b) = Some b"
  by (induction b) (auto simp: div_mult_mod_eq less_mult_imp_div_less)

lemma hex_encode_lower: "list_all is_lower_hex_char (hex_encode b)"
  by (induction b) (auto simp: less_mult_imp_div_less)

lemma hex_encode_inject: "hex_encode a = hex_encode b \<longleftrightarrow> a = b"
  by (metis hex_decode_encode option.inject)

lemma length_hex_decode: "hex_decode s = Some b \<Longrightarrow> length s = 2 * length b"
  by (induction s arbitrary: b rule: hex_decode.induct) (auto split: option.splits)

lemma hex_encode_decode_lower:
  "hex_decode s = Some b \<Longrightarrow> list_all is_lower_hex_char s \<Longrightarrow> hex_encode b = s"
proof (induction s arbitrary: b rule: hex_decode.induct)
  case (3 a c r)
  then obtain x y bs where xy: "fromHexChar a = Some x" "fromHexChar c = Some y"
    and r: "hex_decode r = Some bs" and b: "b = byte_of (16 * x + y) # bs"
    by (auto split: option.splits)
  have hx: "x < 16" "hexdigit x = a" and hy: "y < 16" "hexdigit y = c"
    using 3(3) xy hexdigit_fromHexChar by auto
  have "hex_encode bs = r" using 3 xy r by simp
  then show ?case using b hx hy by simp
qed auto

section \<open>encoding/base64\<close>

definition b64char :: "nat \<Rightarrow> char" where
  "b64char n =
     (if n < 26 then byte_of (n + 65) else if n < 52 then byte_of (n + 71)
      else if n < 62 then byte_of (n - 4) else if n = 62 then byte_of 43 else byte_of 47)"

text \<open>The decode tables of \<^verbatim>\<open>StdEncoding\<close> and, with \<open>url\<close>, of \<^verbatim>\<open>URLEncoding\<close>.\<close>

definition b64val :: "bool \<Rightarrow> char \<Rightarrow> nat option" where
  "b64val url c =
     (let n = byte_val c in
      if 65 \<le> n \<and> n \<le> 90 then Some (n - 65)
      else if 97 \<le> n \<and> n \<le> 122 then Some (n - 71)
      else if 48 \<le> n \<and> n \<le> 57 then Some (n + 4)
      else if n = (if url then 45 else 43) then Some 62
      else if n = (if url then 95 else 47) then Some 63
      else None)"

fun b64_encode :: "bytes \<Rightarrow> string" where
  "b64_encode [] = []"
| "b64_encode [a] =
     [b64char (byte_val a div 4), b64char (byte_val a mod 4 * 16), CHR ''='', CHR ''='']"
| "b64_encode [a, b] =
     [b64char (byte_val a div 4), b64char (byte_val a mod 4 * 16 + byte_val b div 16),
      b64char (byte_val b mod 16 * 4), CHR ''='']"
| "b64_encode (a # b # c # r) =
     b64char (byte_val a div 4) # b64char (byte_val a mod 4 * 16 + byte_val b div 16) #
     b64char (byte_val b mod 16 * 4 + byte_val c div 64) # b64char (byte_val c mod 64) #
     b64_encode r"

text \<open>The final quantum of two or three data characters.\<close>

definition b64_last1 :: "bool \<Rightarrow> bool \<Rightarrow> char \<Rightarrow> char \<Rightarrow> bytes option" where
  "b64_last1 url strict a b =
     (case (b64val url a, b64val url b) of
        (Some x, Some y) \<Rightarrow>
          if strict \<and> y mod 16 \<noteq> 0 then None else Some [byte_of (x * 4 + y div 16)]
      | _ \<Rightarrow> None)"

definition b64_last2 :: "bool \<Rightarrow> bool \<Rightarrow> char \<Rightarrow> char \<Rightarrow> char \<Rightarrow> bytes option" where
  "b64_last2 url strict a b c =
     (case (b64val url a, b64val url b, b64val url c) of
        (Some x, Some y, Some z) \<Rightarrow>
          if strict \<and> z mod 4 \<noteq> 0 then None
          else Some [byte_of (x * 4 + y div 16), byte_of (y mod 16 * 16 + z div 4)]
      | _ \<Rightarrow> None)"

definition b64_quad :: "bool \<Rightarrow> char \<Rightarrow> char \<Rightarrow> char \<Rightarrow> char \<Rightarrow> bytes option" where
  "b64_quad url a b c d =
     (case (b64val url a, b64val url b, b64val url c, b64val url d) of
        (Some x, Some y, Some z, Some w) \<Rightarrow>
          Some [byte_of (x * 4 + y div 16), byte_of (y mod 16 * 16 + z div 4),
                byte_of (z mod 4 * 64 + w)]
      | _ \<Rightarrow> None)"

text \<open>\<open>pad\<close>: the encoding has a padding character; \<open>strict\<close>: spare bits must be zero.\<close>

fun b64_body :: "bool \<Rightarrow> bool \<Rightarrow> bool \<Rightarrow> string \<Rightarrow> bytes option" where
  "b64_body url pad strict [] = Some []"
| "b64_body url pad strict [a] = None"
| "b64_body url pad strict [a, b] = (if pad then None else b64_last1 url strict a b)"
| "b64_body url pad strict [a, b, c] = (if pad then None else b64_last2 url strict a b c)"
| "b64_body url pad strict (a # b # c # d # r) =
     (if pad \<and> r = [] \<and> c = CHR ''='' \<and> d = CHR ''='' then b64_last1 url strict a b
      else if pad \<and> r = [] \<and> d = CHR ''='' then b64_last2 url strict a b c
      else case b64_quad url a b c d of
             None \<Rightarrow> None
           | Some q \<Rightarrow> map_option (\<lambda>t. q @ t) (b64_body url pad strict r))"

text \<open>The decoder skips carriage returns and line feeds wherever they stand.\<close>

definition b64_decode :: "bool \<Rightarrow> bool \<Rightarrow> bool \<Rightarrow> string \<Rightarrow> bytes option" where
  "b64_decode url pad strict s =
     b64_body url pad strict (filter (\<lambda>c. c \<noteq> CHR 0x0A \<and> c \<noteq> CHR 0x0D) s)"

definition std_decode :: "string \<Rightarrow> bytes option" where
  "std_decode = b64_decode False True False"

definition std_strict_decode :: "string \<Rightarrow> bytes option" where
  "std_strict_decode = b64_decode False True True"

definition raw_std_decode :: "string \<Rightarrow> bytes option" where
  "raw_std_decode = b64_decode False False False"

definition raw_url_decode :: "string \<Rightarrow> bytes option" where
  "raw_url_decode = b64_decode True False False"

subsection \<open>The alphabet\<close>

definition is_std_b64_char :: "char \<Rightarrow> bool" where
  "is_std_b64_char c = (b64val False c \<noteq> None)"

lemma b64val_b64char [simp]: "n < 64 \<Longrightarrow> b64val False (b64char n) = Some n"
  by (auto simp: b64char_def b64val_def Let_def)

lemma b64val_less: "b64val False c = Some n \<Longrightarrow> n < 64"
  by (auto simp: b64val_def Let_def split: if_splits)

lemma b64val_eq [simp]: "b64val False (CHR ''='') = None"
  by (simp add: b64val_def)

lemma b64char_b64val: "b64val False c = Some n \<Longrightarrow> b64char n = c"
  by (auto simp: b64val_def b64char_def Let_def intro: byte_of_eq split: if_splits)

lemma b64char_not_pad [simp]: "n < 64 \<Longrightarrow> b64char n \<noteq> CHR ''=''"
  using b64val_b64char b64val_eq by (metis option.distinct(1))

lemma std_char_not_newline:
  "is_std_b64_char c \<Longrightarrow> c \<noteq> CHR 0x0A \<and> c \<noteq> CHR 0x0D"
  by (auto simp: is_std_b64_char_def b64val_def)

lemma is_std_b64char [simp]: "n < 64 \<Longrightarrow> is_std_b64_char (b64char n)"
  by (simp add: is_std_b64_char_def)

subsection \<open>Round trip\<close>

lemma b64_arith [simp]:
  "(of_char a :: nat) div 4 < 64"
  "(of_char a :: nat) mod 4 * 16 < 64"
  "(of_char a :: nat) mod 4 * 16 + of_char b div 16 < 64"
  "(of_char b :: nat) mod 16 * 4 < 64"
  "(of_char b :: nat) mod 16 * 4 + of_char c div 64 < 64"
proof -
  have a: "(of_char a :: nat) mod 4 < 4" by simp
  have b: "(of_char b :: nat) mod 16 < 16" by simp
  have d: "(of_char b :: nat) div 16 < 16" by (simp add: div_less_iff_less_mult)
  have e: "(of_char c :: nat) div 64 < 4" by (simp add: div_less_iff_less_mult)
  show "(of_char a :: nat) div 4 < 64" by (simp add: div_less_iff_less_mult)
  show "(of_char a :: nat) mod 4 * 16 < 64" using a by linarith
  show "(of_char a :: nat) mod 4 * 16 + of_char b div 16 < 64" using a d by linarith
  show "(of_char b :: nat) mod 16 * 4 < 64" using b by linarith
  show "(of_char b :: nat) mod 16 * 4 + of_char c div 64 < 64" using b e by linarith
qed

lemma b64_join1:
  "k < 16 \<Longrightarrow> byte_of (of_char a div 4 * 4 + (of_char a mod 4 * 16 + k) div 16) = a"
  by simp

lemma b64_join2:
  assumes "k < 4"
  shows "byte_of ((of_char a mod 4 * 16 + of_char b div 16) mod 16 * 16
                  + (of_char b mod 16 * 4 + k) div 4) = b"
proof -
  have d: "(of_char b :: nat) div 16 < 16" by (simp add: div_less_iff_less_mult)
  have "((of_char a :: nat) mod 4 * 16 + of_char b div 16) mod 16 = of_char b div 16"
    using d by simp
  moreover have "((of_char b :: nat) mod 16 * 4 + k) div 4 = of_char b mod 16"
    using assms by simp
  ultimately show ?thesis by simp
qed

lemma b64_join3:
  "byte_of ((of_char b mod 16 * 4 + of_char c div 64) mod 4 * 64 + of_char c mod 64) = c"
proof -
  have e: "(of_char c :: nat) div 64 < 4" by (simp add: div_less_iff_less_mult)
  have "((of_char b :: nat) mod 16 * 4 + of_char c div 64) mod 4 = of_char c div 64"
    using e by simp
  then show ?thesis by simp
qed

lemma byte_div16 [simp]: "(of_char b :: nat) div 16 < 16"
  by (simp add: div_less_iff_less_mult)

lemma byte_div64 [simp]: "(of_char c :: nat) div 64 < 4"
  by (simp add: div_less_iff_less_mult)

lemma b64_body_encode: "b64_body False True s (b64_encode x) = Some x"
proof (induction x rule: b64_encode.induct)
  case (2 a)
  show ?case using b64_join1 [of 0 a] by (simp add: b64_last1_def)
next
  case (3 a b)
  show ?case using b64_join1 [of "of_char b div 16" a] b64_join2 [of 0 a b]
    by (simp add: b64_last2_def)
next
  case (4 a b c r)
  have "b64_quad False (b64char (byte_val a div 4))
      (b64char (byte_val a mod 4 * 16 + byte_val b div 16))
      (b64char (byte_val b mod 16 * 4 + byte_val c div 64)) (b64char (byte_val c mod 64))
    = Some [a, b, c]"
    using b64_join1 [of "of_char b div 16" a] b64_join2 [of "of_char c div 64" a b]
      b64_join3 [of b c]
    by (simp add: b64_quad_def)
  then show ?case using 4 by simp
qed simp

lemma b64_encode_no_newline:
  "filter (\<lambda>c. c \<noteq> CHR 0x0A \<and> c \<noteq> CHR 0x0D) (b64_encode x) = b64_encode x"
proof (induction x rule: b64_encode.induct)
qed (simp_all add: std_char_not_newline)

lemma std_decode_encode [simp]: "std_decode (b64_encode x) = Some x"
  by (simp add: std_decode_def b64_decode_def b64_encode_no_newline b64_body_encode)

lemma std_strict_decode_encode [simp]: "std_strict_decode (b64_encode x) = Some x"
  by (simp add: std_strict_decode_def b64_decode_def b64_encode_no_newline b64_body_encode)

lemma b64_encode_inject: "b64_encode x = b64_encode y \<longleftrightarrow> x = y"
  by (metis std_decode_encode option.inject)

lemma b64_encode_length: "length (b64_encode x) = 4 * ((length x + 2) div 3)"
proof (induction x rule: b64_encode.induct)
  case (4 a b c r)
  have "(length r + 5) div 3 = Suc ((length r + 2) div 3)" by arith
  then show ?case using 4 by (simp add: algebra_simps)
qed simp_all

text \<open>
  The strict decoder is injective on its unpadded-newline-free inputs: a string that decodes
  strictly is the encoding of what it decodes to.
\<close>

lemma b64_last1_strict: "b64_last1 False True a b = Some x \<Longrightarrow> b64_encode x = [a, b, CHR ''='', CHR ''='']"
  apply (clarsimp simp: b64_last1_def split: option.splits if_splits)
  subgoal premises p for m n
  proof -
    have m: "m < 64" "b64char m = a" and n: "n < 64" "b64char n = b"
      using p b64val_less b64char_b64val by blast+
    obtain k where k: "n = 16 * k" using p by (auto elim: dvdE simp: mod_eq_0_iff_dvd)
    then have "k < 4" using n by simp
    then show ?thesis using m n k by (simp add: mult.commute)
  qed
  done

lemma b64_last2_strict:
  "b64_last2 False True a b c = Some x \<Longrightarrow> b64_encode x = [a, b, c, CHR ''='']"
  apply (clarsimp simp: b64_last2_def split: option.splits if_splits)
  subgoal premises p for m n l
  proof -
    have m: "m < 64" "b64char m = a" and n: "n < 64" "b64char n = b" and l: "l < 64" "b64char l = c"
      using p b64val_less b64char_b64val by blast+
    obtain k where k: "l = 4 * k" using p by (auto elim: dvdE simp: mod_eq_0_iff_dvd)
    have k16: "k < 16" using k l by simp
    have n4: "n div 16 < 4" using n by (simp add: div_less_iff_less_mult)
    have 1: "(m * 4 + n div 16) mod 256 = m * 4 + n div 16" using m n4 by simp
    have 2: "(n mod 16 * 16 + k) mod 256 = n mod 16 * 16 + k"
      using k16 mod_less_divisor [of 16 n] by (intro mod_less) linarith
    have 3: "(m * 4 + n div 16) div 4 = m" "(m * 4 + n div 16) mod 4 = n div 16"
      using n4 by simp_all
    have 4: "(n mod 16 * 16 + k) div 16 = n mod 16" "(n mod 16 * 16 + k) mod 16 = k"
      using k16 by simp_all
    show ?thesis using m n l k by (simp add: 1 2 3 4 mult.commute)
  qed
  done

lemma b64_quad_encode:
  "b64_quad False a b c d = Some q \<Longrightarrow> b64_encode (q @ r) = a # b # c # d # b64_encode r"
  apply (clarsimp simp: b64_quad_def split: option.splits)
  subgoal premises p for m n l j
  proof -
    have m: "m < 64" "b64char m = a" and n: "n < 64" "b64char n = b"
      and l: "l < 64" "b64char l = c" and j: "j < 64" "b64char j = d"
      using p b64val_less b64char_b64val by blast+
    have n4: "n div 16 < 4" and l16: "l div 4 < 16"
      using n l by (simp_all add: div_less_iff_less_mult)
    have 1: "(m * 4 + n div 16) mod 256 = m * 4 + n div 16" using m n4 by simp
    have 2: "(n mod 16 * 16 + l div 4) mod 256 = n mod 16 * 16 + l div 4"
      using l16 mod_less_divisor [of 16 n] by (intro mod_less) linarith
    have 3: "(l mod 4 * 64 + j) mod 256 = l mod 4 * 64 + j"
      using j mod_less_divisor [of 4 l] by (intro mod_less) linarith
    have 4: "(m * 4 + n div 16) div 4 = m" "(m * 4 + n div 16) mod 4 = n div 16"
      using n4 by simp_all
    have 5: "(n mod 16 * 16 + l div 4) div 16 = n mod 16" "(n mod 16 * 16 + l div 4) mod 16 = l div 4"
      using l16 by simp_all
    have 6: "(l mod 4 * 64 + j) div 64 = l mod 4" "(l mod 4 * 64 + j) mod 64 = j"
      using j by simp_all
    show ?thesis using m n l j by (simp add: 1 2 3 4 5 6)
  qed
  done

lemma b64_body_strict: "b64_body False True True s = Some x \<Longrightarrow> b64_encode x = s"
proof (induction False True True s arbitrary: x rule: b64_body.induct)
  case (5 a b c d r)
  show ?case
  proof (cases "r = [] \<and> d = CHR ''=''")
    case True
    then show ?thesis using 5(2) b64_last1_strict b64_last2_strict by (auto split: if_splits)
  next
    case False
    then obtain q t where "b64_quad False a b c d = Some q" "b64_body False True True r = Some t"
      "x = q @ t" using 5(2) by (auto split: option.splits if_splits)
    then show ?thesis using False 5(1) b64_quad_encode by auto
  qed
qed auto

section \<open>strconv.FormatInt and strconv.Itoa in base 10\<close>

fun digits :: "nat \<Rightarrow> string" where
  "digits n = (if n < 10 then [byte_of (n + 48)] else digits (n div 10) @ [byte_of (n mod 10 + 48)])"

declare digits.simps [simp del]

definition itoa :: "int \<Rightarrow> string" where
  "itoa i = (if i < 0 then CHR ''-'' # digits (nat (- i)) else digits (nat i))"

definition digits_val :: "string \<Rightarrow> nat" where
  "digits_val s = foldl (\<lambda>a c. 10 * a + (byte_val c - 48)) 0 s"

definition is_digit :: "char \<Rightarrow> bool" where
  "is_digit c = (48 \<le> byte_val c \<and> byte_val c \<le> 57)"

lemma digits_val_digits [simp]: "digits_val (digits n) = n"
proof (induction n rule: digits.induct)
  case (1 n)
  then show ?case by (cases "n < 10") (simp_all add: digits.simps [of n] digits_val_def)
qed

lemma digits_nonempty [simp]: "digits n \<noteq> []"
  by (subst digits.simps) simp

lemma digits_all: "list_all is_digit (digits n)"
proof (induction n rule: digits.induct)
  case (1 n)
  then show ?case by (cases "n < 10") (simp_all add: digits.simps [of n] is_digit_def)
qed

lemma digits_inject: "digits m = digits n \<longleftrightarrow> m = n"
  by (metis digits_val_digits)

lemma hd_digits: "is_digit (hd (digits n))"
  using digits_all [of n] by (cases "digits n") auto

lemma itoa_nonneg_inject: "0 \<le> i \<Longrightarrow> 0 \<le> j \<Longrightarrow> itoa i = itoa j \<longleftrightarrow> i = j"
  by (auto simp: itoa_def digits_inject)

lemma itoa_nonempty [simp]: "itoa i \<noteq> []"
  by (simp add: itoa_def)

text \<open>\<^verbatim>\<open>strconv.Atoi\<close> / \<^verbatim>\<open>strconv.ParseInt(s, 10, 64)\<close>: an optional sign and decimal digits, in range.\<close>

definition parse_int64 :: "string \<Rightarrow> int option" where
  "parse_int64 s =
     (let neg = (s \<noteq> [] \<and> hd s = CHR ''-'');
          body = (if s \<noteq> [] \<and> (hd s = CHR ''-'' \<or> hd s = CHR ''+'') then tl s else s)
      in if body = [] \<or> \<not> list_all is_digit body then None
         else let v = int (digits_val body) in
              if neg then (if v \<le> 2 ^ 63 then Some (- v) else None)
              else if v < 2 ^ 63 then Some v else None)"

lemma parse_int64_itoa: "0 \<le> i \<Longrightarrow> i < 2 ^ 63 \<Longrightarrow> parse_int64 (itoa i) = Some i"
proof -
  assume i: "0 \<le> i" "i < 2 ^ 63"
  have "hd (digits (nat i)) \<noteq> CHR ''-'' \<and> hd (digits (nat i)) \<noteq> CHR ''+''"
    using hd_digits [of "nat i"] by (auto simp: is_digit_def)
  then show ?thesis using i digits_all [of "nat i"]
    by (simp add: parse_int64_def itoa_def Let_def)
qed

section \<open>net/url.PathEscape\<close>

text \<open>
  \<^verbatim>\<open>url.PathEscape\<close> keeps the unreserved characters and those that Go's \<^verbatim>\<open>shouldEscape\<close> lets
  through in a path segment, and writes every other byte as \<^verbatim>\<open>%XX\<close> in upper-case hex.
\<close>

definition upperhex :: "nat \<Rightarrow> char" where
  "upperhex n = (if n < 10 then byte_of (n + 48) else byte_of (n + 55))"

definition path_keep :: "char \<Rightarrow> bool" where
  "path_keep c =
     (let n = byte_val c in
      (97 \<le> n \<and> n \<le> 122) \<or> (65 \<le> n \<and> n \<le> 90) \<or> (48 \<le> n \<and> n \<le> 57)
      \<or> c \<in> set ''-_.~'' \<or> c \<in> set ''$&+:=@'')"

fun path_escape :: "string \<Rightarrow> string" where
  "path_escape [] = []"
| "path_escape (c # r) =
     (if path_keep c then c # path_escape r
      else CHR ''%'' # upperhex (byte_val c div 16) # upperhex (byte_val c mod 16) # path_escape r)"

text \<open>The inverse that a server applies to a path segment (\<^verbatim>\<open>url.PathUnescape\<close>).\<close>

fun path_unescape :: "string \<Rightarrow> string option" where
  "path_unescape [] = Some []"
| "path_unescape (c # r) =
     (if c = CHR ''%'' then
        (case r of
           a # b # r' \<Rightarrow>
             (case (fromHexChar a, fromHexChar b, path_unescape r') of
                (Some x, Some y, Some t) \<Rightarrow> Some (byte_of (16 * x + y) # t)
              | _ \<Rightarrow> None)
         | _ \<Rightarrow> None)
      else map_option (\<lambda>t. c # t) (path_unescape r))"

lemma fromHexChar_upperhex [simp]: "n < 16 \<Longrightarrow> fromHexChar (upperhex n) = Some n"
  by (auto simp: upperhex_def fromHexChar_def Let_def)

lemma path_keep_not_percent: "path_keep c \<Longrightarrow> c \<noteq> CHR ''%'' \<and> c \<noteq> CHR ''/''"
  by (auto simp: path_keep_def)

lemma path_unescape_escape [simp]: "path_unescape (path_escape s) = Some s"
  by (induction s) (auto simp: path_keep_not_percent less_mult_imp_div_less)

lemma path_escape_inject: "path_escape s = path_escape t \<longleftrightarrow> s = t"
  by (metis path_unescape_escape option.inject)

lemma upperhex_not_slash [simp]: "n < 16 \<Longrightarrow> upperhex n \<noteq> CHR ''/''"
  using fromHexChar_upperhex [of n] by (auto simp: fromHexChar_def)

lemma path_escape_no_slash: "CHR ''/'' \<notin> set (path_escape s)"
proof (induction s)
  case (Cons c s)
  have "byte_val c div 16 < 16" "byte_val c mod 16 < 16" by simp_all
  then show ?case using Cons path_keep_not_percent [of c] upperhex_not_slash
    by (auto simp del: upperhex_not_slash dest: sym)
qed simp

lemma path_escape_Nil [simp]: "path_escape s = [] \<longleftrightarrow> s = []"
  by (cases s) auto

end
