(* ===== verification/Go_Crypto.thy ===== *)
theory Go_Crypto
  imports Go_Encoding
begin

text \<open>
  The cryptographic part of Go's standard library that the source calls: \<^verbatim>\<open>crypto/aes\<close>
  (AES-256, FIPS 197), \<^verbatim>\<open>crypto/cipher\<close> (GCM with a 12-byte nonce and a 16-byte tag, NIST
  SP 800-38D), \<^verbatim>\<open>crypto/sha256\<close> (FIPS 180-4) and \<^verbatim>\<open>crypto/hmac\<close> (RFC 2104), as executable
  functions on bytes, and \<^verbatim>\<open>crypto/rand\<close> as reading from an explicit supply of entropy.
  The facts the components use are that opening inverts sealing, that whatever opens is
  byte for byte a sealing (\<open>gcm_open_iff\<close>), and the sizes of every output. GCM's limit of
  2^36 - 32 bytes per message is far above the source's 32 MiB cap and is left out.
\<close>

unbundle bit_operations_syntax

section \<open>Bytes as 8-bit words\<close>

definition wbyte :: "char \<Rightarrow> 8 word" where
  "wbyte c = of_nat (byte_val c)"

definition cbyte :: "8 word \<Rightarrow> char" where
  "cbyte w = byte_of (unat w)"

lemma wbyte_cbyte [simp]: "wbyte (cbyte w) = w"
proof -
  have "unat w < 256" using unsigned_less [of w, where 'a = nat] by simp
  then show ?thesis by (simp add: wbyte_def cbyte_def)
qed

lemma cbyte_wbyte [simp]: "cbyte (wbyte c) = c"
  by (simp add: wbyte_def cbyte_def unat_of_nat)

definition xor_bytes :: "bytes \<Rightarrow> bytes \<Rightarrow> bytes" where
  "xor_bytes a b = map2 (\<lambda>x y. cbyte (wbyte x XOR wbyte y)) a b"

lemma length_xor_bytes [simp]: "length (xor_bytes a b) = min (length a) (length b)"
  by (simp add: xor_bytes_def)

lemma xor_bytes_twice: "length a \<le> length b \<Longrightarrow> xor_bytes (xor_bytes a b) b = a"
  by (rule nth_equalityI) (simp_all add: xor_bytes_def xor.assoc)

section \<open>AES-256\<close>

definition xtime :: "8 word \<Rightarrow> 8 word" where
  "xtime b = (push_bit 1 b) XOR (if bit b 7 then 0x1b else 0)"

fun gmul_steps :: "nat \<Rightarrow> 8 word \<Rightarrow> 8 word \<Rightarrow> 8 word" where
  "gmul_steps 0 a b = 0"
| "gmul_steps (Suc n) a b = (if bit b 0 then a else 0) XOR gmul_steps n (xtime a) (drop_bit 1 b)"

definition gmul :: "8 word \<Rightarrow> 8 word \<Rightarrow> 8 word" where
  "gmul a b = gmul_steps 8 a b"

text \<open>The multiplicative inverse is the 254th power.\<close>

definition ginv :: "8 word \<Rightarrow> 8 word" where
  "ginv a = (let a2 = gmul a a; a4 = gmul a2 a2; a8 = gmul a4 a4; a16 = gmul a8 a8;
                 a32 = gmul a16 a16; a64 = gmul a32 a32; a128 = gmul a64 a64
             in gmul a128 (gmul a64 (gmul a32 (gmul a16 (gmul a8 (gmul a4 a2))))))"

definition rotl8 :: "nat \<Rightarrow> 8 word \<Rightarrow> 8 word" where
  "rotl8 n b = push_bit n b OR drop_bit (8 - n) b"

definition sbox :: "8 word \<Rightarrow> 8 word" where
  "sbox b = (let i = ginv b in i XOR rotl8 1 i XOR rotl8 2 i XOR rotl8 3 i XOR rotl8 4 i XOR 0x63)"

type_synonym block = "8 word list"

definition sub_word :: "block \<Rightarrow> block" where
  "sub_word w = map sbox w"

definition rot_word :: "block \<Rightarrow> block" where
  "rot_word w = tl w @ [hd w]"

fun rcon :: "nat \<Rightarrow> 8 word" where
  "rcon 0 = 0x8d"
| "rcon (Suc n) = xtime (rcon n)"

text \<open>The key schedule: the words generated so far, and the index of the next one.\<close>

fun expand_key :: "nat \<Rightarrow> nat \<Rightarrow> block list \<Rightarrow> block list" where
  "expand_key 0 i ws = ws"
| "expand_key (Suc n) i ws =
     (let prev = ws ! (i - 1);
          t = (if i mod 8 = 0
               then (let s = sub_word (rot_word prev) in (hd s XOR rcon (i div 8)) # tl s)
               else if i mod 8 = 4 then sub_word prev else prev);
          w = map2 (XOR) (ws ! (i - 8)) t
      in expand_key n (Suc i) (ws @ [w]))"

definition key_words :: "block \<Rightarrow> block list" where
  "key_words k = expand_key 52 8 (map (\<lambda>i. take 4 (drop (4 * i) k)) [0..<8])"

definition round_key :: "block list \<Rightarrow> nat \<Rightarrow> block" where
  "round_key ws r = concat (take 4 (drop (4 * r) ws))"

definition add_round_key :: "block \<Rightarrow> block \<Rightarrow> block" where
  "add_round_key k s = map (\<lambda>i. s ! i XOR k ! i) [0..<16]"

definition shift_rows :: "block \<Rightarrow> block" where
  "shift_rows s = map (\<lambda>i. s ! (4 * ((i div 4 + i mod 4) mod 4) + i mod 4)) [0..<16]"

definition mix_columns :: "block \<Rightarrow> block" where
  "mix_columns s =
     map (\<lambda>i. let c = 4 * (i div 4); r = i mod 4 in
            gmul 2 (s ! (c + r)) XOR gmul 3 (s ! (c + (r + 1) mod 4))
            XOR s ! (c + (r + 2) mod 4) XOR s ! (c + (r + 3) mod 4)) [0..<16]"

definition aes256_block :: "block list \<Rightarrow> block \<Rightarrow> block" where
  "aes256_block ws b =
     (let s0 = add_round_key (round_key ws 0) b;
          s13 = fold (\<lambda>r s. add_round_key (round_key ws r)
                               (mix_columns (shift_rows (map sbox s)))) [1..<14] s0
      in add_round_key (round_key ws 14) (shift_rows (map sbox s13)))"

lemma length_aes256_block [simp]: "length (aes256_block ws b) = 16"
  by (simp add: aes256_block_def Let_def add_round_key_def)

definition aes_encrypt :: "bytes \<Rightarrow> bytes \<Rightarrow> bytes" where
  "aes_encrypt key b = map cbyte (aes256_block (key_words (map wbyte key)) (map wbyte b))"

lemma length_aes_encrypt [simp]: "length (aes_encrypt key b) = 16"
  by (simp add: aes_encrypt_def)

section \<open>GCM\<close>

definition be_bytes :: "nat \<Rightarrow> nat \<Rightarrow> bytes" where
  "be_bytes n v = map (\<lambda>i. byte_of (v div 256 ^ (n - 1 - i))) [0..<n]"

lemma length_be_bytes [simp]: "length (be_bytes n v) = n"
  by (simp add: be_bytes_def)

definition be_val :: "bytes \<Rightarrow> nat" where
  "be_val b = foldl (\<lambda>a c. 256 * a + byte_val c) 0 b"

definition block128 :: "bytes \<Rightarrow> 128 word" where
  "block128 b = of_nat (be_val b)"

text \<open>Multiplication in the field of GCM, most significant bit first.\<close>

fun gcm_mul_steps :: "nat \<Rightarrow> 128 word \<Rightarrow> 128 word \<Rightarrow> 128 word \<Rightarrow> 128 word" where
  "gcm_mul_steps 0 x v z = z"
| "gcm_mul_steps (Suc n) x v z =
     gcm_mul_steps n x
       (if bit v 0 then drop_bit 1 v XOR push_bit 120 0xe1 else drop_bit 1 v)
       (if bit x n then z XOR v else z)"

definition gcm_mul :: "128 word \<Rightarrow> 128 word \<Rightarrow> 128 word" where
  "gcm_mul x y = gcm_mul_steps 128 x y 0"

fun chunks16 :: "nat \<Rightarrow> bytes \<Rightarrow> bytes list" where
  "chunks16 0 b = []"
| "chunks16 (Suc n) b = take 16 b # chunks16 n (drop 16 b)"

definition pad16 :: "bytes \<Rightarrow> bytes" where
  "pad16 b = b @ replicate ((16 - length b mod 16) mod 16) (byte_of 0)"

definition ghash :: "bytes \<Rightarrow> bytes \<Rightarrow> bytes" where
  "ghash h x =
     be_bytes 16 (unat (fold (\<lambda>b y. gcm_mul (y XOR block128 b) (block128 h))
                          (chunks16 (length x div 16) x) 0))"

definition ctr_block :: "bytes \<Rightarrow> nat \<Rightarrow> bytes" where
  "ctr_block nonce i = nonce @ be_bytes 4 (i mod 2 ^ 32)"

definition keystream :: "bytes \<Rightarrow> bytes \<Rightarrow> nat \<Rightarrow> bytes" where
  "keystream key nonce n = concat (map (\<lambda>i. aes_encrypt key (ctr_block nonce (i + 2))) [0..<(n + 15) div 16])"

definition gcm_ctr :: "bytes \<Rightarrow> bytes \<Rightarrow> bytes \<Rightarrow> bytes" where
  "gcm_ctr key nonce m = xor_bytes m (keystream key nonce (length m))"

definition gcm_tag :: "bytes \<Rightarrow> bytes \<Rightarrow> bytes \<Rightarrow> bytes \<Rightarrow> bytes" where
  "gcm_tag key nonce ct aad =
     xor_bytes (ghash (aes_encrypt key (replicate 16 (byte_of 0)))
                  (pad16 aad @ pad16 ct @ be_bytes 8 (8 * length aad) @ be_bytes 8 (8 * length ct)))
               (aes_encrypt key (ctr_block nonce 1))"

definition gcm_seal :: "bytes \<Rightarrow> bytes \<Rightarrow> bytes \<Rightarrow> bytes \<Rightarrow> bytes" where
  "gcm_seal key nonce m aad = (let ct = gcm_ctr key nonce m in ct @ gcm_tag key nonce ct aad)"

definition gcm_open :: "bytes \<Rightarrow> bytes \<Rightarrow> bytes \<Rightarrow> bytes \<Rightarrow> bytes option" where
  "gcm_open key nonce c aad =
     (if length c < 16 then None
      else let ct = take (length c - 16) c; tag = drop (length c - 16) c in
           if tag = gcm_tag key nonce ct aad then Some (gcm_ctr key nonce ct) else None)"

lemma length_concat_blocks:
  "length (concat (map (\<lambda>i. aes_encrypt key (f i)) xs)) = 16 * length xs"
  by (induction xs) auto

lemma length_keystream: "n \<le> length (keystream key nonce n)"
  by (simp add: keystream_def length_concat_blocks)

lemma length_gcm_ctr [simp]: "length (gcm_ctr key nonce m) = length m"
  using length_keystream [of "length m"] by (simp add: gcm_ctr_def min_absorb1)

lemma gcm_ctr_twice [simp]: "gcm_ctr key nonce (gcm_ctr key nonce m) = m"
proof -
  have "gcm_ctr key nonce (gcm_ctr key nonce m)
      = xor_bytes (gcm_ctr key nonce m) (keystream key nonce (length m))"
    by (subst gcm_ctr_def) simp
  then show ?thesis using xor_bytes_twice [OF length_keystream] by (simp add: gcm_ctr_def)
qed

lemma length_gcm_tag [simp]: "length (gcm_tag key nonce ct aad) = 16"
  by (simp add: gcm_tag_def ghash_def)

lemma length_gcm_seal [simp]: "length (gcm_seal key nonce m aad) = length m + 16"
  by (simp add: gcm_seal_def Let_def)

lemma gcm_open_seal [simp]: "gcm_open key nonce (gcm_seal key nonce m aad) aad = Some m"
  by (simp add: gcm_open_def gcm_seal_def Let_def)

lemma gcm_open_iff: "gcm_open key nonce c aad = Some m \<longleftrightarrow> c = gcm_seal key nonce m aad"
proof
  assume "gcm_open key nonce c aad = Some m"
  then have l: "16 \<le> length c"
    and t: "drop (length c - 16) c = gcm_tag key nonce (take (length c - 16) c) aad"
    and m: "m = gcm_ctr key nonce (take (length c - 16) c)"
    by (auto simp: gcm_open_def Let_def split: if_splits)
  have "gcm_seal key nonce m aad = take (length c - 16) c @ drop (length c - 16) c"
    using t m by (simp add: gcm_seal_def Let_def)
  then show "c = gcm_seal key nonce m aad" by simp
qed simp

section \<open>SHA-256 and HMAC\<close>

definition sha256_k :: "32 word list" where
  "sha256_k =
    [1116352408, 1899447441, 3049323471, 3921009573, 961987163, 1508970993, 2453635748, 2870763221,
     3624381080, 310598401, 607225278, 1426881987, 1925078388, 2162078206, 2614888103, 3248222580,
     3835390401, 4022224774, 264347078, 604807628, 770255983, 1249150122, 1555081692, 1996064986,
     2554220882, 2821834349, 2952996808, 3210313671, 3336571891, 3584528711, 113926993, 338241895,
     666307205, 773529912, 1294757372, 1396182291, 1695183700, 1986661051, 2177026350, 2456956037,
     2730485921, 2820302411, 3259730800, 3345764771, 3516065817, 3600352804, 4094571909, 275423344,
     430227734, 506948616, 659060556, 883997877, 958139571, 1322822218, 1537002063, 1747873779,
     1955562222, 2024104815, 2227730452, 2361852424, 2428436474, 2756734187, 3204031479, 3329325298]"

definition rotr32 :: "nat \<Rightarrow> 32 word \<Rightarrow> 32 word" where
  "rotr32 n w = drop_bit n w OR push_bit (32 - n) w"

fun sha256_schedule :: "nat \<Rightarrow> 32 word list \<Rightarrow> 32 word list" where
  "sha256_schedule 0 ws = ws"
| "sha256_schedule (Suc n) ws =
     (let i = length ws; a = ws ! (i - 15); b = ws ! (i - 2);
          s0 = rotr32 7 a XOR rotr32 18 a XOR drop_bit 3 a;
          s1 = rotr32 17 b XOR rotr32 19 b XOR drop_bit 10 b
      in sha256_schedule n (ws @ [ws ! (i - 16) + s0 + ws ! (i - 7) + s1]))"

definition sha256_round :: "32 word \<times> 32 word \<Rightarrow> 32 word list \<Rightarrow> 32 word list" where
  "sha256_round kw v =
     (let a = v ! 0; b = v ! 1; c = v ! 2; d = v ! 3; e = v ! 4; f = v ! 5; g = v ! 6; h = v ! 7;
          s1 = rotr32 6 e XOR rotr32 11 e XOR rotr32 25 e;
          ch = (e AND f) XOR (NOT e AND g);
          t1 = h + s1 + ch + fst kw + snd kw;
          s0 = rotr32 2 a XOR rotr32 13 a XOR rotr32 22 a;
          maj = (a AND b) XOR (a AND c) XOR (b AND c)
      in [t1 + (s0 + maj), a, b, c, d + t1, e, f, g])"

definition sha256_compress :: "bytes \<Rightarrow> 32 word list \<Rightarrow> 32 word list" where
  "sha256_compress chunk h =
     (let ws = sha256_schedule 48 (map (\<lambda>i. of_nat (be_val (take 4 (drop (4 * i) chunk)))) [0..<16]);
          v = fold sha256_round (zip sha256_k ws) h
      in map2 (+) h v)"

definition sha256_pad :: "bytes \<Rightarrow> bytes" where
  "sha256_pad m = m @ [byte_of 128] @ replicate ((119 - length m mod 64) mod 64) (byte_of 0)
                    @ be_bytes 8 (8 * length m)"

fun chunks64 :: "nat \<Rightarrow> bytes \<Rightarrow> bytes list" where
  "chunks64 0 b = []"
| "chunks64 (Suc n) b = take 64 b # chunks64 n (drop 64 b)"

definition sha256 :: "bytes \<Rightarrow> bytes" where
  "sha256 m =
     (let p = sha256_pad m;
          h = fold sha256_compress (chunks64 (length p div 64) p)
                [1779033703, 3144134277, 1013904242, 2773480762,
                 1359893119, 2600822924, 528734635, 1541459225]
      in take 32 (concat (map (\<lambda>w. be_bytes 4 (unat w)) h)))"

definition hmac_sha256 :: "bytes \<Rightarrow> bytes \<Rightarrow> bytes" where
  "hmac_sha256 key m =
     (let k0 = (if length key > 64 then sha256 key else key);
          k = k0 @ replicate (64 - length k0) (byte_of 0);
          ipad = map (\<lambda>c. cbyte (wbyte c XOR 0x36)) k;
          opad = map (\<lambda>c. cbyte (wbyte c XOR 0x5c)) k
      in sha256 (opad @ sha256 (ipad @ m)))"

lemma length_sha256_round [simp]: "length (sha256_round kw v) = 8"
  by (simp add: sha256_round_def Let_def)

lemma length_fold_round: "length v = 8 \<Longrightarrow> length (fold sha256_round kws v) = 8"
  by (induction kws arbitrary: v) auto

lemma length_fold_compress:
  "length h = 8 \<Longrightarrow> length (fold sha256_compress cs h) = 8"
  by (induction cs arbitrary: h) (auto simp: sha256_compress_def Let_def length_fold_round)

lemma length_concat_words: "length (concat (map (\<lambda>w. be_bytes 4 (f w)) ws)) = 4 * length ws"
  by (induction ws) auto

lemma length_sha256 [simp]: "length (sha256 m) = 32"
  by (simp add: sha256_def Let_def length_fold_compress length_concat_words)

lemma length_hmac_sha256 [simp]: "length (hmac_sha256 key m) = 32"
  by (simp add: hmac_sha256_def Let_def)

section \<open>crypto/rand\<close>

text \<open>
  \<^verbatim>\<open>rand.Read\<close> takes the next bytes of an explicit entropy supply; running out is the error
  return of the call.
\<close>

type_synonym entropy = bytes

definition rand_read :: "nat \<Rightarrow> entropy \<Rightarrow> (bytes \<times> entropy) option" where
  "rand_read n e = (if length e < n then None else Some (take n e, drop n e))"

lemma rand_read_Some: "rand_read n e = Some (b, e') \<Longrightarrow> length b = n \<and> e = b @ e'"
  by (auto simp: rand_read_def split: if_splits)

lemma rand_read_append [simp]: "length b = n \<Longrightarrow> rand_read n (b @ e) = Some (b, e)"
  by (simp add: rand_read_def)

end
