(* ===== verification/Go_Errors.thy ===== *)
theory Go_Errors
  imports Go_Encoding
begin

text \<open>
  Error values of the program. A Go \<^verbatim>\<open>error\<close> is one of the package-level sentinels, an error
  of the standard library (its text abstracted to the package that made it), a text, a
  \<^verbatim>\<open>%w\<close> wrap carrying its full message, a structured controlplane error, an application
  error, one of the two PutBlob outcome errors, an unexpected status of the storage sidecar, or a join. \<open>errors_is\<close> and the
  \<open>errors_as\<close> functions walk the wrap chain the way \<^verbatim>\<open>errors.Is\<close> and \<^verbatim>\<open>errors.As\<close> do.
\<close>

section \<open>Structured errors\<close>

datatype sentinel =
    ErrKeySize | ErrKeyIDSize | ErrCipher | ErrOpHashKeyMaterial | ErrSearchKeyMaterial
  | ErrAADInvalid | ErrUnknownFormat | ErrV2Malformed | ErrV0Malformed | ErrV1Malformed
  | ErrNoMatchingKey | ErrLegacyDecrypt | ErrUnsupportedAlg | ErrInvalidEnvelope
  | ErrPlaintextTooLarge | ErrLegacyAttachmentNotFound | ErrLegacyAttachmentGone
  | ErrAttachmentNotFound | ErrBucketNotFound | ErrBucketForbidden | ErrBucketTooLarge

text \<open>\<^verbatim>\<open>controlplane.Error\<close>.\<close>

record cp_error =
  cpe_StatusCode :: int
  cpe_Code :: string
  cpe_Message :: string
  cpe_CurrentKeyID :: string
  cpe_CurrentETag :: string
  cpe_CurrentRevision :: string
  cpe_OldestReplayableRevision :: string
  cpe_MinimumProtocol :: int
  cpe_MissingAttachments :: "string list"
  cpe_RetryAfterSeconds :: int
  cpe_Raw :: bytes

definition zero_cp_error :: cp_error where
  "zero_cp_error = \<lparr> cpe_StatusCode = 0, cpe_Code = [], cpe_Message = [], cpe_CurrentKeyID = [],
     cpe_CurrentETag = [], cpe_CurrentRevision = [], cpe_OldestReplayableRevision = [],
     cpe_MinimumProtocol = 0, cpe_MissingAttachments = [], cpe_RetryAfterSeconds = 0,
     cpe_Raw = [] \<rparr>"

text \<open>\<^verbatim>\<open>server.AppError\<close>.\<close>

record app_error =
  ae_Status :: int
  ae_Code :: string
  ae_Message :: string
  ae_CurrentKeyID :: string
  ae_CurrentETag :: string
  ae_Reason :: string
  ae_CurrentRevision :: string
  ae_OldestReplayableRevision :: string
  ae_MinimumProtocol :: int
  ae_MissingAttachments :: "string list"
  ae_RetryAfterSeconds :: int

definition zero_app_error :: app_error where
  "zero_app_error = \<lparr> ae_Status = 0, ae_Code = [], ae_Message = [], ae_CurrentKeyID = [],
     ae_CurrentETag = [], ae_Reason = [], ae_CurrentRevision = [],
     ae_OldestReplayableRevision = [], ae_MinimumProtocol = 0, ae_MissingAttachments = [],
     ae_RetryAfterSeconds = 0 \<rparr>"

text \<open>\<^verbatim>\<open>controlplane.PutBlobAmbiguity\<close>.\<close>

datatype put_blob_ambiguity =
    PutBlobTransportFailure | PutBlobUpstreamFailure | PutBlobResponseRead
  | PutBlobResponseDecode | PutBlobInvalidResponse

text \<open>\<^verbatim>\<open>controlplane.SearchIndexState\<close>.\<close>

record search_index_state =
  sis_SourceRevision :: int
  sis_PublicationGeneration :: int
  sis_FenceGeneration :: int
  sis_PublishedSourceRevision :: int
  sis_ObjectKey :: string
  sis_KeyID :: string
  sis_Model :: string
  sis_Incomplete :: bool
  sis_PublicationIncomplete :: bool

datatype go_error =
    ESent sentinel
  | ELib string
  | ENew string
  | EWrap string go_error
  | ECtx
  | ECp cp_error
  | EApp app_error
  | EAmbiguous put_blob_ambiguity go_error
  | EOutcomeUnknown go_error
  | EMaxBytes int
  | ESearchConflict search_index_state
  | EBucketStatus int
  | EJoin "go_error list"

type_synonym 'a result = "go_error + 'a"

section \<open>errors.Is and errors.As\<close>

text \<open>\<^verbatim>\<open>ErrPlaintextTooLarge\<close> itself wraps \<^verbatim>\<open>ErrInvalidEnvelope\<close>.\<close>

definition sentinel_is :: "sentinel \<Rightarrow> sentinel \<Rightarrow> bool" where
  "sentinel_is s t = (s = t \<or> (s = ErrPlaintextTooLarge \<and> t = ErrInvalidEnvelope))"

fun errors_is :: "sentinel \<Rightarrow> go_error \<Rightarrow> bool"
  and errors_is_any :: "sentinel \<Rightarrow> go_error list \<Rightarrow> bool" where
  "errors_is t (ESent s) = sentinel_is s t"
| "errors_is t (EWrap m e) = errors_is t e"
| "errors_is t (EAmbiguous k e) = errors_is t e"
| "errors_is t (EOutcomeUnknown e) = errors_is t e"
| "errors_is t (EJoin es) = errors_is_any t es"
| "errors_is t _ = False"
| "errors_is_any t [] = False"
| "errors_is_any t (e # es) = (errors_is t e \<or> errors_is_any t es)"

fun errors_as_cp :: "go_error \<Rightarrow> cp_error option"
  and errors_as_cp_any :: "go_error list \<Rightarrow> cp_error option" where
  "errors_as_cp (ECp c) = Some c"
| "errors_as_cp (EWrap m e) = errors_as_cp e"
| "errors_as_cp (EAmbiguous k e) = errors_as_cp e"
| "errors_as_cp (EOutcomeUnknown e) = errors_as_cp e"
| "errors_as_cp (EJoin es) = errors_as_cp_any es"
| "errors_as_cp _ = None"
| "errors_as_cp_any [] = None"
| "errors_as_cp_any (e # es) = (case errors_as_cp e of Some c \<Rightarrow> Some c | None \<Rightarrow> errors_as_cp_any es)"

fun errors_as_app :: "go_error \<Rightarrow> app_error option"
  and errors_as_app_any :: "go_error list \<Rightarrow> app_error option" where
  "errors_as_app (EApp a) = Some a"
| "errors_as_app (EWrap m e) = errors_as_app e"
| "errors_as_app (EAmbiguous k e) = errors_as_app e"
| "errors_as_app (EOutcomeUnknown e) = errors_as_app e"
| "errors_as_app (EJoin es) = errors_as_app_any es"
| "errors_as_app _ = None"
| "errors_as_app_any [] = None"
| "errors_as_app_any (e # es) =
     (case errors_as_app e of Some c \<Rightarrow> Some c | None \<Rightarrow> errors_as_app_any es)"

fun errors_as_max_bytes :: "go_error \<Rightarrow> int option"
  and errors_as_max_bytes_any :: "go_error list \<Rightarrow> int option" where
  "errors_as_max_bytes (EMaxBytes n) = Some n"
| "errors_as_max_bytes (EWrap m e) = errors_as_max_bytes e"
| "errors_as_max_bytes (EAmbiguous k e) = errors_as_max_bytes e"
| "errors_as_max_bytes (EOutcomeUnknown e) = errors_as_max_bytes e"
| "errors_as_max_bytes (EJoin es) = errors_as_max_bytes_any es"
| "errors_as_max_bytes _ = None"
| "errors_as_max_bytes_any [] = None"
| "errors_as_max_bytes_any (e # es) =
     (case errors_as_max_bytes e of Some c \<Rightarrow> Some c | None \<Rightarrow> errors_as_max_bytes_any es)"

fun errors_as_ambiguous :: "go_error \<Rightarrow> bool"
  and errors_as_ambiguous_any :: "go_error list \<Rightarrow> bool" where
  "errors_as_ambiguous (EAmbiguous k e) = True"
| "errors_as_ambiguous (EWrap m e) = errors_as_ambiguous e"
| "errors_as_ambiguous (EOutcomeUnknown e) = errors_as_ambiguous e"
| "errors_as_ambiguous (EJoin es) = errors_as_ambiguous_any es"
| "errors_as_ambiguous _ = False"
| "errors_as_ambiguous_any [] = False"
| "errors_as_ambiguous_any (e # es) = (errors_as_ambiguous e \<or> errors_as_ambiguous_any es)"

fun errors_as_outcome_unknown :: "go_error \<Rightarrow> bool"
  and errors_as_outcome_unknown_any :: "go_error list \<Rightarrow> bool" where
  "errors_as_outcome_unknown (EOutcomeUnknown e) = True"
| "errors_as_outcome_unknown (EWrap m e) = errors_as_outcome_unknown e"
| "errors_as_outcome_unknown (EAmbiguous k e) = errors_as_outcome_unknown e"
| "errors_as_outcome_unknown (EJoin es) = errors_as_outcome_unknown_any es"
| "errors_as_outcome_unknown _ = False"
| "errors_as_outcome_unknown_any [] = False"
| "errors_as_outcome_unknown_any (e # es) =
     (errors_as_outcome_unknown e \<or> errors_as_outcome_unknown_any es)"

section \<open>error.Error()\<close>

fun sentinel_string :: "sentinel \<Rightarrow> string" where
  "sentinel_string ErrKeySize = ''key must be exactly 32 bytes''"
| "sentinel_string ErrKeyIDSize = ''key_id must be exactly 16 bytes''"
| "sentinel_string ErrCipher = ''aes-gcm: cipher operation failed''"
| "sentinel_string ErrOpHashKeyMaterial = ''op-hash: CEK must be exactly 32 bytes''"
| "sentinel_string ErrSearchKeyMaterial = ''search-key: CEK must be exactly 32 bytes''"
| "sentinel_string ErrAADInvalid = ''invalid AAD inputs''"
| "sentinel_string ErrUnknownFormat = ''envelope: unknown format''"
| "sentinel_string ErrV2Malformed = ''envelope: malformed v2''"
| "sentinel_string ErrV0Malformed = ''envelope: malformed legacy v0''"
| "sentinel_string ErrV1Malformed = ''envelope: malformed legacy v1''"
| "sentinel_string ErrNoMatchingKey = ''envelope: no key matches kid''"
| "sentinel_string ErrLegacyDecrypt = ''envelope: no provided key decrypted legacy blob''"
| "sentinel_string ErrUnsupportedAlg = ''envelope: unsupported algorithm''"
| "sentinel_string ErrInvalidEnvelope = ''envelope: invalid envelope''"
| "sentinel_string ErrPlaintextTooLarge =
     ''envelope: invalid envelope: plaintext exceeds 33554432 bytes''"
| "sentinel_string ErrLegacyAttachmentNotFound = ''controlplane: legacy attachment not found''"
| "sentinel_string ErrLegacyAttachmentGone =
     ''controlplane: legacy attachment already migrated to v2''"
| "sentinel_string ErrAttachmentNotFound = ''controlplane: attachment not found''"
| "sentinel_string ErrBucketNotFound = ''buckets: item not found''"
| "sentinel_string ErrBucketForbidden = ''buckets: forbidden''"
| "sentinel_string ErrBucketTooLarge = ''buckets: item too large''"

definition cp_error_string :: "cp_error \<Rightarrow> string" where
  "cp_error_string e =
     (if cpe_Code e \<noteq> [] then
        ''controlplane: '' @ cpe_Code e @ '' (status '' @ itoa (cpe_StatusCode e) @ '')''
      else if cpe_Message e \<noteq> [] then
        ''controlplane: '' @ cpe_Message e @ '' (status '' @ itoa (cpe_StatusCode e) @ '')''
      else ''controlplane: status '' @ itoa (cpe_StatusCode e))"

fun ambiguity_string :: "put_blob_ambiguity \<Rightarrow> string" where
  "ambiguity_string PutBlobTransportFailure = ''transport_failure''"
| "ambiguity_string PutBlobUpstreamFailure = ''upstream_failure''"
| "ambiguity_string PutBlobResponseRead = ''response_read_failure''"
| "ambiguity_string PutBlobResponseDecode = ''response_decode_failure''"
| "ambiguity_string PutBlobInvalidResponse = ''invalid_response''"

text \<open>\<^verbatim>\<open>(*AppError).Error\<close>; the texts of \<^verbatim>\<open>http.StatusText\<close> are abstracted to the number.\<close>

definition app_error_string :: "app_error \<Rightarrow> string" where
  "app_error_string a =
     (if ae_Code a \<noteq> [] then ae_Code a else if ae_Message a \<noteq> [] then ae_Message a
      else itoa (ae_Status a))"

fun error_string :: "go_error \<Rightarrow> string"
  and join_strings :: "go_error list \<Rightarrow> string" where
  "error_string (ESent s) = sentinel_string s"
| "error_string (ELib p) = p"
| "error_string (ENew m) = m"
| "error_string (EWrap m e) = m"
| "error_string ECtx = ''context canceled''"
| "error_string (ECp c) = cp_error_string c"
| "error_string (EApp a) = app_error_string a"
| "error_string (EAmbiguous k e) =
     ''controlplane: ambiguous PutBlob outcome ('' @ ambiguity_string k @ ''): '' @ error_string e"
| "error_string (EOutcomeUnknown e) = ''controlplane: PutBlob outcome unknown: '' @ error_string e"
| "error_string (EMaxBytes n) = ''http: request body too large''"
| "error_string (ESearchConflict s) = ''controlplane: search index publication conflict''"
| "error_string (EBucketStatus n) = ''buckets: status '' @ itoa n"
| "error_string (EJoin es) = join_strings es"
| "join_strings [] = []"
| "join_strings [e] = error_string e"
| "join_strings (e # e' # es) = error_string e @ [CHR 0x0A] @ join_strings (e' # es)"

text \<open>\<^verbatim>\<open>fmt.Errorf("%w: %v", s, err)\<close>.\<close>

definition wrap_sentinel :: "sentinel \<Rightarrow> go_error \<Rightarrow> go_error" where
  "wrap_sentinel s e = EWrap (sentinel_string s @ '': '' @ error_string e) (ESent s)"

text \<open>\<^verbatim>\<open>fmt.Errorf("prefix: %w", err)\<close>.\<close>

definition wrap_prefix :: "string \<Rightarrow> go_error \<Rightarrow> go_error" where
  "wrap_prefix p e = EWrap (p @ error_string e) e"

lemma errors_is_wrap_sentinel [simp]: "errors_is t (wrap_sentinel s e) = sentinel_is s t"
  by (simp add: wrap_sentinel_def)

end
