(* ===== verification/Crypto.thy ===== *)
theory Crypto
  imports Go_Crypto Go_Errors
begin

text \<open>
  Package \<^verbatim>\<open>internal/crypto\<close>: key identifiers (\<^verbatim>\<open>keyid.go\<close>), AES-GCM sealing (\<^verbatim>\<open>aesgcm.go\<close>),
  the search-index subkey (\<^verbatim>\<open>searchkey.go\<close>) and the operation hash (\<^verbatim>\<open>ophash.go\<close>).
  HKDF is the third-party package \<^verbatim>\<open>golang.org/x/crypto/hkdf\<close> and a parameter: a function
  of input key material, info string and output length that may fail.
\<close>

section \<open>Interfaces\<close>

text \<open>An authenticated cipher whose openings are exactly its sealings.\<close>

locale aead_cipher =
  fixes enc :: "'k \<Rightarrow> 'n \<Rightarrow> 'm \<Rightarrow> 'a \<Rightarrow> 'c"
    and dec :: "'k \<Rightarrow> 'n \<Rightarrow> 'c \<Rightarrow> 'a \<Rightarrow> 'm option"
  assumes dec_iff: "dec k n c a = Some m \<longleftrightarrow> c = enc k n m a"
begin

lemma dec_enc: "dec k n (enc k n m a) a = Some m"
  by (simp add: dec_iff)

lemma enc_inject: "enc k n m a = enc k n m' a \<Longrightarrow> m = m'"
  by (metis dec_enc option.inject)

lemma dec_other_context:
  "dec k n (enc k n m a) a' = Some m' \<Longrightarrow> enc k n m' a' = enc k n m a"
  by (simp add: dec_iff)

end

interpretation gcm: aead_cipher gcm_seal gcm_open
  by unfold_locales (rule gcm_open_iff)

text \<open>
  A self-delimiting encoder: two encodings followed by anything agree only if the encoded
  values and the rests agree. Sequences of equally many encoded values are then injective.
\<close>

locale prefix_code =
  fixes ok :: "'a \<Rightarrow> bool" and enc :: "'a \<Rightarrow> bytes"
  assumes unique: "ok x \<Longrightarrow> ok y \<Longrightarrow> enc x @ r = enc y @ s \<Longrightarrow> x = y \<and> r = s"
begin

lemma seq_unique:
  "list_all ok xs \<Longrightarrow> list_all ok ys \<Longrightarrow> length xs = length ys \<Longrightarrow>
   concat (map enc xs) @ r = concat (map enc ys) @ s \<Longrightarrow> xs = ys \<and> r = s"
proof (induction xs arbitrary: ys)
  case (Cons x xs)
  then obtain y ys' where ys: "ys = y # ys'" by (cases ys) auto
  with Cons.prems have "enc x @ (concat (map enc xs) @ r) = enc y @ (concat (map enc ys') @ s)"
    and "ok x" "ok y" by simp_all
  from unique [OF this(2,3,1)]
  have "x = y" "concat (map enc xs) @ r = concat (map enc ys') @ s" by simp_all
  with Cons ys show ?case by simp
qed simp

end

locale nonempty_prefix_code = prefix_code +
  assumes nonempty: "ok x \<Longrightarrow> enc x \<noteq> []"
begin

lemma code_inject:
  "list_all ok xs \<Longrightarrow> list_all ok ys \<Longrightarrow> concat (map enc xs) = concat (map enc ys) \<Longrightarrow> xs = ys"
proof (induction xs arbitrary: ys)
  case Nil
  then show ?case using nonempty by (cases ys) auto
next
  case (Cons x xs)
  then obtain y ys' where ys: "ys = y # ys'" using nonempty by (cases ys) auto
  with Cons.prems unique [of x y "concat (map enc xs)" "concat (map enc ys')"]
  have "x = y" "concat (map enc xs) = concat (map enc ys')" by simp_all
  with Cons ys show ?case by simp
qed

end

section \<open>keyid.go\<close>

definition KeySize :: nat where
  "KeySize = 32"

definition KeyIDSize :: nat where
  "KeyIDSize = 16"

type_synonym hkdf = "bytes \<Rightarrow> string \<Rightarrow> nat \<Rightarrow> bytes option"

text \<open>What the code relies on: HKDF-SHA-256 yields any output of at most 255 * 32 bytes.\<close>

definition hkdf_ok :: "hkdf \<Rightarrow> bool" where
  "hkdf_ok H = (\<forall>k i n. n \<le> 255 * 32 \<longrightarrow> (\<exists>b. H k i n = Some b \<and> length b = n))"

definition DeriveKeyID :: "hkdf \<Rightarrow> bytes \<Rightarrow> bytes result" where
  "DeriveKeyID H key =
     (if length key \<noteq> KeySize then Inl (ESent ErrKeySize)
      else of_option (ELib ''hkdf'') (H key ''tinfoil-key-id-v1'' KeyIDSize))"

definition KeyIDHex :: "bytes \<Rightarrow> string" where
  "KeyIDHex kid = hex_encode kid"

definition ParseKeyIDHex :: "string \<Rightarrow> bytes result" where
  "ParseKeyIDHex s =
     (if length s \<noteq> KeyIDSize * 2 then Inl (ESent ErrKeyIDSize)
      else of_option (ELib ''encoding/hex'') (hex_decode s))"

definition Zero :: "bytes \<Rightarrow> bytes" where
  "Zero b = map (\<lambda>_. byte_of 0) b"

section \<open>aesgcm.go\<close>

definition NonceSize :: nat where
  "NonceSize = 12"

definition TagSize :: nat where
  "TagSize = 16"

definition RandomKey :: "entropy \<Rightarrow> (bytes \<times> entropy) result" where
  "RandomKey ent = of_option (ELib ''crypto/rand'') (rand_read KeySize ent)"

text \<open>
  \<^verbatim>\<open>aes.NewCipher\<close> accepts 16, 24 and 32 byte keys and \<^verbatim>\<open>cipher.NewGCM\<close> every AES block, so
  after the length check only the nonce can fail to be drawn.
\<close>

definition Seal :: "bytes \<Rightarrow> bytes \<Rightarrow> bytes \<Rightarrow> entropy \<Rightarrow> ((bytes \<times> bytes) \<times> entropy) result" where
  "Seal key plaintext aad ent =
     (if length key \<noteq> KeySize then Inl (ESent ErrKeySize)
      else rbind (of_option (ELib ''crypto/rand'') (rand_read NonceSize ent))
             (\<lambda>(nonce, ent'). Inr ((nonce, gcm_seal key nonce plaintext aad), ent')))"

definition Open :: "bytes \<Rightarrow> bytes \<Rightarrow> bytes \<Rightarrow> bytes \<Rightarrow> bytes result" where
  "Open key nonce ciphertext aad =
     (if length key \<noteq> KeySize then Inl (ESent ErrKeySize)
      else if length nonce \<noteq> NonceSize then Inl (ESent ErrCipher)
      else of_option (ELib ''crypto/cipher'') (gcm_open key nonce ciphertext aad))"

section \<open>searchkey.go\<close>

definition DeriveSearchIndexKey :: "hkdf \<Rightarrow> bytes \<Rightarrow> bytes result" where
  "DeriveSearchIndexKey H cek =
     (if length cek \<noteq> KeySize then Inl (ESent ErrSearchKeyMaterial)
      else of_option (ELib ''hkdf'') (H cek ''tinfoil-search-index-v1'' 32))"

section \<open>ophash.go\<close>

definition DeriveOpHashKey :: "hkdf \<Rightarrow> bytes \<Rightarrow> bytes result" where
  "DeriveOpHashKey H cek =
     (if length cek \<noteq> KeySize then Inl (ESent ErrOpHashKeyMaterial)
      else of_option (ELib ''hkdf'') (H cek ''tinfoil-op-hash-v1'' 32))"

text \<open>\<^verbatim>\<open>AAD\<close> and \<^verbatim>\<open>Envelope\<close> tell nil (\<open>None\<close>) from an empty slice.\<close>

record canonical_input =
  ci_Method :: string
  ci_Path :: string
  ci_KeyIDHex :: string
  ci_IfMatch :: string
  ci_IdempotencyKey :: string
  ci_Body :: bytes
  ci_AAD :: "bytes option"
  ci_Envelope :: "bytes option"
  ci_ProfileSyncProtocol :: string

definition nil_bytes :: "bytes option \<Rightarrow> bytes" where
  "nil_bytes b = (case b of None \<Rightarrow> [] | Some x \<Rightarrow> x)"

text \<open>\<^verbatim>\<open>uint32(len(b))\<close> wraps at 2^32.\<close>

definition appendLenPrefixed :: "bytes \<Rightarrow> bytes \<Rightarrow> bytes" where
  "appendLenPrefixed dst b = dst @ be_bytes 4 (length b mod 2 ^ 32) @ b"

definition AppendCanonical :: "bytes \<Rightarrow> canonical_input \<Rightarrow> bytes" where
  "AppendCanonical dst0 i =
     (let dst1 = appendLenPrefixed dst0 (ci_Method i);
          dst2 = appendLenPrefixed dst1 (ci_Path i);
          dst3 = appendLenPrefixed dst2 (ci_KeyIDHex i);
          dst4 = appendLenPrefixed dst3 (ci_IfMatch i);
          dst5 = appendLenPrefixed dst4 (ci_IdempotencyKey i);
          dst6 = appendLenPrefixed dst5 (ci_Body i);
          dst7 = (if ci_AAD i \<noteq> None \<or> ci_Envelope i \<noteq> None \<or> ci_ProfileSyncProtocol i \<noteq> []
                  then appendLenPrefixed (appendLenPrefixed dst6 (nil_bytes (ci_AAD i)))
                         (nil_bytes (ci_Envelope i))
                  else dst6)
      in if ci_ProfileSyncProtocol i \<noteq> [] then appendLenPrefixed dst7 (ci_ProfileSyncProtocol i)
         else dst7)"

definition ComputeOperationHash :: "bytes \<Rightarrow> canonical_input \<Rightarrow> string" where
  "ComputeOperationHash opKey i = hex_encode (hmac_sha256 opKey (AppendCanonical [] i))"

definition VerifyOperationHash :: "hkdf \<Rightarrow> bytes \<Rightarrow> string \<Rightarrow> canonical_input \<Rightarrow> bool result" where
  "VerifyOperationHash H cek provided i =
     rbind (DeriveOpHashKey H cek) (\<lambda>opKey.
       case hex_decode provided of
         None \<Rightarrow> Inr False
       | Some want \<Rightarrow>
           if length want \<noteq> 32 then Inr False
           else Inr (hmac_sha256 opKey (AppendCanonical [] i) = want))"

section \<open>Facts\<close>

subsection \<open>Sizes\<close>

lemma KeySize_val [simp]: "KeySize = 32" and KeyIDSize_val [simp]: "KeyIDSize = 16"
  and NonceSize_val [simp]: "NonceSize = 12" and TagSize_val [simp]: "TagSize = 16"
  by (simp_all add: KeySize_def KeyIDSize_def NonceSize_def TagSize_def)

lemma hkdf_okD: "hkdf_ok H \<Longrightarrow> n \<le> 8160 \<Longrightarrow> \<exists>b. H k i n = Some b \<and> length b = n"
  by (simp add: hkdf_ok_def)

lemma DeriveKeyID_total:
  assumes "hkdf_ok H" "length key = KeySize"
  shows "\<exists>b. DeriveKeyID H key = Inr b \<and> length b = 16"
  using hkdf_okD [OF assms(1), of 16 key "''tinfoil-key-id-v1''"] assms(2)
  by (auto simp: DeriveKeyID_def)

lemma DeriveKeyID_length:
  assumes "hkdf_ok H" "DeriveKeyID H key = Inr b"
  shows "length b = 16"
proof -
  have "H key ''tinfoil-key-id-v1'' 16 = Some b"
    using assms(2) by (auto simp: DeriveKeyID_def result_simps split: if_splits)
  then show ?thesis using hkdf_okD [OF assms(1), of 16 key "''tinfoil-key-id-v1''"] by auto
qed

lemma DeriveOpHashKey_total:
  assumes "hkdf_ok H" "length key = KeySize"
  shows "\<exists>b. DeriveOpHashKey H key = Inr b"
  using hkdf_okD [OF assms(1), of 32 key "''tinfoil-op-hash-v1''"] assms(2)
  by (auto simp: DeriveOpHashKey_def)

subsection \<open>Sealing\<close>

lemma Seal_Inr:
  "Seal key m aad ent = Inr ((nonce, c), ent') \<longleftrightarrow>
     length key = 32 \<and> rand_read 12 ent = Some (nonce, ent') \<and> c = gcm_seal key nonce m aad"
  by (auto simp: Seal_def result_simps)

lemma Open_Inr:
  "Open key nonce c aad = Inr m \<longleftrightarrow>
     length key = 32 \<and> length nonce = 12 \<and> c = gcm_seal key nonce m aad"
  by (auto simp: Open_def result_simps gcm.dec_iff)

lemma Open_Seal:
  "Seal key m aad ent = Inr ((nonce, c), ent') \<Longrightarrow> Open key nonce c aad = Inr m"
  by (auto simp: Seal_Inr Open_Inr dest: rand_read_Some)

lemma RandomKey_Inr: "RandomKey ent = Inr (k, ent') \<longleftrightarrow> rand_read 32 ent = Some (k, ent')"
  by (simp add: RandomKey_def result_simps)

subsection \<open>The canonical tuple\<close>

lemma be_val_append: "be_val (a @ [c]) = 256 * be_val a + byte_val c"
  by (simp add: be_val_def)

lemma be_val_be_bytes: "be_val (be_bytes n v) = v mod 256 ^ n"
proof (induction n arbitrary: v)
  case (Suc n)
  have split: "be_bytes (Suc n) v = be_bytes n (v div 256) @ [byte_of v]"
  proof (rule nth_equalityI)
    fix i assume "i < length (be_bytes (Suc n) v)"
    then have "i < n \<or> i = n" by auto
    then show "be_bytes (Suc n) v ! i = (be_bytes n (v div 256) @ [byte_of v]) ! i"
    proof
      assume i: "i < n"
      then have "n - i = Suc (n - 1 - i)" by simp
      then have "v div 256 ^ (n - i) = v div 256 div 256 ^ (n - 1 - i)"
        by (simp add: div_mult2_eq)
      then show ?thesis using i by (simp add: be_bytes_def nth_append del: upt_Suc)
    qed (simp add: be_bytes_def nth_append del: upt_Suc)
  qed simp
  show ?case
    by (simp add: split be_val_append Suc mod_mult2_eq del: of_char_mod_256)
qed (simp add: be_bytes_def be_val_def)

lemma be_bytes4_inject: "m < 2 ^ 32 \<Longrightarrow> n < 2 ^ 32 \<Longrightarrow> be_bytes 4 m = be_bytes 4 n \<longleftrightarrow> m = n"
proof
  assume m: "m < 2 ^ 32" and n: "n < 2 ^ 32" and eq: "be_bytes 4 m = be_bytes 4 n"
  have "(256 :: nat) ^ 4 = 2 ^ 32" by simp
  then show "m = n" using be_val_be_bytes [of 4 m] be_val_be_bytes [of 4 n] m n eq
    by (metis mod_less)
qed simp

definition fits32 :: "bytes \<Rightarrow> bool" where
  "fits32 b = (length b < 2 ^ 32)"

lemma appendLenPrefixed_append: "appendLenPrefixed dst b = dst @ appendLenPrefixed [] b"
  by (simp add: appendLenPrefixed_def)

interpretation lp: nonempty_prefix_code fits32 "appendLenPrefixed []"
proof
  fix x y r s assume ok: "fits32 x" "fits32 y"
    and eq: "appendLenPrefixed [] x @ r = appendLenPrefixed [] y @ s"
  then have "be_bytes 4 (length x) = be_bytes 4 (length y)" and r: "x @ r = y @ s"
    by (simp_all add: appendLenPrefixed_def fits32_def)
  then have "length x = length y" using ok by (simp add: fits32_def be_bytes4_inject)
  then show "x = y \<and> r = s" using r by simp
next
  fix x assume "fits32 x"
  have "length (be_bytes 4 (length x mod 2 ^ 32)) = 4" by simp
  then have "be_bytes 4 (length x mod 2 ^ 32) \<noteq> []" by (metis list.size(3) zero_neq_numeral)
  then show "appendLenPrefixed [] x \<noteq> []" by (simp add: appendLenPrefixed_def)
qed

text \<open>The fields that go on the wire, in order.\<close>

definition ci_fields :: "canonical_input \<Rightarrow> bytes list" where
  "ci_fields i =
     [ci_Method i, ci_Path i, ci_KeyIDHex i, ci_IfMatch i, ci_IdempotencyKey i, ci_Body i]
     @ (if ci_AAD i \<noteq> None \<or> ci_Envelope i \<noteq> None \<or> ci_ProfileSyncProtocol i \<noteq> []
        then [nil_bytes (ci_AAD i), nil_bytes (ci_Envelope i)] else [])
     @ (if ci_ProfileSyncProtocol i \<noteq> [] then [ci_ProfileSyncProtocol i] else [])"

lemma AppendCanonical_fields:
  "AppendCanonical dst i = dst @ concat (map (appendLenPrefixed []) (ci_fields i))"
  by (simp add: AppendCanonical_def Let_def ci_fields_def appendLenPrefixed_def)

definition ci_fits :: "canonical_input \<Rightarrow> bool" where
  "ci_fits i = list_all fits32 (ci_fields i)"

text \<open>
  C35. The canonical tuple the operation hash is computed over is unambiguous: two inputs whose
  fields are shorter than 2^32 bytes have the same canonical bytes only if they agree in
  method, path, key id, precondition, idempotency key, body, AAD, envelope and profile
  protocol, where an absent AAD or envelope counts as empty once one of the optional fields
  is present, and body-only tuples never collide with extended ones.
\<close>

theorem AppendCanonical_inject:
  assumes "ci_fits i" and "ci_fits j" and "AppendCanonical [] i = AppendCanonical [] j"
  shows "ci_Method i = ci_Method j \<and> ci_Path i = ci_Path j \<and> ci_KeyIDHex i = ci_KeyIDHex j
    \<and> ci_IfMatch i = ci_IfMatch j \<and> ci_IdempotencyKey i = ci_IdempotencyKey j
    \<and> ci_Body i = ci_Body j \<and> nil_bytes (ci_AAD i) = nil_bytes (ci_AAD j)
    \<and> nil_bytes (ci_Envelope i) = nil_bytes (ci_Envelope j)
    \<and> ci_ProfileSyncProtocol i = ci_ProfileSyncProtocol j
    \<and> (ci_AAD i = None \<and> ci_Envelope i = None \<and> ci_ProfileSyncProtocol i = []
        \<longleftrightarrow> ci_AAD j = None \<and> ci_Envelope j = None \<and> ci_ProfileSyncProtocol j = [])"
proof -
  have "ci_fields i = ci_fields j"
    using assms lp.code_inject by (simp add: AppendCanonical_fields ci_fits_def)
  then show ?thesis
    by (auto simp: ci_fields_def nil_bytes_def split: if_splits option.splits)
qed

definition example_input :: "canonical_input" where
  "example_input = \<lparr> ci_Method = ''PUT'', ci_Path = ''/api/sync/blob/chat/c1'', ci_KeyIDHex = ''ab'',
     ci_IfMatch = ''0'', ci_IdempotencyKey = ''k1'', ci_Body = ''hello'', ci_AAD = Some ''{}'',
     ci_Envelope = None, ci_ProfileSyncProtocol = [] \<rparr>"

theorem AppendCanonical_inject_witness:
  "ci_fits example_input \<and> ci_fits (example_input\<lparr>ci_Envelope := Some []\<rparr>)
   \<and> AppendCanonical [] example_input = AppendCanonical [] (example_input\<lparr>ci_Envelope := Some []\<rparr>)
   \<and> nil_bytes (ci_Envelope example_input)
       = nil_bytes (ci_Envelope (example_input\<lparr>ci_Envelope := Some []\<rparr>))"
proof -
  have h: "ci_fits example_input" "ci_fits (example_input\<lparr>ci_Envelope := Some []\<rparr>)"
    by (simp_all add: ci_fits_def ci_fields_def example_input_def fits32_def nil_bytes_def)
  have e: "AppendCanonical [] example_input
      = AppendCanonical [] (example_input\<lparr>ci_Envelope := Some []\<rparr>)"
    by (simp add: AppendCanonical_fields ci_fields_def example_input_def nil_bytes_def)
  show ?thesis using h e AppendCanonical_inject [OF h e] by blast
qed

text \<open>
  Verification of an operation hash accepts exactly the keyed MAC of the canonical tuple:
  for a 32-byte CEK the answer is never an error, the hash computed under the derived subkey
  verifies, and whatever verifies decodes to that MAC, so up to the case of its hex digits it
  is the computed hash.
\<close>

theorem VerifyOperationHash_correct:
  assumes "hkdf_ok H" and "length cek = KeySize"
  shows "\<exists>opKey. DeriveOpHashKey H cek = Inr opKey
    \<and> VerifyOperationHash H cek (ComputeOperationHash opKey i) i = Inr True
    \<and> (\<forall>p. \<exists>b. VerifyOperationHash H cek p i = Inr b
          \<and> (b \<longleftrightarrow> hex_decode p = Some (hmac_sha256 opKey (AppendCanonical [] i))))"
proof -
  obtain k where k: "DeriveOpHashKey H cek = Inr k"
    using DeriveOpHashKey_total [OF assms] by blast
  have "\<exists>b. VerifyOperationHash H cek p i = Inr b
      \<and> (b \<longleftrightarrow> hex_decode p = Some (hmac_sha256 k (AppendCanonical [] i)))" for p
    by (auto simp: VerifyOperationHash_def k split: option.splits)
  then show ?thesis
    by (intro exI [of _ k]) (auto simp: k VerifyOperationHash_def ComputeOperationHash_def)
qed

text \<open>A concrete stand-in for HKDF that satisfies what the code relies on.\<close>

definition example_hkdf :: hkdf where
  "example_hkdf k info n =
     (if n \<le> 255 * 32 then Some (take n (concat (replicate n (sha256 (k @ info))))) else None)"

lemma length_concat_sha: "length (concat (replicate n (sha256 m))) = 32 * n"
  by (induction n) auto

lemma example_hkdf_ok: "hkdf_ok example_hkdf"
  by (simp add: hkdf_ok_def example_hkdf_def length_concat_sha)

definition example_key :: bytes where
  "example_key = ''0123456789abcdef0123456789abcdef''"

lemma length_example_key [simp]: "length example_key = 32"
  by (simp add: example_key_def)

theorem VerifyOperationHash_correct_witness:
  "hkdf_ok example_hkdf \<and> length example_key = KeySize
   \<and> (\<exists>k. DeriveOpHashKey example_hkdf example_key = Inr k
        \<and> VerifyOperationHash example_hkdf example_key (ComputeOperationHash k example_input)
             example_input = Inr True)"
  using VerifyOperationHash_correct [OF example_hkdf_ok, of example_key example_input]
    example_hkdf_ok by auto

text \<open>
  Key ids round-trip through their hex form: the text of a 16-byte key id parses back to
  it, is 32 lower-case hex digits long, and every text that parses in lower case is the text
  of what it parses to.
\<close>

theorem KeyIDHex_roundtrip:
  "(length kid = KeyIDSize \<longrightarrow>
      ParseKeyIDHex (KeyIDHex kid) = Inr kid \<and> length (KeyIDHex kid) = 32
      \<and> list_all is_lower_hex_char (KeyIDHex kid))
   \<and> (ParseKeyIDHex s = Inr kid \<longrightarrow> length kid = KeyIDSize
      \<and> (list_all is_lower_hex_char s \<longrightarrow> KeyIDHex kid = s))"
  by (auto simp: ParseKeyIDHex_def KeyIDHex_def hex_encode_lower result_simps
      dest: length_hex_decode hex_encode_decode_lower split: if_splits)

theorem KeyIDHex_roundtrip_witness:
  "length ''0123456789abcdef'' = KeyIDSize
   \<and> ParseKeyIDHex (KeyIDHex ''0123456789abcdef'') = Inr ''0123456789abcdef''"
  using KeyIDHex_roundtrip [of "''0123456789abcdef''" "[]"] by simp

end
