(* ===== verification/AAD.thy ===== *)
theory AAD
  imports Crypto "HOL-Library.Char_ord" "HOL-Library.List_Lexorder"
begin

text \<open>
  \<^verbatim>\<open>internal/envelope/aad.go\<close>: the canonical JSON that the payload layer, the key-wrap layer
  and the passkey bundles are bound to. \<open>writeJSONString\<close> is a self-delimiting code (an
  interpretation of \<open>prefix_code\<close>), from which the bindings are injective and the three
  domains disjoint.
\<close>

section \<open>Data\<close>

type_synonym scope = string

definition ScopeChat :: scope where "ScopeChat = ''chat''"
definition ScopeProfile :: scope where "ScopeProfile = ''profile''"
definition ScopeProject :: scope where "ScopeProject = ''project''"
definition ScopeProjectDocument :: scope where "ScopeProjectDocument = ''project_document''"
definition ProfileSingletonID :: string where "ProfileSingletonID = ''profile''"
definition AlgAESGCM :: string where "AlgAESGCM = ''AES-256-GCM''"
definition AADDomain :: string where "AADDomain = ''tinfoil-sync-envelope-v2''"
definition DEKWrapAADDomain :: string where "DEKWrapAADDomain = ''tinfoil-dek-wrap-v2''"
definition BundleAADDomain :: string where "BundleAADDomain = ''tinfoil-key-bundle-v2''"
definition EnvelopeVersion :: int where "EnvelopeVersion = 2"

lemmas scope_defs = ScopeChat_def ScopeProfile_def ScopeProject_def ScopeProjectDocument_def

definition Scope_Valid :: "scope \<Rightarrow> bool" where
  "Scope_Valid s = (s = ScopeChat \<or> s = ScopeProfile \<or> s = ScopeProject \<or> s = ScopeProjectDocument)"

record aad =
  aad_KeyIDHex :: string
  aad_Scope :: scope
  aad_ID :: string
  aad_ClerkUserID :: string

record bundle_aad =
  ba_ClerkUserID :: string
  ba_KeyIDHex :: string
  ba_CredentialID :: string

text \<open>
  The dynamic values the writer accepts. A \<^verbatim>\<open>float64\<close> is represented by what the code observes
  of it: not finite, equal to its own \<^verbatim>\<open>int64\<close> conversion, or another value with its shortest
  text.
\<close>

datatype go_float = FNonFinite | FIntegral int | FOther string

datatype any =
    ANil | ABool bool | AStr string | AInt int | AFloat go_float | ANumber string
  | AMap "(string \<times> any) list" | AList "any list" | AOther

section \<open>The canonical writer\<close>

definition isLowerHex :: "string \<Rightarrow> bool" where
  "isLowerHex s = list_all is_lower_hex_char s"

text \<open>What one byte of a string becomes between the quotes.\<close>

definition json_escape :: "char \<Rightarrow> string" where
  "json_escape c =
     (if c = CHR 0x22 then [CHR 0x5C, CHR 0x22]
      else if c = CHR 0x5C then [CHR 0x5C, CHR 0x5C]
      else if c = CHR 0x0A then [CHR 0x5C, CHR ''n'']
      else if c = CHR 0x0D then [CHR 0x5C, CHR ''r'']
      else if c = CHR 0x09 then [CHR 0x5C, CHR ''t'']
      else if c = CHR 0x08 then [CHR 0x5C, CHR ''b'']
      else if c = CHR 0x0C then [CHR 0x5C, CHR ''f'']
      else if byte_val c < 32 then
        [CHR 0x5C, CHR ''u'', CHR ''0'', CHR ''0'', hexdigit (byte_val c div 16),
         hexdigit (byte_val c mod 16)]
      else [c])"

definition writeJSONString :: "string \<Rightarrow> string" where
  "writeJSONString s = [CHR 0x22] @ concat (map json_escape s) @ [CHR 0x22]"

fun collect :: "'a result list \<Rightarrow> 'a list result" where
  "collect [] = Inr []"
| "collect (r # rs) = rbind r (\<lambda>x. rbind (collect rs) (\<lambda>xs. Inr (x # xs)))"

fun comma_join :: "string list \<Rightarrow> string" where
  "comma_join [] = []"
| "comma_join [x] = x"
| "comma_join (x # y # r) = x @ '','' @ comma_join (y # r)"

function writeCanonicalValue :: "any \<Rightarrow> string result" where
  "writeCanonicalValue ANil = Inr ''null''"
| "writeCanonicalValue (ABool b) = Inr (if b then ''true'' else ''false'')"
| "writeCanonicalValue (AStr s) = Inr (writeJSONString s)"
| "writeCanonicalValue (AInt i) = Inr (itoa i)"
| "writeCanonicalValue (AFloat f) =
     (case f of
        FNonFinite \<Rightarrow> Inl (ENew ''non-finite number in canonical JSON'')
      | FIntegral i \<Rightarrow> Inr (itoa i)
      | FOther t \<Rightarrow> Inr t)"
| "writeCanonicalValue (ANumber t) = Inr t"
| "writeCanonicalValue (AMap kvs) =
     rbind (collect (map (\<lambda>kv. rbind (writeCanonicalValue (snd kv))
                                  (\<lambda>t. Inr (writeJSONString (fst kv) @ '':'' @ t)))
                       (sort_key fst kvs)))
       (\<lambda>ts. Inr (''{'' @ comma_join ts @ ''}''))"
| "writeCanonicalValue (AList vs) =
     rbind (collect (map writeCanonicalValue vs)) (\<lambda>ts. Inr (''['' @ comma_join ts @ '']''))"
| "writeCanonicalValue AOther = Inl (ENew ''unsupported type for canonical JSON'')"
  by pat_completeness auto
termination
proof (relation "measure size")
  fix kvs :: "(string \<times> any) list" and kv
  assume "kv \<in> set (sort_key fst kvs)"
  then have "kv \<in> set kvs" by simp
  then have "size (snd kv) < Suc (size_list (\<lambda>p. size (snd p)) kvs)"
    by (induction kvs) auto
  moreover have "size_list (\<lambda>p. size (snd p)) kvs \<le> size_list (size_prod (\<lambda>x. 0) size) kvs"
    by (rule size_list_pointwise) (simp add: size_prod_simp prod.size_gen split: prod.split)
  ultimately show "(snd kv, AMap kvs) \<in> measure size" by simp
next
  fix vs :: "any list" and v assume "v \<in> set vs"
  then show "(v, AList vs) \<in> measure size" by (induction vs) auto
qed auto

definition marshalCanonical :: "(string \<times> any) list \<Rightarrow> string result" where
  "marshalCanonical fs =
     rbind (collect (map (\<lambda>f. rbind (writeCanonicalValue (snd f))
                                (\<lambda>t. Inr (writeJSONString (fst f) @ '':'' @ t))) fs))
       (\<lambda>ts. Inr (''{'' @ comma_join ts @ ''}''))"

section \<open>The three bindings\<close>

definition CanonicalPayloadAAD :: "aad \<Rightarrow> bytes result" where
  "CanonicalPayloadAAD a =
     (if \<not> Scope_Valid (aad_Scope a) then Inl (ESent ErrAADInvalid)
      else if aad_ClerkUserID a = [] then Inl (ESent ErrAADInvalid)
      else if aad_Scope a = ScopeProfile \<and> aad_ID a \<noteq> ProfileSingletonID
      then Inl (ESent ErrAADInvalid)
      else if aad_ID a = [] then Inl (ESent ErrAADInvalid)
      else marshalCanonical
             [(''alg'', AStr AlgAESGCM), (''clerk_user_id'', AStr (aad_ClerkUserID a)),
              (''domain'', AStr AADDomain), (''id'', AStr (aad_ID a)),
              (''scope'', AStr (aad_Scope a)), (''v'', AInt EnvelopeVersion)])"

definition CanonicalDEKWrapAAD :: "aad \<Rightarrow> bytes result" where
  "CanonicalDEKWrapAAD a =
     (if \<not> Scope_Valid (aad_Scope a) then Inl (ESent ErrAADInvalid)
      else if length (aad_KeyIDHex a) \<noteq> 32 \<or> \<not> isLowerHex (aad_KeyIDHex a)
      then Inl (ESent ErrAADInvalid)
      else if aad_ClerkUserID a = [] then Inl (ESent ErrAADInvalid)
      else if aad_Scope a = ScopeProfile \<and> aad_ID a \<noteq> ProfileSingletonID
      then Inl (ESent ErrAADInvalid)
      else if aad_ID a = [] then Inl (ESent ErrAADInvalid)
      else marshalCanonical
             [(''clerk_user_id'', AStr (aad_ClerkUserID a)), (''domain'', AStr DEKWrapAADDomain),
              (''id'', AStr (aad_ID a)), (''kid'', AStr (aad_KeyIDHex a)),
              (''scope'', AStr (aad_Scope a)), (''v'', AInt EnvelopeVersion)])"

definition CanonicalBundleAAD :: "bundle_aad \<Rightarrow> bytes result" where
  "CanonicalBundleAAD a =
     (if ba_ClerkUserID a = [] \<or> ba_CredentialID a = [] then Inl (ESent ErrAADInvalid)
      else if length (ba_KeyIDHex a) \<noteq> 32 \<or> \<not> isLowerHex (ba_KeyIDHex a)
      then Inl (ESent ErrAADInvalid)
      else marshalCanonical
             [(''clerk_user_id'', AStr (ba_ClerkUserID a)),
              (''credential_id'', AStr (ba_CredentialID a)),
              (''domain'', AStr BundleAADDomain), (''key_id'', AStr (ba_KeyIDHex a))])"

section \<open>Quoted strings are a self-delimiting code\<close>

lemma hexdigit_inject: "m < 16 \<Longrightarrow> n < 16 \<Longrightarrow> hexdigit m = hexdigit n \<longleftrightarrow> m = n"
  by (metis fromHexChar_hexdigit option.inject)

lemma json_escape_nonempty [simp]: "json_escape c \<noteq> []"
  by (simp add: json_escape_def)

lemma json_escape_not_quote: "json_escape c @ x \<noteq> CHR 0x22 # y"
  by (auto simp: json_escape_def)

lemma json_escape_unique:
  assumes "json_escape c @ x = json_escape d @ y"
  shows "c = d \<and> x = y"
proof -
  have n: "byte_val c < 32 \<Longrightarrow> byte_val d < 32 \<Longrightarrow>
      hexdigit (byte_val c div 16) = hexdigit (byte_val d div 16) \<Longrightarrow>
      hexdigit (byte_val c mod 16) = hexdigit (byte_val d mod 16) \<Longrightarrow> c = d"
    by (metis (no_types, lifting) byte_div16 hexdigit_inject mod_less_divisor
        zero_less_numeral div_mult_mod_eq byte_val_inject)
  show ?thesis using assms n
    by (simp add: json_escape_def split: if_splits)
qed

lemma quoted_unique:
  "concat (map json_escape x) @ CHR 0x22 # r = concat (map json_escape y) @ CHR 0x22 # s \<Longrightarrow>
   x = y \<and> r = s"
proof (induction x arbitrary: y)
  case Nil
  then show ?case using json_escape_not_quote [THEN not_sym] by (cases y) auto
next
  case (Cons c x)
  then obtain d y' where y: "y = d # y'" using json_escape_not_quote by (cases y) auto
  with Cons.prems json_escape_unique [of c "concat (map json_escape x) @ CHR 0x22 # r"
      d "concat (map json_escape y') @ CHR 0x22 # s"]
  have "c = d" "concat (map json_escape x) @ CHR 0x22 # r = concat (map json_escape y') @ CHR 0x22 # s"
    by simp_all
  with Cons.IH y show ?case by simp
qed

interpretation js: nonempty_prefix_code "\<lambda>_. True" writeJSONString
  by unfold_locales (auto simp: writeJSONString_def dest: quoted_unique)

lemmas js_unique = js.unique [OF TrueI TrueI]

section \<open>What the bindings are\<close>

definition aad_ok :: "aad \<Rightarrow> bool" where
  "aad_ok a = (Scope_Valid (aad_Scope a) \<and> aad_ClerkUserID a \<noteq> [] \<and> aad_ID a \<noteq> []
     \<and> (aad_Scope a = ScopeProfile \<longrightarrow> aad_ID a = ProfileSingletonID))"

definition kid_ok :: "string \<Rightarrow> bool" where
  "kid_ok k = (length k = 32 \<and> isLowerHex k)"

lemma CanonicalPayloadAAD_Inr:
  "CanonicalPayloadAAD a = Inr b \<longleftrightarrow> aad_ok a \<and> marshalCanonical
     [(''alg'', AStr AlgAESGCM), (''clerk_user_id'', AStr (aad_ClerkUserID a)),
      (''domain'', AStr AADDomain), (''id'', AStr (aad_ID a)),
      (''scope'', AStr (aad_Scope a)), (''v'', AInt EnvelopeVersion)] = Inr b"
  by (auto simp: CanonicalPayloadAAD_def aad_ok_def)

lemma CanonicalDEKWrapAAD_Inr:
  "CanonicalDEKWrapAAD a = Inr b \<longleftrightarrow> aad_ok a \<and> kid_ok (aad_KeyIDHex a) \<and> marshalCanonical
     [(''clerk_user_id'', AStr (aad_ClerkUserID a)), (''domain'', AStr DEKWrapAADDomain),
      (''id'', AStr (aad_ID a)), (''kid'', AStr (aad_KeyIDHex a)),
      (''scope'', AStr (aad_Scope a)), (''v'', AInt EnvelopeVersion)] = Inr b"
  by (auto simp: CanonicalDEKWrapAAD_def aad_ok_def kid_ok_def)

lemma CanonicalBundleAAD_Inr:
  "CanonicalBundleAAD a = Inr b \<longleftrightarrow> ba_ClerkUserID a \<noteq> [] \<and> ba_CredentialID a \<noteq> []
     \<and> kid_ok (ba_KeyIDHex a) \<and> marshalCanonical
     [(''clerk_user_id'', AStr (ba_ClerkUserID a)), (''credential_id'', AStr (ba_CredentialID a)),
      (''domain'', AStr BundleAADDomain), (''key_id'', AStr (ba_KeyIDHex a))] = Inr b"
  by (auto simp: CanonicalBundleAAD_def kid_ok_def)

lemma CanonicalPayloadAAD_total: "aad_ok a \<Longrightarrow> \<exists>b. CanonicalPayloadAAD a = Inr b"
  by (simp add: CanonicalPayloadAAD_Inr marshalCanonical_def)

lemma CanonicalDEKWrapAAD_total:
  "aad_ok a \<Longrightarrow> kid_ok (aad_KeyIDHex a) \<Longrightarrow> \<exists>b. CanonicalDEKWrapAAD a = Inr b"
  by (simp add: CanonicalDEKWrapAAD_Inr marshalCanonical_def)

text \<open>The payload binding does not mention the key id.\<close>

lemma CanonicalPayloadAAD_cong:
  "aad_Scope a = aad_Scope a' \<Longrightarrow> aad_ID a = aad_ID a' \<Longrightarrow> aad_ClerkUserID a = aad_ClerkUserID a' \<Longrightarrow>
   CanonicalPayloadAAD a = CanonicalPayloadAAD a'"
  by (simp add: CanonicalPayloadAAD_def)

lemma payload_aad_inject:
  assumes "CanonicalPayloadAAD a = Inr b" "CanonicalPayloadAAD a' = Inr b"
  shows "aad_ClerkUserID a = aad_ClerkUserID a' \<and> aad_ID a = aad_ID a' \<and> aad_Scope a = aad_Scope a'"
  using assms by (auto simp: CanonicalPayloadAAD_Inr marshalCanonical_def dest!: js_unique)

lemma wrap_aad_inject:
  assumes "CanonicalDEKWrapAAD a = Inr b" "CanonicalDEKWrapAAD a' = Inr b"
  shows "aad_ClerkUserID a = aad_ClerkUserID a' \<and> aad_ID a = aad_ID a'
    \<and> aad_Scope a = aad_Scope a' \<and> aad_KeyIDHex a = aad_KeyIDHex a'"
  using assms by (auto simp: CanonicalDEKWrapAAD_Inr marshalCanonical_def dest!: js_unique)

lemma bundle_aad_inject:
  assumes "CanonicalBundleAAD a = Inr b" "CanonicalBundleAAD a' = Inr b"
  shows "a = a'"
  using assms by (auto simp: CanonicalBundleAAD_Inr marshalCanonical_def dest!: js_unique)

lemma payload_wrap_disjoint:
  "CanonicalPayloadAAD a = Inr b \<Longrightarrow> CanonicalDEKWrapAAD a' \<noteq> Inr b"
  by (auto simp: CanonicalPayloadAAD_Inr CanonicalDEKWrapAAD_Inr marshalCanonical_def
      dest!: js_unique)

lemma payload_bundle_disjoint:
  "CanonicalPayloadAAD a = Inr b \<Longrightarrow> CanonicalBundleAAD c \<noteq> Inr b"
  by (auto simp: CanonicalPayloadAAD_Inr CanonicalBundleAAD_Inr marshalCanonical_def
      dest!: js_unique)

lemma wrap_bundle_disjoint:
  "CanonicalDEKWrapAAD a = Inr b \<Longrightarrow> CanonicalBundleAAD c \<noteq> Inr b"
  by (auto simp: CanonicalDEKWrapAAD_Inr CanonicalBundleAAD_Inr marshalCanonical_def
      dest!: js_unique)

lemma isLowerHex_hex_encode [simp]: "isLowerHex (hex_encode b)"
  by (simp add: isLowerHex_def hex_encode_lower)

lemma kid_ok_KeyIDHex: "length b = 16 \<Longrightarrow> kid_ok (KeyIDHex b)"
  by (simp add: kid_ok_def KeyIDHex_def)


definition example_aad :: aad where
  "example_aad = \<lparr> aad_KeyIDHex = ''0123456789abcdef0123456789abcdef'', aad_Scope = ''chat'',
     aad_ID = ''c1'', aad_ClerkUserID = ''user_1'' \<rparr>"

lemma example_aad_ok: "aad_ok example_aad" and example_kid_ok: "kid_ok (aad_KeyIDHex example_aad)"
  by (simp_all add: aad_ok_def kid_ok_def example_aad_def Scope_Valid_def scope_defs isLowerHex_def
      is_lower_hex_char_def)


text \<open>
  The bindings are canonical JSON: the field lists the two envelope AADs and the bundle AAD
  are written from are already in sorted key order, so writing them field by field gives the
  text that the sorting writer gives for the same object.
\<close>

theorem canonical_fields_sorted:
  "marshalCanonical
     [(''alg'', AStr AlgAESGCM), (''clerk_user_id'', AStr u), (''domain'', AStr AADDomain),
      (''id'', AStr i), (''scope'', AStr s), (''v'', AInt EnvelopeVersion)]
   = writeCanonicalValue (AMap
     [(''v'', AInt EnvelopeVersion), (''scope'', AStr s), (''alg'', AStr AlgAESGCM),
      (''id'', AStr i), (''clerk_user_id'', AStr u), (''domain'', AStr AADDomain)])
   \<and> marshalCanonical
     [(''clerk_user_id'', AStr u), (''domain'', AStr DEKWrapAADDomain), (''id'', AStr i),
      (''kid'', AStr k), (''scope'', AStr s), (''v'', AInt EnvelopeVersion)]
   = writeCanonicalValue (AMap
     [(''kid'', AStr k), (''v'', AInt EnvelopeVersion), (''scope'', AStr s),
      (''id'', AStr i), (''clerk_user_id'', AStr u), (''domain'', AStr DEKWrapAADDomain)])
   \<and> marshalCanonical
     [(''clerk_user_id'', AStr u), (''credential_id'', AStr c), (''domain'', AStr BundleAADDomain),
      (''key_id'', AStr k)]
   = writeCanonicalValue (AMap
     [(''key_id'', AStr k), (''domain'', AStr BundleAADDomain), (''credential_id'', AStr c),
      (''clerk_user_id'', AStr u)])"
  by (simp add: marshalCanonical_def insort_key.simps less_eq_char_def list_le_def)

end
