(* ===== verification/Go_JSON.thy ===== *)
theory Go_JSON
  imports Go_Errors "HOL-Library.Char_ord" "HOL-Library.List_Lexorder"
begin

text \<open>
  Go's \<^verbatim>\<open>encoding/json\<close> as the source uses it: a syntax tree, the parser behind
  \<^verbatim>\<open>json.Unmarshal\<close> and \<^verbatim>\<open>json.Decoder\<close> (white space, numbers kept as text, escapes,
  surrogate pairs, replacement of invalid UTF-8, the nesting limit of 10000), the compact
  writer behind \<^verbatim>\<open>json.Marshal\<close> (HTML escaping included), and the rules by which object
  members reach struct fields (case-insensitive names, last member wins, \<^verbatim>\<open>null\<close> leaves a
  plain field unchanged and clears a pointer).

  The parser is fuelled by twice the length of its input; \<open>pval_stable\<close> shows that this is
  enough, so running out of fuel is never the reason for \<open>None\<close>.
\<close>

datatype json =
    JNull | JBool bool | JNum string | JStr string | JArr "json list"
  | JObj "(string \<times> json) list"

section \<open>Strings\<close>

definition in_range :: "nat \<Rightarrow> nat \<Rightarrow> char \<Rightarrow> bool" where
  "in_range lo hi c = (lo \<le> byte_val c \<and> byte_val c \<le> hi)"

abbreviation cont_byte :: "char \<Rightarrow> bool" where
  "cont_byte \<equiv> in_range 128 191"

text \<open>How many continuation bytes a valid UTF-8 sequence starting with \<open>c\<close> has in \<open>r\<close>.\<close>

definition utf8_tail :: "char \<Rightarrow> string \<Rightarrow> nat option" where
  "utf8_tail c r =
     (case r of
        [] \<Rightarrow> None
      | a # r1 \<Rightarrow>
          if in_range 194 223 c then (if cont_byte a then Some 1 else None)
          else case r1 of
                 [] \<Rightarrow> None
               | b # r2 \<Rightarrow>
                   if (byte_val c = 224 \<and> in_range 160 191 a \<or> byte_val c = 237 \<and> in_range 128 159 a
                       \<or> (in_range 225 236 c \<or> in_range 238 239 c) \<and> cont_byte a) \<and> cont_byte b
                   then Some 2
                   else case r2 of
                          [] \<Rightarrow> None
                        | d # _ \<Rightarrow>
                            if (byte_val c = 240 \<and> in_range 144 191 a
                                \<or> byte_val c = 244 \<and> in_range 128 143 a
                                \<or> in_range 241 243 c \<and> cont_byte a) \<and> cont_byte b \<and> cont_byte d
                            then Some 3 else None)"

definition utf8_encode :: "nat \<Rightarrow> string" where
  "utf8_encode u =
     (if u < 128 then [byte_of u]
      else if u < 2048 then [byte_of (192 + u div 64), byte_of (128 + u mod 64)]
      else if u < 65536 then
        [byte_of (224 + u div 4096), byte_of (128 + u div 64 mod 64), byte_of (128 + u mod 64)]
      else [byte_of (240 + u div 262144), byte_of (128 + u div 4096 mod 64),
            byte_of (128 + u div 64 mod 64), byte_of (128 + u mod 64)])"

definition replacement :: string where
  "replacement = utf8_encode 65533"

definition getu4 :: "string \<Rightarrow> nat option" where
  "getu4 s =
     (case s of
        a # b # c # d # _ \<Rightarrow>
          (case (fromHexChar a, fromHexChar b, fromHexChar c, fromHexChar d) of
             (Some w, Some x, Some y, Some z) \<Rightarrow> Some (w * 4096 + x * 256 + y * 16 + z)
           | _ \<Rightarrow> None)
      | _ \<Rightarrow> None)"

text \<open>The low half of a surrogate pair written as a second escape.\<close>

definition low_surrogate :: "string \<Rightarrow> nat option" where
  "low_surrogate s =
     (case s of
        a # b # r \<Rightarrow>
          if a = CHR 0x5C \<and> b = CHR ''u'' then
            (case getu4 r of
               None \<Rightarrow> None
             | Some v \<Rightarrow> if 56320 \<le> v \<and> v \<le> 57343 then Some v else None)
          else None
      | _ \<Rightarrow> None)"

definition simple_escape :: "char \<Rightarrow> char option" where
  "simple_escape e =
     (if e = CHR 0x22 \<or> e = CHR 0x5C \<or> e = CHR ''/'' then Some e
      else if e = CHR ''b'' then Some (CHR 0x08)
      else if e = CHR ''f'' then Some (CHR 0x0C)
      else if e = CHR ''n'' then Some (CHR 0x0A)
      else if e = CHR ''r'' then Some (CHR 0x0D)
      else if e = CHR ''t'' then Some (CHR 0x09)
      else None)"

definition prepend :: "string \<Rightarrow> (string \<times> string) option \<Rightarrow> (string \<times> string) option" where
  "prepend p x = map_option (\<lambda>(s, r). (p @ s, r)) x"

text \<open>The body of a string literal, after the opening quote.\<close>

function pstr :: "string \<Rightarrow> (string \<times> string) option" where
  "pstr [] = None"
| "pstr (c # r) =
     (if c = CHR 0x22 then Some ([], r)
      else if c = CHR 0x5C then
        (case r of
           [] \<Rightarrow> None
         | e # r1 \<Rightarrow>
             if e = CHR ''u'' then
               (case getu4 r1 of
                  None \<Rightarrow> None
                | Some u \<Rightarrow>
                    if 55296 \<le> u \<and> u \<le> 57343 then
                      (case (if u \<le> 56319 then low_surrogate (drop 4 r1) else None) of
                         Some v \<Rightarrow> prepend (utf8_encode (65536 + (u - 55296) * 1024 + (v - 56320)))
                                     (pstr (drop 10 r1))
                       | None \<Rightarrow> prepend replacement (pstr (drop 4 r1)))
                    else prepend (utf8_encode u) (pstr (drop 4 r1)))
             else (case simple_escape e of
                     None \<Rightarrow> None
                   | Some x \<Rightarrow> prepend [x] (pstr r1)))
      else if byte_val c < 32 then None
      else if byte_val c < 128 then prepend [c] (pstr r)
      else case utf8_tail c r of
             Some n \<Rightarrow> prepend (c # take n r) (pstr (drop n r))
           | None \<Rightarrow> prepend replacement (pstr r))"
  by pat_completeness auto
termination
  by (relation "measure length") auto

declare pstr.simps(2) [simp del]

text \<open>\<^verbatim>\<open>json.Marshal\<close> of a string.\<close>

definition ascii_escape :: "char \<Rightarrow> string" where
  "ascii_escape c =
     (if c = CHR 0x22 \<or> c = CHR 0x5C then [CHR 0x5C, c]
      else if c = CHR 0x08 then [CHR 0x5C, CHR ''b'']
      else if c = CHR 0x0C then [CHR 0x5C, CHR ''f'']
      else if c = CHR 0x0A then [CHR 0x5C, CHR ''n'']
      else if c = CHR 0x0D then [CHR 0x5C, CHR ''r'']
      else if c = CHR 0x09 then [CHR 0x5C, CHR ''t'']
      else if byte_val c < 32 \<or> c = CHR ''<'' \<or> c = CHR ''>'' \<or> c = CHR ''&'' then
        [CHR 0x5C, CHR ''u'', CHR ''0'', CHR ''0'', hexdigit (byte_val c div 16),
         hexdigit (byte_val c mod 16)]
      else [c])"

function estr :: "string \<Rightarrow> string" where
  "estr [] = []"
| "estr (c # r) =
     (if byte_val c < 128 then ascii_escape c @ estr r
      else case utf8_tail c r of
             None \<Rightarrow> [CHR 0x5C] @ ''ufffd'' @ estr r
           | Some n \<Rightarrow>
               (if c # take n r = [CHR 0xE2, CHR 0x80, CHR 0xA8] then [CHR 0x5C] @ ''u2028''
                else if c # take n r = [CHR 0xE2, CHR 0x80, CHR 0xA9] then [CHR 0x5C] @ ''u2029''
                else c # take n r) @ estr (drop n r))"
  by pat_completeness auto
termination
  by (relation "measure length") auto

declare estr.simps(2) [simp del]

definition jstring :: "string \<Rightarrow> string" where
  "jstring s = [CHR 0x22] @ estr s @ [CHR 0x22]"

section \<open>Numbers, white space and literals\<close>

definition is_ws :: "char \<Rightarrow> bool" where
  "is_ws c = (c = CHR 0x20 \<or> c = CHR 0x09 \<or> c = CHR 0x0A \<or> c = CHR 0x0D)"

definition skip_ws :: "string \<Rightarrow> string" where
  "skip_ws s = dropWhile is_ws s"

definition jdigit :: "char \<Rightarrow> bool" where
  "jdigit c = is_digit c"

text \<open>Integer part, optional fraction, optional exponent; the text consumed and the rest.\<close>

definition pint :: "string \<Rightarrow> (string \<times> string) option" where
  "pint s =
     (case s of
        [] \<Rightarrow> None
      | c # r \<Rightarrow>
          if c = CHR ''0'' then Some ([c], r)
          else if jdigit c then Some (c # takeWhile jdigit r, dropWhile jdigit r)
          else None)"

definition pfrac :: "string \<Rightarrow> (string \<times> string) option" where
  "pfrac s =
     (case s of
        [] \<Rightarrow> Some ([], [])
      | c # r \<Rightarrow>
          if c = CHR ''.'' then
            (if takeWhile jdigit r = [] then None
             else Some (c # takeWhile jdigit r, dropWhile jdigit r))
          else Some ([], s))"

definition pexp :: "string \<Rightarrow> (string \<times> string) option" where
  "pexp s =
     (case s of
        [] \<Rightarrow> Some ([], [])
      | c # r \<Rightarrow>
          if c = CHR ''e'' \<or> c = CHR ''E'' then
            (let sg = (case r of x # _ \<Rightarrow> if x = CHR ''+'' \<or> x = CHR ''-'' then [x] else [] | _ \<Rightarrow> []);
                 t = drop (length sg) r
             in if takeWhile jdigit t = [] then None
                else Some (c # sg @ takeWhile jdigit t, dropWhile jdigit t))
          else Some ([], s))"

definition pnum :: "string \<Rightarrow> (string \<times> string) option" where
  "pnum s =
     (let sg = (case s of c # _ \<Rightarrow> if c = CHR ''-'' then [c] else [] | _ \<Rightarrow> []) in
      case pint (drop (length sg) s) of
        None \<Rightarrow> None
      | Some (i, r1) \<Rightarrow>
          (case pfrac r1 of
             None \<Rightarrow> None
           | Some (f, r2) \<Rightarrow>
               (case pexp r2 of
                  None \<Rightarrow> None
                | Some (e, r3) \<Rightarrow> Some (sg @ i @ f @ e, r3))))"

section \<open>Values\<close>

fun pval :: "nat \<Rightarrow> nat \<Rightarrow> string \<Rightarrow> (json \<times> string) option"
  and pelems :: "nat \<Rightarrow> nat \<Rightarrow> string \<Rightarrow> (json list \<times> string) option"
  and pmembers :: "nat \<Rightarrow> nat \<Rightarrow> string \<Rightarrow> ((string \<times> json) list \<times> string) option" where
  "pval 0 d s = None"
| "pval (Suc f) d s =
     (case s of
        [] \<Rightarrow> None
      | c # r \<Rightarrow>
          if c = CHR 0x22 then map_option (\<lambda>(x, r'). (JStr x, r')) (pstr r)
          else if c = CHR ''['' then
            (if d = 0 then None
             else case skip_ws r of
                    c' # r' \<Rightarrow> if c' = CHR '']'' then Some (JArr [], r')
                              else map_option (\<lambda>(x, t). (JArr x, t)) (pelems f (d - 1) (c' # r'))
                  | [] \<Rightarrow> None)
          else if c = CHR ''{'' then
            (if d = 0 then None
             else case skip_ws r of
                    c' # r' \<Rightarrow> if c' = CHR ''}'' then Some (JObj [], r')
                              else map_option (\<lambda>(x, t). (JObj x, t)) (pmembers f (d - 1) (c' # r'))
                  | [] \<Rightarrow> None)
          else if has_prefix s ''true'' then Some (JBool True, drop 4 s)
          else if has_prefix s ''false'' then Some (JBool False, drop 5 s)
          else if has_prefix s ''null'' then Some (JNull, drop 4 s)
          else map_option (\<lambda>(x, r'). (JNum x, r')) (pnum s))"
| "pelems 0 d s = None"
| "pelems (Suc f) d s =
     (case pval f d s of
        None \<Rightarrow> None
      | Some (v, r) \<Rightarrow>
          (case skip_ws r of
             [] \<Rightarrow> None
           | c # r' \<Rightarrow>
               if c = CHR '']'' then Some ([v], r')
               else if c = CHR '','' then
                 map_option (\<lambda>(vs, t). (v # vs, t)) (pelems f d (skip_ws r'))
               else None))"
| "pmembers 0 d s = None"
| "pmembers (Suc f) d s =
     (case s of
        [] \<Rightarrow> None
      | q # r0 \<Rightarrow>
          if q \<noteq> CHR 0x22 then None
          else case pstr r0 of
                 None \<Rightarrow> None
               | Some (k, r1) \<Rightarrow>
                   (case skip_ws r1 of
                      [] \<Rightarrow> None
                    | c # r2 \<Rightarrow>
                        if c \<noteq> CHR '':'' then None
                        else case pval f d (skip_ws r2) of
                               None \<Rightarrow> None
                             | Some (v, r3) \<Rightarrow>
                                 (case skip_ws r3 of
                                    [] \<Rightarrow> None
                                  | c' # r4 \<Rightarrow>
                                      if c' = CHR ''}'' then Some ([(k, v)], r4)
                                      else if c' = CHR '','' then
                                        map_option (\<lambda>(m, t). ((k, v) # m, t))
                                          (pmembers f d (skip_ws r4))
                                      else None)))"

definition parse_fuel :: "string \<Rightarrow> nat" where
  "parse_fuel s = 2 * length s + 2"

text \<open>The first value of a stream and what follows it (\<^verbatim>\<open>Decoder.Decode\<close>).\<close>

definition json_first :: "string \<Rightarrow> (json \<times> string) option" where
  "json_first s = pval (parse_fuel s) 10000 (skip_ws s)"

text \<open>A whole document (\<^verbatim>\<open>json.Unmarshal\<close>).\<close>

definition json_parse :: "string \<Rightarrow> json option" where
  "json_parse s =
     (case json_first s of
        Some (j, r) \<Rightarrow> if skip_ws r = [] then Some j else None
      | None \<Rightarrow> None)"

text \<open>The compact writer.\<close>

fun intersperse :: "string list \<Rightarrow> string" where
  "intersperse [] = []"
| "intersperse [x] = x"
| "intersperse (x # y # r) = x @ '','' @ intersperse (y # r)"

fun json_encode :: "json \<Rightarrow> string" where
  "json_encode JNull = ''null''"
| "json_encode (JBool b) = (if b then ''true'' else ''false'')"
| "json_encode (JNum t) = t"
| "json_encode (JStr s) = jstring s"
| "json_encode (JArr vs) = ''['' @ intersperse (map json_encode vs) @ '']''"
| "json_encode (JObj kvs) =
     ''{'' @ intersperse (map (\<lambda>kv. jstring (fst kv) @ '':'' @ json_encode (snd kv)) kvs) @ ''}''"

text \<open>A Go map is marshalled in sorted key order.\<close>

definition json_map :: "(string \<times> json) list \<Rightarrow> json" where
  "json_map kvs = JObj (sort_key fst kvs)"

section \<open>Struct decoding\<close>

text \<open>
  Field names match up to the simple case folding of ASCII letters, plus the two non-ASCII
  letters (long s and the Kelvin sign) that fold to ASCII ones.
\<close>

fun fold_name :: "string \<Rightarrow> string" where
  "fold_name [] = []"
| "fold_name (c # r) =
     (if in_range 97 122 c then byte_of (byte_val c - 32) # fold_name r
      else if c = CHR 0xC5 \<and> has_prefix r [CHR 0xBF] then CHR ''S'' # fold_name (drop 1 r)
      else if c = CHR 0xE2 \<and> has_prefix r [CHR 0x84, CHR 0xAA] then CHR ''K'' # fold_name (drop 2 r)
      else c # fold_name r)"

definition field_values :: "string \<Rightarrow> (string \<times> json) list \<Rightarrow> json list" where
  "field_values name kvs = map snd (filter (\<lambda>kv. fold_name (fst kv) = fold_name name) kvs)"

definition struct_members :: "json \<Rightarrow> (string \<times> json) list option" where
  "struct_members j = (case j of JObj m \<Rightarrow> Some m | JNull \<Rightarrow> Some [] | _ \<Rightarrow> None)"

text \<open>Assigning the matching members in order; \<open>None\<close> when one has the wrong type.\<close>

fun dec_string :: "string \<Rightarrow> json list \<Rightarrow> string option" where
  "dec_string cur [] = Some cur"
| "dec_string cur (v # vs) =
     (case v of JStr s \<Rightarrow> dec_string s vs | JNull \<Rightarrow> dec_string cur vs | _ \<Rightarrow> None)"

fun dec_ptr_string :: "string option \<Rightarrow> json list \<Rightarrow> string option option" where
  "dec_ptr_string cur [] = Some cur"
| "dec_ptr_string cur (v # vs) =
     (case v of JStr s \<Rightarrow> dec_ptr_string (Some s) vs | JNull \<Rightarrow> dec_ptr_string None vs | _ \<Rightarrow> None)"

fun dec_int :: "int \<Rightarrow> json list \<Rightarrow> int option" where
  "dec_int cur [] = Some cur"
| "dec_int cur (v # vs) =
     (case v of
        JNum t \<Rightarrow> (case parse_int64 t of Some i \<Rightarrow> dec_int i vs | None \<Rightarrow> None)
      | JNull \<Rightarrow> dec_int cur vs
      | _ \<Rightarrow> None)"

fun dec_ptr_int :: "int option \<Rightarrow> json list \<Rightarrow> int option option" where
  "dec_ptr_int cur [] = Some cur"
| "dec_ptr_int cur (v # vs) =
     (case v of
        JNum t \<Rightarrow> (case parse_int64 t of Some i \<Rightarrow> dec_ptr_int (Some i) vs | None \<Rightarrow> None)
      | JNull \<Rightarrow> dec_ptr_int None vs
      | _ \<Rightarrow> None)"

fun dec_bool :: "bool \<Rightarrow> json list \<Rightarrow> bool option" where
  "dec_bool cur [] = Some cur"
| "dec_bool cur (v # vs) =
     (case v of JBool b \<Rightarrow> dec_bool b vs | JNull \<Rightarrow> dec_bool cur vs | _ \<Rightarrow> None)"

fun strings_of :: "json list \<Rightarrow> string list option" where
  "strings_of [] = Some []"
| "strings_of (v # vs) =
     (case (v, strings_of vs) of
        (JStr s, Some t) \<Rightarrow> Some (s # t)
      | (JNull, Some t) \<Rightarrow> Some ([] # t)
      | _ \<Rightarrow> None)"

fun dec_strings :: "string list \<Rightarrow> json list \<Rightarrow> string list option" where
  "dec_strings cur [] = Some cur"
| "dec_strings cur (v # vs) =
     (case v of
        JArr xs \<Rightarrow> (case strings_of xs of Some t \<Rightarrow> dec_strings t vs | None \<Rightarrow> None)
      | JNull \<Rightarrow> dec_strings [] vs
      | _ \<Rightarrow> None)"

section \<open>The parser consumes input and its fuel is enough\<close>

lemma skip_ws_length: "length (skip_ws s) \<le> length s"
  by (simp add: skip_ws_def length_dropWhile_le)

lemma prepend_Some: "prepend p x = Some (a, r) \<longleftrightarrow> (\<exists>b. x = Some (b, r) \<and> a = p @ b)"
  by (cases x) (auto simp: prepend_def)

lemma pstr_shorter: "pstr s = Some (x, r) \<Longrightarrow> length r < length s"
proof (induction s arbitrary: x rule: pstr.induct)
  case (2 c r0)
  show ?case using 2
    by (simp add: pstr.simps(2) prepend_Some split: if_splits list.splits option.splits)
      (fastforce simp: prepend_Some)+
qed simp

lemma pint_split: "pint s = Some (x, r) \<Longrightarrow> x @ r = s \<and> x \<noteq> []"
  by (auto simp: pint_def split: list.splits if_splits)

lemma pfrac_split: "pfrac s = Some (x, r) \<Longrightarrow> x @ r = s"
  by (auto simp: pfrac_def split: list.splits if_splits)

lemma pexp_split: "pexp s = Some (x, r) \<Longrightarrow> x @ r = s"
  by (auto simp: pexp_def Let_def split: list.splits if_splits)

lemma pnum_split: "pnum s = Some (x, r) \<Longrightarrow> x @ r = s \<and> x \<noteq> []"
  by (auto simp: pnum_def Let_def split: option.splits list.splits if_splits
      dest!: pint_split pfrac_split pexp_split)

lemma pnum_shorter: "pnum s = Some (x, r) \<Longrightarrow> length r < length s"
  by (drule pnum_split) auto

lemma skip_ws_Cons: "skip_ws r = c # t \<Longrightarrow> length t < length r"
  using skip_ws_length [of r] by simp

lemma parse_shorter:
  "pval f d s = Some (j, r) \<Longrightarrow> length r < length s"
  "pelems f d s = Some (js, r) \<Longrightarrow> length r < length s"
  "pmembers f d s = Some (ms, r) \<Longrightarrow> length r < length s"
proof (induction f d s and f d s and f d s arbitrary: j r and js r and ms r
    rule: pval_pelems_pmembers.induct)
  case (2 f d s)
  show ?case
  proof (cases s)
    case (Cons c t)
    show ?thesis
    proof (cases "c = CHR ''['' \<or> c = CHR ''{''")
      case True
      then show ?thesis using 2 Cons
        by (fastforce split: if_splits list.splits dest!: skip_ws_Cons)
    next
      case False
      then show ?thesis using 2(3) Cons
        by (auto split: if_splits dest!: pstr_shorter pnum_shorter)
    qed
  qed (use 2 in simp)
next
  case (4 f d s)
  then obtain v r1 c r2 where v: "pval f d s = Some (v, r1)" and c: "skip_ws r1 = c # r2"
    by (auto split: option.splits list.splits)
  have "length r1 < length s" "length r2 < length r1" using 4 v c skip_ws_Cons by blast+
  moreover have "length r \<le> length r2"
    using 4(2)[OF v _ c] 4(3) v c skip_ws_length [of r2] by (fastforce split: if_splits)
  ultimately show ?case by simp
next
  case (6 f d s)
  then obtain q r0 k r1 c r2 v r3 c' r4 where s: "s = q # r0" "q = CHR 0x22"
    and k: "pstr r0 = Some (k, r1)" and c: "skip_ws r1 = c # r2" "c = CHR '':''"
    and v: "pval f d (skip_ws r2) = Some (v, r3)" and c': "skip_ws r3 = c' # r4"
    by (auto split: option.splits list.splits if_splits)
  have "length r3 < length (skip_ws r2)" using 6 s k c v by auto
  moreover have "length r1 < length r0" "length r2 < length r1" "length r4 < length r3"
    using k c c' pstr_shorter skip_ws_Cons by blast+
  moreover have "length (skip_ws r2) \<le> length r2" by (rule skip_ws_length)
  moreover have "length r \<le> length r4"
    using 6(2) 6(3) s k c v c' skip_ws_length [of r4] by (fastforce split: if_splits)
  ultimately show ?case using s by simp
qed simp_all

text \<open>One more unit of fuel changes nothing once there are two units per input byte.\<close>

lemma parse_stable:
  "(2 * length s + 1 \<le> f \<longrightarrow> pval (Suc f) d s = pval f d s)
   \<and> (2 * length s + 2 \<le> f \<longrightarrow> pelems (Suc f) d s = pelems f d s)
   \<and> (2 * length s + 2 \<le> f \<longrightarrow> pmembers (Suc f) d s = pmembers f d s)"
proof (induction f arbitrary: d s)
  case (Suc f)
  have elems: "pelems (Suc f) e t = pelems f e t" and membs: "pmembers (Suc f) e t = pmembers f e t"
    if "2 * length t + 2 \<le> f" for e t
    using Suc that by blast+
  have vals: "pval (Suc f) e t = pval f e t" if "2 * length t + 1 \<le> f" for e t
    using Suc that by blast
  have v: "pval (Suc (Suc f)) d s = pval (Suc f) d s" if l: "2 * length s + 1 \<le> Suc f"
  proof (cases s)
    case (Cons c t)
    have "2 * length (x # y) + 2 \<le> f" if "skip_ws t = x # y" for x y
      using skip_ws_Cons [OF that] l Cons by simp
    then have "pelems (Suc f) (d - 1) (x # y) = pelems f (d - 1) (x # y)"
      "pmembers (Suc f) (d - 1) (x # y) = pmembers f (d - 1) (x # y)" if "skip_ws t = x # y" for x y
      using that elems membs by blast+
    then show ?thesis unfolding Cons pval.simps(2) list.case by (simp only: split: list.splits) auto
  qed simp
  have e: "pelems (Suc (Suc f)) d s = pelems (Suc f) d s" if l: "2 * length s + 2 \<le> Suc f"
  proof -
    have pv: "pval (Suc f) d s = pval f d s" using l vals by simp
    have "pelems (Suc f) d (skip_ws y) = pelems f d (skip_ws y)"
      if "pval f d s = Some (a, b)" "skip_ws b = x # y" for a b x y
      using elems parse_shorter(1) [OF that(1)] skip_ws_Cons [OF that(2)] skip_ws_length [of y] l
      by simp
    then show ?thesis unfolding pelems.simps(2) pv by (auto split: option.splits list.splits)
  qed
  have m: "pmembers (Suc (Suc f)) d s = pmembers (Suc f) d s" if l: "2 * length s + 2 \<le> Suc f"
  proof -
    have pv: "pval (Suc f) d (skip_ws z) = pval f d (skip_ws z)"
      if "s = q # r0" "pstr r0 = Some (k, r1)" "skip_ws r1 = y # z" for q r0 k r1 y z
      using vals that l pstr_shorter [OF that(2)] skip_ws_Cons [OF that(3)] skip_ws_length [of z]
      by simp
    have "pmembers (Suc f) d (skip_ws w) = pmembers f d (skip_ws w)"
      if "s = q # r0" "pstr r0 = Some (k, r1)" "skip_ws r1 = y # z"
        "pval f d (skip_ws z) = Some (a, r3)" "skip_ws r3 = u # w" for q r0 k r1 y z a r3 u w
      using membs that l pstr_shorter [OF that(2)] skip_ws_Cons [OF that(3)] skip_ws_length [of z]
        parse_shorter(1) [OF that(4)] skip_ws_Cons [OF that(5)] skip_ws_length [of w]
      by simp
    then show ?thesis using pv
      unfolding pmembers.simps(2) by (auto split: option.splits list.splits)
  qed
  show ?case using v e m by blast
qed simp

lemma pval_stable: "2 * length s + 1 \<le> f \<Longrightarrow> f \<le> g \<Longrightarrow> pval g d s = pval f d s"
proof (induction g)
  case (Suc g)
  then show ?case using parse_stable [of s g d] by (cases "f = Suc g") auto
qed simp

section \<open>Reading back what was written\<close>

definition is_ascii :: "string \<Rightarrow> bool" where
  "is_ascii s = list_all (\<lambda>c. byte_val c < 128) s"

lemma getu4_escape:
  "byte_val c < 256 \<Longrightarrow>
   getu4 (CHR ''0'' # CHR ''0'' # hexdigit (byte_val c div 16) # hexdigit (byte_val c mod 16) # r)
     = Some (byte_val c)"
  by (simp add: getu4_def fromHexChar_def [of "CHR ''0''"])

lemma pstr_ascii_escape:
  assumes "byte_val c < 128"
  shows "pstr (ascii_escape c @ r) = prepend [c] (pstr r)"
proof -
  have u: "pstr (CHR 0x5C # CHR ''u'' # CHR ''0'' # CHR ''0'' # hexdigit (byte_val c div 16)
      # hexdigit (byte_val c mod 16) # r) = prepend [c] (pstr r)"
    using assms getu4_escape [of c r] by (simp add: pstr.simps(2) utf8_encode_def)
  consider "c = CHR 0x22" | "c = CHR 0x5C" | "c = CHR 0x08" | "c = CHR 0x0C" | "c = CHR 0x0A"
    | "c = CHR 0x0D" | "c = CHR 0x09"
    | "c \<notin> {CHR 0x22, CHR 0x5C, CHR 0x08, CHR 0x0C, CHR 0x0A, CHR 0x0D, CHR 0x09}"
    by blast
  then show ?thesis
  proof cases
    case 8
    then show ?thesis using u assms by (auto simp: ascii_escape_def pstr.simps(2))
  qed (simp_all add: ascii_escape_def pstr.simps(2) simple_escape_def)
qed

lemma pstr_estr: "is_ascii s \<Longrightarrow> pstr (estr s @ CHR 0x22 # r) = Some (s, r)"
proof (induction s)
  case Nil
  then show ?case by (simp add: pstr.simps(2))
next
  case (Cons c s)
  then show ?case
    by (simp add: is_ascii_def estr.simps(2) pstr_ascii_escape prepend_def)
qed

text \<open>What may follow a value, and numbers that the grammar takes whole.\<close>

definition follows :: "string \<Rightarrow> bool" where
  "follows r = (r = [] \<or> hd r = CHR '','' \<or> hd r = CHR '']'' \<or> hd r = CHR ''}'' \<or> hd r = CHR 0x0A)"

definition num_ok :: "string \<Rightarrow> bool" where
  "num_ok t = (\<forall>r. follows r \<longrightarrow> pnum (t @ r) = Some (t, r)
     \<and> \<not> has_prefix (t @ r) ''true'' \<and> \<not> has_prefix (t @ r) ''false'' \<and> \<not> has_prefix (t @ r) ''null'')"

definition num_start :: "string \<Rightarrow> bool" where
  "num_start t = (t \<noteq> [] \<and> (hd t = CHR ''-'' \<or> is_digit (hd t)))"

fun json_ok :: "nat \<Rightarrow> json \<Rightarrow> bool" where
  "json_ok d JNull = True"
| "json_ok d (JBool b) = True"
| "json_ok d (JNum t) = (num_start t \<and> num_ok t)"
| "json_ok d (JStr s) = is_ascii s"
| "json_ok d (JArr vs) = (0 < d \<and> (\<forall>v \<in> set vs. json_ok (d - 1) v))"
| "json_ok d (JObj kvs) = (0 < d \<and> (\<forall>kv \<in> set kvs. is_ascii (fst kv) \<and> json_ok (d - 1) (snd kv)))"

lemma encode_start:
  assumes "json_ok d j"
  shows "\<exists>c t. json_encode j = c # t \<and> \<not> is_ws c \<and> c \<noteq> CHR '']'' \<and> c \<noteq> CHR ''}''"
proof (cases j)
  case (JNum t)
  then show ?thesis using assms
    by (cases t) (auto simp: num_start_def is_ws_def is_digit_def)
qed (auto simp: jstring_def is_ws_def)

lemma skip_ws_start: "\<not> is_ws c \<Longrightarrow> skip_ws (c # t) = c # t"
  by (simp add: skip_ws_def)

lemma skip_ws_encode: "json_ok d j \<Longrightarrow> skip_ws (json_encode j @ r) = json_encode j @ r"
  using encode_start skip_ws_start by fastforce

lemma skip_ws_follow [simp]:
  "skip_ws (CHR '','' # r) = CHR '','' # r" "skip_ws (CHR '']'' # r) = CHR '']'' # r"
  "skip_ws (CHR ''}'' # r) = CHR ''}'' # r" "skip_ws (CHR '':'' # r) = CHR '':'' # r"
  by (simp_all add: skip_ws_def is_ws_def)

lemma follows_simps [simp]:
  "follows []" "follows (CHR '','' # r)" "follows (CHR '']'' # r)" "follows (CHR ''}'' # r)"
  by (simp_all add: follows_def)

text \<open>A value is read back, with whatever fuel is at least some bound.\<close>

definition reads :: "nat \<Rightarrow> json \<Rightarrow> bool" where
  "reads d j = (\<forall>r. follows r \<longrightarrow> (\<exists>f0. \<forall>f \<ge> f0. pval f d (json_encode j @ r) = Some (j, r)))"

lemma readsD:
  assumes "reads d j" "follows r"
  obtains f0 where "\<And>f. f0 \<le> f \<Longrightarrow> pval f d (json_encode j @ r) = Some (j, r)"
  using assms by (auto simp: reads_def)

lemma pelems_encode:
  "vs \<noteq> [] \<Longrightarrow> (\<And>v. v \<in> set vs \<Longrightarrow> reads d v \<and> json_ok d v) \<Longrightarrow>
   \<exists>f0. \<forall>f \<ge> f0. pelems f d (intersperse (map json_encode vs) @ CHR '']'' # r) = Some (vs, r)"
proof (induction vs rule: induct_list012)
  case (2 v)
  then obtain f0 where f0: "\<And>f. f0 \<le> f \<Longrightarrow>
      pval f d (json_encode v @ CHR '']'' # r) = Some (v, CHR '']'' # r)"
    using readsD [of d v "CHR '']'' # r"] by auto
  have "pelems f d (json_encode v @ CHR '']'' # r) = Some ([v], r)" if "Suc f0 \<le> f" for f
    using f0 [of "f - 1"] that by (cases f) auto
  then show ?case by auto
next
  case (3 v w vs)
  let ?t = "intersperse (map json_encode (w # vs)) @ CHR '']'' # r"
  obtain f0 where f0: "\<And>f. f0 \<le> f \<Longrightarrow>
      pval f d (json_encode v @ CHR '','' # ?t) = Some (v, CHR '','' # ?t)"
    using readsD [of d v "CHR '','' # ?t"] 3(4) by auto
  obtain f1 where f1: "\<And>f. f1 \<le> f \<Longrightarrow> pelems f d ?t = Some (w # vs, r)"
    using 3(2,4) by auto
  have "skip_ws ?t = ?t"
    using skip_ws_encode [of d w] 3(4) by (cases vs) auto
  then have "pelems f d (json_encode v @ CHR '','' # ?t) = Some (v # w # vs, r)"
    if "Suc (max f0 f1) \<le> f" for f
    using f0 [of "f - 1"] f1 [of "f - 1"] that by (cases f) auto
  then show ?case by (intro exI [of _ "Suc (max f0 f1)"]) simp
qed simp

definition member_text :: "string \<times> json \<Rightarrow> string" where
  "member_text kv = jstring (fst kv) @ '':'' @ json_encode (snd kv)"

lemma pmember_head:
  assumes "is_ascii k" "reads d v" "json_ok d v" "follows r" "r \<noteq> []" "hd r \<noteq> CHR 0x0A"
  shows "\<exists>f0. \<forall>f \<ge> f0.
    pmembers (Suc f) d (member_text (k, v) @ r) =
      (if hd r = CHR ''}'' then Some ([(k, v)], tl r)
       else if hd r = CHR '','' then
         map_option (\<lambda>(m, t). ((k, v) # m, t)) (pmembers f d (skip_ws (tl r)))
       else None)"
proof -
  obtain f0 where f0: "\<And>f. f0 \<le> f \<Longrightarrow> pval f d (json_encode v @ r) = Some (v, r)"
    using readsD [OF assms(2,4)] by blast
  have r: "skip_ws r = hd r # tl r"
    using assms(4-6) by (cases r) (auto simp: follows_def)
  have "pmembers (Suc f) d (member_text (k, v) @ r) =
      (if hd r = CHR ''}'' then Some ([(k, v)], tl r)
       else if hd r = CHR '','' then
         map_option (\<lambda>(m, t). ((k, v) # m, t)) (pmembers f d (skip_ws (tl r)))
       else None)" if "f0 \<le> f" for f
    using f0 [OF that] assms(1,3) r
    by (simp add: member_text_def jstring_def pstr_estr skip_ws_encode)
  then show ?thesis by blast
qed

lemma pmembers_encode:
  "kvs \<noteq> [] \<Longrightarrow>
   (\<And>kv. kv \<in> set kvs \<Longrightarrow> is_ascii (fst kv) \<and> reads d (snd kv) \<and> json_ok d (snd kv)) \<Longrightarrow>
   \<exists>f0. \<forall>f \<ge> f0. pmembers f d (intersperse (map member_text kvs) @ CHR ''}'' # r) = Some (kvs, r)"
proof (induction kvs rule: induct_list012)
  case (2 kv)
  obtain k v where kv: "kv = (k, v)" by (cases kv)
  obtain f0 where f0: "\<And>f. f0 \<le> f \<Longrightarrow>
      pmembers (Suc f) d (member_text (k, v) @ CHR ''}'' # r) = Some ([(k, v)], r)"
    using pmember_head [of k d v "CHR ''}'' # r"] 2(2) kv by (auto simp del: pmembers.simps)
  have "pmembers f d (member_text kv @ CHR ''}'' # r) = Some ([kv], r)" if "Suc f0 \<le> f" for f
    using f0 [of "f - 1"] that kv by (cases f) (auto simp del: pmembers.simps)
  then show ?case by auto
next
  case (3 kv kw kvs)
  obtain k v where kv: "kv = (k, v)" by (cases kv)
  let ?t = "intersperse (map member_text (kw # kvs)) @ CHR ''}'' # r"
  have ws: "skip_ws ?t = ?t"
    by (cases kvs) (auto simp: member_text_def jstring_def is_ws_def skip_ws_start)
  obtain f0 where f0: "\<And>f. f0 \<le> f \<Longrightarrow> pmembers (Suc f) d (member_text (k, v) @ CHR '','' # ?t)
      = map_option (\<lambda>(m, t). ((k, v) # m, t)) (pmembers f d ?t)"
    using pmember_head [of k d v "CHR '','' # ?t"] 3(4) [of kv] kv ws
    by (auto simp del: pmembers.simps intersperse.simps)
  obtain f1 where f1: "\<And>f. f1 \<le> f \<Longrightarrow> pmembers f d ?t = Some (kw # kvs, r)"
    using 3(2,4) by auto
  have "pmembers f d (member_text kv @ CHR '','' # ?t) = Some (kv # kw # kvs, r)"
    if "Suc (max f0 f1) \<le> f" for f
    using f0 [of "f - 1"] f1 [of "f - 1"] that kv
    by (cases f) (auto simp del: pmembers.simps intersperse.simps)
  then show ?case by (intro exI [of _ "Suc (max f0 f1)"]) (simp del: pmembers.simps)
qed simp

lemma json_encode_obj:
  "json_encode (JObj kvs) = ''{'' @ intersperse (map member_text kvs) @ ''}''"
  by (simp add: member_text_def [abs_def])

lemma encode_intersperse_start:
  "kvs \<noteq> [] \<Longrightarrow> \<exists>t. intersperse (map member_text kvs) = CHR 0x22 # t"
  by (induction kvs rule: induct_list012) (auto simp: member_text_def jstring_def)

lemma pval_encode: "json_ok d j \<Longrightarrow> reads d j"
proof (induction j arbitrary: d)
  case (JNum t)
  then obtain c u where t: "t = c # u" "c = CHR ''-'' \<or> is_digit c"
    by (cases t) (auto simp: num_start_def)
  have c: "c \<noteq> CHR 0x22" "c \<noteq> CHR ''[''" "c \<noteq> CHR ''{''" using t by (auto simp: is_digit_def)
  have "pval f d (t @ r) = Some (JNum t, r)" if "follows r" "1 \<le> f" for f r
    using JNum that c t by (cases f) (auto simp: num_ok_def)
  then show ?case by (auto simp: reads_def)
next
  case (JStr x)
  have "pval f d (jstring x @ r) = Some (JStr x, r)" if "1 \<le> f" for f r
    using JStr that by (cases f) (auto simp: jstring_def pstr_estr)
  then show ?case by (auto simp: reads_def)
next
  case (JArr vs)
  show ?case unfolding reads_def
  proof (intro allI impI)
    fix r assume "follows r"
    show "\<exists>f0. \<forall>f\<ge>f0. pval f d (json_encode (JArr vs) @ r) = Some (JArr vs, r)"
    proof (cases "vs = []")
      case True
      have "pval f d (''[]'' @ r) = Some (JArr [], r)" if "1 \<le> f" for f
        using that JArr.prems by (cases f) auto
      then show ?thesis using True by auto
    next
      case False
      then obtain v ws where vs: "vs = v # ws" by (cases vs) auto
      have ok: "reads (d - 1) x \<and> json_ok (d - 1) x" if "x \<in> set vs" for x
        using JArr that by auto
      let ?t = "intersperse (map json_encode vs) @ CHR '']'' # r"
      obtain f0 where f0: "\<And>f. f0 \<le> f \<Longrightarrow> pelems f (d - 1) ?t = Some (vs, r)"
        using pelems_encode [OF False ok] by blast
      obtain c u where c: "?t = c # u" "\<not> is_ws c" "c \<noteq> CHR '']''"
        using encode_start [of "d - 1" v] ok vs by (cases ws) auto
      have "pval f d (CHR ''['' # ?t) = Some (JArr vs, r)" if "Suc f0 \<le> f" for f
        using f0 [of "f - 1"] that JArr.prems c by (cases f) (auto simp: skip_ws_start)
      then show ?thesis by auto
    qed
  qed
next
  case (JObj kvs)
  show ?case unfolding reads_def json_encode_obj
  proof (intro allI impI)
    fix r assume "follows r"
    show "\<exists>f0. \<forall>f\<ge>f0. pval f d ((''{'' @ intersperse (map member_text kvs) @ ''}'') @ r)
        = Some (JObj kvs, r)"
    proof (cases "kvs = []")
      case True
      have "pval f d (''{}'' @ r) = Some (JObj [], r)" if "1 \<le> f" for f
        using that JObj.prems by (cases f) auto
      then show ?thesis using True by auto
    next
      case False
      have ok: "is_ascii (fst x) \<and> reads (d - 1) (snd x) \<and> json_ok (d - 1) (snd x)"
        if "x \<in> set kvs" for x
        using JObj that by (cases x) fastforce
      let ?t = "intersperse (map member_text kvs) @ CHR ''}'' # r"
      obtain f0 where f0: "\<And>f. f0 \<le> f \<Longrightarrow> pmembers f (d - 1) ?t = Some (kvs, r)"
        using pmembers_encode [OF False ok] by blast
      obtain u where c: "?t = CHR 0x22 # u" using encode_intersperse_start [OF False] by auto
      have "pval f d (CHR ''{'' # ?t) = Some (JObj kvs, r)" if "Suc f0 \<le> f" for f
        using f0 [of "f - 1"] that JObj.prems c
        by (cases f) (auto simp: skip_ws_start is_ws_def simp del: pmembers.simps)
      then show ?thesis by auto
    qed
  qed
next
  case JNull
  have "pval f d (''null'' @ r) = Some (JNull, r)" if "1 \<le> f" for f r
    using that by (cases f) auto
  then show ?case by (auto simp: reads_def)
next
  case (JBool b)
  have "pval f d (json_encode (JBool b) @ r) = Some (JBool b, r)" if "1 \<le> f" for f r
    using that by (cases f) auto
  then show ?case unfolding reads_def by blast
qed

lemma json_first_encode:
  assumes "json_ok 10000 j" "follows r"
  shows "json_first (json_encode j @ r) = Some (j, r)"
proof -
  let ?s = "json_encode j @ r"
  obtain f0 where f0: "\<And>f. f0 \<le> f \<Longrightarrow> pval f 10000 ?s = Some (j, r)"
    using readsD [OF pval_encode [OF assms(1)] assms(2)] by blast
  have "pval (max f0 (parse_fuel ?s)) 10000 ?s = pval (parse_fuel ?s) 10000 ?s"
    by (rule pval_stable) (simp_all add: parse_fuel_def)
  then show ?thesis using f0 by (simp add: json_first_def skip_ws_encode [OF assms(1)])
qed

lemma json_parse_encode: "json_ok 10000 j \<Longrightarrow> json_parse (json_encode j) = Some j"
  using json_first_encode [of j "[]"] by (simp add: json_parse_def skip_ws_def)

text \<open>What \<^verbatim>\<open>json.Encoder\<close> writes ends in a newline, which the readers skip.\<close>

lemma json_first_line: "json_ok 10000 j \<Longrightarrow> json_first (json_encode j @ [CHR 0x0A]) = Some (j, [CHR 0x0A])"
  by (rule json_first_encode) (simp_all add: follows_def)

lemma skip_newline [simp]: "skip_ws [CHR 0x0A] = []"
  by (simp add: skip_ws_def is_ws_def)

lemma json_parse_line: "json_ok 10000 j \<Longrightarrow> json_parse (json_encode j @ [CHR 0x0A]) = Some j"
  by (simp add: json_parse_def json_first_line)

lemma json_ok_mono_sort [simp]:
  "json_ok d (json_map kvs) = json_ok d (JObj kvs)"
  by (simp add: json_map_def)

text \<open>Decimal integers are JSON numbers.\<close>

lemma takeWhile_digits: "follows r \<Longrightarrow> list_all is_digit ds \<Longrightarrow>
  takeWhile jdigit (ds @ r) = ds \<and> dropWhile jdigit (ds @ r) = r"
proof -
  assume r: "follows r" and ds: "list_all is_digit ds"
  have "r = [] \<or> \<not> jdigit (hd r)" using r by (auto simp: follows_def jdigit_def is_digit_def)
  then have "takeWhile jdigit r = [] \<and> dropWhile jdigit r = r" by (cases r) auto
  then show ?thesis using ds by (induction ds) (auto simp: jdigit_def)
qed

lemma byte_of_48: "byte_of 48 = CHR ''0''"
  by (rule byte_of_eq) simp

lemma digits_hd_zero: "hd (digits n) = CHR ''0'' \<Longrightarrow> digits n = ''0''"
proof (induction n rule: digits.induct)
  case (1 n)
  show ?case
  proof (cases "n < 10")
    case True
    then show ?thesis using 1(2) by (auto simp: digits.simps [of n])
  next
    case False
    then have "digits (n div 10) = ''0''" using 1 by (simp add: digits.simps [of n])
    then have "digits (n div 10) = digits 0" by (simp add: digits.simps [of 0] byte_of_48)
    then show ?thesis using False by (simp add: digits_inject)
  qed
qed

lemma num_ok_digits: "num_ok (digits n)"
proof -
  obtain c ds where d: "digits n = c # ds" by (cases "digits n") auto
  have all: "is_digit c" "list_all is_digit ds" using digits_all [of n] d by auto
  have z: "c = CHR ''0'' \<Longrightarrow> ds = []" using digits_hd_zero [of n] d by simp
  have np: "c \<noteq> CHR ''-''" "c \<noteq> CHR ''t''" "c \<noteq> CHR ''f''" "c \<noteq> CHR ''n''"
    using all(1) by (auto simp: is_digit_def)
  have "pnum (digits n @ r) = Some (digits n, r)" if r: "follows r" for r
  proof -
    have f: "pfrac r = Some ([], r)" "pexp r = Some ([], r)"
      using r by (auto simp: follows_def pfrac_def pexp_def split: list.splits)
    have "pint (c # ds @ r) = Some (c # ds, r)"
      using takeWhile_digits [OF r all(2)] z all by (auto simp: pint_def jdigit_def)
    then show ?thesis using np f d by (simp add: pnum_def)
  qed
  then show ?thesis using np d by (auto simp: num_ok_def)
qed

lemma json_ok_digits [simp]: "json_ok d (JNum (digits n))"
  using num_ok_digits [of n] hd_digits [of n] by (simp add: num_start_def)

lemma json_ok_itoa [simp]: "0 \<le> i \<Longrightarrow> json_ok d (JNum (itoa i))"
  by (simp add: itoa_def del: json_ok.simps)

lemma is_ascii_append [simp]: "is_ascii (a @ b) \<longleftrightarrow> is_ascii a \<and> is_ascii b"
  by (simp add: is_ascii_def)

lemma is_ascii_hex: "list_all is_lower_hex_char s \<Longrightarrow> is_ascii s"
  by (induction s) (auto simp: is_ascii_def is_lower_hex_char_def Let_def)

lemma is_ascii_hex_encode [simp]: "is_ascii (hex_encode b)"
  by (rule is_ascii_hex) (rule hex_encode_lower)

lemma b64char_ascii: "n < 64 \<Longrightarrow> byte_val (b64char n) < 128"
  by (auto simp: b64char_def)

lemma is_ascii_b64_encode [simp]: "is_ascii (b64_encode b)"
proof (induction b rule: b64_encode.induct)
qed (simp_all add: is_ascii_def b64char_ascii)

lemma is_ascii_digits: "is_ascii (digits n)"
  using digits_all [of n] by (auto simp: is_ascii_def is_digit_def list_all_iff)

section \<open>Field names\<close>

text \<open>Lower-case names with underscores, the only ones the program declares, fold injectively.\<close>

definition plain_char :: "char \<Rightarrow> bool" where
  "plain_char c = (in_range 97 122 c \<or> byte_val c = 95)"

definition plain_name :: "string \<Rightarrow> bool" where
  "plain_name s = list_all plain_char s"

lemma plain_name_simps [simp]:
  "plain_name []" "plain_name (c # s) \<longleftrightarrow> (97 \<le> byte_val c \<and> byte_val c \<le> 122 \<or> byte_val c = 95) \<and> plain_name s"
  by (simp_all add: plain_name_def plain_char_def in_range_def)

definition upper_num :: "char \<Rightarrow> nat" where
  "upper_num c = (if byte_val c = 95 then 95 else byte_val c - 32)"

lemma fold_name_plain: "plain_name s \<Longrightarrow> fold_name s = map (\<lambda>c. byte_of (upper_num c)) s"
  by (induction s) (auto simp: plain_name_def plain_char_def in_range_def upper_num_def byte_of_eq)

lemma upper_num_inject:
  assumes "plain_char c" "plain_char d" "byte_of (upper_num c) = byte_of (upper_num d)"
  shows "c = d"
proof -
  have "upper_num c < 256" "upper_num d < 256"
    by (auto simp: upper_num_def intro: le_less_trans [OF diff_le_self])
  then have "upper_num c = upper_num d" using assms(3) by (simp add: byte_of_inject)
  then have "byte_val c = byte_val d"
    using assms(1,2) unfolding upper_num_def plain_char_def in_range_def by presburger
  then show ?thesis by (simp only: byte_val_inject)
qed

lemma fold_name_eq [simp]:
  assumes "plain_name a" "plain_name b"
  shows "fold_name a = fold_name b \<longleftrightarrow> a = b"
proof
  assume "fold_name a = fold_name b"
  then have "map (\<lambda>c. byte_of (upper_num c)) a = map (\<lambda>c. byte_of (upper_num c)) b"
    using assms by (simp add: fold_name_plain)
  then show "a = b" using assms
  proof (induction a arbitrary: b)
    case (Cons c a)
    then obtain d b' where b: "b = d # b'" by (cases b) auto
    with Cons show ?case using upper_num_inject [of c d] by (auto simp: plain_name_def)
  qed simp
qed simp

declare fold_name.simps [simp del]

end
