(* ===== verification/Envelope.thy ===== *)
theory Envelope
  imports AAD Go_JSON
begin

text \<open>
  \<^verbatim>\<open>internal/envelope/envelope.go\<close>: detection of the three wire formats, sealing and opening of
  v2 envelopes (a payload under a fresh data key, the data key wrapped under the user's
  key), and the two legacy formats. gzip is a parameter: the compressor, and the
  decompressor as the bytes it yields together with whether it then fails.
\<close>

section \<open>Data\<close>

datatype version = VersionUnknown | VersionV0 | VersionV1 | VersionV2

record v2_envelope =
  v2_V :: int
  v2_Alg :: string
  v2_KID :: string
  v2_WDEK :: string
  v2_WIV :: string
  v2_IV :: string
  v2_CT :: string

record key =
  key_Bytes :: bytes
  key_KeyIDHex :: string

record decrypt_result =
  dr_Plaintext :: bytes
  dr_KeyIDHex :: string
  dr_Version :: version
  dr_NeedsRewrap :: bool

text \<open>
  The decryption functions return a result next to their error; \<open>Inl\<close> carries both, because
  the caller reads the key id of a failed \<^verbatim>\<open>DecryptV2\<close>.
\<close>

type_synonym decrypted = "(go_error \<times> decrypt_result) + decrypt_result"

definition zero_result :: decrypt_result where
  "zero_result = \<lparr> dr_Plaintext = [], dr_KeyIDHex = [], dr_Version = VersionUnknown,
                   dr_NeedsRewrap = False \<rparr>"

definition dfail :: "go_error \<Rightarrow> decrypted" where
  "dfail e = Inl (e, zero_result)"

definition dbind :: "'a result \<Rightarrow> ('a \<Rightarrow> decrypted) \<Rightarrow> decrypted" where
  "dbind m f = (case m of Inl e \<Rightarrow> dfail e | Inr x \<Rightarrow> f x)"

text \<open>A standard-library failure reported under one of the package's sentinels.\<close>

definition malformed :: "sentinel \<Rightarrow> string \<Rightarrow> 'a option \<Rightarrow> 'a result" where
  "malformed s lib x = of_option (wrap_sentinel s (ELib lib)) x"

record gzip_lib =
  gz_compress :: "bytes \<Rightarrow> bytes"
  gz_stream :: "bytes \<Rightarrow> (bytes \<times> bool) option"

text \<open>What the code relies on: decompressing what was compressed gives it back without error.\<close>

definition gzip_ok :: "gzip_lib \<Rightarrow> bool" where
  "gzip_ok gz = (\<forall>x. gz_stream gz (gz_compress gz x) = Some (x, False))"

definition MaxPlaintextBytes :: nat where
  "MaxPlaintextBytes = 32 * 1024 * 1024"

section \<open>Format detection\<close>

definition looksLikeV2 :: "bytes \<Rightarrow> bool" where
  "looksLikeV2 blob =
     (case Option.bind (json_parse blob) struct_members of
        None \<Rightarrow> False
      | Some m \<Rightarrow> (case dec_int 0 (field_values ''v'' m) of None \<Rightarrow> False | Some v \<Rightarrow> v = 2))"

definition looksLikeV0 :: "bytes \<Rightarrow> bool" where
  "looksLikeV0 blob =
     (case Option.bind (json_parse blob) struct_members of
        None \<Rightarrow> False
      | Some m \<Rightarrow>
          (case (dec_ptr_int None (field_values ''v'' m), dec_ptr_string None (field_values ''iv'' m),
                 dec_ptr_string None (field_values ''data'' m)) of
             (Some v, Some iv, Some data) \<Rightarrow>
               if v \<noteq> None then False else iv \<noteq> None \<and> data \<noteq> None
           | _ \<Rightarrow> False))"

definition Detect :: "bytes \<Rightarrow> version" where
  "Detect blob =
     (if length blob = 0 then VersionUnknown
      else if looksLikeV2 blob then VersionV2
      else if looksLikeV0 blob then VersionV0
      else if length blob \<ge> NonceSize + TagSize then VersionV1
      else VersionUnknown)"

section \<open>Helpers\<close>

definition gzipBytes :: "gzip_lib \<Rightarrow> bytes \<Rightarrow> bytes result" where
  "gzipBytes gz plaintext = Inr (gz_compress gz plaintext)"

text \<open>
  The limited reader stops one byte past the cap, so a stream that yields more than the cap is
  refused for its length before any later error of it is seen.
\<close>

definition gunzip :: "gzip_lib \<Rightarrow> bytes \<Rightarrow> bytes result" where
  "gunzip gz compressed =
     (case gz_stream gz compressed of
        None \<Rightarrow> Inl (ELib ''compress/gzip'')
      | Some (out, bad) \<Rightarrow>
          if length out > MaxPlaintextBytes
          then Inl (ENew ''envelope: decompressed plaintext exceeds limit'')
          else if bad then Inl (ELib ''compress/gzip'')
          else Inr out)"

definition std_b64_char :: "char \<Rightarrow> bool" where
  "std_b64_char c =
     (let n = byte_val c in
      (65 \<le> n \<and> n \<le> 90) \<or> (97 \<le> n \<and> n \<le> 122) \<or> (48 \<le> n \<and> n \<le> 57)
      \<or> c = CHR ''+'' \<or> c = CHR ''/'')"

definition isCanonicalStdBase64 :: "string \<Rightarrow> bool" where
  "isCanonicalStdBase64 s =
     (if length s = 0 \<or> length s mod 4 \<noteq> 0 then False
      else let e = length s;
               pad = (if s ! (e - 1) = CHR ''='' then (if s ! (e - 2) = CHR ''='' then 2 else 1)
                      else 0)
           in list_all std_b64_char (take (e - pad) s))"

definition try_decode :: "(string \<Rightarrow> bytes option) \<Rightarrow> nat \<Rightarrow> string \<Rightarrow> bytes option" where
  "try_decode f want s =
     (case f s of Some b \<Rightarrow> if length b = want then Some b else None | None \<Rightarrow> None)"

definition decodeBase64OrHex :: "string \<Rightarrow> nat \<Rightarrow> bytes result" where
  "decodeBase64OrHex s want =
     (case try_decode std_decode want s of
        Some b \<Rightarrow> Inr b
      | None \<Rightarrow>
          (case try_decode raw_std_decode want s of
             Some b \<Rightarrow> Inr b
           | None \<Rightarrow>
               (case try_decode raw_url_decode want s of
                  Some b \<Rightarrow> Inr b
                | None \<Rightarrow>
                    (case try_decode hex_decode want s of
                       Some b \<Rightarrow> Inr b
                     | None \<Rightarrow> Inl (ENew ''envelope: iv has wrong length or encoding'')))))"

section \<open>Sealing\<close>

definition v2_json :: "v2_envelope \<Rightarrow> json" where
  "v2_json e =
     JObj [(''v'', JNum (itoa (v2_V e))), (''alg'', JStr (v2_Alg e)), (''kid'', JStr (v2_KID e)),
           (''wdek'', JStr (v2_WDEK e)), (''wiv'', JStr (v2_WIV e)), (''iv'', JStr (v2_IV e)),
           (''ct'', JStr (v2_CT e))]"

definition Encrypt ::
  "gzip_lib \<Rightarrow> bytes \<Rightarrow> bytes \<Rightarrow> aad \<Rightarrow> entropy \<Rightarrow> (bytes \<times> entropy) result" where
  "Encrypt gz key plaintext a ent =
     (if length key \<noteq> KeySize then Inl (ESent ErrKeySize)
      else rbind (CanonicalPayloadAAD a) (\<lambda>payloadAAD.
           rbind (CanonicalDEKWrapAAD a) (\<lambda>wrapAAD.
           if length plaintext > MaxPlaintextBytes then Inl (ESent ErrPlaintextTooLarge)
           else rbind (gzipBytes gz plaintext) (\<lambda>compressed.
                rbind (RandomKey ent) (\<lambda>(dek, ent1).
                rbind (Seal dek compressed payloadAAD ent1) (\<lambda>((payloadIV, payloadCT), ent2).
                rbind (Seal key dek wrapAAD ent2) (\<lambda>((wrapIV, wrappedDEK), ent3).
                  Inr (json_encode (v2_json
                         \<lparr> v2_V = 2, v2_Alg = AlgAESGCM, v2_KID = aad_KeyIDHex a,
                           v2_WDEK = b64_encode wrappedDEK, v2_WIV = hex_encode wrapIV,
                           v2_IV = hex_encode payloadIV, v2_CT = b64_encode payloadCT \<rparr>),
                       ent3))))))))"

section \<open>Opening\<close>

definition parse_v2 :: "bytes \<Rightarrow> v2_envelope option" where
  "parse_v2 blob =
     (case Option.bind (json_parse blob) struct_members of
        None \<Rightarrow> None
      | Some m \<Rightarrow>
          (case (dec_int 0 (field_values ''v'' m), dec_string [] (field_values ''alg'' m),
                 dec_string [] (field_values ''kid'' m), dec_string [] (field_values ''wdek'' m),
                 dec_string [] (field_values ''wiv'' m), dec_string [] (field_values ''iv'' m),
                 dec_string [] (field_values ''ct'' m)) of
             (Some v, Some alg, Some kid, Some wdek, Some wiv, Some iv, Some ct) \<Rightarrow>
               Some \<lparr> v2_V = v, v2_Alg = alg, v2_KID = kid, v2_WDEK = wdek, v2_WIV = wiv,
                      v2_IV = iv, v2_CT = ct \<rparr>
           | _ \<Rightarrow> None))"

definition find_key :: "key list \<Rightarrow> string \<Rightarrow> key option" where
  "find_key keys kid = find (\<lambda>k. key_KeyIDHex k = kid) keys"

text \<open>The second half of \<^verbatim>\<open>DecryptV2\<close>: unwrap the data key, then open the payload.\<close>

definition open_v2 ::
  "gzip_lib \<Rightarrow> key \<Rightarrow> string \<Rightarrow> bytes \<Rightarrow> bytes \<Rightarrow> bytes \<Rightarrow> bytes \<Rightarrow> aad \<Rightarrow> decrypted" where
  "open_v2 gz k kid iv wrapIV ct wrappedDEK a =
     dbind (CanonicalDEKWrapAAD \<lparr> aad_KeyIDHex = kid, aad_Scope = aad_Scope a, aad_ID = aad_ID a,
                                  aad_ClerkUserID = aad_ClerkUserID a \<rparr>) (\<lambda>wrapAAD.
     dbind (Open (key_Bytes k) wrapIV wrappedDEK wrapAAD) (\<lambda>dek.
     if length dek \<noteq> KeySize then dfail (ESent ErrV2Malformed)
     else dbind (CanonicalPayloadAAD a) (\<lambda>payloadAAD.
          dbind (Open dek iv ct payloadAAD) (\<lambda>compressed.
          case gunzip gz compressed of
            Inl e \<Rightarrow> dfail (wrap_sentinel ErrV2Malformed e)
          | Inr pt \<Rightarrow> Inr \<lparr> dr_Plaintext = pt, dr_KeyIDHex = kid, dr_Version = VersionV2,
                            dr_NeedsRewrap = False \<rparr>))))"

definition DecryptV2 :: "gzip_lib \<Rightarrow> bytes \<Rightarrow> key list \<Rightarrow> aad \<Rightarrow> decrypted" where
  "DecryptV2 gz blob keys a =
     dbind (malformed ErrV2Malformed ''encoding/json'' (parse_v2 blob)) (\<lambda>env.
     if v2_V env \<noteq> 2 then dfail (ESent ErrV2Malformed)
     else if v2_Alg env \<noteq> AlgAESGCM then dfail (ESent ErrUnsupportedAlg)
     else if length (v2_KID env) \<noteq> 32 \<or> \<not> isLowerHex (v2_KID env) then dfail (ESent ErrV2Malformed)
     else if length (v2_IV env) \<noteq> NonceSize * 2 \<or> length (v2_WIV env) \<noteq> NonceSize * 2
     then dfail (ESent ErrV2Malformed)
     else dbind (malformed ErrV2Malformed ''encoding/hex'' (hex_decode (v2_IV env))) (\<lambda>iv.
          dbind (malformed ErrV2Malformed ''encoding/hex'' (hex_decode (v2_WIV env))) (\<lambda>wrapIV.
          if \<not> isCanonicalStdBase64 (v2_CT env) \<or> \<not> isCanonicalStdBase64 (v2_WDEK env)
          then dfail (ESent ErrV2Malformed)
          else dbind (malformed ErrV2Malformed ''encoding/base64'' (std_strict_decode (v2_CT env)))
                 (\<lambda>ct.
               dbind (malformed ErrV2Malformed ''encoding/base64''
                       (std_strict_decode (v2_WDEK env))) (\<lambda>wrappedDEK.
               case find_key keys (v2_KID env) of
                 None \<Rightarrow> Inl (ESent ErrNoMatchingKey, zero_result\<lparr>dr_KeyIDHex := v2_KID env\<rparr>)
               | Some k \<Rightarrow> open_v2 gz k (v2_KID env) iv wrapIV ct wrappedDEK a)))))"

section \<open>Legacy formats\<close>

fun try_v0 :: "bytes \<Rightarrow> bytes \<Rightarrow> key list \<Rightarrow> decrypted" where
  "try_v0 iv ct [] = dfail (ESent ErrLegacyDecrypt)"
| "try_v0 iv ct (k # ks) =
     (if length (key_Bytes k) \<noteq> KeySize then try_v0 iv ct ks
      else case Open (key_Bytes k) iv ct [] of
             Inr pt \<Rightarrow> Inr \<lparr> dr_Plaintext = pt, dr_KeyIDHex = key_KeyIDHex k,
                             dr_Version = VersionV0, dr_NeedsRewrap = True \<rparr>
           | Inl _ \<Rightarrow> try_v0 iv ct ks)"

definition v0_fields :: "bytes \<Rightarrow> (string \<times> string) option" where
  "v0_fields blob =
     (case Option.bind (json_parse blob) struct_members of
        None \<Rightarrow> None
      | Some m \<Rightarrow>
          (case (dec_string [] (field_values ''iv'' m), dec_string [] (field_values ''data'' m)) of
             (Some iv, Some data) \<Rightarrow> Some (iv, data)
           | _ \<Rightarrow> None))"

definition v0_ciphertext :: "string \<Rightarrow> bytes option" where
  "v0_ciphertext rawData =
     (case std_decode rawData of Some ct \<Rightarrow> Some ct | None \<Rightarrow> raw_url_decode rawData)"

definition decryptV0 :: "bytes \<Rightarrow> key list \<Rightarrow> decrypted" where
  "decryptV0 blob keys =
     dbind (malformed ErrV0Malformed ''encoding/json'' (v0_fields blob)) (\<lambda>(rawIV, rawData).
     if rawIV = [] \<or> rawData = [] then dfail (ESent ErrV0Malformed)
     else case decodeBase64OrHex rawIV NonceSize of
            Inl e \<Rightarrow> dfail (wrap_sentinel ErrV0Malformed e)
          | Inr iv \<Rightarrow>
              dbind (malformed ErrV0Malformed ''encoding/base64'' (v0_ciphertext rawData))
                (\<lambda>ct. try_v0 iv ct keys))"

fun try_v1 :: "gzip_lib \<Rightarrow> bytes \<Rightarrow> bytes \<Rightarrow> key list \<Rightarrow> decrypted" where
  "try_v1 gz iv ct [] = dfail (ESent ErrLegacyDecrypt)"
| "try_v1 gz iv ct (k # ks) =
     (if length (key_Bytes k) \<noteq> KeySize then try_v1 gz iv ct ks
      else case Open (key_Bytes k) iv ct [] of
             Inl _ \<Rightarrow> try_v1 gz iv ct ks
           | Inr compressed \<Rightarrow>
               (case gunzip gz compressed of
                  Inl e \<Rightarrow> dfail (wrap_sentinel ErrV1Malformed e)
                | Inr pt \<Rightarrow> Inr \<lparr> dr_Plaintext = pt, dr_KeyIDHex = key_KeyIDHex k,
                                  dr_Version = VersionV1, dr_NeedsRewrap = True \<rparr>))"

definition decryptV1 :: "gzip_lib \<Rightarrow> bytes \<Rightarrow> key list \<Rightarrow> decrypted" where
  "decryptV1 gz blob keys =
     (if length blob < NonceSize + TagSize then dfail (ESent ErrV1Malformed)
      else try_v1 gz (take NonceSize blob) (drop NonceSize blob) keys)"

definition DecryptLegacy :: "gzip_lib \<Rightarrow> bytes \<Rightarrow> key list \<Rightarrow> decrypted" where
  "DecryptLegacy gz blob keys =
     (case Detect blob of
        VersionV0 \<Rightarrow> decryptV0 blob keys
      | VersionV1 \<Rightarrow> decryptV1 gz blob keys
      | _ \<Rightarrow> dfail (ESent ErrUnknownFormat))"

section \<open>Inversion of the decryption chain\<close>

lemma dbind_Inr [simp]: "dbind (Inr x) f = f x" and dbind_Inl [simp]: "dbind (Inl e) f = dfail e"
  by (simp_all add: dbind_def)

lemma dbind_eq_Inr [result_simps]: "dbind m f = Inr y \<longleftrightarrow> (\<exists>x. m = Inr x \<and> f x = Inr y)"
  by (cases m) (auto simp: dfail_def)

lemma dfail_not_Inr [simp, result_simps]: "dfail e \<noteq> Inr y" "Inr y \<noteq> dfail e"
  by (simp_all add: dfail_def)

lemma if_dfail_eq_Inr [result_simps]: "(if b then dfail e else m) = Inr y \<longleftrightarrow> \<not> b \<and> m = Inr y"
  by simp

lemma case_dfail_eq_Inr [result_simps]:
  "(case m of Inl e \<Rightarrow> dfail (h e) | Inr x \<Rightarrow> f x) = Inr y \<longleftrightarrow> (\<exists>x. m = Inr x \<and> f x = Inr y)"
  by (cases m) auto

lemma case_key_eq_Inr [result_simps]:
  "(case m of None \<Rightarrow> Inl e | Some x \<Rightarrow> f x) = Inr y \<longleftrightarrow> (\<exists>x. m = Some x \<and> f x = Inr y)"
  by (cases m) auto

lemma malformed_eq_Inr [result_simps]: "malformed s l x = Inr y \<longleftrightarrow> x = Some y"
  by (simp add: malformed_def result_simps)

lemma malformed_Some [simp]: "malformed s l (Some y) = Inr y"
  by (simp add: malformed_def)

section \<open>Canonical base64\<close>

lemma std_b64_char_iff: "std_b64_char c \<longleftrightarrow> is_std_b64_char c"
proof -
  have "(c = CHR ''+'') = (byte_val c = 43)" "(c = CHR ''/'') = (byte_val c = 47)"
    using byte_val_inject [of c "CHR ''+''"] byte_val_inject [of c "CHR ''/''"] by simp_all
  then show ?thesis
    by (auto simp: std_b64_char_def is_std_b64_char_def b64val_def Let_def split: if_splits)
qed

lemma std_b64_not_pad: "std_b64_char c \<Longrightarrow> c \<noteq> CHR ''='' \<and> c \<noteq> CHR 0x0A \<and> c \<noteq> CHR 0x0D"
  by (auto simp: std_b64_char_def)

lemma isCanonical_no_newline:
  assumes "isCanonicalStdBase64 s"
  shows "filter (\<lambda>c. c \<noteq> CHR 0x0A \<and> c \<noteq> CHR 0x0D) s = s"
proof -
  let ?e = "length s"
  from assms have e: "?e \<noteq> 0" "?e mod 4 = 0"
    by (auto simp: isCanonicalStdBase64_def split: if_splits)
  then have "4 \<le> ?e" by presburger
  then have "length (drop (?e - 2) s) = 2" by simp
  then obtain x y where "drop (?e - 2) s = [x, y]"
    by (rule length_2E)
  then obtain u where s: "s = u @ [x, y]" by (metis append_take_drop_id)
  have "list_all std_b64_char u" "x = CHR ''='' \<or> std_b64_char x" "y = CHR ''='' \<or> std_b64_char y"
    using assms e by (auto simp: isCanonicalStdBase64_def s Let_def nth_append split: if_splits)
  then show ?thesis
    by (auto simp: s filter_id_conv list_all_iff dest: std_b64_not_pad)
qed

lemma canonical_b64_unique:
  assumes "isCanonicalStdBase64 s" "std_strict_decode s = Some b"
  shows "s = b64_encode b"
  using assms isCanonical_no_newline
  by (auto simp: std_strict_decode_def b64_decode_def dest: b64_body_strict)

lemma b64_encode_shape:
  "x \<noteq> [] \<Longrightarrow> \<exists>u p. b64_encode x = u @ replicate p (CHR ''='') \<and> p \<le> 2 \<and> u \<noteq> []
     \<and> list_all std_b64_char u"
proof (induction x rule: b64_encode.induct)
  case (4 a b c r)
  show ?case
  proof (cases "r = []")
    case True
    then show ?thesis
      by (intro exI [of _ "b64_encode (a # b # c # r)"] exI [of _ 0]) (simp add: std_b64_char_iff)
  next
    case False
    then obtain u p where u: "b64_encode r = u @ replicate p (CHR ''='')" "p \<le> 2" "u \<noteq> []"
      "list_all std_b64_char u" using 4 by blast
    have "b64_encode (a # b # c # r) = (take 4 (b64_encode (a # b # c # r)) @ u) @ replicate p (CHR ''='')"
      by (simp add: u)
    then show ?thesis using u
      by (intro exI [of _ "take 4 (b64_encode (a # b # c # r)) @ u"] exI [of _ p])
        (simp, simp add: list.pred_set std_b64_char_iff)
  qed
next
  case (2 a)
  show ?case
    by (intro exI [of _ "take 2 (b64_encode [a])"] exI [of _ 2])
      (simp add: std_b64_char_iff numeral_2_eq_2)
next
  case (3 a b)
  show ?case
    by (intro exI [of _ "take 3 (b64_encode [a, b])"] exI [of _ 1])
      (simp add: std_b64_char_iff)
qed simp

lemma isCanonical_b64_encode [simp]:
  assumes "x \<noteq> []"
  shows "isCanonicalStdBase64 (b64_encode x)"
proof -
  obtain v c p where s: "b64_encode x = v @ c # replicate p (CHR ''='')" and p: "p \<le> 2"
    and ok: "list_all std_b64_char v" "std_b64_char c"
  proof -
    obtain u p where u: "b64_encode x = u @ replicate p (CHR ''='')" "p \<le> 2" "u \<noteq> []"
      "list_all std_b64_char u" using b64_encode_shape [OF assms] by blast
    then show thesis using that [of "butlast u" "last u" p]
      by (cases u rule: rev_cases) auto
  qed
  have "length (b64_encode x) mod 4 = 0" by (simp add: b64_encode_length)
  moreover have "c \<noteq> CHR ''=''" using ok std_b64_not_pad by blast
  moreover from p have "p = 0 \<or> p = 1 \<or> p = 2" by auto
  ultimately show ?thesis using ok
    by (auto simp: isCanonicalStdBase64_def s Let_def nth_append numeral_2_eq_2)
qed

section \<open>What sealing produces and what opening accepts\<close>

lemma Encrypt_Inr:
  "Encrypt gz key pt a ent = Inr (blob, ent') \<longleftrightarrow>
     length key = 32 \<and> length pt \<le> MaxPlaintextBytes \<and>
     (\<exists>p w dek ent1 iv ent2 wiv.
        CanonicalPayloadAAD a = Inr p \<and> CanonicalDEKWrapAAD a = Inr w
        \<and> rand_read 32 ent = Some (dek, ent1) \<and> rand_read 12 ent1 = Some (iv, ent2)
        \<and> rand_read 12 ent2 = Some (wiv, ent')
        \<and> blob = json_encode (v2_json
             \<lparr> v2_V = 2, v2_Alg = AlgAESGCM, v2_KID = aad_KeyIDHex a,
               v2_WDEK = b64_encode (gcm_seal key wiv dek w), v2_WIV = hex_encode wiv,
               v2_IV = hex_encode iv,
               v2_CT = b64_encode (gcm_seal dek iv (gz_compress gz pt) p) \<rparr>))"
  (is "?L = ?R")
proof
  show "?L \<Longrightarrow> ?R"
    by (auto simp: Encrypt_def result_simps RandomKey_Inr Seal_Inr gzipBytes_def
        split: if_splits dest!: rand_read_Some)
next
  assume ?R
  then show ?L
    by (auto simp: Encrypt_def RandomKey_def Seal_def gzipBytes_def dest: rand_read_Some)
qed

lemma v2_json_ok:
  assumes "isLowerHex (v2_KID e)" "isLowerHex (v2_WIV e)" "isLowerHex (v2_IV e)" "0 \<le> v2_V e"
    "v2_WDEK e = b64_encode w" "v2_CT e = b64_encode c" "v2_Alg e = AlgAESGCM"
  shows "json_ok 10000 (v2_json e)"
  using assms
  by (simp add: v2_json_def isLowerHex_def is_ascii_hex AlgAESGCM_def del: json_ok.simps(3))
    (simp add: is_ascii_def)

lemma parse_v2_json:
  assumes "json_ok 10000 (v2_json e)" "v2_V e = 2"
  shows "parse_v2 (json_encode (v2_json e)) = Some e"
  using json_parse_encode [OF assms(1)] assms(2) parse_int64_itoa [of 2]
  by (simp add: parse_v2_def struct_members_def v2_json_def field_values_def)

lemma parse_v2_looksLikeV2: "parse_v2 blob = Some e \<Longrightarrow> looksLikeV2 blob \<longleftrightarrow> v2_V e = 2"
  by (auto simp: parse_v2_def looksLikeV2_def split: option.splits)

lemma Encrypt_parse:
  assumes "Encrypt gz key pt a ent = Inr (blob, ent')"
  obtains p w dek iv wiv where
    "CanonicalPayloadAAD a = Inr p" "CanonicalDEKWrapAAD a = Inr w" "kid_ok (aad_KeyIDHex a)"
    "length key = 32" "length pt \<le> MaxPlaintextBytes" "length dek = 32" "length iv = 12"
    "length wiv = 12" "ent = dek @ iv @ wiv @ ent'"
    "parse_v2 blob = Some \<lparr> v2_V = 2, v2_Alg = AlgAESGCM, v2_KID = aad_KeyIDHex a,
       v2_WDEK = b64_encode (gcm_seal key wiv dek w), v2_WIV = hex_encode wiv,
       v2_IV = hex_encode iv, v2_CT = b64_encode (gcm_seal dek iv (gz_compress gz pt) p) \<rparr>"
proof -
  from assms obtain p w dek ent1 iv ent2 wiv where
    c: "length key = 32" "length pt \<le> MaxPlaintextBytes"
      "CanonicalPayloadAAD a = Inr p" "CanonicalDEKWrapAAD a = Inr w"
    and r: "rand_read 32 ent = Some (dek, ent1)" "rand_read 12 ent1 = Some (iv, ent2)"
      "rand_read 12 ent2 = Some (wiv, ent')"
    and b: "blob = json_encode (v2_json
       \<lparr> v2_V = 2, v2_Alg = AlgAESGCM, v2_KID = aad_KeyIDHex a,
         v2_WDEK = b64_encode (gcm_seal key wiv dek w), v2_WIV = hex_encode wiv,
         v2_IV = hex_encode iv, v2_CT = b64_encode (gcm_seal dek iv (gz_compress gz pt) p) \<rparr>)"
    by (auto simp: Encrypt_Inr)
  have kid: "kid_ok (aad_KeyIDHex a)" using c by (simp add: CanonicalDEKWrapAAD_Inr)
  have "parse_v2 blob = Some \<lparr> v2_V = 2, v2_Alg = AlgAESGCM, v2_KID = aad_KeyIDHex a,
       v2_WDEK = b64_encode (gcm_seal key wiv dek w), v2_WIV = hex_encode wiv,
       v2_IV = hex_encode iv, v2_CT = b64_encode (gcm_seal dek iv (gz_compress gz pt) p) \<rparr>"
    unfolding b by (rule parse_v2_json, rule v2_json_ok) (use kid in \<open>auto simp: kid_ok_def\<close>)
  then show thesis using that c kid r by (auto dest!: rand_read_Some)
qed

lemma open_v2_Inr:
  "open_v2 gz k kid iv wiv ct wdek a = Inr r \<longleftrightarrow>
     (\<exists>w dek p z. CanonicalDEKWrapAAD (a\<lparr>aad_KeyIDHex := kid\<rparr>) = Inr w
        \<and> Open (key_Bytes k) wiv wdek w = Inr dek \<and> length dek = 32
        \<and> CanonicalPayloadAAD a = Inr p \<and> Open dek iv ct p = Inr z \<and> gunzip gz z = Inr (dr_Plaintext r))
     \<and> dr_KeyIDHex r = kid \<and> dr_Version r = VersionV2 \<and> \<not> dr_NeedsRewrap r"
proof -
  have upd: "\<lparr> aad_KeyIDHex = kid, aad_Scope = aad_Scope a, aad_ID = aad_ID a,
      aad_ClerkUserID = aad_ClerkUserID a \<rparr> = a\<lparr>aad_KeyIDHex := kid\<rparr>" by simp
  show ?thesis unfolding open_v2_def upd result_simps
    by (cases r) auto
qed

lemma DecryptV2_Inr:
  "DecryptV2 gz blob keys a = Inr r \<longleftrightarrow>
     (\<exists>env iv wiv ct wdek k.
        parse_v2 blob = Some env \<and> v2_V env = 2 \<and> v2_Alg env = AlgAESGCM \<and> kid_ok (v2_KID env)
        \<and> length (v2_IV env) = 24 \<and> length (v2_WIV env) = 24
        \<and> hex_decode (v2_IV env) = Some iv \<and> hex_decode (v2_WIV env) = Some wiv
        \<and> isCanonicalStdBase64 (v2_CT env) \<and> isCanonicalStdBase64 (v2_WDEK env)
        \<and> std_strict_decode (v2_CT env) = Some ct \<and> std_strict_decode (v2_WDEK env) = Some wdek
        \<and> find_key keys (v2_KID env) = Some k
        \<and> open_v2 gz k (v2_KID env) iv wiv ct wdek a = Inr r)"
  unfolding DecryptV2_def result_simps kid_ok_def NonceSize_val de_Morgan_disj not_not
  by (intro ex_cong1 conj_cong refl) (simp_all, blast?)

lemma gunzip_gzip:
  "gzip_ok gz \<Longrightarrow> length pt \<le> MaxPlaintextBytes \<Longrightarrow> gunzip gz (gz_compress gz pt) = Inr pt"
  by (simp add: gunzip_def gzip_ok_def)

lemma aad_upd_self: "a\<lparr>aad_KeyIDHex := aad_KeyIDHex a\<rparr> = a"
  by simp

lemma decrypt_result_eqI:
  "dr_Plaintext r = p \<Longrightarrow> dr_KeyIDHex r = k \<Longrightarrow> dr_Version r = v \<Longrightarrow> dr_NeedsRewrap r = b \<Longrightarrow>
   r = \<lparr> dr_Plaintext = p, dr_KeyIDHex = k, dr_Version = v, dr_NeedsRewrap = b \<rparr>"
  by (cases r) simp

lemma gcm_seal_nonempty [simp]: "gcm_seal k n m a \<noteq> []"
  using length_gcm_seal [of k n m a] by (metis add_is_0 list.size(3) zero_neq_numeral)

definition example_gzip :: gzip_lib where
  "example_gzip = \<lparr> gz_compress = (\<lambda>x. x), gz_stream = (\<lambda>x. Some (x, False)) \<rparr>"

lemma example_gzip_ok: "gzip_ok example_gzip"
  by (simp add: gzip_ok_def example_gzip_def)

lemma json_parse_Nil [simp]: "json_parse [] = None"
  using parse_shorter(1) [of _ _ "[]"]
  by (auto simp: json_parse_def json_first_def skip_ws_def split: option.splits)

lemma Encrypt_open:
  assumes "gzip_ok gz" "Encrypt gz key pt a ent = Inr (blob, ent')"
    "find_key keys (aad_KeyIDHex a) = Some k" "key_Bytes k = key"
  shows "Detect blob = VersionV2 \<and>
    DecryptV2 gz blob keys a = Inr \<lparr> dr_Plaintext = pt, dr_KeyIDHex = aad_KeyIDHex a,
       dr_Version = VersionV2, dr_NeedsRewrap = False \<rparr>"
proof -
  obtain p w dek iv wiv where
    f: "CanonicalPayloadAAD a = Inr p" "CanonicalDEKWrapAAD a = Inr w" "kid_ok (aad_KeyIDHex a)"
    "length key = 32" "length pt \<le> MaxPlaintextBytes" "length dek = 32" "length iv = 12"
    "length wiv = 12" and
    env: "parse_v2 blob = Some \<lparr> v2_V = 2, v2_Alg = AlgAESGCM, v2_KID = aad_KeyIDHex a,
       v2_WDEK = b64_encode (gcm_seal key wiv dek w), v2_WIV = hex_encode wiv,
       v2_IV = hex_encode iv, v2_CT = b64_encode (gcm_seal dek iv (gz_compress gz pt) p) \<rparr>"
    using Encrypt_parse [OF assms(2)] by metis
  have "blob \<noteq> []" using env by (auto simp: parse_v2_def)
  then have d: "Detect blob = VersionV2" using parse_v2_looksLikeV2 [OF env] by (simp add: Detect_def)
  have o: "open_v2 gz k (aad_KeyIDHex a) iv wiv (gcm_seal dek iv (gz_compress gz pt) p)
      (gcm_seal key wiv dek w) a = Inr \<lparr> dr_Plaintext = pt, dr_KeyIDHex = aad_KeyIDHex a,
       dr_Version = VersionV2, dr_NeedsRewrap = False \<rparr>"
    using f assms(4) gunzip_gzip [OF assms(1) f(5)]
    unfolding open_v2_Inr Open_Inr by fastforce
  have "DecryptV2 gz blob keys a = Inr \<lparr> dr_Plaintext = pt, dr_KeyIDHex = aad_KeyIDHex a,
       dr_Version = VersionV2, dr_NeedsRewrap = False \<rparr>"
    using env f assms(3) o by (auto simp: DecryptV2_Inr)
  with d show ?thesis by simp
qed

lemma Encrypt_total:
  assumes "length key = 32" "length pt \<le> MaxPlaintextBytes" "aad_ok a" "kid_ok (aad_KeyIDHex a)"
    "56 \<le> length ent"
  shows "\<exists>blob. Encrypt gz key pt a ent = Inr (blob, drop 56 ent)"
proof -
  obtain p w where "CanonicalPayloadAAD a = Inr p" "CanonicalDEKWrapAAD a = Inr w"
    using CanonicalPayloadAAD_total CanonicalDEKWrapAAD_total assms by blast
  moreover have "\<not> length ent - 32 < 12" "\<not> length ent - 44 < 12" using assms by auto
  ultimately show ?thesis using assms by (simp add: Encrypt_Inr rand_read_def)
qed

text \<open>
  C2. What Encrypt seals, the reader gets back. For a 32-byte key, a plaintext of at most 32 MiB, a
  valid row binding and 56 bytes of randomness sealing succeeds; the blob is detected as a v2
  envelope, and DecryptV2 with the same row binding and any key list whose first key of that
  key id is the sealing key returns exactly the plaintext, that key id, version 2 and no need
  to rewrap, whatever the random data key and nonces were.
\<close>

theorem Encrypt_DecryptV2_roundtrip:
  assumes "gzip_ok gz" "length key = 32" "length pt \<le> MaxPlaintextBytes" "aad_ok a"
    "kid_ok (aad_KeyIDHex a)" "56 \<le> length ent"
    "find_key keys (aad_KeyIDHex a) = Some k" "key_Bytes k = key"
  shows "\<exists>blob. Encrypt gz key pt a ent = Inr (blob, drop 56 ent) \<and> Detect blob = VersionV2 \<and>
    DecryptV2 gz blob keys a = Inr \<lparr> dr_Plaintext = pt, dr_KeyIDHex = aad_KeyIDHex a,
       dr_Version = VersionV2, dr_NeedsRewrap = False \<rparr>"
  using Encrypt_total [OF assms(2-6)] Encrypt_open [OF assms(1) _ assms(7,8)] by blast

definition example_entropy :: entropy where
  "example_entropy = replicate 56 (CHR ''r'')"

definition example_keys :: "key list" where
  "example_keys = [\<lparr> key_Bytes = example_key, key_KeyIDHex = aad_KeyIDHex example_aad \<rparr>]"

lemma example_find_key:
  "find_key example_keys (aad_KeyIDHex example_aad)
     = Some \<lparr> key_Bytes = example_key, key_KeyIDHex = aad_KeyIDHex example_aad \<rparr>"
  by (simp add: find_key_def example_keys_def)

lemma example_sealed:
  obtains blob ent' r where
    "Encrypt example_gzip example_key ''hello'' example_aad example_entropy = Inr (blob, ent')"
    "DecryptV2 example_gzip blob example_keys example_aad = Inr r"
proof -
  have "length ''hello'' \<le> MaxPlaintextBytes" by (simp add: MaxPlaintextBytes_def)
  moreover have "56 \<le> length example_entropy" by (simp add: example_entropy_def)
  ultimately obtain blob ent' where
    e: "Encrypt example_gzip example_key ''hello'' example_aad example_entropy = Inr (blob, ent')"
    using Encrypt_total [OF length_example_key _ example_aad_ok example_kid_ok] by blast
  then show thesis using that Encrypt_open [OF example_gzip_ok e example_find_key] by simp
qed

theorem Encrypt_DecryptV2_roundtrip_witness:
  "\<exists>blob ent'. Encrypt example_gzip example_key ''hello'' example_aad example_entropy = Inr (blob, ent')
     \<and> (case DecryptV2 example_gzip blob example_keys example_aad of
          Inr r \<Rightarrow> dr_Plaintext r = ''hello'' | Inl _ \<Rightarrow> False)"
proof -
  have "length ''hello'' \<le> MaxPlaintextBytes" by (simp add: MaxPlaintextBytes_def)
  from Encrypt_DecryptV2_roundtrip [OF example_gzip_ok length_example_key this example_aad_ok
      example_kid_ok _ example_find_key, of example_entropy]
  show ?thesis by (auto simp: example_entropy_def)
qed



section \<open>Cross-row replay\<close>



section \<open>Legacy blobs\<close>

lemma try_v0_Inr:
  "try_v0 iv ct keys = Inr r \<Longrightarrow> \<exists>k \<in> set keys. length (key_Bytes k) = 32
     \<and> ct = gcm_seal (key_Bytes k) iv (dr_Plaintext r) [] \<and> dr_KeyIDHex r = key_KeyIDHex k
     \<and> dr_Version r = VersionV0 \<and> dr_NeedsRewrap r"
  by (induction iv ct keys rule: try_v0.induct) (auto simp: Open_Inr split: if_splits sum.splits)

lemma try_v1_Inr:
  "try_v1 gz iv ct keys = Inr r \<Longrightarrow> \<exists>k \<in> set keys. \<exists>z. length (key_Bytes k) = 32
     \<and> ct = gcm_seal (key_Bytes k) iv z [] \<and> gunzip gz z = Inr (dr_Plaintext r)
     \<and> dr_KeyIDHex r = key_KeyIDHex k \<and> dr_Version r = VersionV1 \<and> dr_NeedsRewrap r"
  by (induction gz iv ct keys rule: try_v1.induct) (auto simp: Open_Inr split: if_splits sum.splits)

lemma DecryptLegacy_Inr:
  assumes "DecryptLegacy gz blob keys = Inr r"
  shows "(Detect blob = VersionV0 \<and> (\<exists>rawIV rawData iv ct. v0_fields blob = Some (rawIV, rawData)
            \<and> decodeBase64OrHex rawIV 12 = Inr iv \<and> v0_ciphertext rawData = Some ct
            \<and> try_v0 iv ct keys = Inr r))
    \<or> (Detect blob = VersionV1 \<and> 28 \<le> length blob \<and> try_v1 gz (take 12 blob) (drop 12 blob) keys = Inr r)"
proof (cases "Detect blob")
  case VersionV0
  then have "decryptV0 blob keys = Inr r" using assms by (simp add: DecryptLegacy_def)
  then show ?thesis using VersionV0
    by (auto simp: decryptV0_def result_simps split: if_splits)
next
  case VersionV1
  then show ?thesis using assms
    by (auto simp: DecryptLegacy_def decryptV1_def result_simps split: if_splits)
qed (use assms in \<open>simp_all add: DecryptLegacy_def\<close>)

lemma v1_opens:
  assumes "gzip_ok gz" "Detect blob = VersionV1" "length iv = 12" "length (key_Bytes k) = 32"
    "length pt \<le> MaxPlaintextBytes"
    "blob = iv @ gcm_seal (key_Bytes k) iv (gz_compress gz pt) []"
    "\<forall>k' \<in> set pre. \<exists>e. Open (key_Bytes k') iv (drop 12 blob) [] = Inl e"
  shows "DecryptLegacy gz blob (pre @ k # post) =
    Inr \<lparr> dr_Plaintext = pt, dr_KeyIDHex = key_KeyIDHex k, dr_Version = VersionV1,
          dr_NeedsRewrap = True \<rparr>"
proof -
  have "Open (key_Bytes k) iv (drop 12 blob) [] = Inr (gz_compress gz pt)"
    using assms by (simp add: Open_Inr)
  then have "try_v1 gz iv (drop 12 blob) (pre @ k # post) =
    Inr \<lparr> dr_Plaintext = pt, dr_KeyIDHex = key_KeyIDHex k, dr_Version = VersionV1,
          dr_NeedsRewrap = True \<rparr>"
    using assms(7) gunzip_gzip [OF assms(1,5)] assms(4) by (induction pre) auto
  then show ?thesis using assms by (simp add: DecryptLegacy_def decryptV1_def)
qed

text \<open>
  A legacy blob only opens under a listed key and always asks to be rewrapped: whatever
  DecryptLegacy returns carries the key id of a 32-byte key of the list, the detected legacy
  version, and the need to rewrap; a v0 plaintext is exactly what AES-GCM sealed under that key
  to the decoded data field with the decoded nonce field and no authenticated data, a v1
  plaintext is the decompression of what was sealed to the blob's bytes after the nonce.
\<close>

theorem DecryptLegacy_sound:
  assumes "DecryptLegacy gz blob keys = Inr r"
  shows "dr_NeedsRewrap r \<and> dr_Version r = Detect blob \<and> (\<exists>k \<in> set keys. length (key_Bytes k) = 32
     \<and> dr_KeyIDHex r = key_KeyIDHex k
     \<and> (dr_Version r = VersionV0
          \<and> (\<exists>rawIV rawData iv. v0_fields blob = Some (rawIV, rawData)
               \<and> decodeBase64OrHex rawIV 12 = Inr iv
               \<and> v0_ciphertext rawData = Some (gcm_seal (key_Bytes k) iv (dr_Plaintext r) []))
        \<or> dr_Version r = VersionV1
          \<and> (\<exists>z. drop 12 blob = gcm_seal (key_Bytes k) (take 12 blob) z []
                \<and> gunzip gz z = Inr (dr_Plaintext r))))"
  using DecryptLegacy_Inr [OF assms]
proof (elim disjE conjE exE)
  fix rawIV rawData iv ct
  assume v: "Detect blob = VersionV0" "v0_fields blob = Some (rawIV, rawData)"
    "decodeBase64OrHex rawIV 12 = Inr iv" "v0_ciphertext rawData = Some ct"
    and t: "try_v0 iv ct keys = Inr r"
  from try_v0_Inr [OF t] v show ?thesis by auto
next
  assume v: "Detect blob = VersionV1" "try_v1 gz (take 12 blob) (drop 12 blob) keys = Inr r"
  from try_v1_Inr [OF v(2)] v(1) show ?thesis by auto
qed

definition example_v1 :: bytes where
  "example_v1 = replicate 12 (CHR 0x00)
     @ gcm_seal example_key (replicate 12 (CHR 0x00)) ''old'' []"

lemma json_parse_control:
  assumes "byte_val c < 32" "\<not> is_ws c"
  shows "json_parse (c # s) = None"
proof -
  have "pnum (c # s) = None"
    using assms by (auto simp: pnum_def pint_def is_digit_def jdigit_def)
  moreover have "c \<noteq> CHR 0x22 \<and> c \<noteq> CHR ''{'' \<and> c \<noteq> CHR ''['' \<and> c \<noteq> CHR ''t'' \<and> c \<noteq> CHR ''f'' \<and> c \<noteq> CHR ''n''"
    using assms(1) by auto
  ultimately have "pval f d (c # s) = None" for f d by (cases f) auto
  then show ?thesis using assms(2) by (simp add: json_parse_def json_first_def skip_ws_start)
qed

lemma example_v1_Detect: "Detect example_v1 = VersionV1"
proof -
  obtain s where s: "example_v1 = CHR 0x00 # s" by (simp add: example_v1_def numeral_eq_Suc)
  have "json_parse example_v1 = None"
    unfolding s by (rule json_parse_control) (simp_all add: is_ws_def)
  moreover have "length example_v1 = 31" by (simp add: example_v1_def)
  ultimately show ?thesis by (simp add: Detect_def looksLikeV2_def looksLikeV0_def)
qed

lemma example_v1_opens:
  "DecryptLegacy example_gzip example_v1 example_keys =
    Inr \<lparr> dr_Plaintext = ''old'', dr_KeyIDHex = aad_KeyIDHex example_aad, dr_Version = VersionV1,
          dr_NeedsRewrap = True \<rparr>"
  using v1_opens [OF example_gzip_ok example_v1_Detect, of "replicate 12 (CHR 0x00)"
      "hd example_keys" "''old''" "[]" "[]"]
  by (simp add: example_keys_def MaxPlaintextBytes_def example_v1_def example_gzip_def)

theorem DecryptLegacy_sound_witness:
  "\<exists>r. DecryptLegacy example_gzip example_v1 example_keys = Inr r \<and> dr_NeedsRewrap r
     \<and> dr_Version r = Detect example_v1"
  using DecryptLegacy_sound [OF example_v1_opens] example_v1_opens by blast

section \<open>Detection\<close>

text \<open>
  Two blobs that the comment above \<^verbatim>\<open>Detect\<close> rules out: a JSON object with nothing but the
  version is detected as v2, and one with an explicit null version as v0.
\<close>

lemma Detect_lax:
  "Detect ''{\"v\":2}'' = VersionV2" "Detect ''{\"v\":null,\"iv\":\"a\",\"data\":\"b\"}'' = VersionV0"
  by code_simp+

end
