(* ===== verification/Go_HTTP.thy ===== *)
theory Go_HTTP
  imports Go_JSON
begin

text \<open>
  What the program uses of \<^verbatim>\<open>net/http\<close>, \<^verbatim>\<open>net/url\<close> and \<^verbatim>\<open>time\<close>: requests and responses as
  values, headers, query strings, bounded body reads, and fallible operations that thread the
  state of the world. The world itself (the network with the service behind it, the clock, the
  cancellation of the context) is a parameter: a record of functions on a state type.
\<close>

section \<open>Operations on a state\<close>

type_synonym ('s, 'a) op = "'s \<Rightarrow> 'a result \<times> 's"

definition op_ret :: "'a \<Rightarrow> ('s, 'a) op" where
  "op_ret x s = (Inr x, s)"

definition op_err :: "go_error \<Rightarrow> ('s, 'a) op" where
  "op_err e s = (Inl e, s)"

definition op_lift :: "'a result \<Rightarrow> ('s, 'a) op" where
  "op_lift r s = (r, s)"

text \<open>Continue with the result, error or not.\<close>

definition op_try :: "('s, 'a) op \<Rightarrow> ('a result \<Rightarrow> ('s, 'b) op) \<Rightarrow> ('s, 'b) op" where
  "op_try m f s = (case m s of (r, s') \<Rightarrow> f r s')"

definition op_bind :: "('s, 'a) op \<Rightarrow> ('a \<Rightarrow> ('s, 'b) op) \<Rightarrow> ('s, 'b) op" where
  "op_bind m f = op_try m (\<lambda>r. case r of Inl e \<Rightarrow> op_err e | Inr x \<Rightarrow> f x)"

named_theorems op_simps \<open>running operations on a given state\<close>

lemma op_ret_run [simp, op_simps]: "op_ret x s = (Inr x, s)"
  and op_err_run [simp, op_simps]: "op_err e s = (Inl e, s)"
  and op_lift_run [simp, op_simps]: "op_lift r s = (r, s)"
  by (simp_all add: op_ret_def op_err_def op_lift_def)

lemma op_try_run [op_simps]: "m s = (r, s') \<Longrightarrow> op_try m f s = f r s'"
  by (simp add: op_try_def)

lemma op_bind_Inr [op_simps]: "m s = (Inr x, s') \<Longrightarrow> op_bind m f s = f x s'"
  and op_bind_Inl [op_simps]: "m s = (Inl e, s') \<Longrightarrow> op_bind m f s = (Inl e, s')"
  by (simp_all add: op_bind_def op_try_def)

lemma op_bind_simps [simp]:
  "op_bind (op_ret x) f = f x" "op_bind (op_err e) f = op_err e"
  "op_bind (op_lift (Inr x)) f = f x" "op_bind (op_lift (Inl e)) f = op_err e"
  by (simp_all add: op_bind_def op_try_def fun_eq_iff)

lemma op_try_simps [simp]:
  "op_try (op_ret x) f = f (Inr x)" "op_try (op_err e) f = f (Inl e)" "op_try (op_lift r) f = f r"
  by (simp_all add: op_try_def fun_eq_iff)

lemma op_bind_eq_Inr:
  "op_bind m f s = (Inr y, t) \<longleftrightarrow> (\<exists>x u. m s = (Inr x, u) \<and> f x u = (Inr y, t))"
  by (auto simp: op_bind_def op_try_def split: prod.splits sum.splits)

lemma op_bind_eq_Inl:
  "op_bind m f s = (Inl e, t) \<longleftrightarrow>
     m s = (Inl e, t) \<or> (\<exists>x u. m s = (Inr x, u) \<and> f x u = (Inl e, t))"
  by (auto simp: op_bind_def op_try_def split: prod.splits sum.splits)

named_theorems op_inv \<open>inverting an operation that returned a result\<close>

declare op_bind_eq_Inr [op_inv]

lemma op_ret_eq_Inr [op_inv]: "op_ret x s = (Inr y, t) \<longleftrightarrow> x = y \<and> s = t"
  and op_lift_eq_Inr [op_inv]: "op_lift r s = (Inr y, t) \<longleftrightarrow> r = Inr y \<and> s = t"
  by auto

lemma op_err_neq_Inr [op_inv]: "op_err e s \<noteq> (Inr y, t)"
  by simp

lemma if_op_err_eq_Inr [op_inv]:
  "(if b then op_err e else m) s = (Inr y, t) \<longleftrightarrow> \<not> b \<and> m s = (Inr y, t)"
  by simp

lemma case_sum_op_err_eq_Inr [op_inv]:
  "(case r of Inl e \<Rightarrow> op_err (h e) | Inr x \<Rightarrow> f x) s = (Inr y, t) \<longleftrightarrow> (\<exists>x. r = Inr x \<and> f x s = (Inr y, t))"
  by (cases r) auto

lemma case_option_op_err_eq_Inr [op_inv]:
  "(case r of None \<Rightarrow> op_err h | Some x \<Rightarrow> f x) s = (Inr y, t) \<longleftrightarrow> (\<exists>x. r = Some x \<and> f x s = (Inr y, t))"
  by (cases r) auto

lemma op_try_eq: "op_try m f s = y \<longleftrightarrow> (\<exists>r u. m s = (r, u) \<and> f r u = y)"
  by (auto simp: op_try_def split: prod.splits)

section \<open>Requests and responses\<close>

record http_request =
  rq_Method :: string
  rq_URL :: string
  rq_Header :: header_list
  rq_Body :: bytes

text \<open>A body is the bytes it yields and whether reading then fails instead of ending.\<close>

record http_response =
  rs_Status :: int
  rs_Header :: header_list
  rs_Body :: bytes
  rs_Broken :: bool

text \<open>Header names are ASCII and compared without regard to case.\<close>

definition lower_num :: "char \<Rightarrow> nat" where
  "lower_num c = (let n = byte_val c in if 65 \<le> n \<and> n \<le> 90 then n + 32 else n)"

definition equal_fold_ascii :: "string \<Rightarrow> string \<Rightarrow> bool" where
  "equal_fold_ascii a b = (map lower_num a = map lower_num b)"

text \<open>\<^verbatim>\<open>Header.Get\<close>: the first value, or the empty string.\<close>

fun header_get :: "header_list \<Rightarrow> string \<Rightarrow> string" where
  "header_get [] n = []"
| "header_get ((k, v) # h) n = (if equal_fold_ascii k n then v else header_get h n)"

text \<open>\<^verbatim>\<open>Header.Set\<close>, and the frequent case of setting a header only when its value is not empty.\<close>

fun header_set :: "string \<Rightarrow> string \<Rightarrow> header_list \<Rightarrow> header_list" where
  "header_set n v [] = [(n, v)]"
| "header_set n v ((k, w) # h) = (if equal_fold_ascii k n then (n, v) # h else (k, w) # header_set n v h)"

definition header_set_if :: "bool \<Rightarrow> string \<Rightarrow> string \<Rightarrow> header_list \<Rightarrow> header_list" where
  "header_set_if b n v h = (if b then header_set n v h else h)"

definition header_opt :: "string \<Rightarrow> string \<Rightarrow> header_list \<Rightarrow> header_list" where
  "header_opt n v h = header_set_if (v \<noteq> []) n v h"

text \<open>\<^verbatim>\<open>io.ReadAll(io.LimitReader(body, n))\<close>: the bytes read, and whether the read failed.\<close>

definition read_limited :: "nat \<Rightarrow> http_response \<Rightarrow> bytes \<times> bool" where
  "read_limited n r = (take n (rs_Body r), rs_Broken r \<and> length (rs_Body r) < n)"

lemma equal_fold_refl [simp]: "equal_fold_ascii a a"
  by (simp add: equal_fold_ascii_def)

lemma header_get_set:
  "header_get (header_set n v h) m = (if equal_fold_ascii n m then v else header_get h m)"
proof (induction h)
  case (Cons kv h)
  obtain k w where kv: "kv = (k, w)" by (cases kv)
  show ?case using Cons by (auto simp: kv equal_fold_ascii_def)
qed simp

section \<open>Query strings\<close>

definition query_keep :: "char \<Rightarrow> bool" where
  "query_keep c =
     (in_range 97 122 c \<or> in_range 65 90 c \<or> in_range 48 57 c \<or> c \<in> set ''-_.~'')"

fun query_escape :: "string \<Rightarrow> string" where
  "query_escape [] = []"
| "query_escape (c # r) =
     (if query_keep c then c # query_escape r
      else if c = CHR '' '' then CHR ''+'' # query_escape r
      else CHR ''%'' # upperhex (byte_val c div 16) # upperhex (byte_val c mod 16) # query_escape r)"

text \<open>\<^verbatim>\<open>url.Values.Encode\<close> for single-valued keys, given in key order.\<close>

fun query_encode :: "(string \<times> string) list \<Rightarrow> string" where
  "query_encode [] = []"
| "query_encode [(k, v)] = query_escape k @ ''='' @ query_escape v"
| "query_encode ((k, v) # kv # r) = query_escape k @ ''='' @ query_escape v @ ''&'' @ query_encode (kv # r)"

section \<open>The world\<close>

text \<open>
  \<open>net_url_ok\<close>: whether \<^verbatim>\<open>http.NewRequest\<close> accepts the endpoint; \<open>net_do\<close>: the round trip, which
  fails with an error or returns a response; \<open>net_ctx_err\<close>: whether the caller's context is
  done. Times are instants in nanoseconds, read and written by the two functions of the
  \<^verbatim>\<open>time\<close> package the program uses.
\<close>

type_synonym gtime = int

record time_lib =
  tm_parse :: "string \<Rightarrow> gtime option"
  tm_format :: "gtime \<Rightarrow> string"

record 's net =
  net_url_ok :: "string \<Rightarrow> bool"
  net_do :: "http_request \<Rightarrow> 's \<Rightarrow> http_response result \<times> 's"
  net_ctx_err :: "'s \<Rightarrow> bool"
  net_time :: time_lib

text \<open>\<^verbatim>\<open>http.NewRequestWithContext\<close>.\<close>

definition NewRequest :: "'s net \<Rightarrow> string \<Rightarrow> string \<Rightarrow> bytes \<Rightarrow> http_request result" where
  "NewRequest N meth url body =
     (if net_url_ok N url
      then Inr \<lparr> rq_Method = meth, rq_URL = url, rq_Header = [], rq_Body = body \<rparr>
      else Inl (ELib ''net/url''))"

definition rq_set :: "(header_list \<Rightarrow> header_list) \<Rightarrow> http_request \<Rightarrow> http_request" where
  "rq_set f r = r\<lparr>rq_Header := f (rq_Header r)\<rparr>"

lemma rq_set_simps [simp]:
  "rq_Method (rq_set f r) = rq_Method r" "rq_URL (rq_set f r) = rq_URL r"
  "rq_Body (rq_set f r) = rq_Body r" "rq_Header (rq_set f r) = f (rq_Header r)"
  by (simp_all add: rq_set_def)

section \<open>Decoding response bodies\<close>

text \<open>\<^verbatim>\<open>json.Unmarshal\<close> into a struct described by a decoder of its members.\<close>

definition unmarshal :: "((string \<times> json) list \<Rightarrow> 'a option) \<Rightarrow> bytes \<Rightarrow> 'a option" where
  "unmarshal dec body = Option.bind (Option.bind (json_parse body) struct_members) dec"

text \<open>\<^verbatim>\<open>json.NewDecoder(r).Decode\<close>: the first value of the stream, and what follows it.\<close>

definition decode_first :: "((string \<times> json) list \<Rightarrow> 'a option) \<Rightarrow> bytes \<Rightarrow> ('a \<times> bytes) option" where
  "decode_first dec body =
     (case json_first body of
        None \<Rightarrow> None
      | Some (j, rest) \<Rightarrow>
          (case Option.bind (struct_members j) dec of None \<Rightarrow> None | Some x \<Rightarrow> Some (x, rest)))"

text \<open>Decoders for slices of structs and for optional fields; \<open>JNull\<close> resets a slice to nil.\<close>

fun all_some :: "'a option list \<Rightarrow> 'a list option" where
  "all_some [] = Some []"
| "all_some (x # xs) =
     (case (x, all_some xs) of (Some y, Some ys) \<Rightarrow> Some (y # ys) | _ \<Rightarrow> None)"

fun dec_list :: "(json \<Rightarrow> 'a option) \<Rightarrow> 'a list \<Rightarrow> json list \<Rightarrow> 'a list option" where
  "dec_list f cur [] = Some cur"
| "dec_list f cur (v # vs) =
     (case v of
        JArr xs \<Rightarrow> (case all_some (map f xs) of Some ys \<Rightarrow> dec_list f ys vs | None \<Rightarrow> None)
      | JNull \<Rightarrow> dec_list f [] vs
      | _ \<Rightarrow> None)"

text \<open>\<^verbatim>\<open>len(bytes.TrimSpace(body)) == 0\<close> for the ASCII white space that can precede JSON.\<close>

definition is_space :: "char \<Rightarrow> bool" where
  "is_space c = (byte_val c \<in> {9, 10, 11, 12, 13, 32})"

definition blank :: "bytes \<Rightarrow> bool" where
  "blank s = list_all is_space s"

end
