(* ===== verification/Controlplane.thy ===== *)
theory Controlplane
  imports Go_HTTP "HOL-Library.Monad_Syntax"
begin

text \<open>
  \<^verbatim>\<open>internal/controlplane/client.go\<close>: the client of the controlplane's HTTP API. Each method
  builds one request (path, headers, body), sends it through the world's \<open>net_do\<close> and reads
  the answer; the bodies the operation hash is computed over are separate definitions, as in
  the source. The controlplane behind the network is a parameter.
\<close>

section \<open>Constants and data\<close>

definition HeaderAuth :: string where "HeaderAuth = ''Authorization''"
definition HeaderKeyID :: string where "HeaderKeyID = ''X-Key-Id''"
definition HeaderIfMatch :: string where "HeaderIfMatch = ''If-Match''"
definition HeaderIdempotency :: string where "HeaderIdempotency = ''X-Idempotency-Key''"
definition HeaderOperationHash :: string where "HeaderOperationHash = ''X-Operation-Hash''"
definition HeaderProfileSyncProtocol :: string where
  "HeaderProfileSyncProtocol = ''X-Profile-Sync-Protocol''"
definition HeaderProjectID :: string where "HeaderProjectID = ''X-Project-Id''"
definition HeaderProjectIDSet :: string where "HeaderProjectIDSet = ''X-Project-Id-Set''"
definition HeaderAttachmentRefs :: string where "HeaderAttachmentRefs = ''X-Attachment-Refs''"
definition HeaderActivityAt :: string where "HeaderActivityAt = ''X-Activity-At''"
definition HeaderETag :: string where "HeaderETag = ''ETag''"
definition HeaderRequestID :: string where "HeaderRequestID = ''X-Request-ID''"
definition HeaderSearchIndexFenced :: string where
  "HeaderSearchIndexFenced = ''X-Search-Index-Fenced''"
definition HeaderContentType :: string where "HeaderContentType = ''Content-Type''"
definition HeaderServiceSecret :: string where "HeaderServiceSecret = ''X-Sync-Enclave-Secret''"
definition HeaderClerkUserID :: string where "HeaderClerkUserID = ''X-Clerk-User-Id''"
definition HeaderLegacyClaim :: string where "HeaderLegacyClaim = ''X-Legacy-Claim''"

lemmas header_defs = HeaderAuth_def HeaderKeyID_def HeaderIfMatch_def HeaderIdempotency_def
  HeaderOperationHash_def HeaderProfileSyncProtocol_def HeaderProjectID_def
  HeaderProjectIDSet_def HeaderAttachmentRefs_def HeaderActivityAt_def HeaderETag_def
  HeaderRequestID_def HeaderSearchIndexFenced_def HeaderContentType_def
  HeaderServiceSecret_def HeaderClerkUserID_def HeaderLegacyClaim_def

definition IfMatchCreateOnly :: string where "IfMatchCreateOnly = ''0''"
definition IfMatchAnyKey :: string where "IfMatchAnyKey = ''*''"
definition ProfileSyncProtocolV2 :: int where "ProfileSyncProtocolV2 = 2"

definition StatusPreconditionRequired :: string where
  "StatusPreconditionRequired = ''PRECONDITION_REQUIRED''"
definition StatusStaleKey :: string where "StatusStaleKey = ''STALE_KEY''"
definition StatusStaleBlob :: string where "StatusStaleBlob = ''STALE_BLOB''"
definition StatusMissingAttachment :: string where "StatusMissingAttachment = ''MISSING_ATTACHMENT''"
definition StatusAttachmentPurgeInProgress :: string where
  "StatusAttachmentPurgeInProgress = ''ATTACHMENT_PURGE_IN_PROGRESS''"
definition StatusExistingDataUnderOtherKey :: string where
  "StatusExistingDataUnderOtherKey = ''EXISTING_DATA_UNDER_OTHER_KEY''"
definition StatusIdempotencyConflict :: string where
  "StatusIdempotencyConflict = ''IDEMPOTENCY_CONFLICT''"
definition StatusSearchIndexConflict :: string where
  "StatusSearchIndexConflict = ''SEARCH_INDEX_CONFLICT''"
definition StatusProfileSyncUpgradeRequired :: string where
  "StatusProfileSyncUpgradeRequired = ''PROFILE_SYNC_UPGRADE_REQUIRED''"
definition StatusSyncSnapshotRequired :: string where
  "StatusSyncSnapshotRequired = ''SYNC_SNAPSHOT_REQUIRED''"
definition StatusLegacyBlobNotMigrated :: string where
  "StatusLegacyBlobNotMigrated = ''LEGACY_BLOB_NOT_MIGRATED''"

lemmas status_defs = StatusPreconditionRequired_def StatusStaleKey_def StatusStaleBlob_def
  StatusMissingAttachment_def StatusAttachmentPurgeInProgress_def
  StatusExistingDataUnderOtherKey_def StatusIdempotencyConflict_def
  StatusSearchIndexConflict_def StatusProfileSyncUpgradeRequired_def
  StatusSyncSnapshotRequired_def StatusLegacyBlobNotMigrated_def

definition maxLegacyAttachmentBytes :: nat where "maxLegacyAttachmentBytes = 64 * 1024 * 1024"
definition maxSyncJSONResponseBytes :: nat where "maxSyncJSONResponseBytes = 32 * 1024 * 1024"
definition PutBlobMaxAttempts :: nat where "PutBlobMaxAttempts = 2"

abbreviation MiB :: nat where "MiB \<equiv> 1024 * 1024"

record client =
  cl_baseURL :: string
  cl_serviceSecret :: string

record blob_meta =
  bm_ID :: string
  bm_ETag :: string
  bm_KeyID :: string
  bm_ProjectID :: "string option"
  bm_UpdatedAt :: gtime
  bm_ActivityAt :: "gtime option"
  bm_Cursor :: string

record blob_delete =
  bd_ID :: string
  bd_Scope :: string
  bd_DeletedAt :: gtime
  bd_Cursor :: string

record list_status_response =
  ls_Updates :: "blob_meta list"
  ls_Deletes :: "blob_delete list"
  ls_NextCursor :: string

record put_blob_request =
  pb_Scope :: string
  pb_ID :: string
  pb_JWT :: string
  pb_ClerkUserID :: string
  pb_KeyIDHex :: string
  pb_IfMatch :: string
  pb_IdempotencyKey :: string
  pb_OperationHash :: string
  pb_RequestID :: string
  pb_ProfileSyncProtocol :: int
  pb_Rewrap :: bool
  pb_Ciphertext :: bytes
  pb_ProjectIDSet :: bool
  pb_ProjectID :: "string option"
  pb_AttachmentRefs :: "string list option"
  pb_ActivityAt :: "gtime option"

record put_blob_response =
  pr_ETag :: string
  pr_KeyID :: string
  pr_SourceRevision :: int

record get_blob_response =
  gr_Ciphertext :: bytes
  gr_ETag :: string
  gr_KeyID :: string
  gr_ProjectIDSet :: bool
  gr_ProjectID :: "string option"
  gr_ActivityAt :: "gtime option"

section \<open>Sending a request\<close>

definition addAuth :: "string \<Rightarrow> string \<Rightarrow> header_list \<Rightarrow> header_list" where
  "addAuth rawJWT clerkUserID h =
     header_opt HeaderClerkUserID clerkUserID
       (header_set_if (rawJWT \<noteq> []) HeaderAuth (''Bearer '' @ rawJWT) h)"

definition doRequest :: "client \<Rightarrow> 's net \<Rightarrow> http_request \<Rightarrow> ('s, http_response) op" where
  "doRequest c N req s =
     (case net_do N (rq_set (header_opt HeaderServiceSecret (cl_serviceSecret c)) req) s of
        (Inl e, s') \<Rightarrow> (Inl (wrap_prefix ''controlplane: request: '' e), s')
      | (Inr resp, s') \<Rightarrow> (Inr resp, s'))"

text \<open>Build the request, set its headers, send it.\<close>

definition send ::
  "client \<Rightarrow> 's net \<Rightarrow> string \<Rightarrow> string \<Rightarrow> bytes \<Rightarrow> (header_list \<Rightarrow> header_list) \<Rightarrow> ('s, http_response) op"
  where
  "send c N meth url body hs =
     op_bind (op_lift (NewRequest N meth url body)) (\<lambda>req. doRequest c N (rq_set hs req))"

section \<open>Errors\<close>

definition dec_cp_error :: "(string \<times> json) list \<Rightarrow> cp_error option" where
  "dec_cp_error m = do {
     code \<leftarrow> dec_string [] (field_values ''code'' m);
     msg \<leftarrow> dec_string [] (field_values ''message'' m);
     kid \<leftarrow> dec_string [] (field_values ''current_key_id'' m);
     etag \<leftarrow> dec_string [] (field_values ''current_etag'' m);
     rev \<leftarrow> dec_string [] (field_values ''current_revision'' m);
     old \<leftarrow> dec_string [] (field_values ''oldest_replayable_revision'' m);
     proto \<leftarrow> dec_int 0 (field_values ''minimum_protocol'' m);
     missing \<leftarrow> dec_strings [] (field_values ''missing_attachments'' m);
     retry \<leftarrow> dec_int 0 (field_values ''retry_after_seconds'' m);
     Some \<lparr> cpe_StatusCode = 0, cpe_Code = code, cpe_Message = msg, cpe_CurrentKeyID = kid,
            cpe_CurrentETag = etag, cpe_CurrentRevision = rev, cpe_OldestReplayableRevision = old,
            cpe_MinimumProtocol = proto, cpe_MissingAttachments = missing,
            cpe_RetryAfterSeconds = retry, cpe_Raw = [] \<rparr> }"

definition parseError :: "int \<Rightarrow> bytes \<Rightarrow> go_error" where
  "parseError status body =
     (if length body = 0 then ECp (zero_cp_error\<lparr>cpe_StatusCode := status\<rparr>)
      else case unmarshal dec_cp_error body of
             None \<Rightarrow> ECp (zero_cp_error\<lparr>cpe_StatusCode := status, cpe_Message := body, cpe_Raw := body\<rparr>)
           | Some e \<Rightarrow> ECp (e\<lparr>cpe_StatusCode := status, cpe_Raw := body\<rparr>))"

definition IsCode :: "go_error \<Rightarrow> string \<Rightarrow> bool" where
  "IsCode err code = (case errors_as_cp err of None \<Rightarrow> False | Some e \<Rightarrow> cpe_Code e = code)"

definition json_err :: go_error where
  "json_err = ELib ''encoding/json''"

definition read_err :: go_error where
  "read_err = ELib ''io''"

section \<open>Paths\<close>

definition splitProjectDocID :: "string \<Rightarrow> (string \<times> string) option" where
  "splitProjectDocID bid =
     (case index_byte bid (CHR ''/'') of
        None \<Rightarrow> None
      | Some idx \<Rightarrow> if idx \<le> 0 \<or> idx = length bid - 1 then None
                    else Some (take idx bid, drop (idx + 1) bid))"

definition PathFor :: "string \<Rightarrow> string \<Rightarrow> string result" where
  "PathFor scope bid =
     (if scope = ''chat'' then Inr (''/api/sync/blob/chat/'' @ path_escape bid)
      else if scope = ''profile'' then Inr ''/api/sync/blob/profile''
      else if scope = ''project'' then Inr (''/api/sync/blob/project/'' @ path_escape bid)
      else if scope = ''project_document'' then
        (case splitProjectDocID bid of
           None \<Rightarrow> Inl (ENew ''controlplane: invalid project_document id'')
         | Some (parent, doc) \<Rightarrow>
             Inr (''/api/sync/blob/project_document/'' @ path_escape parent @ ''/'' @ path_escape doc))
      else Inl (ENew ''controlplane: unknown scope''))"

definition urlFor :: "client \<Rightarrow> string \<Rightarrow> string \<Rightarrow> string result" where
  "urlFor c scope bid = rbind (PathFor scope bid) (\<lambda>path. Inr (cl_baseURL c @ path))"

definition RewrapPath :: string where "RewrapPath = ''/api/sync/rewrap''"
definition RegisterKeyPath :: string where "RegisterKeyPath = ''/api/sync/keys''"
definition DeleteAllProjectsPath :: string where "DeleteAllProjectsPath = ''/api/sync/blob/projects''"
definition RevisionSummaryPath :: string where "RevisionSummaryPath = ''/api/sync/revision-summary''"
definition RevisionEventsPath :: string where "RevisionEventsPath = ''/api/sync/revision-events''"
definition RevisionSnapshotPath :: string where "RevisionSnapshotPath = ''/api/sync/revision-snapshot''"
definition SearchIndexStatePath :: string where "SearchIndexStatePath = ''/api/sync/search-index''"
definition ChatActivityPath :: string where "ChatActivityPath = ''/api/sync/chat-activity''"

definition AddBundlePath :: "string \<Rightarrow> string" where
  "AddBundlePath keyIDHex = ''/api/sync/keys/'' @ path_escape keyIDHex @ ''/bundles''"

definition RemoveBundlePath :: "string \<Rightarrow> string \<Rightarrow> string" where
  "RemoveBundlePath keyIDHex credentialID =
     ''/api/sync/keys/'' @ path_escape keyIDHex @ ''/bundles/'' @ path_escape credentialID"

section \<open>Writing blobs\<close>

fun join_with :: "string \<Rightarrow> string list \<Rightarrow> string" where
  "join_with sep [] = []"
| "join_with sep [x] = x"
| "join_with sep (x # y # r) = x @ sep @ join_with sep (y # r)"

definition putBlobHeaders :: "time_lib \<Rightarrow> put_blob_request \<Rightarrow> header_list \<Rightarrow> header_list" where
  "putBlobHeaders T req h =
     (let h1 = addAuth (pb_JWT req) (pb_ClerkUserID req) h;
          h2 = header_set HeaderContentType ''application/octet-stream'' h1;
          h3 = header_set HeaderKeyID (pb_KeyIDHex req) h2;
          h4 = header_opt HeaderIfMatch (pb_IfMatch req) h3;
          h5 = header_opt HeaderIdempotency (pb_IdempotencyKey req) h4;
          h6 = header_opt HeaderOperationHash (pb_OperationHash req) h5;
          h7 = header_opt HeaderRequestID (pb_RequestID req) h6;
          h8 = header_set_if (0 < pb_ProfileSyncProtocol req) HeaderProfileSyncProtocol
                 (itoa (pb_ProfileSyncProtocol req)) h7;
          h9 = (if pb_ProjectIDSet req then
                  (case pb_ProjectID req of
                     None \<Rightarrow> header_set HeaderProjectIDSet ''1'' h8
                   | Some p \<Rightarrow> header_set HeaderProjectID p (header_set HeaderProjectIDSet ''1'' h8))
                else h8);
          h10 = (case pb_AttachmentRefs req of
                   None \<Rightarrow> h9 | Some refs \<Rightarrow> header_set HeaderAttachmentRefs (join_with '','' refs) h9)
      in case pb_ActivityAt req of
           None \<Rightarrow> h10 | Some t \<Rightarrow> header_set HeaderActivityAt (tm_format T t) h10)"

definition isRetryablePutBlobStatus :: "int \<Rightarrow> bool" where
  "isRetryablePutBlobStatus status = (500 \<le> status \<and> status \<le> 599)"

definition dec_put_response :: "(string \<times> json) list \<Rightarrow> put_blob_response option" where
  "dec_put_response m = do {
     etag \<leftarrow> dec_string [] (field_values ''etag'' m);
     kid \<leftarrow> dec_string [] (field_values ''key_id'' m);
     rev \<leftarrow> dec_int 0 (field_values ''source_revision'' m);
     Some \<lparr> pr_ETag = etag, pr_KeyID = kid, pr_SourceRevision = rev \<rparr> }"

text \<open>The checks on a 2xx or 3xx answer, after its body has been read.\<close>

definition putBlobAnswer ::
  "put_blob_request \<Rightarrow> http_response \<Rightarrow> bytes \<Rightarrow> put_blob_response result" where
  "putBlobAnswer req resp body =
     (case decode_first dec_put_response body of
        None \<Rightarrow> Inl (EAmbiguous PutBlobResponseDecode json_err)
      | Some (out, rest) \<Rightarrow>
          if skip_ws rest \<noteq> []
          then Inl (EAmbiguous PutBlobResponseDecode (ENew ''trailing data in PutBlob response''))
          else let headerETag = header_get (rs_Header resp) HeaderETag;
                   headerKeyID = header_get (rs_Header resp) HeaderKeyID
               in if pr_ETag out = [] \<and> headerETag = []
                  then Inl (EAmbiguous PutBlobInvalidResponse (ENew ''missing ETag in PutBlob response''))
                  else if pr_ETag out \<noteq> [] \<and> headerETag \<noteq> [] \<and> pr_ETag out \<noteq> headerETag
                  then Inl (EAmbiguous PutBlobInvalidResponse
                         (ENew ''inconsistent ETag in PutBlob response''))
                  else if pr_KeyID out \<noteq> [] \<and> headerKeyID \<noteq> [] \<and> pr_KeyID out \<noteq> headerKeyID
                  then Inl (EAmbiguous PutBlobInvalidResponse
                         (ENew ''inconsistent KeyID in PutBlob response''))
                  else Inr \<lparr> pr_ETag = (if pr_ETag out = [] then headerETag else pr_ETag out),
                             pr_KeyID = (if pr_KeyID out \<noteq> [] then pr_KeyID out
                                         else if headerKeyID \<noteq> [] then headerKeyID
                                         else pb_KeyIDHex req),
                             pr_SourceRevision = pr_SourceRevision out \<rparr>)"

definition putBlobOnce :: "client \<Rightarrow> 's net \<Rightarrow> put_blob_request \<Rightarrow> ('s, put_blob_response) op" where
  "putBlobOnce c N req =
     op_bind (op_lift (urlFor c (pb_Scope req) (pb_ID req))) (\<lambda>endpoint.
     op_bind (op_lift (NewRequest N ''PUT'' endpoint (pb_Ciphertext req))) (\<lambda>httpReq.
     op_try (doRequest c N (rq_set (putBlobHeaders (net_time N) req) httpReq)) (\<lambda>r.
       case r of
         Inl e \<Rightarrow> op_err (EAmbiguous PutBlobTransportFailure e)
       | Inr resp \<Rightarrow>
           (case read_limited MiB resp of (body, readErr) \<Rightarrow>
              if rs_Status resp \<ge> 400 then
                (let cpErr = parseError (rs_Status resp) body
                 in if isRetryablePutBlobStatus (rs_Status resp)
                    then op_err (EAmbiguous PutBlobUpstreamFailure cpErr) else op_err cpErr)
              else if readErr then op_err (EAmbiguous PutBlobResponseRead read_err)
              else op_lift (putBlobAnswer req resp body)))))"

definition RewrapBody :: "put_blob_request \<Rightarrow> bytes" where
  "RewrapBody req =
     json_encode (json_map
       [(''scope'', JStr (pb_Scope req)), (''id'', JStr (pb_ID req)),
        (''key_id'', JStr (pb_KeyIDHex req)), (''if_match'', JStr (pb_IfMatch req)),
        (''ciphertext_b64'', JStr (b64_encode (pb_Ciphertext req)))])"

definition rewrapBlob :: "client \<Rightarrow> 's net \<Rightarrow> put_blob_request \<Rightarrow> ('s, put_blob_response) op" where
  "rewrapBlob c N req =
     op_bind (send c N ''POST'' (cl_baseURL c @ RewrapPath) (RewrapBody req)
                (\<lambda>h. header_opt HeaderOperationHash (pb_OperationHash req)
                       (header_opt HeaderIdempotency (pb_IdempotencyKey req)
                          (header_set HeaderContentType ''application/json''
                             (addAuth (pb_JWT req) (pb_ClerkUserID req) h))))) (\<lambda>resp.
     let respBody = fst (read_limited MiB resp)
     in if rs_Status resp \<ge> 400 then op_err (parseError (rs_Status resp) respBody)
        else case unmarshal (\<lambda>m. do {
                    ok \<leftarrow> dec_bool False (field_values ''ok'' m);
                    etag \<leftarrow> dec_string [] (field_values ''etag'' m);
                    kid \<leftarrow> dec_string [] (field_values ''key_id'' m);
                    Some (etag, kid) }) respBody of
               None \<Rightarrow> op_err (wrap_prefix ''controlplane: decode rewrap: '' json_err)
             | Some (etag, kid) \<Rightarrow>
                 if etag = [] then op_err (ENew ''controlplane: missing etag in rewrap response'')
                 else op_ret \<lparr> pr_ETag = etag,
                               pr_KeyID = (if kid = [] then pb_KeyIDHex req else kid),
                               pr_SourceRevision = 0 \<rparr>)"

text \<open>
  The bounded loop of \<^verbatim>\<open>PutBlob\<close>: \<open>n\<close> attempts are left, an ambiguous failure of the last one, or
  of one after which the context is done, is reported as outcome unknown.
\<close>

fun putBlobLoop :: "nat \<Rightarrow> client \<Rightarrow> 's net \<Rightarrow> put_blob_request \<Rightarrow> ('s, put_blob_response) op" where
  "putBlobLoop 0 c N req s = (Inl (ENew ''unreachable''), s)"
| "putBlobLoop (Suc n) c N req s =
     (if net_ctx_err N s then (Inl ECtx, s)
      else case putBlobOnce c N req s of
             (Inr resp, s') \<Rightarrow> (Inr resp, s')
           | (Inl err, s') \<Rightarrow>
               if \<not> errors_as_ambiguous err then (Inl err, s')
               else if net_ctx_err N s' \<or> n = 0 then (Inl (EOutcomeUnknown err), s')
               else putBlobLoop n c N req s')"

definition PutBlob :: "client \<Rightarrow> 's net \<Rightarrow> put_blob_request \<Rightarrow> ('s, put_blob_response) op" where
  "PutBlob c N req =
     (if pb_Rewrap req then rewrapBlob c N req else putBlobLoop PutBlobMaxAttempts c N req)"

section \<open>Reading and deleting blobs\<close>

definition GetBlob ::
  "client \<Rightarrow> 's net \<Rightarrow> string \<Rightarrow> string \<Rightarrow> string \<Rightarrow> string \<Rightarrow> ('s, get_blob_response) op" where
  "GetBlob c N scope bid jwt clerkUserID =
     op_bind (op_lift (urlFor c scope bid)) (\<lambda>endpoint.
     op_bind (send c N ''GET'' endpoint [] (addAuth jwt clerkUserID)) (\<lambda>resp.
     case read_limited (64 * MiB) resp of (body, readErr) \<Rightarrow>
       if readErr then op_err read_err
       else if rs_Status resp \<ge> 400 then op_err (parseError (rs_Status resp) body)
       else let hdr = header_get (rs_Header resp);
                set = (scope = ''chat'' \<and> hdr HeaderProjectIDSet = ''1'')
            in op_ret \<lparr> gr_Ciphertext = body, gr_ETag = hdr HeaderETag, gr_KeyID = hdr HeaderKeyID,
                        gr_ProjectIDSet = set,
                        gr_ProjectID = (if set \<and> hdr HeaderProjectID \<noteq> [] then Some (hdr HeaderProjectID)
                                        else None),
                        gr_ActivityAt = (if scope = ''chat''
                                         then tm_parse (net_time N) (hdr HeaderActivityAt) else None) \<rparr>))"

text \<open>\<^verbatim>\<open>HeadBlob\<close> returns the id it was asked for, the ETag and the key id.\<close>

definition HeadBlob ::
  "client \<Rightarrow> 's net \<Rightarrow> string \<Rightarrow> string \<Rightarrow> string \<Rightarrow> string \<Rightarrow> ('s, string \<times> string \<times> string) op" where
  "HeadBlob c N scope bid jwt clerkUserID =
     op_bind (op_lift (urlFor c scope bid)) (\<lambda>endpoint.
     op_bind (send c N ''HEAD'' endpoint [] (addAuth jwt clerkUserID)) (\<lambda>resp.
       if rs_Status resp \<ge> 400
       then op_err (parseError (rs_Status resp) (fst (read_limited MiB resp)))
       else op_ret (bid, header_get (rs_Header resp) HeaderETag,
                    header_get (rs_Header resp) HeaderKeyID)))"

record delete_blob_request =
  db_Scope :: string
  db_ID :: string
  db_JWT :: string
  db_ClerkUserID :: string
  db_IfMatch :: string
  db_IdempotencyKey :: string
  db_OperationHash :: string

record delete_blob_response =
  dbr_OK :: bool
  dbr_WipedV2Attachments :: "string list"
  dbr_SourceRevision :: int

definition dec_delete_response :: "(string \<times> json) list \<Rightarrow> delete_blob_response option" where
  "dec_delete_response m = do {
     ok \<leftarrow> dec_bool False (field_values ''ok'' m);
     wiped \<leftarrow> dec_strings [] (field_values ''wiped_v2_attachments'' m);
     rev \<leftarrow> dec_int 0 (field_values ''source_revision'' m);
     Some \<lparr> dbr_OK = ok, dbr_WipedV2Attachments = wiped, dbr_SourceRevision = rev \<rparr> }"

definition DeleteBlob :: "client \<Rightarrow> 's net \<Rightarrow> delete_blob_request \<Rightarrow> ('s, delete_blob_response) op" where
  "DeleteBlob c N req =
     op_bind (op_lift (urlFor c (db_Scope req) (db_ID req))) (\<lambda>endpoint.
     op_bind (send c N ''DELETE'' endpoint []
                (\<lambda>h. header_opt HeaderOperationHash (db_OperationHash req)
                       (header_opt HeaderIdempotency (db_IdempotencyKey req)
                          (header_opt HeaderIfMatch (db_IfMatch req)
                             (addAuth (db_JWT req) (db_ClerkUserID req) h))))) (\<lambda>resp.
     let body = fst (read_limited MiB resp)
     in if rs_Status resp \<ge> 400 then op_err (parseError (rs_Status resp) body)
        else if length body > 0 then
          (case unmarshal dec_delete_response body of
             None \<Rightarrow> op_err (wrap_prefix ''controlplane: decode delete response: '' json_err)
           | Some out \<Rightarrow> op_ret out)
        else op_ret \<lparr> dbr_OK = False, dbr_WipedV2Attachments = [], dbr_SourceRevision = 0 \<rparr>))"

record delete_all_projects_request =
  dap_JWT :: string
  dap_ClerkUserID :: string
  dap_KeyIDHex :: string
  dap_IdempotencyKey :: string
  dap_OperationHash :: string

record delete_all_projects_response =
  dapr_OK :: bool
  dapr_Deleted :: int

definition DeleteAllProjects ::
  "client \<Rightarrow> 's net \<Rightarrow> delete_all_projects_request \<Rightarrow> ('s, delete_all_projects_response) op" where
  "DeleteAllProjects c N req =
     op_bind (send c N ''DELETE'' (cl_baseURL c @ DeleteAllProjectsPath) []
                (\<lambda>h. header_set HeaderOperationHash (dap_OperationHash req)
                       (header_set HeaderIdempotency (dap_IdempotencyKey req)
                          (header_set HeaderKeyID (dap_KeyIDHex req)
                             (addAuth (dap_JWT req) (dap_ClerkUserID req) h))))) (\<lambda>resp.
     case read_limited MiB resp of (body, readErr) \<Rightarrow>
       if rs_Status resp \<ge> 400 then op_err (parseError (rs_Status resp) body)
       else if readErr
       then op_err (wrap_prefix ''controlplane: read delete-all-projects response: '' read_err)
       else case unmarshal (\<lambda>m. do {
                   ok \<leftarrow> dec_bool False (field_values ''ok'' m);
                   n \<leftarrow> dec_int 0 (field_values ''deleted'' m);
                   Some \<lparr> dapr_OK = ok, dapr_Deleted = n \<rparr> }) body of
              None \<Rightarrow> op_err (wrap_prefix ''controlplane: decode delete-all-projects response: '' json_err)
            | Some out \<Rightarrow> op_ret out)"

section \<open>Listing and revisions\<close>

fun dec_time :: "time_lib \<Rightarrow> gtime \<Rightarrow> json list \<Rightarrow> gtime option" where
  "dec_time T cur [] = Some cur"
| "dec_time T cur (v # vs) =
     (case v of
        JStr s \<Rightarrow> (case tm_parse T s of Some t \<Rightarrow> dec_time T t vs | None \<Rightarrow> None)
      | JNull \<Rightarrow> dec_time T cur vs
      | _ \<Rightarrow> None)"

fun dec_ptr_time :: "time_lib \<Rightarrow> gtime option \<Rightarrow> json list \<Rightarrow> gtime option option" where
  "dec_ptr_time T cur [] = Some cur"
| "dec_ptr_time T cur (v # vs) =
     (case v of
        JStr s \<Rightarrow> (case tm_parse T s of Some t \<Rightarrow> dec_ptr_time T (Some t) vs | None \<Rightarrow> None)
      | JNull \<Rightarrow> dec_ptr_time T None vs
      | _ \<Rightarrow> None)"

text \<open>The zero \<^verbatim>\<open>time.Time\<close>, the first of January of the year 1, in nanoseconds.\<close>

definition zero_time :: gtime where
  "zero_time = - 62135596800 * 1000000000"

definition dec_blob_meta :: "time_lib \<Rightarrow> json \<Rightarrow> blob_meta option" where
  "dec_blob_meta T j = do {
     m \<leftarrow> struct_members j;
     i \<leftarrow> dec_string [] (field_values ''id'' m);
     etag \<leftarrow> dec_string [] (field_values ''etag'' m);
     kid \<leftarrow> dec_string [] (field_values ''key_id'' m);
     proj \<leftarrow> dec_ptr_string None (field_values ''project_id'' m);
     upd \<leftarrow> dec_time T zero_time (field_values ''updated_at'' m);
     act \<leftarrow> dec_ptr_time T None (field_values ''activity_at'' m);
     cur \<leftarrow> dec_string [] (field_values ''cursor'' m);
     Some \<lparr> bm_ID = i, bm_ETag = etag, bm_KeyID = kid, bm_ProjectID = proj, bm_UpdatedAt = upd,
            bm_ActivityAt = act, bm_Cursor = cur \<rparr> }"

definition dec_blob_delete :: "time_lib \<Rightarrow> json \<Rightarrow> blob_delete option" where
  "dec_blob_delete T j = do {
     m \<leftarrow> struct_members j;
     i \<leftarrow> dec_string [] (field_values ''id'' m);
     scope \<leftarrow> dec_string [] (field_values ''scope'' m);
     del \<leftarrow> dec_time T zero_time (field_values ''deleted_at'' m);
     cur \<leftarrow> dec_string [] (field_values ''cursor'' m);
     Some \<lparr> bd_ID = i, bd_Scope = scope, bd_DeletedAt = del, bd_Cursor = cur \<rparr> }"

definition dec_list_status :: "time_lib \<Rightarrow> (string \<times> json) list \<Rightarrow> list_status_response option" where
  "dec_list_status T m = do {
     ups \<leftarrow> dec_list (dec_blob_meta T) [] (field_values ''updates'' m);
     dels \<leftarrow> dec_list (dec_blob_delete T) [] (field_values ''deletes'' m);
     nxt \<leftarrow> dec_string [] (field_values ''next_cursor'' m);
     Some \<lparr> ls_Updates = ups, ls_Deletes = dels, ls_NextCursor = nxt \<rparr> }"

text \<open>Query parameters are listed in key order; empty optional ones are left out.\<close>

definition query_opt :: "string \<Rightarrow> string \<Rightarrow> (string \<times> string) list" where
  "query_opt k v = (if v = [] then [] else [(k, v)])"

definition ListStatus ::
  "client \<Rightarrow> 's net \<Rightarrow> string \<Rightarrow> string \<Rightarrow> int \<Rightarrow> string \<Rightarrow> string \<Rightarrow> string \<Rightarrow> string \<Rightarrow>
   ('s, list_status_response) op" where
  "ListStatus c N scope cursor limit jwt clerkUserID projectID direction =
     (let limit' = (if limit \<le> 0 \<or> 500 < limit then 100 else limit);
          q = query_opt ''cursor'' cursor @ query_opt ''direction'' direction
              @ [(''limit'', itoa limit')] @ query_opt ''project_id'' projectID @ [(''scope'', scope)]
      in op_bind (send c N ''GET'' (cl_baseURL c @ ''/api/sync/list-status?'' @ query_encode q) []
                    (addAuth jwt clerkUserID)) (\<lambda>resp.
         case read_limited (32 * MiB) resp of (body, readErr) \<Rightarrow>
           if readErr then op_err read_err
           else if rs_Status resp \<ge> 400 then op_err (parseError (rs_Status resp) body)
           else case unmarshal (dec_list_status (net_time N)) body of
                  None \<Rightarrow> op_err (wrap_prefix ''controlplane: decode list-status: '' json_err)
                | Some out \<Rightarrow> op_ret out))"

definition getSyncJSON ::
  "client \<Rightarrow> 's net \<Rightarrow> string \<Rightarrow> (string \<times> string) list \<Rightarrow> string \<Rightarrow> string \<Rightarrow>
   ((string \<times> json) list \<Rightarrow> 'a option) \<Rightarrow> ('s, 'a) op" where
  "getSyncJSON c N path query jwt clerkUserID dec =
     (let endpoint = cl_baseURL c @ path @ (if query = [] then [] else ''?'' @ query_encode query)
      in op_bind (send c N ''GET'' endpoint [] (addAuth jwt clerkUserID)) (\<lambda>resp.
         case read_limited (maxSyncJSONResponseBytes + 1) resp of (body, readErr) \<Rightarrow>
           if readErr then op_err read_err
           else if length body > maxSyncJSONResponseBytes
           then op_err (ENew (''controlplane: response for '' @ path @ '' exceeds ''
                              @ itoa (int maxSyncJSONResponseBytes) @ '' bytes''))
           else if rs_Status resp \<ge> 400 then op_err (parseError (rs_Status resp) body)
           else case unmarshal dec body of
                  None \<Rightarrow> op_err (wrap_prefix (''controlplane: decode '' @ path @ '': '') json_err)
                | Some out \<Rightarrow> op_ret out))"

definition RevisionSummary :: "client \<Rightarrow> 's net \<Rightarrow> string \<Rightarrow> string \<Rightarrow> ('s, string \<times> string) op" where
  "RevisionSummary c N jwt clerkUserID =
     getSyncJSON c N RevisionSummaryPath [] jwt clerkUserID (\<lambda>m. do {
       cur \<leftarrow> dec_string [] (field_values ''current_revision'' m);
       old \<leftarrow> dec_string [] (field_values ''oldest_replayable_revision'' m);
       Some (cur, old) })"

record revision_event =
  re_Revision :: string
  re_Kind :: string
  re_ID :: string
  re_ETag :: string
  re_KeyID :: string
  re_ProjectID :: "string option"
  re_UpdatedAt :: string

definition dec_revision_event :: "json \<Rightarrow> revision_event option" where
  "dec_revision_event j = do {
     m \<leftarrow> struct_members j;
     rev \<leftarrow> dec_string [] (field_values ''revision'' m);
     kind \<leftarrow> dec_string [] (field_values ''kind'' m);
     i \<leftarrow> dec_string [] (field_values ''id'' m);
     etag \<leftarrow> dec_string [] (field_values ''etag'' m);
     kid \<leftarrow> dec_string [] (field_values ''key_id'' m);
     proj \<leftarrow> dec_ptr_string None (field_values ''project_id'' m);
     upd \<leftarrow> dec_string [] (field_values ''updated_at'' m);
     Some \<lparr> re_Revision = rev, re_Kind = kind, re_ID = i, re_ETag = etag, re_KeyID = kid,
            re_ProjectID = proj, re_UpdatedAt = upd \<rparr> }"

definition query_limit :: "int option \<Rightarrow> (string \<times> string) list" where
  "query_limit limit = (case limit of None \<Rightarrow> [] | Some n \<Rightarrow> [(''limit'', itoa n)])"

definition RevisionEvents ::
  "client \<Rightarrow> 's net \<Rightarrow> string \<Rightarrow> string \<Rightarrow> string \<Rightarrow> int option \<Rightarrow> string \<Rightarrow> string \<Rightarrow>
   ('s, revision_event list \<times> string) op" where
  "RevisionEvents c N afterRevision throughRevision cursor limit jwt clerkUserID =
     getSyncJSON c N RevisionEventsPath
       ([(''after_revision'', afterRevision)] @ query_opt ''cursor'' cursor @ query_limit limit
        @ [(''through_revision'', throughRevision)]) jwt clerkUserID (\<lambda>m. do {
         evs \<leftarrow> dec_list dec_revision_event [] (field_values ''events'' m);
         nxt \<leftarrow> dec_string [] (field_values ''next_cursor'' m);
         Some (evs, nxt) })"

record revision_snapshot_item =
  rsi_ID :: string
  rsi_ETag :: string
  rsi_KeyID :: string
  rsi_ProjectID :: "string option"
  rsi_UpdatedAt :: string
  rsi_ActivityAt :: string

definition dec_snapshot_item :: "json \<Rightarrow> revision_snapshot_item option" where
  "dec_snapshot_item j = do {
     m \<leftarrow> struct_members j;
     i \<leftarrow> dec_string [] (field_values ''id'' m);
     etag \<leftarrow> dec_string [] (field_values ''etag'' m);
     kid \<leftarrow> dec_string [] (field_values ''key_id'' m);
     proj \<leftarrow> dec_ptr_string None (field_values ''project_id'' m);
     upd \<leftarrow> dec_string [] (field_values ''updated_at'' m);
     act \<leftarrow> dec_string [] (field_values ''activity_at'' m);
     Some \<lparr> rsi_ID = i, rsi_ETag = etag, rsi_KeyID = kid, rsi_ProjectID = proj,
            rsi_UpdatedAt = upd, rsi_ActivityAt = act \<rparr> }"

definition RevisionSnapshot ::
  "client \<Rightarrow> 's net \<Rightarrow> string \<Rightarrow> int option \<Rightarrow> string \<Rightarrow> string \<Rightarrow>
   ('s, revision_snapshot_item list \<times> string \<times> string) op" where
  "RevisionSnapshot c N cursor limit jwt clerkUserID =
     getSyncJSON c N RevisionSnapshotPath (query_opt ''cursor'' cursor @ query_limit limit)
       jwt clerkUserID (\<lambda>m. do {
         items \<leftarrow> dec_list dec_snapshot_item [] (field_values ''items'' m);
         rev \<leftarrow> dec_string [] (field_values ''snapshot_revision'' m);
         nxt \<leftarrow> dec_string [] (field_values ''next_cursor'' m);
         Some (items, rev, nxt) })"

section \<open>Paths identify rows\<close>

lemma splitProjectDocID_Some:
  assumes "splitProjectDocID bid = Some (p, d)"
  shows "bid = p @ ''/'' @ d \<and> p \<noteq> [] \<and> d \<noteq> [] \<and> CHR ''/'' \<notin> set p"
proof -
  from assms obtain i where i: "index_byte bid (CHR ''/'') = Some i" "0 < i" "i \<noteq> length bid - 1"
    and pd: "p = take i bid" "d = drop (Suc i) bid"
    by (auto simp: splitProjectDocID_def split: option.splits if_splits)
  have "bid = p @ CHR ''/'' # d" using index_byte_split [OF i(1)] pd by simp
  moreover have "i < length bid" "CHR ''/'' \<notin> set p" using index_byte_Some [OF i(1)] pd by auto
  ultimately show ?thesis using i pd by auto
qed

lemma splitProjectDocID_join:
  assumes "CHR ''/'' \<notin> set p" "p \<noteq> []" "d \<noteq> []"
  shows "splitProjectDocID (p @ ''/'' @ d) = Some (p, d)"
  using assms by (simp add: splitProjectDocID_def index_byte_append)

lemma slash_split_unique:
  assumes "CHR ''/'' \<notin> set p" "CHR ''/'' \<notin> set q" "p @ CHR ''/'' # r = q @ CHR ''/'' # s"
  shows "p = q \<and> r = s"
proof -
  have "length p = length q"
    using index_byte_append [OF assms(1), of r] index_byte_append [OF assms(2), of s] assms(3) by simp
  then show ?thesis using assms(3) by simp
qed

text \<open>
  The path of a blob request names its row: two rows with the same path are of the same scope
  and, unless that is the singleton profile scope, have the same id; and no blob path is the
  path that deletes all projects.
\<close>

theorem PathFor_inject:
  assumes "PathFor scope i = Inr p"
  shows "p \<noteq> DeleteAllProjectsPath \<and>
    (PathFor scope' i' = Inr p \<longrightarrow> scope = scope' \<and> (scope = ''profile'' \<or> i = i'))"
proof -
  have pd: "x = x'" if "splitProjectDocID x = Some (a, b)" "splitProjectDocID x' = Some (a', b')"
    "path_escape a @ CHR ''/'' # path_escape b = path_escape a' @ CHR ''/'' # path_escape b'" for x x' a b a' b'
  proof -
    have "path_escape a = path_escape a' \<and> path_escape b = path_escape b'"
      using slash_split_unique [OF path_escape_no_slash path_escape_no_slash that(3)] .
    then show ?thesis using that(1,2) by (auto simp: path_escape_inject dest!: splitProjectDocID_Some)
  qed
  have "p \<noteq> DeleteAllProjectsPath" using assms
    by (auto simp: PathFor_def DeleteAllProjectsPath_def split: if_splits option.splits)
  moreover have "PathFor scope' i' = Inr p \<Longrightarrow> scope = scope' \<and> (scope = ''profile'' \<or> i = i')"
    using assms pd
    by (simp add: PathFor_def split: if_splits option.splits) (auto simp: path_escape_inject)
  ultimately show ?thesis by blast
qed

theorem PathFor_inject_witness:
  "PathFor ''project_document'' ''p/d'' = Inr ''/api/sync/blob/project_document/p/d''
   \<and> (''/api/sync/blob/project_document/p/d'' \<noteq> DeleteAllProjectsPath)"
proof -
  have "PathFor ''project_document'' ''p/d'' = Inr ''/api/sync/blob/project_document/p/d''"
    by code_simp
  with PathFor_inject [OF this] show ?thesis by blast
qed

section \<open>The bounded write\<close>

text \<open>The same world, with a log of the requests it was sent, the latest first.\<close>

definition net_log :: "'s net \<Rightarrow> ('s \<times> http_request list) net" where
  "net_log N =
     \<lparr> net_url_ok = net_url_ok N,
       net_do = (\<lambda>req (s, l). case net_do N req s of (r, s') \<Rightarrow> (r, (s', req # l))),
       net_ctx_err = (\<lambda>(s, l). net_ctx_err N s), net_time = net_time N \<rparr>"

lemma net_log_do:
  "net_do (net_log N) q (s, l) = (fst (net_do N q s), (snd (net_do N q s), q # l))"
  by (simp add: net_log_def split: prod.splits)

lemma net_log_simps [simp]:
  "net_url_ok (net_log N) = net_url_ok N" "net_time (net_log N) = net_time N"
  "net_ctx_err (net_log N) (s, l) = net_ctx_err N s"
  by (simp_all add: net_log_def)

definition wire :: "client \<Rightarrow> string \<Rightarrow> string \<Rightarrow> bytes \<Rightarrow> (header_list \<Rightarrow> header_list) \<Rightarrow> http_request" where
  "wire c meth url body hs = \<lparr> rq_Method = meth, rq_URL = url,
     rq_Header = header_opt HeaderServiceSecret (cl_serviceSecret c) (hs []), rq_Body = body \<rparr>"

lemma send_log:
  assumes "send c (net_log N) meth url body hs (s, l) = (r, (s', l'))"
  shows "(\<exists>e. r = Inl e \<and> l' = l \<and> s' = s) \<or> l' = wire c meth url body hs # l"
proof -
  have "rq_set (header_opt HeaderServiceSecret (cl_serviceSecret c))
      (rq_set hs \<lparr> rq_Method = meth, rq_URL = url, rq_Header = [], rq_Body = body \<rparr>) = wire c meth url body hs"
    by (simp add: wire_def rq_set_def)
  then show ?thesis using assms
    by (auto simp: send_def NewRequest_def doRequest_def op_bind_def op_try_def net_log_do
        split: if_splits sum.splits prod.splits)
qed

definition putBlobWire :: "client \<Rightarrow> 's net \<Rightarrow> put_blob_request \<Rightarrow> string \<Rightarrow> http_request" where
  "putBlobWire c N req url =
     \<lparr> rq_Method = ''PUT'', rq_URL = url,
       rq_Header = header_opt HeaderServiceSecret (cl_serviceSecret c)
                     (putBlobHeaders (net_time N) req []),
       rq_Body = pb_Ciphertext req \<rparr>"

lemma putBlobOnce_log:
  assumes "putBlobOnce c (net_log N) req (s, l) = (r, (s', l'))"
  shows "(l' = l \<and> s' = s \<and> (\<exists>e. r = Inl e \<and> \<not> errors_as_ambiguous e))
    \<or> (\<exists>url. urlFor c (pb_Scope req) (pb_ID req) = Inr url \<and> l' = putBlobWire c N req url # l)"
proof (cases "urlFor c (pb_Scope req) (pb_ID req)")
  case (Inl e)
  then have "\<not> errors_as_ambiguous e"
    by (auto simp: urlFor_def PathFor_def rbind_def split: if_splits sum.splits option.splits)
  then show ?thesis using assms Inl by (auto simp: putBlobOnce_def)
next
  case (Inr url)
  show ?thesis
  proof (cases "net_url_ok N url")
    case False
    then show ?thesis using assms Inr by (auto simp: putBlobOnce_def NewRequest_def net_log_def)
  next
    case True
    let ?w = "rq_set (header_opt HeaderServiceSecret (cl_serviceSecret c))
      (rq_set (putBlobHeaders (net_time N) req)
        \<lparr> rq_Method = ''PUT'', rq_URL = url, rq_Header = [], rq_Body = pb_Ciphertext req \<rparr>)"
    have w: "?w = putBlobWire c N req url" by (simp add: putBlobWire_def rq_set_def)
    have l: "net_do (net_log N) q (s, l) = (fst (net_do N q s), (snd (net_do N q s), q # l))" for q
      by (simp add: net_log_def split: prod.splits)
    show ?thesis using assms Inr True w
      by (auto simp: putBlobOnce_def NewRequest_def op_try_def doRequest_def l Let_def
          net_log_def [of N, THEN arg_cong [where f = net_url_ok]]
          net_log_def [of N, THEN arg_cong [where f = net_time]]
          split: sum.splits prod.splits if_splits)
  qed
qed

lemma putBlobLoop_log:
  "putBlobLoop n c (net_log N) req (s, l) = (r, (s', l')) \<Longrightarrow>
   \<exists>k \<le> n. \<exists>url. l' = replicate k (putBlobWire c N req url) @ l
     \<and> (k \<noteq> 0 \<longrightarrow> urlFor c (pb_Scope req) (pb_ID req) = Inr url)"
proof (induction n arbitrary: s l)
  case (Suc n)
  have ctx: "net_ctx_err (net_log N) (s, l) = net_ctx_err N s" by (simp add: net_log_def)
  show ?case
  proof (cases "net_ctx_err N s")
    case True
    then show ?thesis using Suc.prems ctx by auto
  next
    case False
    obtain r1 s1 l1 where once: "putBlobOnce c (net_log N) req (s, l) = (r1, (s1, l1))"
      by (metis surj_pair)
    from putBlobOnce_log [OF once] show ?thesis
    proof (elim disjE exE conjE)
      fix e assume "l1 = l" "r1 = Inl e" "\<not> errors_as_ambiguous e"
      then show ?thesis using Suc.prems ctx False once by auto
    next
      fix url assume u: "urlFor c (pb_Scope req) (pb_ID req) = Inr url"
        and l1: "l1 = putBlobWire c N req url # l"
      show ?thesis
      proof (cases "(r1, (s1, l1)) = (r, (s', l')) \<or> l' = l1")
        case True
        then show ?thesis using u l1 by (intro exI [of _ "Suc 0"] conjI) auto
      next
        case False
        then have "putBlobLoop n c (net_log N) req (s1, l1) = (r, (s', l'))"
          using Suc.prems ctx \<open>\<not> net_ctx_err N s\<close> once
          by (auto split: sum.splits if_splits)
        from Suc.IH [OF this] obtain k url' where k: "k \<le> n"
          "l' = replicate k (putBlobWire c N req url') @ l1"
          "k \<noteq> 0 \<longrightarrow> urlFor c (pb_Scope req) (pb_ID req) = Inr url'" by blast
        have "l' = replicate (Suc k) (putBlobWire c N req url) @ l"
          using k u l1 by (cases k) (auto simp: replicate_app_Cons_same)
        then show ?thesis using k(1) u by (intro exI [of _ "Suc k"]) auto
      qed
    qed
  qed
qed auto

lemma putBlobAnswer_Inr: "putBlobAnswer req resp body = Inr x \<Longrightarrow> pr_ETag x \<noteq> []"
  by (auto simp: putBlobAnswer_def Let_def split: option.splits if_splits)

lemma putBlobAnswer_Inl: "putBlobAnswer req resp body = Inl e \<Longrightarrow>
   errors_as_ambiguous e \<and> \<not> errors_as_outcome_unknown e"
  by (auto simp: putBlobAnswer_def Let_def json_err_def split: option.splits if_splits)

text \<open>The structured error that \<open>parseError\<close> always returns.\<close>

definition cp_error_of :: "int \<Rightarrow> bytes \<Rightarrow> cp_error" where
  "cp_error_of st body = (case errors_as_cp (parseError st body) of Some e \<Rightarrow> e | None \<Rightarrow> zero_cp_error)"

lemma parseError_ECp: "parseError st body = ECp (cp_error_of st body)"
  by (auto simp: cp_error_of_def parseError_def split: option.splits)

lemma cp_error_of_status [simp]: "cpe_StatusCode (cp_error_of st body) = st"
  by (auto simp: cp_error_of_def parseError_def split: option.splits)

lemma putBlobOnce_outcome:
  assumes "putBlobOnce c N req s = (r, s')"
  shows "(\<forall>x. r = Inr x \<longrightarrow> pr_ETag x \<noteq> [])
    \<and> (\<forall>e. r = Inl e \<longrightarrow> \<not> errors_as_ambiguous e \<longrightarrow>
         \<not> errors_as_outcome_unknown e \<and> (s' = s \<or> (\<exists>c. e = ECp c \<and> 400 \<le> cpe_StatusCode c
            \<and> \<not> isRetryablePutBlobStatus (cpe_StatusCode c))))"
proof (cases "urlFor c (pb_Scope req) (pb_ID req)")
  case (Inl e)
  then have "\<not> errors_as_outcome_unknown e"
    by (auto simp: urlFor_def PathFor_def rbind_def split: if_splits sum.splits option.splits)
  then show ?thesis using assms Inl by (auto simp: putBlobOnce_def)
next
  case (Inr url)
  show ?thesis using assms Inr
    by (auto simp: putBlobOnce_def NewRequest_def op_try_def Let_def parseError_ECp
        dest: putBlobAnswer_Inr putBlobAnswer_Inl
        split: sum.splits prod.splits if_splits)
qed

lemma putBlobLoop_outcome:
  "putBlobLoop n c N req s = (r, s') \<Longrightarrow> 0 < n \<Longrightarrow>
   (\<forall>x. r = Inr x \<longrightarrow> pr_ETag x \<noteq> [])
   \<and> (\<forall>e. r = Inl e \<longrightarrow> errors_as_ambiguous e = errors_as_outcome_unknown e \<and> e \<noteq> ENew ''unreachable'')"
proof (induction n arbitrary: s)
  case (Suc n)
  show ?case
  proof (cases "net_ctx_err N s")
    case True
    then show ?thesis using Suc.prems by auto
  next
    case False
    obtain r1 s1 where once: "putBlobOnce c N req s = (r1, s1)" by (metis surj_pair)
    note o = putBlobOnce_outcome [OF once]
    have unreach: "r1 \<noteq> Inl (ENew ''unreachable'')"
      using once by (auto simp: putBlobOnce_def op_bind_eq_Inl op_try_def urlFor_def PathFor_def
          NewRequest_def rbind_def Let_def parseError_ECp op_lift_def
          split: if_splits sum.splits option.splits prod.splits dest: putBlobAnswer_Inl)
    show ?thesis using Suc.prems Suc.IH [of s1] False once o unreach
      by (auto split: sum.splits if_splits)
  qed
qed simp

text \<open>
  A blob write that is not a rewrap reaches the controlplane at most twice, and a second
  attempt repeats the first to the byte (method, URL, headers with the same precondition and
  idempotency key, and ciphertext), because the loop is the only layer that resends.
\<close>

theorem PutBlob_at_most_twice:
  assumes "\<not> pb_Rewrap req" "PutBlob c (net_log N) req (s, []) = (r, (s', l))"
  shows "\<exists>k \<le> 2. \<exists>url. l = replicate k (putBlobWire c N req url)
     \<and> (k \<noteq> 0 \<longrightarrow> urlFor c (pb_Scope req) (pb_ID req) = Inr url)"
  using putBlobLoop_log [of PutBlobMaxAttempts c N req s "[]" r s' l] assms
  by (simp add: PutBlob_def PutBlobMaxAttempts_def)


text \<open>A world in which every request is answered with the status 503, and one blob request.\<close>

definition down_net :: "nat net" where
  "down_net = \<lparr> net_url_ok = (\<lambda>_. True),
     net_do = (\<lambda>_ n. (Inr \<lparr> rs_Status = 503, rs_Header = [], rs_Body = [], rs_Broken = False \<rparr>, Suc n)),
     net_ctx_err = (\<lambda>_. False),
     net_time = \<lparr> tm_parse = (\<lambda>_. None), tm_format = (\<lambda>_. []) \<rparr> \<rparr>"

definition example_client :: client where
  "example_client = \<lparr> cl_baseURL = ''https://cp'', cl_serviceSecret = ''s'' \<rparr>"

definition example_put :: put_blob_request where
  "example_put = \<lparr> pb_Scope = ''chat'', pb_ID = ''c1'', pb_JWT = ''j'', pb_ClerkUserID = ''u'',
     pb_KeyIDHex = ''k'', pb_IfMatch = ''1'', pb_IdempotencyKey = ''i'', pb_OperationHash = ''h'',
     pb_RequestID = [], pb_ProfileSyncProtocol = 0, pb_Rewrap = False, pb_Ciphertext = ''ct'',
     pb_ProjectIDSet = False, pb_ProjectID = None, pb_AttachmentRefs = Some [], pb_ActivityAt = None \<rparr>"

lemma example_put_log:
  "\<exists>l. PutBlob example_client (net_log down_net) example_put (0, []) =
     (Inl (EOutcomeUnknown (EAmbiguous PutBlobUpstreamFailure (parseError 503 []))), (2, l)) \<and> length l = 2"
  by (simp add: PutBlob_def PutBlobMaxAttempts_def numeral_2_eq_2 putBlobOnce_def op_bind_def op_try_def
      urlFor_def PathFor_def NewRequest_def doRequest_def net_log_def down_net_def example_put_def
      example_client_def read_limited_def isRetryablePutBlobStatus_def Let_def op_lift_def)

theorem PutBlob_at_most_twice_witness:
  "\<exists>r s' l. \<not> pb_Rewrap example_put
     \<and> PutBlob example_client (net_log down_net) example_put (0, []) = (r, (s', l))
     \<and> length l = 2 \<and> (\<exists>k \<le> 2. \<exists>url. l = replicate k (putBlobWire example_client down_net example_put url))"
proof -
  obtain r s' l where p: "PutBlob example_client (net_log down_net) example_put (0, []) = (r, (s', l))"
    and l: "length l = 2" using example_put_log by metis
  have "\<not> pb_Rewrap example_put" by (simp add: example_put_def)
  with PutBlob_at_most_twice [OF this p] p l show ?thesis by blast
qed


end
