(* ===== verification/Controlplane_Registry.thy ===== *)
theory Controlplane_Registry
  imports Controlplane
begin

text \<open>
  The second half of \<^verbatim>\<open>internal/controlplane/client.go\<close>: search-index state and publication,
  migration bookkeeping, the key registry with its passkey bundles, and the attachment and
  background-worker calls.
\<close>

section \<open>Search index\<close>

record publish_search_index_request =
  ps_JWT :: string
  ps_ClerkUserID :: string
  ps_ExpectedGeneration :: int
  ps_ExpectedFence :: int
  ps_CoveredSourceRevision :: int
  ps_ObjectKey :: string
  ps_KeyID :: string
  ps_Model :: string
  ps_Incomplete :: bool

definition dec_search_state :: "(string \<times> json) list \<Rightarrow> search_index_state option" where
  "dec_search_state m = do {
     src \<leftarrow> dec_int 0 (field_values ''source_revision'' m);
     gen \<leftarrow> dec_int 0 (field_values ''publication_generation'' m);
     fence \<leftarrow> dec_int 0 (field_values ''fence_generation'' m);
     pub \<leftarrow> dec_int 0 (field_values ''published_source_revision'' m);
     obj \<leftarrow> dec_string [] (field_values ''object_key'' m);
     kid \<leftarrow> dec_string [] (field_values ''key_id'' m);
     model \<leftarrow> dec_string [] (field_values ''model'' m);
     inc \<leftarrow> dec_bool False (field_values ''incomplete'' m);
     pinc \<leftarrow> dec_bool False (field_values ''publication_incomplete'' m);
     Some \<lparr> sis_SourceRevision = src, sis_PublicationGeneration = gen, sis_FenceGeneration = fence,
            sis_PublishedSourceRevision = pub, sis_ObjectKey = obj, sis_KeyID = kid,
            sis_Model = model, sis_Incomplete = inc, sis_PublicationIncomplete = pinc \<rparr> }"

definition zero_search_state :: search_index_state where
  "zero_search_state = \<lparr> sis_SourceRevision = 0, sis_PublicationGeneration = 0,
     sis_FenceGeneration = 0, sis_PublishedSourceRevision = 0, sis_ObjectKey = [], sis_KeyID = [],
     sis_Model = [], sis_Incomplete = False, sis_PublicationIncomplete = False \<rparr>"

definition GetSearchIndexState ::
  "client \<Rightarrow> 's net \<Rightarrow> string \<Rightarrow> string \<Rightarrow> ('s, search_index_state) op" where
  "GetSearchIndexState c N jwt clerkUserID =
     op_bind (send c N ''GET'' (cl_baseURL c @ SearchIndexStatePath) [] (addAuth jwt clerkUserID)) (\<lambda>resp.
     case read_limited MiB resp of (body, readErr) \<Rightarrow>
       if readErr then op_err read_err
       else if rs_Status resp \<ge> 400 then op_err (parseError (rs_Status resp) body)
       else case unmarshal dec_search_state body of
              None \<Rightarrow> op_err (wrap_prefix ''controlplane: decode search index state: '' json_err)
            | Some st \<Rightarrow> op_ret st)"

definition publish_body :: "publish_search_index_request \<Rightarrow> bytes" where
  "publish_body req =
     json_encode (json_map
       [(''expected_generation'', JNum (itoa (ps_ExpectedGeneration req))),
        (''expected_fence'', JNum (itoa (ps_ExpectedFence req))),
        (''covered_source_revision'', JNum (itoa (ps_CoveredSourceRevision req))),
        (''object_key'', JStr (ps_ObjectKey req)), (''key_id'', JStr (ps_KeyID req)),
        (''model'', JStr (ps_Model req)), (''incomplete'', JBool (ps_Incomplete req))])"

text \<open>The body of a 409 answer; a nested \<^verbatim>\<open>state\<close> object is decoded member by member.\<close>

definition dec_conflict :: "(string \<times> json) list \<Rightarrow> (string \<times> search_index_state) option" where
  "dec_conflict m = do {
     code \<leftarrow> dec_string [] (field_values ''code'' m);
     ms \<leftarrow> all_some (map struct_members (field_values ''state'' m));
     st \<leftarrow> dec_search_state (concat ms);
     Some (code, st) }"

definition PublishSearchIndex ::
  "client \<Rightarrow> 's net \<Rightarrow> publish_search_index_request \<Rightarrow> ('s, search_index_state) op" where
  "PublishSearchIndex c N req =
     op_bind (send c N ''PUT'' (cl_baseURL c @ SearchIndexStatePath) (publish_body req)
                (\<lambda>h. header_set HeaderContentType ''application/json''
                       (addAuth (ps_JWT req) (ps_ClerkUserID req) h))) (\<lambda>resp.
     case read_limited MiB resp of (respBody, readErr) \<Rightarrow>
       if readErr then op_err read_err
       else let conflict = (if rs_Status resp = 409 then unmarshal dec_conflict respBody else None)
            in case conflict of
                 Some (code, st) \<Rightarrow>
                   if code = StatusSearchIndexConflict then op_err (ESearchConflict st)
                   else op_err (parseError (rs_Status resp) respBody)
               | None \<Rightarrow>
                   if rs_Status resp \<ge> 400 then op_err (parseError (rs_Status resp) respBody)
                   else (case unmarshal dec_search_state respBody of
                           None \<Rightarrow> op_err (wrap_prefix
                                    ''controlplane: decode published search index state: '' json_err)
                         | Some st \<Rightarrow> op_ret st))"

section \<open>Migration bookkeeping\<close>

record list_needs_migration_response =
  nm_IDs :: "string list"
  nm_RetryableRemaining :: int
  nm_BlockedUnmigrated :: int

definition ListNeedsMigration ::
  "client \<Rightarrow> 's net \<Rightarrow> string \<Rightarrow> int \<Rightarrow> string \<Rightarrow> string \<Rightarrow> ('s, list_needs_migration_response) op" where
  "ListNeedsMigration c N scope limit jwt clerkUserID =
     op_bind (send c N ''GET''
                (cl_baseURL c @ ''/api/sync/needs-migration?''
                 @ query_encode [(''limit'', itoa limit), (''scope'', scope)]) []
                (addAuth jwt clerkUserID)) (\<lambda>resp.
     case read_limited (4 * MiB) resp of (body, readErr) \<Rightarrow>
       if readErr then op_err read_err
       else if rs_Status resp \<ge> 400 then op_err (parseError (rs_Status resp) body)
       else case unmarshal (\<lambda>m. do {
                   ids \<leftarrow> dec_strings [] (field_values ''ids'' m);
                   r \<leftarrow> dec_int 0 (field_values ''retryable_remaining'' m);
                   b \<leftarrow> dec_int 0 (field_values ''blocked_unmigrated'' m);
                   Some \<lparr> nm_IDs = ids, nm_RetryableRemaining = r, nm_BlockedUnmigrated = b \<rparr> }) body of
              None \<Rightarrow> op_err (wrap_prefix ''controlplane: decode needs-migration: '' json_err)
            | Some out \<Rightarrow> op_ret out)"

text \<open>A POST whose success body is ignored.\<close>

definition post_ignoring :: "http_response \<Rightarrow> ('s, unit) op" where
  "post_ignoring resp =
     (if rs_Status resp \<ge> 400 then op_err (parseError (rs_Status resp) (fst (read_limited MiB resp)))
      else op_ret ())"

definition RecordMigrationFailure ::
  "client \<Rightarrow> 's net \<Rightarrow> string \<Rightarrow> string \<Rightarrow> string \<Rightarrow> string \<Rightarrow> ('s, unit) op" where
  "RecordMigrationFailure c N scope bid jwt clerkUserID =
     op_bind (send c N ''POST'' (cl_baseURL c @ ''/api/sync/migration-failure'')
                (json_encode (json_map [(''scope'', JStr scope), (''id'', JStr bid)]))
                (\<lambda>h. header_set HeaderContentType ''application/json'' (addAuth jwt clerkUserID h)))
       post_ignoring"

definition BackfillChatActivity ::
  "client \<Rightarrow> 's net \<Rightarrow> string \<Rightarrow> string \<Rightarrow> string \<Rightarrow> string \<Rightarrow> gtime \<Rightarrow> ('s, unit) op" where
  "BackfillChatActivity c N jwt clerkUserID bid etag activityAt =
     op_bind (send c N ''POST'' (cl_baseURL c @ ChatActivityPath)
                (json_encode (json_map [(''id'', JStr bid), (''etag'', JStr etag),
                   (''activity_at'', JStr (tm_format (net_time N) activityAt))]))
                (\<lambda>h. header_set HeaderContentType ''application/json'' (addAuth jwt clerkUserID h)))
       post_ignoring"

section \<open>Key registry\<close>

record current_key_bundle =
  kb_CredentialID :: string
  kb_KEKIV :: string
  kb_EncryptedKeys :: string
  kb_RegisteredAt :: string

record current_key_response =
  ck_KeyID :: string
  ck_ETag :: string
  ck_Bundles :: "(string \<times> current_key_bundle) list"
  ck_CreatedVia :: string
  ck_CreatedAt :: string
  ck_HasData :: bool

definition dec_bundle :: "json \<Rightarrow> current_key_bundle option" where
  "dec_bundle j = do {
     m \<leftarrow> struct_members j;
     cid \<leftarrow> dec_string [] (field_values ''credential_id'' m);
     iv \<leftarrow> dec_string [] (field_values ''kek_iv'' m);
     ek \<leftarrow> dec_string [] (field_values ''encrypted_keys'' m);
     reg \<leftarrow> dec_string [] (field_values ''registered_at'' m);
     Some \<lparr> kb_CredentialID = cid, kb_KEKIV = iv, kb_EncryptedKeys = ek, kb_RegisteredAt = reg \<rparr> }"

text \<open>A JSON object decoded into a map: later members replace earlier ones of the same key.\<close>

fun dec_bundle_map ::
  "(string \<times> current_key_bundle) list \<Rightarrow> (string \<times> json) list \<Rightarrow> (string \<times> current_key_bundle) list option"
  where
  "dec_bundle_map acc [] = Some acc"
| "dec_bundle_map acc ((k, v) # r) =
     (case dec_bundle v of None \<Rightarrow> None | Some b \<Rightarrow> dec_bundle_map (al_set k b acc) r)"

fun dec_bundles ::
  "(string \<times> current_key_bundle) list \<Rightarrow> json list \<Rightarrow> (string \<times> current_key_bundle) list option" where
  "dec_bundles cur [] = Some cur"
| "dec_bundles cur (v # vs) =
     (case v of
        JObj m \<Rightarrow> (case dec_bundle_map cur m of Some b \<Rightarrow> dec_bundles b vs | None \<Rightarrow> None)
      | JNull \<Rightarrow> dec_bundles [] vs
      | _ \<Rightarrow> None)"

definition dec_current_key :: "(string \<times> json) list \<Rightarrow> current_key_response option" where
  "dec_current_key m = do {
     kid \<leftarrow> dec_string [] (field_values ''key_id'' m);
     etag \<leftarrow> dec_string [] (field_values ''etag'' m);
     bs \<leftarrow> dec_bundles [] (field_values ''bundles'' m);
     via \<leftarrow> dec_string [] (field_values ''created_via'' m);
     at \<leftarrow> dec_string [] (field_values ''created_at'' m);
     hd \<leftarrow> dec_bool False (field_values ''has_data'' m);
     Some \<lparr> ck_KeyID = kid, ck_ETag = etag, ck_Bundles = bs, ck_CreatedVia = via,
            ck_CreatedAt = at, ck_HasData = hd \<rparr> }"

text \<open>\<open>None\<close> is the nil response of a 404.\<close>

definition GetCurrentKey ::
  "client \<Rightarrow> 's net \<Rightarrow> string \<Rightarrow> string \<Rightarrow> ('s, current_key_response option) op" where
  "GetCurrentKey c N jwt clerkUserID =
     op_bind (send c N ''GET'' (cl_baseURL c @ ''/api/sync/keys/current'') [] (addAuth jwt clerkUserID))
       (\<lambda>resp.
     let body = fst (read_limited (4 * MiB) resp)
     in if rs_Status resp = 404 then op_ret None
        else if rs_Status resp \<ge> 400 then op_err (parseError (rs_Status resp) body)
        else case unmarshal dec_current_key body of
               None \<Rightarrow> op_err (wrap_prefix ''controlplane: decode current-key: '' json_err)
             | Some out \<Rightarrow> op_ret (Some out))"

record register_key_bundle =
  rb_CredentialID :: string
  rb_KEKIV :: string
  rb_EncryptedKeys :: string

record register_key_request =
  rk_JWT :: string
  rk_ClerkUserID :: string
  rk_KeyIDHex :: string
  rk_IfMatch :: string
  rk_CreatedVia :: string
  rk_IdempotencyKey :: string
  rk_OperationHash :: string
  rk_InitialBundle :: "register_key_bundle option"

record register_key_response =
  rkr_OK :: bool
  rkr_KeyID :: string
  rkr_ETag :: string
  rkr_SearchIndexFenced :: bool
  rkr_WipedV2Attachments :: "string list"

definition RegisterKeyBody :: "register_key_request \<Rightarrow> bytes" where
  "RegisterKeyBody req =
     json_encode (json_map
       ([(''key_id'', JStr (rk_KeyIDHex req)), (''created_via'', JStr (rk_CreatedVia req))]
        @ (case rk_InitialBundle req of
             None \<Rightarrow> []
           | Some b \<Rightarrow> [(''initial_bundle'',
                JObj [(''credential_id'', JStr (rb_CredentialID b)), (''kek_iv'', JStr (rb_KEKIV b)),
                      (''encrypted_keys'', JStr (rb_EncryptedKeys b))])])))"

definition RegisterKey :: "client \<Rightarrow> 's net \<Rightarrow> register_key_request \<Rightarrow> ('s, register_key_response) op" where
  "RegisterKey c N req =
     op_bind (send c N ''POST'' (cl_baseURL c @ RegisterKeyPath) (RegisterKeyBody req)
                (\<lambda>h. header_opt HeaderOperationHash (rk_OperationHash req)
                       (header_opt HeaderIdempotency (rk_IdempotencyKey req)
                          (header_opt HeaderIfMatch (rk_IfMatch req)
                             (header_set HeaderContentType ''application/json''
                                (addAuth (rk_JWT req) (rk_ClerkUserID req) h)))))) (\<lambda>resp.
     let respBody = fst (read_limited MiB resp);
         fenced = equal_fold_ascii (header_get (rs_Header resp) HeaderSearchIndexFenced) ''true''
     in if rs_Status resp \<ge> 400 then op_err (parseError (rs_Status resp) respBody)
        else if length respBody > 0 then
          (case unmarshal (\<lambda>m. do {
                  ok \<leftarrow> dec_bool False (field_values ''ok'' m);
                  kid \<leftarrow> dec_string [] (field_values ''key_id'' m);
                  etag \<leftarrow> dec_string [] (field_values ''etag'' m);
                  wiped \<leftarrow> dec_strings [] (field_values ''wiped_v2_attachments'' m);
                  Some \<lparr> rkr_OK = ok, rkr_KeyID = kid, rkr_ETag = etag, rkr_SearchIndexFenced = fenced,
                         rkr_WipedV2Attachments = wiped \<rparr> }) respBody of
             None \<Rightarrow> op_err (wrap_prefix ''controlplane: decode register-key response: '' json_err)
           | Some out \<Rightarrow> op_ret out)
        else op_ret \<lparr> rkr_OK = False, rkr_KeyID = [], rkr_ETag = [], rkr_SearchIndexFenced = fenced,
                      rkr_WipedV2Attachments = [] \<rparr>)"

record add_bundle_request =
  ab_JWT :: string
  ab_ClerkUserID :: string
  ab_KeyIDHex :: string
  ab_CredentialID :: string
  ab_KEKIV :: string
  ab_EncryptedKeys :: string
  ab_IdempotencyKey :: string
  ab_OperationHash :: string

definition AddBundleBody :: "add_bundle_request \<Rightarrow> bytes" where
  "AddBundleBody req =
     json_encode (json_map
       [(''credential_id'', JStr (ab_CredentialID req)), (''kek_iv'', JStr (ab_KEKIV req)),
        (''encrypted_keys'', JStr (ab_EncryptedKeys req))])"

definition AddBundle :: "client \<Rightarrow> 's net \<Rightarrow> add_bundle_request \<Rightarrow> ('s, unit) op" where
  "AddBundle c N req =
     op_bind (send c N ''POST'' (cl_baseURL c @ AddBundlePath (ab_KeyIDHex req)) (AddBundleBody req)
                (\<lambda>h. header_opt HeaderOperationHash (ab_OperationHash req)
                       (header_opt HeaderIdempotency (ab_IdempotencyKey req)
                          (header_set HeaderContentType ''application/json''
                             (addAuth (ab_JWT req) (ab_ClerkUserID req) h)))))
       post_ignoring"

record remove_bundle_request =
  mb_JWT :: string
  mb_ClerkUserID :: string
  mb_KeyIDHex :: string
  mb_CredentialID :: string
  mb_IdempotencyKey :: string
  mb_OperationHash :: string

definition RemoveBundle :: "client \<Rightarrow> 's net \<Rightarrow> remove_bundle_request \<Rightarrow> ('s, unit) op" where
  "RemoveBundle c N req =
     op_bind (send c N ''DELETE'' (cl_baseURL c @ RemoveBundlePath (mb_KeyIDHex req) (mb_CredentialID req)) []
                (\<lambda>h. header_opt HeaderOperationHash (mb_OperationHash req)
                       (header_opt HeaderIdempotency (mb_IdempotencyKey req)
                          (addAuth (mb_JWT req) (mb_ClerkUserID req) h))))
       post_ignoring"

section \<open>Attachments\<close>

text \<open>\<^verbatim>\<open>resp.StatusCode/100 != 2\<close>: Go's division truncates towards zero.\<close>

definition not_2xx :: "int \<Rightarrow> bool" where
  "not_2xx st = (\<not> (200 \<le> st \<and> st \<le> 299))"

definition GetLegacyAttachment ::
  "client \<Rightarrow> 's net \<Rightarrow> string \<Rightarrow> string \<Rightarrow> string \<Rightarrow> ('s, bytes \<times> string) op" where
  "GetLegacyAttachment c N jwt clerkUserID attachmentID =
     (if attachmentID = [] then op_err (ENew ''controlplane: attachment id is required'')
      else op_bind (send c N ''GET'' (cl_baseURL c @ ''/api/storage/attachment/'' @ path_escape attachmentID)
                      [] (addAuth jwt clerkUserID)) (\<lambda>resp.
        if rs_Status resp = 404 then op_err (ESent ErrLegacyAttachmentNotFound)
        else if rs_Status resp = 410 then op_err (ESent ErrLegacyAttachmentGone)
        else if not_2xx (rs_Status resp)
        then op_err (parseError (rs_Status resp) (fst (read_limited 4096 resp)))
        else case read_limited (maxLegacyAttachmentBytes + 1) resp of (body, readErr) \<Rightarrow>
               if readErr then op_err read_err
               else if length body > maxLegacyAttachmentBytes
               then op_err (ENew (''controlplane: legacy attachment exceeds ''
                                  @ itoa (int maxLegacyAttachmentBytes) @ '' bytes''))
               else op_ret (body, header_get (rs_Header resp) HeaderLegacyClaim)))"

definition postAttachmentChatID ::
  "client \<Rightarrow> 's net \<Rightarrow> string \<Rightarrow> string \<Rightarrow> string \<Rightarrow> string \<Rightarrow> string \<Rightarrow> ('s, unit) op" where
  "postAttachmentChatID c N jwt clerkUserID attachmentID chatID pathPrefix =
     (if attachmentID = [] then op_err (ENew ''controlplane: attachment id is required'')
      else if chatID = [] then op_err (ENew ''controlplane: chat id is required'')
      else op_bind (send c N ''POST'' (cl_baseURL c @ pathPrefix @ path_escape attachmentID)
                      (json_encode (JObj [(''chat_id'', JStr chatID)]))
                      (\<lambda>h. header_set HeaderContentType ''application/json'' (addAuth jwt clerkUserID h)))
             (\<lambda>resp. if not_2xx (rs_Status resp)
                     then op_err (parseError (rs_Status resp) (fst (read_limited 4096 resp)))
                     else op_ret ()))"

definition RegisterAttachmentIndex ::
  "client \<Rightarrow> 's net \<Rightarrow> string \<Rightarrow> string \<Rightarrow> string \<Rightarrow> string \<Rightarrow> ('s, unit) op" where
  "RegisterAttachmentIndex c N jwt clerkUserID attachmentID chatID =
     postAttachmentChatID c N jwt clerkUserID attachmentID chatID ''/api/sync/attachment-index/''"

definition ReservePendingAttachmentWrite ::
  "client \<Rightarrow> 's net \<Rightarrow> string \<Rightarrow> string \<Rightarrow> string \<Rightarrow> string \<Rightarrow> ('s, unit) op" where
  "ReservePendingAttachmentWrite c N jwt clerkUserID attachmentID chatID =
     postAttachmentChatID c N jwt clerkUserID attachmentID chatID ''/api/sync/pending-attachments/''"

definition DeleteAttachmentIndex ::
  "client \<Rightarrow> 's net \<Rightarrow> string \<Rightarrow> string \<Rightarrow> string \<Rightarrow> ('s, unit) op" where
  "DeleteAttachmentIndex c N jwt clerkUserID attachmentID =
     (if attachmentID = [] then op_err (ENew ''controlplane: attachment id is required'')
      else op_bind (send c N ''DELETE''
                      (cl_baseURL c @ ''/api/sync/attachment-index/'' @ path_escape attachmentID) []
                      (addAuth jwt clerkUserID))
             (\<lambda>resp. if not_2xx (rs_Status resp)
                     then op_err (parseError (rs_Status resp) (fst (read_limited 4096 resp)))
                     else op_ret ()))"

definition ResolveAttachmentOwner :: "client \<Rightarrow> 's net \<Rightarrow> string \<Rightarrow> ('s, string) op" where
  "ResolveAttachmentOwner c N attachmentID =
     (if attachmentID = [] then op_err (ENew ''controlplane: attachment id is required'')
      else op_bind (send c N ''GET'' (cl_baseURL c @ ''/api/sync/attachment-owner/'' @ path_escape attachmentID)
                      [] (\<lambda>h. h)) (\<lambda>resp.
        case read_limited MiB resp of (body, readErr) \<Rightarrow>
          if rs_Status resp = 404 then op_err (ESent ErrAttachmentNotFound)
          else if rs_Status resp \<ge> 400 then op_err (parseError (rs_Status resp) body)
          else if readErr then op_err (wrap_prefix ''controlplane: read attachment owner: '' read_err)
          else case unmarshal (\<lambda>m. dec_string [] (field_values ''clerk_user_id'' m)) body of
                 None \<Rightarrow> op_err (wrap_prefix ''controlplane: decode attachment owner: '' json_err)
               | Some owner \<Rightarrow>
                   if owner = [] then op_err (ESent ErrAttachmentNotFound) else op_ret owner))"

section \<open>Background workers\<close>

record import_outcome =
  io_ClerkUserID :: string
  io_JobID :: string
  io_Source :: string
  io_Status :: string
  io_Imported :: int
  io_Failed :: int
  io_FailureReason :: string
  io_FailureDetail :: string

definition NotifyImportOutcome :: "client \<Rightarrow> 's net \<Rightarrow> import_outcome \<Rightarrow> ('s, unit) op" where
  "NotifyImportOutcome c N out =
     (if io_ClerkUserID out = [] then op_err (ENew ''controlplane: clerk user id is required'')
      else op_bind (send c N ''POST'' (cl_baseURL c @ ''/api/sync/notify-import-complete'')
                      (json_encode (json_map
                         ([(''jobId'', JStr (io_JobID out)), (''source'', JStr (io_Source out)),
                           (''status'', JStr (io_Status out)),
                           (''importedCount'', JNum (itoa (io_Imported out))),
                           (''failedCount'', JNum (itoa (io_Failed out)))]
                          @ (if io_Status out = ''failed'' \<and> io_FailureReason out \<noteq> []
                             then (''failureReason'', JStr (io_FailureReason out))
                                  # (if io_FailureDetail out \<noteq> []
                                     then [(''failureDetail'', JStr (io_FailureDetail out))] else [])
                             else []))))
                      (\<lambda>h. addAuth [] (io_ClerkUserID out)
                             (header_set HeaderContentType ''application/json'' h)))
             (\<lambda>resp. if not_2xx (rs_Status resp)
                     then op_err (parseError (rs_Status resp) (fst (read_limited 4096 resp)))
                     else op_ret ()))"

record pending_attachment_row =
  par_AttachmentID :: string
  par_ChatID :: string
  par_ClerkUserID :: string

definition dec_pending_row :: "json \<Rightarrow> pending_attachment_row option" where
  "dec_pending_row j = do {
     m \<leftarrow> struct_members j;
     a \<leftarrow> dec_string [] (field_values ''attachment_id'' m);
     c \<leftarrow> dec_string [] (field_values ''chat_id'' m);
     u \<leftarrow> dec_string [] (field_values ''clerk_user_id'' m);
     Some \<lparr> par_AttachmentID = a, par_ChatID = c, par_ClerkUserID = u \<rparr> }"

text \<open>The body of a batch call: empty means no rows, otherwise a list under one field.\<close>

definition read_rows ::
  "string \<Rightarrow> string \<Rightarrow> (json \<Rightarrow> 'a option) \<Rightarrow> http_response \<Rightarrow> ('s, 'a list) op" where
  "read_rows what field dec resp =
     (case read_limited MiB resp of (body, readErr) \<Rightarrow>
        if rs_Status resp \<ge> 400 then op_err (parseError (rs_Status resp) body)
        else if readErr then op_err (wrap_prefix (''controlplane: read '' @ what @ '': '') read_err)
        else if blank body then op_ret []
        else case unmarshal (\<lambda>m. dec_list dec [] (field_values field m)) body of
               None \<Rightarrow> op_err (wrap_prefix (''controlplane: decode '' @ what @ '': '') json_err)
             | Some rows \<Rightarrow> op_ret rows)"

definition SweepPendingAttachmentWrites ::
  "client \<Rightarrow> 's net \<Rightarrow> int \<Rightarrow> ('s, pending_attachment_row list) op" where
  "SweepPendingAttachmentWrites c N limit =
     op_bind (send c N ''POST''
                (cl_baseURL c @ ''/api/sync/pending-attachments/sweep?limit=''
                 @ itoa (if limit \<le> 0 then 200 else limit)) [] (\<lambda>h. h))
       (read_rows ''pending attachments sweep'' ''rows'' dec_pending_row)"

record orphan_attachment_row =
  oar_AttachmentID :: string
  oar_ClerkUserID :: string

definition DeleteOrphanedV2Attachments ::
  "client \<Rightarrow> 's net \<Rightarrow> int \<Rightarrow> ('s, orphan_attachment_row list) op" where
  "DeleteOrphanedV2Attachments c N limit =
     op_bind (send c N ''DELETE''
                (cl_baseURL c @ ''/api/sync/orphan-attachments?limit=''
                 @ itoa (if limit \<le> 0 then 500 else limit)) [] (\<lambda>h. h))
       (read_rows ''orphan attachments'' ''attachments'' (\<lambda>j. do {
          m \<leftarrow> struct_members j;
          a \<leftarrow> dec_string [] (field_values ''attachment_id'' m);
          u \<leftarrow> dec_string [] (field_values ''clerk_user_id'' m);
          Some \<lparr> oar_AttachmentID = a, oar_ClerkUserID = u \<rparr> }))"

record search_index_deletion =
  sid_ID :: string
  sid_ClerkUserID :: string
  sid_ObjectKey :: string

definition dec_deletion_claim ::
  "(string \<times> json) list \<Rightarrow> (string \<times> search_index_deletion list) option" where
  "dec_deletion_claim m = do {
     tok \<leftarrow> dec_string [] (field_values ''claim_token'' m);
     ds \<leftarrow> dec_list (\<lambda>j. do {
        d \<leftarrow> struct_members j;
        i \<leftarrow> dec_string [] (field_values ''id'' d);
        u \<leftarrow> dec_string [] (field_values ''clerk_user_id'' d);
        k \<leftarrow> dec_string [] (field_values ''object_key'' d);
        Some \<lparr> sid_ID = i, sid_ClerkUserID = u, sid_ObjectKey = k \<rparr> }) [] (field_values ''deletions'' m);
     Some (tok, ds) }"

definition ClaimSearchIndexDeletions ::
  "client \<Rightarrow> 's net \<Rightarrow> int \<Rightarrow> ('s, string \<times> search_index_deletion list) op" where
  "ClaimSearchIndexDeletions c N batchSize =
     op_bind (send c N ''POST'' (cl_baseURL c @ ''/api/sync/search-index-deletions/claim'')
                (json_encode (JObj [(''batch_size'', JNum (itoa batchSize))]))
                (header_set HeaderContentType ''application/json'')) (\<lambda>resp.
     case read_limited MiB resp of (raw, readErr) \<Rightarrow>
       if rs_Status resp \<ge> 400 then op_err (parseError (rs_Status resp) raw)
       else if readErr
       then op_err (wrap_prefix ''controlplane: read search index deletion claim: '' read_err)
       else case unmarshal dec_deletion_claim raw of
              None \<Rightarrow> op_err (wrap_prefix ''controlplane: decode search index deletion claim: '' json_err)
            | Some out \<Rightarrow> op_ret out)"

text \<open>A string slice as JSON: a nil slice (\<open>None\<close>) is \<^verbatim>\<open>null\<close>.\<close>

definition json_strings :: "string list option \<Rightarrow> json" where
  "json_strings x = (case x of None \<Rightarrow> JNull | Some xs \<Rightarrow> JArr (map JStr xs))"

definition AckSearchIndexDeletions ::
  "client \<Rightarrow> 's net \<Rightarrow> string \<Rightarrow> string list option \<Rightarrow> ('s, unit) op" where
  "AckSearchIndexDeletions c N claimToken ids =
     op_bind (send c N ''POST'' (cl_baseURL c @ ''/api/sync/search-index-deletions/ack'')
                (json_encode (JObj [(''claim_token'', JStr claimToken), (''ids'', json_strings ids)]))
                (header_set HeaderContentType ''application/json'')) (\<lambda>resp.
     case read_limited MiB resp of (raw, readErr) \<Rightarrow>
       if rs_Status resp \<ge> 400 then op_err (parseError (rs_Status resp) raw)
       else if readErr then op_err (wrap_prefix ''controlplane: read search index deletion ack: '' read_err)
       else op_ret ())"

text \<open>
  \<^verbatim>\<open>postJSON\<close>: \<open>zero\<close> is what the output holds when nothing is decoded into it (no output
  expected, or an empty answer).
\<close>

definition postJSON ::
  "client \<Rightarrow> 's net \<Rightarrow> string \<Rightarrow> json \<Rightarrow> 'a \<Rightarrow> ((string \<times> json) list \<Rightarrow> 'a option) option \<Rightarrow> ('s, 'a) op"
  where
  "postJSON c N path inp zero out =
     op_bind (send c N ''POST'' (cl_baseURL c @ path) (json_encode inp)
                (header_set HeaderContentType ''application/json'')) (\<lambda>resp.
     case read_limited MiB resp of (raw, readErr) \<Rightarrow>
       if rs_Status resp \<ge> 400 then op_err (parseError (rs_Status resp) raw)
       else if readErr then op_err (wrap_prefix (''controlplane: read '' @ path @ '': '') read_err)
       else case out of
              None \<Rightarrow> op_ret zero
            | Some dec \<Rightarrow>
                if blank raw then op_ret zero
                else (case unmarshal dec raw of
                        None \<Rightarrow> op_err (wrap_prefix (''controlplane: decode '' @ path @ '': '') json_err)
                      | Some x \<Rightarrow> op_ret x))"

definition PurgeUnreferencedAttachments :: "client \<Rightarrow> 's net \<Rightarrow> int \<Rightarrow> ('s, int) op" where
  "PurgeUnreferencedAttachments c N batchSize =
     postJSON c N ''/api/sync/attachment-purges/purge'' (JObj [(''batch_size'', JNum (itoa batchSize))])
       0 (Some (\<lambda>m. dec_int 0 (field_values ''queued'' m)))"

record attachment_purge =
  ap_AttachmentID :: string
  ap_ClerkUserID :: string
  ap_ChatID :: string

definition dec_purge_claim :: "(string \<times> json) list \<Rightarrow> (string \<times> attachment_purge list) option" where
  "dec_purge_claim m = do {
     tok \<leftarrow> dec_string [] (field_values ''claim_token'' m);
     ps \<leftarrow> dec_list (\<lambda>j. do {
        d \<leftarrow> struct_members j;
        a \<leftarrow> dec_string [] (field_values ''attachment_id'' d);
        u \<leftarrow> dec_string [] (field_values ''clerk_user_id'' d);
        ch \<leftarrow> dec_string [] (field_values ''chat_id'' d);
        Some \<lparr> ap_AttachmentID = a, ap_ClerkUserID = u, ap_ChatID = ch \<rparr> }) [] (field_values ''purges'' m);
     Some (tok, ps) }"

definition ClaimAttachmentPurges ::
  "client \<Rightarrow> 's net \<Rightarrow> int \<Rightarrow> ('s, string \<times> attachment_purge list) op" where
  "ClaimAttachmentPurges c N batchSize =
     postJSON c N ''/api/sync/attachment-purges/claim'' (JObj [(''batch_size'', JNum (itoa batchSize))])
       ([], []) (Some dec_purge_claim)"

definition AckAttachmentPurges ::
  "client \<Rightarrow> 's net \<Rightarrow> string \<Rightarrow> string list option \<Rightarrow> ('s, unit) op" where
  "AckAttachmentPurges c N claimToken attachmentIDs =
     postJSON c N ''/api/sync/attachment-purges/ack''
       (JObj [(''claim_token'', JStr claimToken), (''attachment_ids'', json_strings attachmentIDs)])
       () None"

end
