(* ===== verification/Server_Base.thy ===== *)
theory Server_Base
  imports Envelope Controlplane_Registry
begin

text \<open>
  What the operations of \<^verbatim>\<open>internal/server\<close> share: the application errors of \<^verbatim>\<open>errors.go\<close> and
  their translation to responses, the dependencies and the session, the decoding of keys and of
  request metadata, and the operation hashes.

  Search upkeep and the attachment buckets are reached through functions of the dependencies
  record; the theorems hold whatever these do.
\<close>

section \<open>errors.go\<close>

definition CodeSyncConflict :: string where "CodeSyncConflict = ''SYNC_CONFLICT''"
definition CodeUnknownKey :: string where "CodeUnknownKey = ''UNKNOWN_KEY''"
definition CodeAuth :: string where "CodeAuth = ''AUTH''"
definition CodeForbidden :: string where "CodeForbidden = ''FORBIDDEN''"
definition CodeBadRequest :: string where "CodeBadRequest = ''BAD_REQUEST''"
definition CodeNotFound :: string where "CodeNotFound = ''NOT_FOUND''"
definition CodeNetwork :: string where "CodeNetwork = ''NETWORK''"
definition CodeUpstream :: string where "CodeUpstream = ''UPSTREAM''"
definition CodePayloadTooLarge :: string where "CodePayloadTooLarge = ''PAYLOAD_TOO_LARGE''"
definition CodeInternal :: string where "CodeInternal = ''INTERNAL''"

lemmas code_defs = CodeSyncConflict_def CodeUnknownKey_def CodeAuth_def CodeForbidden_def
  CodeBadRequest_def CodeNotFound_def CodeNetwork_def CodeUpstream_def CodePayloadTooLarge_def
  CodeInternal_def

definition badRequest :: "string \<Rightarrow> go_error" where
  "badRequest m = EApp (zero_app_error\<lparr>ae_Status := 400, ae_Code := CodeBadRequest, ae_Message := m\<rparr>)"

definition payloadTooLarge :: "string \<Rightarrow> app_error" where
  "payloadTooLarge m =
     zero_app_error\<lparr>ae_Status := 413, ae_Code := CodePayloadTooLarge, ae_Message := m\<rparr>"

definition unauthorized :: "string \<Rightarrow> go_error" where
  "unauthorized m = EApp (zero_app_error\<lparr>ae_Status := 401, ae_Code := CodeAuth, ae_Message := m\<rparr>)"

definition normalizeCode :: "string \<Rightarrow> int \<Rightarrow> string" where
  "normalizeCode code status =
     (if code \<noteq> [] then code
      else if status = 401 then CodeAuth
      else if status = 403 then CodeForbidden
      else if status = 400 then CodeBadRequest
      else if status = 410 then StatusLegacyBlobNotMigrated
      else CodeInternal)"

definition translate :: "go_error \<Rightarrow> app_error" where
  "translate err =
     (case errors_as_app err of
        Some a \<Rightarrow>
          a\<lparr>ae_Status := (if ae_Status a = 0 then 500 else ae_Status a),
            ae_Code := (if ae_Code a = [] then CodeInternal else ae_Code a)\<rparr>
      | None \<Rightarrow>
          if errors_is ErrPlaintextTooLarge err
          then payloadTooLarge (''plaintext exceeds '' @ itoa (int MaxPlaintextBytes) @ '' bytes'')
          else (case errors_as_max_bytes err of
                  Some limit \<Rightarrow> payloadTooLarge (''request body exceeds '' @ itoa limit @ '' bytes'')
                | None \<Rightarrow>
                    if errors_as_outcome_unknown err
                    then zero_app_error\<lparr>ae_Status := 503, ae_Code := CodeUpstream,
                                        ae_Reason := ''outcome_unknown''\<rparr>
                    else (case errors_as_cp err of
                            Some cpe \<Rightarrow>
                              \<lparr> ae_Status = cpe_StatusCode cpe,
                                ae_Code = normalizeCode (cpe_Code cpe) (cpe_StatusCode cpe),
                                ae_Message = cpe_Message cpe, ae_CurrentKeyID = cpe_CurrentKeyID cpe,
                                ae_CurrentETag = cpe_CurrentETag cpe, ae_Reason = [],
                                ae_CurrentRevision = cpe_CurrentRevision cpe,
                                ae_OldestReplayableRevision = cpe_OldestReplayableRevision cpe,
                                ae_MinimumProtocol = cpe_MinimumProtocol cpe,
                                ae_MissingAttachments = cpe_MissingAttachments cpe,
                                ae_RetryAfterSeconds = cpe_RetryAfterSeconds cpe \<rparr>
                          | None \<Rightarrow>
                              zero_app_error\<lparr>ae_Status := 500, ae_Code := CodeInternal,
                                             ae_Message := error_string err\<rparr>)))"

text \<open>The payload is a map with only the non-zero context fields.\<close>

definition opt_member :: "bool \<Rightarrow> string \<Rightarrow> json \<Rightarrow> (string \<times> json) list" where
  "opt_member b k v = (if b then [(k, v)] else [])"

definition error_payload :: "app_error \<Rightarrow> json" where
  "error_payload a = json_map
     ([(''ok'', JBool False), (''code'', JStr (ae_Code a))]
      @ opt_member (ae_Message a \<noteq> []) ''message'' (JStr (ae_Message a))
      @ opt_member (ae_CurrentKeyID a \<noteq> []) ''current_key_id'' (JStr (ae_CurrentKeyID a))
      @ opt_member (ae_CurrentETag a \<noteq> []) ''current_etag'' (JStr (ae_CurrentETag a))
      @ opt_member (ae_Reason a \<noteq> []) ''reason'' (JStr (ae_Reason a))
      @ opt_member (ae_CurrentRevision a \<noteq> []) ''current_revision'' (JStr (ae_CurrentRevision a))
      @ opt_member (ae_OldestReplayableRevision a \<noteq> []) ''oldest_replayable_revision''
          (JStr (ae_OldestReplayableRevision a))
      @ opt_member (0 < ae_MinimumProtocol a) ''minimum_protocol'' (JNum (itoa (ae_MinimumProtocol a)))
      @ opt_member (ae_MissingAttachments a \<noteq> []) ''missing_attachments''
          (JArr (map JStr (ae_MissingAttachments a)))
      @ opt_member (0 < ae_RetryAfterSeconds a) ''retry_after_seconds''
          (JNum (itoa (ae_RetryAfterSeconds a))))"

definition writeError :: "go_error \<Rightarrow> http_response" where
  "writeError err =
     (let a = translate err
      in \<lparr> rs_Status = ae_Status a, rs_Header = [(''Content-Type'', ''application/json'')],
           rs_Body = json_encode (error_payload a) @ [CHR 0x0A], rs_Broken = False \<rparr>)"

section \<open>Dependencies and session\<close>

record session =
  se_RawJWT :: string
  se_Subject :: string

record 's deps =
  dp_cp :: client
  dp_net :: "'s net"
  dp_gz :: gzip_lib
  dp_hkdf :: hkdf
  dp_entropy :: "'s \<Rightarrow> entropy \<times> 's"
  dp_now :: "'s \<Rightarrow> gtime"
  dp_request_id :: string
  dp_SyncEnclaveSecret :: string
  dp_buckets_configured :: bool
  dp_buckets_Put :: "string \<Rightarrow> string \<Rightarrow> bytes \<Rightarrow> bytes \<Rightarrow> ('s, unit) op"
  dp_buckets_GetLimited :: "string \<Rightarrow> string \<Rightarrow> bytes \<Rightarrow> int \<Rightarrow> ('s, bytes) op"
  dp_buckets_Delete :: "string \<Rightarrow> string \<Rightarrow> ('s, unit) op"
  dp_search_configured :: bool
  dp_index_chat :: "session \<Rightarrow> bytes \<Rightarrow> string \<Rightarrow> bytes \<Rightarrow> string \<Rightarrow> int \<Rightarrow> ('s, unit) op"
  dp_remove_chat :: "session \<Rightarrow> bytes \<Rightarrow> string \<Rightarrow> int \<Rightarrow> ('s, unit) op"

text \<open>Run a pure sealing step on fresh randomness; what it leaves unread is dropped.\<close>

definition with_entropy :: "'s deps \<Rightarrow> (entropy \<Rightarrow> ('a \<times> entropy) result) \<Rightarrow> ('s, 'a) op" where
  "with_entropy D f s =
     (case dp_entropy D s of (ent, s') \<Rightarrow> (rbind (f ent) (\<lambda>(x, _). Inr x), s'))"

text \<open>Run an operation for its effect only.\<close>

definition op_ignore :: "('s, 'a) op \<Rightarrow> ('s, unit) op" where
  "op_ignore m = op_try m (\<lambda>_. op_ret ())"

section \<open>Decoding helpers\<close>

definition decodeKey :: "string \<Rightarrow> bytes result" where
  "decodeKey s =
     (if s = [] then Inl (ENew ''missing key'')
      else case std_decode s of
             None \<Rightarrow> Inl (ELib ''encoding/base64'')
           | Some b \<Rightarrow>
               if length b \<noteq> KeySize
               then Inl (ENew (''key must be '' @ itoa (int KeySize) @ '' bytes, got '' @ itoa (int (length b))))
               else Inr b)"

record pull_key =
  pk_Key :: string
  pk_KeyID :: string

fun decodeKeysFrom :: "hkdf \<Rightarrow> nat \<Rightarrow> pull_key list \<Rightarrow> key list result" where
  "decodeKeysFrom H i [] = Inr []"
| "decodeKeysFrom H i (k # ks) =
     (case decodeKey (pk_Key k) of
        Inl e \<Rightarrow> Inl (badRequest (''keys['' @ itoa (int i) @ '']: '' @ error_string e))
      | Inr raw \<Rightarrow>
          rbind (DeriveKeyID H raw) (\<lambda>kidBytes.
          if pk_KeyID k \<noteq> [] \<and> pk_KeyID k \<noteq> KeyIDHex kidBytes
          then Inl (badRequest (''keys['' @ itoa (int i) @ '']: key_id mismatch (claimed '' @ pk_KeyID k
                                @ '', derived '' @ KeyIDHex kidBytes @ '')''))
          else rbind (decodeKeysFrom H (Suc i) ks) (\<lambda>out.
               Inr (\<lparr> key_Bytes = raw, key_KeyIDHex = KeyIDHex kidBytes \<rparr> # out))))"

definition decodeKeys :: "hkdf \<Rightarrow> pull_key list \<Rightarrow> key list result" where
  "decodeKeys H ks = decodeKeysFrom H 0 ks"

text \<open>A key argument of a request: decoded, with the message the handlers put before the cause.\<close>

definition requestKey :: "string \<Rightarrow> string \<Rightarrow> bytes result" where
  "requestKey prefix s =
     (case decodeKey s of Inl e \<Rightarrow> Inl (badRequest (prefix @ error_string e)) | Inr k \<Rightarrow> Inr k)"

definition canonicalBundleKEKIVHexLen :: nat where "canonicalBundleKEKIVHexLen = 24"
definition canonicalBundleEncryptedKeysHexLen :: nat where "canonicalBundleEncryptedKeysHexLen = 96"

definition validateCanonicalBundleShape :: "string \<Rightarrow> string \<Rightarrow> unit result" where
  "validateCanonicalBundleShape kekIV encryptedKeys =
     (if length kekIV \<noteq> canonicalBundleKEKIVHexLen \<or> \<not> isLowerHex kekIV
      then Inl (badRequest ''kek_iv must be 24 lower-hex characters (12 raw bytes)'')
      else if length encryptedKeys \<noteq> canonicalBundleEncryptedKeysHexLen \<or> \<not> isLowerHex encryptedKeys
      then Inl (badRequest ''encrypted_keys must be 96 lower-hex characters (raw CEK wrapped with AES-GCM)'')
      else Inr ())"

definition aadIDForScope :: "scope \<Rightarrow> string \<Rightarrow> string" where
  "aadIDForScope scope storageID = (if scope = ScopeProfile then ProfileSingletonID else storageID)"

type_synonym metadata = "(string \<times> any) list"

definition profileSyncProtocolFromMetadata :: "string \<Rightarrow> metadata \<Rightarrow> int result" where
  "profileSyncProtocolFromMetadata scope metadata =
     (let bad = Inl (ENew ''profile_sync_protocol must be a positive integer'') in
      if scope \<noteq> ScopeProfile then Inr 0
      else case map_of metadata ''profile_sync_protocol'' of
             None \<Rightarrow> Inr 0
           | Some (AInt v) \<Rightarrow> if v \<le> 0 \<or> 2147483647 < v then bad else Inr v
           | Some (AFloat (FIntegral v)) \<Rightarrow> if v \<le> 0 \<or> 2147483647 < v then bad else Inr v
           | Some _ \<Rightarrow> bad)"

definition projectIDFromMetadata :: "string \<Rightarrow> metadata \<Rightarrow> bool \<times> string option" where
  "projectIDFromMetadata scope metadata =
     (if scope \<noteq> ScopeChat then (False, None)
      else case map_of metadata ''projectId'' of
             None \<Rightarrow> (False, None)
           | Some (AStr v) \<Rightarrow> if v = [] then (True, None) else (True, Some v)
           | Some ANil \<Rightarrow> (True, None)
           | Some _ \<Rightarrow> (False, None))"

section \<open>Operation hashes\<close>

definition operationHashForBlob ::
  "hkdf \<Rightarrow> bytes \<Rightarrow> string \<Rightarrow> string \<Rightarrow> string \<Rightarrow> string \<Rightarrow> string \<Rightarrow> string \<Rightarrow> int \<Rightarrow> bytes option \<Rightarrow> bytes \<Rightarrow>
   string result" where
  "operationHashForBlob H cek meth scope bid keyIDHex ifMatch idem protocol aad plaintext =
     rbind (PathFor scope bid) (\<lambda>path.
     rbind (DeriveOpHashKey H cek) (\<lambda>opKey.
       Inr (ComputeOperationHash opKey
         \<lparr> ci_Method = meth, ci_Path = path, ci_KeyIDHex = keyIDHex, ci_IfMatch = ifMatch,
           ci_IdempotencyKey = idem, ci_Body = plaintext, ci_AAD = aad, ci_Envelope = None,
           ci_ProfileSyncProtocol = (if 0 < protocol then itoa protocol else []) \<rparr>)))"

definition operationHashForKey ::
  "hkdf \<Rightarrow> bytes \<Rightarrow> string \<Rightarrow> string \<Rightarrow> string \<Rightarrow> string \<Rightarrow> bytes \<Rightarrow> string result" where
  "operationHashForKey H cek meth path keyIDHex idem body =
     rbind (DeriveOpHashKey H cek) (\<lambda>opKey.
       Inr (ComputeOperationHash opKey
         \<lparr> ci_Method = meth, ci_Path = path, ci_KeyIDHex = keyIDHex, ci_IfMatch = [],
           ci_IdempotencyKey = idem, ci_Body = body, ci_AAD = None, ci_Envelope = None,
           ci_ProfileSyncProtocol = [] \<rparr>))"

section \<open>Facts\<close>

lemma with_entropy_Inr:
  "with_entropy D f s = (Inr x, s') \<longleftrightarrow> (\<exists>ent e'. dp_entropy D s = (ent, s') \<and> f ent = Inr (x, e'))"
  by (auto simp: with_entropy_def result_simps split: prod.splits)

lemma badRequest_as_app [simp]: "errors_as_app (badRequest m) \<noteq> None"
  by (simp add: badRequest_def)

lemma op_ignore_Inr: "\<exists>s'. op_ignore m s = (Inr (), s')"
  by (simp add: op_ignore_def op_try_def split: prod.splits)

lemma decodeKey_Inr: "decodeKey s = Inr b \<longleftrightarrow> s \<noteq> [] \<and> std_decode s = Some b \<and> length b = 32"
  by (auto simp: decodeKey_def split: option.splits)

lemma requestKey_Inr: "requestKey p s = Inr b \<longleftrightarrow> decodeKey s = Inr b"
  by (auto simp: requestKey_def split: sum.splits)

lemma decodeKeysFrom_length: "decodeKeysFrom H i ks = Inr out \<Longrightarrow> length out = length ks"
proof (induction H i ks arbitrary: out rule: decodeKeysFrom.induct)
  case (2 H i k ks)
  then show ?case by (auto simp: result_simps split: sum.splits if_splits)
qed simp

lemma decodeKeysFrom_nth:
  "decodeKeysFrom H i ks = Inr out \<Longrightarrow> n < length ks \<Longrightarrow>
   \<exists>kid. decodeKey (pk_Key (ks ! n)) = Inr (key_Bytes (out ! n))
     \<and> DeriveKeyID H (key_Bytes (out ! n)) = Inr kid \<and> key_KeyIDHex (out ! n) = KeyIDHex kid
     \<and> (pk_KeyID (ks ! n) = [] \<or> pk_KeyID (ks ! n) = key_KeyIDHex (out ! n))"
proof (induction H i ks arbitrary: out n rule: decodeKeysFrom.induct)
  case (2 H i k ks)
  from 2(2) obtain raw kid out' where
    h: "decodeKey (pk_Key k) = Inr raw" "DeriveKeyID H raw = Inr kid"
      "pk_KeyID k = [] \<or> pk_KeyID k = KeyIDHex kid"
      "decodeKeysFrom H (Suc i) ks = Inr out'"
      "out = \<lparr> key_Bytes = raw, key_KeyIDHex = KeyIDHex kid \<rparr> # out'"
    by (auto simp: result_simps split: sum.splits if_splits)
  show ?case
  proof (cases n)
    case 0
    then show ?thesis using h by simp
  next
    case (Suc m)
    have "\<not> (pk_KeyID k \<noteq> [] \<and> pk_KeyID k \<noteq> KeyIDHex kid)" using h(3) by blast
    from 2(1) [OF h(1,2) this h(4), of m] Suc 2(3) h(5) show ?thesis by simp
  qed
qed simp

text \<open>
  Decoding the keys of a request keeps their number and order; every decoded key has exactly
  32 bytes, is the base64 text at its position, carries the hex of the key id derived from those
  bytes, and a key id the caller claimed next to it is that id. No key is ever accepted under an
  id that is not its own.
\<close>

theorem decodeKeys_sound:
  assumes "decodeKeys H ks = Inr out"
  shows "length out = length ks \<and> (\<forall>n < length ks. \<exists>kid.
     std_decode (pk_Key (ks ! n)) = Some (key_Bytes (out ! n)) \<and> length (key_Bytes (out ! n)) = 32
     \<and> DeriveKeyID H (key_Bytes (out ! n)) = Inr kid \<and> key_KeyIDHex (out ! n) = KeyIDHex kid
     \<and> (pk_KeyID (ks ! n) = [] \<or> pk_KeyID (ks ! n) = KeyIDHex kid))"
  using assms decodeKeysFrom_length decodeKeysFrom_nth
  unfolding decodeKeys_def by (fastforce simp: decodeKey_Inr)

definition example_pull_key :: pull_key where
  "example_pull_key = \<lparr> pk_Key = b64_encode example_key, pk_KeyID = [] \<rparr>"

lemma b64_encode_nonempty: "x \<noteq> [] \<Longrightarrow> b64_encode x \<noteq> []"
  using b64_encode_inject [of x "[]"] by simp

lemma example_key_nonempty: "example_key \<noteq> []"
  using length_example_key by (metis list.size(3) zero_neq_numeral)

lemma decodeKey_example: "decodeKey (b64_encode example_key) = Inr example_key"
  using b64_encode_nonempty [OF example_key_nonempty] by (simp add: decodeKey_Inr)

theorem decodeKeys_sound_witness:
  "\<exists>out. decodeKeys example_hkdf [example_pull_key] = Inr out \<and> length out = 1"
proof -
  obtain kid where "DeriveKeyID example_hkdf example_key = Inr kid"
    using DeriveKeyID_total [OF example_hkdf_ok, of example_key] by auto
  then obtain out where out: "decodeKeys example_hkdf [example_pull_key] = Inr out"
    by (simp add: decodeKeys_def example_pull_key_def decodeKey_example)
  with decodeKeys_sound [OF out] show ?thesis by simp
qed

text \<open>
  Errors are translated by precedence and never without a code. An application error keeps its
  status; an oversize plaintext is the client's 413 whatever wraps it; a write whose outcome is
  unknown is answered 503 with the reason outcome_unknown even when a controlplane error caused
  it; any other controlplane error keeps its status, code and current ETag; the rest is a 500.
\<close>

theorem translate_precedence:
  "ae_Code (translate err) \<noteq> []
   \<and> (errors_as_app err = None \<and> errors_is ErrPlaintextTooLarge err \<longrightarrow>
        ae_Status (translate err) = 413 \<and> ae_Code (translate err) = CodePayloadTooLarge)
   \<and> (errors_as_app err = None \<and> \<not> errors_is ErrPlaintextTooLarge err
        \<and> errors_as_max_bytes err = None \<and> errors_as_outcome_unknown err \<longrightarrow>
        ae_Status (translate err) = 503 \<and> ae_Reason (translate err) = ''outcome_unknown'')
   \<and> (errors_as_app err = None \<and> \<not> errors_is ErrPlaintextTooLarge err
        \<and> errors_as_max_bytes err = None \<and> \<not> errors_as_outcome_unknown err \<longrightarrow>
        (case errors_as_cp err of
           Some c \<Rightarrow> ae_Status (translate err) = cpe_StatusCode c
                     \<and> ae_CurrentETag (translate err) = cpe_CurrentETag c
                     \<and> (cpe_Code c \<noteq> [] \<longrightarrow> ae_Code (translate err) = cpe_Code c)
         | None \<Rightarrow> ae_Status (translate err) = 500))"
  by (auto simp: translate_def payloadTooLarge_def normalizeCode_def code_defs status_defs
      zero_app_error_def split: option.splits)

theorem translate_precedence_witness:
  "ae_Status (translate (EOutcomeUnknown (EAmbiguous PutBlobUpstreamFailure (ECp zero_cp_error)))) = 503
   \<and> ae_Status (translate (wrap_prefix ''x: '' (ESent ErrPlaintextTooLarge))) = 413"
  using translate_precedence [of "EOutcomeUnknown (EAmbiguous PutBlobUpstreamFailure (ECp zero_cp_error))"]
    translate_precedence [of "wrap_prefix ''x: '' (ESent ErrPlaintextTooLarge)"]
  by (simp add: wrap_prefix_def sentinel_is_def)

end
