(* ===== verification/Server_Chat.thy ===== *)
theory Server_Chat
  imports Server_Base
begin

text \<open>
  What the enclave reads from a decrypted chat: its last activity (\<^verbatim>\<open>chat_activity.go\<close>), the
  attachments it references (\<^verbatim>\<open>chatAttachmentRefs\<close> in \<^verbatim>\<open>ops.go\<close>), and the re-sealing of a blob with
  the promotion of its legacy attachments (\<^verbatim>\<open>rewrap.go\<close>).
\<close>

section \<open>Activity\<close>

definition last_value :: "json list \<Rightarrow> json option" where
  "last_value vs = (if vs = [] then None else Some (last vs))"

text \<open>
  \<open>considerTime\<close>: whether the raw value is a string holding a time, and the later of it and the current
  maximum. A missing or null value is not.
\<close>

definition considerTime :: "time_lib \<Rightarrow> json option \<Rightarrow> gtime \<Rightarrow> bool \<times> gtime" where
  "considerTime T raw cur =
     (case raw of
        Some (JStr s) \<Rightarrow>
          (case tm_parse T s of
             Some t \<Rightarrow> (True, if cur < t then t else cur)
           | None \<Rightarrow> (False, cur))
      | _ \<Rightarrow> (False, cur))"

definition consider_message :: "time_lib \<Rightarrow> json \<Rightarrow> gtime \<Rightarrow> gtime" where
  "consider_message T raw cur =
     (case struct_members raw of
        None \<Rightarrow> cur
      | Some m \<Rightarrow>
          (case considerTime T (last_value (field_values ''createdAt'' m)) cur of
             (True, t) \<Rightarrow> t
           | (False, t) \<Rightarrow> snd (considerTime T (last_value (field_values ''timestamp'' m)) t)))"

definition chatActivityAt :: "time_lib \<Rightarrow> bytes \<Rightarrow> gtime option" where
  "chatActivityAt T plaintext =
     (case Option.bind (json_parse plaintext) struct_members of
        None \<Rightarrow> None
      | Some m \<Rightarrow>
          (case dec_list Some [] (field_values ''messages'' m) of
             None \<Rightarrow> None
           | Some msgs \<Rightarrow>
               let t0 = snd (considerTime T (last_value (field_values ''createdAt'' m)) zero_time);
                   t = fold (consider_message T) msgs t0
               in if t = zero_time then None else Some t))"

section \<open>Attachment references\<close>

text \<open>The member of a \<^verbatim>\<open>map[string]json.RawMessage\<close> as a string; anything else reads as empty.\<close>

definition raw_string :: "(string \<times> json) list \<Rightarrow> string \<Rightarrow> string" where
  "raw_string m k = (case map_of (rev m) k of Some (JStr s) \<Rightarrow> s | _ \<Rightarrow> [])"

definition attachmentServerKey :: "(string \<times> json) list \<Rightarrow> string" where
  "attachmentServerKey m =
     (if raw_string m ''encryptionKey'' \<noteq> [] then raw_string m ''encryptionKey'' else raw_string m ''key'')"

definition message_attachments :: "json \<Rightarrow> (string \<times> json) list list option" where
  "message_attachments j =
     Option.bind (struct_members j) (\<lambda>m. dec_list struct_members [] (field_values ''attachments'' m))"

definition attachment_ref :: "(string \<times> json) list \<Rightarrow> string option" where
  "attachment_ref m =
     (let i = raw_string m ''id'' in if i = [] \<or> attachmentServerKey m = [] then None else Some i)"

text \<open>Appending the ids not seen before, in order.\<close>

fun add_refs :: "string list \<Rightarrow> (string \<times> json) list list \<Rightarrow> string list" where
  "add_refs refs [] = refs"
| "add_refs refs (a # as) =
     (case attachment_ref a of
        None \<Rightarrow> add_refs refs as
      | Some i \<Rightarrow> if i \<in> set refs then add_refs refs as else add_refs (refs @ [i]) as)"

text \<open>\<open>None\<close> is the nil slice of a plaintext without the shape of a chat.\<close>

definition chatAttachmentRefs :: "bytes \<Rightarrow> string list option" where
  "chatAttachmentRefs plaintext =
     (case Option.bind (json_parse plaintext) struct_members of
        None \<Rightarrow> None
      | Some m \<Rightarrow>
          (case dec_list message_attachments [] (field_values ''messages'' m) of
             None \<Rightarrow> None
           | Some atts \<Rightarrow> Some (add_refs [] (concat atts))))"

definition maxAttachmentRefsPerChat :: nat where "maxAttachmentRefsPerChat = 500"

definition backfillChatActivity ::
  "'s deps \<Rightarrow> session \<Rightarrow> scope \<Rightarrow> string \<Rightarrow> get_blob_response \<Rightarrow> string \<Rightarrow> bytes \<Rightarrow> ('s, unit) op" where
  "backfillChatActivity D sess scope bid blob etag plaintext =
     (if scope \<noteq> ScopeChat \<or> gr_ActivityAt blob \<noteq> None then op_ret ()
      else case chatActivityAt (net_time (dp_net D)) plaintext of
             None \<Rightarrow> op_ret ()
           | Some t \<Rightarrow> op_ignore (BackfillChatActivity (dp_cp D) (dp_net D) (se_RawJWT sess)
                                    (se_Subject sess) bid etag t))"

section \<open>Legacy attachments\<close>

definition attachmentIVLen :: nat where "attachmentIVLen = 12"

text \<open>The caller has checked that the key has 32 bytes, so making the cipher cannot fail.\<close>

definition decryptLegacyAttachment :: "bytes \<Rightarrow> bytes \<Rightarrow> bytes result" where
  "decryptLegacyAttachment blob key =
     (if length blob < attachmentIVLen then Inl (ENew ''rewrap: attachment ciphertext too short'')
      else of_option (ELib ''crypto/cipher'')
             (gcm_open key (take attachmentIVLen blob) (drop attachmentIVLen blob) []))"

definition legacyClaimPayload :: "string \<Rightarrow> string \<Rightarrow> bytes \<Rightarrow> bytes" where
  "legacyClaimPayload clerkUserID attID ciphertext =
     json_encode (JObj
       [(''clerk_user_id'', JStr clerkUserID), (''id'', JStr attID), (''scope'', JStr ''attachment''),
        (''sha256'', JStr (hex_encode (sha256 ciphertext)))])"

definition verifyLegacyAttachmentClaim ::
  "string \<Rightarrow> string \<Rightarrow> string \<Rightarrow> string \<Rightarrow> bytes \<Rightarrow> unit result" where
  "verifyLegacyAttachmentClaim secret providedClaim clerkUserID attID ciphertext =
     (if secret = [] then Inr ()
      else if providedClaim = [] then Inl (ENew ''missing X-Legacy-Claim header'')
      else case hex_decode providedClaim of
             None \<Rightarrow> Inl (wrap_prefix ''malformed claim signature: '' (ELib ''encoding/hex''))
           | Some provided \<Rightarrow>
               if provided \<noteq> hmac_sha256 secret (legacyClaimPayload clerkUserID attID ciphertext)
               then Inl (ENew ''claim signature mismatch'')
               else Inr ())"

definition promoteOneAttachment ::
  "'s deps \<Rightarrow> session \<Rightarrow> string \<Rightarrow> string \<Rightarrow> string \<Rightarrow> ('s, unit) op" where
  "promoteOneAttachment D sess chatID attID legacyKeyB64 =
     (if \<not> dp_buckets_configured D then op_err (ENew ''rewrap: buckets backend not configured'')
      else op_try (GetLegacyAttachment (dp_cp D) (dp_net D) (se_RawJWT sess) (se_Subject sess) attID) (\<lambda>r.
        case r of
          Inl err \<Rightarrow>
            if errors_is ErrLegacyAttachmentNotFound err then op_ret ()
            else if errors_is ErrLegacyAttachmentGone err then op_ret ()
            else op_err (wrap_prefix (''rewrap: fetch legacy attachment '' @ attID @ '': '') err)
        | Inr (ciphertext, claim) \<Rightarrow>
            (case verifyLegacyAttachmentClaim (dp_SyncEnclaveSecret D) claim (se_Subject sess) attID ciphertext of
               Inl err \<Rightarrow> op_err (wrap_prefix (''rewrap: legacy claim rejected for '' @ attID @ '': '') err)
             | Inr _ \<Rightarrow>
                 (case std_decode legacyKeyB64 of
                    None \<Rightarrow> op_err (ENew (''rewrap: invalid legacy attachment key for '' @ attID))
                  | Some legacyKey \<Rightarrow>
                      if length legacyKey \<noteq> 32
                      then op_err (ENew (''rewrap: invalid legacy attachment key for '' @ attID))
                      else case decryptLegacyAttachment ciphertext legacyKey of
                             Inl err \<Rightarrow> op_err (wrap_prefix
                               (''rewrap: decrypt legacy attachment '' @ attID @ '': '') err)
                           | Inr plaintext \<Rightarrow>
                               op_try (dp_buckets_Put D (se_Subject sess) attID plaintext legacyKey) (\<lambda>p.
                                 case p of
                                   Inl err \<Rightarrow> op_err (wrap_prefix
                                     (''rewrap: promote attachment '' @ attID @ '' to buckets: '') err)
                                 | Inr _ \<Rightarrow>
                                     op_try (RegisterAttachmentIndex (dp_cp D) (dp_net D) (se_RawJWT sess)
                                               (se_Subject sess) attID chatID) (\<lambda>q.
                                       case q of
                                         Inl err \<Rightarrow> op_err (wrap_prefix
                                           (''rewrap: register attachment index '' @ attID @ '': '') err)
                                       | Inr _ \<Rightarrow> op_ret ()))))))"

text \<open>
  A decoded JSON object is a Go map: the last of equal keys wins, and the encoder writes the keys
  in order. \<open>obj_get\<close> reads and \<open>obj_put\<close> assigns one key of it.
\<close>

definition obj_get :: "(string \<times> json) list \<Rightarrow> string \<Rightarrow> json option" where
  "obj_get m k = map_of (rev m) k"

definition obj_put :: "(string \<times> json) list \<Rightarrow> string \<Rightarrow> json \<Rightarrow> (string \<times> json) list" where
  "obj_put m k v = m @ [(k, v)]"

fun dedup :: "(string \<times> json) list \<Rightarrow> (string \<times> json) list" where
  "dedup [] = []"
| "dedup ((k, v) # r) = (if k \<in> fst ` set r then dedup r else (k, v) # dedup r)"

function norm_json :: "json \<Rightarrow> json" where
  "norm_json JNull = JNull"
| "norm_json (JBool b) = JBool b"
| "norm_json (JNum t) = JNum t"
| "norm_json (JStr s) = JStr s"
| "norm_json (JArr vs) = JArr (map norm_json vs)"
| "norm_json (JObj m) = json_map (dedup (map (\<lambda>kv. (fst kv, norm_json (snd kv))) m))"
  by pat_completeness auto
termination
proof (relation "measure size")
  fix vs :: "json list" and v assume "v \<in> set vs"
  then show "(v, JArr vs) \<in> measure size" by (induction vs) auto
next
  fix m :: "(string \<times> json) list" and kv assume "kv \<in> set m"
  then have "size (snd kv) < Suc (size_list (\<lambda>p. size (snd p)) m)"
    by (induction m) auto
  moreover have "size_list (\<lambda>p. size (snd p)) m \<le> size_list (size_prod (\<lambda>x. 0) size) m"
    by (rule size_list_pointwise) (simp add: size_prod_simp prod.size_gen split: prod.split)
  ultimately show "(snd kv, JObj m) \<in> measure size" by simp
qed auto

definition str_of :: "json option \<Rightarrow> string" where
  "str_of x = (case x of Some (JStr s) \<Rightarrow> s | _ \<Rightarrow> [])"

text \<open>
  One attachment of a chat: promoted when it is an image with an id and a key; the errors met so
  far, whether a field was normalised, and the attachment as it is left behind.
\<close>

definition rewrap_attachment ::
  "'s deps \<Rightarrow> session \<Rightarrow> string \<Rightarrow> json \<Rightarrow> go_error list \<times> bool \<Rightarrow> 's \<Rightarrow> (json \<times> go_error list \<times> bool) \<times> 's"
  where
  "rewrap_attachment D sess chatID a acc s =
     (case a of
        JObj att \<Rightarrow>
          if obj_get att ''type'' \<noteq> Some (JStr ''image'') then ((a, acc), s)
          else let rawID = str_of (obj_get att ''id'');
                   newKey = str_of (obj_get att ''encryptionKey'');
                   rawKey = (if newKey = [] then str_of (obj_get att ''key'') else newKey)
               in if rawID = [] \<or> rawKey = [] then ((a, acc), s)
                  else (case promoteOneAttachment D sess chatID rawID rawKey s of
                          (Inl err, s') \<Rightarrow> ((a, (fst acc @ [err], snd acc)), s')
                        | (Inr _, s') \<Rightarrow>
                            if newKey = []
                            then ((JObj (obj_put att ''encryptionKey'' (JStr rawKey)), (fst acc, True)), s')
                            else ((a, acc), s'))
      | _ \<Rightarrow> ((a, acc), s))"

fun rewrap_attachments ::
  "'s deps \<Rightarrow> session \<Rightarrow> string \<Rightarrow> json list \<Rightarrow> go_error list \<times> bool \<Rightarrow> 's \<Rightarrow>
   (json list \<times> go_error list \<times> bool) \<times> 's" where
  "rewrap_attachments D sess chatID [] acc s = (([], acc), s)"
| "rewrap_attachments D sess chatID (a # as) acc s =
     (case rewrap_attachment D sess chatID a acc s of ((a', acc'), s') \<Rightarrow>
      case rewrap_attachments D sess chatID as acc' s' of ((as', acc''), s'') \<Rightarrow> ((a' # as', acc''), s''))"

definition rewrap_message ::
  "'s deps \<Rightarrow> session \<Rightarrow> string \<Rightarrow> json \<Rightarrow> go_error list \<times> bool \<Rightarrow> 's \<Rightarrow> (json \<times> go_error list \<times> bool) \<times> 's"
  where
  "rewrap_message D sess chatID m acc s =
     (case m of
        JObj msg \<Rightarrow>
          (case obj_get msg ''attachments'' of
             Some (JArr atts) \<Rightarrow>
               (case rewrap_attachments D sess chatID atts acc s of ((atts', acc'), s') \<Rightarrow>
                  ((JObj (obj_put msg ''attachments'' (JArr atts')), acc'), s'))
           | _ \<Rightarrow> ((m, acc), s))
      | _ \<Rightarrow> ((m, acc), s))"

fun rewrap_messages ::
  "'s deps \<Rightarrow> session \<Rightarrow> string \<Rightarrow> json list \<Rightarrow> go_error list \<times> bool \<Rightarrow> 's \<Rightarrow>
   (json list \<times> go_error list \<times> bool) \<times> 's" where
  "rewrap_messages D sess chatID [] acc s = (([], acc), s)"
| "rewrap_messages D sess chatID (m # ms) acc s =
     (case rewrap_message D sess chatID m acc s of ((m', acc'), s') \<Rightarrow>
      case rewrap_messages D sess chatID ms acc' s' of ((ms', acc''), s'') \<Rightarrow> ((m' # ms', acc''), s''))"

text \<open>\<open>None\<close> is the nil plaintext: nothing had to be changed.\<close>

definition rewrapChatAttachments ::
  "'s deps \<Rightarrow> session \<Rightarrow> string \<Rightarrow> bytes \<Rightarrow> ('s, bytes option) op" where
  "rewrapChatAttachments D sess chatID plaintext s =
     (case json_first plaintext of
        Some (JObj parsed, _) \<Rightarrow>
          (case obj_get parsed ''messages'' of
             Some (JArr msgs) \<Rightarrow>
               (case rewrap_messages D sess chatID msgs ([], False) s of ((msgs', errs, normalized), s') \<Rightarrow>
                  if errs \<noteq> [] then (Inl (EJoin errs), s')
                  else if normalized
                  then (Inr (Some (json_encode (norm_json (JObj (obj_put parsed ''messages'' (JArr msgs')))))), s')
                  else (Inr None, s'))
           | _ \<Rightarrow> (Inr None, s))
      | _ \<Rightarrow> (Inr None, s))"

section \<open>Re-sealing\<close>

definition server_rewrapBlob ::
  "'s deps \<Rightarrow> session \<Rightarrow> scope \<Rightarrow> string \<Rightarrow> bytes \<Rightarrow> string \<Rightarrow> bytes \<Rightarrow> string \<Rightarrow> ('s, string) op" where
  "server_rewrapBlob D sess scope bid plaintext priorETag targetKey targetKIDHex =
     op_bind (if scope = ScopeChat then rewrapChatAttachments D sess bid plaintext else op_ret None)
       (\<lambda>mutated.
     let finalPlaintext = (case mutated of None \<Rightarrow> plaintext | Some m \<Rightarrow> m);
         a = \<lparr> aad_KeyIDHex = targetKIDHex, aad_Scope = scope, aad_ID = aadIDForScope scope bid,
               aad_ClerkUserID = se_Subject sess \<rparr>;
         idem = ''rewrap:'' @ targetKIDHex @ '':'' @ bid @ '':'' @ priorETag
     in op_bind (op_lift (CanonicalPayloadAAD a)) (\<lambda>payloadAAD.
        op_bind (with_entropy D (Encrypt (dp_gz D) targetKey finalPlaintext a)) (\<lambda>envBlob.
        op_bind (op_lift (DeriveOpHashKey (dp_hkdf D) targetKey)) (\<lambda>opKey.
        op_bind (PutBlob (dp_cp D) (dp_net D)
          \<lparr> pb_Scope = scope, pb_ID = bid, pb_JWT = se_RawJWT sess, pb_ClerkUserID = se_Subject sess,
            pb_KeyIDHex = targetKIDHex, pb_IfMatch = priorETag, pb_IdempotencyKey = idem,
            pb_OperationHash = ComputeOperationHash opKey
              \<lparr> ci_Method = ''POST'', ci_Path = RewrapPath, ci_KeyIDHex = targetKIDHex,
                ci_IfMatch = priorETag, ci_IdempotencyKey = idem, ci_Body = finalPlaintext,
                ci_AAD = Some payloadAAD, ci_Envelope = None, ci_ProfileSyncProtocol = [] \<rparr>,
            pb_RequestID = [], pb_ProfileSyncProtocol = 0, pb_Rewrap = True, pb_Ciphertext = envBlob,
            pb_ProjectIDSet = False, pb_ProjectID = None, pb_AttachmentRefs = None,
            pb_ActivityAt = None \<rparr>) (\<lambda>resp. op_ret (pr_ETag resp))))))"

fun deleteEach :: "'s deps \<Rightarrow> string \<Rightarrow> string list \<Rightarrow> 's \<Rightarrow> 's" where
  "deleteEach D owner [] s = s"
| "deleteEach D owner (i # ids) s = deleteEach D owner ids (snd (dp_buckets_Delete D owner i s))"

definition deleteBucketAttachments :: "'s deps \<Rightarrow> string \<Rightarrow> string list \<Rightarrow> ('s, unit) op" where
  "deleteBucketAttachments D owner ids s =
     (if \<not> dp_buckets_configured D then (Inr (), s)
      else if ids = [] then (Inr (), s)
      else (Inr (), deleteEach D owner ids s))"

section \<open>Facts\<close>

lemma add_refs_props:
  "distinct refs \<Longrightarrow> distinct (add_refs refs as)
   \<and> set (add_refs refs as) = set refs \<union> {i. \<exists>a \<in> set as. attachment_ref a = Some i}"
proof (induction refs as rule: add_refs.induct)
  case (2 refs a as)
  then show ?case by (cases "attachment_ref a") auto
qed simp

lemma attachment_ref_Some:
  "attachment_ref a = Some i \<longleftrightarrow> i \<noteq> [] \<and> raw_string a ''id'' = i
     \<and> (raw_string a ''encryptionKey'' \<noteq> [] \<or> raw_string a ''key'' \<noteq> [])"
  by (auto simp: attachment_ref_def attachmentServerKey_def Let_def)

text \<open>
  The attachment references reported for a chat are exactly the live ones: the list has no
  duplicates, and an id is in it if and only if some attachment of some message has that
  non-empty string id together with a non-empty encryptionKey or legacy key. A plaintext without
  the shape of a chat reports nothing instead of an empty list.
\<close>

theorem chatAttachmentRefs_exact:
  "(chatAttachmentRefs plaintext = None \<longleftrightarrow>
      (case Option.bind (json_parse plaintext) struct_members of
         None \<Rightarrow> True | Some m \<Rightarrow> dec_list message_attachments [] (field_values ''messages'' m) = None))
   \<and> (\<forall>refs. chatAttachmentRefs plaintext = Some refs \<longrightarrow> distinct refs \<and>
      (\<exists>m atts. Option.bind (json_parse plaintext) struct_members = Some m
         \<and> dec_list message_attachments [] (field_values ''messages'' m) = Some atts
         \<and> (\<forall>i. i \<in> set refs \<longleftrightarrow> i \<noteq> [] \<and> (\<exists>as \<in> set atts. \<exists>a \<in> set as.
              raw_string a ''id'' = i
              \<and> (raw_string a ''encryptionKey'' \<noteq> [] \<or> raw_string a ''key'' \<noteq> [])))))"
  using add_refs_props [of "[]"]
  by (auto simp: chatAttachmentRefs_def attachment_ref_Some split: option.splits)

definition example_chat :: json where
  "example_chat = JObj [(''messages'', JArr [JObj [(''attachments'',
     JArr [JObj [(''id'', JStr ''a''), (''key'', JStr ''k'')], JObj [(''id'', JStr ''b'')]])]])]"

lemma example_chat_refs: "chatAttachmentRefs (json_encode example_chat) = Some [''a'']"
proof -
  have "json_ok 10000 example_chat" by (simp add: example_chat_def is_ascii_def)
  from json_parse_encode [OF this] show ?thesis
    by (simp add: chatAttachmentRefs_def struct_members_def example_chat_def field_values_def
        message_attachments_def attachment_ref_def attachmentServerKey_def raw_string_def
        del: json_encode.simps)
qed

theorem chatAttachmentRefs_exact_witness:
  "chatAttachmentRefs (json_encode example_chat) = Some [''a''] \<and> distinct [''a'']"
  using chatAttachmentRefs_exact [of "json_encode example_chat"] example_chat_refs by blast

text \<open>
  A legacy attachment is only accepted with the controlplane's signature over it: with a
  configured secret the claim verifies exactly when it is the hex of the HMAC-SHA-256, under the
  secret, of the record of this user, this attachment id and the digest of the very bytes
  received.
\<close>

theorem verifyLegacyAttachmentClaim_iff:
  assumes "secret \<noteq> []"
  shows "verifyLegacyAttachmentClaim secret claim user attID ciphertext = Inr () \<longleftrightarrow>
    hex_decode claim = Some (hmac_sha256 secret (legacyClaimPayload user attID ciphertext))"
proof -
  have "hmac_sha256 secret (legacyClaimPayload user attID ciphertext) \<noteq> []"
    using length_hmac_sha256 by (metis list.size(3) zero_neq_numeral)
  then show ?thesis using assms
    by (cases "claim = []") (auto simp: verifyLegacyAttachmentClaim_def split: option.splits)
qed

theorem verifyLegacyAttachmentClaim_iff_witness:
  "verifyLegacyAttachmentClaim ''s'' (hex_encode (hmac_sha256 ''s'' (legacyClaimPayload ''u'' ''a'' ''ct'')))
     ''u'' ''a'' ''ct'' = Inr ()"
  by (subst verifyLegacyAttachmentClaim_iff) simp_all

end
