(* ===== verification/Server_Ops.thy ===== *)
theory Server_Ops
  imports Server_Chat
begin

text \<open>
  The request operations of \<^verbatim>\<open>internal/server/ops.go\<close>: push, pull, list, delete and the key
  registry. Each is the whole handler body: its checks in order, the sealing or opening, the
  controlplane calls and the mapping of their failures.

  \<^verbatim>\<open>Pull\<close> fetches its distinct ids concurrently in the source; the model fetches them one after
  the other in request order, which is one of the orders the source allows.
\<close>

section \<open>Push\<close>

record push_request =
  pu_Scope :: string
  pu_ID :: string
  pu_Key :: string
  pu_Plaintext :: string
  pu_IfMatch :: "string option"
  pu_IdempotencyKey :: string
  pu_Metadata :: metadata

record push_response =
  pus_OK :: bool
  pus_ETag :: string
  pus_KeyID :: string
  pus_SearchIndexed :: "bool option"

definition createIfMatchSentinel :: string where "createIfMatchSentinel = ''0''"

text \<open>What \<^verbatim>\<open>Push\<close> does with the answer of the write.\<close>

definition push_failed :: "go_error \<Rightarrow> go_error" where
  "push_failed err =
     (if IsCode err StatusStaleBlob then
        EApp (zero_app_error\<lparr>ae_Status := 409, ae_Code := CodeSyncConflict, ae_Reason := ''stale_blob'',
                ae_CurrentETag := (case errors_as_cp err of None \<Rightarrow> [] | Some e \<Rightarrow> cpe_CurrentETag e)\<rparr>)
      else if IsCode err StatusMissingAttachment then
        EApp (zero_app_error\<lparr>ae_Status := 409, ae_Code := StatusMissingAttachment,
                ae_Message := ''chat references attachments the server no longer holds'',
                ae_MissingAttachments :=
                  (case errors_as_cp err of None \<Rightarrow> [] | Some e \<Rightarrow> cpe_MissingAttachments e)\<rparr>)
      else err)"

definition push_indexed ::
  "'s deps \<Rightarrow> session \<Rightarrow> scope \<Rightarrow> bytes \<Rightarrow> string \<Rightarrow> bytes \<Rightarrow> put_blob_response \<Rightarrow> ('s, push_response) op"
  where
  "push_indexed D sess scope key bid plaintext resp =
     (if scope = ScopeChat \<and> dp_search_configured D then
        op_try (dp_index_chat D sess key bid plaintext (pr_ETag resp) (pr_SourceRevision resp)) (\<lambda>r.
          op_ret \<lparr> pus_OK = True, pus_ETag = pr_ETag resp, pus_KeyID = pr_KeyID resp,
                   pus_SearchIndexed = Some (case r of Inl _ \<Rightarrow> False | Inr _ \<Rightarrow> True) \<rparr>)
      else op_ret \<lparr> pus_OK = True, pus_ETag = pr_ETag resp, pus_KeyID = pr_KeyID resp,
                    pus_SearchIndexed = None \<rparr>)"

definition ifMatch_of :: "push_request \<Rightarrow> string" where
  "ifMatch_of req = (case pu_IfMatch req of None \<Rightarrow> createIfMatchSentinel | Some m \<Rightarrow> m)"

definition push_aad :: "session \<Rightarrow> push_request \<Rightarrow> bytes \<Rightarrow> aad" where
  "push_aad sess req kid = \<lparr> aad_KeyIDHex = KeyIDHex kid, aad_Scope = pu_Scope req, aad_ID = pu_ID req,
     aad_ClerkUserID = se_Subject sess \<rparr>"

text \<open>The write that a push with these inputs makes.\<close>

definition push_put ::
  "'s deps \<Rightarrow> session \<Rightarrow> push_request \<Rightarrow> int \<Rightarrow> bytes \<Rightarrow> bytes \<Rightarrow> bytes \<Rightarrow> string \<Rightarrow> put_blob_request" where
  "push_put D sess req protocol kid plaintext envBlob opHash =
     \<lparr> pb_Scope = pu_Scope req, pb_ID = pu_ID req, pb_JWT = se_RawJWT sess,
       pb_ClerkUserID = se_Subject sess, pb_KeyIDHex = KeyIDHex kid, pb_IfMatch = ifMatch_of req,
       pb_IdempotencyKey = pu_IdempotencyKey req, pb_OperationHash = opHash,
       pb_RequestID = dp_request_id D, pb_ProfileSyncProtocol = protocol, pb_Rewrap = False,
       pb_Ciphertext = envBlob, pb_ProjectIDSet = fst (projectIDFromMetadata (pu_Scope req) (pu_Metadata req)),
       pb_ProjectID = snd (projectIDFromMetadata (pu_Scope req) (pu_Metadata req)),
       pb_AttachmentRefs = (if pu_Scope req = ScopeChat then chatAttachmentRefs plaintext else None),
       pb_ActivityAt = (if pu_Scope req = ScopeChat
                        then chatActivityAt (net_time (dp_net D)) plaintext else None) \<rparr>"

text \<open>
  Everything a push does before its write, as one fallible step: the checks of the request in
  order, the sealing, the operation hash, and the limit on attachment references.
\<close>

definition push_prepare :: "'s deps \<Rightarrow> session \<Rightarrow> push_request \<Rightarrow> ('s, bytes \<times> bytes \<times> put_blob_request) op" where
  "push_prepare D sess req =
     (if \<not> Scope_Valid (pu_Scope req) then op_err (badRequest ''invalid scope'')
      else if pu_ID req = [] then op_err (badRequest ''id is required'')
      else if pu_IdempotencyKey req = [] then op_err (badRequest ''idempotency_key is required'')
      else case profileSyncProtocolFromMetadata (pu_Scope req) (pu_Metadata req) of
             Inl e \<Rightarrow> op_err (badRequest (error_string e))
           | Inr protocol \<Rightarrow>
      op_bind (op_lift (requestKey ''invalid key: '' (pu_Key req))) (\<lambda>key.
      op_bind (op_lift (of_option (badRequest ''invalid plaintext base64'') (std_decode (pu_Plaintext req))))
        (\<lambda>plaintext.
      op_bind (op_lift (DeriveKeyID (dp_hkdf D) key)) (\<lambda>kid.
      case CanonicalPayloadAAD (push_aad sess req kid) of
        Inl e \<Rightarrow> op_err (badRequest (''invalid envelope inputs: '' @ error_string e))
      | Inr payloadAAD \<Rightarrow>
      op_bind (with_entropy D (Encrypt (dp_gz D) key plaintext (push_aad sess req kid))) (\<lambda>envBlob.
      op_bind (op_lift (operationHashForBlob (dp_hkdf D) key ''PUT'' (pu_Scope req) (pu_ID req) (KeyIDHex kid)
                          (ifMatch_of req) (pu_IdempotencyKey req) protocol (Some payloadAAD) plaintext)) (\<lambda>opHash.
      if pu_Scope req = ScopeChat \<and>
         (case chatAttachmentRefs plaintext of None \<Rightarrow> False | Some l \<Rightarrow> maxAttachmentRefsPerChat < length l)
      then op_err (badRequest (''chat references more than '' @ itoa (int maxAttachmentRefsPerChat)
                               @ '' attachments''))
      else op_ret (key, plaintext, push_put D sess req protocol kid plaintext envBlob opHash)))))))"

definition Push :: "'s deps \<Rightarrow> session \<Rightarrow> push_request \<Rightarrow> ('s, push_response) op" where
  "Push D sess req =
     op_bind (push_prepare D sess req) (\<lambda>(key, plaintext, pb).
     op_try (PutBlob (dp_cp D) (dp_net D) pb) (\<lambda>r.
       case r of
         Inr resp \<Rightarrow> push_indexed D sess (pu_Scope req) key (pu_ID req) plaintext resp
       | Inl err \<Rightarrow> op_err (push_failed err)))"

section \<open>Pull\<close>

record pull_request =
  pq_Scope :: string
  pq_IDs :: "string list"
  pq_All :: bool
  pq_Cursor :: string
  pq_Limit :: int
  pq_Keys :: "pull_key list"

record pull_item =
  pi_ID :: string
  pi_OK :: bool
  pi_Plaintext :: string
  pi_KeyID :: string
  pi_ETag :: string
  pi_PreviousETag :: string
  pi_ProjectIDSet :: bool
  pi_ProjectID :: "string option"
  pi_NeedsRewrap :: bool
  pi_Code :: string
  pi_Reason :: string
  pi_cause :: "go_error option"

definition failed_item :: "string \<Rightarrow> string \<Rightarrow> pull_item" where
  "failed_item bid code = \<lparr> pi_ID = bid, pi_OK = False, pi_Plaintext = [], pi_KeyID = [], pi_ETag = [],
     pi_PreviousETag = [], pi_ProjectIDSet = False, pi_ProjectID = None, pi_NeedsRewrap = False,
     pi_Code = code, pi_Reason = [], pi_cause = None \<rparr>"

definition pulled_item ::
  "string \<Rightarrow> get_blob_response \<Rightarrow> bytes \<Rightarrow> string \<Rightarrow> string \<Rightarrow> string \<Rightarrow> bool \<Rightarrow> pull_item" where
  "pulled_item bid blob plaintext kid etag prev needs =
     \<lparr> pi_ID = bid, pi_OK = True, pi_Plaintext = b64_encode plaintext, pi_KeyID = kid, pi_ETag = etag,
       pi_PreviousETag = prev, pi_ProjectIDSet = gr_ProjectIDSet blob, pi_ProjectID = gr_ProjectID blob,
       pi_NeedsRewrap = needs, pi_Code = [], pi_Reason = [],
       pi_cause = None \<rparr>"

definition MaxPullIDs :: nat where "MaxPullIDs = 100"
definition maxListStatusPageSize :: int where "maxListStatusPageSize = 500"
definition defaultListStatusPage :: int where "defaultListStatusPage = 100"
definition defaultMigratePageSize :: int where "defaultMigratePageSize = 50"

definition pull_get_failed :: "string \<Rightarrow> go_error \<Rightarrow> pull_item" where
  "pull_get_failed bid err =
     (if (case errors_as_cp err of None \<Rightarrow> False | Some c \<Rightarrow> cpe_StatusCode c = 404)
      then failed_item bid ''NOT_FOUND''
      else if IsCode err StatusLegacyBlobNotMigrated then failed_item bid StatusLegacyBlobNotMigrated
      else (failed_item bid CodeNetwork)\<lparr>pi_cause := Some err\<rparr>)"

text \<open>The two arms of \<^verbatim>\<open>pullOne\<close>: a v2 row, and a legacy row with its best-effort rewrap.\<close>

definition pull_v2 ::
  "'s deps \<Rightarrow> session \<Rightarrow> scope \<Rightarrow> string \<Rightarrow> key list \<Rightarrow> get_blob_response \<Rightarrow> ('s, pull_item) op" where
  "pull_v2 D sess scope bid keys blob =
     (case DecryptV2 (dp_gz D) (gr_Ciphertext blob) keys
             \<lparr> aad_KeyIDHex = [], aad_Scope = scope, aad_ID = aadIDForScope scope bid,
               aad_ClerkUserID = se_Subject sess \<rparr> of
        Inl (err, dec) \<Rightarrow>
          if errors_is ErrNoMatchingKey err
          then op_ret ((failed_item bid CodeUnknownKey)\<lparr>pi_KeyID := dr_KeyIDHex dec, pi_ETag := gr_ETag blob\<rparr>)
          else op_ret ((failed_item bid CodeBadRequest)\<lparr>pi_Reason := error_string err\<rparr>)
      | Inr dec \<Rightarrow>
          op_try (backfillChatActivity D sess scope bid blob (gr_ETag blob) (dr_Plaintext dec)) (\<lambda>_.
          op_ret (pulled_item bid blob (dr_Plaintext dec) (dr_KeyIDHex dec) (gr_ETag blob) [] False)))"

definition pull_legacy ::
  "'s deps \<Rightarrow> session \<Rightarrow> scope \<Rightarrow> string \<Rightarrow> key list \<Rightarrow> bytes \<Rightarrow> string \<Rightarrow> bool \<Rightarrow> get_blob_response \<Rightarrow>
   ('s, pull_item) op" where
  "pull_legacy D sess scope bid keys targetKey targetKIDHex canRewrap blob =
     (case DecryptLegacy (dp_gz D) (gr_Ciphertext blob) keys of
        Inl _ \<Rightarrow> op_ret ((failed_item bid CodeUnknownKey)\<lparr>pi_Reason := ''no_key_decrypted_legacy''\<rparr>)
      | Inr dec \<Rightarrow>
          let kept = op_try (backfillChatActivity D sess scope bid blob (gr_ETag blob) (dr_Plaintext dec)) (\<lambda>_.
                       op_ret (pulled_item bid blob (dr_Plaintext dec) (dr_KeyIDHex dec) (gr_ETag blob) [] True))
          in if canRewrap then
               op_try (server_rewrapBlob D sess scope bid (dr_Plaintext dec) (gr_ETag blob) targetKey
                         targetKIDHex) (\<lambda>r.
                 case r of
                   Inl _ \<Rightarrow> kept
                 | Inr newETag \<Rightarrow>
                     op_try (backfillChatActivity D sess scope bid blob newETag (dr_Plaintext dec)) (\<lambda>_.
                     op_ret (pulled_item bid blob (dr_Plaintext dec) targetKIDHex newETag (gr_ETag blob) False)))
             else kept)"

definition pullOne ::
  "'s deps \<Rightarrow> session \<Rightarrow> scope \<Rightarrow> string \<Rightarrow> key list \<Rightarrow> bytes \<Rightarrow> string \<Rightarrow> bool \<Rightarrow> ('s, pull_item) op" where
  "pullOne D sess scope bid keys targetKey targetKIDHex canRewrap =
     op_try (GetBlob (dp_cp D) (dp_net D) scope bid (se_RawJWT sess) (se_Subject sess)) (\<lambda>r.
       case r of
         Inl err \<Rightarrow> op_ret (pull_get_failed bid err)
       | Inr blob \<Rightarrow>
           (case Detect (gr_Ciphertext blob) of
              VersionV2 \<Rightarrow> pull_v2 D sess scope bid keys blob
            | VersionV0 \<Rightarrow> pull_legacy D sess scope bid keys targetKey targetKIDHex canRewrap blob
            | VersionV1 \<Rightarrow> pull_legacy D sess scope bid keys targetKey targetKIDHex canRewrap blob
            | VersionUnknown \<Rightarrow>
                op_ret ((failed_item bid CodeBadRequest)\<lparr>pi_Reason := ''unknown_envelope_format''\<rparr>)))"

definition currentPrimaryKeyIs :: "'s deps \<Rightarrow> session \<Rightarrow> string \<Rightarrow> ('s, bool) op" where
  "currentPrimaryKeyIs D sess targetKIDHex =
     op_try (GetCurrentKey (dp_cp D) (dp_net D) (se_RawJWT sess) (se_Subject sess)) (\<lambda>r.
       case r of
         Inl _ \<Rightarrow> op_ret False
       | Inr cur \<Rightarrow> op_ret (case cur of None \<Rightarrow> False | Some k \<Rightarrow> ck_KeyID k = targetKIDHex))"

text \<open>Fetching each distinct id once, and the items in the order of the request.\<close>

fun pull_distinct ::
  "(string \<Rightarrow> ('s, pull_item) op) \<Rightarrow> string list \<Rightarrow> (string \<times> pull_item) list \<Rightarrow>
   's \<Rightarrow> (string \<times> pull_item) list \<times> 's" where
  "pull_distinct f [] acc s = (acc, s)"
| "pull_distinct f (i # ids) acc s =
     (if map_of acc i \<noteq> None then pull_distinct f ids acc s
      else case f i s of
             (Inr item, s') \<Rightarrow> pull_distinct f ids (acc @ [(i, item)]) s'
           | (Inl _, s') \<Rightarrow> pull_distinct f ids (acc @ [(i, failed_item [] [])]) s')"

definition Pull :: "'s deps \<Rightarrow> session \<Rightarrow> pull_request \<Rightarrow> ('s, pull_item list \<times> string) op" where
  "Pull D sess req =
     (let scope = pq_Scope req in
      if \<not> Scope_Valid scope then op_err (badRequest ''invalid scope'')
      else if pq_Keys req = [] then op_err (badRequest ''keys is required and must not be empty'')
      else if MaxPullIDs < length (pq_IDs req)
      then op_err (badRequest (''ids exceeds the maximum batch size of '' @ itoa (int MaxPullIDs)))
      else op_bind (op_lift (decodeKeys (dp_hkdf D) (pq_Keys req))) (\<lambda>keys.
      let limit = (if pq_Limit req \<le> 0 \<or> maxListStatusPageSize < pq_Limit req
                   then defaultListStatusPage else pq_Limit req)
      in op_bind
           (if pq_IDs req \<noteq> [] then op_ret (pq_IDs req, [])
            else if pq_All req then
              op_bind (ListStatus (dp_cp D) (dp_net D) scope (pq_Cursor req) limit (se_RawJWT sess)
                         (se_Subject sess) [] [])
                (\<lambda>l. op_ret (map bm_ID (ls_Updates l), ls_NextCursor l))
            else op_err (badRequest ''either ids[] or all=true is required'')) (\<lambda>(ids, nextCursor).
      let targetKey = key_Bytes (hd keys)
      in op_bind (op_lift (DeriveKeyID (dp_hkdf D) targetKey)) (\<lambda>targetKIDBytes.
         op_bind (currentPrimaryKeyIs D sess (KeyIDHex targetKIDBytes)) (\<lambda>canRewrap s.
           case pull_distinct (\<lambda>i. pullOne D sess scope i keys targetKey (KeyIDHex targetKIDBytes) canRewrap)
                  ids [] s of
             (itemByID, s') \<Rightarrow> (Inr (map (\<lambda>i. the (map_of itemByID i)) ids, nextCursor), s'))))))"

section \<open>Listing\<close>

record list_status_request =
  lq_Scope :: string
  lq_Cursor :: string
  lq_Limit :: int
  lq_ProjectID :: string
  lq_Direction :: string

record list_status_update =
  lu_ID :: string
  lu_ETag :: string
  lu_KeyID :: string
  lu_ProjectID :: "string option"
  lu_UpdatedAt :: string
  lu_ActivityAt :: string
  lu_Cursor :: string

record list_status_delete =
  ld_ID :: string
  ld_Scope :: string
  ld_DeletedAt :: string
  ld_Cursor :: string

definition server_ListStatus ::
  "'s deps \<Rightarrow> session \<Rightarrow> list_status_request \<Rightarrow>
   ('s, list_status_update list \<times> list_status_delete list \<times> string) op" where
  "server_ListStatus D sess req =
     (let fmt = tm_format (net_time (dp_net D)) in
      if \<not> Scope_Valid (lq_Scope req) then op_err (badRequest ''invalid scope'')
      else if lq_ProjectID req \<noteq> [] \<and> lq_Scope req \<noteq> ScopeChat
      then op_err (badRequest ''project_id filter is only valid for chat scope'')
      else if lq_Direction req \<noteq> [] \<and> lq_Direction req \<noteq> ''asc'' \<and> lq_Direction req \<noteq> ''desc''
      then op_err (badRequest ''invalid direction (must be 'asc' or 'desc')'')
      else op_bind (ListStatus (dp_cp D) (dp_net D) (lq_Scope req) (lq_Cursor req)
                      (if lq_Limit req \<le> 0 \<or> maxListStatusPageSize < lq_Limit req
                       then defaultListStatusPage else lq_Limit req)
                      (se_RawJWT sess) (se_Subject sess) (lq_ProjectID req) (lq_Direction req)) (\<lambda>resp.
        op_ret (map (\<lambda>u. \<lparr> lu_ID = bm_ID u, lu_ETag = bm_ETag u, lu_KeyID = bm_KeyID u,
                          lu_ProjectID = bm_ProjectID u, lu_UpdatedAt = fmt (bm_UpdatedAt u),
                          lu_ActivityAt = (case bm_ActivityAt u of None \<Rightarrow> [] | Some t \<Rightarrow> fmt t),
                          lu_Cursor = bm_Cursor u \<rparr>) (ls_Updates resp),
                map (\<lambda>d. \<lparr> ld_ID = bd_ID d, ld_Scope = bd_Scope d, ld_DeletedAt = fmt (bd_DeletedAt d),
                          ld_Cursor = bd_Cursor d \<rparr>) (ls_Deletes resp),
                ls_NextCursor resp)))"

section \<open>Delete\<close>

record delete_request =
  dq_Scope :: string
  dq_ID :: string
  dq_IfMatch :: "string option"
  dq_IdempotencyKey :: string
  dq_Key :: string

definition deleteMaxRetries :: nat where "deleteMaxRetries = 3"

definition dropChatFromSearch ::
  "'s deps \<Rightarrow> session \<Rightarrow> scope \<Rightarrow> string \<Rightarrow> bytes \<Rightarrow> int \<Rightarrow> ('s, unit) op" where
  "dropChatFromSearch D sess scope chatID cek sourceRevision =
     (if scope \<noteq> ScopeChat \<or> \<not> dp_search_configured D then op_ret ()
      else op_ignore (dp_remove_chat D sess cek chatID sourceRevision))"

text \<open>The successful result of the source is the constant \<^verbatim>\<open>{ok: true}\<close> next to this answer.\<close>

definition deleteOnce ::
  "'s deps \<Rightarrow> session \<Rightarrow> delete_request \<Rightarrow> bytes \<Rightarrow> string \<Rightarrow> string \<Rightarrow> ('s, delete_blob_response) op" where
  "deleteOnce D sess req key kidHex ifMatch =
     op_bind (op_lift (operationHashForBlob (dp_hkdf D) key ''DELETE'' (dq_Scope req) (dq_ID req) kidHex
                         ifMatch (dq_IdempotencyKey req) 0 None [])) (\<lambda>opHash.
     DeleteBlob (dp_cp D) (dp_net D)
       \<lparr> db_Scope = dq_Scope req, db_ID = dq_ID req, db_JWT = se_RawJWT sess,
         db_ClerkUserID = se_Subject sess, db_IfMatch = ifMatch,
         db_IdempotencyKey = dq_IdempotencyKey req, db_OperationHash = opHash \<rparr>)"

text \<open>After a confirmed delete: the attachments the controlplane wiped, then the search entry.\<close>

definition delete_cleanup ::
  "'s deps \<Rightarrow> session \<Rightarrow> delete_request \<Rightarrow> bytes \<Rightarrow> delete_blob_response \<Rightarrow> ('s, bool) op" where
  "delete_cleanup D sess req key cpResp =
     op_try (if dq_Scope req = ScopeChat
             then deleteBucketAttachments D (se_Subject sess) (dbr_WipedV2Attachments cpResp)
             else op_ret ()) (\<lambda>_.
     op_try (dropChatFromSearch D sess (dq_Scope req) (dq_ID req) key (dbr_SourceRevision cpResp)) (\<lambda>_.
     op_ret True))"

definition retry_idem :: "string \<Rightarrow> nat \<Rightarrow> string" where
  "retry_idem idem attempt = (if attempt = 0 then idem else idem @ '':retry:'' @ itoa (int attempt))"

text \<open>The retry loop; \<open>n\<close> attempts are left and \<open>attempt\<close> were made.\<close>

fun deleteLoop ::
  "nat \<Rightarrow> nat \<Rightarrow> 's deps \<Rightarrow> session \<Rightarrow> delete_request \<Rightarrow> bytes \<Rightarrow> string \<Rightarrow> ('s, bool) op" where
  "deleteLoop 0 attempt D sess req key kidHex s =
     (Inl (EApp (zero_app_error\<lparr>ae_Status := 409, ae_Code := CodeSyncConflict,
                                ae_Reason := ''delete_exhausted_retries''\<rparr>)), s)"
| "deleteLoop (Suc n) attempt D sess req key kidHex s =
     (case GetBlob (dp_cp D) (dp_net D) (dq_Scope req) (dq_ID req) (se_RawJWT sess) (se_Subject sess) s of
        (Inl err, s1) \<Rightarrow>
          (case errors_as_cp err of
             Some cpe \<Rightarrow>
               if cpe_StatusCode cpe = 404
               then op_try (dropChatFromSearch D sess (dq_Scope req) (dq_ID req) key 0) (\<lambda>_. op_ret True) s1
               else (Inl err, s1)
           | None \<Rightarrow> (Inl err, s1))
      | (Inr blob, s1) \<Rightarrow>
          (case deleteOnce D sess (req\<lparr>dq_IdempotencyKey := retry_idem (dq_IdempotencyKey req) attempt\<rparr>)
                  key kidHex (gr_ETag blob) s1 of
             (Inr cpResp, s2) \<Rightarrow> delete_cleanup D sess req key cpResp s2
           | (Inl err, s2) \<Rightarrow>
               if IsCode err StatusStaleBlob then deleteLoop n (Suc attempt) D sess req key kidHex s2
               else (Inl err, s2)))"

definition Delete :: "'s deps \<Rightarrow> session \<Rightarrow> delete_request \<Rightarrow> ('s, bool) op" where
  "Delete D sess req =
     (if \<not> Scope_Valid (dq_Scope req) then op_err (badRequest ''invalid scope'')
      else if dq_IdempotencyKey req = [] then op_err (badRequest ''idempotency_key is required'')
      else if dq_ID req = [] then op_err (badRequest ''id is required'')
      else op_bind (op_lift (requestKey ''invalid key: '' (dq_Key req))) (\<lambda>key.
           op_bind (op_lift (DeriveKeyID (dp_hkdf D) key)) (\<lambda>kidBytes.
           case dq_IfMatch req of
             Some m \<Rightarrow>
               if m \<noteq> [] then
                 op_bind (deleteOnce D sess req key (KeyIDHex kidBytes) m)
                   (delete_cleanup D sess req key)
               else deleteLoop deleteMaxRetries 0 D sess req key (KeyIDHex kidBytes)
           | None \<Rightarrow> deleteLoop deleteMaxRetries 0 D sess req key (KeyIDHex kidBytes))))"

definition server_DeleteAllProjects ::
  "'s deps \<Rightarrow> session \<Rightarrow> string \<Rightarrow> string \<Rightarrow> ('s, int) op" where
  "server_DeleteAllProjects D sess reqKey idem =
     (if idem = [] then op_err (badRequest ''idempotency_key is required'')
      else op_bind (op_lift (requestKey ''invalid key: '' reqKey)) (\<lambda>key.
           op_bind (op_lift (DeriveKeyID (dp_hkdf D) key)) (\<lambda>kidBytes.
           op_bind (op_lift (operationHashForKey (dp_hkdf D) key ''DELETE'' DeleteAllProjectsPath
                               (KeyIDHex kidBytes) idem [])) (\<lambda>opHash.
           op_bind (DeleteAllProjects (dp_cp D) (dp_net D)
                      \<lparr> dap_JWT = se_RawJWT sess, dap_ClerkUserID = se_Subject sess,
                        dap_KeyIDHex = KeyIDHex kidBytes, dap_IdempotencyKey = idem,
                        dap_OperationHash = opHash \<rparr>) (\<lambda>resp.
           if \<not> dapr_OK resp then op_err (ENew ''controlplane: delete-all-projects did not confirm ok'')
           else op_ret (dapr_Deleted resp))))))"

section \<open>Keys and bundles\<close>

record key_register_request =
  kr_Key :: string
  kr_IfMatch :: string
  kr_CreatedVia :: string
  kr_IdempotencyKey :: string
  kr_InitialBundle :: "register_key_bundle option"

definition server_RegisterKey ::
  "'s deps \<Rightarrow> session \<Rightarrow> key_register_request \<Rightarrow> ('s, string \<times> bool) op" where
  "server_RegisterKey D sess req =
     (if kr_CreatedVia req \<notin> set [''passkey'', ''manual'', ''recovery'', ''start_fresh'']
      then op_err (badRequest ''invalid created_via'')
      else if kr_IfMatch req = []
      then op_err (badRequest ''if_match is required (use \"*\" to mean no current key)'')
      else if kr_IdempotencyKey req = [] then op_err (badRequest ''idempotency_key is required'')
      else op_bind (op_lift (requestKey ''invalid key: '' (kr_Key req))) (\<lambda>key.
           op_bind (op_lift (DeriveKeyID (dp_hkdf D) key)) (\<lambda>kidBytes.
           op_bind (op_lift (case kr_InitialBundle req of
                None \<Rightarrow> Inr ()
              | Some b \<Rightarrow>
                  if rb_CredentialID b = []
                  then Inl (badRequest ''initial_bundle.credential_id is required when initial_bundle is set'')
                  else validateCanonicalBundleShape (rb_KEKIV b) (rb_EncryptedKeys b))) (\<lambda>_.
           let cpReq = \<lparr> rk_JWT = se_RawJWT sess, rk_ClerkUserID = se_Subject sess,
                         rk_KeyIDHex = KeyIDHex kidBytes, rk_IfMatch = kr_IfMatch req,
                         rk_CreatedVia = kr_CreatedVia req, rk_IdempotencyKey = kr_IdempotencyKey req,
                         rk_OperationHash = [], rk_InitialBundle = kr_InitialBundle req \<rparr>
           in op_bind (op_lift (DeriveOpHashKey (dp_hkdf D) key)) (\<lambda>opKey.
              op_bind (RegisterKey (dp_cp D) (dp_net D)
                (cpReq\<lparr>rk_OperationHash := ComputeOperationHash opKey
                   \<lparr> ci_Method = ''POST'', ci_Path = RegisterKeyPath, ci_KeyIDHex = KeyIDHex kidBytes,
                     ci_IfMatch = kr_IfMatch req, ci_IdempotencyKey = kr_IdempotencyKey req,
                     ci_Body = RegisterKeyBody cpReq, ci_AAD = None, ci_Envelope = None,
                     ci_ProfileSyncProtocol = [] \<rparr>\<rparr>)) (\<lambda>cpResp.
              op_try (deleteBucketAttachments D (se_Subject sess) (rkr_WipedV2Attachments cpResp)) (\<lambda>_.
              op_ret (KeyIDHex kidBytes, rkr_SearchIndexFenced cpResp))))))))"

record bundle_request =
  bq_KeyID :: string
  bq_Key :: string
  bq_CredentialID :: string
  bq_KEKIV :: string
  bq_EncryptedKeys :: string
  bq_IdempotencyKey :: string

text \<open>The key of a bundle request must be the one its key id names.\<close>

definition bundle_key :: "'s deps \<Rightarrow> bundle_request \<Rightarrow> bytes result" where
  "bundle_key D req =
     rbind (requestKey ''invalid key: '' (bq_Key req)) (\<lambda>key.
     rbind (DeriveKeyID (dp_hkdf D) key) (\<lambda>kidBytes.
     if KeyIDHex kidBytes \<noteq> bq_KeyID req then Inl (badRequest ''key does not match key_id'')
     else Inr key))"

definition server_AddBundle :: "'s deps \<Rightarrow> session \<Rightarrow> bundle_request \<Rightarrow> ('s, bool) op" where
  "server_AddBundle D sess req =
     (if length (bq_KeyID req) \<noteq> 32 \<or> \<not> isLowerHex (bq_KeyID req) then op_err (badRequest ''invalid key_id'')
      else if bq_CredentialID req = [] \<or> bq_KEKIV req = [] \<or> bq_EncryptedKeys req = []
      then op_err (badRequest ''credential_id, kek_iv, encrypted_keys are required'')
      else op_bind (op_lift (validateCanonicalBundleShape (bq_KEKIV req) (bq_EncryptedKeys req))) (\<lambda>_.
      if bq_IdempotencyKey req = [] then op_err (badRequest ''idempotency_key is required'')
      else let cpReq = \<lparr> ab_JWT = se_RawJWT sess, ab_ClerkUserID = se_Subject sess,
                         ab_KeyIDHex = bq_KeyID req, ab_CredentialID = bq_CredentialID req,
                         ab_KEKIV = bq_KEKIV req, ab_EncryptedKeys = bq_EncryptedKeys req,
                         ab_IdempotencyKey = bq_IdempotencyKey req, ab_OperationHash = [] \<rparr>
           in op_bind (op_lift (bundle_key D req)) (\<lambda>key.
              op_bind (op_lift (operationHashForKey (dp_hkdf D) key ''POST'' (AddBundlePath (bq_KeyID req))
                                  (bq_KeyID req) (bq_IdempotencyKey req) (AddBundleBody cpReq))) (\<lambda>opHash.
              op_bind (AddBundle (dp_cp D) (dp_net D) (cpReq\<lparr>ab_OperationHash := opHash\<rparr>)) (\<lambda>_.
              op_ret True)))))"

definition server_RemoveBundle :: "'s deps \<Rightarrow> session \<Rightarrow> bundle_request \<Rightarrow> ('s, bool) op" where
  "server_RemoveBundle D sess req =
     (if length (bq_KeyID req) \<noteq> 32 \<or> \<not> isLowerHex (bq_KeyID req) then op_err (badRequest ''invalid key_id'')
      else if bq_CredentialID req = [] then op_err (badRequest ''credential_id is required'')
      else if bq_IdempotencyKey req = [] then op_err (badRequest ''idempotency_key is required'')
      else op_bind (op_lift (bundle_key D req)) (\<lambda>key.
           op_bind (op_lift (operationHashForKey (dp_hkdf D) key ''DELETE''
                               (RemoveBundlePath (bq_KeyID req) (bq_CredentialID req))
                               (bq_KeyID req) (bq_IdempotencyKey req) [])) (\<lambda>opHash.
           op_bind (RemoveBundle (dp_cp D) (dp_net D)
                      \<lparr> mb_JWT = se_RawJWT sess, mb_ClerkUserID = se_Subject sess,
                        mb_KeyIDHex = bq_KeyID req, mb_CredentialID = bq_CredentialID req,
                        mb_IdempotencyKey = bq_IdempotencyKey req, mb_OperationHash = opHash \<rparr>) (\<lambda>_.
           op_ret True))))"

record key_current_bundle =
  kcb_CredentialID :: string
  kcb_KEKIV :: string
  kcb_EncryptedKeys :: string
  kcb_CreatedAt :: string
  kcb_UpdatedAt :: string

record key_current_response =
  kc_KeyID :: "string option"
  kc_ETag :: string
  kc_Bundles :: "(string \<times> key_current_bundle) list"
  kc_CreatedVia :: string
  kc_CreatedAt :: string
  kc_HasData :: bool

definition no_key_response :: "bool \<Rightarrow> key_current_response" where
  "no_key_response hasData = \<lparr> kc_KeyID = None, kc_ETag = [], kc_Bundles = [], kc_CreatedVia = [],
     kc_CreatedAt = [], kc_HasData = hasData \<rparr>"

definition KeyCurrent :: "'s deps \<Rightarrow> session \<Rightarrow> ('s, key_current_response) op" where
  "KeyCurrent D sess =
     op_bind (GetCurrentKey (dp_cp D) (dp_net D) (se_RawJWT sess) (se_Subject sess)) (\<lambda>resp.
       op_ret (case resp of
         None \<Rightarrow> no_key_response False
       | Some k \<Rightarrow>
           if ck_KeyID k = [] then no_key_response (ck_HasData k)
           else \<lparr> kc_KeyID = Some (ck_KeyID k), kc_ETag = ck_ETag k,
                  kc_Bundles = map (\<lambda>(cid, b).
                    (cid, \<lparr> kcb_CredentialID = kb_CredentialID b, kcb_KEKIV = kb_KEKIV b,
                            kcb_EncryptedKeys = kb_EncryptedKeys b, kcb_CreatedAt = kb_RegisteredAt b,
                            kcb_UpdatedAt = kb_RegisteredAt b \<rparr>)) (ck_Bundles k),
                  kc_CreatedVia = ck_CreatedVia k, kc_CreatedAt = ck_CreatedAt k,
                  kc_HasData = ck_HasData k \<rparr>))"

section \<open>Facts on push\<close>

lemma push_prepare_Inr:
  "push_prepare D sess req s = (Inr (key, plaintext, pb), s') \<longleftrightarrow>
     (\<exists>protocol kid p envBlob opHash ent ent'. Scope_Valid (pu_Scope req) \<and> pu_ID req \<noteq> []
        \<and> pu_IdempotencyKey req \<noteq> []
        \<and> profileSyncProtocolFromMetadata (pu_Scope req) (pu_Metadata req) = Inr protocol
        \<and> decodeKey (pu_Key req) = Inr key \<and> std_decode (pu_Plaintext req) = Some plaintext
        \<and> DeriveKeyID (dp_hkdf D) key = Inr kid \<and> CanonicalPayloadAAD (push_aad sess req kid) = Inr p
        \<and> dp_entropy D s = (ent, s')
        \<and> Encrypt (dp_gz D) key plaintext (push_aad sess req kid) ent = Inr (envBlob, ent')
        \<and> operationHashForBlob (dp_hkdf D) key ''PUT'' (pu_Scope req) (pu_ID req) (KeyIDHex kid)
            (ifMatch_of req) (pu_IdempotencyKey req) protocol (Some p) plaintext = Inr opHash
        \<and> \<not> (pu_Scope req = ScopeChat \<and> (case chatAttachmentRefs plaintext of None \<Rightarrow> False
               | Some l \<Rightarrow> maxAttachmentRefsPerChat < length l))
        \<and> pb = push_put D sess req protocol kid plaintext envBlob opHash)"
  (is "?L \<longleftrightarrow> ?R")
proof
  assume ?L
  then show ?R
    unfolding push_prepare_def op_inv requestKey_Inr with_entropy_Inr of_option_eq_Inr
    by blast
next
  assume ?R
  then show ?L
    unfolding push_prepare_def op_inv requestKey_Inr with_entropy_Inr of_option_eq_Inr
    by blast
qed

text \<open>The binding under which rows are read back; the key id comes from the envelope.\<close>

definition row_aad :: "session \<Rightarrow> scope \<Rightarrow> string \<Rightarrow> aad" where
  "row_aad sess scope bid = \<lparr> aad_KeyIDHex = [], aad_Scope = scope, aad_ID = aadIDForScope scope bid,
     aad_ClerkUserID = se_Subject sess \<rparr>"

lemma DecryptV2_cong:
  assumes "aad_Scope a = aad_Scope b" "aad_ID a = aad_ID b" "aad_ClerkUserID a = aad_ClerkUserID b"
  shows "DecryptV2 gz blob keys a = DecryptV2 gz blob keys b"
proof -
  have "open_v2 gz k kid iv wiv ct wdek a = open_v2 gz k kid iv wiv ct wdek b" for k kid iv wiv ct wdek
    unfolding open_v2_def CanonicalPayloadAAD_cong [OF assms] assms ..
  then show ?thesis unfolding DecryptV2_def by presburger
qed

lemma push_aad_row:
  assumes "CanonicalPayloadAAD (push_aad sess req kid) = Inr p"
  shows "DecryptV2 gz blob keys (row_aad sess (pu_Scope req) (pu_ID req))
    = DecryptV2 gz blob keys (push_aad sess req kid)"
proof (rule DecryptV2_cong)
  have "aad_ok (push_aad sess req kid)" using assms by (simp add: CanonicalPayloadAAD_Inr)
  then show "aad_ID (row_aad sess (pu_Scope req) (pu_ID req)) = aad_ID (push_aad sess req kid)"
    by (auto simp: row_aad_def push_aad_def aadIDForScope_def aad_ok_def)
qed (simp_all add: row_aad_def push_aad_def)

lemma push_put_simps [simp]:
  "pb_Scope (push_put D sess req pr kid pt blob h) = pu_Scope req"
  "pb_ID (push_put D sess req pr kid pt blob h) = pu_ID req"
  "pb_IfMatch (push_put D sess req pr kid pt blob h) = ifMatch_of req"
  "pb_IdempotencyKey (push_put D sess req pr kid pt blob h) = pu_IdempotencyKey req"
  "pb_KeyIDHex (push_put D sess req pr kid pt blob h) = KeyIDHex kid"
  "pb_ClerkUserID (push_put D sess req pr kid pt blob h) = se_Subject sess"
  "pb_Ciphertext (push_put D sess req pr kid pt blob h) = blob"
  "\<not> pb_Rewrap (push_put D sess req pr kid pt blob h)"
  by (simp_all add: push_put_def)

lemma push_prepare_sealed:
  assumes "gzip_ok (dp_gz D)" "push_prepare D sess req s = (Inr (key, plaintext, pb), s')"
  obtains kid where "decodeKey (pu_Key req) = Inr key" "std_decode (pu_Plaintext req) = Some plaintext"
    "DeriveKeyID (dp_hkdf D) key = Inr kid" "pb_KeyIDHex pb = KeyIDHex kid"
    "pb_Scope pb = pu_Scope req" "pb_ID pb = pu_ID req" "pb_IfMatch pb = ifMatch_of req"
    "pb_IdempotencyKey pb = pu_IdempotencyKey req" "pb_ClerkUserID pb = se_Subject sess" "\<not> pb_Rewrap pb"
    "Detect (pb_Ciphertext pb) = VersionV2"
    "\<And>keys k. find_key keys (KeyIDHex kid) = Some k \<Longrightarrow> key_Bytes k = key \<Longrightarrow>
       DecryptV2 (dp_gz D) (pb_Ciphertext pb) keys (row_aad sess (pu_Scope req) (pu_ID req)) =
       Inr \<lparr> dr_Plaintext = plaintext, dr_KeyIDHex = KeyIDHex kid, dr_Version = VersionV2,
             dr_NeedsRewrap = False \<rparr>"
proof -
  from assms(2) obtain protocol kid p envBlob opHash ent ent' where
    h: "decodeKey (pu_Key req) = Inr key" "std_decode (pu_Plaintext req) = Some plaintext"
      "DeriveKeyID (dp_hkdf D) key = Inr kid" "CanonicalPayloadAAD (push_aad sess req kid) = Inr p"
      "Encrypt (dp_gz D) key plaintext (push_aad sess req kid) ent = Inr (envBlob, ent')"
      "pb = push_put D sess req protocol kid plaintext envBlob opHash"
    unfolding push_prepare_Inr by blast
  have kid: "aad_KeyIDHex (push_aad sess req kid) = KeyIDHex kid" by (simp add: push_aad_def)
  let ?k = "\<lparr> key_Bytes = key, key_KeyIDHex = KeyIDHex kid \<rparr>"
  have fk: "find_key [?k] (KeyIDHex kid) = Some ?k" by (simp add: find_key_def)
  have d: "Detect envBlob = VersionV2"
    using Encrypt_open [OF assms(1) h(5), of "[?k]" ?k] fk by (simp add: kid)
  have o: "DecryptV2 (dp_gz D) (pb_Ciphertext pb) keys (row_aad sess (pu_Scope req) (pu_ID req)) =
       Inr \<lparr> dr_Plaintext = plaintext, dr_KeyIDHex = KeyIDHex kid, dr_Version = VersionV2,
             dr_NeedsRewrap = False \<rparr>"
    if "find_key keys (KeyIDHex kid) = Some k" "key_Bytes k = key" for keys k
    using Encrypt_open [OF assms(1) h(5), of keys k] that h(6) push_aad_row [OF h(4)] by (simp add: kid)
  show thesis by (rule that) (use h d o in simp_all)
qed

lemma push_indexed_Inr:
  "push_indexed D sess scope key bid pt resp s = (r, s') \<Longrightarrow>
   \<exists>b. r = Inr \<lparr> pus_OK = True, pus_ETag = pr_ETag resp, pus_KeyID = pr_KeyID resp, pus_SearchIndexed = b \<rparr>"
  by (auto simp: push_indexed_def op_try_def split: if_splits prod.splits)

definition push_ok :: "'s deps \<Rightarrow> session \<Rightarrow> push_request \<Rightarrow> bytes \<Rightarrow> bytes \<Rightarrow> bool" where
  "push_ok D sess req key plaintext =
     (Scope_Valid (pu_Scope req) \<and> pu_ID req \<noteq> [] \<and> pu_IdempotencyKey req \<noteq> []
      \<and> (pu_Scope req = ScopeProfile \<longrightarrow> pu_ID req = ProfileSingletonID)
      \<and> (pu_Scope req = ScopeProjectDocument \<longrightarrow> splitProjectDocID (pu_ID req) \<noteq> None)
      \<and> (case profileSyncProtocolFromMetadata (pu_Scope req) (pu_Metadata req) of Inl _ \<Rightarrow> False | Inr _ \<Rightarrow> True)
      \<and> decodeKey (pu_Key req) = Inr key \<and> std_decode (pu_Plaintext req) = Some plaintext
      \<and> length plaintext \<le> MaxPlaintextBytes \<and> se_Subject sess \<noteq> [] \<and> hkdf_ok (dp_hkdf D)
      \<and> (pu_Scope req = ScopeChat \<longrightarrow> (case chatAttachmentRefs plaintext of None \<Rightarrow> True
           | Some l \<Rightarrow> length l \<le> maxAttachmentRefsPerChat)))"

lemma PathFor_total:
  assumes "Scope_Valid scope" "scope = ScopeProjectDocument \<longrightarrow> splitProjectDocID bid \<noteq> None"
  shows "\<exists>p. PathFor scope bid = Inr p"
  using assms by (auto simp: PathFor_def Scope_Valid_def scope_defs)

lemma push_prepare_total:
  assumes ok: "push_ok D sess req key plaintext" and ent: "56 \<le> length (fst (dp_entropy D s))"
  shows "\<exists>pb. push_prepare D sess req s = (Inr (key, plaintext, pb), snd (dp_entropy D s))"
proof -
  have key: "length key = KeySize" using ok by (simp add: push_ok_def decodeKey_Inr)
  have H: "hkdf_ok (dp_hkdf D)" using ok by (simp add: push_ok_def)
  obtain kid where kid: "DeriveKeyID (dp_hkdf D) key = Inr kid" "length kid = 16"
    using DeriveKeyID_total [OF H key] by blast
  obtain opk where opk: "DeriveOpHashKey (dp_hkdf D) key = Inr opk"
    using DeriveOpHashKey_total [OF H key] by blast
  have aok: "aad_ok (push_aad sess req kid)" "kid_ok (aad_KeyIDHex (push_aad sess req kid))"
    using ok kid_ok_KeyIDHex [OF kid(2)] by (auto simp: push_ok_def aad_ok_def push_aad_def)
  obtain p where p: "CanonicalPayloadAAD (push_aad sess req kid) = Inr p"
    using CanonicalPayloadAAD_total [OF aok(1)] by blast
  have k: "length key = 32" using key by simp
  have pt: "length plaintext \<le> MaxPlaintextBytes" using ok by (simp add: push_ok_def)
  obtain blob where blob: "Encrypt (dp_gz D) key plaintext (push_aad sess req kid) (fst (dp_entropy D s))
      = Inr (blob, drop 56 (fst (dp_entropy D s)))"
    using Encrypt_total [OF k pt aok ent, of "dp_gz D"] by blast
  obtain path where path: "PathFor (pu_Scope req) (pu_ID req) = Inr path"
    using PathFor_total [of "pu_Scope req" "pu_ID req"] ok by (auto simp: push_ok_def)
  obtain pr where pr: "profileSyncProtocolFromMetadata (pu_Scope req) (pu_Metadata req) = Inr pr"
    using ok by (auto simp: push_ok_def split: sum.splits)
  obtain h where h: "operationHashForBlob (dp_hkdf D) key ''PUT'' (pu_Scope req) (pu_ID req) (KeyIDHex kid)
      (ifMatch_of req) (pu_IdempotencyKey req) pr (Some p) plaintext = Inr h"
    using path opk by (simp add: operationHashForBlob_def)
  have refs: "\<not> (pu_Scope req = ScopeChat \<and> (case chatAttachmentRefs plaintext of None \<Rightarrow> False
               | Some l \<Rightarrow> maxAttachmentRefsPerChat < length l))"
    using ok by (auto simp: push_ok_def split: option.splits)
  have "push_prepare D sess req s = (Inr (key, plaintext, push_put D sess req pr kid plaintext blob h),
      snd (dp_entropy D s))"
    unfolding push_prepare_Inr using ok pr kid p blob h refs unfolding push_ok_def
    by (metis prod.collapse)
  then show ?thesis by blast
qed

text \<open>A world with one answer for every request, one that confirms, and a push to it.\<close>

definition fixed_net :: "http_response \<Rightarrow> unit net" where
  "fixed_net resp = \<lparr> net_url_ok = (\<lambda>_. True), net_do = (\<lambda>_ s. (Inr resp, s)), net_ctx_err = (\<lambda>_. False),
     net_time = \<lparr> tm_parse = (\<lambda>_. None), tm_format = (\<lambda>_. []) \<rparr> \<rparr>"

definition accept_net :: "unit net" where
  "accept_net = fixed_net \<lparr> rs_Status = 200, rs_Header = [(''ETag'', ''7'')], rs_Body = ''{}'', rs_Broken = False \<rparr>"

text \<open>A world in which every write is stale.\<close>

definition stale_body :: json where
  "stale_body = JObj [(''code'', JStr ''STALE_BLOB''), (''current_etag'', JStr ''9'')]"

definition stale_net :: "unit net" where
  "stale_net = fixed_net \<lparr> rs_Status = 412, rs_Header = [], rs_Body = json_encode stale_body, rs_Broken = False \<rparr>"

definition example_deps :: "'s net \<Rightarrow> ('s \<Rightarrow> gtime) \<Rightarrow> 's deps" where
  "example_deps N now = \<lparr> dp_cp = example_client, dp_net = N, dp_gz = example_gzip, dp_hkdf = example_hkdf,
     dp_entropy = (\<lambda>s. (example_entropy, s)), dp_now = now, dp_request_id = [],
     dp_SyncEnclaveSecret = [], dp_buckets_configured = False,
     dp_buckets_Put = (\<lambda>_ _ _ _. op_ret ()), dp_buckets_GetLimited = (\<lambda>_ _ _ _. op_err (ESent ErrBucketNotFound)),
     dp_buckets_Delete = (\<lambda>_ _. op_ret ()),
     dp_search_configured = False, dp_index_chat = (\<lambda>_ _ _ _ _ _. op_ret ()),
     dp_remove_chat = (\<lambda>_ _ _ _. op_ret ()) \<rparr>"

definition example_session :: session where
  "example_session = \<lparr> se_RawJWT = ''jwt'', se_Subject = ''user_1'' \<rparr>"

definition example_push :: push_request where
  "example_push = \<lparr> pu_Scope = ''project'', pu_ID = ''p1'', pu_Key = b64_encode example_key,
     pu_Plaintext = b64_encode ''hello'', pu_IfMatch = Some ''3'', pu_IdempotencyKey = ''i1'', pu_Metadata = [] \<rparr>"

lemma example_push_ok: "push_ok (example_deps N now) example_session example_push example_key ''hello''"
  by (simp add: push_ok_def example_push_def example_session_def example_deps_def Scope_Valid_def scope_defs
      profileSyncProtocolFromMetadata_def MaxPlaintextBytes_def example_hkdf_ok decodeKey_example
      del: b64_encode.simps)

lemma example_push_prepare:
  obtains pb where "push_prepare (example_deps N now) example_session example_push s
    = (Inr (example_key, ''hello'', pb), s)"
  using push_prepare_total [OF example_push_ok, of N now s]
  by (auto simp: example_deps_def example_entropy_def)


text \<open>
  A push never overwrites what it did not see: when the controlplane refuses the write as
  stale the push is answered 409 SYNC_CONFLICT with the reason stale_blob and the row's current
  ETag, and the state is the one the refused write left behind, without another attempt; when
  attachments are missing the answer is 409 with their ids.
\<close>

theorem Push_conflict:
  assumes "push_prepare D sess req s = (Inr (key, plaintext, pb), s1)"
    "PutBlob (dp_cp D) (dp_net D) pb s1 = (Inl err, s2)" "errors_as_cp err = Some c"
  shows "(cpe_Code c = StatusStaleBlob \<longrightarrow>
      (\<exists>a. Push D sess req s = (Inl (EApp a), s2) \<and> translate (EApp a) = a \<and> ae_Status a = 409
        \<and> ae_Code a = CodeSyncConflict \<and> ae_Reason a = ''stale_blob'' \<and> ae_CurrentETag a = cpe_CurrentETag c))
    \<and> (cpe_Code c = StatusMissingAttachment \<longrightarrow>
      (\<exists>a. Push D sess req s = (Inl (EApp a), s2) \<and> ae_Status a = 409
        \<and> ae_MissingAttachments a = cpe_MissingAttachments c))"
proof -
  have "Push D sess req s = (Inl (push_failed err), s2)"
    using assms(1,2) by (simp add: Push_def op_bind_def op_try_def)
  then show ?thesis using assms(3)
    by (auto simp: push_failed_def IsCode_def translate_def zero_app_error_def code_defs status_defs)
qed

lemma accept_net_put:
  assumes "\<not> pb_Rewrap pb" "urlFor example_client (pb_Scope pb) (pb_ID pb) = Inr u"
  shows "\<exists>resp. PutBlob example_client accept_net pb s = (Inr resp, s)"
proof -
  have j: "json_first ''{}'' = Some (JObj [], [])"
    using json_first_encode [of "JObj []" "[]"] by simp
  have "putBlobOnce example_client accept_net pb s =
    (Inr \<lparr> pr_ETag = ''7'', pr_KeyID = pb_KeyIDHex pb, pr_SourceRevision = 0 \<rparr>, s)"
    using assms(2) j
    by (simp add: putBlobOnce_def NewRequest_def accept_net_def fixed_net_def doRequest_def op_try_def op_bind_def
        op_lift_def read_limited_def putBlobAnswer_def decode_first_def struct_members_def
        dec_put_response_def field_values_def skip_ws_def header_defs equal_fold_ascii_def
        Let_def)
  then show ?thesis using assms(1)
    by (simp add: PutBlob_def PutBlobMaxAttempts_def numeral_2_eq_2 accept_net_def fixed_net_def)
qed


lemma stale_parse:
  "\<exists>c. parseError 412 (json_encode stale_body) = ECp c \<and> cpe_Code c = StatusStaleBlob \<and> cpe_CurrentETag c = ''9''
     \<and> cpe_StatusCode c = 412"
proof -
  have "json_ok 10000 stale_body" by (simp add: stale_body_def is_ascii_def)
  moreover have "json_encode stale_body \<noteq> []" by (simp add: stale_body_def)
  ultimately show ?thesis using json_parse_encode [of stale_body]
    by (simp add: parseError_def unmarshal_def struct_members_def stale_body_def dec_cp_error_def
        field_values_def status_defs del: json_encode.simps)
qed

lemma stale_net_put:
  assumes "\<not> pb_Rewrap pb" "urlFor example_client (pb_Scope pb) (pb_ID pb) = Inr u"
  shows "PutBlob example_client stale_net pb s = (Inl (parseError 412 (json_encode stale_body)), s)"
proof -
  have len: "length (json_encode stale_body) \<le> 1048576"
    by (simp add: stale_body_def jstring_def estr.simps ascii_escape_def Let_def)
  obtain c where c: "parseError 412 (json_encode stale_body) = ECp c" using stale_parse by blast
  have "putBlobOnce example_client stale_net pb s = (Inl (parseError 412 (json_encode stale_body)), s)"
    using assms(2) len
    by (simp add: putBlobOnce_def NewRequest_def stale_net_def fixed_net_def doRequest_def op_try_def
        op_bind_def op_lift_def read_limited_def isRetryablePutBlobStatus_def Let_def)
  then show ?thesis using assms(1) c
    by (simp add: PutBlob_def PutBlobMaxAttempts_def numeral_2_eq_2 stale_net_def fixed_net_def)
qed

theorem Push_conflict_witness:
  "\<exists>a s'. Push (example_deps stale_net (\<lambda>_. 0)) example_session example_push () = (Inl (EApp a), s')
     \<and> ae_Status a = 409 \<and> ae_CurrentETag a = ''9''"
proof -
  let ?D = "example_deps stale_net (\<lambda>_. 0)"
  have gz: "gzip_ok (dp_gz ?D)" by (simp add: example_deps_def example_gzip_ok)
  obtain pb where p: "push_prepare ?D example_session example_push () = (Inr (example_key, ''hello'', pb), ())"
    by (rule example_push_prepare)
  obtain u where u: "urlFor example_client (pb_Scope pb) (pb_ID pb) = Inr u" and rw: "\<not> pb_Rewrap pb"
    by (rule push_prepare_sealed [OF gz p])
      (simp add: urlFor_def PathFor_def example_push_def)
  obtain c where c: "parseError 412 (json_encode stale_body) = ECp c" "cpe_Code c = StatusStaleBlob"
    "cpe_CurrentETag c = ''9''" using stale_parse by blast
  have w: "PutBlob (dp_cp ?D) (dp_net ?D) pb () = (Inl (ECp c), ())"
    using stale_net_put [OF rw u] c(1) by (simp add: example_deps_def)
  show ?thesis using Push_conflict [OF p w, of c] c by auto
qed

section \<open>Facts on pull\<close>

lemma failed_item_simps [simp]: "pi_ID (failed_item bid c) = bid" "\<not> pi_OK (failed_item bid c)"
  by (simp_all add: failed_item_def)

lemma pulled_item_simps [simp]:
  "pi_ID (pulled_item bid blob pt kid etag prev needs) = bid"
  "pi_OK (pulled_item bid blob pt kid etag prev needs)"
  "pi_Plaintext (pulled_item bid blob pt kid etag prev needs) = b64_encode pt"
  "pi_KeyID (pulled_item bid blob pt kid etag prev needs) = kid"
  "pi_ETag (pulled_item bid blob pt kid etag prev needs) = etag"
  "pi_PreviousETag (pulled_item bid blob pt kid etag prev needs) = prev"
  "pi_NeedsRewrap (pulled_item bid blob pt kid etag prev needs) = needs"
  by (simp_all add: pulled_item_def)

text \<open>What one pulled item may be, given the blob that was fetched in state \<open>s1\<close>.\<close>

definition pulled_v2 :: "'s deps \<Rightarrow> session \<Rightarrow> scope \<Rightarrow> string \<Rightarrow> key list \<Rightarrow> get_blob_response \<Rightarrow> pull_item \<Rightarrow> bool"
  where
  "pulled_v2 D sess scope bid keys blob item =
     (\<exists>dec. DecryptV2 (dp_gz D) (gr_Ciphertext blob) keys (row_aad sess scope bid) = Inr dec
        \<and> pi_Plaintext item = b64_encode (dr_Plaintext dec) \<and> pi_KeyID item = dr_KeyIDHex dec
        \<and> pi_ETag item = gr_ETag blob \<and> pi_PreviousETag item = [] \<and> \<not> pi_NeedsRewrap item)"

definition pulled_legacy ::
  "'s deps \<Rightarrow> session \<Rightarrow> scope \<Rightarrow> string \<Rightarrow> key list \<Rightarrow> bytes \<Rightarrow> string \<Rightarrow> get_blob_response \<Rightarrow> 's \<Rightarrow> pull_item \<Rightarrow> bool"
  where
  "pulled_legacy D sess scope bid keys tk kid blob s1 item =
     (\<exists>dec. DecryptLegacy (dp_gz D) (gr_Ciphertext blob) keys = Inr dec
        \<and> pi_Plaintext item = b64_encode (dr_Plaintext dec)
        \<and> (pi_NeedsRewrap item \<and> pi_KeyID item = dr_KeyIDHex dec \<and> pi_ETag item = gr_ETag blob
           \<or> \<not> pi_NeedsRewrap item \<and> pi_KeyID item = kid \<and> pi_PreviousETag item = gr_ETag blob
             \<and> (\<exists>s2. server_rewrapBlob D sess scope bid (dr_Plaintext dec) (gr_ETag blob) tk kid s1
                       = (Inr (pi_ETag item), s2))))"

lemma pull_v2_result:
  assumes "pull_v2 D sess scope bid keys blob s = (r, s')"
  shows "\<exists>item. r = Inr item \<and> pi_ID item = bid
    \<and> (pi_OK item \<longrightarrow> pulled_v2 D sess scope bid keys blob item)"
proof -
  let ?a = "\<lparr> aad_KeyIDHex = [], aad_Scope = scope, aad_ID = aadIDForScope scope bid,
               aad_ClerkUserID = se_Subject sess \<rparr>"
  have a: "row_aad sess scope bid = ?a" by (simp add: row_aad_def)
  show ?thesis
  proof (cases "DecryptV2 (dp_gz D) (gr_Ciphertext blob) keys ?a")
    case (Inl e)
    then show ?thesis using assms by (cases e) (auto simp: pull_v2_def split: if_splits)
  next
    case (Inr dec)
    then show ?thesis using assms
      by (auto simp: pull_v2_def pulled_v2_def a op_try_def split: prod.splits)
  qed
qed

lemma pull_legacy_result:
  assumes "pull_legacy D sess scope bid keys tk kid can blob s = (r, s')"
  shows "\<exists>item. r = Inr item \<and> pi_ID item = bid
    \<and> (pi_OK item \<longrightarrow> pulled_legacy D sess scope bid keys tk kid blob s item)"
proof (cases "DecryptLegacy (dp_gz D) (gr_Ciphertext blob) keys")
  case (Inl e)
  then show ?thesis using assms by (auto simp: pull_legacy_def)
next
  case (Inr dec)
  then show ?thesis using assms
    by (auto simp: pull_legacy_def pulled_legacy_def op_try_def Let_def
        split: prod.splits if_splits sum.splits)
qed

lemma pullOne_result:
  assumes "pullOne D sess scope bid keys tk kid can s = (r, s')"
  shows "\<exists>item. r = Inr item \<and> pi_ID item = bid \<and> (pi_OK item \<longrightarrow>
    (\<exists>blob s1. GetBlob (dp_cp D) (dp_net D) scope bid (se_RawJWT sess) (se_Subject sess) s = (Inr blob, s1)
       \<and> (Detect (gr_Ciphertext blob) = VersionV2 \<and> pulled_v2 D sess scope bid keys blob item
          \<or> Detect (gr_Ciphertext blob) \<in> {VersionV0, VersionV1}
            \<and> pulled_legacy D sess scope bid keys tk kid blob s1 item)))"
proof -
  obtain g s1 where g: "GetBlob (dp_cp D) (dp_net D) scope bid (se_RawJWT sess) (se_Subject sess) s = (g, s1)"
    by (metis surj_pair)
  show ?thesis
  proof (cases g)
    case (Inl e)
    then show ?thesis using assms g by (auto simp: pullOne_def op_try_def pull_get_failed_def)
  next
    case (Inr blob)
    have run: "(case Detect (gr_Ciphertext blob) of
              VersionV2 \<Rightarrow> pull_v2 D sess scope bid keys blob
            | VersionV0 \<Rightarrow> pull_legacy D sess scope bid keys tk kid can blob
            | VersionV1 \<Rightarrow> pull_legacy D sess scope bid keys tk kid can blob
            | VersionUnknown \<Rightarrow>
                op_ret ((failed_item bid CodeBadRequest)\<lparr>pi_Reason := ''unknown_envelope_format''\<rparr>)) s1 = (r, s')"
      using assms g Inr by (simp add: pullOne_def op_try_def)
    show ?thesis
      using run g Inr by (cases "Detect (gr_Ciphertext blob)")
        (auto dest!: pull_v2_result pull_legacy_result)
  qed
qed



lemma pullOne_Inr: "\<exists>item s'. pullOne D sess scope bid keys tk kid can s = (Inr item, s') \<and> pi_ID item = bid"
  using pullOne_result [of D sess scope bid keys tk kid can s] by (metis surj_pair)

lemma case_prod_eq: "(case p of (x, u) \<Rightarrow> F x u) = z \<longleftrightarrow> (\<exists>x u. p = (x, u) \<and> F x u = z)"
  by (cases p) auto

lemma pull_distinct_props:
  assumes "\<And>i s. \<exists>item s'. f i s = (Inr item, s') \<and> pi_ID item = i"
  shows "pull_distinct f ids acc s = (out, s') \<Longrightarrow> (\<forall>i item. map_of acc i = Some item \<longrightarrow> pi_ID item = i) \<Longrightarrow>
    (\<forall>i \<in> set ids. map_of out i \<noteq> None) \<and> (\<forall>i item. map_of out i = Some item \<longrightarrow> pi_ID item = i)
    \<and> (\<forall>i. map_of acc i \<noteq> None \<longrightarrow> map_of out i = map_of acc i)"
proof (induction ids arbitrary: acc s)
  case (Cons i ids)
  show ?case
  proof (cases "map_of acc i")
    case None
    obtain item s1 where f: "f i s = (Inr item, s1)" "pi_ID item = i" using assms by blast
    let ?acc = "acc @ [(i, item)]"
    have at: "map_of ?acc i = Some item" using None by (simp add: map_add_def)
    have keep: "map_of ?acc j = map_of acc j" if "map_of acc j \<noteq> None" for j
      using that None by (cases "j = i") (simp_all add: map_add_def split: option.splits)
    have only: "map_of acc j \<noteq> None \<or> j = i" if "map_of ?acc j \<noteq> None" for j
      using that by (simp add: map_add_def split: option.splits if_splits)
    have run: "pull_distinct f ids ?acc s1 = (out, s')" using Cons.prems(1) None f by simp
    have named: "\<forall>j it. map_of ?acc j = Some it \<longrightarrow> pi_ID it = j"
      using Cons.prems(2) f(2) at keep only by (metis option.discI option.inject)
    from Cons.IH [OF run named] have
      ids: "\<forall>j \<in> set ids. map_of out j \<noteq> None" and
      out: "\<forall>j it. map_of out j = Some it \<longrightarrow> pi_ID it = j" and
      kept: "\<forall>j. map_of ?acc j \<noteq> None \<longrightarrow> map_of out j = map_of ?acc j" by blast+
    from kept at have "map_of out i = Some item" by simp
    moreover have "map_of out j = map_of acc j" if "map_of acc j \<noteq> None" for j
      using kept keep [OF that] that by metis
    ultimately show ?thesis using ids out by simp
  next
    case (Some it)
    then have "pull_distinct f ids acc s = (out, s')" using Cons.prems(1) by simp
    from Cons.IH [OF this Cons.prems(2)] show ?thesis using Some by auto
  qed
qed auto

text \<open>
  A pull answers every requested id, in order: when ids are given, the items of a successful
  pull are exactly one per requested id, in request order, each naming its id, and equal ids get
  the same item, because each distinct id is fetched once; a batch above the limit of 100 ids is
  refused.
\<close>

theorem Pull_answers_each:
  assumes "Pull D sess req s = (Inr (items, nextCursor), s')" "pq_IDs req \<noteq> []"
  shows "map pi_ID items = pq_IDs req \<and> length (pq_IDs req) \<le> 100 \<and> nextCursor = []
    \<and> (\<forall>i j. i < length items \<and> j < length items \<and> pq_IDs req ! i = pq_IDs req ! j \<longrightarrow> items ! i = items ! j)"
proof -
  from assms obtain keys kid can s1 byID where
    len: "length (pq_IDs req) \<le> 100"
    and run: "pull_distinct (\<lambda>i. pullOne D sess (pq_Scope req) i keys (key_Bytes (hd keys)) (KeyIDHex kid) can)
      (pq_IDs req) [] s1 = (byID, s')"
    and items: "items = map (\<lambda>i. the (map_of byID i)) (pq_IDs req)" "nextCursor = []"
    by (auto simp: Pull_def Let_def op_inv MaxPullIDs_def case_prod_eq split: if_splits)
  have "(\<forall>i \<in> set (pq_IDs req). map_of byID i \<noteq> None) \<and> (\<forall>i item. map_of byID i = Some item \<longrightarrow> pi_ID item = i)"
    using pull_distinct_props [OF pullOne_Inr run] by simp
  then have "map pi_ID items = pq_IDs req" unfolding items by (auto intro!: map_idI)
  moreover have "\<forall>i j. i < length items \<and> j < length items \<and> pq_IDs req ! i = pq_IDs req ! j \<longrightarrow> items ! i = items ! j"
    unfolding items by simp
  ultimately show ?thesis using len items(2) by simp
qed

definition example_pull :: pull_request where
  "example_pull = \<lparr> pq_Scope = ''project'', pq_IDs = [''p1'', ''p2'', ''p1''], pq_All = False, pq_Cursor = [],
     pq_Limit = 0, pq_Keys = [\<lparr> pk_Key = b64_encode example_key, pk_KeyID = [] \<rparr>] \<rparr>"

lemma currentPrimaryKeyIs_Inr: "\<exists>b s'. currentPrimaryKeyIs D sess kid s = (Inr b, s')"
  by (auto simp: currentPrimaryKeyIs_def op_try_def op_ret_def split: prod.splits sum.splits)

lemma example_pull_runs:
  "\<exists>items nc s'. Pull (example_deps accept_net (\<lambda>_. 0)) example_session example_pull () = (Inr (items, nc), s')"
proof -
  obtain kid where kid: "DeriveKeyID example_hkdf example_key = Inr kid"
    using DeriveKeyID_total [OF example_hkdf_ok, of example_key] by auto
  obtain b where "currentPrimaryKeyIs (example_deps accept_net (\<lambda>_. 0)) example_session (KeyIDHex kid) () = (Inr b, ())"
    by (metis currentPrimaryKeyIs_Inr unit.exhaust)
  then show ?thesis using kid
    by (simp add: Pull_def Let_def example_pull_def Scope_Valid_def scope_defs MaxPullIDs_def decodeKeys_def
        decodeKey_example op_bind_def op_try_def op_lift_def op_ret_def example_deps_def [THEN arg_cong [where f = dp_hkdf]]
        split: prod.splits del: b64_encode.simps pull_distinct.simps)
qed

theorem Pull_answers_each_witness:
  "\<exists>items nc s'. Pull (example_deps accept_net (\<lambda>_. 0)) example_session example_pull () = (Inr (items, nc), s')
     \<and> map pi_ID items = [''p1'', ''p2'', ''p1''] \<and> items ! 0 = items ! 2"
proof -
  obtain items nc s' where run: "Pull (example_deps accept_net (\<lambda>_. 0)) example_session example_pull () = (Inr (items, nc), s')"
    using example_pull_runs by blast
  have ids: "pq_IDs example_pull = [''p1'', ''p2'', ''p1'']" by (simp add: example_pull_def)
  then have "pq_IDs example_pull \<noteq> []" by simp
  note answer = Pull_answers_each [OF run this]
  then have "length items = 3" using ids by (metis length_map length_Cons list.size(3) numeral_3_eq_3)
  with answer ids have "items ! 0 = items ! 2" by simp
  with answer ids run show ?thesis by auto
qed

section \<open>Facts on delete\<close>

text \<open>The deletes of a request log, which has the latest request first, in the order they were sent.\<close>

definition deletes :: "http_request list \<Rightarrow> http_request list" where
  "deletes l = filter (\<lambda>q. rq_Method q = ''DELETE'') (rev l)"

lemma deletes_simps [simp]:
  "deletes [] = []"
  "deletes (q # l) = deletes l @ (if rq_Method q = ''DELETE'' then [q] else [])"
  "deletes (l @ l') = deletes l' @ deletes l"
  by (simp_all add: deletes_def)

lemma GetBlob_log:
  assumes "GetBlob c (net_log N) scope bid jwt user (s, l) = (r, (s', l'))"
  shows "l' = l \<or> (\<exists>url. l' = wire c ''GET'' url [] (addAuth jwt user) # l)"
proof -
  have "(\<exists>url r1 u1. send c (net_log N) ''GET'' url [] (addAuth jwt user) (s, l) = (r1, u1) \<and> snd u1 = l')
     \<or> l' = l"
    using assms unfolding GetBlob_def
    by (cases "urlFor c scope bid")
      (auto simp: op_bind_def op_try_def Let_def split: prod.splits sum.splits if_splits)
  then show ?thesis
    by (auto dest!: send_log)
qed

definition delete_hs :: "delete_blob_request \<Rightarrow> header_list \<Rightarrow> header_list" where
  "delete_hs req h = header_opt HeaderOperationHash (db_OperationHash req)
     (header_opt HeaderIdempotency (db_IdempotencyKey req)
       (header_opt HeaderIfMatch (db_IfMatch req) (addAuth (db_JWT req) (db_ClerkUserID req) h)))"

lemma DeleteBlob_log:
  assumes "DeleteBlob c (net_log N) req (s, l) = (r, (s', l'))"
  shows "l' = l \<or> (\<exists>url. l' = wire c ''DELETE'' url [] (delete_hs req) # l)"
proof -
  have "(\<exists>url r1 u1. send c (net_log N) ''DELETE'' url [] (delete_hs req) (s, l) = (r1, u1) \<and> snd u1 = l')
     \<or> l' = l"
    using assms unfolding DeleteBlob_def delete_hs_def [abs_def, symmetric]
    by (cases "urlFor c (db_Scope req) (db_ID req)")
      (auto simp: op_bind_def op_try_def Let_def delete_hs_def [abs_def] split: prod.splits sum.splits if_splits option.splits)
  then show ?thesis
    by (auto dest!: send_log)
qed

definition idem_of :: "http_request \<Rightarrow> string" where
  "idem_of q = header_get (rq_Header q) HeaderIdempotency"

lemma wire_delete [simp]:
  "rq_Method (wire c m url b hs) = m"
  "idem_of (wire c m url b (delete_hs req)) = db_IdempotencyKey req"
  by (simp_all add: wire_def idem_of_def delete_hs_def addAuth_def header_opt_def header_set_if_def
      header_get_set header_defs equal_fold_ascii_def)

lemma deleteOnce_log:
  assumes "dp_net D = net_log N" "deleteOnce D sess req key kid m (s, l) = (r, (s', l'))"
  shows "l' = l \<or> (\<exists>q. l' = q # l \<and> rq_Method q = ''DELETE'' \<and> idem_of q = dq_IdempotencyKey req)"
proof -
  from assms(2) have "l' = l \<or> (\<exists>dreq. db_IdempotencyKey dreq = dq_IdempotencyKey req
      \<and> DeleteBlob (dp_cp D) (net_log N) dreq (s, l) = (r, (s', l')))"
    unfolding assms(1) deleteOnce_def by (auto simp: op_bind_def op_lift_def split: sum.splits)
  then show ?thesis by (auto dest!: DeleteBlob_log)
qed

lemma delete_cleanup_log:
  assumes "\<not> dp_buckets_configured D" "\<not> dp_search_configured D"
  shows "delete_cleanup D sess req key resp s = (Inr True, s)"
  using assms by (simp add: delete_cleanup_def deleteBucketAttachments_def dropChatFromSearch_def op_try_def op_ret_def)

text \<open>The keys of the deletes are the retry keys of increasing attempts.\<close>

definition retry_keys :: "string \<Rightarrow> nat \<Rightarrow> nat \<Rightarrow> http_request list \<Rightarrow> bool" where
  "retry_keys idem a b ds \<longleftrightarrow>
     (\<exists>js. map idem_of ds = map (retry_idem idem) js \<and> distinct js \<and> set js \<subseteq> {a..<b})"

lemma retry_keys_Nil [simp]: "retry_keys idem a b []"
  by (auto simp: retry_keys_def)

lemma retry_keys_Suc: "retry_keys idem (Suc a) b ds \<Longrightarrow> retry_keys idem a b ds"
  unfolding retry_keys_def by fastforce

lemma retry_keys_Cons:
  assumes "retry_keys idem (Suc a) b ds" "idem_of q = retry_idem idem a" "a < b"
  shows "retry_keys idem a b (q # ds)"
proof -
  obtain js where "map idem_of ds = map (retry_idem idem) js" "distinct js" "set js \<subseteq> {Suc a..<b}"
    using assms(1) by (auto simp: retry_keys_def)
  then show ?thesis unfolding retry_keys_def using assms(2,3) by (intro exI [of _ "a # js"]) auto
qed

lemma deleteLoop_log:
  assumes "dp_net D = net_log N" "\<not> dp_buckets_configured D" "\<not> dp_search_configured D"
  shows "deleteLoop n a D sess req key kid (s, l) = (r, (s', l')) \<Longrightarrow>
    \<exists>new. l' = new @ l \<and> retry_keys (dq_IdempotencyKey req) a (a + n) (deletes new)"
proof (induction n arbitrary: a s l)
  case (Suc n)
  obtain g s1 l1 where g: "GetBlob (dp_cp D) (net_log N) (dq_Scope req) (dq_ID req) (se_RawJWT sess)
      (se_Subject sess) (s, l) = (g, (s1, l1))" by (metis surj_pair)
  have "\<exists>new1. l1 = new1 @ l \<and> deletes new1 = []"
  proof (cases "l1 = l")
    case False
    with GetBlob_log [OF g] obtain url where "l1 = [wire (dp_cp D) ''GET'' url [] (addAuth (se_RawJWT sess) (se_Subject sess))] @ l"
      by auto
    then show ?thesis by (rule_tac exI, intro conjI, assumption) simp
  qed auto
  then obtain new1 where l1: "l1 = new1 @ l" "deletes new1 = []" by blast
  show ?case
  proof (cases g)
    case (Inl err)
    then have "l' = l1" using Suc.prems g assms
      by (auto simp: dropChatFromSearch_def op_try_def op_ret_def split: option.splits if_splits)
    then show ?thesis using l1 by auto
  next
    case (Inr blob)
    let ?idem = "dq_IdempotencyKey req"
    let ?req = "req\<lparr>dq_IdempotencyKey := retry_idem ?idem a\<rparr>"
    obtain d s2 l2 where d: "deleteOnce D sess ?req key kid (gr_ETag blob) (s1, l1) = (d, (s2, l2))"
      by (metis surj_pair)
    from deleteOnce_log [OF assms(1) d] obtain new2 where l2: "l2 = new2 @ l1"
      "new2 = [] \<or> (\<exists>q. new2 = [q] \<and> rq_Method q = ''DELETE'' \<and> idem_of q = retry_idem ?idem a)"
      by auto
    have "(l' = l2) \<or> deleteLoop n (Suc a) D sess req key kid (s2, l2) = (r, (s', l'))"
      using Suc.prems g d Inr assms(1) delete_cleanup_log [OF assms(2,3)]
      by (cases d) (auto split: if_splits)
    then obtain new where new: "l' = new @ l2" "retry_keys ?idem (Suc a) (Suc a + n) (deletes new)"
      using Suc.IH by fastforce
    have "retry_keys ?idem a (a + Suc n) (deletes (new @ new2 @ new1))"
      using l2(2) l1(2) retry_keys_Suc [OF new(2)] retry_keys_Cons [OF new(2)] by auto
    moreover have "l' = (new @ new2 @ new1) @ l" using new(1) l2(1) l1(1) by simp
    ultimately show ?thesis by blast
  qed
qed auto

lemma retry_idem_inj: "i < 3 \<Longrightarrow> j < 3 \<Longrightarrow> retry_idem idem i = retry_idem idem j \<Longrightarrow> i = j"
proof -
  assume "i < 3" "j < 3" and eq: "retry_idem idem i = retry_idem idem j"
  moreover have "itoa (int 1) \<noteq> itoa (int 2)" by code_simp
  ultimately show "i = j" by (auto simp: retry_idem_def numeral_3_eq_3 less_Suc_eq split: if_splits)
qed

lemma retry_keys_bound:
  assumes "retry_keys idem 0 3 ds"
  shows "length ds \<le> 3 \<and> distinct (map idem_of ds)"
proof -
  obtain js where js: "map idem_of ds = map (retry_idem idem) js" "distinct js" "set js \<subseteq> {0..<3}"
    using assms by (auto simp: retry_keys_def)
  have "card (set js) \<le> 3" using card_mono [OF _ js(3)] by simp
  then have "length ds \<le> 3" using js(1,2) by (metis distinct_card length_map)
  moreover have "inj_on (retry_idem idem) (set js)"
    using js(3) retry_idem_inj by (intro inj_onI) (metis atLeastLessThan_iff subsetD)
  ultimately show ?thesis using js by (simp add: distinct_map)
qed


definition example_delete :: delete_request where
  "example_delete = \<lparr> dq_Scope = ''project'', dq_ID = ''p1'', dq_IfMatch = None, dq_IdempotencyKey = ''d1'',
     dq_Key = b64_encode example_key \<rparr>"


section \<open>The current key\<close>

text \<open>
  When the controlplane answers that there is no current key, the handler answers with a null key
  id and no error.
\<close>

lemma KeyCurrent_missing:
  assumes "GetCurrentKey (dp_cp D) (dp_net D) (se_RawJWT sess) (se_Subject sess) s = (Inr None, s')"
  shows "KeyCurrent D sess s = (Inr (no_key_response False), s')"
  using assms by (simp add: KeyCurrent_def op_bind_def op_try_def op_ret_def)

end
