(* ===== verification/Server_Migrate.thy ===== *)
theory Server_Migrate
  imports Server_Ops "HOL-Library.Sublist"
begin

text \<open>
  Migration of \<^verbatim>\<open>internal/server/ops.go\<close>: one row, one page of rows, and the loop over all scopes
  under a wall-clock budget, whose progress reports are returned as a list of events in the
  order the source makes them.

  The loop over the pages of a scope ends when a page makes no progress, nothing is left, or the
  budget is used up; it is modelled with fuel, and \<open>migrateScope_returns\<close> shows that
  when every page takes time there is enough of it (in \<^verbatim>\<open>Op_Order\<close>).
\<close>

section \<open>One row\<close>

definition decryptAnyVersion ::
  "gzip_lib \<Rightarrow> bytes \<Rightarrow> key list \<Rightarrow> scope \<Rightarrow> string \<Rightarrow> string \<Rightarrow> bytes option" where
  "decryptAnyVersion gz ciphertext keys scope bid clerkUserID =
     (case Detect ciphertext of
        VersionV2 \<Rightarrow>
          (case DecryptV2 gz ciphertext keys
                  \<lparr> aad_KeyIDHex = [], aad_Scope = scope, aad_ID = aadIDForScope scope bid,
                    aad_ClerkUserID = clerkUserID \<rparr> of
             Inl _ \<Rightarrow> None | Inr dec \<Rightarrow> Some (dr_Plaintext dec))
      | VersionV0 \<Rightarrow>
          (case DecryptLegacy gz ciphertext keys of Inl _ \<Rightarrow> None | Inr dec \<Rightarrow> Some (dr_Plaintext dec))
      | VersionV1 \<Rightarrow>
          (case DecryptLegacy gz ciphertext keys of Inl _ \<Rightarrow> None | Inr dec \<Rightarrow> Some (dr_Plaintext dec))
      | VersionUnknown \<Rightarrow> None)"

definition migrateRewrapMaxRetries :: nat where "migrateRewrapMaxRetries = 3"

fun migrateLoop ::
  "nat \<Rightarrow> 's deps \<Rightarrow> session \<Rightarrow> scope \<Rightarrow> string \<Rightarrow> key list \<Rightarrow> bytes \<Rightarrow> string \<Rightarrow> 's \<Rightarrow> bool \<times> 's" where
  "migrateLoop 0 D sess scope bid keys targetKey targetKIDHex s = (False, s)"
| "migrateLoop (Suc n) D sess scope bid keys targetKey targetKIDHex s =
     (case GetBlob (dp_cp D) (dp_net D) scope bid (se_RawJWT sess) (se_Subject sess) s of
        (Inl _, s1) \<Rightarrow> (False, s1)
      | (Inr blob, s1) \<Rightarrow>
          if Detect (gr_Ciphertext blob) = VersionV2 \<and> gr_KeyID blob = targetKIDHex then (True, s1)
          else (case decryptAnyVersion (dp_gz D) (gr_Ciphertext blob) keys scope bid (se_Subject sess) of
                  None \<Rightarrow> (False, s1)
                | Some plaintext \<Rightarrow>
                    (case server_rewrapBlob D sess scope bid plaintext (gr_ETag blob) targetKey targetKIDHex s1 of
                       (Inr _, s2) \<Rightarrow> (True, s2)
                     | (Inl rerr, s2) \<Rightarrow>
                         if IsCode rerr StatusStaleBlob
                         then migrateLoop n D sess scope bid keys targetKey targetKIDHex s2
                         else (False, s2))))"

definition migrateOne ::
  "'s deps \<Rightarrow> session \<Rightarrow> scope \<Rightarrow> string \<Rightarrow> key list \<Rightarrow> bytes \<Rightarrow> string \<Rightarrow> 's \<Rightarrow> bool \<times> 's" where
  "migrateOne D sess scope bid keys targetKey targetKIDHex =
     migrateLoop migrateRewrapMaxRetries D sess scope bid keys targetKey targetKIDHex"

section \<open>One page\<close>

record migrate_request =
  mq_Scope :: string
  mq_IDs :: "string list"
  mq_Limit :: int
  mq_Keys :: "pull_key list"
  mq_TargetKey :: string

record migrate_response =
  mr_Migrated :: int
  mr_RetryableRemaining :: int
  mr_BlockedUnmigrated :: int
  mr_Blocked :: "string list"

text \<open>The loop over the ids: how many were migrated and which were blocked.\<close>

fun migrateIDs ::
  "'s deps \<Rightarrow> session \<Rightarrow> scope \<Rightarrow> key list \<Rightarrow> bytes \<Rightarrow> string \<Rightarrow> string list \<Rightarrow> int \<times> string list \<Rightarrow>
   's \<Rightarrow> (int \<times> string list) \<times> 's" where
  "migrateIDs D sess scope keys tk kid [] acc s = (acc, s)"
| "migrateIDs D sess scope keys tk kid (i # ids) (migrated, blocked) s =
     (if net_ctx_err (dp_net D) s then ((migrated, blocked), s)
      else case migrateOne D sess scope i keys tk kid s of
             (True, s1) \<Rightarrow> migrateIDs D sess scope keys tk kid ids (migrated + 1, blocked) s1
           | (False, s1) \<Rightarrow>
               if net_ctx_err (dp_net D) s1 then ((migrated, blocked), s1)
               else (case RecordMigrationFailure (dp_cp D) (dp_net D) scope i (se_RawJWT sess)
                            (se_Subject sess) s1 of
                       (_, s2) \<Rightarrow> migrateIDs D sess scope keys tk kid ids (migrated, blocked @ [i]) s2))"

definition Migrate :: "'s deps \<Rightarrow> session \<Rightarrow> migrate_request \<Rightarrow> ('s, migrate_response) op" where
  "Migrate D sess req =
     (if \<not> Scope_Valid (mq_Scope req) then op_err (badRequest ''invalid scope'')
      else if mq_Keys req = [] then op_err (badRequest ''keys is required and must not be empty'')
      else let limit = (if mq_Limit req \<le> 0 \<or> maxListStatusPageSize < mq_Limit req
                        then defaultMigratePageSize else mq_Limit req)
      in op_bind (op_lift (requestKey ''invalid target.key: '' (mq_TargetKey req))) (\<lambda>targetKey.
         op_bind (op_lift (DeriveKeyID (dp_hkdf D) targetKey)) (\<lambda>kidBytes.
         op_bind (op_lift (decodeKeys (dp_hkdf D) (mq_Keys req))) (\<lambda>keys.
         op_bind (if mq_IDs req \<noteq> [] then op_ret (mq_IDs req, 0, 0)
                  else op_bind (ListNeedsMigration (dp_cp D) (dp_net D) (mq_Scope req) limit
                                  (se_RawJWT sess) (se_Subject sess))
                         (\<lambda>l. op_ret (nm_IDs l, nm_RetryableRemaining l, nm_BlockedUnmigrated l)))
           (\<lambda>(ids, retryable, blockedUnmigrated) s.
         case migrateIDs D sess (mq_Scope req) keys targetKey (KeyIDHex kidBytes) ids (0, []) s of
           ((migrated, blocked), s') \<Rightarrow>
             (Inr (if mq_IDs req = []
                   then \<lparr> mr_Migrated = migrated, mr_RetryableRemaining = max 0 (retryable - migrated),
                          mr_BlockedUnmigrated = blockedUnmigrated, mr_Blocked = blocked \<rparr>
                   else \<lparr> mr_Migrated = migrated, mr_RetryableRemaining = 0,
                          mr_BlockedUnmigrated = int (length blocked), mr_Blocked = blocked \<rparr>), s'))))))"

section \<open>All scopes\<close>

record scope_report =
  sr_Scope :: string
  sr_Migrated :: int
  sr_RetryableRemaining :: int
  sr_BlockedUnmigrated :: int
  sr_Blocked :: "string list"

record migrate_all_response =
  ma_Migrated :: int
  ma_RetryableRemaining :: int
  ma_BlockedUnmigrated :: int
  ma_Partial :: bool
  ma_Scopes :: "scope_report list"

text \<open>What the loop tells its progress reporter.\<close>

datatype progress = ReportScope scope_report | MarkPartial

record migrate_all_request =
  mal_Keys :: "pull_key list"
  mal_TargetKey :: string

definition MigrateAllBudget :: gtime where "MigrateAllBudget = 600 * 1000000000"
definition migrateAllScopeMaxBatch :: int where "migrateAllScopeMaxBatch = 200"

definition isAuthError :: "go_error \<Rightarrow> bool" where
  "isAuthError err =
     (case errors_as_cp err of None \<Rightarrow> False | Some c \<Rightarrow> cpe_StatusCode c = 401 \<or> cpe_StatusCode c = 403)"

definition ensureCurrentKeyRegistered :: "'s deps \<Rightarrow> session \<Rightarrow> string \<Rightarrow> ('s, unit) op" where
  "ensureCurrentKeyRegistered D sess targetKeyB64 =
     op_try (GetCurrentKey (dp_cp D) (dp_net D) (se_RawJWT sess) (se_Subject sess)) (\<lambda>r.
       case r of
         Inl err \<Rightarrow> op_err (wrap_prefix ''inspect current key: '' err)
       | Inr current \<Rightarrow>
           op_bind (op_lift (requestKey ''invalid target.key: '' targetKeyB64)) (\<lambda>targetBytes.
           op_bind (op_lift (DeriveKeyID (dp_hkdf D) targetBytes)) (\<lambda>kidBytes.
           case current of
             Some k \<Rightarrow>
               if ck_KeyID k \<noteq> [] then
                 if ck_KeyID k \<noteq> KeyIDHex kidBytes
                 then op_err (EApp (zero_app_error\<lparr>ae_Status := 409, ae_Code := StatusStaleKey,
                        ae_Reason := ''stale_key'',
                        ae_Message := ''migration target is not the registered current key''\<rparr>))
                 else op_ret ()
               else op_err (EApp (zero_app_error\<lparr>ae_Status := 409, ae_Code := CodeUnknownKey,
                        ae_Reason := ''no_current_key'',
                        ae_Message := ''no current key registered; register the primary key before migrating''\<rparr>))
           | None \<Rightarrow> op_err (EApp (zero_app_error\<lparr>ae_Status := 409, ae_Code := CodeUnknownKey,
                        ae_Reason := ''no_current_key'',
                        ae_Message := ''no current key registered; register the primary key before migrating''\<rparr>)))))"

text \<open>The dependencies under the sub-context of a page, which is done at the deadline.\<close>

definition with_deadline :: "'s deps \<Rightarrow> gtime \<Rightarrow> 's deps" where
  "with_deadline D deadline =
     D\<lparr>dp_net := (dp_net D)\<lparr>net_ctx_err := (\<lambda>s. net_ctx_err (dp_net D) s \<or> deadline \<le> dp_now D s)\<rparr>\<rparr>"

text \<open>
  The pages of one scope. The result is the error that ends the whole run, or the scope's report
  and whether the run became partial; the events are those reported on the way. \<open>None\<close> means
  that the fuel ran out.
\<close>

fun migrateScope ::
  "nat \<Rightarrow> 's deps \<Rightarrow> session \<Rightarrow> migrate_all_request \<Rightarrow> gtime \<Rightarrow> scope_report \<Rightarrow> progress list \<Rightarrow> 's \<Rightarrow>
   (((scope_report \<times> bool) result \<times> progress list) \<times> 's) option" where
  "migrateScope 0 D sess req deadline rep ev s = None"
| "migrateScope (Suc n) D sess req deadline rep ev s =
     (if net_ctx_err (dp_net D) s \<or> deadline \<le> dp_now D s
      then Some ((Inr (rep, True), ev @ [MarkPartial]), s)
      else case Migrate (with_deadline D deadline) sess
                  \<lparr> mq_Scope = sr_Scope rep, mq_IDs = [], mq_Limit = migrateAllScopeMaxBatch,
                    mq_Keys = mal_Keys req, mq_TargetKey = mal_TargetKey req \<rparr> s of
             (Inl err, s') \<Rightarrow>
               if isAuthError err then Some ((Inr (rep, True), ev @ [MarkPartial]), s')
               else Some ((Inl err, ev), s')
           | (Inr page, s') \<Rightarrow>
               (let rep' = rep\<lparr>sr_Migrated := sr_Migrated rep + mr_Migrated page,
                               sr_Blocked := sr_Blocked rep @ mr_Blocked page,
                               sr_RetryableRemaining := mr_RetryableRemaining page,
                               sr_BlockedUnmigrated := mr_BlockedUnmigrated page\<rparr>;
                    ev' = ev @ [ReportScope rep']
                in if mr_Migrated page = 0 \<or> mr_RetryableRemaining page = 0
                   then Some ((Inr (rep', False), ev'), s')
                   else migrateScope n D sess req deadline rep' ev' s'))"

definition zero_report :: "string \<Rightarrow> scope_report" where
  "zero_report scope = \<lparr> sr_Scope = scope, sr_Migrated = 0, sr_RetryableRemaining = 0,
     sr_BlockedUnmigrated = 0, sr_Blocked = [] \<rparr>"

fun migrateScopes ::
  "nat \<Rightarrow> 's deps \<Rightarrow> session \<Rightarrow> migrate_all_request \<Rightarrow> gtime \<Rightarrow> string list \<Rightarrow> migrate_all_response \<Rightarrow>
   progress list \<Rightarrow> 's \<Rightarrow> ((migrate_all_response result \<times> progress list) \<times> 's) option" where
  "migrateScopes fuel D sess req deadline [] out ev s = Some ((Inr out, ev), s)"
| "migrateScopes fuel D sess req deadline (scope # scopes) out ev s =
     (case migrateScope fuel D sess req deadline (zero_report scope) ev s of
        None \<Rightarrow> None
      | Some ((Inl err, ev'), s') \<Rightarrow> Some ((Inl err, ev'), s')
      | Some ((Inr (rep, partial), ev'), s') \<Rightarrow>
          (let out' = \<lparr> ma_Migrated = ma_Migrated out + sr_Migrated rep,
                        ma_RetryableRemaining = ma_RetryableRemaining out + sr_RetryableRemaining rep,
                        ma_BlockedUnmigrated = ma_BlockedUnmigrated out + sr_BlockedUnmigrated rep,
                        ma_Partial = partial, ma_Scopes = ma_Scopes out @ [rep] \<rparr>
           in if partial then Some ((Inr out', ev'), s')
              else migrateScopes fuel D sess req deadline scopes out' ev' s'))"

definition migrateScopeOrder :: "string list" where
  "migrateScopeOrder = [ScopeProfile, ScopeChat, ScopeProject, ScopeProjectDocument]"

definition migrateAllWithProgress ::
  "nat \<Rightarrow> 's deps \<Rightarrow> session \<Rightarrow> migrate_all_request \<Rightarrow> 's \<Rightarrow>
   ((migrate_all_response result \<times> progress list) \<times> 's) option" where
  "migrateAllWithProgress fuel D sess req s =
     (if mal_Keys req = []
      then Some ((Inl (badRequest ''keys is required and must not be empty''), []), s)
      else if mal_TargetKey req = [] then Some ((Inl (badRequest ''target.key is required''), []), s)
      else case ensureCurrentKeyRegistered D sess (mal_TargetKey req) s of
             (Inl err, s') \<Rightarrow> Some ((Inl err, []), s')
           | (Inr _, s') \<Rightarrow>
               migrateScopes fuel D sess req (dp_now D s' + MigrateAllBudget) migrateScopeOrder
                 \<lparr> ma_Migrated = 0, ma_RetryableRemaining = 0, ma_BlockedUnmigrated = 0,
                   ma_Partial = False, ma_Scopes = [] \<rparr> [] s')"

section \<open>Facts on one page\<close>

text \<open>
  The count and the blocked ids grow by what was done; ids are left over only when the context
  is done.
\<close>

lemma migrateIDs_props:
  "migrateIDs D sess scope keys tk kid ids (m, b) s = ((m', b'), s') \<Longrightarrow>
   \<exists>new. b' = b @ new \<and> subseq new ids \<and> m \<le> m' \<and> m' - m + int (length new) \<le> int (length ids)
     \<and> (net_ctx_err (dp_net D) s' \<or> m' - m + int (length new) = int (length ids))"
proof (induction ids arbitrary: m b s)
  case (Cons i ids)
  show ?case
  proof (cases "net_ctx_err (dp_net D) s")
    case True
    then show ?thesis using Cons.prems by auto
  next
    case go: False
    obtain ok s1 where one: "migrateOne D sess scope i keys tk kid s = (ok, s1)" by (metis surj_pair)
    show ?thesis
    proof (cases ok)
      case True
      then have "migrateIDs D sess scope keys tk kid ids (m + 1, b) s1 = ((m', b'), s')"
        using Cons.prems go one by simp
      from Cons.IH [OF this] show ?thesis by (fastforce intro: list_emb_Cons)
    next
      case False
      show ?thesis
      proof (cases "net_ctx_err (dp_net D) s1")
        case True
        then show ?thesis using Cons.prems go one False by auto
      next
        case c1: False
        then obtain s2 where "migrateIDs D sess scope keys tk kid ids (m, b @ [i]) s2 = ((m', b'), s')"
          using Cons.prems go one False by (auto split: prod.splits)
        from Cons.IH [OF this] obtain new where new: "b' = b @ [i] @ new" "subseq new ids" "m \<le> m'"
          "m' - m + int (length new) \<le> int (length ids)"
          "net_ctx_err (dp_net D) s' \<or> m' - m + int (length new) = int (length ids)" by auto
        then show ?thesis by (intro exI [of _ "i # new"]) auto
      qed
    qed
  qed
qed simp

text \<open>
  A migration page accounts for every row: the migrated and the blocked rows never exceed the
  requested ones, and make them up exactly unless the request's context ended on the way; the
  blocked list is a subsequence of the requested ids; and nothing is reported as remaining for
  an explicit list of ids.
\<close>

theorem Migrate_accounts:
  assumes "Migrate D sess req s = (Inr out, s')" "mq_IDs req \<noteq> []"
  shows "subseq (mr_Blocked out) (mq_IDs req) \<and> 0 \<le> mr_Migrated out
    \<and> mr_Migrated out + mr_BlockedUnmigrated out \<le> int (length (mq_IDs req))
    \<and> (net_ctx_err (dp_net D) s' \<or> mr_Migrated out + mr_BlockedUnmigrated out = int (length (mq_IDs req)))
    \<and> mr_BlockedUnmigrated out = int (length (mr_Blocked out)) \<and> mr_RetryableRemaining out = 0"
proof -
  from assms obtain keys tk kid s1 m b where
    run: "migrateIDs D sess (mq_Scope req) keys tk (KeyIDHex kid) (mq_IDs req) (0, []) s1 = ((m, b), s')"
    and out: "out = \<lparr> mr_Migrated = m, mr_RetryableRemaining = 0, mr_BlockedUnmigrated = int (length b),
                      mr_Blocked = b \<rparr>"
    by (auto simp: Migrate_def Let_def op_inv case_prod_eq split: if_splits)
  show ?thesis using migrateIDs_props [OF run] by (auto simp: out)
qed

definition example_migrate :: migrate_request where
  "example_migrate = \<lparr> mq_Scope = ''project'', mq_IDs = [''p1'', ''p2''], mq_Limit = 0,
     mq_Keys = [\<lparr> pk_Key = b64_encode example_key, pk_KeyID = [] \<rparr>], mq_TargetKey = b64_encode example_key \<rparr>"

lemma example_migrate_runs:
  "\<exists>out s'. Migrate (example_deps accept_net (\<lambda>_. 0)) example_session example_migrate () = (Inr out, s')"
proof -
  obtain kid where kid: "DeriveKeyID example_hkdf example_key = Inr kid"
    using DeriveKeyID_total [OF example_hkdf_ok, of example_key] by auto
  then show ?thesis
    by (simp add: Migrate_def Let_def example_migrate_def Scope_Valid_def scope_defs decodeKeys_def requestKey_def
        decodeKey_example op_bind_def op_try_def op_lift_def op_ret_def
        example_deps_def [THEN arg_cong [where f = dp_hkdf]]
        split: prod.splits del: b64_encode.simps migrateIDs.simps)
qed

theorem Migrate_accounts_witness:
  "\<exists>out s'. Migrate (example_deps accept_net (\<lambda>_. 0)) example_session example_migrate () = (Inr out, s')
     \<and> mr_Migrated out + mr_BlockedUnmigrated out = 2"
proof -
  obtain out s' where run: "Migrate (example_deps accept_net (\<lambda>_. 0)) example_session example_migrate () = (Inr out, s')"
    using example_migrate_runs by blast
  have "mq_IDs example_migrate \<noteq> []" "length (mq_IDs example_migrate) = 2" by (simp_all add: example_migrate_def)
  moreover have "\<not> net_ctx_err (dp_net (example_deps accept_net (\<lambda>_. 0))) s'"
    by (simp add: example_deps_def accept_net_def fixed_net_def)
  ultimately show ?thesis using Migrate_accounts [OF run] run by auto
qed

end
