(* ===== verification/Op_Order.thy ===== *)
theory Op_Order
  imports Server_Migrate
begin

text \<open>
  Operations that only move the world forward. \<open>op_order\<close> is the interface of a preorder on the
  states of the world, \<open>net_order\<close> and \<open>deps_order\<close> add that the network and the other
  dependencies respect it, and the lemmas inside show that the controlplane calls and the
  migration handlers then respect it too, whatever the preorder is. It is interpreted on the
  request log, which only grows, and used with the clock to show that migration ends.
\<close>

section \<open>Operations that respect an order\<close>

definition op_keeps :: "('s \<Rightarrow> 's \<Rightarrow> bool) \<Rightarrow> ('s \<Rightarrow> 'a \<times> 's) \<Rightarrow> bool" where
  "op_keeps le m \<longleftrightarrow> (\<forall>s. le s (snd (m s)))"

lemma op_keepsI: "(\<And>s r s'. m s = (r, s') \<Longrightarrow> le s s') \<Longrightarrow> op_keeps le m"
  by (auto simp: op_keeps_def) (metis surj_pair snd_conv)

lemma op_keepsD: "op_keeps le m \<Longrightarrow> m s = (r, s') \<Longrightarrow> le s s'"
  by (metis op_keeps_def snd_conv)

locale op_order =
  fixes le :: "'s \<Rightarrow> 's \<Rightarrow> bool"
  assumes le_refl: "le s s"
    and le_trans: "le s t \<Longrightarrow> le t u \<Longrightarrow> le s u"
begin

lemma keeps_prim: "op_keeps le (op_ret x)" "op_keeps le (op_err e)" "op_keeps le (op_lift r)"
  by (simp_all add: op_keeps_def le_refl)

lemma keeps_try: "op_keeps le m \<Longrightarrow> (\<And>r. op_keeps le (f r)) \<Longrightarrow> op_keeps le (op_try m f)"
  unfolding op_keeps_def op_try_def by (auto split: prod.splits intro: le_trans)

lemma keeps_bind: "op_keeps le m \<Longrightarrow> (\<And>x. op_keeps le (f x)) \<Longrightarrow> op_keeps le (op_bind m f)"
  unfolding op_bind_def by (rule keeps_try) (auto split: sum.splits intro: keeps_prim)

end

lemma keeps_if: "(b \<Longrightarrow> op_keeps le m) \<Longrightarrow> (\<not> b \<Longrightarrow> op_keeps le n) \<Longrightarrow> op_keeps le (if b then m else n)"
  and keeps_sum: "(\<And>e. op_keeps le (f e)) \<Longrightarrow> (\<And>x. op_keeps le (g x)) \<Longrightarrow> op_keeps le (case_sum f g r)"
  and keeps_option: "op_keeps le m \<Longrightarrow> (\<And>x. op_keeps le (h x)) \<Longrightarrow> op_keeps le (case_option m h o')"
  and keeps_prod: "(\<And>x y. op_keeps le (k x y)) \<Longrightarrow> op_keeps le (case_prod k p)"
  by (simp_all split: sum.split option.split prod.split)

lemmas keeps_cases = keeps_if keeps_sum keeps_option keeps_prod

locale net_order = op_order le for le :: "'s \<Rightarrow> 's \<Rightarrow> bool" +
  fixes N :: "'s net"
  assumes le_net_do: "le s (snd (net_do N q s))"
begin

lemma keeps_doRequest: "op_keeps le (doRequest c N q)"
  unfolding op_keeps_def doRequest_def using le_net_do by (auto split: prod.splits sum.splits) (metis snd_conv)+

lemma keeps_send: "op_keeps le (send c N meth url body hs)"
  unfolding send_def by (intro keeps_bind keeps_prim keeps_doRequest)

lemmas keeps_step = keeps_bind keeps_try keeps_prim keeps_send keeps_doRequest keeps_cases

lemma keeps_GetBlob: "op_keeps le (GetBlob c N scope bid jwt user)"
  unfolding GetBlob_def Let_def by (intro keeps_step)

lemma keeps_ListNeedsMigration: "op_keeps le (ListNeedsMigration c N scope limit jwt user)"
  unfolding ListNeedsMigration_def Let_def by (intro keeps_step)

lemma keeps_RecordMigrationFailure: "op_keeps le (RecordMigrationFailure c N scope bid jwt user)"
  unfolding RecordMigrationFailure_def post_ignoring_def [abs_def]
  by (intro keeps_step)

lemma keeps_GetLegacyAttachment: "op_keeps le (GetLegacyAttachment c N jwt user aid)"
  unfolding GetLegacyAttachment_def Let_def by (intro keeps_step)

lemma keeps_RegisterAttachmentIndex: "op_keeps le (RegisterAttachmentIndex c N jwt user aid chat)"
  unfolding RegisterAttachmentIndex_def postAttachmentChatID_def Let_def by (intro keeps_step)

lemma keeps_putBlobLoop: "op_keeps le (putBlobLoop n c N req)"
proof -
  have once: "op_keeps le (putBlobOnce c N req)"
    unfolding putBlobOnce_def Let_def by (intro keeps_step)
  have "le s (snd (putBlobLoop n c N req s))" for s
  proof (induction n arbitrary: s)
    case (Suc n)
    obtain r s1 where p: "putBlobOnce c N req s = (r, s1)" by (metis surj_pair)
    have "le s s1" using once p by (rule op_keepsD)
    then show ?case using p Suc [of s1] by (auto simp: le_refl split: sum.splits intro: le_trans)
  qed (simp add: le_refl)
  then show ?thesis by (simp add: op_keeps_def)
qed

lemma keeps_PutBlob: "op_keeps le (PutBlob c N req)"
  unfolding PutBlob_def rewrapBlob_def Let_def by (intro keeps_step keeps_putBlobLoop)

end

locale deps_order = net_order le "dp_net D" for le :: "'s \<Rightarrow> 's \<Rightarrow> bool" and D :: "'s deps" +
  assumes le_entropy: "le s (snd (dp_entropy D s))"
    and le_buckets_Put: "le s (snd (dp_buckets_Put D owner aid pt key s))"
begin

lemma keeps_with_entropy: "op_keeps le (with_entropy D f)"
  unfolding op_keeps_def with_entropy_def using le_entropy by (auto split: prod.splits) (metis snd_conv)

lemma keeps_buckets_Put: "op_keeps le (dp_buckets_Put D owner aid pt key)"
  by (simp add: op_keeps_def le_buckets_Put)

lemma keeps_promote: "op_keeps le (promoteOneAttachment D sess chat aid key)"
  unfolding promoteOneAttachment_def Let_def
  by (intro keeps_step keeps_GetLegacyAttachment keeps_RegisterAttachmentIndex keeps_buckets_Put)

lemma keeps_rewrap_attachment: "op_keeps le (rewrap_attachment D sess chat a acc)"
proof (rule op_keepsI)
  fix s r s' assume "rewrap_attachment D sess chat a acc s = (r, s')"
  then have "s' = s \<or> (\<exists>i k r'. promoteOneAttachment D sess chat i k s = (r', s'))"
    by (auto simp: rewrap_attachment_def Let_def split: json.splits if_splits prod.splits sum.splits)
  then show "le s s'" by (auto intro: le_refl op_keepsD [OF keeps_promote])
qed

lemma keeps_rewrap_attachments: "op_keeps le (rewrap_attachments D sess chat as acc)"
proof -
  have "le s (snd (rewrap_attachments D sess chat as acc s))" for s
  proof (induction as arbitrary: acc s)
    case (Cons a as)
    obtain a' acc' s1 where p: "rewrap_attachment D sess chat a acc s = ((a', acc'), s1)" by (metis surj_pair)
    from keeps_rewrap_attachment p have "le s s1" by (rule op_keepsD)
    then show ?case using p Cons [of s1 acc'] by (auto split: prod.splits intro: le_trans)
  qed (simp add: le_refl)
  then show ?thesis by (simp add: op_keeps_def)
qed

lemma keeps_rewrap_message: "op_keeps le (rewrap_message D sess chat m acc)"
proof (rule op_keepsI)
  fix s r s' assume "rewrap_message D sess chat m acc s = (r, s')"
  then have "s' = s \<or> (\<exists>as r'. rewrap_attachments D sess chat as acc s = (r', s'))"
    by (auto simp: rewrap_message_def split: json.splits option.splits prod.splits)
  then show "le s s'" by (auto intro: le_refl op_keepsD [OF keeps_rewrap_attachments])
qed

lemma keeps_rewrap_messages: "op_keeps le (rewrap_messages D sess chat ms acc)"
proof -
  have "le s (snd (rewrap_messages D sess chat ms acc s))" for s
  proof (induction ms arbitrary: acc s)
    case (Cons m ms)
    obtain m' acc' s1 where p: "rewrap_message D sess chat m acc s = ((m', acc'), s1)" by (metis surj_pair)
    from keeps_rewrap_message p have "le s s1" by (rule op_keepsD)
    then show ?case using p Cons [of s1 acc'] by (auto split: prod.splits intro: le_trans)
  qed (simp add: le_refl)
  then show ?thesis by (simp add: op_keeps_def)
qed

lemma keeps_rewrapChatAttachments: "op_keeps le (rewrapChatAttachments D sess chat pt)"
proof (rule op_keepsI)
  fix s r s' assume "rewrapChatAttachments D sess chat pt s = (r, s')"
  then have "s' = s \<or> (\<exists>ms r'. rewrap_messages D sess chat ms ([], False) s = (r', s'))"
    by (auto simp: rewrapChatAttachments_def split: json.splits option.splits prod.splits if_splits)
  then show "le s s'" by (auto intro: le_refl op_keepsD [OF keeps_rewrap_messages])
qed

lemma keeps_server_rewrapBlob: "op_keeps le (server_rewrapBlob D sess scope bid pt etag tk kid)"
  unfolding server_rewrapBlob_def Let_def
  by (intro keeps_step keeps_rewrapChatAttachments keeps_with_entropy keeps_PutBlob)

lemma keeps_migrateOne: "op_keeps le (migrateOne D sess scope bid keys tk kid)"
proof -
  have "le s (snd (migrateLoop n D sess scope bid keys tk kid s))" for n s
  proof (induction n arbitrary: s)
    case (Suc n)
    obtain g s1 where g: "GetBlob (dp_cp D) (dp_net D) scope bid (se_RawJWT sess) (se_Subject sess) s = (g, s1)"
      by (metis surj_pair)
    from keeps_GetBlob g have s1: "le s s1" by (rule op_keepsD)
    have "le s1 s2" if "server_rewrapBlob D sess scope bid pt etag tk kid s1 = (r, s2)" for pt etag r s2
      using keeps_server_rewrapBlob that by (rule op_keepsD)
    then show ?case using g s1 Suc
      by (auto split: sum.splits option.splits prod.splits intro: le_trans) (metis le_trans)+
  qed (simp add: le_refl)
  then show ?thesis by (simp add: op_keeps_def migrateOne_def)
qed

lemma keeps_migrateIDs: "op_keeps le (migrateIDs D sess scope keys tk kid ids acc)"
proof -
  have "le s (snd (migrateIDs D sess scope keys tk kid ids (m, b) s))" for m b s
  proof (induction ids arbitrary: m b s)
    case (Cons i ids)
    obtain ok s1 where one: "migrateOne D sess scope i keys tk kid s = (ok, s1)" by (metis surj_pair)
    obtain r s2 where rec: "RecordMigrationFailure (dp_cp D) (dp_net D) scope i (se_RawJWT sess) (se_Subject sess) s1 = (r, s2)"
      by (metis surj_pair)
    have "le s s1" "le s1 s2"
      using op_keepsD [OF keeps_migrateOne one] op_keepsD [OF keeps_RecordMigrationFailure rec] by blast+
    then show ?case using one rec Cons [of s1 "m + 1" b] Cons [of s2 m "b @ [i]"]
      by (cases ok) (auto simp: le_refl intro: le_trans)
  qed (simp add: le_refl)
  then show ?thesis by (cases acc) (simp add: op_keeps_def)
qed

lemma keeps_Migrate: "op_keeps le (Migrate D sess req)"
  unfolding Migrate_def Let_def
  apply (intro keeps_step keeps_ListNeedsMigration)
  apply (rule op_keepsI)
  by (auto simp: case_prod_eq intro: op_keepsD [OF keeps_migrateIDs])

end

section \<open>The request log only grows\<close>

definition op_log :: "('s \<Rightarrow> 'a \<times> 's) \<Rightarrow> 's \<times> http_request list \<Rightarrow> 'a \<times> 's \<times> http_request list" where
  "op_log m sl = (fst (m (fst sl)), (snd (m (fst sl)), snd sl))"

definition deps_log :: "'s deps \<Rightarrow> ('s \<times> http_request list) deps" where
  "deps_log D =
     \<lparr> dp_cp = dp_cp D, dp_net = net_log (dp_net D), dp_gz = dp_gz D, dp_hkdf = dp_hkdf D,
       dp_entropy = op_log (dp_entropy D), dp_now = (\<lambda>sl. dp_now D (fst sl)),
       dp_request_id = dp_request_id D, dp_SyncEnclaveSecret = dp_SyncEnclaveSecret D,
       dp_buckets_configured = dp_buckets_configured D,
       dp_buckets_Put = (\<lambda>o' i p k. op_log (dp_buckets_Put D o' i p k)),
       dp_buckets_GetLimited = (\<lambda>o' i k n. op_log (dp_buckets_GetLimited D o' i k n)),
       dp_buckets_Delete = (\<lambda>o' i. op_log (dp_buckets_Delete D o' i)),
       dp_search_configured = dp_search_configured D,
       dp_index_chat = (\<lambda>a b c d e f. op_log (dp_index_chat D a b c d e f)),
       dp_remove_chat = (\<lambda>a b c d. op_log (dp_remove_chat D a b c d)) \<rparr>"

definition log_le :: "'s \<times> http_request list \<Rightarrow> 's \<times> http_request list \<Rightarrow> bool" where
  "log_le a b \<longleftrightarrow> suffix (snd a) (snd b)"

interpretation logged: deps_order log_le "deps_log D" for D
proof unfold_locales
  show "log_le s (snd (net_do (dp_net (deps_log D)) q s))" for s q
    by (cases s) (simp add: deps_log_def net_log_do log_le_def suffix_ConsI)
qed (auto simp: log_le_def deps_log_def op_log_def intro: suffix_order.trans)

lemma Migrate_log_grows:
  assumes "Migrate (deps_log D) sess req (s, l) = (r, (s', l'))"
  shows "suffix l l'"
  using op_keepsD [OF logged.keeps_Migrate assms] by (simp add: log_le_def)

section \<open>Migration ends\<close>

text \<open>The clock never runs backwards, and every exchange with the controlplane takes time.\<close>

definition clock_ok :: "'s deps \<Rightarrow> bool" where
  "clock_ok D \<longleftrightarrow> (\<forall>q s. dp_now D s < dp_now D (snd (net_do (dp_net D) q s)))
     \<and> (\<forall>s. dp_now D s \<le> dp_now D (snd (dp_entropy D s)))
     \<and> (\<forall>o' i p k s. dp_now D s \<le> dp_now D (snd (dp_buckets_Put D o' i p k s)))"

lemma with_deadline_simps [simp]:
  "dp_now (with_deadline D t) = dp_now D" "dp_cp (with_deadline D t) = dp_cp D"
  "dp_entropy (with_deadline D t) = dp_entropy D" "dp_buckets_Put (with_deadline D t) = dp_buckets_Put D"
  "net_do (dp_net (with_deadline D t)) = net_do (dp_net D)"
  "net_url_ok (dp_net (with_deadline D t)) = net_url_ok (dp_net D)"
  by (simp_all add: with_deadline_def)

lemma clock_ok_deadline [simp]: "clock_ok (with_deadline D t) \<longleftrightarrow> clock_ok D"
  by (simp add: clock_ok_def)

lemma clock_order: "clock_ok D \<Longrightarrow> deps_order (\<lambda>s s'. dp_now D s \<le> dp_now D s') D"
  by unfold_locales (auto simp: clock_ok_def intro: order.strict_implies_order)

lemma send_advances:
  assumes "clock_ok D" "send c (dp_net D) meth url body hs s = (Inr resp, s')"
  shows "dp_now D s < dp_now D s'"
proof -
  from assms(2) obtain q where q: "doRequest c (dp_net D) q s = (Inr resp, s')"
    unfolding send_def op_bind_eq_Inr op_lift_eq_Inr by blast
  have "snd (doRequest c (dp_net D) q s) = snd (net_do (dp_net D) (rq_set (header_opt HeaderServiceSecret (cl_serviceSecret c)) q) s)"
    by (simp add: doRequest_def split: prod.splits sum.splits)
  then show ?thesis using assms(1) q unfolding clock_ok_def by (metis snd_conv)
qed

text \<open>Answers are read without touching the world.\<close>

interpretation same_state: op_order "(=)"
  by unfold_locales auto

lemma exchange_advances:
  assumes "clock_ok D" "op_bind (send c (dp_net D) meth url body hs) k s = (Inr out, s')" "\<And>resp. op_keeps (=) (k resp)"
  shows "dp_now D s < dp_now D s'"
proof -
  from assms(2) obtain resp u where sent: "send c (dp_net D) meth url body hs s = (Inr resp, u)"
    and k: "k resp u = (Inr out, s')" unfolding op_bind_eq_Inr by blast
  from op_keepsD [OF assms(3) k] show ?thesis using send_advances [OF assms(1) sent] by simp
qed

lemma ListNeedsMigration_advances:
  assumes "clock_ok D" "ListNeedsMigration c (dp_net D) scope limit jwt user s = (Inr out, s')"
  shows "dp_now D s < dp_now D s'"
  using assms(1) assms(2) [unfolded ListNeedsMigration_def]
  by (rule exchange_advances) (intro keeps_cases same_state.keeps_prim)

lemma Migrate_advances:
  assumes "clock_ok D" "Migrate D sess req s = (Inr out, s')" "mq_IDs req = []"
  shows "dp_now D s < dp_now D s'"
proof -
  from assms(2,3) obtain l s1 keys tk kid out' where
    l: "ListNeedsMigration (dp_cp D) (dp_net D) (mq_Scope req)
       (if mq_Limit req \<le> 0 \<or> maxListStatusPageSize < mq_Limit req then defaultMigratePageSize else mq_Limit req)
       (se_RawJWT sess) (se_Subject sess) s = (Inr l, s1)"
    and ids: "migrateIDs D sess (mq_Scope req) keys tk kid (nm_IDs l) (0, []) s1 = (out', s')"
    by (auto simp: Migrate_def Let_def op_inv case_prod_eq split: if_splits)
  have "dp_now D s1 \<le> dp_now D s'"
    using op_keepsD [OF deps_order.keeps_migrateIDs [OF clock_order [OF assms(1)]] ids] .
  with ListNeedsMigration_advances [OF assms(1) l] show ?thesis by simp
qed

lemma migrateScope_returns:
  assumes "clock_ok D" "nat (deadline - dp_now D s) < fuel"
  shows "\<exists>x s'. migrateScope fuel D sess req deadline rep ev s = Some (x, s')"
  using assms(2)
proof (induction fuel arbitrary: rep ev s)
  case (Suc n)
  show ?case
  proof (cases "net_ctx_err (dp_net D) s \<or> deadline \<le> dp_now D s")
    case go: False
    let ?req = "\<lparr> mq_Scope = sr_Scope rep, mq_IDs = [], mq_Limit = migrateAllScopeMaxBatch,
                    mq_Keys = mal_Keys req, mq_TargetKey = mal_TargetKey req \<rparr>"
    obtain r s1 where m: "Migrate (with_deadline D deadline) sess ?req s = (r, s1)" by (metis surj_pair)
    show ?thesis
    proof (cases r)
      case (Inr page)
      then have "dp_now D s < dp_now D s1"
        using Migrate_advances [of "with_deadline D deadline" sess ?req s page s1] m assms(1) by simp
      then have "nat (deadline - dp_now D s1) < n" using Suc.prems go by linarith
      from Suc.IH [OF this] show ?thesis using go m Inr by (simp add: Let_def)
    qed (use go m in auto)
  qed auto
qed simp

lemma migrateScope_mono:
  assumes "clock_ok D" "migrateScope fuel D sess req deadline rep ev s = Some (x, s')"
  shows "dp_now D s \<le> dp_now D s'"
  using assms(2)
proof (induction fuel arbitrary: rep ev s)
  case (Suc n)
  let ?req = "\<lparr> mq_Scope = sr_Scope rep, mq_IDs = [], mq_Limit = migrateAllScopeMaxBatch,
                  mq_Keys = mal_Keys req, mq_TargetKey = mal_TargetKey req \<rparr>"
  obtain r s1 where m: "Migrate (with_deadline D deadline) sess ?req s = (r, s1)" by (metis surj_pair)
  have le: "dp_now D s \<le> dp_now D s1"
    using op_keepsD [OF deps_order.keeps_Migrate [OF clock_order] m] assms(1) by simp
  have "s' = s \<or> s' = s1 \<or> (\<exists>rep' ev'. migrateScope n D sess req deadline rep' ev' s1 = Some (x, s'))"
    using Suc.prems m by (auto simp: Let_def split: if_splits sum.splits)
  then show ?case using le Suc.IH by force
qed simp

lemma migrateScopes_returns:
  assumes "clock_ok D"
  shows "nat (deadline - dp_now D s) < fuel \<Longrightarrow>
    \<exists>x. migrateScopes fuel D sess req deadline scopes out ev s = Some x"
proof (induction scopes arbitrary: out ev s)
  case (Cons scope scopes)
  obtain x s1 where x: "migrateScope fuel D sess req deadline (zero_report scope) ev s = Some (x, s1)"
    using migrateScope_returns [OF assms Cons.prems] by blast
  have "nat (deadline - dp_now D s1) < fuel"
    using migrateScope_mono [OF assms x] Cons.prems by linarith
  from Cons.IH [OF this] show ?case using x by (cases x) (auto simp: Let_def split: sum.splits)
qed simp

lemma migrateAll_runs:
  assumes "clock_ok D" "nat MigrateAllBudget < fuel"
  shows "\<exists>outcome events s'. migrateAllWithProgress fuel D sess req s = Some ((outcome, events), s')"
proof -
  have "\<exists>x. migrateAllWithProgress fuel D sess req s = Some x"
  proof (cases "ensureCurrentKeyRegistered D sess (mal_TargetKey req) s")
    case (Pair r s1)
    have "nat (dp_now D s1 + MigrateAllBudget - dp_now D s1) < fuel" using assms(2) by simp
    from migrateScopes_returns [OF assms(1) this] show ?thesis
      using Pair by (cases r) (simp_all add: migrateAllWithProgress_def)
  qed
  then show ?thesis by (metis surj_pair)
qed


text \<open>A world whose clock is the number of requests sent so far.\<close>

definition counting_deps :: "(unit \<times> http_request list) deps" where
  "counting_deps = (deps_log (example_deps accept_net (\<lambda>_. 0)))\<lparr>dp_now := (\<lambda>sl. int (length (snd sl)))\<rparr>"

lemma counting_clock: "clock_ok counting_deps"
  by (auto simp: clock_ok_def counting_deps_def deps_log_def example_deps_def op_log_def net_log_do)

definition example_migrate_all :: migrate_all_request where
  "example_migrate_all = \<lparr> mal_Keys = [\<lparr> pk_Key = b64_encode example_key, pk_KeyID = [] \<rparr>],
     mal_TargetKey = b64_encode example_key \<rparr>"


section \<open>What a run reports\<close>

definition migrate_sums :: "migrate_all_response \<Rightarrow> bool" where
  "migrate_sums out \<longleftrightarrow>
     ma_Migrated out = sum_list (map sr_Migrated (ma_Scopes out))
   \<and> ma_RetryableRemaining out = sum_list (map sr_RetryableRemaining (ma_Scopes out))
   \<and> ma_BlockedUnmigrated out = sum_list (map sr_BlockedUnmigrated (ma_Scopes out))"

text \<open>One scope: its name is kept and \<open>MarkPartial\<close> is its last event exactly when it ends partial.\<close>

lemma migrateScope_report:
  "migrateScope n D sess req deadline rep ev s = Some ((Inr (rep', partial), ev'), s') \<Longrightarrow>
   sr_Scope rep' = sr_Scope rep
   \<and> (\<exists>reps. ev' = ev @ map ReportScope reps @ (if partial then [MarkPartial] else [])
        \<and> (\<forall>r \<in> set reps. sr_Scope r = sr_Scope rep) \<and> rep' = last (rep # reps))"
proof (induction n arbitrary: rep ev s)
  case (Suc n)
  let ?req = "\<lparr> mq_Scope = sr_Scope rep, mq_IDs = [], mq_Limit = migrateAllScopeMaxBatch,
                  mq_Keys = mal_Keys req, mq_TargetKey = mal_TargetKey req \<rparr>"
  obtain r s1 where m: "Migrate (with_deadline D deadline) sess ?req s = (r, s1)" by (metis surj_pair)
  have stop: ?case if "rep' = rep" "partial" "ev' = ev @ [MarkPartial]"
    using that by (intro conjI exI [of _ "[]"]) auto
  show ?case
  proof (cases "net_ctx_err (dp_net D) s \<or> deadline \<le> dp_now D s")
    case True
    then show ?thesis using Suc.prems by (intro stop) auto
  next
    case go: False
    show ?thesis
    proof (cases r)
      case (Inl err)
      then show ?thesis using Suc.prems go m by (intro stop) (auto split: if_splits)
    next
      case (Inr page)
      let ?rep = "rep\<lparr>sr_Migrated := sr_Migrated rep + mr_Migrated page,
          sr_Blocked := sr_Blocked rep @ mr_Blocked page, sr_RetryableRemaining := mr_RetryableRemaining page,
          sr_BlockedUnmigrated := mr_BlockedUnmigrated page\<rparr>"
      show ?thesis
      proof (cases "mr_Migrated page = 0 \<or> mr_RetryableRemaining page = 0")
        case True
        then show ?thesis using Suc.prems go m Inr
          by (intro conjI exI [of _ "[?rep]"]) (auto simp: Let_def)
      next
        case False
        then have "migrateScope n D sess req deadline ?rep (ev @ [ReportScope ?rep]) s1
            = Some ((Inr (rep', partial), ev'), s')"
          using Suc.prems go m Inr by (simp add: Let_def)
        from Suc.IH [OF this] obtain reps where "sr_Scope rep' = sr_Scope rep"
          "ev' = (ev @ [ReportScope ?rep]) @ map ReportScope reps @ (if partial then [MarkPartial] else [])"
          "\<forall>r \<in> set reps. sr_Scope r = sr_Scope rep" "rep' = last (?rep # reps)" by auto
        then show ?thesis by (intro conjI exI [of _ "?rep # reps"]) auto
      qed
    qed
  qed
qed simp

lemma migrateScopes_report:
  "migrateScopes fuel D sess req deadline scopes out ev s = Some ((Inr out', ev'), s') \<Longrightarrow>
   migrate_sums out \<Longrightarrow> \<not> ma_Partial out \<Longrightarrow> MarkPartial \<notin> set ev \<Longrightarrow>
   migrate_sums out'
   \<and> (\<exists>done. map sr_Scope (ma_Scopes out') = map sr_Scope (ma_Scopes out) @ done \<and> prefix done scopes
        \<and> (\<not> ma_Partial out' \<longrightarrow> done = scopes))
   \<and> (ma_Partial out' \<longleftrightarrow> MarkPartial \<in> set ev')"
proof (induction scopes arbitrary: out ev s)
  case (Cons scope scopes)
  obtain r ev1 s1 where one: "migrateScope fuel D sess req deadline (zero_report scope) ev s = Some ((r, ev1), s1)"
    using Cons.prems(1) by (cases "migrateScope fuel D sess req deadline (zero_report scope) ev s") auto
  then obtain rep partial where r: "r = Inr (rep, partial)" using Cons.prems(1) by (cases r) auto
  note rep = migrateScope_report [OF one [unfolded r]]
  let ?out = "\<lparr> ma_Migrated = ma_Migrated out + sr_Migrated rep,
      ma_RetryableRemaining = ma_RetryableRemaining out + sr_RetryableRemaining rep,
      ma_BlockedUnmigrated = ma_BlockedUnmigrated out + sr_BlockedUnmigrated rep,
      ma_Partial = partial, ma_Scopes = ma_Scopes out @ [rep] \<rparr>"
  have sums: "migrate_sums ?out" using Cons.prems(2) by (simp add: migrate_sums_def)
  have name: "sr_Scope rep = scope" using rep by (simp add: zero_report_def)
  have part: "MarkPartial \<in> set ev1 \<longleftrightarrow> partial" using rep Cons.prems(4) by auto
  show ?case
  proof (cases partial)
    case True
    then have "out' = ?out" "ev' = ev1" using Cons.prems(1) one r by (simp_all add: Let_def)
    then show ?thesis using sums name part True by (auto intro!: exI [of _ "[scope]"])
  next
    case False
    then have "migrateScopes fuel D sess req deadline scopes ?out ev1 s1 = Some ((Inr out', ev'), s')"
      using Cons.prems(1) one r by (simp add: Let_def)
    from Cons.IH [OF this sums] False part obtain done' where
      "migrate_sums out'" "ma_Partial out' \<longleftrightarrow> MarkPartial \<in> set ev'" "prefix done' scopes"
      "map sr_Scope (ma_Scopes out') = map sr_Scope (ma_Scopes out) @ scope # done'"
      "\<not> ma_Partial out' \<longrightarrow> done' = scopes" using name by auto
    then show ?thesis by (auto intro!: exI [of _ "scope # done'"])
  qed
qed auto

lemma migrateAll_sums:
  assumes "migrateAllWithProgress fuel D sess req s = Some ((Inr out, events), s')"
  shows "ma_Migrated out = sum_list (map sr_Migrated (ma_Scopes out))
    \<and> ma_RetryableRemaining out = sum_list (map sr_RetryableRemaining (ma_Scopes out))
    \<and> ma_BlockedUnmigrated out = sum_list (map sr_BlockedUnmigrated (ma_Scopes out))
    \<and> prefix (map sr_Scope (ma_Scopes out)) migrateScopeOrder
    \<and> (\<not> ma_Partial out \<longrightarrow> map sr_Scope (ma_Scopes out) = migrateScopeOrder)
    \<and> (ma_Partial out \<longleftrightarrow> MarkPartial \<in> set events)"
proof -
  let ?zero = "\<lparr> ma_Migrated = 0, ma_RetryableRemaining = 0, ma_BlockedUnmigrated = 0,
     ma_Partial = False, ma_Scopes = [] \<rparr>"
  obtain s1 deadline where
    run: "migrateScopes fuel D sess req deadline migrateScopeOrder ?zero [] s1 = Some ((Inr out, events), s')"
    using assms by (auto simp: migrateAllWithProgress_def split: if_splits prod.splits sum.splits)
  have "migrate_sums ?zero" by (simp add: migrate_sums_def)
  from migrateScopes_report [OF run this] show ?thesis by (auto simp: migrate_sums_def)
qed

text \<open>
  The final report of a migrate-all run is consistent: its totals are the sums over the scope
  reports, the scopes are reported in the fixed order profile, chat, project, project document and
  without gaps, all four of them when the run is not partial, and the run is partial exactly when
  the progress reporter was told so.
\<close>

theorem migrateAll_report:
  assumes "migrateAllWithProgress fuel D sess req s = Some ((Inr out, events), s')"
  shows "ma_Migrated out = sum_list (map sr_Migrated (ma_Scopes out))
    \<and> ma_RetryableRemaining out = sum_list (map sr_RetryableRemaining (ma_Scopes out))
    \<and> ma_BlockedUnmigrated out = sum_list (map sr_BlockedUnmigrated (ma_Scopes out))
    \<and> prefix (map sr_Scope (ma_Scopes out)) migrateScopeOrder
    \<and> (\<not> ma_Partial out \<longrightarrow> map sr_Scope (ma_Scopes out) = migrateScopeOrder)
    \<and> (ma_Partial out \<longleftrightarrow> MarkPartial \<in> set events)"
  using assms by (rule migrateAll_sums)

text \<open>A world that knows the key and whose context is already done.\<close>

definition key_body :: json where
  "key_body = JObj [(''key_id'', JStr ''61616161616161616161616161616161'')]"

definition cancelled_deps :: "unit deps" where
  "cancelled_deps = (example_deps ((fixed_net \<lparr> rs_Status = 200, rs_Header = [], rs_Body = json_encode key_body,
       rs_Broken = False \<rparr>)\<lparr>net_ctx_err := (\<lambda>_. True)\<rparr>) (\<lambda>_. 0))
     \<lparr>dp_hkdf := (\<lambda>_ _ n. Some (replicate n CHR ''a''))\<rparr>"

lemma cancelled_key:
  "ensureCurrentKeyRegistered cancelled_deps example_session (b64_encode example_key) () = (Inr (), ())"
proof -
  have "json_ok 10000 key_body" by (simp add: key_body_def is_ascii_def)
  then have parse: "json_parse (json_encode key_body) = Some key_body" by (rule json_parse_encode)
  have len: "length (json_encode key_body) \<le> 4194304"
    by (simp add: key_body_def jstring_def estr.simps ascii_escape_def Let_def)
  have "\<exists>k. GetCurrentKey (dp_cp cancelled_deps) (dp_net cancelled_deps) (se_RawJWT example_session)
      (se_Subject example_session) () = (Inr (Some k), ()) \<and> ck_KeyID k = ''61616161616161616161616161616161''"
    using parse len
    by (simp add: GetCurrentKey_def cancelled_deps_def example_deps_def send_def NewRequest_def doRequest_def
        fixed_net_def read_limited_def unmarshal_def op_bind_def op_try_def Let_def)
      (simp add: struct_members_def key_body_def dec_current_key_def field_values_def)
  moreover have "DeriveKeyID (dp_hkdf cancelled_deps) example_key = Inr (replicate 16 CHR ''a'')"
    by (simp add: DeriveKeyID_def cancelled_deps_def example_key_def KeySize_def KeyIDSize_def)
  moreover have "KeyIDHex (replicate 16 CHR ''a'') = ''61616161616161616161616161616161''"
    by code_simp
  ultimately show ?thesis
    by (auto simp: ensureCurrentKeyRegistered_def op_try_def requestKey_def decodeKey_example)
qed

theorem migrateAll_report_witness:
  "\<exists>out events. migrateAllWithProgress 1 cancelled_deps example_session example_migrate_all ()
      = Some ((Inr out, events), ()) \<and> ma_Partial out \<and> MarkPartial \<in> set events
      \<and> prefix (map sr_Scope (ma_Scopes out)) migrateScopeOrder"
proof -
  have "net_ctx_err (dp_net cancelled_deps) ()" by (simp add: cancelled_deps_def example_deps_def)
  moreover have "b64_encode example_key \<noteq> []" using decodeKey_example by (auto simp: decodeKey_def)
  ultimately obtain out events where run: "migrateAllWithProgress 1 cancelled_deps example_session example_migrate_all ()
      = Some ((Inr out, events), ())" "ma_Partial out"
    using cancelled_key
    by (simp add: migrateAllWithProgress_def example_migrate_all_def migrateScopeOrder_def del: b64_encode.simps)
  from migrateAll_report [OF run(1)] run show ?thesis by auto
qed

end
