(* ===== verification/Migration_Jobs.thy ===== *)
theory Migration_Jobs
  imports Op_Order
begin

text \<open>
  The background migration jobs of \<^verbatim>\<open>internal/server/migration_jobs.go\<close> and the two routes of
  \<^verbatim>\<open>internal/server/http.go\<close> that start and poll them. Jobs live in a heap and are addressed by
  their index, because the coordinator compares pointers; the interleavings of requests, progress
  reports, finished runs and retention timers are the steps of a transition relation.
\<close>

section \<open>Jobs\<close>

definition MigrationJobBudget :: gtime where "MigrationJobBudget = MigrateAllBudget + 60 * 1000000000"
definition MigrationJobRetention :: gtime where "MigrationJobRetention = 300 * 1000000000"

datatype migration_job_status = MigrationJobIdle | MigrationJobRunning | MigrationJobCompleted | MigrationJobFailed

fun status_string :: "migration_job_status \<Rightarrow> string" where
  "status_string MigrationJobIdle = ''idle''"
| "status_string MigrationJobRunning = ''running''"
| "status_string MigrationJobCompleted = ''completed''"
| "status_string MigrationJobFailed = ''failed''"

record migration_job =
  mj_ID :: string
  mj_UserID :: string
  mj_StartedAt :: gtime
  mj_updatedAt :: gtime
  mj_status :: migration_job_status
  mj_errMsg :: string
  mj_scopes :: "(string \<times> scope_report) list"
  mj_scopeOrd :: "string list"
  mj_partial :: bool
  mj_done :: bool

record migration_job_snapshot =
  ms_ID :: string
  ms_UserID :: string
  ms_Status :: migration_job_status
  ms_StartedAt :: gtime
  ms_UpdatedAt :: gtime
  ms_Migrated :: int
  ms_RetryableRemaining :: int
  ms_BlockedUnmigrated :: int
  ms_Partial :: bool
  ms_Scopes :: "scope_report list"
  ms_Error :: string

text \<open>The job id is random, or the formatted time when the random source fails.\<close>

definition newMigrationJobID :: "entropy \<Rightarrow> string \<Rightarrow> string" where
  "newMigrationJobID ent formatted =
     (case rand_read 16 ent of None \<Rightarrow> formatted | Some (b, _) \<Rightarrow> hex_encode b)"

definition newMigrationJob :: "string \<Rightarrow> gtime \<Rightarrow> string \<Rightarrow> migration_job" where
  "newMigrationJob jid now userID = \<lparr> mj_ID = jid, mj_UserID = userID, mj_StartedAt = now, mj_updatedAt = now,
     mj_status = MigrationJobRunning, mj_errMsg = [], mj_scopes = [], mj_scopeOrd = [], mj_partial = False,
     mj_done = False \<rparr>"

text \<open>A missing entry of the map reads as the zero report.\<close>

definition scope_of :: "migration_job \<Rightarrow> string \<Rightarrow> scope_report" where
  "scope_of j name = (case map_of (mj_scopes j) name of None \<Rightarrow> zero_report [] | Some r \<Rightarrow> r)"

definition snapshotLocked :: "migration_job \<Rightarrow> migration_job_snapshot" where
  "snapshotLocked j =
     (let reports = map (scope_of j) (mj_scopeOrd j)
      in \<lparr> ms_ID = mj_ID j, ms_UserID = mj_UserID j, ms_Status = mj_status j, ms_StartedAt = mj_StartedAt j,
           ms_UpdatedAt = mj_updatedAt j, ms_Migrated = sum_list (map sr_Migrated reports),
           ms_RetryableRemaining = sum_list (map sr_RetryableRemaining reports),
           ms_BlockedUnmigrated = sum_list (map sr_BlockedUnmigrated reports),
           ms_Partial = mj_partial j, ms_Scopes = reports, ms_Error = mj_errMsg j \<rparr>)"

definition reportScope :: "gtime \<Rightarrow> scope_report \<Rightarrow> migration_job \<Rightarrow> migration_job" where
  "reportScope now report j =
     j\<lparr>mj_scopeOrd := (if map_of (mj_scopes j) (sr_Scope report) = None
                       then mj_scopeOrd j @ [sr_Scope report] else mj_scopeOrd j),
       mj_scopes := al_set (sr_Scope report) report (mj_scopes j), mj_updatedAt := now\<rparr>"

definition markPartial :: "gtime \<Rightarrow> migration_job \<Rightarrow> migration_job" where
  "markPartial now j = j\<lparr>mj_partial := True, mj_updatedAt := now\<rparr>"

text \<open>The final tally replaces what progress reports left behind.\<close>

fun put_scopes :: "scope_report list \<Rightarrow> (string \<times> scope_report) list \<times> string list \<Rightarrow>
    (string \<times> scope_report) list \<times> string list" where
  "put_scopes [] acc = acc"
| "put_scopes (r # rs) (scopes, ord) =
     put_scopes rs (al_set (sr_Scope r) r scopes,
                    if map_of scopes (sr_Scope r) = None then ord @ [sr_Scope r] else ord)"

text \<open>\<open>None\<close> is the panic of closing a closed channel.\<close>

definition finish ::
  "gtime \<Rightarrow> migrate_all_response option \<Rightarrow> go_error option \<Rightarrow> migration_job \<Rightarrow> migration_job option" where
  "finish now resp err j =
     (let j1 = j\<lparr>mj_updatedAt := now\<rparr>;
          j2 = (case err of
                  Some e \<Rightarrow> j1\<lparr>mj_status := MigrationJobFailed, mj_errMsg := error_string e\<rparr>
                | None \<Rightarrow>
                    (let j3 = j1\<lparr>mj_status := MigrationJobCompleted\<rparr>
                     in case resp of
                          None \<Rightarrow> j3
                        | Some r \<Rightarrow>
                            (case put_scopes (ma_Scopes r) ([], []) of (scopes, ord) \<Rightarrow>
                               j3\<lparr>mj_partial := ma_Partial r, mj_scopes := scopes, mj_scopeOrd := ord\<rparr>)))
      in if mj_done j then None else Some (j2\<lparr>mj_done := True\<rparr>))"

record migrate_all_status_response =
  mst_JobID :: string
  mst_Status :: string
  mst_StartedAt :: string
  mst_UpdatedAt :: string
  mst_Migrated :: int
  mst_RetryableRemaining :: int
  mst_BlockedUnmigrated :: int
  mst_Partial :: bool
  mst_Scopes :: "scope_report list"
  mst_Error :: string

definition buildMigrateAllStatusResponse :: "time_lib \<Rightarrow> migration_job \<Rightarrow> migrate_all_status_response" where
  "buildMigrateAllStatusResponse T job =
     (let snap = snapshotLocked job
      in \<lparr> mst_JobID = ms_ID snap, mst_Status = status_string (ms_Status snap),
           mst_StartedAt = (if ms_StartedAt snap = zero_time then [] else tm_format T (ms_StartedAt snap)),
           mst_UpdatedAt = (if ms_UpdatedAt snap = zero_time then [] else tm_format T (ms_UpdatedAt snap)),
           mst_Migrated = ms_Migrated snap, mst_RetryableRemaining = ms_RetryableRemaining snap,
           mst_BlockedUnmigrated = ms_BlockedUnmigrated snap,
           mst_Partial = (if ms_Status snap = MigrationJobRunning then True else ms_Partial snap),
           mst_Scopes = ms_Scopes snap, mst_Error = ms_Error snap \<rparr>)"

definition validateMigrateAllRequest :: "hkdf \<Rightarrow> migrate_all_request \<Rightarrow> unit result" where
  "validateMigrateAllRequest H req =
     (if mal_Keys req = [] then Inl (badRequest ''keys is required and must not be empty'')
      else if mal_TargetKey req = [] then Inl (badRequest ''target.key is required'')
      else rbind (decodeKeys H (mal_Keys req)) (\<lambda>_.
           rbind (requestKey ''invalid target.key: '' (mal_TargetKey req)) (\<lambda>_. Inr ())))"

section \<open>The coordinator\<close>

record coordinator =
  co_jobs :: "(string \<times> nat) list"
  co_retention :: gtime
  co_heap :: "migration_job list"
  co_running :: "nat list"
  co_timers :: "nat list"

text \<open>
  \<open>co_heap\<close> holds every job ever allocated; \<open>co_running\<close> are the goroutines still in the runner
  and \<open>co_timers\<close> the pending retention timers, each with the job it belongs to.
\<close>

definition NewMigrationCoordinator :: coordinator where
  "NewMigrationCoordinator = \<lparr> co_jobs = [], co_retention = MigrationJobRetention, co_heap = [],
     co_running = [], co_timers = [] \<rparr>"

definition StartOrGet :: "string \<Rightarrow> gtime \<Rightarrow> string \<Rightarrow> coordinator \<Rightarrow> (nat \<times> bool) \<times> coordinator" where
  "StartOrGet jid now userID c =
     (case map_of (co_jobs c) userID of
        Some a \<Rightarrow> ((a, False), c)
      | None \<Rightarrow>
          (let a = length (co_heap c)
           in ((a, True), c\<lparr>co_heap := co_heap c @ [newMigrationJob jid now userID],
                            co_jobs := al_set userID a (co_jobs c), co_running := a # co_running c\<rparr>)))"

definition Status :: "string \<Rightarrow> coordinator \<Rightarrow> nat option" where
  "Status userID c = map_of (co_jobs c) userID"

definition deleteIfSame :: "nat \<Rightarrow> coordinator \<Rightarrow> coordinator" where
  "deleteIfSame a c =
     (if map_of (co_jobs c) (mj_UserID (co_heap c ! a)) = Some a
      then c\<lparr>co_jobs := al_del (mj_UserID (co_heap c ! a)) (co_jobs c)\<rparr> else c)"

text \<open>What \<^verbatim>\<open>run\<close> does once the runner has returned.\<close>

definition run_end :: "nat \<Rightarrow> coordinator \<Rightarrow> coordinator" where
  "run_end a c =
     (if co_retention c \<le> 0 then deleteIfSame a (c\<lparr>co_running := removeAll a (co_running c)\<rparr>)
      else c\<lparr>co_running := removeAll a (co_running c), co_timers := a # co_timers c\<rparr>)"

definition report_progress :: "gtime \<Rightarrow> progress \<Rightarrow> migration_job \<Rightarrow> migration_job" where
  "report_progress now e j = (case e of ReportScope r \<Rightarrow> reportScope now r j | MarkPartial \<Rightarrow> markPartial now j)"

section \<open>The routes\<close>

text \<open>The status code and the body, or the error that is written.\<close>

definition route_migrateAll ::
  "hkdf \<Rightarrow> time_lib \<Rightarrow> string \<Rightarrow> gtime \<Rightarrow> session \<Rightarrow> migrate_all_request \<Rightarrow> coordinator \<Rightarrow>
   (int \<times> migrate_all_status_response) result \<times> coordinator" where
  "route_migrateAll H T jid now sess req c =
     (case validateMigrateAllRequest H req of
        Inl e \<Rightarrow> (Inl e, c)
      | Inr _ \<Rightarrow>
          (case StartOrGet jid now (se_Subject sess) c of ((a, started), c') \<Rightarrow>
             (Inr (if started then 202 else 200, buildMigrateAllStatusResponse T (co_heap c' ! a)), c')))"

definition route_migrateStatus :: "time_lib \<Rightarrow> session \<Rightarrow> coordinator \<Rightarrow> int \<times> migrate_all_status_response" where
  "route_migrateStatus T sess c =
     (case Status (se_Subject sess) c of
        None \<Rightarrow> (200, \<lparr> mst_JobID = [], mst_Status = status_string MigrationJobIdle, mst_StartedAt = [],
                        mst_UpdatedAt = [], mst_Migrated = 0, mst_RetryableRemaining = 0,
                        mst_BlockedUnmigrated = 0, mst_Partial = False, mst_Scopes = [], mst_Error = [] \<rparr>)
      | Some a \<Rightarrow> (200, buildMigrateAllStatusResponse T (co_heap c ! a)))"

section \<open>Interleavings\<close>

text \<open>
  One step of the service: a request for a user, a progress report of a running job (with any
  report, so that every runner is covered), the end of a run with any outcome, and a retention
  timer that fires.
\<close>

inductive coord_step :: "coordinator \<Rightarrow> coordinator \<Rightarrow> bool" where
  start: "StartOrGet jid now userID c = (r, c') \<Longrightarrow> coord_step c c'"
| report: "a \<in> set (co_running c) \<Longrightarrow>
    coord_step c (c\<lparr>co_heap := (co_heap c)[a := report_progress now e (co_heap c ! a)]\<rparr>)"
| ended: "a \<in> set (co_running c) \<Longrightarrow> finish now resp err (co_heap c ! a) = Some j \<Longrightarrow>
    coord_step c (run_end a (c\<lparr>co_heap := (co_heap c)[a := j]\<rparr>))"
| expired: "a \<in> set (co_timers c) \<Longrightarrow>
    coord_step c (deleteIfSame a (c\<lparr>co_timers := remove1 a (co_timers c)\<rparr>))"

inductive coord_reachable :: "coordinator \<Rightarrow> bool" where
  init: "coord_reachable (NewMigrationCoordinator\<lparr>co_retention := retention\<rparr>)"
| step: "coord_reachable c \<Longrightarrow> coord_step c c' \<Longrightarrow> coord_reachable c'"

inductive_cases coord_stepE: "coord_step c c'"

section \<open>Progress reporters\<close>

text \<open>
  The interface \<^verbatim>\<open>migrationProgressReporter\<close>: what a reporter keeps of the reports it is given.
  Its laws determine what is left after a whole run.
\<close>

fun last_report :: "progress list \<Rightarrow> string \<Rightarrow> scope_report option" where
  "last_report [] n = None"
| "last_report (ReportScope r # ev) n =
     (case last_report ev n of Some r' \<Rightarrow> Some r' | None \<Rightarrow> if sr_Scope r = n then Some r else None)"
| "last_report (MarkPartial # ev) n = last_report ev n"

locale progress_reporter =
  fixes event :: "gtime \<Rightarrow> progress \<Rightarrow> 'j \<Rightarrow> 'j"
    and latest :: "'j \<Rightarrow> string \<Rightarrow> scope_report option"
    and is_partial :: "'j \<Rightarrow> bool"
  assumes latest_report: "latest (event t (ReportScope r) j) = (latest j)(sr_Scope r \<mapsto> r)"
    and latest_mark: "latest (event t MarkPartial j) = latest j"
    and partial_report: "is_partial (event t (ReportScope r) j) = is_partial j"
    and partial_mark: "is_partial (event t MarkPartial j)"
begin

lemma replay_latest:
  "latest (fold (\<lambda>(t, e). event t e) evs j) n
   = (case last_report (map snd evs) n of Some r \<Rightarrow> Some r | None \<Rightarrow> latest j n)"
proof (induction evs arbitrary: j)
  case (Cons te evs)
  obtain t e where te: "te = (t, e)" by (cases te)
  show ?case
    by (cases e) (simp_all add: te Cons.IH latest_report latest_mark split: option.splits)
qed simp

lemma replay_partial:
  "is_partial (fold (\<lambda>(t, e). event t e) evs j) \<longleftrightarrow> is_partial j \<or> MarkPartial \<in> snd ` set evs"
proof (induction evs arbitrary: j)
  case (Cons te evs)
  obtain t e where te: "te = (t, e)" by (cases te)
  show ?case by (cases e) (simp_all add: te Cons.IH partial_report partial_mark)
qed simp

end

lemma reportScope_simps [simp]:
  "mj_scopes (reportScope t r j) = al_set (sr_Scope r) r (mj_scopes j)"
  "mj_partial (reportScope t r j) = mj_partial j" "mj_done (reportScope t r j) = mj_done j"
  "mj_status (reportScope t r j) = mj_status j" "mj_UserID (reportScope t r j) = mj_UserID j"
  "mj_scopeOrd (reportScope t r j) = (if map_of (mj_scopes j) (sr_Scope r) = None
     then mj_scopeOrd j @ [sr_Scope r] else mj_scopeOrd j)"
  by (simp_all add: reportScope_def)

lemma markPartial_simps [simp]:
  "mj_scopes (markPartial t j) = mj_scopes j" "mj_partial (markPartial t j)"
  "mj_done (markPartial t j) = mj_done j" "mj_status (markPartial t j) = mj_status j"
  "mj_UserID (markPartial t j) = mj_UserID j" "mj_scopeOrd (markPartial t j) = mj_scopeOrd j"
  by (simp_all add: markPartial_def)

lemma report_progress_simps [simp]:
  "report_progress t (ReportScope r) j = reportScope t r j" "report_progress t MarkPartial j = markPartial t j"
  "mj_done (report_progress t e j) = mj_done j" "mj_status (report_progress t e j) = mj_status j"
  "mj_UserID (report_progress t e j) = mj_UserID j"
  by (simp_all add: report_progress_def split: progress.splits)

interpretation job: progress_reporter report_progress "\<lambda>j. map_of (mj_scopes j)" mj_partial
  by unfold_locales simp_all

section \<open>Well-formed jobs\<close>

text \<open>The order lists every reported scope once, and each entry holds the report of its scope.\<close>

definition scopes_ok :: "(string \<times> scope_report) list \<Rightarrow> string list \<Rightarrow> bool" where
  "scopes_ok scopes ord \<longleftrightarrow> distinct ord \<and> set ord = fst ` set scopes
     \<and> (\<forall>n r. map_of scopes n = Some r \<longrightarrow> sr_Scope r = n)"

definition job_ok :: "migration_job \<Rightarrow> bool" where
  "job_ok j \<longleftrightarrow> scopes_ok (mj_scopes j) (mj_scopeOrd j)
     \<and> mj_status j \<in> (if mj_done j then {MigrationJobCompleted, MigrationJobFailed} else {MigrationJobRunning})"

lemma map_of_None_iff: "map_of m k = None \<longleftrightarrow> k \<notin> fst ` set m"
  by (induction m) auto

lemma scopes_ok_Nil [simp]: "scopes_ok [] []"
  by (simp add: scopes_ok_def)

lemma scopes_ok_put:
  "scopes_ok scopes ord \<Longrightarrow> scopes_ok (al_set (sr_Scope r) r scopes)
     (if map_of scopes (sr_Scope r) = None then ord @ [sr_Scope r] else ord)"
  by (auto simp: scopes_ok_def map_of_None_iff)

lemma job_ok_new [simp]: "job_ok (newMigrationJob jid now u)"
  by (simp add: job_ok_def newMigrationJob_def)

lemma job_ok_progress: "job_ok j \<Longrightarrow> job_ok (report_progress t e j)"
  using scopes_ok_put [of "mj_scopes j" "mj_scopeOrd j"] by (cases e) (simp_all add: job_ok_def)

lemma put_scopes_ok: "scopes_ok (fst acc) (snd acc) \<Longrightarrow>
    scopes_ok (fst (put_scopes rs acc)) (snd (put_scopes rs acc))"
  by (induction rs acc rule: put_scopes.induct) (simp_all add: scopes_ok_put)

lemma finish_Some:
  assumes "finish now resp err j = Some j'"
  shows "\<not> mj_done j \<and> mj_done j' \<and> mj_UserID j' = mj_UserID j
    \<and> mj_status j' = (if err = None then MigrationJobCompleted else MigrationJobFailed)"
  using assms by (auto simp: finish_def Let_def split: option.splits if_splits prod.splits)

lemma job_ok_finish: "finish now resp err j = Some j' \<Longrightarrow> job_ok j \<Longrightarrow> job_ok j'"
  using put_scopes_ok [of "([], [])"]
  by (auto simp: finish_def Let_def job_ok_def split: option.splits if_splits prod.splits) (metis fst_conv snd_conv)

text \<open>A running job can always be finished.\<close>

lemma finish_running: "\<not> mj_done j \<Longrightarrow> \<exists>j'. finish now resp err j = Some j'"
  by (simp add: finish_def Let_def)

section \<open>The invariant of the coordinator\<close>

definition user_of :: "coordinator \<Rightarrow> nat \<Rightarrow> string" where
  "user_of c a = mj_UserID (co_heap c ! a)"

definition coord_inv :: "coordinator \<Rightarrow> bool" where
  "coord_inv c \<longleftrightarrow>
     (\<forall>u a. map_of (co_jobs c) u = Some a \<longrightarrow> a < length (co_heap c) \<and> user_of c a = u)
   \<and> (\<forall>a \<in> set (co_running c). a < length (co_heap c) \<and> map_of (co_jobs c) (user_of c a) = Some a)
   \<and> (\<forall>a < length (co_heap c). job_ok (co_heap c ! a) \<and> (mj_done (co_heap c ! a) \<longleftrightarrow> a \<notin> set (co_running c)))
   \<and> (\<forall>a \<in> set (co_timers c). a < length (co_heap c) \<and> a \<notin> set (co_running c))"

lemma coord_invI:
  assumes "\<And>u a. map_of (co_jobs c) u = Some a \<Longrightarrow> a < length (co_heap c) \<and> user_of c a = u"
    and "\<And>a. a \<in> set (co_running c) \<Longrightarrow> a < length (co_heap c) \<and> map_of (co_jobs c) (user_of c a) = Some a"
    and "\<And>a. a < length (co_heap c) \<Longrightarrow> job_ok (co_heap c ! a) \<and> (mj_done (co_heap c ! a) \<longleftrightarrow> a \<notin> set (co_running c))"
    and "\<And>a. a \<in> set (co_timers c) \<Longrightarrow> a < length (co_heap c) \<and> a \<notin> set (co_running c)"
  shows "coord_inv c"
  unfolding coord_inv_def using assms by blast

lemma coord_invD:
  assumes "coord_inv c"
  shows "map_of (co_jobs c) u = Some a \<Longrightarrow> a < length (co_heap c) \<and> user_of c a = u"
    and "a \<in> set (co_running c) \<Longrightarrow> a < length (co_heap c) \<and> map_of (co_jobs c) (user_of c a) = Some a"
    and "a < length (co_heap c) \<Longrightarrow> job_ok (co_heap c ! a) \<and> (mj_done (co_heap c ! a) \<longleftrightarrow> a \<notin> set (co_running c))"
    and "a \<in> set (co_timers c) \<Longrightarrow> a < length (co_heap c) \<and> a \<notin> set (co_running c)"
  using assms unfolding coord_inv_def by blast+

lemma coord_inv_init: "coord_inv (NewMigrationCoordinator\<lparr>co_retention := t\<rparr>)"
  by (simp add: coord_inv_def NewMigrationCoordinator_def)

lemma coord_inv_start:
  assumes "coord_inv c" "StartOrGet jid now u c = (r, c')"
  shows "coord_inv c'"
proof (cases "map_of (co_jobs c) u")
  case None
  note inv = coord_invD [OF assms(1)]
  have c': "co_heap c' = co_heap c @ [newMigrationJob jid now u]" "co_jobs c' = al_set u (length (co_heap c)) (co_jobs c)"
    "co_running c' = length (co_heap c) # co_running c" "co_timers c' = co_timers c"
    using assms(2) None by (auto simp: StartOrGet_def Let_def)
  have user: "user_of c' a = user_of c a" if "a < length (co_heap c)" for a
    using that by (simp add: user_of_def c' nth_append)
  have new: "user_of c' (length (co_heap c)) = u" "\<not> mj_done (newMigrationJob jid now u)"
    by (simp_all add: user_of_def c' newMigrationJob_def)
  show ?thesis
  proof (rule coord_invI)
    show "a < length (co_heap c') \<and> user_of c' a = v" if "map_of (co_jobs c') v = Some a" for v a
      using that inv(1) [of v a] user [of a] new(1) by (auto simp: c' split: if_splits)
    show "a < length (co_heap c') \<and> map_of (co_jobs c') (user_of c' a) = Some a" if "a \<in> set (co_running c')" for a
      using that inv(2) [of a] user [of a] new(1) None by (auto simp: c')
    show "job_ok (co_heap c' ! a) \<and> (mj_done (co_heap c' ! a) \<longleftrightarrow> a \<notin> set (co_running c'))"
      if "a < length (co_heap c')" for a
      using that inv(3) [of a] new(2) by (cases "a < length (co_heap c)") (auto simp: c' nth_append less_Suc_eq)
    show "a < length (co_heap c') \<and> a \<notin> set (co_running c')" if "a \<in> set (co_timers c')" for a
      using that inv(4) [of a] by (auto simp: c')
  qed
next
  case (Some a)
  then show ?thesis using assms by (auto simp: StartOrGet_def)
qed

text \<open>Changing a job without changing its user.\<close>

lemma user_of_upd:
  "co_heap c' = (co_heap c)[a := j] \<Longrightarrow> a < length (co_heap c) \<Longrightarrow> mj_UserID j = user_of c a \<Longrightarrow>
   user_of c' b = user_of c b"
  by (auto simp: user_of_def nth_list_update)

lemma coord_inv_report:
  assumes "coord_inv c" "a \<in> set (co_running c)"
  shows "coord_inv (c\<lparr>co_heap := (co_heap c)[a := report_progress now e (co_heap c ! a)]\<rparr>)" (is "coord_inv ?c")
proof -
  note inv = coord_invD [OF assms(1)]
  have a: "a < length (co_heap c)" "job_ok (co_heap c ! a)" using inv(2) [OF assms(2)] inv(3) [of a] by simp_all
  have u: "user_of ?c b = user_of c b" for b
    by (rule user_of_upd [where j = "report_progress now e (co_heap c ! a)", OF _ a(1)]) (simp_all add: user_of_def)
  show ?thesis
    by (rule coord_invI; (unfold u)?)
      (use inv job_ok_progress [OF a(2)] a in \<open>auto simp: nth_list_update\<close>)
qed

lemma coord_inv_delete:
  assumes "coord_inv c" "a < length (co_heap c)" "a \<notin> set (co_running c)"
  shows "coord_inv (deleteIfSame a c)"
proof (cases "map_of (co_jobs c) (user_of c a) = Some a")
  case True
  let ?c = "c\<lparr>co_jobs := al_del (user_of c a) (co_jobs c)\<rparr>"
  note inv = coord_invD [OF assms(1)]
  have u: "user_of ?c b = user_of c b" for b by (simp add: user_of_def)
  have other: "user_of c b \<noteq> user_of c a" if "b \<in> set (co_running c)" for b
    using inv(2) [OF that] that assms(3) True by auto
  have "coord_inv ?c"
    by (rule coord_invI; (unfold u)?) (use inv other in \<open>auto split: if_splits\<close>)
  then show ?thesis using True by (simp add: deleteIfSame_def user_of_def)
next
  case False
  then show ?thesis using assms(1) by (simp add: deleteIfSame_def user_of_def)
qed

lemma coord_inv_ended:
  assumes "coord_inv c" "a \<in> set (co_running c)" "finish now resp err (co_heap c ! a) = Some j"
  shows "coord_inv (run_end a (c\<lparr>co_heap := (co_heap c)[a := j]\<rparr>))"
proof -
  note inv = coord_invD [OF assms(1)] and fin = finish_Some [OF assms(3)]
  have a: "a < length (co_heap c)" "job_ok (co_heap c ! a)" using inv(2) [OF assms(2)] inv(3) [of a] by simp_all
  let ?c = "c\<lparr>co_heap := (co_heap c)[a := j], co_running := removeAll a (co_running c)\<rparr>"
  have u: "user_of ?c b = user_of c b" for b
    by (rule user_of_upd [where j = j, OF _ a(1)]) (use fin in \<open>simp_all add: user_of_def\<close>)
  have ok: "coord_inv ?c"
    by (rule coord_invI; (unfold u)?)
      (use inv fin job_ok_finish [OF assms(3) a(2)] a in \<open>auto simp: nth_list_update\<close>)
  have "coord_inv (?c\<lparr>co_timers := a # co_timers c\<rparr>)"
    by (rule coord_invI; use coord_invD [OF ok] a(1) in \<open>auto simp: user_of_def\<close>)
  then show ?thesis using coord_inv_delete [OF ok, of a] a(1) by (simp add: run_end_def)
qed

lemma coord_inv_expired:
  assumes "coord_inv c" "a \<in> set (co_timers c)"
  shows "coord_inv (deleteIfSame a (c\<lparr>co_timers := remove1 a (co_timers c)\<rparr>))"
proof -
  have "coord_inv (c\<lparr>co_timers := remove1 a (co_timers c)\<rparr>)"
    using assms(1) by (auto simp: coord_inv_def user_of_def dest: notin_set_remove1)
  then show ?thesis using assms by (intro coord_inv_delete) (auto simp: coord_inv_def)
qed

lemma coord_inv_step: "coord_step c c' \<Longrightarrow> coord_inv c \<Longrightarrow> coord_inv c'"
  by (induction rule: coord_step.induct)
    (auto intro: coord_inv_start coord_inv_report coord_inv_ended coord_inv_expired)

lemma coord_reachable_inv: "coord_reachable c \<Longrightarrow> coord_inv c"
  by (induction rule: coord_reachable.induct) (auto intro: coord_inv_init coord_inv_step)

section \<open>Properties of the service\<close>

lemma run_end_heap [simp]: "co_heap (run_end a c) = co_heap c" "co_heap (deleteIfSame a c) = co_heap c"
  by (simp_all add: run_end_def deleteIfSame_def)

text \<open>
  C36. A user never has two migrations running at the same time: in every state that requests,
  progress reports, finished runs and retention timers can lead to, in any order, two running
  jobs of one user are the same job, it is the one the coordinator has on file, and a further
  request for the user returns it without starting another.
\<close>

theorem one_running_job:
  assumes "coord_reachable c" "a \<in> set (co_running c)" "b \<in> set (co_running c)"
    "mj_UserID (co_heap c ! a) = mj_UserID (co_heap c ! b)"
  shows "a = b \<and> Status (mj_UserID (co_heap c ! a)) c = Some a
    \<and> StartOrGet jid now (mj_UserID (co_heap c ! a)) c = ((a, False), c)"
proof -
  note inv = coord_invD(2) [OF coord_reachable_inv [OF assms(1)], unfolded user_of_def]
  have a: "map_of (co_jobs c) (mj_UserID (co_heap c ! a)) = Some a" using inv [OF assms(2)] by blast
  have "map_of (co_jobs c) (mj_UserID (co_heap c ! a)) = Some b" unfolding assms(4) using inv [OF assms(3)] by blast
  then have "a = b" using a by (metis option.inject)
  then show ?thesis using a by (simp add: Status_def StartOrGet_def)
qed

definition example_coord :: coordinator where
  "example_coord = snd (StartOrGet ''j1'' 0 ''user_1'' (NewMigrationCoordinator\<lparr>co_retention := 0\<rparr>))"

lemma example_coord_reachable: "coord_reachable example_coord"
  unfolding example_coord_def
  by (rule coord_reachable.step [OF coord_reachable.init coord_step.start]) (rule prod.collapse [symmetric])

theorem one_running_job_witness:
  "StartOrGet ''j2'' 5 ''user_1'' example_coord = ((0, False), example_coord)"
proof -
  have r: "0 \<in> set (co_running example_coord)" and u: "mj_UserID (co_heap example_coord ! 0) = ''user_1''"
    by (simp_all add: example_coord_def StartOrGet_def NewMigrationCoordinator_def newMigrationJob_def Let_def)
  from one_running_job [OF example_coord_reachable r r refl, of "''j2''" 5] u show ?thesis by simp
qed

text \<open>
  A job ends exactly once and stays as it ended: in every reachable state a job is done exactly
  when no run holds it, it is then completed or failed; no step changes a job that is done; and
  finishing a running job never meets a closed channel.
\<close>

theorem job_ends_once:
  assumes "coord_reachable c" "coord_step c c'" "a < length (co_heap c)"
  shows "(mj_done (co_heap c ! a) \<longleftrightarrow> mj_status (co_heap c ! a) \<in> {MigrationJobCompleted, MigrationJobFailed})
    \<and> (mj_done (co_heap c ! a) \<longleftrightarrow> a \<notin> set (co_running c))
    \<and> (mj_done (co_heap c ! a) \<longrightarrow> co_heap c' ! a = co_heap c ! a)
    \<and> (a \<in> set (co_running c) \<longrightarrow> finish now resp err (co_heap c ! a) \<noteq> None)
    \<and> a < length (co_heap c')"
proof -
  note inv = coord_invD [OF coord_reachable_inv [OF assms(1)]]
  have "(a \<notin> set (co_running c) \<longrightarrow> co_heap c' ! a = co_heap c ! a) \<and> a < length (co_heap c')"
    using assms(2,3)
  proof (cases rule: coord_step.cases)
    case (report b now e)
    then show ?thesis using assms(3) by (cases "b = a") auto
  next
    case (ended b now resp err j)
    then show ?thesis using assms(3) by (cases "b = a") auto
  qed (auto simp: StartOrGet_def Let_def nth_append split: option.splits)
  then have "(mj_done (co_heap c ! a) \<longrightarrow> co_heap c' ! a = co_heap c ! a) \<and> a < length (co_heap c')"
    using inv(3) [OF assms(3)] by blast
  moreover have "a \<in> set (co_running c) \<Longrightarrow> finish now resp err (co_heap c ! a) \<noteq> None"
    using inv(3) [OF assms(3)] finish_running [of "co_heap c ! a"] by force
  moreover have "mj_done (co_heap c ! a) \<longleftrightarrow> mj_status (co_heap c ! a) \<in> {MigrationJobCompleted, MigrationJobFailed}"
    using inv(3) [OF assms(3)] by (auto simp: job_ok_def split: if_splits)
  ultimately show ?thesis using inv(3) [OF assms(3)] by blast
qed

theorem job_ends_once_witness:
  "finish 7 None None (co_heap example_coord ! 0) \<noteq> None \<and> \<not> mj_done (co_heap example_coord ! 0)"
proof -
  have r: "0 \<in> set (co_running example_coord)" "0 < length (co_heap example_coord)"
    and d: "\<not> mj_done (co_heap example_coord ! 0)"
    by (simp_all add: example_coord_def StartOrGet_def NewMigrationCoordinator_def newMigrationJob_def Let_def)
  have s: "coord_step example_coord (snd (StartOrGet ''j2'' 5 ''user_2'' example_coord))"
    by (rule coord_step.start) (rule prod.collapse [symmetric])
  from job_ends_once [OF example_coord_reachable s r(2), of 7 None None] r d show ?thesis by simp
qed

text \<open>
  What a poll reports is consistent: for every job of a reachable state the reported totals are
  the sums over the reported scopes, no scope is reported twice, and a running job is always
  reported as partial, so that a client that polls until the answer is not partial never stops
  before the run has ended.
\<close>

theorem poll_consistent:
  assumes "coord_reachable c" "a < length (co_heap c)"
  shows "mst_Migrated (buildMigrateAllStatusResponse T (co_heap c ! a))
      = sum_list (map sr_Migrated (mst_Scopes (buildMigrateAllStatusResponse T (co_heap c ! a))))
    \<and> mst_RetryableRemaining (buildMigrateAllStatusResponse T (co_heap c ! a))
      = sum_list (map sr_RetryableRemaining (mst_Scopes (buildMigrateAllStatusResponse T (co_heap c ! a))))
    \<and> mst_BlockedUnmigrated (buildMigrateAllStatusResponse T (co_heap c ! a))
      = sum_list (map sr_BlockedUnmigrated (mst_Scopes (buildMigrateAllStatusResponse T (co_heap c ! a))))
    \<and> distinct (map sr_Scope (mst_Scopes (buildMigrateAllStatusResponse T (co_heap c ! a))))
    \<and> (\<not> mst_Partial (buildMigrateAllStatusResponse T (co_heap c ! a)) \<longrightarrow> mj_done (co_heap c ! a))"
proof -
  let ?j = "co_heap c ! a"
  have ok: "job_ok ?j" using coord_invD(3) [OF coord_reachable_inv [OF assms(1)] assms(2)] by simp
  have name: "sr_Scope (scope_of ?j n) = n" if n: "n \<in> set (mj_scopeOrd ?j)" for n
  proof -
    have "map_of (mj_scopes ?j) n \<noteq> None"
      using ok n by (simp add: job_ok_def scopes_ok_def map_of_None_iff)
    then obtain r where "map_of (mj_scopes ?j) n = Some r" by blast
    then show ?thesis using ok by (simp add: job_ok_def scopes_ok_def scope_of_def)
  qed
  have "map sr_Scope (map (scope_of ?j) (mj_scopeOrd ?j)) = mj_scopeOrd ?j"
    by (simp add: map_idI name)
  moreover have "mst_Scopes (buildMigrateAllStatusResponse T ?j) = map (scope_of ?j) (mj_scopeOrd ?j)"
    "mst_Migrated (buildMigrateAllStatusResponse T ?j) = sum_list (map sr_Migrated (map (scope_of ?j) (mj_scopeOrd ?j)))"
    "mst_RetryableRemaining (buildMigrateAllStatusResponse T ?j)
       = sum_list (map sr_RetryableRemaining (map (scope_of ?j) (mj_scopeOrd ?j)))"
    "mst_BlockedUnmigrated (buildMigrateAllStatusResponse T ?j)
       = sum_list (map sr_BlockedUnmigrated (map (scope_of ?j) (mj_scopeOrd ?j)))"
    "mst_Partial (buildMigrateAllStatusResponse T ?j) \<longleftrightarrow> mj_status ?j = MigrationJobRunning \<or> mj_partial ?j"
    by (simp_all add: buildMigrateAllStatusResponse_def snapshotLocked_def Let_def)
  moreover have "mj_status ?j \<noteq> MigrationJobRunning \<longrightarrow> mj_done ?j" "distinct (mj_scopeOrd ?j)"
    using ok by (simp_all add: job_ok_def scopes_ok_def split: if_splits)
  ultimately show ?thesis by metis
qed

theorem poll_consistent_witness:
  "mst_Partial (buildMigrateAllStatusResponse \<lparr> tm_parse = (\<lambda>_. None), tm_format = (\<lambda>_. []) \<rparr> (co_heap example_coord ! 0))"
proof -
  have r: "0 < length (co_heap example_coord)" "\<not> mj_done (co_heap example_coord ! 0)"
    by (simp_all add: example_coord_def StartOrGet_def NewMigrationCoordinator_def newMigrationJob_def Let_def)
  from poll_consistent [OF example_coord_reachable r(1)] r(2) show ?thesis by blast
qed

section \<open>The production runner\<close>

text \<open>
  \<^verbatim>\<open>run\<close> with \<^verbatim>\<open>defaultMigrationRunner\<close>: the job is the reporter of the run, \<open>tick\<close> gives the
  clock readings of its reports, and the context is cut off from the request and done after the
  job's budget.
\<close>

definition detached :: "'s deps \<Rightarrow> gtime \<Rightarrow> 's deps" where
  "detached D deadline = D\<lparr>dp_net := (dp_net D)\<lparr>net_ctx_err := (\<lambda>s. deadline \<le> dp_now D s)\<rparr>\<rparr>"

definition run_job ::
  "nat \<Rightarrow> 's deps \<Rightarrow> session \<Rightarrow> migrate_all_request \<Rightarrow> (nat \<Rightarrow> gtime) \<Rightarrow> migration_job \<Rightarrow> 's \<Rightarrow>
   (migration_job option \<times> 's) option" where
  "run_job fuel D sess req tick job s =
     (case migrateAllWithProgress fuel (detached D (dp_now D s + MigrationJobBudget)) sess req s of
        None \<Rightarrow> None
      | Some ((outcome, events), s') \<Rightarrow>
          (let job' = fold (\<lambda>(t, e). report_progress t e) (zip (map tick [0..<length events]) events) job
           in Some (case outcome of
                      Inl err \<Rightarrow> finish (tick (length events)) None (Some err) job'
                    | Inr out \<Rightarrow> finish (tick (length events)) (Some out) None job', s')))"

lemma clock_ok_detached [simp]: "clock_ok (detached D t) \<longleftrightarrow> clock_ok D"
  by (simp add: clock_ok_def detached_def)

lemma replay_done: "mj_done (fold (\<lambda>(t, e). report_progress t e) evs j) = mj_done j"
  by (induction evs arbitrary: j) (simp_all add: case_prod_beta)

lemma put_scopes_distinct:
  "distinct (map sr_Scope rs) \<Longrightarrow> fst ` set scopes \<inter> sr_Scope ` set rs = {} \<Longrightarrow>
   snd (put_scopes rs (scopes, ord)) = ord @ map sr_Scope rs
   \<and> (\<forall>n. map_of (fst (put_scopes rs (scopes, ord))) n
        = (case map_of (map (\<lambda>r. (sr_Scope r, r)) rs) n of Some r \<Rightarrow> Some r | None \<Rightarrow> map_of scopes n))"
proof (induction rs "(scopes, ord)" arbitrary: scopes ord rule: put_scopes.induct)
  case (2 r rs scopes ord)
  have none: "map_of scopes (sr_Scope r) = None" using "2.prems"(2) by (auto simp: map_of_None_iff)
  have new: "map_of (map (\<lambda>r. (sr_Scope r, r)) rs) (sr_Scope r) = None"
    using "2.prems"(1) by (auto simp: map_of_None_iff image_iff)
  have IH: "snd (put_scopes (r # rs) (scopes, ord)) = ord @ sr_Scope r # map sr_Scope rs
      \<and> (\<forall>n. map_of (fst (put_scopes (r # rs) (scopes, ord))) n
        = (case map_of (map (\<lambda>r. (sr_Scope r, r)) rs) n of Some r' \<Rightarrow> Some r'
           | None \<Rightarrow> ((map_of scopes)(sr_Scope r \<mapsto> r)) n))"
    using "2.hyps" "2.prems" none by (auto split: option.split)
  then show ?case using new by (auto split: option.splits)
qed simp

lemma put_scopes_reports:
  assumes "distinct (map sr_Scope rs)" "put_scopes rs ([], []) = (scopes, ord)"
  shows "ord = map sr_Scope rs \<and> map (\<lambda>n. case map_of scopes n of None \<Rightarrow> zero_report [] | Some r \<Rightarrow> r) ord = rs"
proof -
  from put_scopes_distinct [OF assms(1), of "[]" "[]"] assms(2) have
    ord: "ord = map sr_Scope rs" and
    look: "\<And>n. map_of scopes n = map_of (map (\<lambda>r. (sr_Scope r, r)) rs) n"
    by (auto split: option.splits)
  have "map_of (map (\<lambda>r. (sr_Scope r, r)) rs) (sr_Scope r) = Some r" if "r \<in> set rs" for r
    using assms(1) that by (intro map_of_is_SomeI) (auto simp: comp_def)
  then show ?thesis by (simp add: ord look map_idI)
qed

lemma finish_report:
  assumes "finish now (Some out) None j = Some job" "distinct (map sr_Scope (ma_Scopes out))"
  shows "map (scope_of job) (mj_scopeOrd job) = ma_Scopes out \<and> mj_partial job = ma_Partial out
    \<and> mj_status job = MigrationJobCompleted"
proof -
  obtain scopes ord where p: "put_scopes (ma_Scopes out) ([], []) = (scopes, ord)" by (metis surj_pair)
  have "mj_scopes job = scopes" "mj_scopeOrd job = ord" "mj_partial job = ma_Partial out"
    "mj_status job = MigrationJobCompleted"
    using assms(1) p by (auto simp: finish_def Let_def split: if_splits)
  then show ?thesis using put_scopes_reports [OF assms(2) p] by (auto simp: scope_of_def [abs_def] simp del: map_map)
qed

lemma migrateScopeOrder_distinct: "distinct migrateScopeOrder"
  by (simp add: migrateScopeOrder_def scope_defs)

text \<open>
  A started job always ends, and with the truth: when exchanges with the controlplane take time,
  the background run of a fresh job returns, leaves the job done, and a poll then shows exactly
  what the run returned: its scope reports, their sums and its partial flag after a success, the
  error and the last progress report of every scope after a failure.
\<close>

theorem job_ends_with_report:
  assumes "clock_ok D" "nat MigrateAllBudget < fuel"
  shows "\<exists>job s' outcome events.
    run_job fuel D sess req tick (newMigrationJob jid now userID) s = Some (Some job, s') \<and> mj_done job
    \<and> migrateAllWithProgress fuel (detached D (dp_now D s + MigrationJobBudget)) sess req s
        = Some ((outcome, events), s')
    \<and> (case outcome of
          Inr out \<Rightarrow> mj_status job = MigrationJobCompleted
            \<and> mst_Scopes (buildMigrateAllStatusResponse T job) = ma_Scopes out
            \<and> mst_Migrated (buildMigrateAllStatusResponse T job) = ma_Migrated out
            \<and> mst_RetryableRemaining (buildMigrateAllStatusResponse T job) = ma_RetryableRemaining out
            \<and> mst_BlockedUnmigrated (buildMigrateAllStatusResponse T job) = ma_BlockedUnmigrated out
            \<and> mst_Partial (buildMigrateAllStatusResponse T job) = ma_Partial out
        | Inl err \<Rightarrow> mj_status job = MigrationJobFailed \<and> mj_errMsg job = error_string err
            \<and> map_of (mj_scopes job) = last_report events
            \<and> mj_partial job = (MarkPartial \<in> set events))"
proof -
  let ?D = "detached D (dp_now D s + MigrationJobBudget)"
  obtain outcome events s' where run: "migrateAllWithProgress fuel ?D sess req s = Some ((outcome, events), s')"
    using migrateAll_runs [of ?D fuel sess req s] assms by auto
  let ?evs = "zip (map tick [0..<length events]) events"
  let ?j = "fold (\<lambda>(t, e). report_progress t e) ?evs (newMigrationJob jid now userID)"
  have evs: "map snd ?evs = events" by simp
  then have set_evs: "snd ` set ?evs = set events" by (metis list.set_map)
  have nd: "\<not> mj_done ?j" unfolding replay_done by (simp add: newMigrationJob_def)
  show ?thesis
  proof (cases outcome)
    case (Inl err)
    obtain job where job: "finish (tick (length events)) None (Some err) ?j = Some job"
      using finish_running [OF nd] by blast
    then have eq: "mj_scopes job = mj_scopes ?j" "mj_partial job = mj_partial ?j" "mj_errMsg job = error_string err"
      by (auto simp: finish_def Let_def split: if_splits)
    have "map_of (mj_scopes job) = last_report events"
    proof
      fix n
      show "map_of (mj_scopes job) n = last_report events n"
        using job.replay_latest [of ?evs "newMigrationJob jid now userID" n]
        unfolding evs eq by (simp add: newMigrationJob_def split: option.splits)
    qed
    moreover have "mj_partial job = (MarkPartial \<in> set events)"
      using job.replay_partial [of ?evs "newMigrationJob jid now userID"] unfolding set_evs eq
      by (simp add: newMigrationJob_def)
    moreover have "run_job fuel D sess req tick (newMigrationJob jid now userID) s = Some (Some job, s')"
      using run Inl job by (simp add: run_job_def Let_def)
    ultimately show ?thesis using run Inl finish_Some [OF job] eq(3) by auto
  next
    case (Inr out)
    obtain job where job: "finish (tick (length events)) (Some out) None ?j = Some job"
      using finish_running [OF nd] by blast
    note sums = migrateAll_sums [OF run [unfolded Inr]]
    then have "distinct (map sr_Scope (ma_Scopes out))"
      using migrateScopeOrder_distinct by (metis distinct_append prefix_def)
    note rep = finish_report [OF job this]
    have "run_job fuel D sess req tick (newMigrationJob jid now userID) s = Some (Some job, s')"
      using run Inr job by (simp add: run_job_def Let_def)
    moreover have "mst_Scopes (buildMigrateAllStatusResponse T job) = ma_Scopes out
        \<and> mst_Migrated (buildMigrateAllStatusResponse T job) = ma_Migrated out
        \<and> mst_RetryableRemaining (buildMigrateAllStatusResponse T job) = ma_RetryableRemaining out
        \<and> mst_BlockedUnmigrated (buildMigrateAllStatusResponse T job) = ma_BlockedUnmigrated out
        \<and> mst_Partial (buildMigrateAllStatusResponse T job) = ma_Partial out"
      using rep sums by (simp add: buildMigrateAllStatusResponse_def snapshotLocked_def Let_def del: map_map)
    ultimately show ?thesis using run Inr finish_Some [OF job] rep by auto
  qed
qed

theorem job_ends_with_report_witness:
  "\<exists>job s'. run_job (Suc (nat MigrateAllBudget)) counting_deps example_session example_migrate_all (\<lambda>n. int n)
     (newMigrationJob ''j1'' 0 ''user_1'') ((), []) = Some (Some job, s') \<and> mj_done job"
  using job_ends_with_report [OF counting_clock lessI, of example_session example_migrate_all "\<lambda>n. int n"] by blast

end
