(* ===== verification/Buckets.thy ===== *)
theory Buckets
  imports Controlplane
begin

text \<open>
  Package \<^verbatim>\<open>internal/buckets\<close>: the client of the storage sidecar, and the contract its users rely
  on. The decoder of the sidecar's XML error bodies (\<^verbatim>\<open>encoding/xml\<close>) is a parameter: the code it
  finds in a body, if the body is well-formed and has one.
\<close>

section \<open>Names\<close>

definition maxErrorBodyBytes :: nat where "maxErrorBodyBytes = 8192"
definition encryptionKeySize :: nat where "encryptionKeySize = 32"
definition tenantPrefix :: string where "tenantPrefix = ''user-''"
definition headerTenantID :: string where "headerTenantID = ''X-Tinfoil-Tenant-Id''"
definition headerEncryptionKey :: string where "headerEncryptionKey = ''X-Tinfoil-Encryption-Key''"
definition s3CodeDecryptionFailed :: string where "s3CodeDecryptionFailed = ''DecryptionFailed''"

lemmas bucket_defs = maxErrorBodyBytes_def encryptionKeySize_def tenantPrefix_def headerTenantID_def
  headerEncryptionKey_def s3CodeDecryptionFailed_def

text \<open>The regular expressions, as the languages they describe.\<close>

definition tenant_char :: "char \<Rightarrow> bool" where
  "tenant_char c = (in_range 65 90 c \<or> in_range 97 122 c \<or> in_range 48 57 c \<or> c = CHR ''_'' \<or> c = CHR ''-'')"

definition tenantIDPattern :: "string \<Rightarrow> bool" where
  "tenantIDPattern s = (1 \<le> length s \<and> length s \<le> 64 \<and> list_all tenant_char s)"

definition bucket_edge_char :: "char \<Rightarrow> bool" where
  "bucket_edge_char c = (in_range 97 122 c \<or> in_range 48 57 c)"

definition bucketNamePattern :: "string \<Rightarrow> bool" where
  "bucketNamePattern s =
     (3 \<le> length s \<and> length s \<le> 63 \<and> bucket_edge_char (hd s) \<and> bucket_edge_char (last s)
      \<and> list_all (\<lambda>c. bucket_edge_char c \<or> c = CHR ''.'' \<or> c = CHR ''-'') (butlast (tl s)))"

fun split_dots :: "string \<Rightarrow> string list" where
  "split_dots [] = [[]]"
| "split_dots (c # s) = (if c = CHR ''.'' then [] # split_dots s
     else case split_dots s of [] \<Rightarrow> [[c]] | p # ps \<Rightarrow> (c # p) # ps)"

definition ipv4Pattern :: "string \<Rightarrow> bool" where
  "ipv4Pattern s =
     (let parts = split_dots s
      in length parts = 4 \<and> list_all (\<lambda>p. 1 \<le> length p \<and> length p \<le> 3 \<and> list_all is_digit p) parts)"

text \<open>\<^verbatim>\<open>strings.Contains(s, "..")\<close>.\<close>

fun contains_dots :: "string \<Rightarrow> bool" where
  "contains_dots (a # b # s) = (a = CHR ''.'' \<and> b = CHR ''.'' \<or> contains_dots (b # s))"
| "contains_dots _ = False"

definition validBucketName :: "string \<Rightarrow> bool" where
  "validBucketName s = (bucketNamePattern s \<and> \<not> contains_dots s \<and> \<not> ipv4Pattern s)"

section \<open>The client\<close>

record bucket_client =
  bc_baseURL :: string
  bc_bucket :: string

text \<open>\<^verbatim>\<open>strings.TrimRight(baseURL, "/")\<close>.\<close>

definition bucket_NewClient :: "string \<Rightarrow> string \<Rightarrow> bucket_client" where
  "bucket_NewClient baseURL bucket =
     \<lparr> bc_baseURL = rev (dropWhile (\<lambda>c. c = CHR ''/'') (rev baseURL)), bc_bucket = bucket \<rparr>"

text \<open>A nil client is not configured.\<close>

definition Configured :: "bucket_client option \<Rightarrow> bool" where
  "Configured oc = (case oc of None \<Rightarrow> False | Some c \<Rightarrow> bc_baseURL c \<noteq> [] \<and> validBucketName (bc_bucket c))"

definition deleteKeyPlaceholder :: bytes where
  "deleteKeyPlaceholder = replicate encryptionKeySize (CHR 0x00)"

definition tenantForUser :: "string \<Rightarrow> string result" where
  "tenantForUser owner =
     (if owner = [] then Inl (ENew ''buckets: owner is required'')
      else if \<not> tenantIDPattern (tenantPrefix @ owner)
      then Inl (ENew (''buckets: owner '' @ owner @ '' yields invalid tenant id''))
      else Inr (tenantPrefix @ owner))"

definition objectURL :: "bucket_client \<Rightarrow> string \<Rightarrow> string" where
  "objectURL c accessToken = bc_baseURL c @ ''/'' @ bc_bucket c @ ''/'' @ accessToken"

definition setTenantHeaders :: "string \<Rightarrow> bytes \<Rightarrow> header_list \<Rightarrow> header_list" where
  "setTenantHeaders tenant key h = header_set headerEncryptionKey (b64_encode key) (header_set headerTenantID tenant h)"

definition expectOK :: "http_response \<Rightarrow> unit result" where
  "expectOK resp = (if 200 \<le> rs_Status resp \<and> rs_Status resp \<le> 299 then Inr () else Inl (EBucketStatus (rs_Status resp)))"

definition s3ErrorCode :: "(bytes \<Rightarrow> string option) \<Rightarrow> http_response \<Rightarrow> string" where
  "s3ErrorCode xml resp = (case xml (fst (read_limited maxErrorBodyBytes resp)) of None \<Rightarrow> [] | Some code \<Rightarrow> code)"

text \<open>What the calls share: the checks before a request, and sending it.\<close>

definition key_size_error :: "bytes \<Rightarrow> go_error" where
  "key_size_error key = ENew (''buckets: encryption key must be '' @ itoa (int encryptionKeySize) @ '' bytes, got ''
     @ itoa (int (length key)))"

definition not_configured :: go_error where
  "not_configured = ENew ''buckets: client not configured''"

definition bucket_Do :: "'s net \<Rightarrow> string \<Rightarrow> http_request \<Rightarrow> ('s, http_response) op" where
  "bucket_Do N what req s =
     (case net_do N req s of
        (Inl e, s') \<Rightarrow> (Inl (wrap_prefix (''buckets: '' @ what @ '' request: '') e), s')
      | (Inr resp, s') \<Rightarrow> (Inr resp, s'))"

definition bucket_send ::
  "bucket_client \<Rightarrow> 's net \<Rightarrow> string \<Rightarrow> string \<Rightarrow> string \<Rightarrow> string \<Rightarrow> bytes \<Rightarrow> bytes \<Rightarrow> (header_list \<Rightarrow> header_list) \<Rightarrow>
   ('s, http_response) op" where
  "bucket_send c N what meth owner accessToken key body hs =
     op_bind (op_lift (tenantForUser owner)) (\<lambda>tenant.
     op_bind (op_lift (NewRequest N meth (objectURL c accessToken) body)) (\<lambda>req.
       bucket_Do N what (rq_set (setTenantHeaders tenant key) (rq_set hs req))))"

definition bucket_Put ::
  "bucket_client option \<Rightarrow> 's net \<Rightarrow> string \<Rightarrow> string \<Rightarrow> bytes \<Rightarrow> bytes \<Rightarrow> ('s, unit) op" where
  "bucket_Put oc N owner accessToken plaintext key =
     (if \<not> Configured oc then op_err not_configured
      else if length key \<noteq> encryptionKeySize then op_err (key_size_error key)
      else op_bind (bucket_send (the oc) N ''put'' ''PUT'' owner accessToken key plaintext
                      (header_set ''Content-Type'' ''application/octet-stream''))
             (\<lambda>resp. op_lift (expectOK resp)))"

text \<open>A bound that is not positive means none.\<close>

definition bucket_GetLimited ::
  "bucket_client option \<Rightarrow> 's net \<Rightarrow> (bytes \<Rightarrow> string option) \<Rightarrow> string \<Rightarrow> string \<Rightarrow> bytes \<Rightarrow> int \<Rightarrow> ('s, bytes) op" where
  "bucket_GetLimited oc N xml owner accessToken key maxBytes =
     (if \<not> Configured oc then op_err not_configured
      else if length key \<noteq> encryptionKeySize then op_err (key_size_error key)
      else op_bind (bucket_send (the oc) N ''get'' ''GET'' owner accessToken key [] (\<lambda>h. h)) (\<lambda>resp.
        if rs_Status resp = 200 then
          (case (if 0 < maxBytes then read_limited (nat maxBytes + 1) resp else (rs_Body resp, rs_Broken resp)) of
             (plaintext, readErr) \<Rightarrow>
               if readErr then op_err (wrap_prefix ''buckets: read get: '' read_err)
               else if 0 < maxBytes \<and> int (length plaintext) > maxBytes
               then op_err (wrap_prefix (''buckets: get body exceeds '' @ itoa maxBytes @ '' bytes: '') (ESent ErrBucketTooLarge))
               else op_ret plaintext)
        else if rs_Status resp = 404 then op_err (ESent ErrBucketNotFound)
        else if rs_Status resp = 400 \<and> s3ErrorCode xml resp = s3CodeDecryptionFailed then op_err (ESent ErrBucketForbidden)
        else op_err (EBucketStatus (rs_Status resp))))"

definition bucket_Get ::
  "bucket_client option \<Rightarrow> 's net \<Rightarrow> (bytes \<Rightarrow> string option) \<Rightarrow> string \<Rightarrow> string \<Rightarrow> bytes \<Rightarrow> ('s, bytes) op" where
  "bucket_Get oc N xml owner accessToken key = bucket_GetLimited oc N xml owner accessToken key 0"

definition bucket_Delete :: "bucket_client option \<Rightarrow> 's net \<Rightarrow> string \<Rightarrow> string \<Rightarrow> ('s, unit) op" where
  "bucket_Delete oc N owner accessToken =
     (if \<not> Configured oc then op_err not_configured
      else op_bind (bucket_send (the oc) N ''delete'' ''DELETE'' owner accessToken deleteKeyPlaceholder [] (\<lambda>h. h))
             (\<lambda>resp. if rs_Status resp = 404 then op_ret () else op_lift (expectOK resp)))"

section \<open>The contract\<close>

text \<open>
  What the users of an object store rely on, for the tokens, owners and values in its range: it
  gives back what was put under the key it was put under, refuses another key, forgets what was
  deleted, and leaves every other token alone.
\<close>

definition fits :: "int \<Rightarrow> bytes \<Rightarrow> bool" where
  "fits n v \<longleftrightarrow> n \<le> 0 \<or> int (length v) \<le> n"

locale object_store =
  fixes put :: "string \<Rightarrow> string \<Rightarrow> bytes \<Rightarrow> bytes \<Rightarrow> ('s, unit) op"
    and get :: "string \<Rightarrow> string \<Rightarrow> bytes \<Rightarrow> int \<Rightarrow> ('s, bytes) op"
    and del :: "string \<Rightarrow> string \<Rightarrow> ('s, unit) op"
    and owner_ok :: "string \<Rightarrow> bool" and token_ok :: "string \<Rightarrow> bool" and value_ok :: "bytes \<Rightarrow> bool"
  assumes put_stores: "owner_ok u \<Longrightarrow> token_ok t \<Longrightarrow> value_ok v \<Longrightarrow> length k = 32 \<Longrightarrow> \<exists>s'. put u t v k s = (Inr (), s')"
    and get_put: "owner_ok u \<Longrightarrow> token_ok t \<Longrightarrow> value_ok v \<Longrightarrow> length k = 32 \<Longrightarrow> fits n v \<Longrightarrow>
      put u t v k s = (Inr (), s') \<Longrightarrow> fst (get u t k n s') = Inr v"
    and get_wrong_key: "owner_ok u \<Longrightarrow> token_ok t \<Longrightarrow> value_ok v \<Longrightarrow> length k = 32 \<Longrightarrow> length k' = 32 \<Longrightarrow> k' \<noteq> k \<Longrightarrow>
      put u t v k s = (Inr (), s') \<Longrightarrow> fst (get u t k' n s') = Inl (ESent ErrBucketForbidden)"
    and del_succeeds: "owner_ok u \<Longrightarrow> token_ok t \<Longrightarrow> \<exists>s'. del u t s = (Inr (), s')"
    and get_del: "owner_ok u \<Longrightarrow> token_ok t \<Longrightarrow> length k = 32 \<Longrightarrow> del u t s = (Inr (), s') \<Longrightarrow>
      fst (get u t k n s') = Inl (ESent ErrBucketNotFound)"
    and put_frame: "token_ok t \<Longrightarrow> token_ok t' \<Longrightarrow> t' \<noteq> t \<Longrightarrow> put u t v k s = (r, s') \<Longrightarrow> fst (get u' t' k' n s') = fst (get u' t' k' n s)"
    and del_frame: "token_ok t \<Longrightarrow> token_ok t' \<Longrightarrow> t' \<noteq> t \<Longrightarrow> del u t s = (r, s') \<Longrightarrow> fst (get u' t' k' n s') = fst (get u' t' k' n s)"
    and get_keeps: "get u t k n s = (b, s') \<Longrightarrow> fst (get u' t' k' n' s') = fst (get u' t' k' n' s)"
begin

lemma put_readable:
  assumes "owner_ok u" "token_ok t" "value_ok v" "length k = 32"
  obtains s' where "put u t v k s = (Inr (), s')" "fst (get u t k 0 s') = Inr v"
    "\<And>k'. length k' = 32 \<Longrightarrow> k' \<noteq> k \<Longrightarrow> fst (get u t k' 0 s') = Inl (ESent ErrBucketForbidden)"
  using put_stores [OF assms, of s] get_put [OF assms] get_wrong_key [OF assms] that
  by (metis fits_def order_refl)

lemma overwritten:
  assumes "owner_ok u" "token_ok t" "value_ok v" "length k = 32" "put u t v k s = (Inr (), s1)"
    and "value_ok w" "length k2 = 32" "put u t w k2 s1 = (Inr (), s2)"
  shows "fst (get u t k2 0 s2) = Inr w" "k \<noteq> k2 \<Longrightarrow> fst (get u t k 0 s2) = Inl (ESent ErrBucketForbidden)"
  using get_put [OF assms(1,2,6,7) _ assms(8), of 0] get_wrong_key [OF assms(1,2,6,7,4) _ assms(8), of 0]
  by (auto simp: fits_def)

end

lemma tenantForUser_Inr: "tenantForUser owner = Inr t \<longleftrightarrow> owner \<noteq> [] \<and> tenantIDPattern (tenantPrefix @ owner) \<and> t = tenantPrefix @ owner"
  by (auto simp: tenantForUser_def)

lemma tenantForUser_inject: "tenantForUser a = Inr t \<Longrightarrow> tenantForUser b = Inr t \<Longrightarrow> a = b"
  by (simp add: tenantForUser_Inr)

end
