(* ===== verification/Go_URL.thy ===== *)
theory Go_URL
  imports Go_HTTP
begin

text \<open>
  What a server uses of \<^verbatim>\<open>net/url\<close>, \<^verbatim>\<open>strings\<close> and \<^verbatim>\<open>encoding/base64\<close> to read a request: splitting at a
  separator, path segments, query parameters, and the unpadded URL-safe base64 of opaque
  cursors. Each reader is the inverse of the writer the client uses.
\<close>

section \<open>Splitting\<close>

text \<open>\<^verbatim>\<open>strings.Split(s, string(c))\<close> and \<^verbatim>\<open>strings.Cut(s, string(c))\<close>.\<close>

fun split_on :: "char \<Rightarrow> string \<Rightarrow> string list" where
  "split_on c [] = [[]]"
| "split_on c (x # xs) =
     (if x = c then [] # split_on c xs
      else case split_on c xs of [] \<Rightarrow> [[x]] | f # fs \<Rightarrow> (x # f) # fs)"

fun cut :: "char \<Rightarrow> string \<Rightarrow> string \<times> string \<times> bool" where
  "cut c [] = ([], [], False)"
| "cut c (x # xs) = (if x = c then ([], xs, True) else case cut c xs of (a, b, f) \<Rightarrow> (x # a, b, f))"

lemma split_on_nonempty [simp]: "split_on c s \<noteq> []"
  by (induction s) (auto split: list.splits)

lemma split_on_plain: "c \<notin> set s \<Longrightarrow> split_on c s = [s]"
  by (induction s) auto

lemma split_on_append: "c \<notin> set p \<Longrightarrow> split_on c (p @ c # r) = p # split_on c r"
  by (induction p) auto

lemma split_on_all: "f \<in> set (split_on c s) \<Longrightarrow> c \<notin> set f"
  by (induction s arbitrary: f) (auto split: if_splits list.splits)

lemma cut_found: "c \<notin> set p \<Longrightarrow> cut c (p @ c # r) = (p, r, True)"
  by (induction p) auto

lemma cut_plain: "c \<notin> set s \<Longrightarrow> cut c s = (s, [], False)"
  by (induction s) auto

section \<open>Query parameters\<close>

fun query_unescape :: "string \<Rightarrow> string option" where
  "query_unescape [] = Some []"
| "query_unescape (c # r) =
     (if c = CHR ''%'' then
        (case r of
           a # b # r' \<Rightarrow>
             (case (fromHexChar a, fromHexChar b, query_unescape r') of
                (Some x, Some y, Some t) \<Rightarrow> Some (byte_of (16 * x + y) # t)
              | _ \<Rightarrow> None)
         | _ \<Rightarrow> None)
      else map_option (\<lambda>t. (if c = CHR ''+'' then CHR '' '' else c) # t) (query_unescape r))"

text \<open>
  \<^verbatim>\<open>URL.Query\<close>: fields with a semicolon or a malformed escape are dropped, empty ones skipped.
\<close>

definition query_field :: "string \<Rightarrow> (string \<times> string) list" where
  "query_field f =
     (if f = [] \<or> CHR '';'' \<in> set f then []
      else case cut (CHR ''='') f of (k, v, _) \<Rightarrow>
             (case (query_unescape k, query_unescape v) of (Some k', Some v') \<Rightarrow> [(k', v')] | _ \<Rightarrow> []))"

definition parse_query :: "string \<Rightarrow> (string \<times> string) list" where
  "parse_query s = concat (map query_field (split_on (CHR ''&'') s))"

definition query_get :: "(string \<times> string) list \<Rightarrow> string \<Rightarrow> string" where
  "query_get q k = (case map_of q k of None \<Rightarrow> [] | Some v \<Rightarrow> v)"

lemma query_keep_plain: "query_keep c \<Longrightarrow> c \<noteq> CHR ''%'' \<and> c \<noteq> CHR ''+''"
proof -
  have "\<not> query_keep CHR ''%''" "\<not> query_keep CHR ''+''" by code_simp+
  then show "query_keep c \<Longrightarrow> ?thesis" by auto
qed

lemma query_unescape_escape [simp]: "query_unescape (query_escape s) = Some s"
  by (induction s) (auto simp: query_keep_plain less_mult_imp_div_less)

lemma upperhex_plain: "n < 16 \<Longrightarrow> upperhex n \<notin> set ''&=;?/%+''"
  using fromHexChar_upperhex [of n] by (auto simp: fromHexChar_def)

lemma query_escape_plain: "c \<in> set ''&=;?/'' \<Longrightarrow> c \<notin> set (query_escape s)"
proof (induction s)
  case (Cons x s)
  have "upperhex (byte_val x div 16) \<noteq> c" "upperhex (byte_val x mod 16) \<noteq> c"
    using upperhex_plain [of "byte_val x div 16"] upperhex_plain [of "byte_val x mod 16"] Cons.prems by auto
  then show ?case using Cons by (auto simp: query_keep_def in_range_def)
qed simp

lemma query_escape_Nil [simp]: "query_escape s = [] \<longleftrightarrow> s = []"
  by (cases s) auto

lemma query_field_pair:
  "query_field (query_escape k @ ''='' @ query_escape v) = [(k, v)]"
proof -
  have "CHR '';'' \<notin> set (query_escape k)" "CHR '';'' \<notin> set (query_escape v)" "CHR ''='' \<notin> set (query_escape k)"
    by (simp_all add: query_escape_plain)
  then show ?thesis by (simp add: query_field_def cut_found)
qed

text \<open>The parameters a client encodes are the ones a server reads.\<close>

lemma parse_query_encode: "parse_query (query_encode kvs) = kvs"
proof (induction kvs rule: query_encode.induct)
  case 1
  show ?case by (simp add: parse_query_def query_field_def)
next
  case (2 k v)
  have "CHR ''&'' \<notin> set (query_escape k @ ''='' @ query_escape v)"
    by (simp add: query_escape_plain)
  then show ?case using query_field_pair [of k v] by (simp add: parse_query_def split_on_plain)
next
  case (3 k v kv r)
  have "CHR ''&'' \<notin> set (query_escape k @ ''='' @ query_escape v)"
    by (simp add: query_escape_plain)
  from split_on_append [OF this, of "query_encode (kv # r)"] 3 query_field_pair [of k v]
  show ?case by (simp add: parse_query_def)
qed

lemma query_encode_plain: "CHR ''?'' \<notin> set (query_encode kvs)"
  by (induction kvs rule: query_encode.induct) (auto simp: query_escape_plain)

lemma path_escape_no_query: "CHR ''?'' \<notin> set (path_escape s)"
proof (induction s)
  case (Cons x s)
  have "upperhex (byte_val x div 16) \<noteq> CHR ''?''" "upperhex (byte_val x mod 16) \<noteq> CHR ''?''"
    using upperhex_plain [of "byte_val x div 16"] upperhex_plain [of "byte_val x mod 16"] by auto
  then show ?case using Cons by (auto simp: path_keep_def)
qed simp

section \<open>base64.RawURLEncoding\<close>

definition url_char :: "char \<Rightarrow> char" where
  "url_char c = (if c = CHR ''+'' then CHR ''-'' else if c = CHR ''/'' then CHR ''_'' else c)"

definition raw_url_encode :: "bytes \<Rightarrow> string" where
  "raw_url_encode b = map url_char (filter (\<lambda>c. c \<noteq> CHR ''='') (b64_encode b))"

lemma b64val_url: "b64val False c = Some n \<Longrightarrow> b64val True (url_char c) = Some n"
proof -
  have "b64val False CHR ''+'' = Some 62" "b64val False CHR ''/'' = Some 63"
    "b64val True CHR ''-'' = Some 62" "b64val True CHR ''_'' = Some 63" by code_simp+
  moreover have "byte_val c = 43 \<Longrightarrow> c = CHR ''+''" "byte_val c = 47 \<Longrightarrow> c = CHR ''/''"
    using byte_val_inject [of c "CHR ''+''"] byte_val_inject [of c "CHR ''/''"] by simp_all
  then have "b64val True c = b64val False c" if "b64val False c \<noteq> None" "c \<noteq> CHR ''+''" "c \<noteq> CHR ''/''"
    using that by (auto simp: b64val_def Let_def split: if_splits)
  ultimately show "b64val False c = Some n \<Longrightarrow> ?thesis" by (auto simp: url_char_def)
qed

lemma url_chars:
  assumes "n < 64"
  shows "b64val True (url_char (b64char n)) = Some n" "b64char n \<noteq> CHR ''=''"
    "url_char (b64char n) \<noteq> CHR 0x0A \<and> url_char (b64char n) \<noteq> CHR 0x0D"
  using assms b64val_url [of "b64char n" n] std_char_not_newline [of "b64char n"] by (auto simp: url_char_def)

lemma raw_url_body: "b64_body True False s (raw_url_encode x) = Some x"
proof (induction x rule: b64_encode.induct)
  case (2 a)
  show ?case using b64_join1 [of 0 a] by (simp add: raw_url_encode_def b64_last1_def url_chars)
next
  case (3 a b)
  show ?case using b64_join1 [of "of_char b div 16" a] b64_join2 [of 0 a b]
    by (simp add: raw_url_encode_def b64_last2_def url_chars)
next
  case (4 a b c r)
  have "b64_quad True (url_char (b64char (byte_val a div 4)))
      (url_char (b64char (byte_val a mod 4 * 16 + byte_val b div 16)))
      (url_char (b64char (byte_val b mod 16 * 4 + byte_val c div 64))) (url_char (b64char (byte_val c mod 64)))
    = Some [a, b, c]"
    using b64_join1 [of "of_char b div 16" a] b64_join2 [of "of_char c div 64" a b] b64_join3 [of b c]
    by (simp add: b64_quad_def url_chars)
  then show ?case using 4 by (simp add: raw_url_encode_def url_chars)
qed (simp add: raw_url_encode_def)

lemma raw_url_plain: "filter (\<lambda>c. c \<noteq> CHR 0x0A \<and> c \<noteq> CHR 0x0D) (raw_url_encode x) = raw_url_encode x"
  unfolding raw_url_encode_def
  by (induction x rule: b64_encode.induct) (simp_all add: url_chars)

lemma raw_url_decode_encode [simp]: "raw_url_decode (raw_url_encode x) = Some x"
  by (simp add: raw_url_decode_def b64_decode_def raw_url_plain raw_url_body)

lemma raw_url_encode_Nil [simp]: "raw_url_encode x = [] \<longleftrightarrow> x = []"
  by (metis raw_url_decode_encode option.inject raw_url_encode_def b64_encode.simps(1) filter.simps(1) list.map(1))

end
