(* ===== verification/Stub_CP.thy ===== *)
theory Stub_CP
  imports Go_URL Controlplane_Registry Server_Chat "HOL-Library.Product_Lexorder"
begin

text \<open>
  The in-memory controlplane of \<^verbatim>\<open>internal/localstack/stub_cp.go\<close>, which the local stack and the
  smoke tests run the enclave against: its state, the functions tests poke it with, and one
  definition per HTTP handler, from the request to the response and the next state.

  A Go map is an association list whose order stands for the iteration order, which Go leaves
  open: the theorems hold for every order. A handler runs under the stub's mutex and reads the
  clock as one instant \<open>now\<close>. Function-valued test hooks are addresses into a table \<open>H\<close>. Response
  headers that the standard library adds by itself are left out.
\<close>

section \<open>State\<close>

record stub_blob =
  sb_ETag :: int
  sb_KeyID :: string
  sb_Body :: bytes
  sb_ProjectIDSet :: bool
  sb_ProjectID :: "string option"
  sb_CreatedAt :: gtime
  sb_UpdatedAt :: gtime
  sb_ActivityAt :: "gtime option"

definition listOrderTime :: "stub_blob \<Rightarrow> gtime" where
  "listOrderTime b = (case sb_ActivityAt b of Some t \<Rightarrow> t | None \<Rightarrow> sb_UpdatedAt b)"

record stub_delete =
  sd_deletedAt :: gtime
  sd_projectID :: "string option"

record pending_attachment =
  pa_chatID :: string
  pa_clerkUserID :: string
  pa_createdAt :: gtime

record attachment_meta =
  am_chatID :: string
  am_clerkUserID :: string

record stub_cp =
  st_blobs :: "(string \<times> stub_blob) list"
  st_keys :: "string list"
  st_currentKID :: string
  st_bundles :: "(string \<times> (string \<times> current_key_bundle) list) list"
  st_deletes :: "(string \<times> stub_delete) list"
  st_sourceRev :: int
  st_oldestReplayableRevision :: int
  st_revisions :: "revision_event list"
  st_search :: search_index_state
  st_legacyAttachments :: "(string \<times> bytes) list"
  st_attachmentIndex :: "(string \<times> attachment_meta) list"
  st_pendingAttachments :: "(string \<times> pending_attachment) list"
  st_pendingExpiryWindow :: gtime
  st_onFirstDelete :: "(string \<times> nat) list"

definition zero_search :: search_index_state where
  "zero_search = \<lparr> sis_SourceRevision = 0, sis_PublicationGeneration = 0, sis_FenceGeneration = 0,
     sis_PublishedSourceRevision = 0, sis_ObjectKey = [], sis_KeyID = [], sis_Model = [],
     sis_Incomplete = False, sis_PublicationIncomplete = False \<rparr>"

definition NewStubCP :: stub_cp where
  "NewStubCP = \<lparr> st_blobs = [], st_keys = [], st_currentKID = [], st_bundles = [], st_deletes = [],
     st_sourceRev = 0, st_oldestReplayableRevision = 0, st_revisions = [], st_search = zero_search,
     st_legacyAttachments = [], st_attachmentIndex = [], st_pendingAttachments = [],
     st_pendingExpiryWindow = 15 * 60 * 1000000000, st_onFirstDelete = [] \<rparr>"

definition LocalStackSyncEnclaveSecret :: string where
  "LocalStackSyncEnclaveSecret = ''local-stack-sync-enclave-secret''"

definition defaultRevisionPageLimit :: int where "defaultRevisionPageLimit = 100"
definition maxRevisionPageLimit :: int where "maxRevisionPageLimit = 500"

section \<open>Poking the stub\<close>

definition blobKey :: "string \<Rightarrow> string \<Rightarrow> string" where
  "blobKey scope bid = scope @ ''/'' @ bid"

definition formatETag :: "int \<Rightarrow> string" where
  "formatETag n = itoa n"

definition PeekBlob :: "string \<Rightarrow> string \<Rightarrow> stub_cp \<Rightarrow> stub_blob option" where
  "PeekBlob scope bid st = map_of (st_blobs st) (blobKey scope bid)"

definition next_etag :: "stub_blob option \<Rightarrow> int" where
  "next_etag b = (case b of None \<Rightarrow> 1 | Some x \<Rightarrow> sb_ETag x + 1)"

definition SetBlob :: "gtime \<Rightarrow> string \<Rightarrow> string \<Rightarrow> string \<Rightarrow> bytes \<Rightarrow> stub_cp \<Rightarrow> stub_cp" where
  "SetBlob now scope bid keyID body st =
     (let key = blobKey scope bid
      in st\<lparr>st_blobs := al_set key
              \<lparr> sb_ETag = next_etag (map_of (st_blobs st) key), sb_KeyID = keyID, sb_Body = body,
                sb_ProjectIDSet = False, sb_ProjectID = None, sb_CreatedAt = now, sb_UpdatedAt = now,
                sb_ActivityAt = None \<rparr> (st_blobs st),
            st_deletes := al_del key (st_deletes st)\<rparr>)"

definition CopyBlob :: "gtime \<Rightarrow> string \<Rightarrow> string \<Rightarrow> string \<Rightarrow> string \<Rightarrow> stub_cp \<Rightarrow> bool \<times> stub_cp" where
  "CopyBlob now srcScope srcID dstScope dstID st =
     (case map_of (st_blobs st) (blobKey srcScope srcID) of
        None \<Rightarrow> (False, st)
      | Some src \<Rightarrow>
          (let dstKey = blobKey dstScope dstID
           in (True, st\<lparr>st_blobs := al_set dstKey
                 \<lparr> sb_ETag = next_etag (map_of (st_blobs st) dstKey), sb_KeyID = sb_KeyID src,
                   sb_Body = sb_Body src, sb_ProjectIDSet = sb_ProjectIDSet src,
                   sb_ProjectID = sb_ProjectID src, sb_CreatedAt = now, sb_UpdatedAt = now,
                   sb_ActivityAt = None \<rparr> (st_blobs st)\<rparr>)))"

definition SetLegacyAttachment :: "string \<Rightarrow> bytes \<Rightarrow> stub_cp \<Rightarrow> stub_cp" where
  "SetLegacyAttachment aid body st = st\<lparr>st_legacyAttachments := al_set aid body (st_legacyAttachments st)\<rparr>"

definition OnFirstDelete :: "string \<Rightarrow> string \<Rightarrow> nat \<Rightarrow> stub_cp \<Rightarrow> stub_cp" where
  "OnFirstDelete scope bid fn st = st\<lparr>st_onFirstDelete := al_set (blobKey scope bid) fn (st_onFirstDelete st)\<rparr>"

section \<open>Responses\<close>

text \<open>A bare status, a JSON body written by \<^verbatim>\<open>json.Encoder\<close>, and \<^verbatim>\<open>http.Error\<close>.\<close>

definition status_resp :: "int \<Rightarrow> http_response" where
  "status_resp code = \<lparr> rs_Status = code, rs_Header = [], rs_Body = [], rs_Broken = False \<rparr>"

definition json_resp :: "int \<Rightarrow> header_list \<Rightarrow> json \<Rightarrow> http_response" where
  "json_resp code h j = \<lparr> rs_Status = code, rs_Header = h, rs_Body = json_encode j @ [CHR 0x0A], rs_Broken = False \<rparr>"

definition json_type :: header_list where "json_type = [(''Content-Type'', ''application/json'')]"

definition http_error :: "string \<Rightarrow> int \<Rightarrow> http_response" where
  "http_error msg code = \<lparr> rs_Status = code,
     rs_Header = [(''Content-Type'', ''text/plain; charset=utf-8''), (''X-Content-Type-Options'', ''nosniff'')],
     rs_Body = msg @ [CHR 0x0A], rs_Broken = False \<rparr>"

text \<open>Optional members of an encoded struct, and integers.\<close>

definition jint :: "int \<Rightarrow> json" where "jint n = JNum (itoa n)"

definition j_omit :: "string \<Rightarrow> string \<Rightarrow> (string \<times> json) list" where
  "j_omit k v = (if v = [] then [] else [(k, JStr v)])"

definition j_ptr :: "string option \<Rightarrow> json" where
  "j_ptr v = (case v of None \<Rightarrow> JNull | Some s \<Rightarrow> JStr s)"

definition stale_resp :: "int \<Rightarrow> http_response" where
  "stale_resp etag = json_resp 412 []
     (json_map [(''code'', JStr StatusStaleBlob), (''current_etag'', JStr (formatETag etag))])"

section \<open>Blobs\<close>

text \<open>\<^verbatim>\<open>extractID\<close> on the values of the path wildcards.\<close>

definition extractID :: "string \<Rightarrow> string list \<Rightarrow> string" where
  "extractID scope vals =
     (if scope = ''chat'' \<or> scope = ''project'' then (case vals of v # _ \<Rightarrow> v | [] \<Rightarrow> [])
      else if scope = ''profile'' then ''profile''
      else if scope = ''project_document'' then
        (case vals of p # d # _ \<Rightarrow> p @ ''/'' @ d | _ \<Rightarrow> ''/'')
      else [])"

text \<open>The If-Match check: an absent row, no precondition and \<^verbatim>\<open>*\<close> always pass.\<close>

definition stale_for :: "string \<Rightarrow> stub_blob option \<Rightarrow> bool" where
  "stale_for ifMatch blob =
     (case blob of None \<Rightarrow> False
      | Some b \<Rightarrow> ifMatch \<noteq> [] \<and> ifMatch \<noteq> ''*'' \<and> ifMatch \<noteq> formatETag (sb_ETag b))"

text \<open>The row a PUT stores.\<close>

definition put_row :: "time_lib \<Rightarrow> string \<Rightarrow> gtime \<Rightarrow> http_request \<Rightarrow> stub_blob option \<Rightarrow> stub_blob" where
  "put_row T scope now r blob =
     (let hdr = header_get (rq_Header r);
          createdAt = (case blob of
              None \<Rightarrow> now
            | Some b \<Rightarrow> if sb_CreatedAt b = zero_time then sb_UpdatedAt b else sb_CreatedAt b);
          base = \<lparr> sb_ETag = next_etag blob, sb_KeyID = hdr ''X-Key-Id'', sb_Body = rq_Body r,
                   sb_ProjectIDSet = (case blob of None \<Rightarrow> False | Some b \<Rightarrow> sb_ProjectIDSet b),
                   sb_ProjectID = (case blob of None \<Rightarrow> None | Some b \<Rightarrow> sb_ProjectID b),
                   sb_CreatedAt = createdAt, sb_UpdatedAt = now, sb_ActivityAt = None \<rparr>;
          moved = (if scope = ''chat'' \<and> hdr HeaderProjectIDSet = ''1''
                   then base\<lparr>sb_ProjectIDSet := True,
                             sb_ProjectID := (if hdr HeaderProjectID = [] then None
                                              else Some (hdr HeaderProjectID))\<rparr>
                   else base)
      in if scope = ''chat''
         then (case tm_parse T (hdr HeaderActivityAt) of
                 None \<Rightarrow> moved
               | Some t \<Rightarrow> moved\<lparr>sb_ActivityAt := Some (min t now)\<rparr>)
         else moved)"

definition upsert_event :: "time_lib \<Rightarrow> gtime \<Rightarrow> int \<Rightarrow> string \<Rightarrow> stub_blob \<Rightarrow> revision_event" where
  "upsert_event T now n bid b =
     \<lparr> re_Revision = formatETag n, re_Kind = ''upsert'', re_ID = bid, re_ETag = formatETag (sb_ETag b),
       re_KeyID = sb_KeyID b, re_ProjectID = sb_ProjectID b, re_UpdatedAt = tm_format T now \<rparr>"

definition delete_event :: "time_lib \<Rightarrow> gtime \<Rightarrow> int \<Rightarrow> string \<Rightarrow> revision_event" where
  "delete_event T now n bid =
     \<lparr> re_Revision = formatETag n, re_Kind = ''delete'', re_ID = bid, re_ETag = [], re_KeyID = [],
       re_ProjectID = None, re_UpdatedAt = tm_format T now \<rparr>"

definition stub_putBlob ::
  "time_lib \<Rightarrow> string \<Rightarrow> string list \<Rightarrow> gtime \<Rightarrow> http_request \<Rightarrow> stub_cp \<Rightarrow> http_response \<times> stub_cp" where
  "stub_putBlob T scope vals now r st =
     (let bid = extractID scope vals;
          key = blobKey scope bid;
          blob = map_of (st_blobs st) key
      in if stale_for (header_get (rq_Header r) ''If-Match'') blob
         then (stale_resp (sb_ETag (the blob)), st)
         else (let row = put_row T scope now r blob;
                   st1 = st\<lparr>st_blobs := al_set key row (st_blobs st)\<rparr>;
                   st2 = (if scope = ''chat''
                          then st1\<lparr>st_sourceRev := st_sourceRev st + 1,
                                   st_revisions := st_revisions st
                                     @ [upsert_event T now (st_sourceRev st + 1) bid row]\<rparr>
                          else st1);
                   st3 = st2\<lparr>st_deletes := al_del key (st_deletes st)\<rparr>
               in (json_resp 200 [(''ETag'', formatETag (sb_ETag row)),
                                  (''X-Key-Id'', header_get (rq_Header r) ''X-Key-Id'')]
                     (json_map [(''etag'', JStr (formatETag (sb_ETag row))),
                                (''source_revision'', jint (st_sourceRev st3))]), st3)))"

definition stub_getBlob ::
  "time_lib \<Rightarrow> string \<Rightarrow> string list \<Rightarrow> stub_cp \<Rightarrow> http_response" where
  "stub_getBlob T scope vals st =
     (case map_of (st_blobs st) (blobKey scope (extractID scope vals)) of
        None \<Rightarrow> status_resp 404
      | Some blob \<Rightarrow>
          (let h1 = header_set ''X-Key-Id'' (sb_KeyID blob) [(''ETag'', formatETag (sb_ETag blob))];
               h2 = (if scope = ''chat'' \<and> sb_ProjectIDSet blob
                     then (case sb_ProjectID blob of
                             None \<Rightarrow> header_set HeaderProjectIDSet ''1'' h1
                           | Some p \<Rightarrow> header_set HeaderProjectID p (header_set HeaderProjectIDSet ''1'' h1))
                     else h1);
               h3 = (case sb_ActivityAt blob of
                       Some t \<Rightarrow> if scope = ''chat'' then header_set HeaderActivityAt (tm_format T t) h2 else h2
                     | None \<Rightarrow> h2)
           in \<lparr> rs_Status = 200, rs_Header = h3, rs_Body = sb_Body blob, rs_Broken = False \<rparr>))"

definition stub_backfillChatActivity ::
  "time_lib \<Rightarrow> http_request \<Rightarrow> stub_cp \<Rightarrow> http_response \<times> stub_cp" where
  "stub_backfillChatActivity T r st =
     (case decode_first (\<lambda>m. do {
             i \<leftarrow> dec_string [] (field_values ''id'' m);
             e \<leftarrow> dec_string [] (field_values ''etag'' m);
             a \<leftarrow> dec_string [] (field_values ''activity_at'' m);
             Some (i, e, a) }) (rq_Body r) of
        None \<Rightarrow> (status_resp 400, st)
      | Some ((bid, etag, at), _) \<Rightarrow>
          (case tm_parse T at of
             None \<Rightarrow> (status_resp 400, st)
           | Some activityAt \<Rightarrow>
               (case map_of (st_blobs st) (blobKey ''chat'' bid) of
                  Some blob \<Rightarrow>
                    if sb_ActivityAt blob = None \<and> formatETag (sb_ETag blob) = etag
                    then (json_resp 200 [] (json_map [(''updated'', JBool True)]),
                          st\<lparr>st_blobs := al_set (blobKey ''chat'' bid)
                               (blob\<lparr>sb_ActivityAt := Some (min activityAt (sb_UpdatedAt blob))\<rparr>) (st_blobs st)\<rparr>)
                    else (json_resp 200 [] (json_map [(''updated'', JBool False)]), st)
                | None \<Rightarrow> (json_resp 200 [] (json_map [(''updated'', JBool False)]), st))))"

text \<open>The one-shot hook runs before the delete, on the state it finds.\<close>

definition fire_hook :: "(nat \<Rightarrow> stub_cp \<Rightarrow> stub_cp) \<Rightarrow> string \<Rightarrow> stub_cp \<Rightarrow> stub_cp" where
  "fire_hook H key st =
     (case map_of (st_onFirstDelete st) key of
        None \<Rightarrow> st
      | Some fn \<Rightarrow> H fn (st\<lparr>st_onFirstDelete := al_del key (st_onFirstDelete st)\<rparr>))"

text \<open>
  The delete proper, with the mutex held: the hook ran with the mutex released, so other requests
  may come between the two parts.
\<close>

definition del_locked ::
  "time_lib \<Rightarrow> string \<Rightarrow> string \<Rightarrow> gtime \<Rightarrow> http_request \<Rightarrow> stub_cp \<Rightarrow> http_response \<times> stub_cp" where
  "del_locked T scope bid now r st =
     (let key = blobKey scope bid;
          blob = map_of (st_blobs st) key
      in if stale_for (header_get (rq_Header r) ''If-Match'') blob
         then (stale_resp (sb_ETag (the blob)), st)
         else (let st1 = st\<lparr>st_blobs := al_del key (st_blobs st)\<rparr>;
                   st2 = (if scope = ''chat'' \<and> blob \<noteq> None
                          then st1\<lparr>st_sourceRev := st_sourceRev st + 1,
                                   st_revisions := st_revisions st
                                     @ [delete_event T now (st_sourceRev st + 1) bid]\<rparr>
                          else st1);
                   st3 = st2\<lparr>st_deletes := al_set key
                              \<lparr> sd_deletedAt = now,
                                sd_projectID = (case blob of None \<Rightarrow> None | Some b \<Rightarrow> sb_ProjectID b) \<rparr>
                              (st_deletes st2)\<rparr>;
                   wiped = (if scope = ''chat''
                            then map fst (filter (\<lambda>(_, m). am_chatID m = bid) (st_attachmentIndex st)) else []);
                   st4 = (if scope = ''chat''
                          then st3\<lparr>st_attachmentIndex :=
                                 filter (\<lambda>(_, m). am_chatID m \<noteq> bid) (st_attachmentIndex st)\<rparr>
                          else st3)
               in (json_resp 200 json_type
                     (json_map [(''ok'', JBool True), (''wiped_v2_attachments'', JArr (map JStr wiped)),
                                (''source_revision'', jint (st_sourceRev st4))]), st4)))"

definition stub_delBlob ::
  "(nat \<Rightarrow> stub_cp \<Rightarrow> stub_cp) \<Rightarrow> time_lib \<Rightarrow> string \<Rightarrow> string list \<Rightarrow> gtime \<Rightarrow> http_request \<Rightarrow> stub_cp \<Rightarrow>
   http_response \<times> stub_cp" where
  "stub_delBlob H T scope vals now r st =
     (let bid = extractID scope vals
      in del_locked T scope bid now r (fire_hook H (blobKey scope bid) st))"

definition is_project_key :: "string \<Rightarrow> bool" where
  "is_project_key k = (has_prefix k ''project/'' \<or> has_prefix k ''project_document/'')"

definition tombstones :: "gtime \<Rightarrow> (string \<times> stub_blob) list \<Rightarrow> (string \<times> stub_delete) list \<Rightarrow>
    (string \<times> stub_delete) list" where
  "tombstones now dropped deletes =
     fold (\<lambda>(k, b). al_set k \<lparr> sd_deletedAt = now, sd_projectID = sb_ProjectID b \<rparr>) dropped deletes"

definition stub_deleteAllProjects :: "gtime \<Rightarrow> stub_cp \<Rightarrow> http_response \<times> stub_cp" where
  "stub_deleteAllProjects now st =
     (let dropped = filter (\<lambda>(k, _). is_project_key k) (st_blobs st);
          deleted = length (filter (\<lambda>(k, _). has_prefix k ''project/'') dropped)
      in (json_resp 200 json_type (JObj [(''ok'', JBool True), (''deleted'', jint (int deleted))]),
          st\<lparr>st_blobs := filter (\<lambda>(k, _). \<not> is_project_key k) (st_blobs st),
             st_deletes := tombstones now dropped (st_deletes st)\<rparr>))"

section \<open>Listing\<close>

text \<open>One row of the merged timeline of updates and deletes.\<close>

datatype row_kind = RowUpdate blob_meta | RowDelete blob_delete

record list_row =
  lr_ts :: gtime
  lr_id :: string
  lr_kind :: row_kind

definition row_pos :: "list_row \<Rightarrow> gtime \<times> string" where
  "row_pos r = (lr_ts r, lr_id r)"

definition encodeListStatusCursor :: "time_lib \<Rightarrow> gtime \<times> string \<Rightarrow> string" where
  "encodeListStatusCursor T p =
     raw_url_encode (json_encode (JObj [(''updated_at'', JStr (tm_format T (fst p))), (''id'', JStr (snd p))]))"

definition decodeListStatusCursor :: "time_lib \<Rightarrow> string \<Rightarrow> (gtime \<times> string) option" where
  "decodeListStatusCursor T raw = do {
     decoded \<leftarrow> raw_url_decode raw;
     (at, cid) \<leftarrow> unmarshal (\<lambda>m. do {
        a \<leftarrow> dec_string [] (field_values ''updated_at'' m);
        i \<leftarrow> dec_string [] (field_values ''id'' m);
        Some (a, i) }) decoded;
     ts \<leftarrow> (if cid = [] then None else tm_parse T at);
     Some (ts, cid) }"

text \<open>\<^verbatim>\<open>strings.SplitN(key, "/", 2)\<close> on a key, which always has a slash.\<close>

definition key_parts :: "string \<Rightarrow> string \<times> string" where
  "key_parts k = (case cut (CHR ''/'') k of (a, b, _) \<Rightarrow> (a, b))"

definition project_match :: "string \<Rightarrow> string option \<Rightarrow> bool" where
  "project_match projectID p = (projectID = [] \<or> p = Some projectID)"

definition update_row :: "string \<Rightarrow> bool \<Rightarrow> string \<times> stub_blob \<Rightarrow> list_row" where
  "update_row scope desc kb =
     (let bid = snd (key_parts (fst kb)); blob = snd kb; chat = (scope = ''chat'')
      in \<lparr> lr_ts = (if chat \<and> desc then listOrderTime blob else sb_UpdatedAt blob), lr_id = bid,
           lr_kind = RowUpdate \<lparr> bm_ID = bid, bm_ETag = formatETag (sb_ETag blob), bm_KeyID = sb_KeyID blob,
             bm_ProjectID = sb_ProjectID blob, bm_UpdatedAt = sb_UpdatedAt blob,
             bm_ActivityAt = (if chat then Some (listOrderTime blob) else None), bm_Cursor = [] \<rparr> \<rparr>)"

definition delete_row :: "string \<Rightarrow> string \<times> stub_delete \<Rightarrow> list_row" where
  "delete_row scope kd =
     (let did = snd (key_parts (fst kd))
      in \<lparr> lr_ts = sd_deletedAt (snd kd), lr_id = did,
           lr_kind = RowDelete \<lparr> bd_ID = did, bd_Scope = scope, bd_DeletedAt = sd_deletedAt (snd kd),
             bd_Cursor = [] \<rparr> \<rparr>)"

definition list_rows :: "string \<Rightarrow> string \<Rightarrow> bool \<Rightarrow> stub_cp \<Rightarrow> list_row list" where
  "list_rows scope projectID desc st =
     map (update_row scope desc)
       (filter (\<lambda>(k, b). fst (key_parts k) = scope \<and> project_match projectID (sb_ProjectID b)) (st_blobs st))
   @ map (delete_row scope)
       (filter (\<lambda>(k, d). fst (key_parts k) = scope \<and> project_match projectID (sd_projectID d)) (st_deletes st))"

definition ordered_rows :: "string \<Rightarrow> string \<Rightarrow> bool \<Rightarrow> stub_cp \<Rightarrow> list_row list" where
  "ordered_rows scope projectID desc st =
     (let rows = sort_key row_pos (list_rows scope projectID desc st) in if desc then rev rows else rows)"

text \<open>The rows strictly after the cursor in traversal order.\<close>

definition at_or_before :: "bool \<Rightarrow> gtime \<times> string \<Rightarrow> list_row \<Rightarrow> bool" where
  "at_or_before desc c r = (row_pos r = c \<or> (if desc then c < row_pos r else row_pos r < c))"

definition rows_after :: "bool \<Rightarrow> (gtime \<times> string) option \<Rightarrow> list_row list \<Rightarrow> list_row list" where
  "rows_after desc c rows = (case c of None \<Rightarrow> rows | Some p \<Rightarrow> dropWhile (at_or_before desc p) rows)"

definition page_updates :: "time_lib \<Rightarrow> list_row list \<Rightarrow> blob_meta list" where
  "page_updates T rows = concat (map (\<lambda>r. case lr_kind r of
     RowUpdate u \<Rightarrow> [u\<lparr>bm_Cursor := encodeListStatusCursor T (row_pos r)\<rparr>] | RowDelete _ \<Rightarrow> []) rows)"

definition page_deletes :: "time_lib \<Rightarrow> list_row list \<Rightarrow> blob_delete list" where
  "page_deletes T rows = concat (map (\<lambda>r. case lr_kind r of
     RowUpdate _ \<Rightarrow> [] | RowDelete d \<Rightarrow> [d\<lparr>bd_Cursor := encodeListStatusCursor T (row_pos r)\<rparr>]) rows)"

text \<open>One page: the rows on it and the cursor of the next one, empty on the last.\<close>

definition list_page ::
  "time_lib \<Rightarrow> string \<Rightarrow> string \<Rightarrow> bool \<Rightarrow> (gtime \<times> string) option \<Rightarrow> nat \<Rightarrow> stub_cp \<Rightarrow> list_row list \<times> string" where
  "list_page T scope projectID desc c limit st =
     (let rows = rows_after desc c (ordered_rows scope projectID desc st)
      in if length rows > limit
         then (take limit rows, encodeListStatusCursor T (row_pos (rows ! (limit - 1))))
         else (rows, []))"

definition enc_blob_meta :: "time_lib \<Rightarrow> blob_meta \<Rightarrow> json" where
  "enc_blob_meta T u = JObj
     ([(''id'', JStr (bm_ID u)), (''etag'', JStr (bm_ETag u)), (''key_id'', JStr (bm_KeyID u))]
      @ (case bm_ProjectID u of None \<Rightarrow> [] | Some p \<Rightarrow> [(''project_id'', JStr p)])
      @ [(''updated_at'', JStr (tm_format T (bm_UpdatedAt u)))]
      @ (case bm_ActivityAt u of None \<Rightarrow> [] | Some t \<Rightarrow> [(''activity_at'', JStr (tm_format T t))])
      @ j_omit ''cursor'' (bm_Cursor u))"

definition enc_blob_delete :: "time_lib \<Rightarrow> blob_delete \<Rightarrow> json" where
  "enc_blob_delete T d = JObj
     ([(''id'', JStr (bd_ID d)), (''scope'', JStr (bd_Scope d)),
       (''deleted_at'', JStr (tm_format T (bd_DeletedAt d)))] @ j_omit ''cursor'' (bd_Cursor d))"

definition stub_listStatus :: "time_lib \<Rightarrow> (string \<Rightarrow> string) \<Rightarrow> stub_cp \<Rightarrow> http_response" where
  "stub_listStatus T q st =
     (if q ''direction'' \<notin> {[], ''asc'', ''desc''} then http_error ''invalid direction'' 400
      else case (if q ''limit'' = [] then Some 100 else parse_int64 (q ''limit'')) of
             None \<Rightarrow> http_error ''invalid limit'' 400
           | Some limit \<Rightarrow>
               if limit \<le> 0 then http_error ''invalid limit'' 400
               else (case (if q ''cursor'' = [] then Some None
                           else map_option Some (decodeListStatusCursor T (q ''cursor''))) of
                       None \<Rightarrow> http_error ''invalid cursor'' 400
                     | Some c \<Rightarrow>
                         (case list_page T (q ''scope'') (q ''project_id'') (q ''direction'' = ''desc'') c
                                 (nat limit) st of
                            (rows, nextCursor) \<Rightarrow>
                              json_resp 200 [] (JObj
                                ([(''updates'', JArr (map (enc_blob_meta T) (page_updates T rows))),
                                  (''deletes'', JArr (map (enc_blob_delete T) (page_deletes T rows)))]
                                 @ j_omit ''next_cursor'' nextCursor)))))"

section \<open>Backup inventory\<close>

record backup_inventory_item =
  bi_Scope :: string
  bi_ID :: string
  bi_ETag :: string
  bi_ProjectID :: "string option"
  bi_CreatedAt :: string
  bi_UpdatedAt :: string

definition enc_backup_item :: "backup_inventory_item \<Rightarrow> json" where
  "enc_backup_item i = JObj
     ([(''scope'', JStr (bi_Scope i)), (''id'', JStr (bi_ID i)), (''etag'', JStr (bi_ETag i))]
      @ (case bi_ProjectID i of None \<Rightarrow> [] | Some p \<Rightarrow> [(''project_id'', JStr p)])
      @ [(''created_at'', JStr (bi_CreatedAt i)), (''updated_at'', JStr (bi_UpdatedAt i))])"

definition backup_item :: "time_lib \<Rightarrow> string \<times> stub_blob \<Rightarrow> backup_inventory_item" where
  "backup_item T kb =
     (let (scope, bid) = key_parts (fst kb); blob = snd kb;
          createdAt = (if sb_CreatedAt blob = zero_time then sb_UpdatedAt blob else sb_CreatedAt blob);
          base = \<lparr> bi_Scope = scope, bi_ID = bid, bi_ETag = formatETag (sb_ETag blob),
                   bi_ProjectID = sb_ProjectID blob, bi_CreatedAt = tm_format T createdAt,
                   bi_UpdatedAt = tm_format T (sb_UpdatedAt blob) \<rparr>;
          doc = (if scope = ''project_document''
                 then (case cut (CHR ''/'') bid of (p, d, found) \<Rightarrow>
                         if found then base\<lparr>bi_ID := d, bi_ProjectID := Some p\<rparr> else base)
                 else base)
      in if scope = ''project'' then doc\<lparr>bi_ProjectID := None\<rparr> else doc)"

definition inventory_pos :: "backup_inventory_item \<Rightarrow> string \<times> string" where
  "inventory_pos i = (bi_Scope i, bi_ID i)"

definition stub_backupInventory :: "time_lib \<Rightarrow> gtime \<Rightarrow> stub_cp \<Rightarrow> http_response" where
  "stub_backupInventory T now st =
     (let items = sort_key inventory_pos (map (backup_item T)
            (filter (\<lambda>(k, _). CHR ''/'' \<in> set k \<and> fst (key_parts k) \<noteq> ''profile'') (st_blobs st)))
      in json_resp 200 json_type (JObj
           [(''captured_at'', JStr (tm_format T now)), (''total_items'', jint (int (length items))),
            (''items'', JArr (map enc_backup_item items))]))"

section \<open>Revisions\<close>

definition stub_revisionSummary :: "stub_cp \<Rightarrow> http_response" where
  "stub_revisionSummary st = json_resp 200 json_type (JObj
     [(''current_revision'', JStr (formatETag (st_sourceRev st))),
      (''oldest_replayable_revision'', JStr (formatETag (st_oldestReplayableRevision st)))])"

definition revisionLimit :: "(string \<Rightarrow> string) \<Rightarrow> int option" where
  "revisionLimit q =
     (if q ''limit'' = [] then Some defaultRevisionPageLimit
      else case parse_int64 (q ''limit'') of
             None \<Rightarrow> None
           | Some n \<Rightarrow> if n \<le> 0 \<or> maxRevisionPageLimit < n then None else Some n)"

definition revisionPage :: "(string \<Rightarrow> string) \<Rightarrow> (int \<times> int) option" where
  "revisionPage q =
     (case (if q ''cursor'' = [] then Some 0 else parse_int64 (q ''cursor'')) of
        None \<Rightarrow> None
      | Some offset \<Rightarrow>
          if offset < 0 then None else map_option (\<lambda>limit. (offset, limit)) (revisionLimit q))"

definition enc_revision_event :: "revision_event \<Rightarrow> json" where
  "enc_revision_event e = JObj
     ([(''revision'', JStr (re_Revision e)), (''kind'', JStr (re_Kind e)), (''id'', JStr (re_ID e))]
      @ j_omit ''etag'' (re_ETag e) @ j_omit ''key_id'' (re_KeyID e)
      @ [(''project_id'', j_ptr (re_ProjectID e)), (''updated_at'', JStr (re_UpdatedAt e))])"

text \<open>The events of a revision range, and one page of them with the cursor of the next.\<close>

definition events_between :: "int \<Rightarrow> int \<Rightarrow> stub_cp \<Rightarrow> revision_event list" where
  "events_between after through st =
     filter (\<lambda>e. let n = (case parse_int64 (re_Revision e) of None \<Rightarrow> 0 | Some x \<Rightarrow> x)
                 in after < n \<and> n \<le> through) (st_revisions st)"

definition event_page :: "int \<Rightarrow> int \<Rightarrow> revision_event list \<Rightarrow> revision_event list \<times> string" where
  "event_page offset limit filtered =
     (let len = int (length filtered);
          start = min offset len;
          stop = min (start + limit) len
      in (take (nat stop - nat start) (drop (nat start) filtered), if stop < len then itoa stop else []))"

definition stub_revisionEvents :: "(string \<Rightarrow> string) \<Rightarrow> stub_cp \<Rightarrow> http_response" where
  "stub_revisionEvents q st =
     (case parse_int64 (q ''after_revision'') of
        None \<Rightarrow> http_error ''invalid after_revision'' 400
      | Some after \<Rightarrow>
          if after < 0 then http_error ''invalid after_revision'' 400
          else case parse_int64 (q ''through_revision'') of
                 None \<Rightarrow> http_error ''invalid through_revision'' 400
               | Some through \<Rightarrow>
                   if through < after then http_error ''invalid through_revision'' 400
                   else if after < st_oldestReplayableRevision st
                   then json_resp 409 json_type (json_map
                          [(''code'', JStr StatusSyncSnapshotRequired),
                           (''message'', JStr ''chat sync snapshot required''),
                           (''current_revision'', JStr (formatETag (st_sourceRev st))),
                           (''oldest_replayable_revision'', JStr (formatETag (st_oldestReplayableRevision st)))])
                   else (case revisionPage q of
                           None \<Rightarrow> http_error ''invalid pagination'' 400
                         | Some (offset, limit) \<Rightarrow>
                             (case event_page offset limit (events_between after through st) of
                                (evs, nextCursor) \<Rightarrow>
                                  json_resp 200 json_type (JObj
                                    ([(''events'', JArr (map enc_revision_event evs))]
                                     @ j_omit ''next_cursor'' nextCursor)))))"

definition encodeRevisionSnapshotCursor :: "string \<Rightarrow> string \<Rightarrow> string" where
  "encodeRevisionSnapshotCursor afterID v =
     raw_url_encode (json_encode (JObj [(''id'', JStr afterID), (''revision'', JStr v)]))"

definition revisionSnapshotPage :: "(string \<Rightarrow> string) \<Rightarrow> (string \<times> string \<times> int) option" where
  "revisionSnapshotPage q =
     (case (if q ''cursor'' = [] then Some ([], [])
            else Option.bind (raw_url_decode (q ''cursor'')) (\<lambda>decoded.
                 Option.bind (unmarshal (\<lambda>m. do {
                     i \<leftarrow> dec_string [] (field_values ''id'' m);
                     v \<leftarrow> dec_string [] (field_values ''revision'' m);
                     Some (i, v) }) decoded) (\<lambda>(i, v).
                 if i = [] then None
                 else case parse_int64 v of None \<Rightarrow> None | Some n \<Rightarrow> if n < 0 then None else Some (i, v)))) of
        None \<Rightarrow> None
      | Some (afterID, snap) \<Rightarrow> map_option (\<lambda>limit. (afterID, snap, limit)) (revisionLimit q))"

definition snapshot_item :: "time_lib \<Rightarrow> string \<times> stub_blob \<Rightarrow> revision_snapshot_item" where
  "snapshot_item T kb = \<lparr> rsi_ID = snd (key_parts (fst kb)), rsi_ETag = formatETag (sb_ETag (snd kb)),
     rsi_KeyID = sb_KeyID (snd kb), rsi_ProjectID = sb_ProjectID (snd kb),
     rsi_UpdatedAt = tm_format T (sb_UpdatedAt (snd kb)),
     rsi_ActivityAt = tm_format T (listOrderTime (snd kb)) \<rparr>"

definition enc_snapshot_item :: "revision_snapshot_item \<Rightarrow> json" where
  "enc_snapshot_item i = JObj
     ([(''id'', JStr (rsi_ID i)), (''etag'', JStr (rsi_ETag i)), (''key_id'', JStr (rsi_KeyID i)),
       (''project_id'', j_ptr (rsi_ProjectID i)), (''updated_at'', JStr (rsi_UpdatedAt i))]
      @ j_omit ''activity_at'' (rsi_ActivityAt i))"

text \<open>\<^verbatim>\<open>sort.Search\<close> for the first id after the cursor, on the sorted items.\<close>

definition snapshot_page ::
  "time_lib \<Rightarrow> string \<Rightarrow> string \<Rightarrow> int \<Rightarrow> stub_cp \<Rightarrow> revision_snapshot_item list \<times> string \<times> string" where
  "snapshot_page T afterID snap limit st =
     (let items = sort_key rsi_ID (map (snapshot_item T)
            (filter (\<lambda>(k, _). fst (key_parts k) = ''chat'') (st_blobs st)));
          rest = dropWhile (\<lambda>i. \<not> afterID < rsi_ID i) items;
          page = take (nat limit) rest;
          rev' = (if snap = [] then formatETag (st_sourceRev st) else snap)
      in (page, rev', if length page < length rest
                      then encodeRevisionSnapshotCursor (rsi_ID (last page)) rev' else []))"

definition stub_revisionSnapshot :: "time_lib \<Rightarrow> (string \<Rightarrow> string) \<Rightarrow> stub_cp \<Rightarrow> http_response" where
  "stub_revisionSnapshot T q st =
     (case revisionSnapshotPage q of
        None \<Rightarrow> http_error ''invalid pagination'' 400
      | Some (afterID, snap, limit) \<Rightarrow>
          (case snapshot_page T afterID snap limit st of
             (page, rev', nextCursor) \<Rightarrow>
               json_resp 200 json_type (JObj
                 ([(''items'', JArr (map enc_snapshot_item page)), (''snapshot_revision'', JStr rev')]
                  @ j_omit ''next_cursor'' nextCursor))))"

end
