(* ===== verification/Bucket_Stub.thy ===== *)
theory Bucket_Stub
  imports Buckets Stub_CP
begin

text \<open>
  Package \<^verbatim>\<open>internal/bucketstub\<close>: the in-memory storage sidecar, and the proof that the client of
  \<^verbatim>\<open>buckets/client.go\<close> on top of it is an object store. The XML encoder is a parameter.
\<close>

section \<open>State and handlers\<close>

record bucket_item =
  it_Tenant :: string
  it_Value :: bytes
  it_EncryptionKeys :: "bytes list"
  it_Version :: int
  it_CreatedAt :: gtime
  it_PartSize :: int

type_synonym bucket_store = "(string \<times> bucket_item) list"

definition defaultPartSize :: int where "defaultPartSize = 64 * 1024 * 1024"
definition maxStubPlaintextBytes :: nat where "maxStubPlaintextBytes = 256 * 1024 * 1024"

definition NewStore :: bucket_store where "NewStore = []"

text \<open>Staging an object; zero fields get their defaults.\<close>

definition store_Put :: "gtime \<Rightarrow> string \<Rightarrow> bucket_item \<Rightarrow> bucket_store \<Rightarrow> bucket_store" where
  "store_Put now token item st =
     al_set token
       (item\<lparr>it_Version := (if it_Version item = 0 then 1 else it_Version item),
             it_CreatedAt := (if it_CreatedAt item = zero_time then now else it_CreatedAt item),
             it_PartSize := (if it_PartSize item = 0 then defaultPartSize else it_PartSize item)\<rparr>) st"

definition store_Has :: "string \<Rightarrow> bucket_store \<Rightarrow> bool" where
  "store_Has token st = (map_of st token \<noteq> None)"

definition store_Tokens :: "bucket_store \<Rightarrow> string list" where
  "store_Tokens st = map fst st"

definition writeS3Error :: "(string \<Rightarrow> string \<Rightarrow> bytes) \<Rightarrow> int \<Rightarrow> string \<Rightarrow> string \<Rightarrow> http_response" where
  "writeS3Error enc status code message =
     \<lparr> rs_Status = status, rs_Header = [(''Content-Type'', ''application/xml'')], rs_Body = enc code message, rs_Broken = False \<rparr>"

definition resolveTenant :: "(string \<Rightarrow> string \<Rightarrow> bytes) \<Rightarrow> http_request \<Rightarrow> http_response + (string \<times> bytes)" where
  "resolveTenant enc r =
     (let tenant = header_get (rq_Header r) headerTenantID
      in if tenant = [] \<or> \<not> tenantIDPattern tenant
         then Inl (writeS3Error enc 400 ''InvalidArgument'' (''missing or invalid '' @ headerTenantID))
         else case std_decode (header_get (rq_Header r) headerEncryptionKey) of
                None \<Rightarrow> Inl (writeS3Error enc 400 ''InvalidArgument'' (''missing or invalid '' @ headerEncryptionKey))
              | Some key \<Rightarrow>
                  if length key \<noteq> encryptionKeySize
                  then Inl (writeS3Error enc 400 ''InvalidArgument'' (''missing or invalid '' @ headerEncryptionKey))
                  else Inr (tenant, key))"

text \<open>The body of a request is its bytes, so reading it does not fail.\<close>

definition put_item :: "gtime \<Rightarrow> string \<Rightarrow> bytes \<Rightarrow> bytes \<Rightarrow> bucket_item option \<Rightarrow> bucket_item" where
  "put_item now tenant key value old =
     \<lparr> it_Tenant = tenant, it_Value = value, it_EncryptionKeys = [key],
       it_Version = (case old of Some x \<Rightarrow> it_Version x + 1 | None \<Rightarrow> 1),
       it_CreatedAt = (case old of Some x \<Rightarrow> if it_CreatedAt x = zero_time then now else it_CreatedAt x | None \<Rightarrow> now),
       it_PartSize = defaultPartSize \<rparr>"

definition putObject ::
  "(string \<Rightarrow> string \<Rightarrow> bytes) \<Rightarrow> gtime \<Rightarrow> http_request \<Rightarrow> string \<Rightarrow> bytes \<Rightarrow> string \<Rightarrow> bucket_store \<Rightarrow>
   http_response \<times> bucket_store" where
  "putObject enc now r tenant key token st =
     (if length (rq_Body r) > maxStubPlaintextBytes
      then (writeS3Error enc 413 ''EntityTooLarge'' ''object exceeds stub buffer'', st)
      else (status_resp 200, al_set token (put_item now tenant key (rq_Body r) (map_of st token)) st))"

definition getObject ::
  "(string \<Rightarrow> string \<Rightarrow> bytes) \<Rightarrow> string \<Rightarrow> bytes \<Rightarrow> string \<Rightarrow> bucket_store \<Rightarrow> http_response" where
  "getObject enc tenant key token st =
     (case map_of st token of
        None \<Rightarrow> writeS3Error enc 404 ''NoSuchKey'' ''object not found''
      | Some item \<Rightarrow>
          if it_Tenant item \<noteq> tenant then writeS3Error enc 404 ''NoSuchKey'' ''object not found''
          else if key \<notin> set (it_EncryptionKeys item)
          then writeS3Error enc 400 ''DecryptionFailed'' ''the provided encryption key cannot decrypt this object''
          else \<lparr> rs_Status = 200, rs_Header = [(''Content-Type'', ''application/octet-stream'')],
                 rs_Body = it_Value item, rs_Broken = False \<rparr>)"

definition deleteObject :: "string \<Rightarrow> string \<Rightarrow> bucket_store \<Rightarrow> http_response \<times> bucket_store" where
  "deleteObject tenant token st =
     (status_resp 204,
      case map_of st token of Some item \<Rightarrow> if it_Tenant item = tenant then al_del token st else st | None \<Rightarrow> st)"

definition bucket_Handle ::
  "(string \<Rightarrow> string \<Rightarrow> bytes) \<Rightarrow> gtime \<Rightarrow> string \<Rightarrow> http_request \<Rightarrow> bucket_store \<Rightarrow> http_response \<times> bucket_store" where
  "bucket_Handle enc now objectKey r st =
     (case resolveTenant enc r of
        Inl resp \<Rightarrow> (resp, st)
      | Inr (tenant, key) \<Rightarrow>
          if objectKey \<noteq> [] \<and> rq_Method r = ''PUT'' then putObject enc now r tenant key objectKey st
          else if objectKey \<noteq> [] \<and> rq_Method r = ''GET'' then (getObject enc tenant key objectKey st, st)
          else if objectKey \<noteq> [] \<and> rq_Method r = ''DELETE'' then deleteObject tenant objectKey st
          else (writeS3Error enc 400 ''InvalidRequest'' ''unsupported operation'', st))"

text \<open>
  The network between client and stub: the harness mounts the handler under the bucket's path, so
  the token is what follows it. The tokens in range are the ones a URL carries unchanged.
\<close>

definition plain_token :: "string \<Rightarrow> bool" where
  "plain_token t \<longleftrightarrow> t \<noteq> [] \<and> list_all tenant_char t"

definition bucket_net :: "(string \<Rightarrow> string \<Rightarrow> bytes) \<Rightarrow> bucket_client \<Rightarrow> (bucket_store \<times> gtime) net" where
  "bucket_net enc c =
     \<lparr> net_url_ok = (\<lambda>_. True),
       net_do = (\<lambda>r (st, now).
         case bucket_Handle enc now (drop (length (objectURL c [])) (rq_URL r)) r st of
           (resp, st') \<Rightarrow> (Inr resp, (st', now + 1))),
       net_ctx_err = (\<lambda>_. False),
       net_time = \<lparr> tm_parse = (\<lambda>_. None), tm_format = (\<lambda>_. []) \<rparr> \<rparr>"

text \<open>What is relied on of the XML pair: the code of an encoded error is read back, for codes of letters and errors as short as the stub's.\<close>

definition xml_ok :: "(string \<Rightarrow> string \<Rightarrow> bytes) \<Rightarrow> (bytes \<Rightarrow> string option) \<Rightarrow> bool" where
  "xml_ok enc xml \<longleftrightarrow> (\<forall>code msg. list_all tenant_char code \<and> length code + length msg \<le> 256 \<longrightarrow>
     length (enc code msg) \<le> 8192 \<and> xml (enc code msg) = Some code)"

section \<open>The stub is an object store\<close>

definition stub_owner :: "string \<Rightarrow> bool" where
  "stub_owner u \<longleftrightarrow> u \<noteq> [] \<and> tenantIDPattern (tenantPrefix @ u)"

definition stub_value :: "bytes \<Rightarrow> bool" where
  "stub_value v \<longleftrightarrow> length v \<le> maxStubPlaintextBytes"

lemma stub_url [simp]: "drop (length (objectURL c [])) (objectURL c t) = t"
  by (simp add: objectURL_def)

lemma tenant_headers [simp]:
  "header_get (setTenantHeaders t k h) headerTenantID = t"
  "header_get (setTenantHeaders t k h) headerEncryptionKey = b64_encode k"
  by (simp_all add: setTenantHeaders_def header_get_set bucket_defs)
    (simp_all add: equal_fold_ascii_def lower_num_def)

lemma resolve_sent:
  assumes "stub_owner u" "length k = 32"
  shows "resolveTenant enc \<lparr> rq_Method = m, rq_URL = url, rq_Header = setTenantHeaders (tenantPrefix @ u) k h, rq_Body = b \<rparr>
    = Inr (tenantPrefix @ u, k)"
  using assms by (simp add: resolveTenant_def stub_owner_def encryptionKeySize_def tenantPrefix_def del: b64_encode.simps)

text \<open>One call of the client reaches the handler for its owner, key and token.\<close>

lemma bucket_reaches:
  assumes "stub_owner u" "length k = 32"
  shows "bucket_send c (bucket_net enc c) what m u t k b hs (st, now) =
    (case (let r = \<lparr> rq_Method = m, rq_URL = objectURL c t, rq_Header = setTenantHeaders (tenantPrefix @ u) k (hs []), rq_Body = b \<rparr>
           in if t \<noteq> [] \<and> m = ''PUT'' then putObject enc now r (tenantPrefix @ u) k t st
              else if t \<noteq> [] \<and> m = ''GET'' then (getObject enc (tenantPrefix @ u) k t st, st)
              else if t \<noteq> [] \<and> m = ''DELETE'' then deleteObject (tenantPrefix @ u) t st
              else (writeS3Error enc 400 ''InvalidRequest'' ''unsupported operation'', st)) of
       (resp, st') \<Rightarrow> (Inr resp, (st', now + 1)))"
proof -
  have "tenantForUser u = Inr (tenantPrefix @ u)" using assms(1) by (simp add: tenantForUser_Inr stub_owner_def)
  then show ?thesis
    by (simp add: bucket_send_def NewRequest_def bucket_net_def bucket_Do_def rq_set_def bucket_Handle_def
        resolve_sent [OF assms] Let_def split: prod.split)
qed

text \<open>What a GET answers is a function of the item under the token.\<close>

lemma get_local:
  assumes "map_of (fst w) t = map_of (fst w') t"
  shows "fst (bucket_GetLimited (Some c) (bucket_net enc c) xml u t k n w)
       = fst (bucket_GetLimited (Some c) (bucket_net enc c) xml u t k n w')"
proof (cases "Configured (Some c) \<and> length k = 32 \<and> stub_owner u")
  case True
  obtain st now st' now' where w: "w = (st, now)" "w' = (st', now')" by (cases w, cases w')
  have "getObject enc tenant k t st = getObject enc tenant k t st'" for tenant
    using assms by (simp add: getObject_def w)
  then show ?thesis using True bucket_reaches [of u k c enc "''get''" "''GET''" t "[]" "\<lambda>h. h"]
    by (simp add: bucket_GetLimited_def encryptionKeySize_def w op_bind_def op_try_def Let_def split: prod.split)
next
  case False
  then show ?thesis
    by (auto simp: bucket_GetLimited_def encryptionKeySize_def bucket_send_def tenantForUser_def stub_owner_def
        op_bind_def op_try_def op_err_def op_lift_def)
qed

lemma get_same_state: "fst (snd (bucket_GetLimited (Some c) (bucket_net enc c) xml u t k n w)) = fst w"
proof (cases "Configured (Some c) \<and> length k = 32 \<and> stub_owner u")
  case True
  obtain st now where w: "w = (st, now)" by (cases w)
  show ?thesis using True bucket_reaches [of u k c enc "''get''" "''GET''" t "[]" "\<lambda>h. h" st now]
    by (auto simp: bucket_GetLimited_def encryptionKeySize_def w op_bind_def op_try_def Let_def split: prod.split)
next
  case False
  then show ?thesis
    by (auto simp: bucket_GetLimited_def encryptionKeySize_def bucket_send_def tenantForUser_def stub_owner_def
        op_bind_def op_try_def op_err_def op_lift_def)
qed

text \<open>The three calls in range, as effects on the items.\<close>

lemma client_put:
  assumes "Configured (Some c)" "stub_owner u" "t \<noteq> []" "stub_value v" "length k = 32"
  shows "bucket_Put (Some c) (bucket_net enc c) u t v k (st, now) = (Inr (),
    (al_set t (put_item now (tenantPrefix @ u) k v (map_of st t)) st, now + 1))"
  using assms bucket_reaches [OF assms(2,5), of c enc "''put''" "''PUT''" t v
      "header_set ''Content-Type'' ''application/octet-stream''" st now]
  by (simp add: bucket_Put_def encryptionKeySize_def op_bind_def op_try_def putObject_def stub_value_def
      status_resp_def expectOK_def Let_def del: header_set.simps)

lemma put_elsewhere:
  assumes "t' \<noteq> t" "t \<noteq> []"
  shows "map_of (fst (snd (bucket_Put (Some c) (bucket_net enc c) u t v k w))) t' = map_of (fst w) t'"
proof (cases "Configured (Some c) \<and> length k = 32 \<and> stub_owner u")
  case True
  obtain st now where w: "w = (st, now)" by (cases w)
  show ?thesis
    using True assms bucket_reaches [of u k c enc "''put''" "''PUT''" t v
      "header_set ''Content-Type'' ''application/octet-stream''" st now]
    by (simp add: bucket_Put_def encryptionKeySize_def w op_bind_def op_try_def putObject_def Let_def
        split: prod.split del: header_set.simps)
next
  case False
  then show ?thesis
    by (auto simp: bucket_Put_def encryptionKeySize_def bucket_send_def tenantForUser_def stub_owner_def
        op_bind_def op_try_def op_err_def op_lift_def)
qed

lemma placeholder_size: "length deleteKeyPlaceholder = 32"
  by (simp add: deleteKeyPlaceholder_def encryptionKeySize_def)

lemma client_del:
  assumes "Configured (Some c)" "stub_owner u" "t \<noteq> []"
  shows "bucket_Delete (Some c) (bucket_net enc c) u t (st, now) = (Inr (),
    (snd (deleteObject (tenantPrefix @ u) t st), now + 1))"
  using assms bucket_reaches [OF assms(2), of deleteKeyPlaceholder c enc "''delete''" "''DELETE''" t "[]" "\<lambda>h. h" st now]
  by (simp add: bucket_Delete_def encryptionKeySize_def op_bind_def op_try_def deleteObject_def placeholder_size
      status_resp_def expectOK_def Let_def)

lemma del_elsewhere:
  assumes "t' \<noteq> t" "t \<noteq> []"
  shows "map_of (fst (snd (bucket_Delete (Some c) (bucket_net enc c) u t w))) t' = map_of (fst w) t'"
proof (cases "Configured (Some c) \<and> stub_owner u")
  case True
  obtain st now where w: "w = (st, now)" by (cases w)
  show ?thesis using True assms client_del [of c u t enc st now]
    by (simp add: w deleteObject_def split: option.split)
next
  case False
  then show ?thesis
    by (auto simp: bucket_Delete_def bucket_send_def tenantForUser_def stub_owner_def
        op_bind_def op_try_def op_err_def op_lift_def)
qed

text \<open>The outcome of a GET, from the response of the handler.\<close>

definition got :: "(bytes \<Rightarrow> string option) \<Rightarrow> int \<Rightarrow> http_response \<Rightarrow> bytes result" where
  "got xml n resp =
     (if rs_Status resp = 200
      then if fits n (rs_Body resp) then Inr (rs_Body resp)
           else Inl (wrap_prefix (''buckets: get body exceeds '' @ itoa n @ '' bytes: '') (ESent ErrBucketTooLarge))
      else if rs_Status resp = 404 then Inl (ESent ErrBucketNotFound)
      else if rs_Status resp = 400 \<and> s3ErrorCode xml resp = s3CodeDecryptionFailed then Inl (ESent ErrBucketForbidden)
      else Inl (EBucketStatus (rs_Status resp)))"

lemma client_get:
  assumes "Configured (Some c)" "stub_owner u" "t \<noteq> []" "length k = 32"
  shows "fst (bucket_GetLimited (Some c) (bucket_net enc c) xml u t k n (st, now))
       = got xml n (getObject enc (tenantPrefix @ u) k t st)"
proof -
  let ?resp = "getObject enc (tenantPrefix @ u) k t st"
  have send: "bucket_send c (bucket_net enc c) ''get'' ''GET'' u t k [] (\<lambda>h. h) (st, now) = (Inr ?resp, (st, now + 1))"
    using assms(3) bucket_reaches [OF assms(2,4), of c enc "''get''" "''GET''" t "[]" "\<lambda>h. h" st now]
    by (simp add: Let_def)
  have whole: "\<not> rs_Broken ?resp" by (simp add: getObject_def writeS3Error_def split: option.split)
  have read: "int (length (take (Suc (nat n)) (rs_Body ?resp))) \<le> n \<longleftrightarrow> int (length (rs_Body ?resp)) \<le> n" if "0 < n"
    using that by (auto simp: min_def)
  show ?thesis
    using assms(1,4) send whole read
    by (simp add: bucket_GetLimited_def encryptionKeySize_def op_bind_def op_try_def got_def fits_def read_limited_def
        linorder_not_le [symmetric])
qed

lemma getObject_simps:
  "map_of st t = None \<Longrightarrow> getObject enc tenant k t st = writeS3Error enc 404 ''NoSuchKey'' ''object not found''"
  "map_of st t = Some i \<Longrightarrow> it_Tenant i = tenant \<Longrightarrow> k \<in> set (it_EncryptionKeys i) \<Longrightarrow>
     rs_Status (getObject enc tenant k t st) = 200 \<and> rs_Body (getObject enc tenant k t st) = it_Value i"
  "map_of st t = Some i \<Longrightarrow> it_Tenant i = tenant \<Longrightarrow> k \<notin> set (it_EncryptionKeys i) \<Longrightarrow>
     getObject enc tenant k t st
       = writeS3Error enc 400 ''DecryptionFailed'' ''the provided encryption key cannot decrypt this object''"
  "map_of st t = Some i \<Longrightarrow> it_Tenant i \<noteq> tenant \<Longrightarrow>
     getObject enc tenant k t st = writeS3Error enc 404 ''NoSuchKey'' ''object not found''"
  by (simp_all add: getObject_def)

lemma got_missing: "got xml n (writeS3Error enc 404 code msg) = Inl (ESent ErrBucketNotFound)"
  by (simp add: got_def writeS3Error_def)

lemma put_item_fields [simp]:
  "it_Tenant (put_item now tenant k v old) = tenant" "it_EncryptionKeys (put_item now tenant k v old) = [k]"
  "it_Value (put_item now tenant k v old) = v"
  by (simp_all add: put_item_def)

lemma got_put:
  "fits n v \<Longrightarrow> got xml n (getObject enc tenant k t (al_set t (put_item now tenant k v old) st)) = Inr v"
  by (simp add: got_def getObject_def)

text \<open>
  A client with a configured bucket on the stub is an object store for owners and tokens the
  sidecar accepts and values that fit its buffer.
\<close>

locale bucket_stub =
  fixes c :: bucket_client and enc :: "string \<Rightarrow> string \<Rightarrow> bytes" and xml :: "bytes \<Rightarrow> string option"
  assumes configured: "Configured (Some c)" and xml_errors: "xml_ok enc xml"
begin

lemma got_forbidden:
  "got xml n (writeS3Error enc 400 ''DecryptionFailed'' ''the provided encryption key cannot decrypt this object'')
     = Inl (ESent ErrBucketForbidden)"
proof -
  have "list_all tenant_char ''DecryptionFailed''" by (simp add: tenant_char_def in_range_def)
  then show ?thesis using xml_errors
    by (simp add: xml_ok_def got_def s3ErrorCode_def writeS3Error_def read_limited_def bucket_defs)
qed

end

sublocale bucket_stub \<subseteq> object_store "bucket_Put (Some c) (bucket_net enc c)"
  "bucket_GetLimited (Some c) (bucket_net enc c) xml" "bucket_Delete (Some c) (bucket_net enc c)"
  stub_owner plain_token stub_value
proof
  fix u t v and k :: bytes and s :: "bucket_store \<times> gtime"
  assume "stub_owner u" "plain_token t" "stub_value v" "length k = 32"
  then show "\<exists>s'. bucket_Put (Some c) (bucket_net enc c) u t v k s = (Inr (), s')"
    by (cases s) (simp add: client_put [OF configured] plain_token_def)
next
  fix u t v and k :: bytes and n and s s' :: "bucket_store \<times> gtime"
  assume "stub_owner u" "plain_token t" "stub_value v" "length k = 32" "fits n v"
    and "bucket_Put (Some c) (bucket_net enc c) u t v k s = (Inr (), s')"
  then show "fst (bucket_GetLimited (Some c) (bucket_net enc c) xml u t k n s') = Inr v"
    by (cases s) (auto simp: client_put [OF configured] client_get [OF configured] plain_token_def got_put)
next
  fix u t v and k k' :: bytes and n and s s' :: "bucket_store \<times> gtime"
  assume "stub_owner u" "plain_token t" "stub_value v" "length k = 32" "length k' = 32" "k' \<noteq> k"
    and "bucket_Put (Some c) (bucket_net enc c) u t v k s = (Inr (), s')"
  then show "fst (bucket_GetLimited (Some c) (bucket_net enc c) xml u t k' n s') = Inl (ESent ErrBucketForbidden)"
    by (cases s) (auto simp: client_put [OF configured] client_get [OF configured] plain_token_def
        getObject_simps(3) got_forbidden)
next
  fix u t and s :: "bucket_store \<times> gtime"
  assume "stub_owner u" "plain_token t"
  then show "\<exists>s'. bucket_Delete (Some c) (bucket_net enc c) u t s = (Inr (), s')"
    by (cases s) (simp add: client_del [OF configured] plain_token_def)
next
  fix u t and k :: bytes and n and s s' :: "bucket_store \<times> gtime"
  assume "stub_owner u" "plain_token t" "length k = 32"
    and "bucket_Delete (Some c) (bucket_net enc c) u t s = (Inr (), s')"
  then show "fst (bucket_GetLimited (Some c) (bucket_net enc c) xml u t k n s') = Inl (ESent ErrBucketNotFound)"
    by (cases s) (auto simp: client_del [OF configured] client_get [OF configured] plain_token_def deleteObject_def
        getObject_simps got_missing split: option.split)
next
  fix t t' u v and k k' :: bytes and r u' n and s s' :: "bucket_store \<times> gtime"
  assume "plain_token t" "plain_token t'" "t' \<noteq> t"
    and "bucket_Put (Some c) (bucket_net enc c) u t v k s = (r, s')"
  then show "fst (bucket_GetLimited (Some c) (bucket_net enc c) xml u' t' k' n s')
      = fst (bucket_GetLimited (Some c) (bucket_net enc c) xml u' t' k' n s)"
    using put_elsewhere [of t' t c enc u v k s] by (intro get_local) (simp add: plain_token_def)
next
  fix t t' u r u' and k' :: bytes and n and s s' :: "bucket_store \<times> gtime"
  assume "plain_token t" "plain_token t'" "t' \<noteq> t"
    and "bucket_Delete (Some c) (bucket_net enc c) u t s = (r, s')"
  then show "fst (bucket_GetLimited (Some c) (bucket_net enc c) xml u' t' k' n s')
      = fst (bucket_GetLimited (Some c) (bucket_net enc c) xml u' t' k' n s)"
    using del_elsewhere [of t' t c enc u s] by (intro get_local) (simp add: plain_token_def)
next
  fix u t and k k' :: bytes and n b u' t' n' and s s' :: "bucket_store \<times> gtime"
  assume "bucket_GetLimited (Some c) (bucket_net enc c) xml u t k n s = (b, s')"
  then have "fst s' = fst s" using get_same_state by (metis snd_conv)
  then show "fst (bucket_GetLimited (Some c) (bucket_net enc c) xml u' t' k' n' s')
      = fst (bucket_GetLimited (Some c) (bucket_net enc c) xml u' t' k' n' s)"
    by (intro get_local) simp
qed

text \<open>The store of the local stack, with an encoder that writes just the code.\<close>

definition example_bucket_client :: bucket_client where
  "example_bucket_client = bucket_NewClient ''http://buckets/'' ''local-attachments''"

definition example_enc :: "string \<Rightarrow> string \<Rightarrow> bytes" where
  "example_enc code msg = ''<Error><Code>'' @ code @ ''</Code></Error>''"

definition example_xml :: "bytes \<Rightarrow> string option" where
  "example_xml b = Some (takeWhile tenant_char (drop 13 b))"

lemma example_configured: "Configured (Some example_bucket_client)"
  by (simp add: Configured_def example_bucket_client_def bucket_NewClient_def validBucketName_def bucketNamePattern_def
      bucket_edge_char_def in_range_def ipv4Pattern_def)

lemma example_xml_ok: "xml_ok example_enc example_xml"
proof -
  have "takeWhile tenant_char (code @ CHR ''<'' # r) = code" if "list_all tenant_char code" for code r
    using that by (simp add: takeWhile_append list_all_iff tenant_char_def in_range_def)
  then show ?thesis by (simp add: xml_ok_def example_enc_def example_xml_def)
qed

interpretation ebs: bucket_stub example_bucket_client example_enc example_xml
  by unfold_locales (rule example_configured example_xml_ok)+

end
