(* ===== verification/Attachments.thy ===== *)
theory Attachments
  imports Bucket_Stub Server_Base Controlplane_Registry
begin

text \<open>
  \<^verbatim>\<open>server/attachment_ops.go\<close>: the materials of an attachment, upload, fetch and delete. The bytes go
  to the storage sidecar under a key the enclave derives and hands back; the controlplane keeps the
  index of who owns which attachment.
\<close>

section \<open>Materials\<close>

definition attKeySize :: nat where "attKeySize = 32"
definition attachmentIDBytes :: nat where "attachmentIDBytes = 18"
definition attachmentIDInfo :: string where "attachmentIDInfo = ''tinfoil-attachment-id-v1''"
definition attachmentKeyInfo :: string where "attachmentKeyInfo = ''tinfoil-attachment-key-v1''"

text \<open>\<^verbatim>\<open>uint64(len(p))\<close>, big-endian.\<close>

definition ikm_part :: "bytes \<Rightarrow> bytes" where
  "ikm_part p = be_bytes 8 (length p mod 2 ^ 64) @ p"

definition encodeIKM :: "bytes list \<Rightarrow> bytes" where
  "encodeIKM parts = concat (map ikm_part parts)"

definition deriveAttachmentMaterials ::
  "hkdf \<Rightarrow> string \<Rightarrow> string \<Rightarrow> string \<Rightarrow> bytes \<Rightarrow> (string \<times> bytes) result" where
  "deriveAttachmentMaterials H idempotencyKey chatID clerkSubject plaintext =
     (if idempotencyKey = [] then Inl (ENew ''idempotency key is required'')
      else if chatID = [] then Inl (ENew ''chat id is required'')
      else let ikm = encodeIKM [idempotencyKey, chatID, clerkSubject, hex_encode (sha256 plaintext)]
           in rbind (of_option (ELib ''hkdf'') (H ikm attachmentIDInfo attachmentIDBytes)) (\<lambda>idBytes.
              rbind (of_option (ELib ''hkdf'') (H ikm attachmentKeyInfo attKeySize)) (\<lambda>key.
              Inr (hex_encode idBytes, key))))"

section \<open>Requests\<close>

record attachment_put_request =
  at_ChatID :: string
  at_Plaintext :: string
  at_IdempotencyKey :: string

record attachment_put_response =
  apr_OK :: bool
  apr_ID :: string
  apr_AttKey :: string

record attachment_get_request =
  ag_ID :: string
  ag_AttKey :: string

record attachment_get_response =
  agr_OK :: bool
  agr_Plaintext :: string

text \<open>\<^verbatim>\<open>&AppError{Status, Code, Message}\<close>.\<close>

definition appError :: "int \<Rightarrow> string \<Rightarrow> string \<Rightarrow> go_error" where
  "appError status code msg = EApp (zero_app_error\<lparr>ae_Status := status, ae_Code := code, ae_Message := msg\<rparr>)"

definition no_buckets :: go_error where
  "no_buckets = appError 503 CodeInternal ''buckets backend not configured''"

definition isControlplaneRejection :: "go_error \<Rightarrow> bool" where
  "isControlplaneRejection err =
     (case errors_as_cp err of None \<Rightarrow> False | Some c \<Rightarrow> 400 \<le> cpe_StatusCode c \<and> cpe_StatusCode c < 500)"

section \<open>Operations\<close>

definition AttachmentPut :: "'s deps \<Rightarrow> session \<Rightarrow> attachment_put_request \<Rightarrow> ('s, attachment_put_response) op" where
  "AttachmentPut D sess req =
     (if \<not> dp_buckets_configured D then op_err no_buckets
      else if at_ChatID req = [] then op_err (badRequest ''chat_id is required'')
      else if at_IdempotencyKey req = [] then op_err (badRequest ''idempotency_key is required'')
      else case std_decode (at_Plaintext req) of
        None \<Rightarrow> op_err (badRequest ''invalid plaintext base64'')
      | Some plaintext \<Rightarrow>
          (case deriveAttachmentMaterials (dp_hkdf D) (at_IdempotencyKey req) (at_ChatID req) (se_Subject sess) plaintext of
             Inl err \<Rightarrow> op_err (appError 500 CodeInternal (''derive attachment materials: '' @ error_string err))
           | Inr (aid, attKey) \<Rightarrow>
               op_try (ReservePendingAttachmentWrite (dp_cp D) (dp_net D) (se_RawJWT sess) (se_Subject sess) aid (at_ChatID req)) (\<lambda>r1.
               case r1 of
                 Inl err \<Rightarrow> op_err (appError 502 CodeUpstream (''controlplane reserve failed: '' @ error_string err))
               | Inr _ \<Rightarrow>
                   op_try (dp_buckets_Put D (se_Subject sess) aid plaintext attKey) (\<lambda>r2.
                   case r2 of
                     Inl err \<Rightarrow> op_err (appError 502 CodeUpstream (''buckets put failed: '' @ error_string err))
                   | Inr _ \<Rightarrow>
                       op_try (RegisterAttachmentIndex (dp_cp D) (dp_net D) (se_RawJWT sess) (se_Subject sess) aid (at_ChatID req)) (\<lambda>r3.
                       case r3 of
                         Inl err \<Rightarrow>
                           op_bind (if isControlplaneRejection err
                                    then op_ignore (dp_buckets_Delete D (se_Subject sess) aid) else op_ret ())
                             (\<lambda>_. op_err (appError 502 CodeUpstream (''controlplane index failed: '' @ error_string err)))
                       | Inr _ \<Rightarrow>
                           op_ret \<lparr> apr_OK = True, apr_ID = aid, apr_AttKey = b64_encode attKey \<rparr>)))))"

definition AttachmentGet :: "'s deps \<Rightarrow> attachment_get_request \<Rightarrow> ('s, attachment_get_response) op" where
  "AttachmentGet D req =
     (if \<not> dp_buckets_configured D then op_err no_buckets
      else if ag_ID req = [] then op_err (badRequest ''id is required'')
      else case std_decode (ag_AttKey req) of
        None \<Rightarrow> op_err (badRequest ''invalid att_key base64'')
      | Some attKey \<Rightarrow>
          if length attKey \<noteq> attKeySize then op_err (badRequest ''att_key must be 32 bytes'')
          else op_try (ResolveAttachmentOwner (dp_cp D) (dp_net D) (ag_ID req)) (\<lambda>r1.
            case r1 of
              Inl err \<Rightarrow>
                if errors_is ErrAttachmentNotFound err then op_err (appError 404 CodeNotFound ''attachment not found'')
                else op_err (appError 502 CodeUpstream (''resolve attachment owner failed: '' @ error_string err))
            | Inr owner \<Rightarrow>
                op_try (dp_buckets_GetLimited D owner (ag_ID req) attKey 0) (\<lambda>r2.
                case r2 of
                  Inl err \<Rightarrow>
                    if errors_is ErrBucketNotFound err then op_err (appError 404 CodeNotFound ''attachment not found'')
                    else if errors_is ErrBucketForbidden err then op_err (badRequest ''attachment key does not match'')
                    else op_err (appError 502 CodeUpstream (''buckets get failed: '' @ error_string err))
                | Inr plaintext \<Rightarrow> op_ret \<lparr> agr_OK = True, agr_Plaintext = b64_encode plaintext \<rparr>)))"

definition AttachmentDelete :: "'s deps \<Rightarrow> session \<Rightarrow> string \<Rightarrow> ('s, unit) op" where
  "AttachmentDelete D sess aid =
     (if aid = [] then op_err (badRequest ''id is required'')
      else op_try (DeleteAttachmentIndex (dp_cp D) (dp_net D) (se_RawJWT sess) (se_Subject sess) aid) (\<lambda>r1.
        case r1 of
          Inl err \<Rightarrow>
            if (case errors_as_cp err of None \<Rightarrow> False | Some c \<Rightarrow> cpe_StatusCode c = 404)
            then op_err (appError 404 CodeNotFound ''attachment not found'')
            else op_err (appError 502 CodeUpstream (''controlplane attachment delete failed: '' @ error_string err))
        | Inr _ \<Rightarrow>
            if dp_buckets_configured D
            then op_try (dp_buckets_Delete D (se_Subject sess) aid) (\<lambda>r2.
                   case r2 of
                     Inl err \<Rightarrow> op_err (appError 502 CodeUpstream (''buckets attachment delete failed: '' @ error_string err))
                   | Inr _ \<Rightarrow> op_ret ())
            else op_ret ()))"

section \<open>Facts on the materials\<close>

definition fits64 :: "bytes \<Rightarrow> bool" where
  "fits64 p \<longleftrightarrow> length p < 2 ^ 64"

lemma be_bytes8_inject: "m < 2 ^ 64 \<Longrightarrow> n < 2 ^ 64 \<Longrightarrow> be_bytes 8 m = be_bytes 8 n \<longleftrightarrow> m = n"
proof
  assume m: "m < 2 ^ 64" and n: "n < 2 ^ 64" and eq: "be_bytes 8 m = be_bytes 8 n"
  have "(256 :: nat) ^ 8 = 2 ^ 64" by simp
  then show "m = n" using be_val_be_bytes [of 8 m] be_val_be_bytes [of 8 n] m n eq
    by (metis mod_less)
qed simp

interpretation ikm: nonempty_prefix_code fits64 ikm_part
proof
  fix x y r s assume ok: "fits64 x" "fits64 y" and eq: "ikm_part x @ r = ikm_part y @ s"
  then have "be_bytes 8 (length x) = be_bytes 8 (length y)" and r: "x @ r = y @ s"
    by (simp_all add: ikm_part_def fits64_def)
  then have "length x = length y" using ok by (simp add: fits64_def be_bytes8_inject)
  then show "x = y \<and> r = s" using r by simp
next
  fix x assume "fits64 x"
  have "length (be_bytes 8 (length x mod 2 ^ 64)) = 8" by simp
  then have "be_bytes 8 (length x mod 2 ^ 64) \<noteq> []" by (metis list.size(3) zero_neq_numeral)
  then show "ikm_part x \<noteq> []" by (simp add: ikm_part_def)
qed

lemma encodeIKM_inject:
  "list_all fits64 ps \<Longrightarrow> list_all fits64 qs \<Longrightarrow> encodeIKM ps = encodeIKM qs \<Longrightarrow> ps = qs"
  unfolding encodeIKM_def by (rule ikm.code_inject)

text \<open>Different uploads have different key material, up to the hash of the content.\<close>

lemma ikm_binds:
  assumes "list_all fits64 [i, c, u]" "list_all fits64 [i', c', u']"
    and "encodeIKM [i, c, u, hex_encode (sha256 p)] = encodeIKM [i', c', u', hex_encode (sha256 p')]"
  shows "i = i' \<and> c = c' \<and> u = u' \<and> sha256 p = sha256 p'"
  using encodeIKM_inject [OF _ _ assms(3)] assms(1,2) by (simp add: fits64_def hex_encode_inject)

lemma materials_shape:
  assumes "hkdf_ok H" "deriveAttachmentMaterials H i c u p = Inr (aid, k)"
  shows "length k = 32" "length aid = 36" "list_all is_lower_hex_char aid"
proof -
  let ?ikm = "encodeIKM [i, c, u, hex_encode (sha256 p)]"
  obtain b where b: "H ?ikm attachmentIDInfo 18 = Some b" "aid = hex_encode b" and k: "H ?ikm attachmentKeyInfo 32 = Some k"
    using assms(2)
    by (auto simp: deriveAttachmentMaterials_def Let_def result_simps attachmentIDBytes_def attKeySize_def split: if_splits)
  show "length k = 32" using hkdf_okD [OF assms(1), of 32 ?ikm attachmentKeyInfo] k by auto
  show "length aid = 36" using hkdf_okD [OF assms(1), of 18 ?ikm attachmentIDInfo] b by auto
  show "list_all is_lower_hex_char aid" using hex_encode_lower b(2) by simp
qed

lemma materials_total:
  assumes "hkdf_ok H" "i \<noteq> []" "c \<noteq> []"
  obtains aid k where "deriveAttachmentMaterials H i c u p = Inr (aid, k)"
  using hkdf_okD [OF assms(1), of 18 "encodeIKM [i, c, u, hex_encode (sha256 p)]" attachmentIDInfo]
    hkdf_okD [OF assms(1), of 32 "encodeIKM [i, c, u, hex_encode (sha256 p)]" attachmentKeyInfo] assms(2,3) that
  by (auto simp: deriveAttachmentMaterials_def Let_def attachmentIDBytes_def attKeySize_def)

lemma lower_hex_token: "list_all is_lower_hex_char t \<Longrightarrow> t \<noteq> [] \<Longrightarrow> plain_token t"
  by (force simp: plain_token_def list_all_iff is_lower_hex_char_def tenant_char_def in_range_def Let_def)

end
