(* ===== verification/Stub_Registry.thy ===== *)
theory Stub_Registry
  imports Stub_CP
begin

text \<open>
  The other half of \<^verbatim>\<open>internal/localstack/stub_cp.go\<close>: the search publication slot, migration and
  rewrap, attachments, keys and bundles.
\<close>

section \<open>Search publication\<close>

definition currentSearchIndex :: "stub_cp \<Rightarrow> search_index_state" where
  "currentSearchIndex st =
     (let s = st_search st
      in s\<lparr>sis_SourceRevision := st_sourceRev st,
           sis_Incomplete := sis_PublicationIncomplete s \<or> sis_PublishedSourceRevision s < st_sourceRev st\<rparr>)"

definition enc_search_state :: "search_index_state \<Rightarrow> json" where
  "enc_search_state s = JObj
     ([(''source_revision'', jint (sis_SourceRevision s)),
       (''publication_generation'', jint (sis_PublicationGeneration s)),
       (''fence_generation'', jint (sis_FenceGeneration s)),
       (''published_source_revision'', jint (sis_PublishedSourceRevision s))]
      @ j_omit ''object_key'' (sis_ObjectKey s) @ j_omit ''key_id'' (sis_KeyID s) @ j_omit ''model'' (sis_Model s)
      @ [(''incomplete'', JBool (sis_Incomplete s)), (''publication_incomplete'', JBool (sis_PublicationIncomplete s))])"

definition stub_getSearchIndex :: "stub_cp \<Rightarrow> http_response" where
  "stub_getSearchIndex st = json_resp 200 json_type (enc_search_state (currentSearchIndex st))"

record publish_body_fields =
  pf_ExpectedGeneration :: int
  pf_ExpectedFence :: int
  pf_CoveredSourceRevision :: int
  pf_ObjectKey :: string
  pf_KeyID :: string
  pf_Model :: string
  pf_Incomplete :: bool

definition dec_publish :: "(string \<times> json) list \<Rightarrow> publish_body_fields option" where
  "dec_publish m = do {
     g \<leftarrow> dec_int 0 (field_values ''expected_generation'' m);
     f \<leftarrow> dec_int 0 (field_values ''expected_fence'' m);
     c \<leftarrow> dec_int 0 (field_values ''covered_source_revision'' m);
     ok \<leftarrow> dec_string [] (field_values ''object_key'' m);
     kid \<leftarrow> dec_string [] (field_values ''key_id'' m);
     mo \<leftarrow> dec_string [] (field_values ''model'' m);
     inc \<leftarrow> dec_bool False (field_values ''incomplete'' m);
     Some \<lparr> pf_ExpectedGeneration = g, pf_ExpectedFence = f, pf_CoveredSourceRevision = c, pf_ObjectKey = ok,
            pf_KeyID = kid, pf_Model = mo, pf_Incomplete = inc \<rparr> }"

definition publish_conflict :: "publish_body_fields \<Rightarrow> stub_cp \<Rightarrow> bool" where
  "publish_conflict req st =
     (let state = currentSearchIndex st
      in pf_ExpectedGeneration req \<noteq> sis_PublicationGeneration state
       \<or> pf_ExpectedFence req \<noteq> sis_FenceGeneration state
       \<or> pf_CoveredSourceRevision req < sis_PublishedSourceRevision state
       \<or> sis_SourceRevision state < pf_CoveredSourceRevision req
       \<or> st_currentKID st \<noteq> [] \<and> pf_KeyID req \<noteq> st_currentKID st)"

definition published :: "publish_body_fields \<Rightarrow> stub_cp \<Rightarrow> stub_cp" where
  "published req st =
     st\<lparr>st_search := \<lparr> sis_SourceRevision = 0,
          sis_PublicationGeneration = sis_PublicationGeneration (st_search st) + 1,
          sis_FenceGeneration = sis_FenceGeneration (st_search st),
          sis_PublishedSourceRevision = pf_CoveredSourceRevision req, sis_ObjectKey = pf_ObjectKey req,
          sis_KeyID = pf_KeyID req, sis_Model = pf_Model req, sis_Incomplete = False,
          sis_PublicationIncomplete = pf_Incomplete req \<rparr>\<rparr>"

definition stub_publishSearchIndex :: "http_request \<Rightarrow> stub_cp \<Rightarrow> http_response \<times> stub_cp" where
  "stub_publishSearchIndex r st =
     (case decode_first dec_publish (rq_Body r) of
        None \<Rightarrow> (status_resp 400, st)
      | Some (req, _) \<Rightarrow>
          if publish_conflict req st
          then (json_resp 409 json_type (json_map
                  [(''code'', JStr StatusSearchIndexConflict), (''state'', enc_search_state (currentSearchIndex st))]), st)
          else (json_resp 200 json_type (enc_search_state (currentSearchIndex (published req st))), published req st))"

section \<open>Migration and rewrap\<close>

definition stub_needsMigration :: "(string \<Rightarrow> string) \<Rightarrow> stub_cp \<Rightarrow> http_response" where
  "stub_needsMigration q st =
     (let ids = map (\<lambda>(k, _). snd (key_parts k)) (filter (\<lambda>(k, b). fst (key_parts k) = q ''scope''
              \<and> \<not> has_prefix (sb_Body b) ''{\"v\":2'' \<and> \<not> has_prefix (sb_Body b) ''{\"v\": 2'') (st_blobs st))
      in json_resp 200 [] (JObj [(''ids'', JArr (map JStr ids)), (''retryable_remaining'', jint (int (length ids))),
                                 (''blocked_unmigrated'', jint 0)]))"

definition stub_migrationFailure :: http_response where
  "stub_migrationFailure = status_resp 204"

record rewrap_fields =
  rf_Scope :: string
  rf_ID :: string
  rf_KeyID :: string
  rf_IfMatch :: string
  rf_CiphertextB64 :: string

definition dec_rewrap :: "(string \<times> json) list \<Rightarrow> rewrap_fields option" where
  "dec_rewrap m = do {
     s \<leftarrow> dec_string [] (field_values ''scope'' m);
     i \<leftarrow> dec_string [] (field_values ''id'' m);
     k \<leftarrow> dec_string [] (field_values ''key_id'' m);
     f \<leftarrow> dec_string [] (field_values ''if_match'' m);
     c \<leftarrow> dec_string [] (field_values ''ciphertext_b64'' m);
     Some \<lparr> rf_Scope = s, rf_ID = i, rf_KeyID = k, rf_IfMatch = f, rf_CiphertextB64 = c \<rparr> }"

definition stub_rewrap :: "http_request \<Rightarrow> stub_cp \<Rightarrow> http_response \<times> stub_cp" where
  "stub_rewrap r st =
     (case decode_first dec_rewrap (rq_Body r) of
        None \<Rightarrow> (status_resp 400, st)
      | Some (req, _) \<Rightarrow>
          (case std_decode (rf_CiphertextB64 req) of
             None \<Rightarrow> (status_resp 400, st)
           | Some ct \<Rightarrow>
               (let bid = (if rf_Scope req = ''profile'' then ''profile'' else rf_ID req);
                    key = blobKey (rf_Scope req) bid
                in case map_of (st_blobs st) key of
                     None \<Rightarrow> (json_resp 412 [] (json_map
                                [(''code'', JStr StatusStaleBlob), (''current_etag'', JStr ''0'')]), st)
                   | Some blob \<Rightarrow>
                       if rf_IfMatch req \<noteq> formatETag (sb_ETag blob) then (stale_resp (sb_ETag blob), st)
                       else (json_resp 200 [] (json_map
                               [(''ok'', JBool True), (''etag'', JStr (formatETag (sb_ETag blob + 1))),
                                (''key_id'', JStr (rf_KeyID req))]),
                             st\<lparr>st_blobs := al_set key (blob\<lparr>sb_ETag := sb_ETag blob + 1,
                                  sb_KeyID := rf_KeyID req, sb_Body := ct\<rparr>) (st_blobs st)\<rparr>))))"

section \<open>Attachments\<close>

definition stubClerkUserIDFromAuth :: "string \<Rightarrow> string" where
  "stubClerkUserIDFromAuth authHeader =
     (if \<not> has_prefix authHeader ''Bearer '' then []
      else case split_on (CHR ''.'') (drop 7 authHeader) of
             [_, p, _] \<Rightarrow>
               (case Option.bind (raw_url_decode p) (unmarshal (\<lambda>m. dec_string [] (field_values ''sub'' m))) of
                  None \<Rightarrow> [] | Some sub \<Rightarrow> sub)
           | _ \<Rightarrow> [])"

definition stubSignLegacyClaim :: "string \<Rightarrow> string \<Rightarrow> string \<Rightarrow> bytes \<Rightarrow> string" where
  "stubSignLegacyClaim secret clerkUserID attID ciphertext =
     hex_encode (hmac_sha256 secret (json_encode (JObj
       [(''clerk_user_id'', JStr clerkUserID), (''id'', JStr attID), (''scope'', JStr ''attachment''),
        (''sha256'', JStr (hex_encode (sha256 ciphertext)))])))"

definition stub_getLegacyAttachment :: "string \<Rightarrow> http_request \<Rightarrow> stub_cp \<Rightarrow> http_response" where
  "stub_getLegacyAttachment aid r st =
     (case map_of (st_legacyAttachments st) aid of
        None \<Rightarrow> status_resp 404
      | Some body \<Rightarrow>
          \<lparr> rs_Status = 200,
            rs_Header = [(HeaderLegacyClaim, stubSignLegacyClaim LocalStackSyncEnclaveSecret
                            (stubClerkUserIDFromAuth (header_get (rq_Header r) ''Authorization'')) aid body),
                         (''Content-Type'', ''application/octet-stream'')],
            rs_Body = body, rs_Broken = False \<rparr>)"

text \<open>The chat id of a request body, when it has one.\<close>

definition body_chat :: "http_request \<Rightarrow> string option" where
  "body_chat r =
     (case decode_first (\<lambda>m. dec_string [] (field_values ''chat_id'' m)) (rq_Body r) of
        None \<Rightarrow> None | Some (c, _) \<Rightarrow> if c = [] then None else Some c)"

definition request_user :: "http_request \<Rightarrow> string" where
  "request_user r = stubClerkUserIDFromAuth (header_get (rq_Header r) ''Authorization'')"

definition stub_registerAttachmentIndex :: "string \<Rightarrow> http_request \<Rightarrow> stub_cp \<Rightarrow> http_response \<times> stub_cp" where
  "stub_registerAttachmentIndex aid r st =
     (case body_chat r of
        None \<Rightarrow> (status_resp 400, st)
      | Some chat \<Rightarrow>
          (status_resp 204,
           st\<lparr>st_attachmentIndex := al_set aid \<lparr> am_chatID = chat, am_clerkUserID = request_user r \<rparr> (st_attachmentIndex st),
              st_legacyAttachments := al_del aid (st_legacyAttachments st),
              st_pendingAttachments := al_del aid (st_pendingAttachments st)\<rparr>))"

definition stub_attachmentOwner :: "string \<Rightarrow> stub_cp \<Rightarrow> http_response" where
  "stub_attachmentOwner aid st =
     (case map_of (st_attachmentIndex st) aid of
        None \<Rightarrow> status_resp 404
      | Some m \<Rightarrow>
          if am_clerkUserID m = [] then status_resp 404
          else json_resp 200 json_type (json_map [(''clerk_user_id'', JStr (am_clerkUserID m))]))"

definition stub_reservePendingAttachment ::
  "string \<Rightarrow> gtime \<Rightarrow> http_request \<Rightarrow> stub_cp \<Rightarrow> http_response \<times> stub_cp" where
  "stub_reservePendingAttachment aid now r st =
     (case body_chat r of
        None \<Rightarrow> (status_resp 400, st)
      | Some chat \<Rightarrow>
          (status_resp 204,
           if map_of (st_pendingAttachments st) aid \<noteq> None then st
           else st\<lparr>st_pendingAttachments := al_set aid
                     \<lparr> pa_chatID = chat, pa_clerkUserID = request_user r, pa_createdAt = now \<rparr>
                     (st_pendingAttachments st)\<rparr>))"

text \<open>The sweep takes expired reservations in iteration order until it has a full batch.\<close>

definition expired_reservations :: "gtime \<Rightarrow> stub_cp \<Rightarrow> (string \<times> pending_attachment) list" where
  "expired_reservations now st =
     filter (\<lambda>(_, p). \<not> now - pa_createdAt p < st_pendingExpiryWindow st) (st_pendingAttachments st)"

definition stub_sweepPendingAttachments ::
  "(string \<Rightarrow> string) \<Rightarrow> gtime \<Rightarrow> stub_cp \<Rightarrow> http_response \<times> stub_cp" where
  "stub_sweepPendingAttachments q now st =
     (let limit = (case parse_int64 (q ''limit'') of
                     Some n \<Rightarrow> if q ''limit'' \<noteq> [] \<and> 0 < n then nat n else 200 | None \<Rightarrow> 200);
          rows = take limit (expired_reservations now st)
      in (json_resp 200 json_type (json_map [(''rows'', JArr (map (\<lambda>(aid, p). JObj
             [(''attachment_id'', JStr aid), (''chat_id'', JStr (pa_chatID p)),
              (''clerk_user_id'', JStr (pa_clerkUserID p))]) rows))]),
          st\<lparr>st_pendingAttachments := filter (\<lambda>(aid, _). aid \<notin> fst ` set rows) (st_pendingAttachments st)\<rparr>))"

definition stub_deleteAttachmentIndex :: "string \<Rightarrow> stub_cp \<Rightarrow> http_response \<times> stub_cp" where
  "stub_deleteAttachmentIndex aid st =
     (case map_of (st_attachmentIndex st) aid of
        None \<Rightarrow> (status_resp 404, st)
      | Some _ \<Rightarrow> (status_resp 204, st\<lparr>st_attachmentIndex := al_del aid (st_attachmentIndex st)\<rparr>))"

section \<open>Keys and bundles\<close>

text \<open>A pointer field: a second object of the same name is decoded into the first one.\<close>

definition bundle_into :: "current_key_bundle \<Rightarrow> (string \<times> json) list \<Rightarrow> current_key_bundle option" where
  "bundle_into b m = do {
     cid \<leftarrow> dec_string (kb_CredentialID b) (field_values ''credential_id'' m);
     iv \<leftarrow> dec_string (kb_KEKIV b) (field_values ''kek_iv'' m);
     ek \<leftarrow> dec_string (kb_EncryptedKeys b) (field_values ''encrypted_keys'' m);
     reg \<leftarrow> dec_string (kb_RegisteredAt b) (field_values ''registered_at'' m);
     Some \<lparr> kb_CredentialID = cid, kb_KEKIV = iv, kb_EncryptedKeys = ek, kb_RegisteredAt = reg \<rparr> }"

definition zero_bundle :: current_key_bundle where
  "zero_bundle = \<lparr> kb_CredentialID = [], kb_KEKIV = [], kb_EncryptedKeys = [], kb_RegisteredAt = [] \<rparr>"

fun dec_ptr_bundle :: "current_key_bundle option \<Rightarrow> json list \<Rightarrow> current_key_bundle option option" where
  "dec_ptr_bundle cur [] = Some cur"
| "dec_ptr_bundle cur (v # vs) =
     (case v of
        JNull \<Rightarrow> dec_ptr_bundle None vs
      | JObj m \<Rightarrow> (case bundle_into (case cur of Some b \<Rightarrow> b | None \<Rightarrow> zero_bundle) m of
                     None \<Rightarrow> None | Some b \<Rightarrow> dec_ptr_bundle (Some b) vs)
      | _ \<Rightarrow> None)"

definition dec_register :: "(string \<times> json) list \<Rightarrow> (string \<times> string \<times> current_key_bundle option) option" where
  "dec_register m = do {
     k \<leftarrow> dec_string [] (field_values ''key_id'' m);
     v \<leftarrow> dec_string [] (field_values ''created_via'' m);
     b \<leftarrow> dec_ptr_bundle None (field_values ''initial_bundle'' m);
     Some (k, v, b) }"

text \<open>The wipe of a fresh start; every dropped chat counts as a revision before the log is cut.\<close>

definition wipe :: "gtime \<Rightarrow> stub_cp \<Rightarrow> stub_cp" where
  "wipe now st =
     (let chats = int (length (filter (\<lambda>(k, _). has_prefix k ''chat/'') (st_blobs st)))
      in st\<lparr>st_blobs := [], st_deletes := tombstones now (st_blobs st) (st_deletes st),
            st_sourceRev := st_sourceRev st + chats, st_revisions := [],
            st_oldestReplayableRevision := st_sourceRev st + chats,
            st_attachmentIndex := [], st_legacyAttachments := []\<rparr>)"

definition put_bundle :: "string \<Rightarrow> current_key_bundle \<Rightarrow> stub_cp \<Rightarrow> stub_cp" where
  "put_bundle kid b st =
     st\<lparr>st_bundles := al_set kid (al_set (kb_CredentialID b) b
          (case map_of (st_bundles st) kid of None \<Rightarrow> [] | Some m \<Rightarrow> m)) (st_bundles st)\<rparr>"

definition other_key_data :: "string \<Rightarrow> stub_cp \<Rightarrow> bool" where
  "other_key_data kid st = list_ex (\<lambda>(_, b). sb_KeyID b \<noteq> [] \<and> sb_KeyID b \<noteq> kid) (st_blobs st)"

definition key_conflict :: "string \<Rightarrow> stub_cp \<Rightarrow> http_response" where
  "key_conflict code st = json_resp 409 [] (json_map [(''code'', JStr code), (''current_key_id'', JStr (st_currentKID st))])"

text \<open>The registration proper, once the request has been accepted.\<close>

definition register_accepted ::
  "gtime \<Rightarrow> string \<Rightarrow> bool \<Rightarrow> current_key_bundle option \<Rightarrow> stub_cp \<Rightarrow> bool \<times> stub_cp" where
  "register_accepted now kid fresh bundle st =
     (let st1 = (if fresh then wipe now st else st);
          st2 = st1\<lparr>st_keys := (if kid \<in> set (st_keys st) then st_keys st else kid # st_keys st),
                    st_currentKID := kid\<rparr>;
          fenced = (fresh \<or> st_currentKID st \<noteq> [] \<and> st_currentKID st \<noteq> kid);
          st3 = (if fenced
                 then st2\<lparr>st_search := zero_search\<lparr>
                        sis_PublicationGeneration := sis_PublicationGeneration (st_search st) + 1,
                        sis_FenceGeneration := sis_FenceGeneration (st_search st) + 1,
                        sis_PublicationIncomplete := True\<rparr>\<rparr>
                 else st2)
      in (fenced, case bundle of None \<Rightarrow> st3 | Some b \<Rightarrow> put_bundle kid b st3))"

definition stub_registerKey :: "gtime \<Rightarrow> http_request \<Rightarrow> stub_cp \<Rightarrow> http_response \<times> stub_cp" where
  "stub_registerKey now r st =
     (case decode_first dec_register (rq_Body r) of
        None \<Rightarrow> (status_resp 400, st)
      | Some ((kid, via, bundle), _) \<Rightarrow>
          (let ifMatch = header_get (rq_Header r) ''If-Match'' in
           if ifMatch = [] then (status_resp 400, st)
           else if ifMatch \<noteq> ''*'' \<and> ifMatch \<noteq> st_currentKID st then (key_conflict StatusStaleKey st, st)
           else if via \<noteq> ''start_fresh'' \<and> other_key_data kid st
           then (key_conflict StatusExistingDataUnderOtherKey st, st)
           else let wiped = (if via = ''start_fresh'' then map fst (st_attachmentIndex st) else [])
                in case register_accepted now kid (via = ''start_fresh'') bundle st of
                     (fenced, st') \<Rightarrow>
                       (json_resp 200 (json_type @ (if fenced then [(HeaderSearchIndexFenced, ''true'')] else []))
                          (json_map [(''ok'', JBool True), (''key_id'', JStr kid), (''etag'', JStr ''1''),
                                     (''wiped_v2_attachments'', JArr (map JStr wiped))]), st')))"

definition enc_bundle :: "current_key_bundle \<Rightarrow> json" where
  "enc_bundle b = JObj
     [(''credential_id'', JStr (kb_CredentialID b)), (''kek_iv'', JStr (kb_KEKIV b)),
      (''encrypted_keys'', JStr (kb_EncryptedKeys b)), (''registered_at'', JStr (kb_RegisteredAt b))]"

text \<open>A nil map of bundles is encoded as null.\<close>

definition stub_currentKey :: "stub_cp \<Rightarrow> http_response" where
  "stub_currentKey st =
     (if st_currentKID st = [] then status_resp 404
      else json_resp 200 [] (JObj
        [(''key_id'', JStr (st_currentKID st)), (''etag'', JStr []),
         (''bundles'', (case map_of (st_bundles st) (st_currentKID st) of
            None \<Rightarrow> JNull | Some m \<Rightarrow> json_map (map (\<lambda>(cid, b). (cid, enc_bundle b)) m))),
         (''created_via'', JStr []), (''created_at'', JStr []), (''has_data'', JBool False)]))"

text \<open>
  The error of the decoder is ignored: members of the wrong type are skipped and the others kept;
  a body that is not JSON, or not an object, leaves the zero bundle.
\<close>

fun skip_to_string :: "string \<Rightarrow> json list \<Rightarrow> string" where
  "skip_to_string cur [] = cur"
| "skip_to_string cur (v # vs) = skip_to_string (case v of JStr s \<Rightarrow> s | _ \<Rightarrow> cur) vs"

definition posted_bundle :: "bytes \<Rightarrow> current_key_bundle" where
  "posted_bundle body =
     (case json_first body of
        Some (JObj m, _) \<Rightarrow>
          (let member = (\<lambda>k. skip_to_string [] (field_values k m))
           in \<lparr> kb_CredentialID = member ''credential_id'', kb_KEKIV = member ''kek_iv'',
                kb_EncryptedKeys = member ''encrypted_keys'', kb_RegisteredAt = member ''registered_at'' \<rparr>)
      | _ \<Rightarrow> zero_bundle)"

definition stub_addBundle :: "string \<Rightarrow> http_request \<Rightarrow> stub_cp \<Rightarrow> http_response \<times> stub_cp" where
  "stub_addBundle kid r st = (status_resp 204, put_bundle kid (posted_bundle (rq_Body r)) st)"

definition stub_removeBundle :: "string \<Rightarrow> string \<Rightarrow> stub_cp \<Rightarrow> http_response \<times> stub_cp" where
  "stub_removeBundle kid cid st =
     (status_resp 204,
      case map_of (st_bundles st) kid of
        None \<Rightarrow> st
      | Some m \<Rightarrow> st\<lparr>st_bundles := al_set kid (al_del cid m) (st_bundles st)\<rparr>)"

end
