(* ===== verification/Stub_Store.thy ===== *)
theory Stub_Store
  imports Stub_Registry
begin

text \<open>
  The blob rows of the local controlplane as a store of versioned values: what a compare-and-swap
  store promises (a locale), that the stub's PUT keeps the promise, and that every sequence of
  blob requests is a run of the abstract store.
\<close>

section \<open>The contract of a compare-and-swap store\<close>

text \<open>An If-Match value admits a row that is absent, or any row when it is empty or a star.\<close>

definition admits :: "string \<Rightarrow> (int \<times> 'v) option \<Rightarrow> bool" where
  "admits m row = (case row of None \<Rightarrow> True | Some (n, _) \<Rightarrow> m = [] \<or> m = ''*'' \<or> m = itoa n)"

definition next_version :: "(int \<times> 'v) option \<Rightarrow> int" where
  "next_version row = (case row of None \<Rightarrow> 1 | Some (n, _) \<Rightarrow> n + 1)"

lemma admits_simps [simp]:
  "admits m None" "admits m (Some (n, v)) \<longleftrightarrow> m = [] \<or> m = ''*'' \<or> m = itoa n"
  "next_version None = 1" "next_version (Some (n, v)) = n + 1"
  by (simp_all add: admits_def next_version_def)

lemma itoa_not_star: "0 \<le> n \<Longrightarrow> itoa n \<noteq> ''*''"
proof
  assume "0 \<le> n" and star: "itoa n = ''*''"
  then have "hd (digits (nat n)) = CHR ''*''" by (simp add: itoa_def)
  then show False using hd_digits [of "nat n"] by (simp add: is_digit_def)
qed

text \<open>A sequence of requests, each on the state the one before left.\<close>

primrec run_all :: "('c \<Rightarrow> 's \<Rightarrow> 'r \<times> 's) \<Rightarrow> 'c list \<Rightarrow> 's \<Rightarrow> 'r list \<times> 's" where
  "run_all f [] s = ([], s)"
| "run_all f (c # cs) s = (case f c s of (r, s') \<Rightarrow> case run_all f cs s' of (rs, s'') \<Rightarrow> (r # rs, s''))"

text \<open>The version of a row, zero when it is absent, and the ETags granted to the requests on a row.\<close>

definition version :: "(int \<times> 'v) option \<Rightarrow> int" where
  "version row = next_version row - 1"

definition grants :: "('w \<Rightarrow> 'k) \<Rightarrow> ('r \<Rightarrow> string option) \<Rightarrow> 'k \<Rightarrow> 'w list \<Rightarrow> 'r list \<Rightarrow> string list" where
  "grants key granted k ws rs = map (\<lambda>(w, r). the (granted r))
     (filter (\<lambda>(w, r). key w = k \<and> granted r \<noteq> None) (zip ws rs))"

locale cas_store =
  fixes rows :: "'st \<Rightarrow> 'k \<Rightarrow> (int \<times> 'v) option"
    and put :: "'w \<Rightarrow> 'st \<Rightarrow> 'r \<times> 'st"
    and key :: "'w \<Rightarrow> 'k"
    and pre :: "'w \<Rightarrow> string"
    and val :: "'w \<Rightarrow> 'v"
    and granted :: "'r \<Rightarrow> string option"
  assumes grant: "admits (pre w) (rows st (key w)) \<Longrightarrow>
      granted (fst (put w st)) = Some (itoa (next_version (rows st (key w))))
      \<and> rows (snd (put w st)) = (rows st)(key w \<mapsto> (next_version (rows st (key w)), val w))"
    and refuse: "\<not> admits (pre w) (rows st (key w)) \<Longrightarrow>
      granted (fst (put w st)) = None \<and> snd (put w st) = st"
begin

lemma run_refused:
  assumes "rows st k = Some (n, v)" "0 \<le> n" "0 \<le> m" "m \<noteq> n" "\<And>w. w \<in> set ws \<Longrightarrow> key w = k \<and> pre w = itoa m"
  shows "map granted (fst (run_all put ws st)) = replicate (length ws) None \<and> snd (run_all put ws st) = st"
  using assms(5)
proof (induction ws)
  case (Cons w ws)
  have "\<not> admits (pre w) (rows st (key w))"
    using assms(1-4) Cons.prems [of w] by (simp add: itoa_nonneg_inject itoa_not_star)
  from refuse [OF this] Cons show ?case by (simp add: case_prod_beta)
qed simp

text \<open>Of the writers that saw one version of a row, the first wins and all others are refused.\<close>

lemma one_winner:
  assumes "rows st k = Some (n, v)" "0 \<le> n" "\<forall>x \<in> set (w # ws). key x = k \<and> pre x = itoa n"
  shows "map granted (fst (run_all put (w # ws) st)) = Some (itoa (n + 1)) # replicate (length ws) None
    \<and> rows (snd (run_all put (w # ws) st)) = (rows st)(k \<mapsto> (n + 1, val w))"
proof -
  have w: "key w = k" "pre w = itoa n" and ws: "\<And>x. x \<in> set ws \<Longrightarrow> key x = k \<and> pre x = itoa n"
    using assms(3) by simp_all
  have g: "granted (fst (put w st)) = Some (itoa (n + 1))"
    "rows (snd (put w st)) = (rows st)(k \<mapsto> (n + 1, val w))"
    using grant [of w st] w assms(1) by simp_all
  have "map granted (fst (run_all put ws (snd (put w st)))) = replicate (length ws) None
      \<and> snd (run_all put ws (snd (put w st))) = snd (put w st)"
    by (rule run_refused [of _ k "n + 1" "val w" n]) (use g ws assms(2) in simp_all)
  with g show ?thesis by (simp add: case_prod_beta)
qed

text \<open>The version of a row counts the writes that were granted on it.\<close>

lemma version_put:
  "granted (fst (put w st)) = (if admits (pre w) (rows st (key w)) then Some (itoa (version (rows st (key w)) + 1)) else None)"
  "version (rows (snd (put w st)) k)
     = version (rows st k) + (if key w = k \<and> granted (fst (put w st)) \<noteq> None then 1 else 0)"
  using grant [of w st] refuse [of w st]
  by (cases "admits (pre w) (rows st (key w))"; simp add: version_def)+

lemma grants_Cons:
  "grants key granted k (w # ws) (fst (run_all put (w # ws) st)) = (if key w = k \<and> granted (fst (put w st)) \<noteq> None
     then [the (granted (fst (put w st)))] else []) @ grants key granted k ws (fst (run_all put ws (snd (put w st))))"
  by (simp add: grants_def case_prod_beta)

lemma version_counts:
  "grants key granted k ws (fst (run_all put ws st)) = map (\<lambda>i. itoa (version (rows st k) + int i + 1)) [0..<length (grants key granted k ws (fst (run_all put ws st)))]
   \<and> version (rows (snd (run_all put ws st)) k) = version (rows st k) + int (length (grants key granted k ws (fst (run_all put ws st))))"
proof (induction ws arbitrary: st)
  case (Cons w ws)
  let ?g = "key w = k \<and> granted (fst (put w st)) \<noteq> None"
  let ?rest = "grants key granted k ws (fst (run_all put ws (snd (put w st))))"
  have v: "version (rows (snd (put w st)) k) = version (rows st k) + (if ?g then 1 else 0)" by (rule version_put)
  have fin: "version (rows (snd (run_all put (w # ws) st)) k) = version (rows (snd (put w st)) k) + int (length ?rest)"
    using Cons by (simp add: case_prod_beta)
  have rest: "?rest = map (\<lambda>i. itoa (version (rows (snd (put w st)) k) + int i + 1)) [0..<length ?rest]"
    using Cons by blast
  show ?case
  proof (cases ?g)
    case True
    then have g: "the (granted (fst (put w st))) = itoa (version (rows st k) + 1)"
      using version_put(1) [of w st] by (auto split: if_splits)
    have "map (\<lambda>i. itoa (version (rows st k) + int i + 1)) [0..<Suc (length ?rest)]
        = itoa (version (rows st k) + 1) # map (\<lambda>i. itoa (version (rows st k) + 1 + int i + 1)) [0..<length ?rest]"
      by (simp add: upt_conv_Cons map_Suc_upt [symmetric] ac_simps del: upt_Suc)
    also have "\<dots> = itoa (version (rows st k) + 1) # ?rest" using rest v True by simp
    finally show ?thesis using True g v fin by (simp add: grants_Cons del: upt_Suc run_all.simps)
  next
    case False
    then have "grants key granted k (w # ws) (fst (run_all put (w # ws) st)) = ?rest" by (auto simp: grants_Cons simp del: run_all.simps)
    moreover have "version (rows (snd (put w st)) k) = version (rows st k)" using v by (simp only: False if_False)
    ultimately show ?thesis using fin rest by simp
  qed
qed (simp add: grants_def)

end

section \<open>The rows of the stub\<close>

text \<open>The abstraction: a row is its version with its body and key id.\<close>

definition stub_rows :: "stub_cp \<Rightarrow> string \<Rightarrow> (int \<times> bytes \<times> string) option" where
  "stub_rows st k = map_option (\<lambda>b. (sb_ETag b, sb_Body b, sb_KeyID b)) (map_of (st_blobs st) k)"

lemma stub_rows_set: "stub_rows (st\<lparr>st_blobs := al_set k b (st_blobs st)\<rparr>)
    = (stub_rows st)(k \<mapsto> (sb_ETag b, sb_Body b, sb_KeyID b))"
  and stub_rows_del: "stub_rows (st\<lparr>st_blobs := al_del k (st_blobs st)\<rparr>) = (stub_rows st)(k := None)"
  by (simp_all add: stub_rows_def fun_eq_iff)

lemma stub_rows_cong: "st_blobs st' = st_blobs st \<Longrightarrow> stub_rows st' = stub_rows st"
  by (simp add: stub_rows_def fun_eq_iff)

lemma stale_for_admits: "stale_for m (map_of (st_blobs st) k) \<longleftrightarrow> \<not> admits m (stub_rows st k)"
  by (auto simp: stale_for_def stub_rows_def formatETag_def split: option.splits)

lemma next_etag_version: "next_etag (map_of (st_blobs st) k) = next_version (stub_rows st k)"
  by (simp add: next_etag_def stub_rows_def split: option.splits)

lemma stale_version: "stale_for m (map_of (st_blobs st) k) \<Longrightarrow>
    sb_ETag (the (map_of (st_blobs st) k)) = next_version (stub_rows st k) - 1"
  by (auto simp: stale_for_def stub_rows_def split: option.splits)

lemma put_row_simps [simp]:
  "sb_ETag (put_row T scope now r b) = next_etag b"
  "sb_Body (put_row T scope now r b) = rq_Body r"
  "sb_KeyID (put_row T scope now r b) = header_get (rq_Header r) ''X-Key-Id''"
  by (simp_all add: put_row_def Let_def split: option.split)

text \<open>Header names that differ, whatever their case.\<close>

lemma header_names_differ [simp]:
  "\<not> equal_fold_ascii ''ETag'' ''X-Key-Id''" "\<not> equal_fold_ascii ''X-Key-Id'' ''ETag''"
  "\<not> equal_fold_ascii HeaderProjectIDSet ''ETag''" "\<not> equal_fold_ascii HeaderProjectIDSet ''X-Key-Id''"
  "\<not> equal_fold_ascii HeaderProjectID ''ETag''" "\<not> equal_fold_ascii HeaderProjectID ''X-Key-Id''"
  "\<not> equal_fold_ascii HeaderActivityAt ''ETag''" "\<not> equal_fold_ascii HeaderActivityAt ''X-Key-Id''"
  by (simp_all add: equal_fold_ascii_def header_defs)

definition req_pre :: "http_request \<Rightarrow> string" where
  "req_pre r = header_get (rq_Header r) ''If-Match''"

definition req_val :: "http_request \<Rightarrow> bytes \<times> string" where
  "req_val r = (rq_Body r, header_get (rq_Header r) ''X-Key-Id'')"

lemma putBlob_admitted:
  assumes "admits (req_pre r) (stub_rows st (blobKey scope (extractID scope vals)))"
  defines "n \<equiv> next_version (stub_rows st (blobKey scope (extractID scope vals)))"
  shows "rs_Status (fst (stub_putBlob T scope vals now r st)) = 200
    \<and> header_get (rs_Header (fst (stub_putBlob T scope vals now r st))) ''ETag'' = itoa n
    \<and> stub_rows (snd (stub_putBlob T scope vals now r st))
        = (stub_rows st)(blobKey scope (extractID scope vals) \<mapsto> (n, req_val r))"
proof -
  let ?k = "blobKey scope (extractID scope vals)"
  have "\<not> stale_for (header_get (rq_Header r) ''If-Match'') (map_of (st_blobs st) ?k)"
    using assms(1) by (simp add: stale_for_admits req_pre_def)
  then show ?thesis unfolding n_def
    by (simp add: stub_putBlob_def Let_def json_resp_def formatETag_def next_etag_version req_val_def
        stub_rows_def fun_eq_iff)
qed

lemma putBlob_refused:
  assumes "\<not> admits (req_pre r) (stub_rows st (blobKey scope (extractID scope vals)))"
  shows "stub_putBlob T scope vals now r st
    = (stale_resp (next_version (stub_rows st (blobKey scope (extractID scope vals))) - 1), st)"
  using assms by (simp add: stub_putBlob_def Let_def stale_for_admits [symmetric] req_pre_def stale_version)

text \<open>The stub's PUT is a compare-and-swap write.\<close>

definition put_call :: "time_lib \<Rightarrow> (string \<times> string list) \<times> gtime \<times> http_request \<Rightarrow> stub_cp \<Rightarrow> http_response \<times> stub_cp" where
  "put_call T w = (case w of ((scope, vals), now, r) \<Rightarrow> stub_putBlob T scope vals now r)"

definition put_key :: "(string \<times> string list) \<times> gtime \<times> http_request \<Rightarrow> string" where
  "put_key w = (case w of ((scope, vals), _) \<Rightarrow> blobKey scope (extractID scope vals))"

definition put_granted :: "http_response \<Rightarrow> string option" where
  "put_granted resp = (if rs_Status resp = 200 then Some (header_get (rs_Header resp) ''ETag'') else None)"

interpretation put: cas_store stub_rows "put_call T" put_key "\<lambda>w. req_pre (snd (snd w))"
    "\<lambda>w. req_val (snd (snd w))" put_granted for T
proof (unfold_locales, goal_cases)
  case (1 w st)
  obtain scope vals now r where w: "w = ((scope, vals), now, r)" by (metis surj_pair)
  show ?case using 1 putBlob_admitted [of r st scope vals T now]
    by (simp add: w put_call_def put_key_def put_granted_def)
next
  case (2 w st)
  obtain scope vals now r where w: "w = ((scope, vals), now, r)" by (metis surj_pair)
  show ?case using 2 putBlob_refused [of r st scope vals T now]
    by (simp add: w put_call_def put_key_def put_granted_def stale_resp_def json_resp_def)
qed

section \<open>The abstract store\<close>

text \<open>A store of versioned values with conditional writes, and what its calls answer.\<close>

type_synonym 'v vstore = "string \<Rightarrow> (int \<times> 'v) option"

datatype 'v cas_call = CasPut string string 'v | CasGet string | CasDelete string string
  | CasRewrap string string 'v | CasMalformed

datatype 'v cas_outcome = Stored int | Found int 'v | Missing | Stale int | Deleted | Rewrapped int | Malformed

fun cas_exec :: "'v cas_call \<Rightarrow> 'v vstore \<Rightarrow> 'v cas_outcome \<times> 'v vstore" where
  "cas_exec (CasPut k m v) S =
     (if admits m (S k) then (Stored (next_version (S k)), S(k \<mapsto> (next_version (S k), v)))
      else (Stale (next_version (S k) - 1), S))"
| "cas_exec (CasGet k) S = (case S k of None \<Rightarrow> (Missing, S) | Some (n, v) \<Rightarrow> (Found n v, S))"
| "cas_exec (CasDelete k m) S =
     (if admits m (S k) then (Deleted, S(k := None)) else (Stale (next_version (S k) - 1), S))"
| "cas_exec (CasRewrap k m v) S =
     (case S k of
        None \<Rightarrow> (Stale 0, S)
      | Some (n, _) \<Rightarrow> if m = itoa n then (Rewrapped (n + 1), S(k \<mapsto> (n + 1, v))) else (Stale n, S))"
| "cas_exec CasMalformed S = (Malformed, S)"

section \<open>Blob requests to the stub\<close>

datatype blob_call =
    CallPut string "string list" gtime http_request
  | CallGet string "string list"
  | CallDelete string "string list" gtime http_request
  | CallRewrap http_request

fun stub_call :: "(nat \<Rightarrow> stub_cp \<Rightarrow> stub_cp) \<Rightarrow> time_lib \<Rightarrow> blob_call \<Rightarrow> stub_cp \<Rightarrow> http_response \<times> stub_cp" where
  "stub_call H T (CallPut scope vals now r) st = stub_putBlob T scope vals now r st"
| "stub_call H T (CallGet scope vals) st = (stub_getBlob T scope vals st, st)"
| "stub_call H T (CallDelete scope vals now r) st = stub_delBlob H T scope vals now r st"
| "stub_call H T (CallRewrap r) st = stub_rewrap r st"

text \<open>What a request asks of the store.\<close>

fun abs_call :: "blob_call \<Rightarrow> (bytes \<times> string) cas_call" where
  "abs_call (CallPut scope vals now r) = CasPut (blobKey scope (extractID scope vals)) (req_pre r) (req_val r)"
| "abs_call (CallGet scope vals) = CasGet (blobKey scope (extractID scope vals))"
| "abs_call (CallDelete scope vals now r) = CasDelete (blobKey scope (extractID scope vals)) (req_pre r)"
| "abs_call (CallRewrap r) =
     (case decode_first dec_rewrap (rq_Body r) of
        None \<Rightarrow> CasMalformed
      | Some (req, _) \<Rightarrow>
          (case std_decode (rf_CiphertextB64 req) of
             None \<Rightarrow> CasMalformed
           | Some ct \<Rightarrow> CasRewrap (blobKey (rf_Scope req) (if rf_Scope req = ''profile'' then ''profile'' else rf_ID req))
                          (rf_IfMatch req) (ct, rf_KeyID req)))"

text \<open>How the HTTP answer shows an outcome of the store.\<close>

fun answers :: "(bytes \<times> string) cas_outcome \<Rightarrow> http_response \<Rightarrow> bool" where
  "answers (Stored n) resp \<longleftrightarrow> rs_Status resp = 200 \<and> header_get (rs_Header resp) ''ETag'' = formatETag n"
| "answers (Found n v) resp \<longleftrightarrow> rs_Status resp = 200 \<and> header_get (rs_Header resp) ''ETag'' = formatETag n
     \<and> rs_Body resp = fst v \<and> header_get (rs_Header resp) ''X-Key-Id'' = snd v"
| "answers Missing resp \<longleftrightarrow> resp = status_resp 404"
| "answers (Stale n) resp \<longleftrightarrow> resp = stale_resp n"
| "answers Deleted resp \<longleftrightarrow> rs_Status resp = 200"
| "answers (Rewrapped n) resp \<longleftrightarrow> (\<exists>kid. resp = json_resp 200 [] (json_map
     [(''ok'', JBool True), (''etag'', JStr (formatETag n)), (''key_id'', JStr kid)]))"
| "answers Malformed resp \<longleftrightarrow> resp = status_resp 400"

lemma getBlob_found:
  assumes "stub_rows st (blobKey scope (extractID scope vals)) = Some (n, v)"
  shows "answers (Found n v) (stub_getBlob T scope vals st)"
proof -
  obtain b where b: "map_of (st_blobs st) (blobKey scope (extractID scope vals)) = Some b"
    "n = sb_ETag b" "v = (sb_Body b, sb_KeyID b)"
    using assms by (auto simp: stub_rows_def)
  show ?thesis by (cases "sb_ProjectID b"; cases "sb_ActivityAt b";
      simp add: b stub_getBlob_def Let_def header_get_set del: header_set.simps; simp)
qed

lemma getBlob_missing:
  "stub_rows st (blobKey scope (extractID scope vals)) = None \<Longrightarrow> stub_getBlob T scope vals st = status_resp 404"
  by (simp add: stub_rows_def stub_getBlob_def)

lemma del_locked_admitted:
  assumes "admits (req_pre r) (stub_rows st (blobKey scope bid))"
  shows "rs_Status (fst (del_locked T scope bid now r st)) = 200
    \<and> stub_rows (snd (del_locked T scope bid now r st)) = (stub_rows st)(blobKey scope bid := None)"
  using assms by (simp add: del_locked_def Let_def stale_for_admits req_pre_def json_resp_def stub_rows_def fun_eq_iff)

lemma del_locked_refused:
  assumes "\<not> admits (req_pre r) (stub_rows st (blobKey scope bid))"
  shows "del_locked T scope bid now r st = (stale_resp (next_version (stub_rows st (blobKey scope bid)) - 1), st)"
  using assms by (simp add: del_locked_def Let_def stale_for_admits [symmetric] req_pre_def stale_version)

lemma delBlob_no_hook:
  "st_onFirstDelete st = [] \<Longrightarrow> stub_delBlob H T scope vals now r st = del_locked T scope (extractID scope vals) now r st"
  by (simp add: stub_delBlob_def fire_hook_def Let_def)

text \<open>One request is one call of the store.\<close>

lemma stub_call_refines:
  assumes "st_onFirstDelete st = []"
  shows "answers (fst (cas_exec (abs_call c) (stub_rows st))) (fst (stub_call H T c st))
    \<and> stub_rows (snd (stub_call H T c st)) = snd (cas_exec (abs_call c) (stub_rows st))"
proof (cases c)
  case (CallPut scope vals now r)
  then show ?thesis using putBlob_admitted [of r st scope vals T now] putBlob_refused [of r st scope vals T now]
    by (simp add: formatETag_def)
next
  case (CallGet scope vals)
  then show ?thesis using getBlob_found [of st scope vals _ _ T] getBlob_missing [of st scope vals T]
    by (auto split: option.split)
next
  case (CallDelete scope vals now r)
  then show ?thesis using del_locked_admitted [of r st scope "extractID scope vals" T now]
      del_locked_refused [of r st scope "extractID scope vals" T now] delBlob_no_hook [OF assms, of H T scope vals now r]
    by simp
next
  case (CallRewrap r)
  have zero: "formatETag 0 = ''0''" by (simp add: formatETag_def itoa_def digits.simps byte_of_48)
  show ?thesis
    by (auto simp: CallRewrap stub_rewrap_def Let_def stub_rows_def formatETag_def [symmetric] stale_resp_def zero
        fun_eq_iff split: option.split)
qed

lemma stub_call_hooks: "st_onFirstDelete st = [] \<Longrightarrow> st_onFirstDelete (snd (stub_call H T c st)) = []"
  by (cases c) (auto simp: stub_putBlob_def delBlob_no_hook del_locked_def stub_rewrap_def Let_def
      split: option.split)

section \<open>Properties\<close>

lemma run_refines:
  assumes "st_onFirstDelete st = []"
  shows "list_all2 answers (fst (run_all cas_exec (map abs_call cs) (stub_rows st))) (fst (run_all (stub_call H T) cs st))
    \<and> stub_rows (snd (run_all (stub_call H T) cs st)) = snd (run_all cas_exec (map abs_call cs) (stub_rows st))"
  using assms
proof (induction cs arbitrary: st)
  case (Cons c cs)
  let ?st = "snd (stub_call H T c st)"
  have "stub_rows ?st = snd (cas_exec (abs_call c) (stub_rows st))"
    "answers (fst (cas_exec (abs_call c) (stub_rows st))) (fst (stub_call H T c st))"
    using stub_call_refines [OF Cons.prems] by blast+
  with Cons.IH [OF stub_call_hooks [OF Cons.prems, of H T c]] show ?case by (simp add: case_prod_beta)
qed simp

text \<open>
  C30. The blob endpoints of the local controlplane implement a store of versioned values with
  conditional writes: every sequence of PUT, GET, DELETE and rewrap requests, well-formed or not,
  is answered as the abstract store answers it (stored version, found value, missing, stale with
  the current version, deleted, malformed) and leaves the rows the abstract store has.
\<close>

theorem stub_refines_cas:
  assumes "st_onFirstDelete st = []"
  shows "list_all2 answers (fst (run_all cas_exec (map abs_call cs) (stub_rows st))) (fst (run_all (stub_call H T) cs st))
    \<and> stub_rows (snd (run_all (stub_call H T) cs st)) = snd (run_all cas_exec (map abs_call cs) (stub_rows st))"
  by (rule run_refines [OF assms])

lemma small_itoa: "itoa 1 = ''1''" "itoa 2 = ''2''"
  by code_simp+

definition example_put :: "string \<Rightarrow> string \<Rightarrow> http_request" where
  "example_put ifMatch body = \<lparr> rq_Method = ''PUT'', rq_URL = ''/api/sync/blob/chat/c1'',
     rq_Header = [(''If-Match'', ifMatch), (''X-Key-Id'', ''k1'')], rq_Body = body \<rparr>"

definition no_times :: time_lib where
  "no_times = \<lparr> tm_parse = (\<lambda>_. None), tm_format = (\<lambda>_. []) \<rparr>"

lemma example_put_simps [simp]:
  "req_pre (example_put m b) = m" "req_val (example_put m b) = (b, ''k1'')"
  by (simp_all add: example_put_def req_pre_def req_val_def equal_fold_ascii_def lower_num_def)

lemma new_rows [simp]: "stub_rows NewStubCP k = None" "st_onFirstDelete NewStubCP = []"
  by (simp_all add: stub_rows_def NewStubCP_def)

theorem stub_refines_cas_witness:
  "list_all2 answers [Stored 1, Stale 1, Found 1 (''one'', ''k1'')]
     (fst (run_all (stub_call (\<lambda>_ st. st) no_times)
        [CallPut ''chat'' [''c1''] 0 (example_put ''*'' ''one''), CallPut ''chat'' [''c1''] 1 (example_put ''7'' ''two''),
         CallGet ''chat'' [''c1'']] NewStubCP))"
proof -
  from stub_refines_cas [OF new_rows(2), of "[CallPut ''chat'' [''c1''] 0 (example_put ''*'' ''one''),
      CallPut ''chat'' [''c1''] 1 (example_put ''7'' ''two''), CallGet ''chat'' [''c1'']]" "\<lambda>_ st. st" no_times]
  show ?thesis by (simp add: small_itoa)
qed

text \<open>
  No update is lost: when several clients write one row on the strength of the same version,
  in whatever order their requests arrive, the first write is stored under the next version and
  every other one is refused and changes nothing.
\<close>

theorem first_writer_wins:
  assumes "stub_rows st k = Some (n, v)" "0 \<le> n"
    and "\<forall>w \<in> set (w1 # ws). put_key w = k \<and> req_pre (snd (snd w)) = formatETag n"
  shows "map put_granted (fst (run_all (put_call T) (w1 # ws) st))
      = Some (formatETag (n + 1)) # replicate (length ws) None
    \<and> stub_rows (snd (run_all (put_call T) (w1 # ws) st)) = (stub_rows st)(k \<mapsto> (n + 1, req_val (snd (snd w1))))"
  unfolding formatETag_def by (rule put.one_winner [OF assms(1,2) assms(3) [unfolded formatETag_def]])

theorem first_writer_wins_witness:
  "map put_granted (fst (run_all (put_call no_times)
     [((''chat'', [''c1'']), 5, example_put ''1'' ''two''), ((''chat'', [''c1'']), 6, example_put ''1'' ''three'')]
     (SetBlob 0 ''chat'' ''c1'' ''k1'' ''one'' NewStubCP))) = [Some ''2'', None]"
proof -
  have "stub_rows (SetBlob 0 ''chat'' ''c1'' ''k1'' ''one'' NewStubCP) ''chat/c1'' = Some (1, ''one'', ''k1'')"
    by (simp add: stub_rows_def SetBlob_def NewStubCP_def blobKey_def next_etag_def Let_def)
  from first_writer_wins [OF this, of "((''chat'', [''c1'']), 5, example_put ''1'' ''two'')"
      "[((''chat'', [''c1'']), 6, example_put ''1'' ''three'')]" no_times]
  show ?thesis by (simp add: put_key_def blobKey_def extractID_def formatETag_def small_itoa)
qed

text \<open>
  A version is granted at most once: along any sequence of PUT requests to any rows, the ETags
  granted on one row are the consecutive numbers after its version at the start, and the version at
  the end is the start plus the number of grants.
\<close>

theorem granted_versions:
  "grants put_key put_granted k ws (fst (run_all (put_call T) ws st))
     = map (\<lambda>i. formatETag (version (stub_rows st k) + int i + 1))
         [0..<length (grants put_key put_granted k ws (fst (run_all (put_call T) ws st)))]
   \<and> version (stub_rows (snd (run_all (put_call T) ws st)) k)
     = version (stub_rows st k) + int (length (grants put_key put_granted k ws (fst (run_all (put_call T) ws st))))"
  unfolding formatETag_def by (rule put.version_counts)

end
