(* ===== verification/Stub_Log.thy ===== *)
theory Stub_Log
  imports Stub_Store
begin

text \<open>
  The local controlplane as a state machine over its HTTP handlers: the invariant of its revision
  log, what a client that replays the log obtains, and the fence of the search publication.
\<close>

section \<open>The state machine\<close>

text \<open>
  One step is one handler with the mutex held. A delete is two steps, since its hook runs with the
  mutex released: taking the hook, and the delete proper. Handlers that only read are no steps.
\<close>

definition blob_scopes :: "string list" where
  "blob_scopes = [''chat'', ''profile'', ''project'', ''project_document'']"

inductive stub_step :: "time_lib \<Rightarrow> stub_cp \<Rightarrow> stub_cp \<Rightarrow> bool" for T where
  put: "scope \<in> set blob_scopes \<Longrightarrow> stub_step T st (snd (stub_putBlob T scope vals now r st))"
| take_hook: "stub_step T st (st\<lparr>st_onFirstDelete := al_del k (st_onFirstDelete st)\<rparr>)"
| delete: "scope \<in> set blob_scopes \<Longrightarrow> stub_step T st (snd (del_locked T scope bid now r st))"
| delete_projects: "stub_step T st (snd (stub_deleteAllProjects now st))"
| backfill: "stub_step T st (snd (stub_backfillChatActivity T r st))"
| publish: "stub_step T st (snd (stub_publishSearchIndex r st))"
| rewrap: "stub_step T st (snd (stub_rewrap r st))"
| register_attachment: "stub_step T st (snd (stub_registerAttachmentIndex aid r st))"
| reserve: "stub_step T st (snd (stub_reservePendingAttachment aid now r st))"
| sweep: "stub_step T st (snd (stub_sweepPendingAttachments q now st))"
| drop_attachment: "stub_step T st (snd (stub_deleteAttachmentIndex aid st))"
| register_key: "stub_step T st (snd (stub_registerKey now r st))"
| add_bundle: "stub_step T st (snd (stub_addBundle kid r st))"
| remove_bundle: "stub_step T st (snd (stub_removeBundle kid cid st))"

inductive stub_steps :: "time_lib \<Rightarrow> stub_cp \<Rightarrow> stub_cp \<Rightarrow> bool" for T where
  none: "stub_steps T st st"
| more: "stub_steps T st st' \<Longrightarrow> stub_step T st' st'' \<Longrightarrow> stub_steps T st st''"

abbreviation stub_reachable :: "time_lib \<Rightarrow> stub_cp \<Rightarrow> bool" where
  "stub_reachable T \<equiv> stub_steps T NewStubCP"

lemma stub_steps_trans:
  assumes "stub_steps T a b" "stub_steps T b c"
  shows "stub_steps T a c"
  using assms(2,1) by induction (auto intro: stub_steps.more)

text \<open>A delete with its hook is a run of steps when what the hook does is.\<close>

lemma delBlob_steps:
  assumes "scope \<in> set blob_scopes" "\<And>fn st. stub_steps T st (H fn st)"
  shows "stub_steps T st (snd (stub_delBlob H T scope vals now r st))"
proof -
  have "stub_steps T st (fire_hook H (blobKey scope (extractID scope vals)) st)"
    unfolding fire_hook_def
    by (auto split: option.split intro: stub_steps.none
        stub_steps_trans [OF stub_steps.more [OF stub_steps.none stub_step.take_hook] assms(2)])
  then show ?thesis
    unfolding stub_delBlob_def Let_def by (rule stub_steps.more) (rule stub_step.delete [OF assms(1)])
qed

section \<open>The revision log\<close>

text \<open>The chats that have a row, and the set a client gets by applying events to a set of chats.\<close>

definition chat_ids :: "stub_cp \<Rightarrow> string set" where
  "chat_ids st = {bid. blobKey ''chat'' bid \<in> fst ` set (st_blobs st)}"

fun replay :: "revision_event list \<Rightarrow> string set \<Rightarrow> string set" where
  "replay [] S = S"
| "replay (e # es) S = replay es (if re_Kind e = ''upsert'' then insert (re_ID e) S else S - {re_ID e})"

lemma replay_append [simp]: "replay (a @ b) S = replay b (replay a S)"
  by (induction a S rule: replay.induct) simp_all

text \<open>
  The log covers exactly the revisions after the oldest replayable one, in order and without gaps,
  and applying it to no chats at all gives the chats there are.
\<close>

definition log_inv :: "stub_cp \<Rightarrow> bool" where
  "log_inv st \<longleftrightarrow> 0 \<le> st_oldestReplayableRevision st
     \<and> st_oldestReplayableRevision st \<le> st_sourceRev st
     \<and> map re_Revision (st_revisions st) = map formatETag [st_oldestReplayableRevision st + 1..st_sourceRev st]
     \<and> replay (st_revisions st) {} = chat_ids st"

text \<open>What a step may do to the part of the state the log describes.\<close>

definition quiet :: "stub_cp \<Rightarrow> stub_cp \<Rightarrow> bool" where
  "quiet st st' \<longleftrightarrow> st_oldestReplayableRevision st' = st_oldestReplayableRevision st
     \<and> st_sourceRev st' = st_sourceRev st \<and> st_revisions st' = st_revisions st \<and> chat_ids st' = chat_ids st"

definition logged_event :: "revision_event \<Rightarrow> stub_cp \<Rightarrow> stub_cp \<Rightarrow> bool" where
  "logged_event e st st' \<longleftrightarrow> st_oldestReplayableRevision st' = st_oldestReplayableRevision st
     \<and> st_sourceRev st' = st_sourceRev st + 1 \<and> st_revisions st' = st_revisions st @ [e]
     \<and> re_Revision e = formatETag (st_sourceRev st + 1) \<and> chat_ids st' = replay [e] (chat_ids st)"

definition log_cut :: "stub_cp \<Rightarrow> stub_cp \<Rightarrow> bool" where
  "log_cut st st' \<longleftrightarrow> (\<exists>n. 0 \<le> n \<and> (n = 0 \<longleftrightarrow> chat_ids st = {}) \<and> st_sourceRev st' = st_sourceRev st + n)
     \<and> st_oldestReplayableRevision st' = st_sourceRev st' \<and> st_revisions st' = [] \<and> chat_ids st' = {}"

lemma quiet_refl [simp]: "quiet st st"
  by (simp add: quiet_def)

text \<open>Keys of different scopes differ.\<close>

lemma chat_key_iff:
  assumes "scope \<in> set blob_scopes"
  shows "blobKey ''chat'' a = blobKey scope b \<longleftrightarrow> scope = ''chat'' \<and> a = b"
  using assms by (auto simp: blob_scopes_def blobKey_def)

lemma chat_ids_set:
  assumes "scope \<in> set blob_scopes" "st_blobs st' = al_set (blobKey scope bid) b (st_blobs st)"
  shows "chat_ids st' = (if scope = ''chat'' then insert bid (chat_ids st) else chat_ids st)"
  using assms by (auto simp: chat_ids_def chat_key_iff)

lemma chat_ids_del:
  assumes "scope \<in> set blob_scopes" "st_blobs st' = al_del (blobKey scope bid) (st_blobs st)"
  shows "chat_ids st' = (if scope = ''chat'' then chat_ids st - {bid} else chat_ids st)"
  using assms by (auto simp: chat_ids_def chat_key_iff)

lemma chat_ids_cong: "fst ` set (st_blobs st') = fst ` set (st_blobs st) \<Longrightarrow> chat_ids st' = chat_ids st"
  by (simp add: chat_ids_def)

lemma key_present: "map_of m k = Some v \<Longrightarrow> insert k (fst ` set m) = fst ` set m"
  by (metis fst_conv image_eqI insert_absorb map_of_SomeD)

lemma putBlob_effect:
  assumes "scope \<in> set blob_scopes" "st' = snd (stub_putBlob T scope vals now r st)"
  shows "quiet st st' \<or> (\<exists>e. logged_event e st st')"
proof (cases "stale_for (header_get (rq_Header r) ''If-Match'') (map_of (st_blobs st) (blobKey scope (extractID scope vals)))")
  case True
  then show ?thesis using assms(2) by (simp add: stub_putBlob_def Let_def)
next
  case False
  let ?bid = "extractID scope vals"
  have ids: "chat_ids st' = (if scope = ''chat'' then insert ?bid (chat_ids st) else chat_ids st)"
    by (rule chat_ids_set [OF assms(1),
          where b = "put_row T scope now r (map_of (st_blobs st) (blobKey scope ?bid))"])
      (use False assms(2) in \<open>simp add: stub_putBlob_def Let_def\<close>)
  show ?thesis
  proof (cases "scope = ''chat''")
    case True
    let ?e = "upsert_event T now (st_sourceRev st + 1) ?bid
      (put_row T scope now r (map_of (st_blobs st) (blobKey scope ?bid)))"
    have "logged_event ?e st st'"
      using False assms(2) ids True
      by (simp add: logged_event_def stub_putBlob_def Let_def upsert_event_def)
    then show ?thesis by blast
  next
    case scope: False
    then show ?thesis using False assms(2) ids by (simp add: quiet_def stub_putBlob_def Let_def)
  qed
qed

lemma del_locked_effect:
  assumes "scope \<in> set blob_scopes" "st' = snd (del_locked T scope bid now r st)"
  shows "quiet st st' \<or> (\<exists>e. logged_event e st st')"
proof (cases "stale_for (header_get (rq_Header r) ''If-Match'') (map_of (st_blobs st) (blobKey scope bid))")
  case True
  then show ?thesis using assms(2) by (simp add: del_locked_def Let_def)
next
  case False
  have ids: "chat_ids st' = (if scope = ''chat'' then chat_ids st - {bid} else chat_ids st)"
    by (rule chat_ids_del [OF assms(1)]) (use False assms(2) in \<open>simp add: del_locked_def Let_def\<close>)
  show ?thesis
  proof (cases "scope = ''chat'' \<and> map_of (st_blobs st) (blobKey scope bid) \<noteq> None")
    case True
    then obtain b where b: "scope = ''chat''" "map_of (st_blobs st) (blobKey ''chat'' bid) = Some b" by blast
    have "logged_event (delete_event T now (st_sourceRev st + 1) bid) st st'"
      using False assms(2) ids b
      by (simp add: logged_event_def del_locked_def Let_def delete_event_def)
    then show ?thesis by blast
  next
    case absent: False
    then have "scope = ''chat'' \<Longrightarrow> bid \<notin> chat_ids st"
      by (auto simp: chat_ids_def dom_map_of_conv_image_fst [symmetric])
    then show ?thesis using False absent assms(2) ids
      by (cases "scope = ''chat''") (simp_all add: quiet_def del_locked_def Let_def)
  qed
qed

lemma deleteAllProjects_quiet: "quiet st (snd (stub_deleteAllProjects now st))"
proof -
  have "\<not> is_project_key (blobKey ''chat'' a)" for a by (simp add: is_project_key_def blobKey_def)
  then show ?thesis
    by (force simp: quiet_def stub_deleteAllProjects_def Let_def chat_ids_def)
qed

lemma update_quiet:
  assumes "map_of (st_blobs st) k = Some b"
  shows "quiet st (st\<lparr>st_blobs := al_set k b' (st_blobs st)\<rparr>)"
proof -
  have "fst ` set (al_set k b' (st_blobs st)) = fst ` set (st_blobs st)" using key_present [OF assms] by simp
  then show ?thesis unfolding quiet_def by (simp add: chat_ids_def)
qed

lemma other_quiet:
  "st_blobs st' = st_blobs st \<Longrightarrow> st_revisions st' = st_revisions st \<Longrightarrow> st_sourceRev st' = st_sourceRev st \<Longrightarrow>
   st_oldestReplayableRevision st' = st_oldestReplayableRevision st \<Longrightarrow> quiet st st'"
  by (simp add: quiet_def chat_ids_def)

lemma backfill_quiet: "quiet st (snd (stub_backfillChatActivity T r st))"
  by (auto simp: stub_backfillChatActivity_def split: option.split intro: update_quiet)

lemma rewrap_quiet: "quiet st (snd (stub_rewrap r st))"
  by (auto simp: stub_rewrap_def Let_def split: option.split intro: update_quiet)

lemma registry_quiet:
  "quiet st (st\<lparr>st_onFirstDelete := hs\<rparr>)"
  "quiet st (snd (stub_publishSearchIndex r st))" "quiet st (snd (stub_registerAttachmentIndex aid r st))"
  "quiet st (snd (stub_reservePendingAttachment aid now r st))" "quiet st (snd (stub_sweepPendingAttachments q now st))"
  "quiet st (snd (stub_deleteAttachmentIndex aid st))" "quiet st (snd (stub_addBundle kid r st))"
  "quiet st (snd (stub_removeBundle kid cid st))"
  by (rule other_quiet; simp add: stub_publishSearchIndex_def published_def stub_registerAttachmentIndex_def
      stub_reservePendingAttachment_def stub_sweepPendingAttachments_def stub_deleteAttachmentIndex_def
      stub_addBundle_def put_bundle_def stub_removeBundle_def Let_def split: option.split)+

lemma chat_prefix_iff: "has_prefix k ''chat/'' \<longleftrightarrow> (\<exists>a. k = blobKey ''chat'' a)"
  by (auto simp: has_prefix_iff blobKey_def)

lemma wipe_cut: "log_cut st (wipe now st)"
proof -
  let ?n = "int (length (filter (\<lambda>(k, _). has_prefix k ''chat/'') (st_blobs st)))"
  have "?n = 0 \<longleftrightarrow> chat_ids st = {}"
    by (force simp: filter_empty_conv chat_ids_def chat_prefix_iff)
  then show ?thesis
    unfolding log_cut_def by (intro conjI exI [of _ ?n]) (simp_all add: wipe_def Let_def chat_ids_def)
qed

lemma register_accepted_log:
  assumes "st' = snd (register_accepted now kid fresh bundle st)"
  shows "st_blobs st' = st_blobs (if fresh then wipe now st else st)"
    "st_sourceRev st' = st_sourceRev (if fresh then wipe now st else st)"
    "st_revisions st' = st_revisions (if fresh then wipe now st else st)"
    "st_oldestReplayableRevision st' = st_oldestReplayableRevision (if fresh then wipe now st else st)"
  by (simp_all add: assms register_accepted_def Let_def put_bundle_def split: option.split)

lemma registerKey_effect: "quiet st (snd (stub_registerKey now r st)) \<or> log_cut st (snd (stub_registerKey now r st))"
proof -
  have "quiet st (snd (register_accepted now kid fresh b st)) \<or> log_cut st (snd (register_accepted now kid fresh b st))"
    for kid fresh b
    using wipe_cut [of st now] register_accepted_log [OF refl, of now kid fresh b st]
    by (cases fresh) (simp_all add: log_cut_def quiet_def chat_ids_def)
  then show ?thesis by (auto simp: stub_registerKey_def Let_def case_prod_beta split: option.split)
qed

lemma step_effect:
  assumes "stub_step T st st'"
  shows "quiet st st' \<or> (\<exists>e. logged_event e st st') \<or> log_cut st st'"
  using assms
proof (cases rule: stub_step.cases)
  case put then show ?thesis using putBlob_effect by blast
next
  case delete then show ?thesis using del_locked_effect by blast
next
  case register_key then show ?thesis using registerKey_effect by blast
qed (simp_all add: registry_quiet deleteAllProjects_quiet backfill_quiet rewrap_quiet)

lemma upto_snoc: "i \<le> j + 1 \<Longrightarrow> [i..j + 1] = [i..j] @ [j + 1]" for i j :: int
  by (rule upto_rec2 [of i "j + 1", simplified])

lemma log_inv_step:
  assumes "log_inv st" "stub_step T st st'"
  shows "log_inv st'"
  using step_effect [OF assms(2)] assms(1)
  by (auto simp: log_inv_def quiet_def logged_event_def log_cut_def upto_snoc)

lemma log_inv_steps: "stub_steps T st st' \<Longrightarrow> log_inv st \<Longrightarrow> log_inv st'"
  by (induction rule: stub_steps.induct) (auto intro: log_inv_step)

lemma log_inv_new: "log_inv NewStubCP"
  by (simp add: log_inv_def NewStubCP_def chat_ids_def)

lemma log_inv_reachable: "stub_reachable T st \<Longrightarrow> log_inv st"
  using log_inv_steps log_inv_new by blast

section \<open>Events of a range\<close>

definition rev_num :: "revision_event \<Rightarrow> int" where
  "rev_num e = (case parse_int64 (re_Revision e) of None \<Rightarrow> 0 | Some n \<Rightarrow> n)"

lemma events_between_filter:
  "events_between a b st = filter (\<lambda>e. a < rev_num e \<and> rev_num e \<le> b) (st_revisions st)"
  by (simp add: events_between_def rev_num_def Let_def)

lemma rev_nums:
  assumes "log_inv st" "st_sourceRev st < 2 ^ 63"
  shows "map rev_num (st_revisions st) = [st_oldestReplayableRevision st + 1..st_sourceRev st]"
proof -
  let ?p = "\<lambda>s. case parse_int64 s of None \<Rightarrow> 0 | Some n \<Rightarrow> n"
  let ?is = "[st_oldestReplayableRevision st + 1..st_sourceRev st]"
  have "map rev_num (st_revisions st) = map ?p (map re_Revision (st_revisions st))"
    by (simp add: rev_num_def comp_def)
  also have "\<dots> = map ?p (map formatETag ?is)" using assms(1) by (simp only: log_inv_def)
  also have "\<dots> = ?is"
    unfolding map_map by (rule map_idI) (use assms in \<open>auto simp: log_inv_def formatETag_def parse_int64_itoa\<close>)
  finally show ?thesis .
qed

lemma filter_upto_take:
  "map f xs = [i..j] \<Longrightarrow> a < i \<Longrightarrow> filter (\<lambda>x. a < f x \<and> f x \<le> b) xs = take (nat (b + 1 - i)) xs" for i :: int
proof (induction xs arbitrary: i)
  case (Cons x xs)
  then have i: "f x = i" "map f xs = [i + 1..j]" by (auto simp: upto.simps [of i j] split: if_splits)
  have IH: "filter (\<lambda>x. a < f x \<and> f x \<le> b) xs = take (nat (b - i)) xs"
    using Cons.IH [OF i(2)] Cons.prems(2) by simp
  show ?case
  proof (cases "i \<le> b")
    case True
    then have "nat (b + 1 - i) = Suc (nat (b - i))" by simp
    then show ?thesis using True IH Cons.prems(2) i(1) by simp
  next
    case False
    then show ?thesis using IH i(1) by simp
  qed
qed simp

lemma filter_upto:
  "map f xs = [i..j] \<Longrightarrow> i \<le> a + 1 \<Longrightarrow>
   filter (\<lambda>x. a < f x \<and> f x \<le> b) xs = take (nat (b - a)) (drop (nat (a + 1 - i)) xs)" for i :: int
proof (induction xs arbitrary: i)
  case (Cons x xs)
  then have i: "f x = i" "map f xs = [i + 1..j]" by (auto simp: upto.simps [of i j] split: if_splits)
  show ?case
  proof (cases "i = a + 1")
    case True
    then show ?thesis using filter_upto_take [OF Cons.prems(1), of a b] by simp
  next
    case False
    then have "nat (a + 1 - i) = Suc (nat (a - i))" "i + 1 \<le> a + 1" "\<not> a < i" using Cons.prems(2) by auto
    then show ?thesis using Cons.IH [OF i(2)] i(1) by simp
  qed
qed simp

lemma events_suffix:
  assumes "log_inv st" "st_sourceRev st < 2 ^ 63" "st_oldestReplayableRevision st \<le> a" "a \<le> st_sourceRev st"
  shows "events_between a (st_sourceRev st) st = drop (nat (a - st_oldestReplayableRevision st)) (st_revisions st)"
proof -
  have "length (st_revisions st) = nat (st_sourceRev st - st_oldestReplayableRevision st)"
    using arg_cong [OF rev_nums [OF assms(1,2)], of length] by simp
  then show ?thesis
    using filter_upto [OF rev_nums [OF assms(1,2)], of a "st_sourceRev st"] assms(3,4)
    by (simp add: events_between_filter)
qed

section \<open>A snapshot and the events after it\<close>

text \<open>What has been logged since an earlier state, as long as the log has not been cut after it.\<close>

definition since :: "stub_cp \<Rightarrow> stub_cp \<Rightarrow> bool" where
  "since st st' \<longleftrightarrow> st_sourceRev st \<le> st_sourceRev st'
     \<and> (st_oldestReplayableRevision st' \<le> st_sourceRev st \<longrightarrow>
          replay (drop (nat (st_sourceRev st - st_oldestReplayableRevision st')) (st_revisions st')) (chat_ids st)
            = chat_ids st')"

lemma log_length: "log_inv st \<Longrightarrow> length (st_revisions st) = nat (st_sourceRev st - st_oldestReplayableRevision st)"
  unfolding log_inv_def by (metis (no_types, lifting) add.commute add_diff_cancel_left' diff_add_eq length_map length_upto
      uminus_add_conv_diff diff_diff_eq2 group_cancel.sub1)

lemma since_step:
  assumes "since st st'" "log_inv st'" "stub_step T st' st''"
  shows "since st st''"
proof -
  note len = log_length [OF assms(2)]
  consider "quiet st' st''" | e where "logged_event e st' st''" | "log_cut st' st''"
    using step_effect [OF assms(3)] by blast
  then show ?thesis
  proof cases
    case 2
    have "nat (st_sourceRev st - st_oldestReplayableRevision st')
        - nat (st_sourceRev st' - st_oldestReplayableRevision st') = 0"
      using assms(1) by (simp add: since_def nat_mono)
    then show ?thesis using 2 assms(1) len by (simp add: since_def logged_event_def)
  next
    case 3
    then obtain n where n: "0 \<le> n" "n = 0 \<longleftrightarrow> chat_ids st' = {}" "st_sourceRev st'' = st_sourceRev st' + n"
      by (auto simp: log_cut_def)
    have "st_oldestReplayableRevision st'' \<le> st_sourceRev st \<Longrightarrow> chat_ids st = {}"
      using 3 n assms(1,2) len by (simp add: log_cut_def since_def log_inv_def)
    then show ?thesis using 3 n assms(1) by (simp add: since_def log_cut_def)
  qed (use assms(1) in \<open>simp add: since_def quiet_def\<close>)
qed

lemma since_steps: "stub_steps T st st' \<Longrightarrow> log_inv st \<Longrightarrow> since st st'"
proof (induction rule: stub_steps.induct)
  case (none st)
  then show ?case using log_length [OF none] by (simp add: since_def)
next
  case (more st st' st'')
  then show ?case using since_step log_inv_steps by blast
qed

section \<open>Paging through events\<close>

text \<open>
  A client that asks for the pages of a range one after the other, from the cursor each answer
  carries until there is none: the pages in order, or \<open>None\<close> when a cursor cannot be read or the
  fuel is used up.
\<close>

fun event_walk :: "nat \<Rightarrow> int \<Rightarrow> int \<Rightarrow> revision_event list \<Rightarrow> revision_event list list option" where
  "event_walk 0 limit offset evs = None"
| "event_walk (Suc f) limit offset evs =
     (case event_page offset limit evs of
        (page, next_cursor) \<Rightarrow>
          if next_cursor = [] then Some [page]
          else case parse_int64 next_cursor of
                 None \<Rightarrow> None
               | Some n \<Rightarrow> map_option (\<lambda>ps. page # ps) (event_walk f limit n evs))"

lemma event_walk_all:
  assumes "0 < limit" "int (length evs) < 2 ^ 63"
  shows "offset \<le> length evs \<Longrightarrow> length evs - offset < fuel \<Longrightarrow>
    \<exists>ps. event_walk fuel limit (int offset) evs = Some ps \<and> concat ps = drop offset evs
      \<and> (\<forall>p \<in> set ps. int (length p) \<le> limit)"
proof (induction fuel arbitrary: offset)
  case (Suc f)
  let ?l = "nat limit"
  show ?case
  proof (cases "offset + ?l < length evs")
    case True
    then have lt: "int offset + limit < int (length evs)" using assms(1) by linarith
    then have page: "event_page (int offset) limit evs = (take ?l (drop offset evs), itoa (int (offset + ?l)))"
      using assms(1) by (simp add: event_page_def Let_def nat_add_distrib)
    obtain ps where ps: "event_walk f limit (int (offset + ?l)) evs = Some ps" "concat ps = drop (offset + ?l) evs"
      "\<forall>p \<in> set ps. int (length p) \<le> limit"
    proof -
      have "0 < ?l" using assms(1) by simp
      then have "length evs - (offset + ?l) < f" using Suc.prems(2) True by linarith
      then show ?thesis using Suc.IH [of "offset + ?l"] True that by auto
    qed
    have "parse_int64 (itoa (int (offset + ?l))) = Some (int (offset + ?l))"
      using True assms(2) by (intro parse_int64_itoa) linarith+
    moreover have "take ?l (drop offset evs) @ drop (offset + ?l) evs = drop offset evs"
      by (metis append_take_drop_id drop_drop add.commute)
    ultimately show ?thesis using page ps assms(1) by simp
  next
    case False
    then have "int (length evs) \<le> int offset + limit" using assms(1) by linarith
    then have "event_page (int offset) limit evs = (drop offset evs, [])"
      using assms(1) Suc.prems(1) by (simp add: event_page_def Let_def min_def)
    then show ?thesis using False assms(1) by auto
  qed
qed simp

section \<open>Properties of the log\<close>

text \<open>
  C37. In every reachable state of the controlplane the revision log is an exact account of the
  chats: it holds the revisions after the oldest replayable one up to the current one, each once,
  in order and without gaps, and applying it from the beginning to no chats gives exactly the chats
  that have a row.
\<close>

theorem revision_log_exact:
  assumes "stub_reachable T st"
  shows "map re_Revision (st_revisions st) = map formatETag [st_oldestReplayableRevision st + 1..st_sourceRev st]
    \<and> 0 \<le> st_oldestReplayableRevision st \<and> st_oldestReplayableRevision st \<le> st_sourceRev st
    \<and> replay (st_revisions st) {} = chat_ids st"
  using log_inv_reachable [OF assms] by (simp add: log_inv_def)

definition one_chat :: stub_cp where
  "one_chat = snd (stub_putBlob no_times ''chat'' [''c1''] 5 (example_put ''*'' ''one'') NewStubCP)"

definition no_chat :: stub_cp where
  "no_chat = snd (del_locked no_times ''chat'' ''c1'' 6 (example_put ''1'' []) one_chat)"

lemma one_chat_reachable: "stub_reachable no_times one_chat"
  unfolding one_chat_def
  by (rule stub_steps.more [OF stub_steps.none stub_step.put]) (simp add: blob_scopes_def)

lemma no_chat_steps: "stub_steps no_times one_chat no_chat"
  unfolding no_chat_def
  by (rule stub_steps.more [OF stub_steps.none stub_step.delete]) (simp add: blob_scopes_def)

lemma example_put_header: "header_get (rq_Header (example_put m b)) ''If-Match'' = m"
  using example_put_simps(1) [of m b] by (simp only: req_pre_def)

lemma one_chat_simps:
  "st_sourceRev one_chat = 1" "st_oldestReplayableRevision one_chat = 0" "chat_ids one_chat = {''c1''}"
  "\<exists>b. st_blobs one_chat = [(''chat/c1'', b)] \<and> sb_ETag b = 1"
  by (auto simp: one_chat_def stub_putBlob_def Let_def NewStubCP_def stale_for_def blobKey_def extractID_def
      chat_ids_def next_etag_def)

lemma no_chat_simps:
  "st_sourceRev no_chat = 2" "st_oldestReplayableRevision no_chat = 0" "chat_ids no_chat = {}"
proof -
  obtain b where b: "st_blobs one_chat = [(''chat/c1'', b)]" "sb_ETag b = 1" using one_chat_simps(4) by blast
  show "st_sourceRev no_chat = 2" "st_oldestReplayableRevision no_chat = 0" "chat_ids no_chat = {}"
    using b one_chat_simps
    by (simp_all add: no_chat_def del_locked_def Let_def stale_for_def blobKey_def example_put_header formatETag_def
        small_itoa al_del_def chat_ids_def)
qed

theorem revision_log_exact_witness: "map re_Revision (st_revisions one_chat) = [''1'']"
  using revision_log_exact [OF one_chat_reachable]
  by (simp add: one_chat_simps formatETag_def small_itoa)



section \<open>The publication slot of the search index\<close>

definition generation :: "stub_cp \<Rightarrow> int" where
  "generation st = sis_PublicationGeneration (st_search st)"

text \<open>A step leaves the slot alone or raises its generation by one.\<close>

lemma registerKey_search:
  "st_search (snd (stub_registerKey now r st)) = st_search st
   \<or> st_search (snd (stub_registerKey now r st)) = zero_search\<lparr>sis_PublicationGeneration := generation st + 1,
        sis_FenceGeneration := sis_FenceGeneration (st_search st) + 1, sis_PublicationIncomplete := True\<rparr>"
proof -
  have "st_search (snd (register_accepted now kid fresh b st)) = st_search st
   \<or> st_search (snd (register_accepted now kid fresh b st)) = zero_search\<lparr>sis_PublicationGeneration := generation st + 1,
        sis_FenceGeneration := sis_FenceGeneration (st_search st) + 1, sis_PublicationIncomplete := True\<rparr>"
    for kid fresh b
    by (simp add: register_accepted_def generation_def Let_def put_bundle_def wipe_def split: option.split)
  then show ?thesis by (auto simp: stub_registerKey_def Let_def case_prod_beta split: option.split)
qed

lemma search_step:
  assumes "stub_step T st st'"
  shows "st_search st' = st_search st \<or> generation st' = generation st + 1"
  using assms
proof (cases rule: stub_step.cases)
  case (register_key now r)
  then show ?thesis using registerKey_search [of now r st] by (auto simp: generation_def)
next
  case (publish r)
  then show ?thesis
    by (auto simp: stub_publishSearchIndex_def published_def generation_def split: option.split)
qed (auto simp: stub_putBlob_def del_locked_def stub_deleteAllProjects_def stub_backfillChatActivity_def
      stub_rewrap_def stub_registerAttachmentIndex_def stub_reservePendingAttachment_def
      stub_sweepPendingAttachments_def stub_deleteAttachmentIndex_def stub_addBundle_def put_bundle_def
      stub_removeBundle_def Let_def split: option.split)

lemma search_steps:
  "stub_steps T st st' \<Longrightarrow> generation st \<le> generation st' \<and> (generation st' = generation st \<longrightarrow> st_search st' = st_search st)"
proof (induction rule: stub_steps.induct)
  case (more st st' st'')
  then show ?case using search_step [OF more(2)] by (auto simp: generation_def)
qed simp

text \<open>The slot never claims to cover more than there is.\<close>

definition slot_inv :: "stub_cp \<Rightarrow> bool" where
  "slot_inv st \<longleftrightarrow> sis_PublishedSourceRevision (st_search st) \<le> st_sourceRev st
     \<and> sis_FenceGeneration (st_search st) \<le> generation st"

lemma source_step: "stub_step T st st' \<Longrightarrow> st_sourceRev st \<le> st_sourceRev st'"
  using step_effect [of T st st'] by (auto simp: quiet_def logged_event_def log_cut_def)

lemma slot_inv_step:
  assumes "slot_inv st" "0 \<le> st_sourceRev st" "stub_step T st st'"
  shows "slot_inv st'"
proof (cases "st_search st' = st_search st")
  case True
  then show ?thesis using source_step [OF assms(3)] assms(1) by (simp add: slot_inv_def generation_def)
next
  case False
  from assms(3) show ?thesis
  proof (cases rule: stub_step.cases)
    case (register_key now r)
    then have "st_search st' = zero_search\<lparr>sis_PublicationGeneration := generation st + 1,
        sis_FenceGeneration := sis_FenceGeneration (st_search st) + 1, sis_PublicationIncomplete := True\<rparr>"
      using registerKey_search [of now r st] False by auto
    then show ?thesis using source_step [OF assms(3)] assms(1,2)
      by (simp add: slot_inv_def generation_def zero_search_def)
  next
    case (publish r)
    then show ?thesis using False assms(1)
      by (auto simp: stub_publishSearchIndex_def published_def publish_conflict_def currentSearchIndex_def Let_def
          slot_inv_def generation_def split: option.splits if_splits)
  qed (use False in \<open>auto simp: stub_putBlob_def del_locked_def stub_deleteAllProjects_def
      stub_backfillChatActivity_def stub_rewrap_def stub_registerAttachmentIndex_def
      stub_reservePendingAttachment_def stub_sweepPendingAttachments_def stub_deleteAttachmentIndex_def
      stub_addBundle_def put_bundle_def stub_removeBundle_def Let_def split: option.splits if_splits\<close>)
qed

lemma slot_inv_reachable:
  assumes "stub_reachable T st"
  shows "slot_inv st"
  using assms
proof (induction NewStubCP st rule: stub_steps.induct)
  case none
  then show ?case by (simp add: slot_inv_def generation_def NewStubCP_def zero_search_def)
next
  case (more st' st'')
  then have "0 \<le> st_sourceRev st'" using log_inv_reachable [of T st'] by (simp add: log_inv_def)
  then show ?case using more slot_inv_step by blast
qed

lemma publish_200:
  assumes "rs_Status (fst (stub_publishSearchIndex r st)) = 200"
  obtains req rest where "decode_first dec_publish (rq_Body r) = Some (req, rest)" "\<not> publish_conflict req st"
    "snd (stub_publishSearchIndex r st) = published req st"
  using assms by (auto simp: stub_publishSearchIndex_def json_resp_def status_resp_def split: option.splits if_splits)


definition example_publish :: http_request where
  "example_publish = \<lparr> rq_Method = ''PUT'', rq_URL = ''/api/sync/search-index'', rq_Header = [],
     rq_Body = json_encode (JObj [(''covered_source_revision'', JNum (itoa 1)), (''object_key'', JStr ''o1'')]) \<rparr>"

lemma decode_first_encode:
  "json_ok 10000 j \<Longrightarrow> decode_first dec (json_encode j) = map_option (\<lambda>x. (x, [])) (Option.bind (struct_members j) dec)"
  using json_first_encode [of j "[]"] by (auto simp: decode_first_def follows_def split: option.split)

lemma num_itoa [simp]: "0 \<le> i \<Longrightarrow> num_start (itoa i) \<and> num_ok (itoa i)"
  using json_ok_itoa [of i 0] by simp

lemma example_publish_dec: "decode_first dec_publish (rq_Body example_publish) = Some
    (\<lparr> pf_ExpectedGeneration = 0, pf_ExpectedFence = 0, pf_CoveredSourceRevision = 1, pf_ObjectKey = ''o1'',
       pf_KeyID = [], pf_Model = [], pf_Incomplete = False \<rparr>, [])"
proof -
  have "parse_int64 (itoa 1) = Some 1" by (simp add: parse_int64_itoa)
  then show ?thesis
    by (simp add: example_publish_def decode_first_encode is_ascii_def struct_members_def dec_publish_def
        field_values_def del: json_encode.simps)
qed


end
