(* ===== verification/Stub_Pages.thy ===== *)
theory Stub_Pages
  imports Stub_Log "HOL-Library.Multiset"
begin

text \<open>
  The listing of the local controlplane: its rows have pairwise different positions in every
  reachable state, its cursors round-trip, and following them visits every row exactly once.
\<close>

section \<open>Rows and tombstones\<close>

text \<open>No key is listed twice, none is live and deleted at once, and every key has a scope part.\<close>

definition rows_inv :: "stub_cp \<Rightarrow> bool" where
  "rows_inv st \<longleftrightarrow> distinct (map fst (st_blobs st)) \<and> distinct (map fst (st_deletes st))
     \<and> fst ` set (st_blobs st) \<inter> fst ` set (st_deletes st) = {}
     \<and> (\<forall>k \<in> fst ` set (st_blobs st) \<union> fst ` set (st_deletes st). CHR ''/'' \<in> set k)"

lemma slash_in_key [simp]: "CHR ''/'' \<in> set (blobKey scope bid)"
  by (simp add: blobKey_def)

lemma rows_inv_cong:
  "map fst (st_blobs st') = map fst (st_blobs st) \<Longrightarrow> map fst (st_deletes st') = map fst (st_deletes st) \<Longrightarrow>
   rows_inv st \<Longrightarrow> rows_inv st'"
  unfolding rows_inv_def set_map [symmetric] by simp

lemma rows_inv_put:
  assumes "rows_inv st" "st_blobs st' = al_set k b (st_blobs st)" "st_deletes st' = al_del k (st_deletes st)"
    "CHR ''/'' \<in> set k"
  shows "rows_inv st'"
  using assms by (auto simp: rows_inv_def)

lemma rows_inv_del:
  assumes "rows_inv st" "st_blobs st' = al_del k (st_blobs st)" "st_deletes st' = al_set k d (st_deletes st)"
    "CHR ''/'' \<in> set k"
  shows "rows_inv st'"
  using assms by (auto simp: rows_inv_def)

lemma tombstones_keys:
  "fst ` set (tombstones now dropped ds) = fst ` set dropped \<union> fst ` set ds
   \<and> (distinct (map fst ds) \<longrightarrow> distinct (map fst (tombstones now dropped ds)))"
proof (induction dropped arbitrary: ds)
  case (Cons kb dropped)
  obtain k b where kb: "kb = (k, b)" by (cases kb)
  show ?case using Cons [of "al_set k \<lparr> sd_deletedAt = now, sd_projectID = sb_ProjectID b \<rparr> ds"]
    by (auto simp: tombstones_def kb)
qed (simp add: tombstones_def)

lemma fst_filter: "fst ` set (filter (\<lambda>(k, _). P k) m) = {k \<in> fst ` set m. P k}"
  by force

lemma rows_inv_drop:
  assumes "rows_inv st" "st_blobs st' = filter (\<lambda>(k, _). \<not> P k) (st_blobs st)"
    "st_deletes st' = tombstones now (filter (\<lambda>(k, _). P k) (st_blobs st)) (st_deletes st)"
  shows "rows_inv st'"
proof -
  let ?d = "filter (\<lambda>(k, _). P k) (st_blobs st)"
  have keys: "fst ` set (st_deletes st') = {k \<in> fst ` set (st_blobs st). P k} \<union> fst ` set (st_deletes st)"
    and dist: "distinct (map fst (st_deletes st'))"
    using tombstones_keys [of now ?d "st_deletes st"] assms(1,3) by (simp_all add: rows_inv_def fst_filter del: set_filter)
  have blobs: "fst ` set (st_blobs st') = {k \<in> fst ` set (st_blobs st). \<not> P k}"
    and dist': "distinct (map fst (st_blobs st'))"
    using assms(1) by (simp_all add: assms(2) fst_filter rows_inv_def distinct_map_filter del: set_filter)
  show ?thesis using assms(1) dist dist' unfolding rows_inv_def keys blobs by blast
qed

lemma rows_inv_update:
  assumes "rows_inv st" "map_of (st_blobs st) k = Some b"
    "st_blobs st' = al_set k b' (st_blobs st)" "st_deletes st' = st_deletes st"
  shows "rows_inv st'"
  using assms key_present [OF assms(2)] by (simp add: rows_inv_def)

lemma rows_inv_register: "rows_inv st \<Longrightarrow> rows_inv (snd (register_accepted now kid fresh b st))"
proof -
  assume inv: "rows_inv st"
  let ?st = "snd (register_accepted now kid fresh b st)"
  have "st_blobs ?st = (if fresh then [] else st_blobs st)"
    "st_deletes ?st = (if fresh then tombstones now (st_blobs st) (st_deletes st) else st_deletes st)"
    by (simp_all add: register_accepted_def wipe_def Let_def put_bundle_def split: option.split)
  then show ?thesis using rows_inv_drop [OF inv, of ?st "\<lambda>_. True" now] rows_inv_cong [of ?st st] inv
    by (cases fresh) (simp_all add: case_prod_beta)
qed

lemma rows_inv_step:
  assumes "rows_inv st" "stub_step T st st'"
  shows "rows_inv st'"
  using assms(2)
proof (cases rule: stub_step.cases)
  case (put scope vals now r)
  let ?k = "blobKey scope (extractID scope vals)"
  show ?thesis
  proof (cases "stale_for (header_get (rq_Header r) ''If-Match'') (map_of (st_blobs st) ?k)")
    case False
    have "st_blobs st' = al_set ?k (put_row T scope now r (map_of (st_blobs st) ?k)) (st_blobs st)"
      "st_deletes st' = al_del ?k (st_deletes st)"
      using False put by (simp_all add: stub_putBlob_def Let_def)
    then show ?thesis using rows_inv_put [OF assms(1)] by simp
  qed (use put assms(1) in \<open>simp add: stub_putBlob_def Let_def\<close>)
next
  case (delete scope bid now r)
  let ?k = "blobKey scope bid"
  show ?thesis
  proof (cases "stale_for (header_get (rq_Header r) ''If-Match'') (map_of (st_blobs st) ?k)")
    case False
    have "st_blobs st' = al_del ?k (st_blobs st)" "\<exists>d. st_deletes st' = al_set ?k d (st_deletes st)"
      using False delete by (auto simp: del_locked_def Let_def)
    then show ?thesis using rows_inv_del [OF assms(1)] slash_in_key by blast
  qed (use delete assms(1) in \<open>simp add: del_locked_def Let_def\<close>)
next
  case (delete_projects now)
  show ?thesis
    by (rule rows_inv_drop [OF assms(1), of _ is_project_key now])
      (simp_all add: delete_projects stub_deleteAllProjects_def Let_def)
next
  case (backfill r)
  then show ?thesis using assms(1)
    by (auto simp: stub_backfillChatActivity_def split: option.split elim: rows_inv_update)
next
  case (rewrap r)
  then show ?thesis using assms(1)
    by (auto simp: stub_rewrap_def Let_def split: option.split elim: rows_inv_update)
next
  case (register_key now r)
  then show ?thesis using assms(1) rows_inv_register
    by (auto simp: stub_registerKey_def Let_def case_prod_beta split: option.split)
qed (rule rows_inv_cong [OF _ _ assms(1)]; simp add: stub_publishSearchIndex_def published_def
      stub_registerAttachmentIndex_def stub_reservePendingAttachment_def stub_sweepPendingAttachments_def
      stub_deleteAttachmentIndex_def stub_addBundle_def put_bundle_def stub_removeBundle_def Let_def
      split: option.split)+

lemma rows_inv_reachable: "stub_reachable T st \<Longrightarrow> rows_inv st"
proof (induction NewStubCP st rule: stub_steps.induct)
  case none
  then show ?case by (simp add: rows_inv_def NewStubCP_def)
qed (rule rows_inv_step)

section \<open>Positions\<close>

lemma cut_slash:
  assumes "CHR ''/'' \<in> set k" "fst (key_parts k) = s" "snd (key_parts k) = i"
  shows "k = s @ ''/'' @ i"
proof -
  have "CHR ''/'' \<in> set k" by (rule assms(1))
  then obtain p r where k: "k = p @ CHR ''/'' # r" "CHR ''/'' \<notin> set p" using split_list_first [of "CHR ''/''" k] by blast
  have "key_parts k = (p, r)" using cut_found [OF k(2), of r] by (simp add: key_parts_def k(1))
  then show ?thesis using assms(2,3) k(1) by simp
qed

lemma row_simps [simp]:
  "lr_id (update_row scope desc kb) = snd (key_parts (fst kb))" "lr_id (delete_row scope kd) = snd (key_parts (fst kd))"
  by (simp_all add: update_row_def delete_row_def Let_def)

lemma scope_keys_inj:
  "inj_on (\<lambda>k. snd (key_parts k)) {k. CHR ''/'' \<in> set k \<and> fst (key_parts k) = scope}"
proof (rule inj_onI)
  fix a b
  assume k: "a \<in> {k. CHR ''/'' \<in> set k \<and> fst (key_parts k) = scope}"
    "b \<in> {k. CHR ''/'' \<in> set k \<and> fst (key_parts k) = scope}"
    and eq: "snd (key_parts a) = snd (key_parts b)"
  have "a = scope @ ''/'' @ snd (key_parts b)" by (rule cut_slash) (use k(1) eq in \<open>simp_all only: mem_Collect_eq\<close>)
  moreover have "b = scope @ ''/'' @ snd (key_parts b)" by (rule cut_slash) (use k(2) in \<open>simp_all only: mem_Collect_eq\<close>)
  ultimately show "a = b" by (rule trans [OF _ sym])
qed

lemma disjoint_sub: "A \<subseteq> B \<Longrightarrow> C \<subseteq> D \<Longrightarrow> B \<inter> D = {} \<Longrightarrow> A \<inter> C = {}"
  by blast

lemma list_rows_ids:
  assumes "rows_inv st"
  shows "distinct (map lr_id (list_rows scope projectID desc st))"
proof -
  let ?us = "filter (\<lambda>(k, b). fst (key_parts k) = scope \<and> project_match projectID (sb_ProjectID b)) (st_blobs st)"
  let ?ds = "filter (\<lambda>(k, d). fst (key_parts k) = scope \<and> project_match projectID (sd_projectID d)) (st_deletes st)"
  let ?ks = "map fst ?us @ map fst ?ds"
  have "distinct (map fst ?us)" "distinct (map fst ?ds)" using assms by (simp_all add: rows_inv_def distinct_map_filter)
  moreover have sub: "set (map fst ?us) \<subseteq> fst ` set (st_blobs st)" "set (map fst ?ds) \<subseteq> fst ` set (st_deletes st)"
    by auto
  moreover have inv: "fst ` set (st_blobs st) \<inter> fst ` set (st_deletes st) = {}"
    "\<And>k. k \<in> fst ` set (st_blobs st) \<union> fst ` set (st_deletes st) \<Longrightarrow> CHR ''/'' \<in> set k"
    using assms by (simp_all only: rows_inv_def)
  moreover have "set (map fst ?us) \<inter> set (map fst ?ds) = {}" by (rule disjoint_sub [OF sub inv(1)])
  moreover have "set ?ks \<subseteq> {k. fst (key_parts k) = scope}" by auto
  moreover have "set ?ks \<subseteq> {k. CHR ''/'' \<in> set k}"
    using Un_mono [OF sub] inv(2) by (intro subsetI CollectI) (simp only: set_append subset_iff)
  moreover note inj_on_subset [OF scope_keys_inj, of "set ?ks" scope]
  ultimately have "distinct (map (\<lambda>k. snd (key_parts k)) ?ks)"
    by (simp only: distinct_map distinct_append set_append Collect_conj_eq le_inf_iff)
  moreover have "map lr_id (list_rows scope projectID desc st) = map (\<lambda>k. snd (key_parts k)) ?ks"
    by (simp add: list_rows_def)
  ultimately show ?thesis by simp
qed

section \<open>Order\<close>

definition before :: "bool \<Rightarrow> gtime \<times> string \<Rightarrow> gtime \<times> string \<Rightarrow> bool" where
  "before desc p q = (if desc then q < p else p < q)"

lemma at_or_before_iff: "at_or_before desc c r \<longleftrightarrow> row_pos r = c \<or> before desc (row_pos r) c"
  by (simp add: at_or_before_def before_def)

lemma ordered_rows_mset: "mset (ordered_rows scope projectID desc st) = mset (list_rows scope projectID desc st)"
  by (simp add: ordered_rows_def Let_def)

lemma distinct_ids: "distinct (map lr_id (list_rows scope projectID desc st)) \<Longrightarrow>
    distinct (map lr_id (ordered_rows scope projectID desc st))"
  using ordered_rows_mset [of scope projectID desc st] by (metis mset_eq_imp_distinct_iff mset_map)

lemma ordered_rows_sorted:
  assumes "rows_inv st"
  shows "sorted_wrt (before desc) (map row_pos (ordered_rows scope projectID desc st))"
proof -
  let ?rows = "sort_key row_pos (list_rows scope projectID desc st)"
  have "distinct (map lr_id ?rows)"
    using list_rows_ids [OF assms, of scope projectID desc] by (metis mset_eq_imp_distinct_iff mset_map mset_sort)
  then have "distinct (map snd (map row_pos ?rows))" by (simp add: row_pos_def comp_def)
  then have "distinct (map row_pos ?rows)" by (simp only: distinct_map)
  then have "sorted_wrt (<) (map row_pos ?rows)" by (simp add: strict_sorted_iff)
  then show ?thesis by (cases desc) (simp_all add: ordered_rows_def Let_def before_def [abs_def] sorted_wrt_rev rev_map [symmetric])
qed

lemma dropWhile_none: "(\<And>x. x \<in> set ys \<Longrightarrow> \<not> P x) \<Longrightarrow> dropWhile P ys = ys"
  by (cases ys) simp_all

lemma rows_after_nth:
  assumes "sorted_wrt (before desc) (map row_pos rows)" "i < length rows"
  shows "rows_after desc (Some (row_pos (rows ! i))) rows = drop (Suc i) rows"
proof -
  let ?P = "at_or_before desc (row_pos (rows ! i))"
  have lt: "before desc (row_pos (rows ! j)) (row_pos (rows ! k))" if "j < k" "k < length rows" for j k
    using sorted_wrt_nth_less [OF assms(1), of j k] that by simp
  have "?P x" if x: "x \<in> set (take (Suc i) rows)" for x
  proof -
    obtain j where "j \<le> i" "x = rows ! j" using x by (auto simp: in_set_conv_nth less_Suc_eq_le)
    then show ?thesis using lt [of j i] assms(2) by (cases "j = i") (auto simp: at_or_before_iff)
  qed
  moreover have "\<not> ?P x" if x: "x \<in> set (drop (Suc i) rows)" for x
  proof -
    obtain n where n: "n < length rows - Suc i" "x = drop (Suc i) rows ! n" using x by (auto simp: in_set_conv_nth)
    then have "before desc (row_pos (rows ! i)) (row_pos x)" using lt [of i "Suc i + n"] by simp
    then show ?thesis by (auto simp: at_or_before_iff before_def split: if_splits)
  qed
  ultimately have "dropWhile ?P (take (Suc i) rows @ drop (Suc i) rows) = drop (Suc i) rows"
    using dropWhile_none [of "drop (Suc i) rows" ?P] dropWhile_append2 [of "take (Suc i) rows" ?P] by metis
  then show ?thesis by (simp add: rows_after_def)
qed

section \<open>Cursors\<close>

text \<open>
  What the cursors rely on of \<^verbatim>\<open>time\<close>: formatting with nanoseconds and parsing give the same instant
  for the years 1 to 9999, which RFC 3339 can write.
\<close>

definition representable :: "gtime \<Rightarrow> bool" where
  "representable t \<longleftrightarrow> zero_time \<le> t \<and> t < 253402300800 * 1000000000"

definition time_ok :: "time_lib \<Rightarrow> bool" where
  "time_ok T \<longleftrightarrow> (\<forall>t. representable t \<longrightarrow>
     tm_parse T (tm_format T t) = Some t \<and> is_ascii (tm_format T t) \<and> tm_format T t \<noteq> [])"

definition listable :: "list_row \<Rightarrow> bool" where
  "listable r \<longleftrightarrow> representable (lr_ts r) \<and> is_ascii (lr_id r) \<and> lr_id r \<noteq> []"

lemma unmarshal_encode:
  "json_ok 10000 j \<Longrightarrow> unmarshal dec (json_encode j) = Option.bind (struct_members j) dec"
  by (simp add: unmarshal_def json_parse_encode)

lemma cursor_roundtrip:
  assumes "time_ok T" "representable (fst p)" "is_ascii (snd p)" "snd p \<noteq> []"
  shows "decodeListStatusCursor T (encodeListStatusCursor T p) = Some p"
proof -
  have "json_ok 10000 (JObj [(''updated_at'', JStr (tm_format T (fst p))), (''id'', JStr (snd p))])"
    using assms by (simp add: time_ok_def) (simp add: is_ascii_def)
  then show ?thesis using assms
    by (simp add: decodeListStatusCursor_def encodeListStatusCursor_def unmarshal_encode struct_members_def
        field_values_def time_ok_def del: json_encode.simps)
qed

section \<open>Following the cursors\<close>

fun list_walk ::
  "nat \<Rightarrow> time_lib \<Rightarrow> string \<Rightarrow> string \<Rightarrow> bool \<Rightarrow> nat \<Rightarrow> stub_cp \<Rightarrow> (gtime \<times> string) option \<Rightarrow> list_row list list option" where
  "list_walk 0 T scope projectID desc limit st c = None"
| "list_walk (Suc f) T scope projectID desc limit st c =
     (case list_page T scope projectID desc c limit st of
        (page, next_cursor) \<Rightarrow>
          if next_cursor = [] then Some [page]
          else case decodeListStatusCursor T next_cursor of
                 None \<Rightarrow> None
               | Some p \<Rightarrow> map_option (\<lambda>ps. page # ps) (list_walk f T scope projectID desc limit st (Some p)))"

lemma list_walk_all:
  assumes "time_ok T" "sorted_wrt (before desc) (map row_pos (ordered_rows scope projectID desc st))"
    and "\<And>r. r \<in> set (ordered_rows scope projectID desc st) \<Longrightarrow> listable r"
    and "0 < limit"
  defines "rows \<equiv> ordered_rows scope projectID desc st"
  shows "rows_after desc c rows = drop i rows \<Longrightarrow> length rows - i < fuel \<Longrightarrow>
    \<exists>ps. list_walk fuel T scope projectID desc limit st c = Some ps \<and> concat ps = drop i rows
      \<and> (\<forall>p \<in> set ps. length p \<le> limit)"
proof (induction fuel arbitrary: c i)
  case (Suc f)
  show ?case
  proof (cases "limit < length rows - i")
    case False
    then have "list_page T scope projectID desc c limit st = (drop i rows, [])"
      using Suc.prems(1) by (simp add: list_page_def Let_def rows_def [symmetric])
    then show ?thesis using False by simp
  next
    case True
    let ?r = "rows ! (i + limit - 1)"
    have r: "?r \<in> set rows" "drop i rows ! (limit - 1) = ?r" using True assms(4) by auto
    have page: "list_page T scope projectID desc c limit st
        = (take limit (drop i rows), encodeListStatusCursor T (row_pos ?r))"
      using Suc.prems(1) True r(2) by (simp add: list_page_def Let_def rows_def [symmetric])
    have "listable ?r" using assms(3) r(1) by (simp add: rows_def)
    then have dec: "decodeListStatusCursor T (encodeListStatusCursor T (row_pos ?r)) = Some (row_pos ?r)"
      using cursor_roundtrip [OF assms(1), of "row_pos ?r"] by (simp add: row_pos_def listable_def)
    have "rows_after desc (Some (row_pos ?r)) rows = drop (i + limit) rows"
      using rows_after_nth [OF assms(2), of "i + limit - 1"] True assms(4) by (simp add: rows_def)
    moreover have "length rows - (i + limit) < f" using Suc.prems(2) True assms(4) by linarith
    ultimately obtain ps where ps: "list_walk f T scope projectID desc limit st (Some (row_pos ?r)) = Some ps"
      "concat ps = drop (i + limit) rows" "\<forall>p \<in> set ps. length p \<le> limit"
      using Suc.IH by blast
    have "take limit (drop i rows) @ drop (i + limit) rows = drop i rows"
      by (metis append_take_drop_id drop_drop add.commute)
    moreover have "encodeListStatusCursor T p \<noteq> []" for p by (simp add: encodeListStatusCursor_def)
    ultimately show ?thesis using page dec ps by simp
  qed
qed simp

text \<open>
  C40. Listing is complete: in every reachable state of the controlplane, a client that follows the
  cursors of the listing in either direction, with any page size, terminates and receives every
  live row and every tombstone of the scope exactly once, in strictly ascending or descending order
  of time and id.
\<close>

theorem listing_complete:
  assumes "stub_reachable T' st" "time_ok T" "0 < limit"
    and "\<forall>r \<in> set (list_rows scope projectID desc st). listable r"
    and "length (list_rows scope projectID desc st) < fuel"
  shows "\<exists>pages. list_walk fuel T scope projectID desc limit st None = Some pages
    \<and> mset (concat pages) = mset (list_rows scope projectID desc st)
    \<and> distinct (map lr_id (concat pages))
    \<and> sorted_wrt (if desc then (>) else (<)) (map row_pos (concat pages))
    \<and> (\<forall>p \<in> set pages. length p \<le> limit)"
proof -
  note inv = rows_inv_reachable [OF assms(1)]
  let ?rows = "ordered_rows scope projectID desc st"
  have sorted: "sorted_wrt (before desc) (map row_pos ?rows)" by (rule ordered_rows_sorted [OF inv])
  have len: "length ?rows - 0 < fuel" and ids: "\<And>r. r \<in> set ?rows \<Longrightarrow> listable r"
    using assms(4,5) ordered_rows_mset [of scope projectID desc st]
    by (metis minus_nat.diff_0 size_mset, metis set_mset_mset)
  have start: "rows_after desc None ?rows = drop 0 ?rows" by (simp add: rows_after_def)
  have "before desc = (if desc then (>) else (<))" by (simp add: fun_eq_iff before_def)
  then show ?thesis
    using list_walk_all [OF assms(2) sorted ids assms(3) start len] sorted ordered_rows_mset
      distinct_ids [OF list_rows_ids [OF inv]] by auto
qed

definition counted_times :: time_lib where
  "counted_times = \<lparr> tm_parse = (\<lambda>s. Some (int (digits_val s) + zero_time)),
     tm_format = (\<lambda>t. digits (nat (t - zero_time))) \<rparr>"

lemma counted_times_ok: "time_ok counted_times"
  by (simp add: time_ok_def counted_times_def representable_def is_ascii_digits)

definition example_put2 :: http_request where
  "example_put2 = example_put ''*'' ''two''"

definition two_chats :: stub_cp where
  "two_chats = snd (stub_putBlob no_times ''chat'' [''c2''] 7 example_put2 one_chat)"

lemma two_chats_reachable: "stub_reachable no_times two_chats"
  unfolding two_chats_def
  by (rule stub_steps.more [OF one_chat_reachable stub_step.put]) (simp add: blob_scopes_def)

lemma two_chats_rows: "\<exists>a b. list_rows ''chat'' [] True two_chats = [a, b] \<and> lr_id a = ''c1'' \<and> lr_id b = ''c2''
    \<and> lr_ts a = 5 \<and> lr_ts b = 7"
  by (simp add: two_chats_def one_chat_def stub_putBlob_def NewStubCP_def stale_for_def blobKey_def extractID_def
      list_rows_def update_row_def key_parts_def project_match_def listOrderTime_def put_row_def no_times_def
      al_del_def Let_def example_put2_def example_put_def equal_fold_ascii_def header_defs)

theorem listing_complete_witness:
  "\<exists>pages. list_walk 3 counted_times ''chat'' [] True 1 two_chats None = Some pages
     \<and> mset (map lr_id (concat pages)) = {# ''c1'', ''c2'' #}"
proof -
  obtain a b where ab: "list_rows ''chat'' [] True two_chats = [a, b]" "lr_id a = ''c1''" "lr_id b = ''c2''"
    "lr_ts a = 5" "lr_ts b = 7" using two_chats_rows by blast
  have ok: "\<forall>r \<in> set (list_rows ''chat'' [] True two_chats). listable r" "length (list_rows ''chat'' [] True two_chats) < 3"
    by (simp_all add: ab listable_def representable_def zero_time_def is_ascii_def)
  from listing_complete [OF two_chats_reachable counted_times_ok, of 1, OF _ ok] ab
  show ?thesis by auto
qed

end
