(* ===== verification/Stub_Net.thy ===== *)
theory Stub_Net
  imports Stub_Pages Server_Ops
begin

text \<open>
  The local controlplane as the network of the enclave: its routes (\<^verbatim>\<open>NewStubCP\<close>), the check of
  the service credential (\<^verbatim>\<open>ServeHTTP\<close>), and a world in which every request of the client of
  \<^verbatim>\<open>controlplane/client.go\<close> reaches it. The theorems compose both ends: what a client call sends
  is routed to the handler it means, and what the handler answers decodes to what it stored.

  The routes of the bucket store are left out, they act on the state of another component. The
  transport carries header values unchanged and follows no redirect.
\<close>

section \<open>Routes\<close>

datatype segment = Lit string | Wild

datatype endpoint =
    EpPutBlob string | EpGetBlob string | EpDelBlob string | EpDeleteAllProjects | EpChatActivity
  | EpListStatus | EpBackupInventory | EpRevisionSummary | EpRevisionEvents | EpRevisionSnapshot
  | EpGetSearchIndex | EpPublishSearchIndex | EpNeedsMigration | EpMigrationFailure | EpRewrap
  | EpRegisterKey | EpCurrentKey | EpAddBundle | EpRemoveBundle | EpGetLegacyAttachment
  | EpRegisterAttachmentIndex | EpDeleteAttachmentIndex | EpAttachmentOwner | EpReservePending
  | EpSweepPending

definition blob_paths :: "(segment list \<times> string) list" where
  "blob_paths =
     [([Lit ''api'', Lit ''sync'', Lit ''blob'', Lit ''chat'', Wild], ''chat''),
      ([Lit ''api'', Lit ''sync'', Lit ''blob'', Lit ''profile''], ''profile''),
      ([Lit ''api'', Lit ''sync'', Lit ''blob'', Lit ''project'', Wild], ''project''),
      ([Lit ''api'', Lit ''sync'', Lit ''blob'', Lit ''project_document'', Wild, Wild], ''project_document'')]"

text \<open>
  The patterns with their methods. Where two patterns match a request the mux takes the more
  specific one, which the table lists first.
\<close>

definition stub_routes :: "(string \<times> segment list \<times> endpoint) list" where
  "stub_routes =
     map (\<lambda>(p, s). (''PUT'', p, EpPutBlob s)) blob_paths
   @ map (\<lambda>(p, s). (''GET'', p, EpGetBlob s)) blob_paths
   @ map (\<lambda>(p, s). (''DELETE'', p, EpDelBlob s)) blob_paths
   @ map (\<lambda>(m, name, e). (m, [Lit ''api'', Lit ''sync'', Lit name], e))
      [(''POST'', ''chat-activity'', EpChatActivity), (''GET'', ''list-status'', EpListStatus),
       (''GET'', ''backup-inventory'', EpBackupInventory), (''GET'', ''revision-summary'', EpRevisionSummary),
       (''GET'', ''revision-events'', EpRevisionEvents), (''GET'', ''revision-snapshot'', EpRevisionSnapshot),
       (''GET'', ''search-index'', EpGetSearchIndex), (''PUT'', ''search-index'', EpPublishSearchIndex),
       (''GET'', ''needs-migration'', EpNeedsMigration), (''POST'', ''migration-failure'', EpMigrationFailure),
       (''POST'', ''rewrap'', EpRewrap), (''POST'', ''keys'', EpRegisterKey)]
   @ [(''DELETE'', [Lit ''api'', Lit ''sync'', Lit ''blob'', Lit ''projects''], EpDeleteAllProjects),
      (''GET'', [Lit ''api'', Lit ''sync'', Lit ''keys'', Lit ''current''], EpCurrentKey),
      (''POST'', [Lit ''api'', Lit ''sync'', Lit ''keys'', Wild, Lit ''bundles''], EpAddBundle),
      (''DELETE'', [Lit ''api'', Lit ''sync'', Lit ''keys'', Wild, Lit ''bundles'', Wild], EpRemoveBundle),
      (''GET'', [Lit ''api'', Lit ''storage'', Lit ''attachment'', Wild], EpGetLegacyAttachment),
      (''POST'', [Lit ''api'', Lit ''sync'', Lit ''attachment-index'', Wild], EpRegisterAttachmentIndex),
      (''DELETE'', [Lit ''api'', Lit ''sync'', Lit ''attachment-index'', Wild], EpDeleteAttachmentIndex),
      (''GET'', [Lit ''api'', Lit ''sync'', Lit ''attachment-owner'', Wild], EpAttachmentOwner),
      (''POST'', [Lit ''api'', Lit ''sync'', Lit ''pending-attachments'', Lit ''sweep''], EpSweepPending),
      (''POST'', [Lit ''api'', Lit ''sync'', Lit ''pending-attachments'', Wild], EpReservePending)]"

text \<open>A wildcard takes one non-empty segment; the values of the wildcards in order.\<close>

fun match_segments :: "segment list \<Rightarrow> string list \<Rightarrow> string list option" where
  "match_segments [] [] = Some []"
| "match_segments (Lit l # ps) (s # ss) = (if s = l then match_segments ps ss else None)"
| "match_segments (Wild # ps) (s # ss) = (if s = [] then None else map_option (\<lambda>vs. s # vs) (match_segments ps ss))"
| "match_segments _ _ = None"

text \<open>A GET pattern also serves HEAD.\<close>

definition method_matches :: "string \<Rightarrow> string \<Rightarrow> bool" where
  "method_matches pattern m = (m = pattern \<or> pattern = ''GET'' \<and> m = ''HEAD'')"

fun find_route :: "(string \<times> segment list \<times> endpoint) list \<Rightarrow> string \<Rightarrow> string list \<Rightarrow> (endpoint \<times> string list) option" where
  "find_route [] m segs = None"
| "find_route ((pm, ps, e) # rs) m segs =
     (if method_matches pm m
      then (case match_segments ps segs of Some vs \<Rightarrow> Some (e, vs) | None \<Rightarrow> find_route rs m segs)
      else find_route rs m segs)"

definition path_known :: "string list \<Rightarrow> bool" where
  "path_known segs = list_ex (\<lambda>(_, ps, _). match_segments ps segs \<noteq> None) stub_routes"

section \<open>Handlers\<close>


definition stub_dispatch ::
  "(nat \<Rightarrow> stub_cp \<Rightarrow> stub_cp) \<Rightarrow> time_lib \<Rightarrow> gtime \<Rightarrow> endpoint \<Rightarrow> string list \<Rightarrow> (string \<Rightarrow> string) \<Rightarrow>
   http_request \<Rightarrow> stub_cp \<Rightarrow> http_response \<times> stub_cp" where
  "stub_dispatch H T now e vals q r =
     (case e of
        EpPutBlob scope \<Rightarrow> stub_putBlob T scope vals now r
      | EpGetBlob scope \<Rightarrow> (\<lambda>st. (stub_getBlob T scope vals st, st))
      | EpDelBlob scope \<Rightarrow> stub_delBlob H T scope vals now r
      | EpDeleteAllProjects \<Rightarrow> stub_deleteAllProjects now
      | EpChatActivity \<Rightarrow> stub_backfillChatActivity T r
      | EpListStatus \<Rightarrow> (\<lambda>st. (stub_listStatus T q st, st))
      | EpBackupInventory \<Rightarrow> (\<lambda>st. (stub_backupInventory T now st, st))
      | EpRevisionSummary \<Rightarrow> (\<lambda>st. (stub_revisionSummary st, st))
      | EpRevisionEvents \<Rightarrow> (\<lambda>st. (stub_revisionEvents q st, st))
      | EpRevisionSnapshot \<Rightarrow> (\<lambda>st. (stub_revisionSnapshot T q st, st))
      | EpGetSearchIndex \<Rightarrow> (\<lambda>st. (stub_getSearchIndex st, st))
      | EpPublishSearchIndex \<Rightarrow> stub_publishSearchIndex r
      | EpNeedsMigration \<Rightarrow> (\<lambda>st. (stub_needsMigration q st, st))
      | EpMigrationFailure \<Rightarrow> (\<lambda>st. (stub_migrationFailure, st))
      | EpRewrap \<Rightarrow> stub_rewrap r
      | EpRegisterKey \<Rightarrow> stub_registerKey now r
      | EpCurrentKey \<Rightarrow> (\<lambda>st. (stub_currentKey st, st))
      | EpAddBundle \<Rightarrow> stub_addBundle (hd vals) r
      | EpRemoveBundle \<Rightarrow> stub_removeBundle (hd vals) (vals ! 1)
      | EpGetLegacyAttachment \<Rightarrow> (\<lambda>st. (stub_getLegacyAttachment (hd vals) r st, st))
      | EpRegisterAttachmentIndex \<Rightarrow> stub_registerAttachmentIndex (hd vals) r
      | EpDeleteAttachmentIndex \<Rightarrow> stub_deleteAttachmentIndex (hd vals)
      | EpAttachmentOwner \<Rightarrow> (\<lambda>st. (stub_attachmentOwner (hd vals) st, st))
      | EpReservePending \<Rightarrow> stub_reservePendingAttachment (hd vals) now r
      | EpSweepPending \<Rightarrow> stub_sweepPendingAttachments q now)"

text \<open>
  The mux matches the escaped path segment by segment. It redirects a path with an empty or dot
  segment before the last, and answers a known path with an unknown method with 405.
\<close>

definition seg_unescape :: "string \<Rightarrow> string" where
  "seg_unescape s = (case path_unescape s of Some u \<Rightarrow> u | None \<Rightarrow> s)"

definition clean_segments :: "string list \<Rightarrow> bool" where
  "clean_segments segs \<longleftrightarrow> [] \<notin> set (butlast segs) \<and> ''.'' \<notin> set segs \<and> ''..'' \<notin> set segs"

definition stub_mux ::
  "(nat \<Rightarrow> stub_cp \<Rightarrow> stub_cp) \<Rightarrow> time_lib \<Rightarrow> gtime \<Rightarrow> string \<Rightarrow> string \<Rightarrow> http_request \<Rightarrow> stub_cp \<Rightarrow>
   http_response \<times> stub_cp" where
  "stub_mux H T now path raw_query r st =
     (let segs = tl (split_on (CHR ''/'') path); names = map seg_unescape segs
      in if \<not> clean_segments segs then (status_resp 301, st)
         else case find_route stub_routes (rq_Method r) names of
                Some (e, vals) \<Rightarrow>
                  (case stub_dispatch H T now e vals (query_get (parse_query raw_query)) r st of
                     (resp, st') \<Rightarrow> (if rq_Method r = ''HEAD'' then resp\<lparr>rs_Body := []\<rparr> else resp, st'))
              | None \<Rightarrow> if path_known names then (http_error ''Method Not Allowed'' 405, st)
                        else (http_error ''404 page not found'' 404, st))"

definition stub_ServeHTTP ::
  "(nat \<Rightarrow> stub_cp \<Rightarrow> stub_cp) \<Rightarrow> time_lib \<Rightarrow> string \<Rightarrow> gtime \<Rightarrow> http_request \<Rightarrow> stub_cp \<Rightarrow>
   http_response \<times> stub_cp" where
  "stub_ServeHTTP H T base now r st =
     (case cut (CHR ''?'') (drop (length base) (rq_URL r)) of
        (path, raw_query, _) \<Rightarrow>
          (case path_unescape path of
             None \<Rightarrow> (status_resp 400, st)
           | Some p \<Rightarrow>
               if has_prefix p ''/api/sync/''
                  \<and> header_get (rq_Header r) HeaderServiceSecret \<noteq> LocalStackSyncEnclaveSecret
               then (http_error ''sync enclave credential is required'' 403, st)
               else stub_mux H T now path raw_query r st))"

text \<open>The world: the state of the stub and the clock, which every exchange advances.\<close>

definition stub_net :: "(nat \<Rightarrow> stub_cp \<Rightarrow> stub_cp) \<Rightarrow> time_lib \<Rightarrow> string \<Rightarrow> (stub_cp \<times> gtime) net" where
  "stub_net H T base =
     \<lparr> net_url_ok = (\<lambda>_. True),
       net_do = (\<lambda>r (st, now). case stub_ServeHTTP H T base now r st of
                   (resp, st') \<Rightarrow> (Inr resp, (st', now + 1))),
       net_ctx_err = (\<lambda>_. False),
       net_time = T \<rparr>"

definition stub_client :: "string \<Rightarrow> client" where
  "stub_client base = \<lparr> cl_baseURL = base, cl_serviceSecret = LocalStackSyncEnclaveSecret \<rparr>"

section \<open>Routing of the blob calls\<close>

text \<open>
  An id the mux can carry: not empty, and not a dot segment, which it would redirect. A document id
  is two such parts.
\<close>

definition routable_part :: "string \<Rightarrow> bool" where
  "routable_part s \<longleftrightarrow> s \<noteq> [] \<and> s \<noteq> ''.'' \<and> s \<noteq> ''..''"

definition routable :: "string \<Rightarrow> string \<Rightarrow> bool" where
  "routable scope bid \<longleftrightarrow>
     (scope = ''chat'' \<or> scope = ''project'') \<and> routable_part bid
   \<or> scope = ''profile''
   \<or> scope = ''project_document''
     \<and> (case splitProjectDocID bid of None \<Rightarrow> False | Some (p, d) \<Rightarrow> routable_part p \<and> routable_part d)"

text \<open>The key of a row as the client names it.\<close>

definition row_key :: "string \<Rightarrow> string \<Rightarrow> string" where
  "row_key scope bid = blobKey scope (if scope = ''profile'' then ''profile'' else bid)"

lemma dots_escape: "[] = path_escape s \<longleftrightarrow> s = []" "path_escape s = ''.'' \<longleftrightarrow> s = ''.''" "path_escape s = ''..'' \<longleftrightarrow> s = ''..''"
  using path_escape_inject [of s "''.''"] path_escape_inject [of s "''..''"] path_escape_Nil [of s]
  by (auto simp: path_keep_def simp del: path_escape_Nil)

lemma routable_escape: "routable_part s \<Longrightarrow> path_escape s \<noteq> [] \<and> path_escape s \<noteq> ''.'' \<and> path_escape s \<noteq> ''..''
    \<and> [] \<noteq> path_escape s \<and> ''.'' \<noteq> path_escape s \<and> ''..'' \<noteq> path_escape s"
  using dots_escape [of s] by (auto simp: routable_part_def)

definition blob_endpoint :: "string \<Rightarrow> string \<Rightarrow> endpoint" where
  "blob_endpoint m scope = (if m = ''PUT'' then EpPutBlob scope else if m = ''GET'' then EpGetBlob scope else EpDelBlob scope)"

lemma split_literal [simp]: "split_on (CHR ''/'') (path_escape s) = [path_escape s]"
  by (rule split_on_plain) (rule path_escape_no_slash)

lemma split_two [simp]:
  "split_on (CHR ''/'') (path_escape s @ CHR ''/'' # path_escape t) = [path_escape s, path_escape t]"
  using split_on_append [OF path_escape_no_slash] by simp

lemma seg_unescape_escape [simp]: "seg_unescape (path_escape s) = s"
  by (simp add: seg_unescape_def)

lemma seg_unescape_words [simp]:
  "seg_unescape ''api'' = ''api''" "seg_unescape ''sync'' = ''sync''" "seg_unescape ''blob'' = ''blob''"
  "seg_unescape ''chat'' = ''chat''" "seg_unescape ''profile'' = ''profile''" "seg_unescape ''project'' = ''project''"
  "seg_unescape ''project_document'' = ''project_document''"
  by (simp_all add: seg_unescape_def)

lemma path_unescape_append: "path_unescape (path_escape s @ r) = map_option (\<lambda>t. s @ t) (path_unescape r)"
proof (induction s)
  case Nil
  then show ?case by (simp add: option.map_ident)
next
  case (Cons c s)
  have "byte_of (16 * (byte_val c div 16) + byte_val c mod 16) = c" by (simp add: byte_of_eq)
  then show ?case using Cons path_keep_not_percent [of c]
    by (auto simp: comp_def option.map_comp split: option.split)
qed

lemma path_unescape_two:
  "path_unescape (path_escape s @ CHR ''/'' # path_escape t) = Some (s @ CHR ''/'' # t)"
  by (simp add: path_unescape_append)

text \<open>The four blob patterns come first for each method.\<close>

lemma find_route_append:
  "find_route (a @ b) m segs = (case find_route a m segs of None \<Rightarrow> find_route b m segs | r \<Rightarrow> r)"
  by (induction a m segs rule: find_route.induct) (simp_all split: option.split)

lemma find_route_other:
  "\<not> method_matches pm m \<Longrightarrow> find_route (map (\<lambda>(p, s). (pm, p, f s)) ps) m segs = None"
  by (induction ps) auto

definition blob_method :: "string \<Rightarrow> bool" where
  "blob_method m \<longleftrightarrow> m = ''PUT'' \<or> m = ''GET'' \<or> m = ''DELETE''"

lemma find_blob:
  assumes "blob_method m"
    and "find_route (map (\<lambda>(p, s). (m, p, blob_endpoint m s)) blob_paths) m segs = Some r"
  shows "find_route stub_routes m segs = Some r"
proof -
  have "m = ''PUT'' \<or> m = ''GET'' \<or> m = ''DELETE''" using assms(1) by (simp add: blob_method_def)
  then show ?thesis using assms(2)
    by (elim disjE; simp add: stub_routes_def find_route_append find_route_other method_matches_def blob_endpoint_def
        del: find_route.simps)
qed

lemma blob_segments:
  "b \<noteq> [] \<Longrightarrow> find_route (map (\<lambda>(p, s). (m, p, f s)) blob_paths) m [''api'', ''sync'', ''blob'', ''chat'', b]
     = Some (f ''chat'', [b])"
  "find_route (map (\<lambda>(p, s). (m, p, f s)) blob_paths) m [''api'', ''sync'', ''blob'', ''profile'']
     = Some (f ''profile'', [])"
  "b \<noteq> [] \<Longrightarrow> find_route (map (\<lambda>(p, s). (m, p, f s)) blob_paths) m [''api'', ''sync'', ''blob'', ''project'', b]
     = Some (f ''project'', [b])"
  "b \<noteq> [] \<Longrightarrow> c \<noteq> [] \<Longrightarrow>
   find_route (map (\<lambda>(p, s). (m, p, f s)) blob_paths) m [''api'', ''sync'', ''blob'', ''project_document'', b, c]
     = Some (f ''project_document'', [b, c])"
  by (simp_all add: blob_paths_def method_matches_def)

text \<open>What the mux sees of the path of a row.\<close>

definition sees :: "string \<Rightarrow> string \<Rightarrow> string \<Rightarrow> string \<Rightarrow> string list \<Rightarrow> bool" where
  "sees m scope path p vals \<longleftrightarrow> CHR ''?'' \<notin> set path \<and> path_unescape path = Some p \<and> has_prefix p ''/api/sync/''
     \<and> clean_segments (tl (split_on (CHR ''/'') path))
     \<and> find_route stub_routes m (map seg_unescape (tl (split_on (CHR ''/'') path))) = Some (blob_endpoint m scope, vals)"

lemma sees_chat: "blob_method m \<Longrightarrow> routable_part b \<Longrightarrow>
    sees m ''chat'' (''/api/sync/blob/chat/'' @ path_escape b) (''/api/sync/blob/chat/'' @ b) [b]"
  and sees_project: "blob_method m \<Longrightarrow> routable_part b \<Longrightarrow>
    sees m ''project'' (''/api/sync/blob/project/'' @ path_escape b) (''/api/sync/blob/project/'' @ b) [b]"
  and sees_profile: "blob_method m \<Longrightarrow>
    sees m ''profile'' ''/api/sync/blob/profile'' ''/api/sync/blob/profile'' []"
  and sees_document: "blob_method m \<Longrightarrow> routable_part b \<Longrightarrow> routable_part c \<Longrightarrow>
    sees m ''project_document'' (''/api/sync/blob/project_document/'' @ path_escape b @ ''/'' @ path_escape c)
      (''/api/sync/blob/project_document/'' @ b @ ''/'' @ c) [b, c]"
  using routable_escape [of b] routable_escape [of c]
  by (simp_all add: sees_def clean_segments_def path_escape_no_query path_unescape_two find_blob blob_segments
      routable_part_def)

lemma blob_path:
  assumes "routable scope bid" "blob_method m"
  obtains path p vals where "PathFor scope bid = Inr path" "sees m scope path p vals"
    "blobKey scope (extractID scope vals) = row_key scope bid"
proof -
  consider "scope = ''chat''" "routable_part bid" | "scope = ''project''" "routable_part bid" | "scope = ''profile''"
    | p d where "scope = ''project_document''" "splitProjectDocID bid = Some (p, d)" "routable_part p" "routable_part d"
    using assms(1) by (auto simp: routable_def split: option.splits)
  then show ?thesis
  proof cases
    case 1
    then show ?thesis using that [OF _ sees_chat [OF assms(2) 1(2), folded 1(1)]]
      by (simp add: PathFor_def extractID_def row_key_def)
  next
    case 2
    then show ?thesis using that [OF _ sees_project [OF assms(2) 2(2), folded 2(1)]]
      by (simp add: PathFor_def extractID_def row_key_def)
  next
    case 3
    then show ?thesis using that [OF _ sees_profile [OF assms(2), folded 3]]
      by (simp add: PathFor_def extractID_def row_key_def)
  next
    case 4
    then show ?thesis using that [OF _ sees_document [OF assms(2) 4(3,4), folded 4(1)]] splitProjectDocID_Some [OF 4(2)]
      by (simp add: PathFor_def extractID_def row_key_def)
  qed
qed

section \<open>Exchanges\<close>

lemma net_simps [simp]:
  "net_url_ok (stub_net H T base) u" "\<not> net_ctx_err (stub_net H T base) s" "net_time (stub_net H T base) = T"
  "cl_baseURL (stub_client base) = base" "cl_serviceSecret (stub_client base) = LocalStackSyncEnclaveSecret"
  by (simp_all add: stub_net_def stub_client_def)

lemma net_do_eq:
  "net_do (stub_net H T base) r (st, now) = (case stub_ServeHTTP H T base now r st of (resp, st') \<Rightarrow> (Inr resp, (st', now + 1)))"
  by (simp add: stub_net_def)

text \<open>A blob request of the client reaches its handler.\<close>

lemma serve_blob:
  assumes "sees m scope path p vals" "rq_URL r = base @ path" "rq_Method r = m" "m \<noteq> ''HEAD''"
    and "header_get (rq_Header r) HeaderServiceSecret = LocalStackSyncEnclaveSecret"
  shows "stub_ServeHTTP H T base now r st = stub_dispatch H T now (blob_endpoint m scope) vals (query_get (parse_query [])) r st"
  using assms by (simp add: sees_def stub_ServeHTTP_def stub_mux_def Let_def cut_plain case_prod_beta)

lemma secret_sent:
  "header_get (header_opt HeaderServiceSecret LocalStackSyncEnclaveSecret h) HeaderServiceSecret = LocalStackSyncEnclaveSecret"
  by (simp add: header_opt_def header_set_if_def header_get_set LocalStackSyncEnclaveSecret_def)

text \<open>The headers of a write as the stub reads them.\<close>

lemma header_get_opt: "header_get (header_opt n v h) m = (if v \<noteq> [] \<and> equal_fold_ascii n m then v else header_get h m)"
  by (simp add: header_opt_def header_set_if_def header_get_set)

lemma header_get_set_if: "header_get (header_set_if b n v h) m = (if b \<and> equal_fold_ascii n m then v else header_get h m)"
  by (simp add: header_set_if_def header_get_set)

lemma if_match_name [simp]:
  "equal_fold_ascii HeaderIfMatch ''If-Match''"
  "\<not> equal_fold_ascii HeaderAuth ''If-Match''"
  "\<not> equal_fold_ascii HeaderClerkUserID ''If-Match''"
  "\<not> equal_fold_ascii HeaderContentType ''If-Match''"
  "\<not> equal_fold_ascii HeaderKeyID ''If-Match''"
  "\<not> equal_fold_ascii HeaderIdempotency ''If-Match''"
  "\<not> equal_fold_ascii HeaderOperationHash ''If-Match''"
  "\<not> equal_fold_ascii HeaderRequestID ''If-Match''"
  "\<not> equal_fold_ascii HeaderProfileSyncProtocol ''If-Match''"
  "\<not> equal_fold_ascii HeaderProjectIDSet ''If-Match''"
  "\<not> equal_fold_ascii HeaderProjectID ''If-Match''"
  "\<not> equal_fold_ascii HeaderAttachmentRefs ''If-Match''"
  "\<not> equal_fold_ascii HeaderActivityAt ''If-Match''"
  "\<not> equal_fold_ascii HeaderServiceSecret ''If-Match''"
  by (simp_all add: equal_fold_ascii_def header_defs lower_num_def)

lemma key_id_name [simp]:
  "equal_fold_ascii HeaderKeyID ''X-Key-Id''"
  "\<not> equal_fold_ascii HeaderAuth ''X-Key-Id''"
  "\<not> equal_fold_ascii HeaderClerkUserID ''X-Key-Id''"
  "\<not> equal_fold_ascii HeaderContentType ''X-Key-Id''"
  "\<not> equal_fold_ascii HeaderIdempotency ''X-Key-Id''"
  "\<not> equal_fold_ascii HeaderOperationHash ''X-Key-Id''"
  "\<not> equal_fold_ascii HeaderRequestID ''X-Key-Id''"
  "\<not> equal_fold_ascii HeaderProfileSyncProtocol ''X-Key-Id''"
  "\<not> equal_fold_ascii HeaderProjectIDSet ''X-Key-Id''"
  "\<not> equal_fold_ascii HeaderProjectID ''X-Key-Id''"
  "\<not> equal_fold_ascii HeaderAttachmentRefs ''X-Key-Id''"
  "\<not> equal_fold_ascii HeaderActivityAt ''X-Key-Id''"
  "\<not> equal_fold_ascii HeaderServiceSecret ''X-Key-Id''"
  "\<not> equal_fold_ascii HeaderIfMatch ''X-Key-Id''"
  by (simp_all add: equal_fold_ascii_def header_defs lower_num_def)

lemma put_headers:
  defines "h \<equiv> (\<lambda>req T. header_opt HeaderServiceSecret LocalStackSyncEnclaveSecret (putBlobHeaders T req []))"
  shows "header_get (h req T) ''If-Match'' = pb_IfMatch req" "header_get (h req T) ''X-Key-Id'' = pb_KeyIDHex req"
  by (auto simp: h_def putBlobHeaders_def addAuth_def Let_def header_get_opt header_get_set_if header_get_set
      split: option.split)

section \<open>Sizes\<close>

text \<open>The answers of the stub are short, so that the client reads them whole.\<close>

lemma length_digits: "n < 10 ^ k \<Longrightarrow> 0 < k \<Longrightarrow> length (digits n) \<le> k"
proof (induction k arbitrary: n)
  case (Suc k)
  show ?case
  proof (cases "n < 10")
    case True
    then show ?thesis by (simp add: digits.simps [of n])
  next
    case False
    then have "n div 10 < 10 ^ k" "0 < k"
      using Suc.prems by (simp_all add: less_mult_imp_div_less mult.commute) (cases k; simp)
    then show ?thesis using Suc.IH [of "n div 10"] False by (simp add: digits.simps [of n])
  qed
qed simp

lemma length_itoa: "0 \<le> i \<Longrightarrow> i < 2 ^ 63 \<Longrightarrow> length (itoa i) \<le> 19"
  using length_digits [of "nat i" 19] by (simp add: itoa_def nat_less_iff)

lemma is_ascii_itoa: "0 \<le> i \<Longrightarrow> is_ascii (itoa i)"
  by (simp add: itoa_def is_ascii_digits)

lemma length_ascii_escape: "length (ascii_escape c) \<le> 6"
  by (simp add: ascii_escape_def)

lemma length_jstring: "is_ascii s \<Longrightarrow> length (jstring s) \<le> 6 * length s + 2"
proof (induction s)
  case (Cons c s)
  then show ?case using length_ascii_escape [of c] by (simp add: jstring_def is_ascii_def estr.simps(2))
qed (simp add: jstring_def)

lemma read_whole: "length (rs_Body resp) \<le> n \<Longrightarrow> \<not> rs_Broken resp \<Longrightarrow> read_limited n resp = (rs_Body resp, False)"
  by (simp add: read_limited_def)

text \<open>The two bodies a write can be answered with.\<close>

definition put_json :: "int \<Rightarrow> int \<Rightarrow> json" where
  "put_json n sr = json_map [(''etag'', JStr (formatETag n)), (''source_revision'', jint sr)]"

definition stale_json :: "int \<Rightarrow> json" where
  "stale_json n = json_map [(''code'', JStr StatusStaleBlob), (''current_etag'', JStr (formatETag n))]"

lemma put_json_eq: "put_json n sr = JObj [(''etag'', JStr (itoa n)), (''source_revision'', JNum (itoa sr))]"
  and stale_json_eq: "stale_json n = JObj [(''code'', JStr StatusStaleBlob), (''current_etag'', JStr (itoa n))]"
  by (simp_all add: put_json_def stale_json_def json_map_def formatETag_def jint_def)

lemma put_json_ok:
  assumes "0 \<le> n" "n < 2 ^ 63" "0 \<le> sr" "sr < 2 ^ 63"
  shows "json_ok 10000 (put_json n sr)" "length (json_encode (put_json n sr)) \<le> 500"
proof -
  show "json_ok 10000 (put_json n sr)"
    using assms by (simp add: put_json_eq is_ascii_itoa) (simp add: is_ascii_def)
  show "length (json_encode (put_json n sr)) \<le> 500"
    using assms length_itoa [of n] length_itoa [of sr] length_jstring [OF is_ascii_itoa, of n] length_jstring [of "''etag''"]
      length_jstring [of "''source_revision''"]
    by (simp add: put_json_eq is_ascii_itoa is_ascii_def)
qed

lemma stale_json_ok:
  assumes "0 \<le> n" "n < 2 ^ 63"
  shows "json_ok 10000 (stale_json n)" "length (json_encode (stale_json n)) \<le> 500"
proof -
  show "json_ok 10000 (stale_json n)"
    using assms by (simp add: stale_json_eq is_ascii_itoa) (simp add: is_ascii_def StatusStaleBlob_def)
  show "length (json_encode (stale_json n)) \<le> 500"
    using assms length_itoa [of n] length_jstring [OF is_ascii_itoa, of n] length_jstring [of "''code''"]
      length_jstring [of "''current_etag''"] length_jstring [of "''STALE_BLOB''"]
    by (simp add: stale_json_eq is_ascii_itoa is_ascii_def StatusStaleBlob_def)
qed

section \<open>Client calls on the stub\<close>

lemma putBlob_resp:
  assumes "admits (req_pre r) (stub_rows st (blobKey scope (extractID scope vals)))"
    and "n = next_version (stub_rows st (blobKey scope (extractID scope vals)))"
    and "st' = snd (stub_putBlob T scope vals now r st)"
  shows "stub_putBlob T scope vals now r st
      = (json_resp 200 [(''ETag'', itoa n), (''X-Key-Id'', header_get (rq_Header r) ''X-Key-Id'')]
           (put_json n (st_sourceRev st')), st')"
    "st_sourceRev st' = st_sourceRev st \<or> st_sourceRev st' = st_sourceRev st + 1"
  using assms(1)
  by (simp_all add: assms(2,3) stub_putBlob_def Let_def stale_for_admits req_pre_def formatETag_def
      next_etag_version put_json_def)

lemma decode_put_json:
  assumes "0 \<le> n" "n < 2 ^ 63" "0 \<le> sr" "sr < 2 ^ 63"
  shows "decode_first dec_put_response (json_encode (put_json n sr) @ [CHR 0x0A])
    = Some (\<lparr> pr_ETag = itoa n, pr_KeyID = [], pr_SourceRevision = sr \<rparr>, [CHR 0x0A])"
  using json_first_line [OF put_json_ok(1) [OF assms]] assms
  by (simp add: decode_first_def put_json_eq struct_members_def dec_put_response_def field_values_def
      parse_int64_itoa del: json_encode.simps)

text \<open>The bounds of the counters, which the stub keeps in 64-bit integers.\<close>

definition in_int64 :: "stub_cp \<Rightarrow> string \<Rightarrow> bool" where
  "in_int64 st k \<longleftrightarrow> 0 \<le> version (stub_rows st k) \<and> version (stub_rows st k) + 1 < 2 ^ 63
     \<and> 0 \<le> st_sourceRev st \<and> st_sourceRev st + 1 < 2 ^ 63"

lemma PutBlob_stored:
  assumes "routable (pb_Scope pb) (pb_ID pb)" "\<not> pb_Rewrap pb"
    and "admits (pb_IfMatch pb) (stub_rows st (row_key (pb_Scope pb) (pb_ID pb)))"
    and "in_int64 st (row_key (pb_Scope pb) (pb_ID pb))"
  defines "k \<equiv> row_key (pb_Scope pb) (pb_ID pb)"
  shows "\<exists>st'. PutBlob (stub_client base) (stub_net H T base) pb (st, now)
      = (Inr \<lparr> pr_ETag = itoa (version (stub_rows st k) + 1), pr_KeyID = pb_KeyIDHex pb,
               pr_SourceRevision = st_sourceRev st' \<rparr>, (st', now + 1))
    \<and> stub_rows st' = (stub_rows st)(k \<mapsto> (version (stub_rows st k) + 1, pb_Ciphertext pb, pb_KeyIDHex pb))
    \<and> stub_step T st st'"
proof -
  have "blob_method ''PUT''" by (simp add: blob_method_def)
  then obtain path p vals where path: "PathFor (pb_Scope pb) (pb_ID pb) = Inr path"
    "sees ''PUT'' (pb_Scope pb) path p vals" "blobKey (pb_Scope pb) (extractID (pb_Scope pb) vals) = k"
    using blob_path [OF assms(1)] unfolding k_def by metis
  let ?r = "\<lparr> rq_Method = ''PUT'', rq_URL = base @ path, rq_Header = header_opt HeaderServiceSecret
    LocalStackSyncEnclaveSecret (putBlobHeaders T pb []), rq_Body = pb_Ciphertext pb \<rparr>"
  let ?n = "version (stub_rows st k) + 1"
  let ?st' = "snd (stub_putBlob T (pb_Scope pb) vals now ?r st)"
  have pre: "req_pre ?r = pb_IfMatch pb" "req_val ?r = (pb_Ciphertext pb, pb_KeyIDHex pb)"
    by (simp_all add: req_pre_def req_val_def put_headers)
  have adm: "admits (req_pre ?r) (stub_rows st (blobKey (pb_Scope pb) (extractID (pb_Scope pb) vals)))"
    using assms(3) unfolding pre path(3) k_def .
  have n: "next_version (stub_rows st k) = ?n" by (simp add: version_def)
  have serve: "stub_ServeHTTP H T base now ?r st
      = (json_resp 200 [(''ETag'', itoa ?n), (''X-Key-Id'', pb_KeyIDHex pb)] (put_json ?n (st_sourceRev ?st')), ?st')"
    using serve_blob [OF path(2), of ?r base H T now st] putBlob_resp(1) [OF adm refl refl, of T now] secret_sent
    by (simp add: stub_dispatch_def blob_endpoint_def path(3) n put_headers)
  have rows: "stub_rows ?st' = (stub_rows st)(k \<mapsto> (?n, pb_Ciphertext pb, pb_KeyIDHex pb))"
    using putBlob_admitted [OF adm, of T now] by (simp only: path(3) n pre)
  have bounds: "0 \<le> ?n" "?n < 2 ^ 63" "0 \<le> st_sourceRev ?st'" "st_sourceRev ?st' < 2 ^ 63"
    using assms(4) putBlob_resp(2) [OF adm refl refl, of T now] unfolding in_int64_def k_def by auto
  have once: "putBlobOnce (stub_client base) (stub_net H T base) pb (st, now)
      = (Inr \<lparr> pr_ETag = itoa ?n, pr_KeyID = pb_KeyIDHex pb, pr_SourceRevision = st_sourceRev ?st' \<rparr>, (?st', now + 1))"
    using serve put_json_ok(2) [OF bounds] decode_put_json [OF bounds]
    by (simp add: putBlobOnce_def urlFor_def path(1) NewRequest_def doRequest_def op_try_def rq_set_def net_do_eq
        json_resp_def read_whole putBlobAnswer_def HeaderETag_def Let_def)
      (simp add: HeaderKeyID_def)
  have "scope \<in> set blob_scopes" if "scope = pb_Scope pb" for scope
    using assms(1) that by (auto simp: routable_def blob_scopes_def)
  then have "stub_step T st ?st'" using stub_step.put by blast
  then show ?thesis using once rows assms(2)
    by (intro exI [of _ ?st']) (simp add: PutBlob_def PutBlobMaxAttempts_def numeral_2_eq_2)
qed

lemma parse_stale_json:
  assumes "0 \<le> n" "n < 2 ^ 63"
  obtains c where "parseError 412 (json_encode (stale_json n) @ [CHR 0x0A]) = ECp c"
    "cpe_Code c = StatusStaleBlob" "cpe_CurrentETag c = itoa n"
proof -
  have "unmarshal dec_cp_error (json_encode (stale_json n) @ [CHR 0x0A])
      = Some (zero_cp_error\<lparr>cpe_Code := StatusStaleBlob, cpe_CurrentETag := itoa n\<rparr>)"
    using json_parse_line [OF stale_json_ok(1) [OF assms]]
    by (simp add: unmarshal_def stale_json_eq struct_members_def dec_cp_error_def field_values_def zero_cp_error_def
        del: json_encode.simps)
  then have "parseError 412 (json_encode (stale_json n) @ [CHR 0x0A])
      = ECp (zero_cp_error\<lparr>cpe_Code := StatusStaleBlob, cpe_CurrentETag := itoa n, cpe_StatusCode := 412,
               cpe_Raw := json_encode (stale_json n) @ [CHR 0x0A]\<rparr>)"
    by (simp add: parseError_def)
  from that [OF this] show ?thesis by simp
qed

lemma PutBlob_stale:
  assumes "routable (pb_Scope pb) (pb_ID pb)" "\<not> pb_Rewrap pb"
    and "\<not> admits (pb_IfMatch pb) (stub_rows st (row_key (pb_Scope pb) (pb_ID pb)))"
    and "in_int64 st (row_key (pb_Scope pb) (pb_ID pb))"
  shows "\<exists>c. PutBlob (stub_client base) (stub_net H T base) pb (st, now) = (Inl (ECp c), (st, now + 1))
    \<and> cpe_Code c = StatusStaleBlob
    \<and> cpe_CurrentETag c = itoa (version (stub_rows st (row_key (pb_Scope pb) (pb_ID pb))))"
proof -
  let ?n = "version (stub_rows st (row_key (pb_Scope pb) (pb_ID pb)))"
  have "blob_method ''PUT''" by (simp add: blob_method_def)
  then obtain path p vals where path: "PathFor (pb_Scope pb) (pb_ID pb) = Inr path" "sees ''PUT'' (pb_Scope pb) path p vals"
    "blobKey (pb_Scope pb) (extractID (pb_Scope pb) vals) = row_key (pb_Scope pb) (pb_ID pb)"
    using blob_path [OF assms(1)] by metis
  let ?r = "\<lparr> rq_Method = ''PUT'', rq_URL = base @ path, rq_Header = header_opt HeaderServiceSecret
    LocalStackSyncEnclaveSecret (putBlobHeaders T pb []), rq_Body = pb_Ciphertext pb \<rparr>"
  have "req_pre ?r = pb_IfMatch pb" by (simp add: req_pre_def put_headers)
  then have "\<not> admits (req_pre ?r) (stub_rows st (blobKey (pb_Scope pb) (extractID (pb_Scope pb) vals)))"
    using assms(3) path(3) by simp
  then have "stub_putBlob T (pb_Scope pb) vals now ?r st = (json_resp 412 [] (stale_json ?n), st)"
    by (subst putBlob_refused) (simp_all add: stale_resp_def stale_json_def path(3) version_def)
  then have serve: "stub_ServeHTTP H T base now ?r st = (json_resp 412 [] (stale_json ?n), st)"
    using serve_blob [OF path(2), of ?r base H T now st] secret_sent
    by (simp add: stub_dispatch_def blob_endpoint_def)
  have n: "0 \<le> ?n" "?n < 2 ^ 63" using assms(4) by (auto simp: in_int64_def)
  obtain c where c: "parseError 412 (json_encode (stale_json ?n) @ [CHR 0x0A]) = ECp c"
    "cpe_Code c = StatusStaleBlob" "cpe_CurrentETag c = itoa ?n"
    using parse_stale_json [OF n] by blast
  have "putBlobOnce (stub_client base) (stub_net H T base) pb (st, now) = (Inl (ECp c), (st, now + 1))"
    using serve stale_json_ok(2) [OF n] c(1)
    by (simp add: putBlobOnce_def urlFor_def path(1) NewRequest_def doRequest_def op_try_def rq_set_def net_do_eq
        json_resp_def read_whole isRetryablePutBlobStatus_def Let_def)
  then show ?thesis using c(2,3) assms(2)
    by (intro exI [of _ c]) (simp add: PutBlob_def PutBlobMaxAttempts_def numeral_2_eq_2)
qed

lemma GetBlob_found:
  assumes "routable scope bid" "stub_rows st (row_key scope bid) = Some (n, ct, kid)" "length ct \<le> 64 * MiB"
  shows "\<exists>g. GetBlob (stub_client base) (stub_net H T base) scope bid jwt user (st, now) = (Inr g, (st, now + 1))
    \<and> gr_Ciphertext g = ct \<and> gr_ETag g = itoa n \<and> gr_KeyID g = kid"
proof -
  have "blob_method ''GET''" by (simp add: blob_method_def)
  then obtain path p vals where path: "PathFor scope bid = Inr path" "sees ''GET'' scope path p vals"
    "blobKey scope (extractID scope vals) = row_key scope bid"
    using blob_path [OF assms(1)] by metis
  let ?r = "\<lparr> rq_Method = ''GET'', rq_URL = base @ path, rq_Header = header_opt HeaderServiceSecret
    LocalStackSyncEnclaveSecret (addAuth jwt user []), rq_Body = [] \<rparr>"
  let ?resp = "stub_getBlob T scope vals st"
  have "stub_rows st (blobKey scope (extractID scope vals)) = Some (n, ct, kid)" using assms(2) path(3) by simp
  from getBlob_found [OF this, of T]
  have resp: "rs_Status ?resp = 200" "header_get (rs_Header ?resp) ''ETag'' = itoa n" "rs_Body ?resp = ct"
    "header_get (rs_Header ?resp) ''X-Key-Id'' = kid" by (simp_all add: formatETag_def)
  have whole: "\<not> rs_Broken ?resp" by (simp add: stub_getBlob_def status_resp_def Let_def split: option.split)
  have "stub_ServeHTTP H T base now ?r st = (?resp, st)"
    using serve_blob [OF path(2), of ?r base H T now st] secret_sent
    by (simp add: stub_dispatch_def blob_endpoint_def)
  then show ?thesis using resp whole assms(3)
    by (simp add: GetBlob_def urlFor_def path(1) send_def NewRequest_def doRequest_def rq_set_def op_bind_def op_try_def
        net_do_eq read_whole Let_def HeaderETag_def HeaderKeyID_def)
qed

section \<open>From end to end\<close>

text \<open>
  The dependencies of the enclave when it runs against the local controlplane: its client and its
  world are the stub's, drawing entropy leaves the stub alone, and search is not configured.
\<close>

definition on_stub :: "(nat \<Rightarrow> stub_cp \<Rightarrow> stub_cp) \<Rightarrow> time_lib \<Rightarrow> string \<Rightarrow> (stub_cp \<times> gtime) deps \<Rightarrow> bool" where
  "on_stub H T base D \<longleftrightarrow> dp_cp D = stub_client base \<and> dp_net D = stub_net H T base
     \<and> (\<forall>s. snd (dp_entropy D s) = s \<and> 56 \<le> length (fst (dp_entropy D s)))
     \<and> \<not> dp_search_configured D \<and> gzip_ok (dp_gz D)"

lemma backfill_returns:
  obtains s' where "backfillChatActivity D sess scope bid g etag pt s = (Inr (), s')"
proof -
  have "\<exists>s'. backfillChatActivity D sess scope bid g etag pt s = (Inr (), s')"
    by (simp add: backfillChatActivity_def op_ret_def op_ignore_Inr split: option.split)
  then show ?thesis using that by blast
qed

lemma push_on_stub:
  assumes "on_stub H T base D" "push_ok D sess req key plaintext" "DeriveKeyID (dp_hkdf D) key = Inr kid"
  obtains pb where "push_prepare D sess req s = (Inr (key, plaintext, pb), s)"
    "pb_KeyIDHex pb = KeyIDHex kid" "pb_Scope pb = pu_Scope req" "pb_ID pb = pu_ID req"
    "pb_IfMatch pb = ifMatch_of req" "\<not> pb_Rewrap pb" "Detect (pb_Ciphertext pb) = VersionV2"
    "\<forall>keys k. find_key keys (KeyIDHex kid) = Some k \<and> key_Bytes k = key \<longrightarrow>
       DecryptV2 (dp_gz D) (pb_Ciphertext pb) keys (row_aad sess (pu_Scope req) (pu_ID req)) =
       Inr \<lparr> dr_Plaintext = plaintext, dr_KeyIDHex = KeyIDHex kid, dr_Version = VersionV2, dr_NeedsRewrap = False \<rparr>"
proof -
  have D: "gzip_ok (dp_gz D)" "snd (dp_entropy D s) = s" "56 \<le> length (fst (dp_entropy D s))"
    using assms(1) unfolding on_stub_def by blast+
  obtain pb where pb: "push_prepare D sess req s = (Inr (key, plaintext, pb), s)"
    using push_prepare_total [OF assms(2) D(3)] D(2) by auto
  show ?thesis
  proof (rule push_prepare_sealed [OF D(1) pb], goal_cases)
    case (1 kid')
    then have "kid' = kid" using assms(3) by simp
    with 1(12) have opens: "\<forall>keys k. find_key keys (KeyIDHex kid) = Some k \<and> key_Bytes k = key \<longrightarrow>
       DecryptV2 (dp_gz D) (pb_Ciphertext pb) keys (row_aad sess (pu_Scope req) (pu_ID req)) =
       Inr \<lparr> dr_Plaintext = plaintext, dr_KeyIDHex = KeyIDHex kid, dr_Version = VersionV2, dr_NeedsRewrap = False \<rparr>"
      by auto
    show ?case by (rule that [OF pb _ 1(5-7,10,11) opens]) (use 1(4) \<open>kid' = kid\<close> in simp)
  qed
qed

text \<open>
  C3. What is pushed is what is pulled: against the local controlplane, a well-formed push whose
  precondition the row meets succeeds with the row's next version as its ETag, and pulling the row
  afterwards, by the same user and with a key set that holds the pushed key, at any later time and
  from any state that has the same row, returns exactly the pushed plaintext under that ETag.
\<close>

theorem push_then_pull:
  assumes "on_stub H T base D" "push_ok D sess req key plaintext" "DeriveKeyID (dp_hkdf D) key = Inr kid"
    and "routable (pu_Scope req) (pu_ID req)"
    and "admits (ifMatch_of req) (stub_rows st (row_key (pu_Scope req) (pu_ID req)))"
    and "in_int64 st (row_key (pu_Scope req) (pu_ID req))"
  defines "k \<equiv> row_key (pu_Scope req) (pu_ID req)"
  shows "\<exists>r st' ct. Push D sess req (st, now) = (Inr r, (st', now + 1)) \<and> pus_OK r
    \<and> pus_ETag r = itoa (version (stub_rows st k) + 1) \<and> stub_step T st st'
    \<and> stub_rows st' = (stub_rows st)(k \<mapsto> (version (stub_rows st k) + 1, ct, KeyIDHex kid))
    \<and> (\<forall>st'' now' keys pk target targetID can. stub_rows st'' k = stub_rows st' k \<and> length ct \<le> 64 * MiB
         \<and> find_key keys (KeyIDHex kid) = Some pk \<and> key_Bytes pk = key \<longrightarrow>
         (\<exists>item s. pullOne D sess (pu_Scope req) (pu_ID req) keys target targetID can (st'', now') = (Inr item, s)
            \<and> pi_OK item \<and> pi_Plaintext item = b64_encode plaintext \<and> pi_ETag item = pus_ETag r
            \<and> pi_KeyID item = KeyIDHex kid \<and> \<not> pi_NeedsRewrap item))"
proof -
  have D: "dp_cp D = stub_client base" "dp_net D = stub_net H T base" "\<not> dp_search_configured D"
    using assms(1) by (simp_all add: on_stub_def)
  obtain pb where pb: "push_prepare D sess req (st, now) = (Inr (key, plaintext, pb), (st, now))"
    "pb_KeyIDHex pb = KeyIDHex kid" "pb_Scope pb = pu_Scope req" "pb_ID pb = pu_ID req"
    "pb_IfMatch pb = ifMatch_of req" "\<not> pb_Rewrap pb" "Detect (pb_Ciphertext pb) = VersionV2"
    and open_it: "\<forall>keys pk. find_key keys (KeyIDHex kid) = Some pk \<and> key_Bytes pk = key \<longrightarrow>
       DecryptV2 (dp_gz D) (pb_Ciphertext pb) keys (row_aad sess (pu_Scope req) (pu_ID req)) =
       Inr \<lparr> dr_Plaintext = plaintext, dr_KeyIDHex = KeyIDHex kid, dr_Version = VersionV2, dr_NeedsRewrap = False \<rparr>"
    using push_on_stub [OF assms(1-3), of "(st, now)"] by blast
  let ?n = "version (stub_rows st k) + 1"
  obtain st' where w: "PutBlob (stub_client base) (stub_net H T base) pb (st, now)
      = (Inr \<lparr> pr_ETag = itoa ?n, pr_KeyID = KeyIDHex kid, pr_SourceRevision = st_sourceRev st' \<rparr>, (st', now + 1))"
    and rows: "stub_rows st' = (stub_rows st)(k \<mapsto> (?n, pb_Ciphertext pb, KeyIDHex kid))" and step: "stub_step T st st'"
    using PutBlob_stored [of pb st base H T now] pb assms(4-6) unfolding k_def by auto
  let ?r = "\<lparr> pus_OK = True, pus_ETag = itoa ?n, pus_KeyID = KeyIDHex kid, pus_SearchIndexed = None \<rparr>"
  have push: "Push D sess req (st, now) = (Inr ?r, (st', now + 1))"
    using pb(1) w D by (simp add: Push_def op_bind_def op_try_def push_indexed_def)
  have pull: "\<exists>item s. pullOne D sess (pu_Scope req) (pu_ID req) keys target targetID can (st'', now') = (Inr item, s)
            \<and> pi_OK item \<and> pi_Plaintext item = b64_encode plaintext \<and> pi_ETag item = itoa ?n
            \<and> pi_KeyID item = KeyIDHex kid \<and> \<not> pi_NeedsRewrap item"
    if "stub_rows st'' k = stub_rows st' k" "length (pb_Ciphertext pb) \<le> 64 * MiB"
      "find_key keys (KeyIDHex kid) = Some pk" "key_Bytes pk = key" for st'' now' keys pk target targetID can
  proof -
    have "stub_rows st'' (row_key (pu_Scope req) (pu_ID req)) = Some (?n, pb_Ciphertext pb, KeyIDHex kid)"
      using that(1) rows by (simp add: k_def)
    from GetBlob_found [OF assms(4) this that(2), of base H T "se_RawJWT sess" "se_Subject sess" now']
    obtain g where g: "GetBlob (stub_client base) (stub_net H T base) (pu_Scope req) (pu_ID req) (se_RawJWT sess)
        (se_Subject sess) (st'', now') = (Inr g, (st'', now' + 1))" "gr_Ciphertext g = pb_Ciphertext pb" "gr_ETag g = itoa ?n"
      by blast
    obtain s where "backfillChatActivity D sess (pu_Scope req) (pu_ID req) g (itoa ?n) plaintext (st'', now' + 1) = (Inr (), s)"
      by (rule backfill_returns)
    then show ?thesis using g pb(7) open_it [rule_format, OF conjI [OF that(3,4)]] D
      by (simp add: pullOne_def pull_v2_def op_try_def row_aad_def pulled_item_def)
  qed
  show ?thesis using push rows step pull by (intro exI [of _ ?r] exI [of _ st'] exI [of _ "pb_Ciphertext pb"]) auto
qed

definition stub_deps :: "(nat \<Rightarrow> stub_cp \<Rightarrow> stub_cp) \<Rightarrow> time_lib \<Rightarrow> string \<Rightarrow> (stub_cp \<times> gtime) deps" where
  "stub_deps H T base = (example_deps (stub_net H T base) snd)\<lparr>dp_cp := stub_client base\<rparr>"

lemma on_stub_deps: "on_stub H T base (stub_deps H T base)"
  by (simp add: on_stub_def stub_deps_def example_deps_def example_gzip_ok example_entropy_def)

lemma stub_push_ok: "push_ok (stub_deps H T base) example_session example_push example_key ''hello''"
  using example_push_ok by (simp add: push_ok_def stub_deps_def)

lemma example_routable: "routable (pu_Scope example_push) (pu_ID example_push)"
  by (simp add: routable_def routable_part_def example_push_def)

lemma new_stub_row [simp]: "stub_rows NewStubCP k = None" "in_int64 NewStubCP k"
  by (simp_all add: stub_rows_def NewStubCP_def in_int64_def version_def next_version_def)

definition example_stub_deps :: "(stub_cp \<times> gtime) deps" where
  "example_stub_deps = stub_deps (\<lambda>_ st. st) no_times ''http://cp''"

lemmas on_example_stub = on_stub_deps [of "\<lambda>_ st. st" no_times "''http://cp''",
    folded example_stub_deps_def]
  and example_stub_push = stub_push_ok [of "\<lambda>_ st. st" no_times "''http://cp''",
    folded example_stub_deps_def]

theorem push_then_pull_witness:
  "\<exists>r st' ct. Push example_stub_deps example_session example_push (NewStubCP, 0) = (Inr r, (st', 1))
     \<and> pus_ETag r = ''1'' \<and> stub_rows st' ''project/p1'' = Some ct"
proof -
  obtain kid where kid: "DeriveKeyID (dp_hkdf example_stub_deps) example_key = Inr kid"
    using DeriveKeyID_total [OF example_hkdf_ok, of example_key] by (auto simp: example_stub_deps_def stub_deps_def example_deps_def KeySize_def)
  have "row_key (pu_Scope example_push) (pu_ID example_push) = ''project/p1''"
    by (simp add: row_key_def blobKey_def example_push_def)
  then show ?thesis
    using push_then_pull [OF on_example_stub example_stub_push kid example_routable, where st = NewStubCP and now = 0]
    by (auto simp: version_def next_version_def small_itoa)
qed

text \<open>
  C29. A push whose precondition the row does not meet changes nothing: against the local
  controlplane it is answered with the 409 sync conflict, the stub keeps its state, and the ETag the
  conflict reports is the one that meets the precondition of the row.
\<close>

theorem stale_push_refused:
  assumes "on_stub H T base D" "push_ok D sess req key plaintext"
    and "routable (pu_Scope req) (pu_ID req)"
    and "\<not> admits (ifMatch_of req) (stub_rows st (row_key (pu_Scope req) (pu_ID req)))"
    and "in_int64 st (row_key (pu_Scope req) (pu_ID req))"
  shows "\<exists>a. Push D sess req (st, now) = (Inl (EApp a), (st, now + 1))
    \<and> ae_Status a = 409 \<and> ae_Code a = CodeSyncConflict
    \<and> admits (ae_CurrentETag a) (stub_rows st (row_key (pu_Scope req) (pu_ID req)))
    \<and> (\<forall>m. m \<noteq> [] \<and> m \<noteq> ''*'' \<and> admits m (stub_rows st (row_key (pu_Scope req) (pu_ID req))) \<longrightarrow> m = ae_CurrentETag a)"
proof -
  let ?row = "stub_rows st (row_key (pu_Scope req) (pu_ID req))"
  have D: "dp_cp D = stub_client base" "dp_net D = stub_net H T base"
    using assms(1) by (simp_all add: on_stub_def)
  obtain kid where kid: "DeriveKeyID (dp_hkdf D) key = Inr kid"
    using DeriveKeyID_total [of "dp_hkdf D" key] assms(2) by (auto simp: push_ok_def decodeKey_Inr KeySize_def)
  obtain pb where pb: "push_prepare D sess req (st, now) = (Inr (key, plaintext, pb), (st, now))"
    "pb_Scope pb = pu_Scope req" "pb_ID pb = pu_ID req" "pb_IfMatch pb = ifMatch_of req" "\<not> pb_Rewrap pb"
    by (rule push_on_stub [OF assms(1,2) kid, of "(st, now)"], rule that)
  obtain c where c: "PutBlob (stub_client base) (stub_net H T base) pb (st, now) = (Inl (ECp c), (st, now + 1))"
    "cpe_Code c = StatusStaleBlob" "cpe_CurrentETag c = itoa (version ?row)"
    using PutBlob_stale [of pb st base H T now] pb assms(3-5) by auto
  obtain n v where row: "?row = Some (n, v)" using assms(4) by (cases ?row) auto
  have "version ?row = n" by (simp add: version_def next_version_def row)
  then have c3: "cpe_CurrentETag c = itoa n" using c(3) by simp
  have "Push D sess req (st, now) = (Inl (push_failed (ECp c)), (st, now + 1))"
    using pb(1) c(1) D by (simp add: Push_def op_bind_def op_try_def)
  moreover have "push_failed (ECp c) = EApp (zero_app_error\<lparr>ae_Status := 409, ae_Code := CodeSyncConflict,
      ae_Reason := ''stale_blob'', ae_CurrentETag := itoa n\<rparr>)"
    using c(2) c3 by (simp add: push_failed_def IsCode_def)
  ultimately show ?thesis unfolding row by (auto simp: admits_def)
qed

definition stale_stub :: stub_cp where
  "stale_stub = SetBlob 2 ''project'' ''p1'' [] [] (SetBlob 1 ''project'' ''p1'' [] [] NewStubCP)"

theorem stale_push_refused_witness:
  "\<exists>a. Push example_stub_deps example_session example_push (stale_stub, 0) = (Inl (EApp a), (stale_stub, 1))
     \<and> ae_CurrentETag a = ''2''"
proof -
  have k: "row_key (pu_Scope example_push) (pu_ID example_push) = ''project/p1''"
    by (simp add: row_key_def blobKey_def example_push_def)
  have row: "stub_rows stale_stub ''project/p1'' = Some (2, [], [])"
    by (simp add: stub_rows_def stale_stub_def SetBlob_def NewStubCP_def blobKey_def next_etag_def Let_def)
  have no: "\<not> admits (ifMatch_of example_push) (stub_rows stale_stub (row_key (pu_Scope example_push) (pu_ID example_push)))"
    unfolding k row by (simp add: small_itoa ifMatch_of_def example_push_def)
  have fits: "in_int64 stale_stub (row_key (pu_Scope example_push) (pu_ID example_push))"
    unfolding in_int64_def k row
    by (simp add: version_def next_version_def stale_stub_def SetBlob_def NewStubCP_def Let_def)
  obtain a where a: "Push example_stub_deps example_session example_push (stale_stub, 0)
      = (Inl (EApp a), (stale_stub, 0 + 1))"
    "\<forall>m. m \<noteq> [] \<and> m \<noteq> ''*'' \<and> admits m (stub_rows stale_stub (row_key (pu_Scope example_push) (pu_ID example_push)))
       \<longrightarrow> m = ae_CurrentETag a"
    using stale_push_refused [OF on_example_stub example_stub_push example_routable no fits] by metis
  have "ae_CurrentETag a = ''2''" using a(2) [rule_format, of "''2''"] unfolding k row by (simp add: small_itoa)
  then show ?thesis using a(1) by (intro exI [of _ a]) simp
qed

end
