(* ===== verification/Attachment_Store.thy ===== *)
theory Attachment_Store
  imports Attachments Stub_Net
begin

text \<open>
  Attachments over a real store: the enclave's operations with the controlplane on one side and
  the storage sidecar's stub on the other.
\<close>

section \<open>Two services\<close>

text \<open>An operation on one component of the world.\<close>

definition op_fst :: "('s, 'a) op \<Rightarrow> ('s \<times> 't, 'a) op" where
  "op_fst m w = (fst (m (fst w)), (snd (m (fst w)), snd w))"

definition op_snd :: "('t, 'a) op \<Rightarrow> ('s \<times> 't, 'a) op" where
  "op_snd m w = (fst (m (snd w)), (fst w, snd (m (snd w))))"

definition net_fst :: "'s net \<Rightarrow> ('s \<times> 't) net" where
  "net_fst N = \<lparr> net_url_ok = net_url_ok N, net_do = (\<lambda>r. op_fst (net_do N r)),
     net_ctx_err = (\<lambda>w. net_ctx_err N (fst w)), net_time = net_time N \<rparr>"

text \<open>The enclave's storage client, as \<^verbatim>\<open>main.go\<close> wires it.\<close>

definition with_buckets ::
  "('s \<times> (bucket_store \<times> gtime)) deps \<Rightarrow> bucket_client \<Rightarrow> (string \<Rightarrow> string \<Rightarrow> bytes) \<Rightarrow> (bytes \<Rightarrow> string option) \<Rightarrow>
   ('s \<times> (bucket_store \<times> gtime)) deps" where
  "with_buckets D c enc xml = D\<lparr>
     dp_buckets_configured := Configured (Some c),
     dp_buckets_Put := (\<lambda>u t v k. op_snd (bucket_Put (Some c) (bucket_net enc c) u t v k)),
     dp_buckets_GetLimited := (\<lambda>u t k n. op_snd (bucket_GetLimited (Some c) (bucket_net enc c) xml u t k n)),
     dp_buckets_Delete := (\<lambda>u t. op_snd (bucket_Delete (Some c) (bucket_net enc c) u t))\<rparr>"

lemma op_fst_run: "m s = (r, s') \<Longrightarrow> op_fst m (s, t) = (r, (s', t))"
  and op_snd_run: "n t = (r, t') \<Longrightarrow> op_snd n (s, t) = (r, (s, t'))"
  by (simp_all add: op_fst_def op_snd_def)

lemma op_fst_bind: "op_bind (op_fst m) (\<lambda>x. op_fst (f x)) = op_fst (op_bind m f)"
  by (auto simp: op_bind_def op_try_def op_fst_def op_err_def fun_eq_iff split: prod.splits sum.splits)

lemma op_fst_simps: "op_fst (op_ret x) = op_ret x" "op_fst (op_err e) = op_err e" "op_fst (op_lift r) = op_lift r"
  by (simp_all add: op_fst_def fun_eq_iff)

lemma net_fst_simps [simp]: "net_url_ok (net_fst N) = net_url_ok N" "net_do (net_fst N) r = op_fst (net_do N r)"
  by (simp_all add: net_fst_def)

lemma send_fst: "send c (net_fst N) m url b hs = op_fst (send c N m url b hs)"
  by (auto simp: send_def NewRequest_def doRequest_def op_bind_def op_try_def op_fst_def op_lift_def op_err_def fun_eq_iff
      split: prod.splits sum.splits)

lemma post_fst: "postAttachmentChatID c (net_fst N) jwt u a ch p = op_fst (postAttachmentChatID c N jwt u a ch p)"
  by (auto simp: postAttachmentChatID_def send_fst op_bind_def op_try_def op_fst_def op_err_def op_ret_def fun_eq_iff
      split: prod.splits sum.splits)

lemma register_fst: "RegisterAttachmentIndex c (net_fst N) jwt u a ch = op_fst (RegisterAttachmentIndex c N jwt u a ch)"
  and reserve_fst: "ReservePendingAttachmentWrite c (net_fst N) jwt u a ch = op_fst (ReservePendingAttachmentWrite c N jwt u a ch)"
  by (simp_all add: RegisterAttachmentIndex_def ReservePendingAttachmentWrite_def post_fst)

lemma put_steps:
  assumes "Configured (Some c)" "hkdf_ok (dp_hkdf D)" "dp_net D = net_fst N" "stub_owner (se_Subject sess)" "stub_value v"
    and req: "at_ChatID req \<noteq> []" "at_IdempotencyKey req \<noteq> []" "std_decode (at_Plaintext req) = Some v"
      "deriveAttachmentMaterials (dp_hkdf D) (at_IdempotencyKey req) (at_ChatID req) (se_Subject sess) v = Inr (aid, k)"
    and reserve: "ReservePendingAttachmentWrite (dp_cp D) N (se_RawJWT sess) (se_Subject sess) aid (at_ChatID req) s = (Inr (), s1)"
    and register: "RegisterAttachmentIndex (dp_cp D) N (se_RawJWT sess) (se_Subject sess) aid (at_ChatID req) s1 = (r3, s2)"
    and item_def: "item = put_item now (tenantPrefix @ se_Subject sess) k v (map_of st aid)"
  shows "AttachmentPut (with_buckets D c enc xml) sess req (s, (st, now)) =
      (case r3 of
         Inr _ \<Rightarrow> (Inr \<lparr> apr_OK = True, apr_ID = aid, apr_AttKey = b64_encode k \<rparr>, (s2, (al_set aid item st, now + 1)))
       | Inl err \<Rightarrow> (Inl (appError 502 CodeUpstream (''controlplane index failed: '' @ error_string err)),
           (s2, if isControlplaneRejection err then (al_del aid (al_set aid item st), now + 1 + 1) else (al_set aid item st, now + 1))))"
proof -
  let ?D = "with_buckets D c enc xml"
  have k: "length k = 32" "aid \<noteq> []" using materials_shape [OF assms(2) req(4)] by auto
  have put: "bucket_Put (Some c) (bucket_net enc c) (se_Subject sess) aid v k (st, now) = (Inr (), (al_set aid item st, now + 1))"
    unfolding item_def using client_put [OF assms(1,4) k(2) assms(5) k(1)] .
  have del: "snd (deleteObject (tenantPrefix @ se_Subject sess) aid (al_set aid item st)) = al_del aid (al_set aid item st)"
    by (simp add: deleteObject_def item_def)
  show ?thesis
    using req k put reserve register client_del [OF assms(1,4) k(2), of enc "al_set aid item st" "now + 1"] assms(1,3)
    by (simp add: AttachmentPut_def with_buckets_def reserve_fst register_fst op_try_def op_bind_def op_fst_def op_snd_def
        op_ignore_def del split: sum.split)
qed

section \<open>The slot of an upload\<close>

text \<open>
  C7. An upload touches at most its own slot, and leaves bytes behind exactly when it may have been
  registered: with the storage sidecar's stub behind its client and any controlplane, when the
  upload succeeds its slot holds exactly the decoded plaintext under the returned key; when it
  fails, either the store is untouched, or the registration failed, and then the slot is empty if
  the controlplane rejected it with a 4xx and holds the plaintext under the derived key if the
  outcome is ambiguous. Every other slot keeps its content.
\<close>

theorem AttachmentPut_slot:
  assumes "Configured (Some c)" "hkdf_ok (dp_hkdf D)" "dp_net D = net_fst N"
    and "stub_owner (se_Subject sess)" "\<And>v. std_decode (at_Plaintext req) = Some v \<Longrightarrow> stub_value v"
    and "AttachmentPut (with_buckets D c enc xml) sess req (s, (st, now)) = (res, (s', (st', now')))"
  shows "(map_of st' = map_of st \<and> isl res)
    \<or> (\<exists>v aid k item. std_decode (at_Plaintext req) = Some v
         \<and> deriveAttachmentMaterials (dp_hkdf D) (at_IdempotencyKey req) (at_ChatID req) (se_Subject sess) v = Inr (aid, k)
         \<and> it_Tenant item = ''user-'' @ se_Subject sess \<and> it_Value item = v \<and> it_EncryptionKeys item = [k]
         \<and> (case res of
              Inr r \<Rightarrow> r = \<lparr> apr_OK = True, apr_ID = aid, apr_AttKey = b64_encode k \<rparr> \<and> map_of st' = (map_of st)(aid \<mapsto> item)
            | Inl e \<Rightarrow> \<exists>s1 err. RegisterAttachmentIndex (dp_cp D) N (se_RawJWT sess) (se_Subject sess) aid (at_ChatID req) s1
                  = (Inl err, s')
                \<and> map_of st' = (if isControlplaneRejection err then (map_of st)(aid := None) else (map_of st)(aid \<mapsto> item))))"
proof -
  let ?D = "with_buckets D c enc xml"
  have D: "dp_buckets_configured ?D" "dp_hkdf ?D = dp_hkdf D" "dp_cp ?D = dp_cp D" "dp_net ?D = net_fst N"
    "dp_buckets_Put ?D = (\<lambda>u t v k. op_snd (bucket_Put (Some c) (bucket_net enc c) u t v k))"
    "dp_buckets_Delete ?D = (\<lambda>u t. op_snd (bucket_Delete (Some c) (bucket_net enc c) u t))"
    using assms(1,3) by (simp_all add: with_buckets_def)
  show ?thesis
  proof (cases "\<exists>v aid k. at_ChatID req \<noteq> [] \<and> at_IdempotencyKey req \<noteq> [] \<and> std_decode (at_Plaintext req) = Some v
      \<and> deriveAttachmentMaterials (dp_hkdf D) (at_IdempotencyKey req) (at_ChatID req) (se_Subject sess) v = Inr (aid, k)
      \<and> fst (ReservePendingAttachmentWrite (dp_cp D) N (se_RawJWT sess) (se_Subject sess) aid (at_ChatID req) s) = Inr ()")
    case False
    then have "isl res \<and> st' = st"
      using assms(6) D
      by (auto simp: AttachmentPut_def reserve_fst op_try_def op_fst_def op_err_def split: if_splits option.splits sum.splits prod.splits)
    then show ?thesis by simp
  next
    case True
    then obtain v aid k s1 where req: "at_ChatID req \<noteq> []" "at_IdempotencyKey req \<noteq> []" "std_decode (at_Plaintext req) = Some v"
      "deriveAttachmentMaterials (dp_hkdf D) (at_IdempotencyKey req) (at_ChatID req) (se_Subject sess) v = Inr (aid, k)"
      "ReservePendingAttachmentWrite (dp_cp D) N (se_RawJWT sess) (se_Subject sess) aid (at_ChatID req) s = (Inr (), s1)"
      by (metis prod.collapse)
    let ?item = "put_item now (tenantPrefix @ se_Subject sess) k v (map_of st aid)"
    have item: "it_Tenant ?item = ''user-'' @ se_Subject sess" "it_Value ?item = v" "it_EncryptionKeys ?item = [k]"
      by (simp_all add: tenantPrefix_def)
    obtain r3 s2 where reg: "RegisterAttachmentIndex (dp_cp D) N (se_RawJWT sess) (se_Subject sess) aid (at_ChatID req) s1 = (r3, s2)"
      by (cases "RegisterAttachmentIndex (dp_cp D) N (se_RawJWT sess) (se_Subject sess) aid (at_ChatID req) s1")
    note steps = put_steps [OF assms(1-4) assms(5) [OF req(3)] req(1-5) reg refl]
    show ?thesis
    proof (cases r3)
      case (Inl err)
      then show ?thesis using steps [where st = st and now = now and enc = enc and xml = xml] assms(6) req(3,4) item reg
        by (intro disjI2 exI [of _ v] exI [of _ aid] exI [of _ k] exI [of _ ?item])
          (auto simp: fun_eq_iff split: if_splits)
    next
      case (Inr x)
      then show ?thesis using steps [where st = st and now = now and enc = enc and xml = xml] assms(6) req(3,4) item
        by (intro disjI2 exI [of _ v] exI [of _ aid] exI [of _ k] exI [of _ ?item])
          (auto simp: fun_eq_iff)
    qed
  qed
qed

text \<open>An upload that the controlplane accepts, and one whose registration it refuses.\<close>

definition example_att :: "(unit \<times> (bucket_store \<times> gtime)) deps" where
  "example_att = (example_deps (net_fst accept_net) (\<lambda>_. 0))"

definition example_upload :: attachment_put_request where
  "example_upload = \<lparr> at_ChatID = ''c1'', at_Plaintext = b64_encode ''hello'', at_IdempotencyKey = ''i1'' \<rparr>"

lemma example_owner: "stub_owner (se_Subject example_session)"
  by (simp add: stub_owner_def example_session_def tenantIDPattern_def tenantPrefix_def tenant_char_def in_range_def)

lemma example_reserve:
  "aid \<noteq> [] \<Longrightarrow> ReservePendingAttachmentWrite example_client accept_net jwt u aid ''c1'' () = (Inr (), ())"
  "aid \<noteq> [] \<Longrightarrow> RegisterAttachmentIndex example_client accept_net jwt u aid ''c1'' () = (Inr (), ())"
  by (simp_all add: ReservePendingAttachmentWrite_def RegisterAttachmentIndex_def postAttachmentChatID_def send_def NewRequest_def
      doRequest_def op_bind_def op_try_def accept_net_def fixed_net_def not_2xx_def)

theorem AttachmentPut_slot_witness:
  "\<exists>r st' aid item. AttachmentPut (with_buckets example_att example_bucket_client example_enc example_xml) example_session
       example_upload ((), ([], 0)) = (Inr r, ((), (st', 1))) \<and> map_of st' = [apr_ID r \<mapsto> item] \<and> it_Value item = ''hello''"
proof -
  have D: "hkdf_ok (dp_hkdf example_att)" "dp_net example_att = net_fst accept_net" "dp_cp example_att = example_client"
    by (simp_all add: example_att_def example_deps_def example_hkdf_ok)
  have v: "std_decode (at_Plaintext example_upload) = Some ''hello''" "stub_value ''hello''"
    "at_ChatID example_upload \<noteq> []" "at_IdempotencyKey example_upload \<noteq> []" "at_ChatID example_upload = ''c1''"
    by (simp_all add: example_upload_def stub_value_def maxStubPlaintextBytes_def del: b64_encode.simps)
  obtain aid k where m: "deriveAttachmentMaterials (dp_hkdf example_att) (at_IdempotencyKey example_upload)
      (at_ChatID example_upload) (se_Subject example_session) ''hello'' = Inr (aid, k)"
    by (rule materials_total [OF D(1) v(4,3)])
  have aid: "aid \<noteq> []" using materials_shape(2) [OF D(1) m] by auto
  obtain r st' where run: "AttachmentPut (with_buckets example_att example_bucket_client example_enc example_xml) example_session
       example_upload ((), ([], 0)) = (Inr r, ((), (st', 1)))"
    using put_steps [OF example_configured D(1,2) example_owner v(2,3,4,1) m _ _ refl, where s = "()" and ?s1.0 = "()" and ?r3.0 = "Inr ()" and ?s2.0 = "()"
        and st = "[]" and now = 0 and enc = example_enc and xml = example_xml]
    by (simp add: D(3) v(5) example_reserve [OF aid])
  then show ?thesis
    using AttachmentPut_slot [OF example_configured D(1,2) example_owner _ run] v(1,2) by (auto simp: fun_eq_iff)
qed

section \<open>The index at the local controlplane\<close>

text \<open>An id that needs no escaping and is no word of the routes, such as 36 hex digits.\<close>

definition index_id :: "string \<Rightarrow> bool" where
  "index_id aid \<longleftrightarrow> plain_token aid \<and> aid \<noteq> ''sweep''"

lemma plain_keep: "list_all tenant_char s \<Longrightarrow> path_escape s = s"
  by (induction s) (auto simp: tenant_char_def path_keep_def in_range_def)

lemma index_id_facts:
  assumes "index_id aid"
  shows "path_escape aid = aid" "CHR ''?'' \<notin> set aid" "path_unescape aid = Some aid" "seg_unescape aid = aid"
    "split_on (CHR ''/'') aid = [aid]" "aid \<noteq> []" "aid \<noteq> ''.''" "aid \<noteq> ''..''"
proof -
  show e: "path_escape aid = aid" using assms plain_keep by (simp add: index_id_def plain_token_def)
  show "CHR ''?'' \<notin> set aid" "aid \<noteq> ''.''" "aid \<noteq> ''..''"
    using assms by (auto simp: index_id_def plain_token_def list_all_iff tenant_char_def in_range_def)
  show "path_unescape aid = Some aid" using path_unescape_escape [of aid] e by simp
  show "seg_unescape aid = aid" using seg_unescape_escape [of aid] e by simp
  show "split_on (CHR ''/'') aid = [aid]" using split_literal [of aid] e by simp
  show "aid \<noteq> []" using assms by (simp add: index_id_def plain_token_def)
qed

lemma path_unescape_plain: "list_all (\<lambda>c. c \<noteq> CHR ''%'') s \<Longrightarrow> path_unescape (s @ r) = map_option (\<lambda>t. s @ t) (path_unescape r)"
  by (induction s; cases "path_unescape r") auto

lemma serve_route:
  assumes "CHR ''?'' \<notin> set path" "path_unescape path = Some p" "has_prefix p ''/api/sync/''"
    and "clean_segments (tl (split_on (CHR ''/'') path))"
    and "find_route stub_routes m (map seg_unescape (tl (split_on (CHR ''/'') path))) = Some (e, vals)"
    and "rq_URL r = base @ path" "rq_Method r = m" "m \<noteq> ''HEAD''"
    and "header_get (rq_Header r) HeaderServiceSecret = LocalStackSyncEnclaveSecret"
  shows "stub_ServeHTTP H T base now r st = stub_dispatch H T now e vals (query_get (parse_query [])) r st"
  using assms by (simp add: stub_ServeHTTP_def stub_mux_def Let_def cut_plain case_prod_beta)

text \<open>The four routes of the index.\<close>

definition index_route :: "string \<Rightarrow> string \<Rightarrow> endpoint \<Rightarrow> bool" where
  "index_route m word e \<longleftrightarrow>
     (m, word, e) \<in> {(''POST'', ''attachment-index'', EpRegisterAttachmentIndex),
       (''POST'', ''pending-attachments'', EpReservePending), (''GET'', ''attachment-owner'', EpAttachmentOwner),
       (''DELETE'', ''attachment-index'', EpDeleteAttachmentIndex)}"

lemma find_index_blob:
  "word \<noteq> ''blob'' \<Longrightarrow> find_route (map (\<lambda>(p, s). (pm, p, f s)) blob_paths) m [''api'', ''sync'', word, aid] = None"
  by (simp add: blob_paths_def)

lemma find_index:
  assumes "index_route m word e" "index_id aid"
  shows "find_route stub_routes m [''api'', ''sync'', word, aid] = Some (e, [aid])"
proof -
  note a = index_id_facts(6) [OF assms(2)]
  have s: "aid \<noteq> ''sweep''" using assms(2) by (simp add: index_id_def)
  consider "m = ''POST''" "word = ''attachment-index''" "e = EpRegisterAttachmentIndex"
    | "m = ''POST''" "word = ''pending-attachments''" "e = EpReservePending"
    | "m = ''GET''" "word = ''attachment-owner''" "e = EpAttachmentOwner"
    | "m = ''DELETE''" "word = ''attachment-index''" "e = EpDeleteAttachmentIndex"
    using assms(1) by (auto simp: index_route_def)
  then show ?thesis
    by cases (simp_all add: a s stub_routes_def find_route_append find_index_blob method_matches_def)
qed

lemma serve_index:
  assumes "index_route m word e" "index_id aid" "rq_URL r = base @ ''/api/sync/'' @ word @ ''/'' @ aid" "rq_Method r = m"
    and "header_get (rq_Header r) HeaderServiceSecret = LocalStackSyncEnclaveSecret"
  shows "stub_ServeHTTP H T base now r st = stub_dispatch H T now e [aid] (query_get (parse_query [])) r st"
proof (rule serve_route [where path = "''/api/sync/'' @ word @ ''/'' @ aid" and m = m])
  have words: "word \<in> {''attachment-index'', ''pending-attachments'', ''attachment-owner''}" "m \<in> {''POST'', ''GET'', ''DELETE''}"
    using assms(1) by (auto simp: index_route_def)
  have w: "list_all (\<lambda>c. c \<noteq> CHR ''%'' \<and> c \<noteq> CHR ''/'' \<and> c \<noteq> CHR ''?'') word" "seg_unescape word = word" "word \<noteq> []"
    "word \<noteq> ''.''" "word \<noteq> ''..''" "[] \<noteq> word" "''.'' \<noteq> word" "''..'' \<noteq> word"
    using words(1) by (auto simp: seg_unescape_def)
  note a = index_id_facts [OF assms(2)]
  have split: "split_on (CHR ''/'') (word @ CHR ''/'' # aid) = [word, aid]"
    using split_on_append [of "CHR ''/''" word aid] w(1) a(5) by (auto simp: list_all_iff)
  show "CHR ''?'' \<notin> set (''/api/sync/'' @ word @ ''/'' @ aid)" using w a by (auto simp: list_all_iff)
  have "path_unescape (word @ CHR ''/'' # aid) = Some (word @ CHR ''/'' # aid)"
    using path_unescape_plain [of word "CHR ''/'' # aid"] w(1) a(3) by (auto simp: list_all_iff)
  then show "path_unescape (''/api/sync/'' @ word @ ''/'' @ aid) = Some (''/api/sync/'' @ word @ ''/'' @ aid)" by simp
  show "has_prefix (''/api/sync/'' @ word @ ''/'' @ aid) ''/api/sync/''" by simp
  show "clean_segments (tl (split_on (CHR ''/'') (''/api/sync/'' @ word @ ''/'' @ aid)))"
    using w a by (auto simp: split clean_segments_def)
  show "find_route stub_routes m (map seg_unescape (tl (split_on (CHR ''/'') (''/api/sync/'' @ word @ ''/'' @ aid)))) = Some (e, [aid])"
    using find_index [OF assms(1,2)] w(2) a(4) by (simp add: split)
  show "m \<noteq> ''HEAD''" using words(2) by auto
qed (use assms in simp_all)

section \<open>The calls of the client\<close>

text \<open>The user the stub reads from the token is the one of the session.\<close>

definition token_of :: "string \<Rightarrow> string \<Rightarrow> bool" where
  "token_of jwt user \<longleftrightarrow> jwt \<noteq> [] \<and> user \<noteq> [] \<and> stubClerkUserIDFromAuth (''Bearer '' @ jwt) = user"

lemma auth_names [simp]:
  "equal_fold_ascii HeaderAuth ''Authorization''"
  "\<not> equal_fold_ascii HeaderClerkUserID ''Authorization''"
  "\<not> equal_fold_ascii HeaderContentType ''Authorization''"
  "\<not> equal_fold_ascii HeaderServiceSecret ''Authorization''"
  by (simp_all add: equal_fold_ascii_def header_defs lower_num_def)

lemma auth_sent:
  "jwt \<noteq> [] \<Longrightarrow> header_get (header_opt HeaderServiceSecret x (header_set HeaderContentType y (addAuth jwt u []))) ''Authorization''
     = ''Bearer '' @ jwt"
  by (simp add: addAuth_def header_get_opt header_get_set_if header_get_set)

lemma chat_body:
  assumes "is_ascii chat" "chat \<noteq> []"
  shows "body_chat \<lparr> rq_Method = m, rq_URL = u, rq_Header = h, rq_Body = json_encode (JObj [(''chat_id'', JStr chat)]) \<rparr> = Some chat"
proof -
  have ok: "json_ok 10000 (JObj [(''chat_id'', JStr chat)])" using assms(1) by (simp add: is_ascii_def)
  have "json_first (json_encode (JObj [(''chat_id'', JStr chat)])) = Some (JObj [(''chat_id'', JStr chat)], [])"
    using json_first_encode [OF ok, of "[]"] by simp
  then show ?thesis using assms(2)
    by (simp add: body_chat_def decode_first_def struct_members_def field_values_def del: json_encode.simps)
qed

definition registered :: "string \<Rightarrow> string \<Rightarrow> string \<Rightarrow> stub_cp \<Rightarrow> stub_cp" where
  "registered aid chat user st = st\<lparr>st_attachmentIndex := al_set aid \<lparr> am_chatID = chat, am_clerkUserID = user \<rparr> (st_attachmentIndex st),
     st_legacyAttachments := al_del aid (st_legacyAttachments st), st_pendingAttachments := al_del aid (st_pendingAttachments st)\<rparr>"

definition post_req :: "string \<Rightarrow> string \<Rightarrow> string \<Rightarrow> string \<Rightarrow> string \<Rightarrow> string \<Rightarrow> http_request" where
  "post_req base word aid chat jwt user =
     \<lparr> rq_Method = ''POST'', rq_URL = base @ ''/api/sync/'' @ word @ ''/'' @ aid,
       rq_Header = header_opt HeaderServiceSecret LocalStackSyncEnclaveSecret
         (header_set HeaderContentType ''application/json'' (addAuth jwt user [])),
       rq_Body = json_encode (JObj [(''chat_id'', JStr chat)]) \<rparr>"

lemma post_stub:
  assumes "index_route ''POST'' word e" "index_id aid" "chat \<noteq> []"
  shows "postAttachmentChatID (stub_client base) (stub_net H T base) jwt user aid chat (''/api/sync/'' @ word @ ''/'') (st, now) =
    (case stub_dispatch H T now e [aid] (query_get (parse_query [])) (post_req base word aid chat jwt user) st of
       (resp, st') \<Rightarrow>
         (if not_2xx (rs_Status resp) then Inl (parseError (rs_Status resp) (fst (read_limited 4096 resp))) else Inr (), (st', now + 1)))"
proof -
  have "stub_ServeHTTP H T base now (post_req base word aid chat jwt user) st
      = stub_dispatch H T now e [aid] (query_get (parse_query [])) (post_req base word aid chat jwt user) st"
    by (rule serve_index [OF assms(1,2)]) (simp_all add: secret_sent post_req_def)
  then show ?thesis using index_id_facts(1,6) [OF assms(2)] assms(3)
    by (simp add: postAttachmentChatID_def send_def NewRequest_def doRequest_def rq_set_def op_bind_def op_try_def net_do_eq
        post_req_def split: prod.split del: json_encode.simps)
qed

lemma post_req_reads:
  assumes "is_ascii chat" "chat \<noteq> []"
  shows "body_chat (post_req base word aid chat jwt user) = Some chat"
    "jwt \<noteq> [] \<Longrightarrow> request_user (post_req base word aid chat jwt user) = stubClerkUserIDFromAuth (''Bearer '' @ jwt)"
  using chat_body [OF assms] auth_sent by (simp_all add: post_req_def request_user_def del: json_encode.simps)

lemma register_stub:
  assumes "index_id aid" "chat \<noteq> []" "is_ascii chat" "token_of jwt user"
  shows "RegisterAttachmentIndex (stub_client base) (stub_net H T base) jwt user aid chat (st, now)
    = (Inr (), (registered aid chat user st, now + 1))"
proof -
  have r: "index_route ''POST'' ''attachment-index'' EpRegisterAttachmentIndex" by (simp add: index_route_def)
  show ?thesis
    using post_stub [OF r assms(1,2), of base H T jwt user st now] post_req_reads [OF assms(3,2)] assms(4)
    by (simp add: RegisterAttachmentIndex_def stub_dispatch_def stub_registerAttachmentIndex_def token_of_def
        registered_def status_resp_def not_2xx_def)
qed

lemma reserve_stub:
  assumes "index_id aid" "chat \<noteq> []" "is_ascii chat"
  shows "\<exists>st'. ReservePendingAttachmentWrite (stub_client base) (stub_net H T base) jwt user aid chat (st, now) = (Inr (), (st', now + 1))
     \<and> st_attachmentIndex st' = st_attachmentIndex st"
proof -
  have r: "index_route ''POST'' ''pending-attachments'' EpReservePending" by (simp add: index_route_def)
  show ?thesis
    using post_stub [OF r assms(1,2), of base H T jwt user st now] post_req_reads(1) [OF assms(3,2)]
    by (simp add: ReservePendingAttachmentWrite_def stub_dispatch_def stub_reservePendingAttachment_def
        status_resp_def not_2xx_def)
qed

lemma owner_stub:
  assumes "index_id aid" "map_of (st_attachmentIndex st) aid = Some m" "am_clerkUserID m = user" "user \<noteq> []" "is_ascii user"
    "length user \<le> 64"
  shows "ResolveAttachmentOwner (stub_client base) (net_fst (stub_net H T base)) aid ((st, now), w) = (Inr user, ((st, now + 1), w))"
proof -
  let ?r = "\<lparr> rq_Method = ''GET'', rq_URL = base @ ''/api/sync/attachment-owner/'' @ aid,
    rq_Header = header_opt HeaderServiceSecret LocalStackSyncEnclaveSecret [], rq_Body = [] \<rparr>"
  let ?j = "json_map [(''clerk_user_id'', JStr user)]"
  have route: "index_route ''GET'' ''attachment-owner'' EpAttachmentOwner" by (simp add: index_route_def)
  have "stub_ServeHTTP H T base now ?r st = stub_dispatch H T now EpAttachmentOwner [aid] (query_get (parse_query [])) ?r st"
    by (rule serve_index [OF route assms(1)]) (simp_all add: secret_sent)
  then have serve: "stub_ServeHTTP H T base now ?r st = (json_resp 200 json_type ?j, st)"
    using assms(2-4) by (simp add: stub_dispatch_def stub_attachmentOwner_def)
  have j: "?j = JObj [(''clerk_user_id'', JStr user)]" by (simp add: json_map_def)
  have ok: "json_ok 10000 ?j" using assms(5) by (simp add: j is_ascii_def)
  have "length (jstring user) \<le> 386" using length_jstring [OF assms(5)] assms(6) by simp
  then have len: "length (json_encode ?j) \<le> 1000"
    by (simp add: j jstring_def estr.simps(2) ascii_escape_def)
  have "unmarshal (\<lambda>m. dec_string [] (field_values ''clerk_user_id'' m)) (json_encode ?j @ [CHR 0x0A]) = Some user"
    using json_parse_line [OF ok] by (simp add: unmarshal_def j struct_members_def field_values_def del: json_encode.simps)
  then show ?thesis
    using serve len index_id_facts(1,6) [OF assms(1)] assms(4)
    by (simp add: ResolveAttachmentOwner_def send_fst op_fst_def send_def NewRequest_def doRequest_def rq_set_def op_bind_def
        op_try_def net_do_eq json_resp_def read_whole del: json_encode.simps)
qed

lemma unowned_stub:
  assumes "index_id aid" "map_of (st_attachmentIndex st) aid = None"
  shows "ResolveAttachmentOwner (stub_client base) (net_fst (stub_net H T base)) aid ((st, now), w)
    = (Inl (ESent ErrAttachmentNotFound), ((st, now + 1), w))"
proof -
  let ?r = "\<lparr> rq_Method = ''GET'', rq_URL = base @ ''/api/sync/attachment-owner/'' @ aid,
    rq_Header = header_opt HeaderServiceSecret LocalStackSyncEnclaveSecret [], rq_Body = [] \<rparr>"
  have route: "index_route ''GET'' ''attachment-owner'' EpAttachmentOwner" by (simp add: index_route_def)
  have "stub_ServeHTTP H T base now ?r st = stub_dispatch H T now EpAttachmentOwner [aid] (query_get (parse_query [])) ?r st"
    by (rule serve_index [OF route assms(1)]) (simp_all add: secret_sent)
  then have serve: "stub_ServeHTTP H T base now ?r st = (status_resp 404, st)"
    using assms(2) by (simp add: stub_dispatch_def stub_attachmentOwner_def)
  then show ?thesis
    using index_id_facts(1,6) [OF assms(1)]
    by (simp add: ResolveAttachmentOwner_def send_fst op_fst_def send_def NewRequest_def doRequest_def rq_set_def op_bind_def
        op_try_def net_do_eq status_resp_def read_whole)
qed

lemma unregister_stub:
  assumes "index_id aid" "map_of (st_attachmentIndex st) aid = Some m"
  shows "DeleteAttachmentIndex (stub_client base) (net_fst (stub_net H T base)) jwt user aid ((st, now), w)
    = (Inr (), ((st\<lparr>st_attachmentIndex := al_del aid (st_attachmentIndex st)\<rparr>, now + 1), w))"
proof -
  let ?r = "\<lparr> rq_Method = ''DELETE'', rq_URL = base @ ''/api/sync/attachment-index/'' @ aid,
    rq_Header = header_opt HeaderServiceSecret LocalStackSyncEnclaveSecret (addAuth jwt user []), rq_Body = [] \<rparr>"
  have route: "index_route ''DELETE'' ''attachment-index'' EpDeleteAttachmentIndex" by (simp add: index_route_def)
  have "stub_ServeHTTP H T base now ?r st = stub_dispatch H T now EpDeleteAttachmentIndex [aid] (query_get (parse_query [])) ?r st"
    by (rule serve_index [OF route assms(1)]) (simp_all add: secret_sent)
  then have serve: "stub_ServeHTTP H T base now ?r st
      = (status_resp 204, st\<lparr>st_attachmentIndex := al_del aid (st_attachmentIndex st)\<rparr>)"
    using assms(2) by (simp add: stub_dispatch_def stub_deleteAttachmentIndex_def)
  then show ?thesis
    using index_id_facts(1,6) [OF assms(1)]
    by (simp add: DeleteAttachmentIndex_def send_fst op_fst_def send_def NewRequest_def doRequest_def rq_set_def op_bind_def
        op_try_def net_do_eq status_resp_def not_2xx_def)
qed

section \<open>From end to end\<close>

text \<open>The enclave on the two stubs of the local stack.\<close>

definition on_stubs :: "(nat \<Rightarrow> stub_cp \<Rightarrow> stub_cp) \<Rightarrow> time_lib \<Rightarrow> string \<Rightarrow>
  ((stub_cp \<times> gtime) \<times> (bucket_store \<times> gtime)) deps \<Rightarrow> bool" where
  "on_stubs H T base D \<longleftrightarrow> dp_cp D = stub_client base \<and> dp_net D = net_fst (stub_net H T base) \<and> hkdf_ok (dp_hkdf D)"

lemma index_id_hex: "list_all is_lower_hex_char aid \<Longrightarrow> length aid = 36 \<Longrightarrow> index_id aid"
  using lower_hex_token by (fastforce simp: index_id_def)

lemma stub_owner_ascii: "stub_owner u \<Longrightarrow> is_ascii u \<and> length u \<le> 64 \<and> u \<noteq> []"
  by (auto simp: stub_owner_def tenantIDPattern_def tenantPrefix_def is_ascii_def list_all_iff tenant_char_def in_range_def)

lemma get_on_stubs:
  assumes "Configured (Some c)" "on_stubs H T base D" "index_id aid" "length k = 32" "stub_owner user"
    and "map_of (st_attachmentIndex cp) aid = Some m" "am_clerkUserID m = user"
  shows "fst (AttachmentGet (with_buckets D c enc xml) \<lparr> ag_ID = aid, ag_AttKey = b64_encode k \<rparr> ((cp, t), w)) =
    (case fst (bucket_GetLimited (Some c) (bucket_net enc c) xml user aid k 0 w) of
       Inl err \<Rightarrow>
         if errors_is ErrBucketNotFound err then Inl (appError 404 CodeNotFound ''attachment not found'')
         else if errors_is ErrBucketForbidden err then Inl (badRequest ''attachment key does not match'')
         else Inl (appError 502 CodeUpstream (''buckets get failed: '' @ error_string err))
     | Inr plaintext \<Rightarrow> Inr \<lparr> agr_OK = True, agr_Plaintext = b64_encode plaintext \<rparr>)"
  using owner_stub [OF assms(3,6,7), of base H T t w] stub_owner_ascii [OF assms(5)] assms(1-4) index_id_facts(6) [OF assms(3)]
  by (simp add: AttachmentGet_def with_buckets_def on_stubs_def attKeySize_def op_try_def op_snd_def
      split: sum.split prod.split del: b64_encode.simps)

text \<open>
  C5. What is uploaded can be read back with the returned id and key, with nothing else, and until
  it is deleted: on the stubs of the local stack, an upload by the user its token names succeeds;
  from then on, whatever else happens to either service, while the index still names the owner and
  the slot still holds the item, fetching the id with the returned key gives exactly the uploaded
  bytes, and with any other 32-byte key a bad request; and once the owner has deleted it, a 404.
\<close>

theorem attachment_roundtrip:
  assumes "Configured (Some c)" "xml_ok enc xml" "on_stubs H T base D"
    and "stub_owner (se_Subject sess)" "token_of (se_RawJWT sess) (se_Subject sess)"
    and "std_decode (at_Plaintext req) = Some v" "stub_value v"
    and "at_ChatID req \<noteq> []" "is_ascii (at_ChatID req)" "at_IdempotencyKey req \<noteq> []"
  shows "\<exists>r k cp' t' st' now'. AttachmentPut (with_buckets D c enc xml) sess req ((cp, t), (st, now)) = (Inr r, ((cp', t'), (st', now')))
    \<and> apr_AttKey r = b64_encode k \<and> length k = 32
    \<and> (\<forall>cp'' t'' st'' now''. map_of (st_attachmentIndex cp'') (apr_ID r) = map_of (st_attachmentIndex cp') (apr_ID r)
          \<and> map_of st'' (apr_ID r) = map_of st' (apr_ID r) \<longrightarrow>
        fst (AttachmentGet (with_buckets D c enc xml) \<lparr> ag_ID = apr_ID r, ag_AttKey = apr_AttKey r \<rparr> ((cp'', t''), (st'', now'')))
          = Inr \<lparr> agr_OK = True, agr_Plaintext = b64_encode v \<rparr>
        \<and> (\<forall>k'. length k' = 32 \<and> k' \<noteq> k \<longrightarrow>
            fst (AttachmentGet (with_buckets D c enc xml) \<lparr> ag_ID = apr_ID r, ag_AttKey = b64_encode k' \<rparr> ((cp'', t''), (st'', now'')))
              = Inl (badRequest ''attachment key does not match''))
        \<and> (\<exists>w. AttachmentDelete (with_buckets D c enc xml) sess (apr_ID r) ((cp'', t''), (st'', now'')) = (Inr (), w)
              \<and> map_of (fst (snd w)) (apr_ID r) = None
              \<and> fst (AttachmentGet (with_buckets D c enc xml) \<lparr> ag_ID = apr_ID r, ag_AttKey = apr_AttKey r \<rparr> w)
                = Inl (appError 404 CodeNotFound ''attachment not found'')))"
proof -
  let ?D = "with_buckets D c enc xml" and ?u = "se_Subject sess"
  have D: "dp_cp D = stub_client base" "dp_net D = net_fst (stub_net H T base)" "hkdf_ok (dp_hkdf D)"
    using assms(3) by (simp_all add: on_stubs_def)
  note got_forbidden = bucket_stub.got_forbidden [OF bucket_stub.intro [OF assms(1,2)]]
  obtain aid k where m: "deriveAttachmentMaterials (dp_hkdf D) (at_IdempotencyKey req) (at_ChatID req) ?u v = Inr (aid, k)"
    by (rule materials_total [OF D(3) assms(10,8)])
  note shape = materials_shape [OF D(3) m]
  have aid: "index_id aid" "plain_token aid" using index_id_hex [OF shape(3,2)] by (auto simp: index_id_def)
  note plain = index_id_facts(6) [OF aid(1)]
  obtain cp1 where reserve: "ReservePendingAttachmentWrite (dp_cp D) (stub_net H T base) (se_RawJWT sess) ?u aid (at_ChatID req) (cp, t)
      = (Inr (), (cp1, t + 1))"
    using reserve_stub [OF aid(1) assms(8,9), of base H T "se_RawJWT sess" ?u cp t] by (auto simp: D(1))
  let ?cp' = "registered aid (at_ChatID req) ?u cp1"
  have register: "RegisterAttachmentIndex (dp_cp D) (stub_net H T base) (se_RawJWT sess) ?u aid (at_ChatID req) (cp1, t + 1)
      = (Inr (), (?cp', t + 1 + 1))"
    using register_stub [OF aid(1) assms(8,9,5)] by (simp add: D(1))
  let ?item = "put_item now (tenantPrefix @ ?u) k v (map_of st aid)"
  let ?r = "\<lparr> apr_OK = True, apr_ID = aid, apr_AttKey = b64_encode k \<rparr>"
  have put: "AttachmentPut ?D sess req ((cp, t), (st, now)) = (Inr ?r, ((?cp', t + 1 + 1), (al_set aid ?item st, now + 1)))"
    using put_steps [OF assms(1) D(3,2) assms(4,7,8,10,6) m reserve register refl] by simp
  have later: "fst (AttachmentGet ?D \<lparr> ag_ID = aid, ag_AttKey = b64_encode k \<rparr> ((cp'', t''), (st'', now'')))
        = Inr \<lparr> agr_OK = True, agr_Plaintext = b64_encode v \<rparr>
      \<and> (\<forall>k'. length k' = 32 \<and> k' \<noteq> k \<longrightarrow>
          fst (AttachmentGet ?D \<lparr> ag_ID = aid, ag_AttKey = b64_encode k' \<rparr> ((cp'', t''), (st'', now'')))
            = Inl (badRequest ''attachment key does not match''))
      \<and> (\<exists>w. AttachmentDelete ?D sess aid ((cp'', t''), (st'', now'')) = (Inr (), w)
            \<and> map_of (fst (snd w)) aid = None
            \<and> fst (AttachmentGet ?D \<lparr> ag_ID = aid, ag_AttKey = b64_encode k \<rparr> w)
              = Inl (appError 404 CodeNotFound ''attachment not found''))"
    if idx: "map_of (st_attachmentIndex cp'') aid = map_of (st_attachmentIndex ?cp') aid"
      and slot: "map_of st'' aid = map_of (al_set aid ?item st) aid" for cp'' t'' st'' now''
  proof -
    have own: "map_of (st_attachmentIndex cp'') aid = Some \<lparr> am_chatID = at_ChatID req, am_clerkUserID = ?u \<rparr>"
      using idx by (simp add: registered_def)
    have item: "map_of st'' aid = Some ?item" using slot by simp
    have got: "fst (bucket_GetLimited (Some c) (bucket_net enc c) xml ?u aid k 0 (st'', now'')) = Inr v"
      using client_get [OF assms(1,4) plain shape(1)] item by (simp add: got_def getObject_def fits_def)
    have wrong: "fst (bucket_GetLimited (Some c) (bucket_net enc c) xml ?u aid k' 0 (st'', now'')) = Inl (ESent ErrBucketForbidden)"
      if "length k' = 32" "k' \<noteq> k" for k'
      using client_get [OF assms(1,4) plain that(1)] that(2) item by (simp add: getObject_simps(3) got_forbidden)
    note get = get_on_stubs [OF assms(1,3) aid(1) _ assms(4) own]
    let ?st3 = "snd (deleteObject (tenantPrefix @ ?u) aid st'')"
    let ?w = "((cp''\<lparr>st_attachmentIndex := al_del aid (st_attachmentIndex cp'')\<rparr>, t'' + 1), (?st3, now'' + 1))"
    have del: "AttachmentDelete ?D sess aid ((cp'', t''), (st'', now'')) = (Inr (), ?w)"
      using client_del [OF assms(1,4) plain, of enc st'' now''] assms(1) plain
      by (simp add: AttachmentDelete_def with_buckets_def D(1,2) op_try_def op_snd_def unregister_stub [OF aid(1) own])
    have gone: "map_of ?st3 aid = None" using item by (simp add: deleteObject_def)
    have after: "fst (AttachmentGet ?D \<lparr> ag_ID = aid, ag_AttKey = b64_encode k \<rparr> ?w)
        = Inl (appError 404 CodeNotFound ''attachment not found'')"
      using assms(1) plain shape(1)
      by (simp add: AttachmentGet_def with_buckets_def D(1,2) attKeySize_def op_try_def sentinel_is_def unowned_stub [OF aid(1)]
          del: b64_encode.simps)
    show ?thesis using get [of k] get got wrong shape(1) del gone after
      by (intro conjI allI impI exI [of _ ?w]) (simp_all add: sentinel_is_def del: b64_encode.simps)
  qed
  show ?thesis
    by (intro exI [of _ ?r] exI [of _ k] exI [of _ ?cp'] exI [of _ "t + 1 + 1"] exI [of _ "al_set aid ?item st"]
        exI [of _ "now + 1"] conjI allI impI)
      (use put shape(1) later in \<open>simp_all del: b64_encode.simps\<close>)
qed

text \<open>A session whose token names its user.\<close>

definition token_session :: session where
  "token_session = \<lparr> se_RawJWT = ''h.'' @ raw_url_encode (json_encode (JObj [(''sub'', JStr ''user_1'')])) @ ''.s'',
     se_Subject = ''user_1'' \<rparr>"

lemma b64_no_dot: "CHR ''.'' \<notin> set (b64_encode x)"
proof -
  have "b64char n \<noteq> CHR ''.''" if "n < 64" for n
    using is_std_b64char [OF that] by (auto simp: is_std_b64_char_def b64val_def)
  then show ?thesis by (induction x rule: b64_encode.induct) (simp_all add: eq_commute [of "CHR ''.''"])
qed

lemma raw_url_no_dot: "CHR ''.'' \<notin> set (raw_url_encode x)"
  using b64_no_dot [of x] by (auto simp: raw_url_encode_def url_char_def split: if_splits)

lemma token_session_ok: "token_of (se_RawJWT token_session) (se_Subject token_session)"
proof -
  let ?p = "raw_url_encode (json_encode (JObj [(''sub'', JStr ''user_1'')]))"
  have "CHR ''.'' \<notin> set ?p" by (rule raw_url_no_dot)
  then have "split_on (CHR ''.'') (?p @ ''.s'') = [?p, ''s'']" using split_on_append [of "CHR ''.''" ?p "''s''"] by simp
  then have parts: "split_on (CHR ''.'') (''h.'' @ ?p @ ''.s'') = [''h'', ?p, ''s'']" by simp
  have ok: "json_ok 10000 (JObj [(''sub'', JStr ''user_1'')])" by (simp add: is_ascii_def)
  have "unmarshal (\<lambda>m. dec_string [] (field_values ''sub'' m)) (json_encode (JObj [(''sub'', JStr ''user_1'')])) = Some ''user_1''"
    using json_parse_encode [OF ok]
    by (simp add: unmarshal_def struct_members_def field_values_def del: json_encode.simps)
  then show ?thesis using parts
    by (simp add: token_of_def token_session_def stubClerkUserIDFromAuth_def del: json_encode.simps)
qed

definition example_stubs :: "((stub_cp \<times> gtime) \<times> (bucket_store \<times> gtime)) deps" where
  "example_stubs = (example_deps (net_fst (stub_net (\<lambda>_ st. st) no_times ''http://cp'')) (\<lambda>_. 0))\<lparr>dp_cp := stub_client ''http://cp''\<rparr>"

theorem attachment_roundtrip_witness:
  "\<exists>r w. AttachmentPut (with_buckets example_stubs example_bucket_client example_enc example_xml) token_session example_upload
       ((NewStubCP, 0), (NewStore, 0)) = (Inr r, w)
     \<and> fst (AttachmentGet (with_buckets example_stubs example_bucket_client example_enc example_xml)
         \<lparr> ag_ID = apr_ID r, ag_AttKey = apr_AttKey r \<rparr> w) = Inr \<lparr> agr_OK = True, agr_Plaintext = b64_encode ''hello'' \<rparr>"
proof -
  have D: "on_stubs (\<lambda>_ st. st) no_times ''http://cp'' example_stubs"
    by (simp add: on_stubs_def example_stubs_def example_deps_def example_hkdf_ok)
  have u: "stub_owner (se_Subject token_session)"
    using example_owner by (simp add: token_session_def example_session_def)
  have v: "std_decode (at_Plaintext example_upload) = Some ''hello''" "stub_value ''hello''"
    "at_ChatID example_upload \<noteq> []" "is_ascii (at_ChatID example_upload)" "at_IdempotencyKey example_upload \<noteq> []"
    by (simp_all add: example_upload_def stub_value_def maxStubPlaintextBytes_def is_ascii_def del: b64_encode.simps)
  obtain r k cp' t' st' now' where put: "AttachmentPut (with_buckets example_stubs example_bucket_client example_enc example_xml)
      token_session example_upload ((NewStubCP, 0), (NewStore, 0)) = (Inr r, ((cp', t'), (st', now')))"
    and get: "fst (AttachmentGet (with_buckets example_stubs example_bucket_client example_enc example_xml)
         \<lparr> ag_ID = apr_ID r, ag_AttKey = apr_AttKey r \<rparr> ((cp', t'), (st', now'))) = Inr \<lparr> agr_OK = True, agr_Plaintext = b64_encode ''hello'' \<rparr>"
    using attachment_roundtrip [OF example_configured example_xml_ok D u token_session_ok v] by metis
  then show ?thesis by blast
qed

end
