(* ===== verification/Share.thy ===== *)
theory Share
  imports Attachments Server_Ops
begin

text \<open>
  \<^verbatim>\<open>server/share_ops.go\<close>: sealing a plaintext under a fresh key for a share link, and opening it with
  the key of the link. Neither uses the user's key.
\<close>

definition shareKeySize :: nat where "shareKeySize = KeySize"
definition shareIVSize :: nat where "shareIVSize = NonceSize"
definition shareMaxPlaintextBytes :: nat where "shareMaxPlaintextBytes = 32 * 1024 * 1024"

lemmas share_defs = shareKeySize_def shareIVSize_def shareMaxPlaintextBytes_def

record share_seal_response =
  ss_OK :: bool
  ss_ShareKey :: string
  ss_Ciphertext :: string

record share_open_request =
  so_ShareKey :: string
  so_Ciphertext :: string

record share_open_response =
  sr_OK :: bool
  sr_Plaintext :: string

definition share_seal :: "bytes \<Rightarrow> bytes \<Rightarrow> entropy \<Rightarrow> (bytes \<times> entropy) result" where
  "share_seal key plaintext ent = rbind (Seal key plaintext [] ent) (\<lambda>((nonce, ct), ent'). Inr (nonce @ ct, ent'))"

definition share_open :: "bytes \<Rightarrow> bytes \<Rightarrow> bytes result" where
  "share_open key blob =
     (if length blob < shareIVSize + TagSize then Inl (ENew ''share: ciphertext too short'')
      else Open key (take shareIVSize blob) (drop shareIVSize blob) [])"

definition decodeHexKey :: "string \<Rightarrow> bytes result" where
  "decodeHexKey s =
     (if length s \<noteq> shareKeySize * 2
      then Inl (ENew (''expected '' @ itoa (int (shareKeySize * 2)) @ '' hex chars, got '' @ itoa (int (length s))))
      else case hex_decode s of None \<Rightarrow> Inl (ENew ''invalid hex in share key'') | Some out \<Rightarrow> Inr out)"

definition gunzipBytes :: "gzip_lib \<Rightarrow> bytes \<Rightarrow> bytes result" where
  "gunzipBytes gz compressed =
     (case gz_stream gz compressed of
        None \<Rightarrow> Inl (ELib ''compress/gzip'')
      | Some (out, bad) \<Rightarrow>
          if bad \<and> length out \<le> shareMaxPlaintextBytes then Inl (ELib ''compress/gzip'')
          else if length out > shareMaxPlaintextBytes
          then Inl (ENew ''share: decompressed plaintext exceeds limit'')
          else Inr out)"

text \<open>Sealing draws the key and then the nonce.\<close>

definition seal_share :: "gzip_lib \<Rightarrow> bytes \<Rightarrow> entropy \<Rightarrow> (share_seal_response \<times> entropy) result" where
  "seal_share gz plaintext ent =
     (case rand_read shareKeySize ent of
        None \<Rightarrow> Inl (appError 500 CodeInternal (''rand: '' @ error_string (ELib ''crypto/rand'')))
      | Some (key, ent1) \<Rightarrow>
          (case share_seal key (gz_compress gz plaintext) ent1 of
             Inl err \<Rightarrow> Inl (appError 500 CodeInternal (''seal: '' @ error_string err))
           | Inr (ct, ent2) \<Rightarrow>
               Inr (\<lparr> ss_OK = True, ss_ShareKey = hex_encode key, ss_Ciphertext = b64_encode ct \<rparr>, ent2)))"

definition ShareSeal :: "'s deps \<Rightarrow> session \<Rightarrow> string \<Rightarrow> ('s, share_seal_response) op" where
  "ShareSeal D sess plaintext64 =
     (case std_decode plaintext64 of
        None \<Rightarrow> op_err (badRequest ''invalid plaintext base64'')
      | Some plaintext \<Rightarrow>
          if length plaintext > shareMaxPlaintextBytes
          then op_err (badRequest ''plaintext exceeds share size limit'')
          else with_entropy D (seal_share (dp_gz D) plaintext))"

definition ShareOpen :: "'s deps \<Rightarrow> share_open_request \<Rightarrow> share_open_response result" where
  "ShareOpen D req =
     (case decodeHexKey (so_ShareKey req) of
        Inl err \<Rightarrow> Inl (badRequest (''invalid share key: '' @ error_string err))
      | Inr key \<Rightarrow>
          (case std_decode (so_Ciphertext req) of
             None \<Rightarrow> Inl (badRequest ''invalid ciphertext base64'')
           | Some ct \<Rightarrow>
               (case share_open key ct of
                  Inl err \<Rightarrow> Inl (appError 400 CodeBadRequest ''share decrypt failed'')
                | Inr compressed \<Rightarrow>
                    (case gunzipBytes (dp_gz D) compressed of
                       Inl err \<Rightarrow> Inl (appError 400 CodeBadRequest ''share decompress failed'')
                     | Inr plaintext \<Rightarrow> Inr \<lparr> sr_OK = True, sr_Plaintext = b64_encode plaintext \<rparr>))))"

section \<open>Facts\<close>

lemma share_open_Inr:
  "share_open key blob = Inr m \<longleftrightarrow>
     length key = 32 \<and> 28 \<le> length blob \<and> drop 12 blob = gcm_seal key (take 12 blob) m []"
  by (auto simp: share_open_def share_defs Open_Inr)

lemma decodeHexKey_Inr: "decodeHexKey s = Inr k \<longleftrightarrow> length s = 64 \<and> hex_decode s = Some k"
  by (auto simp: decodeHexKey_def share_defs split: option.split)

lemma decodeHexKey_encode [simp]: "length k = 32 \<Longrightarrow> decodeHexKey (hex_encode k) = Inr k"
  by (simp add: decodeHexKey_Inr)

lemma share_open_seal:
  assumes "share_seal key m ent = Inr (ct, ent')"
  shows "share_open key ct = Inr m"
proof -
  obtain nonce c where s: "Seal key m [] ent = Inr ((nonce, c), ent')" "ct = nonce @ c"
    using assms by (auto simp: share_seal_def result_simps)
  then have "length nonce = 12" "c = gcm_seal key nonce m []" "length key = 32"
    by (auto simp: Seal_Inr dest: rand_read_Some)
  then show ?thesis using s(2) by (simp add: share_open_Inr)
qed

text \<open>
  C9. What is shared can be opened with the key of the link, and with no other: sealing a
  plaintext of at most 32 MiB succeeds whenever 44 bytes of randomness can be drawn; opening the
  returned ciphertext with the returned key, by anyone, gives exactly the plaintext; and a key or a
  ciphertext that opens to anything at all is one under which the ciphertext was sealed, tag
  included, for what it opens to.
\<close>

theorem share_roundtrip:
  assumes "gzip_ok (dp_gz D)" "std_decode pt64 = Some pt" "length pt \<le> shareMaxPlaintextBytes"
    and "44 \<le> length (fst (dp_entropy D s))"
  shows "\<exists>r s'. ShareSeal D sess pt64 s = (Inr r, s') \<and> length (ss_ShareKey r) = 64
    \<and> (\<forall>D'. dp_gz D' = dp_gz D \<longrightarrow>
         ShareOpen D' \<lparr> so_ShareKey = ss_ShareKey r, so_Ciphertext = ss_Ciphertext r \<rparr>
           = Inr \<lparr> sr_OK = True, sr_Plaintext = b64_encode pt \<rparr>)
    \<and> (\<forall>k o'. ShareOpen D \<lparr> so_ShareKey = k, so_Ciphertext = ss_Ciphertext r \<rparr> = Inr o' \<longrightarrow>
         (\<exists>key ct m out. hex_decode k = Some key \<and> std_decode (ss_Ciphertext r) = Some ct
            \<and> drop 12 ct = gcm_seal key (take 12 ct) m [] \<and> gz_stream (dp_gz D) m = Some (out, False)
            \<and> sr_Plaintext o' = b64_encode out))"
proof -
  obtain ent s' where e: "dp_entropy D s = (ent, s')" by (cases "dp_entropy D s")
  define key where "key = take 32 ent"
  define nonce where "nonce = take 12 (drop 32 ent)"
  let ?c = "gz_compress (dp_gz D) pt"
  have len: "44 \<le> length ent" using assms(4) e by simp
  have key: "rand_read 32 ent = Some (key, drop 32 ent)" "length key = 32"
    using len by (simp_all add: rand_read_def key_def)
  have sealed: "share_seal key ?c (drop 32 ent) = Inr (nonce @ gcm_seal key nonce ?c [], drop 12 (drop 32 ent))"
    using len key(2) by (simp add: share_seal_def Seal_def rand_read_def nonce_def)
  let ?r = "\<lparr> ss_OK = True, ss_ShareKey = hex_encode key, ss_Ciphertext = b64_encode (nonce @ gcm_seal key nonce ?c []) \<rparr>"
  have run: "ShareSeal D sess pt64 s = (Inr ?r, s')"
    using assms(2,3) e key(1) sealed
    by (simp add: ShareSeal_def with_entropy_def seal_share_def share_defs del: b64_encode.simps hex_encode.simps)
  have opened: "ShareOpen D' \<lparr> so_ShareKey = ss_ShareKey ?r, so_Ciphertext = ss_Ciphertext ?r \<rparr>
      = Inr \<lparr> sr_OK = True, sr_Plaintext = b64_encode pt \<rparr>" if "dp_gz D' = dp_gz D" for D' :: "'b deps"
    using share_open_seal [OF sealed] key(2) assms(1,3) that
    by (simp add: ShareOpen_def gunzipBytes_def gzip_ok_def del: b64_encode.simps hex_encode.simps)
  have sound: "\<exists>key ct m out. hex_decode k = Some key \<and> std_decode (ss_Ciphertext ?r) = Some ct
      \<and> drop 12 ct = gcm_seal key (take 12 ct) m [] \<and> gz_stream (dp_gz D) m = Some (out, False)
      \<and> sr_Plaintext o' = b64_encode out"
    if "ShareOpen D \<lparr> so_ShareKey = k, so_Ciphertext = ss_Ciphertext ?r \<rparr> = Inr o'" for k o'
    using that
    by (auto simp: ShareOpen_def decodeHexKey_Inr share_open_Inr gunzipBytes_def
        split: sum.splits option.splits prod.splits if_splits simp del: b64_encode.simps)
  show ?thesis using run opened key(2) sound
    by (intro exI [of _ ?r] exI [of _ s']) (simp del: b64_encode.simps)
qed

theorem share_roundtrip_witness:
  "\<exists>r s'. ShareSeal (example_deps accept_net (\<lambda>_. 0)) example_session (b64_encode ''hello'') () = (Inr r, s')
     \<and> ShareOpen (example_deps accept_net (\<lambda>_. 0)) \<lparr> so_ShareKey = ss_ShareKey r, so_Ciphertext = ss_Ciphertext r \<rparr>
        = Inr \<lparr> sr_OK = True, sr_Plaintext = b64_encode ''hello'' \<rparr>"
proof -
  let ?D = "example_deps accept_net (\<lambda>_. 0)"
  have D: "gzip_ok (dp_gz ?D)" "44 \<le> length (fst (dp_entropy ?D ()))"
    by (simp_all add: example_deps_def example_gzip_ok example_entropy_def)
  show ?thesis
    using share_roundtrip [OF D(1) std_decode_encode [of "''hello''"] _ D(2), of example_session] by (auto simp: shareMaxPlaintextBytes_def)
qed

end
