(* ===== verification/Workers.thy ===== *)
theory Workers
  imports Attachments Server_Ops
begin

text \<open>
  The background workers: \<^verbatim>\<open>server/attachment_purge_worker.go\<close>, \<^verbatim>\<open>server/orphan_reaper.go\<close> and
  \<^verbatim>\<open>server/search_deletion_worker.go\<close>. What is modelled is one sweep of each; the loops around them
  run a sweep per tick until their context ends, and drop its result. A joined error is a list, which is
  nil exactly when the list is empty. The deadline of a single call shows in the model only as a
  failure of that call.
\<close>

section \<open>Purging unreferenced attachments\<close>

definition attachmentPurgeQueueBatchSize :: int where "attachmentPurgeQueueBatchSize = 100"
definition attachmentPurgeClaimBatchSize :: nat where "attachmentPurgeClaimBatchSize = 25"
definition attachmentPurgeClaimRounds :: nat where "attachmentPurgeClaimRounds = 20"
definition attachmentPurgeLeaseBudget :: gtime where "attachmentPurgeLeaseBudget = 3 * 60 * 1000000000"

definition delete_failed :: "string \<Rightarrow> string \<Rightarrow> go_error \<Rightarrow> go_error" where
  "delete_failed what i err = wrap_prefix (''delete '' @ what @ '' '' @ i @ '': '') err"

text \<open>The deletes of one claim, none of them started after the lease deadline.\<close>

fun delete_leased :: "'s deps \<Rightarrow> gtime \<Rightarrow> attachment_purge list \<Rightarrow> 's \<Rightarrow> (string list \<times> go_error list) \<times> 's" where
  "delete_leased D leaseDeadline [] s = (([], []), s)"
| "delete_leased D leaseDeadline (p # ps) s =
     (if leaseDeadline - dp_now D s \<le> 0 then (([], []), s)
      else case dp_buckets_Delete D (ap_ClerkUserID p) (ap_AttachmentID p) s of
        (Inl err, s') \<Rightarrow>
          (case delete_leased D leaseDeadline ps s' of
             ((ackIDs, errs), s'') \<Rightarrow> ((ackIDs, delete_failed ''bucket attachment'' (ap_AttachmentID p) err # errs), s''))
      | (Inr _, s') \<Rightarrow>
          (case delete_leased D leaseDeadline ps s' of
             ((ackIDs, errs), s'') \<Rightarrow> ((ap_AttachmentID p # ackIDs, errs), s'')))"

fun purge_rounds :: "nat \<Rightarrow> 's deps \<Rightarrow> int \<Rightarrow> go_error list \<Rightarrow> 's \<Rightarrow> (int \<times> go_error list) \<times> 's" where
  "purge_rounds 0 D deleted errs s = ((deleted, errs), s)"
| "purge_rounds (Suc n) D deleted errs s =
     (case ClaimAttachmentPurges (dp_cp D) (dp_net D) (int attachmentPurgeClaimBatchSize) s of
        (Inl err, s1) \<Rightarrow> ((deleted, errs @ [err]), s1)
      | (Inr (token, purges), s1) \<Rightarrow>
          if purges = [] then ((deleted, errs), s1)
          else if token = [] then ((deleted, [ENew ''controlplane: attachment purge claim missing token'']), s1)
          else (case delete_leased D (dp_now D s1 + attachmentPurgeLeaseBudget) purges s1 of
            ((ackIDs, es), s2) \<Rightarrow>
              (case (if ackIDs = [] then (Inr (), s2) else AckAttachmentPurges (dp_cp D) (dp_net D) token (Some ackIDs) s2) of
                 (Inl err, s3) \<Rightarrow> ((deleted, errs @ es @ [err]), s3)
               | (Inr _, s3) \<Rightarrow>
                   if length purges < attachmentPurgeClaimBatchSize
                   then ((deleted + int (length ackIDs), errs @ es), s3)
                   else purge_rounds n D (deleted + int (length ackIDs)) (errs @ es) s3)))"

definition sweepAttachmentPurges :: "'s deps \<Rightarrow> 's \<Rightarrow> (int \<times> go_error list) \<times> 's" where
  "sweepAttachmentPurges D s =
     (case PurgeUnreferencedAttachments (dp_cp D) (dp_net D) attachmentPurgeQueueBatchSize s of
        (Inl err, s') \<Rightarrow> ((0, [err]), s')
      | (Inr _, s') \<Rightarrow> purge_rounds attachmentPurgeClaimRounds D 0 [] s')"

section \<open>Orphans and pending writes\<close>

definition attachmentOrphanReaperLimit :: int where "attachmentOrphanReaperLimit = 500"
definition pendingAttachmentSweepLimit :: int where "pendingAttachmentSweepLimit = 200"

fun delete_orphans :: "'s deps \<Rightarrow> orphan_attachment_row list \<Rightarrow> 's \<Rightarrow> (int \<times> go_error list) \<times> 's" where
  "delete_orphans D [] s = ((0, []), s)"
| "delete_orphans D (row # rows) s =
     (case dp_buckets_Delete D (oar_ClerkUserID row) (oar_AttachmentID row) s of
        (Inl err, s') \<Rightarrow>
          (case delete_orphans D rows s' of
             ((swept, errs), s'') \<Rightarrow> ((swept, delete_failed ''bucket attachment'' (oar_AttachmentID row) err # errs), s''))
      | (Inr _, s') \<Rightarrow>
          (case delete_orphans D rows s' of ((swept, errs), s'') \<Rightarrow> ((swept + 1, errs), s'')))"

definition sweepAttachmentOrphans :: "'s deps \<Rightarrow> 's \<Rightarrow> (int \<times> go_error list) \<times> 's" where
  "sweepAttachmentOrphans D s =
     (case DeleteOrphanedV2Attachments (dp_cp D) (dp_net D) attachmentOrphanReaperLimit s of
        (Inl err, s') \<Rightarrow> ((0, [err]), s')
      | (Inr rows, s') \<Rightarrow> delete_orphans D rows s')"

definition runPendingAttachmentSweep :: "'s deps \<Rightarrow> 's \<Rightarrow> 's" where
  "runPendingAttachmentSweep D s =
     (case SweepPendingAttachmentWrites (dp_cp D) (dp_net D) pendingAttachmentSweepLimit s of
        (Inl err, s') \<Rightarrow> s'
      | (Inr rows, s') \<Rightarrow>
          fold (\<lambda>row s. snd (dp_buckets_Delete D (par_ClerkUserID row) (par_AttachmentID row) s)) rows s')"

section \<open>Search index objects\<close>

text \<open>The delete of the search bucket is an argument.\<close>

definition searchIndexDeletionBatchSize :: int where "searchIndexDeletionBatchSize = 25"

fun delete_indexes ::
  "(string \<Rightarrow> string \<Rightarrow> ('s, unit) op) \<Rightarrow> search_index_deletion list \<Rightarrow> 's \<Rightarrow> (string list \<times> go_error list) \<times> 's" where
  "delete_indexes del [] s = (([], []), s)"
| "delete_indexes del (d # ds) s =
     (case del (sid_ClerkUserID d) (sid_ObjectKey d) s of
        (Inl err, s') \<Rightarrow>
          (case delete_indexes del ds s' of
             ((ackIDs, errs), s'') \<Rightarrow> ((ackIDs, delete_failed ''search index'' (sid_ID d) err # errs), s''))
      | (Inr _, s') \<Rightarrow>
          (case delete_indexes del ds s' of ((ackIDs, errs), s'') \<Rightarrow> ((sid_ID d # ackIDs, errs), s'')))"

definition sweepSearchIndexDeletions ::
  "'s deps \<Rightarrow> (string \<Rightarrow> string \<Rightarrow> ('s, unit) op) \<Rightarrow> 's \<Rightarrow> (int \<times> go_error list) \<times> 's" where
  "sweepSearchIndexDeletions D del s =
     (case ClaimSearchIndexDeletions (dp_cp D) (dp_net D) searchIndexDeletionBatchSize s of
        (Inl err, s1) \<Rightarrow> ((0, [err]), s1)
      | (Inr (token, deletions), s1) \<Rightarrow>
          if deletions = [] then ((0, []), s1)
          else if token = [] then ((0, [ENew ''controlplane: search index deletion claim missing token'']), s1)
          else (case delete_indexes del deletions s1 of
            ((ackIDs, errs), s2) \<Rightarrow>
              if ackIDs = [] then ((0, errs), s2)
              else (case AckSearchIndexDeletions (dp_cp D) (dp_net D) token (Some ackIDs) s2 of
                (Inl err, s3) \<Rightarrow> ((0, errs @ [err]), s3)
              | (Inr _, s3) \<Rightarrow> ((int (length ackIDs), errs), s3))))"

section \<open>A log of what a sweep does\<close>

text \<open>
  The same world with a log, latest entry first: a request with its answer and the time after it, a
  successful bucket delete with the time it started.
\<close>

datatype event = Sent http_request "http_response result" gtime | Deleted string string gtime

definition ev_net :: "('s \<Rightarrow> gtime) \<Rightarrow> 's net \<Rightarrow> ('s \<times> event list) net" where
  "ev_net now N =
     \<lparr> net_url_ok = net_url_ok N,
       net_do = (\<lambda>q (s, l). case net_do N q s of (r, s') \<Rightarrow> (r, (s', Sent q r (now s') # l))),
       net_ctx_err = (\<lambda>(s, l). net_ctx_err N s), net_time = net_time N \<rparr>"

definition on_state :: "('s \<Rightarrow> 'a \<times> 's) \<Rightarrow> 's \<times> event list \<Rightarrow> 'a \<times> ('s \<times> event list)" where
  "on_state m w = (case w of (s, l) \<Rightarrow> case m s of (x, s') \<Rightarrow> (x, (s', l)))"

definition ev_deps :: "'s deps \<Rightarrow> ('s \<times> event list) deps" where
  "ev_deps D =
     \<lparr> dp_cp = dp_cp D, dp_net = ev_net (dp_now D) (dp_net D), dp_gz = dp_gz D, dp_hkdf = dp_hkdf D,
       dp_entropy = on_state (dp_entropy D), dp_now = (\<lambda>w. dp_now D (fst w)),
       dp_request_id = dp_request_id D, dp_SyncEnclaveSecret = dp_SyncEnclaveSecret D,
       dp_buckets_configured = dp_buckets_configured D,
       dp_buckets_Put = (\<lambda>u i p k. on_state (dp_buckets_Put D u i p k)),
       dp_buckets_GetLimited = (\<lambda>u i k n. on_state (dp_buckets_GetLimited D u i k n)),
       dp_buckets_Delete = (\<lambda>u i (s, l). case dp_buckets_Delete D u i s of
          (Inl e, s') \<Rightarrow> (Inl e, (s', l))
        | (Inr x, s') \<Rightarrow> (Inr x, (s', Deleted u i (dp_now D s) # l))),
       dp_search_configured = dp_search_configured D,
       dp_index_chat = (\<lambda>a b c d e f. on_state (dp_index_chat D a b c d e f)),
       dp_remove_chat = (\<lambda>a b c d. on_state (dp_remove_chat D a b c d)) \<rparr>"

definition claim_url :: "client \<Rightarrow> string" where "claim_url c = cl_baseURL c @ ''/api/sync/attachment-purges/claim''"
definition ack_url :: "client \<Rightarrow> string" where "ack_url c = cl_baseURL c @ ''/api/sync/attachment-purges/ack''"
definition queue_url :: "client \<Rightarrow> string" where "queue_url c = cl_baseURL c @ ''/api/sync/attachment-purges/purge''"

text \<open>
  An acknowledgement is backed by the log before it: right before it come the deletes, and before
  them the claim they belong to, whose answer gives the token and names every attachment deleted.
\<close>

fun deleted_id :: "event \<Rightarrow> string" where
  "deleted_id (Deleted u i t) = i"
| "deleted_id (Sent q r t) = []"

definition backed :: "client \<Rightarrow> http_request \<Rightarrow> event list \<Rightarrow> bool" where
  "backed c ack l \<longleftrightarrow>
     (\<exists>dels q resp t pre token purges.
        l = dels @ Sent q (Inr resp) t # pre \<and> dels \<noteq> []
        \<and> rq_URL q = claim_url c \<and> unmarshal dec_purge_claim (fst (read_limited MiB resp)) = Some (token, purges) \<and> token \<noteq> []
        \<and> (\<forall>d \<in> set dels. \<exists>p \<in> set purges. \<exists>t'. d = Deleted (ap_ClerkUserID p) (ap_AttachmentID p) t'
              \<and> t' < t + attachmentPurgeLeaseBudget)
        \<and> rq_Body ack = json_encode (JObj [(''claim_token'', JStr token),
            (''attachment_ids'', JArr (map JStr (map deleted_id (rev dels))))]))"

fun acks_backed :: "client \<Rightarrow> event list \<Rightarrow> bool" where
  "acks_backed c [] = True"
| "acks_backed c (Deleted u i t # l) = acks_backed c l"
| "acks_backed c (Sent q r t # l) = ((rq_URL q = ack_url c \<longrightarrow> backed c q l) \<and> acks_backed c l)"

fun claims :: "client \<Rightarrow> event list \<Rightarrow> nat" where
  "claims c [] = 0"
| "claims c (Deleted u i t # l) = claims c l"
| "claims c (Sent q r t # l) = (if rq_URL q = claim_url c then 1 else 0) + claims c l"

lemma urls_differ [simp]: "claim_url c \<noteq> ack_url c" "ack_url c \<noteq> claim_url c" "queue_url c \<noteq> ack_url c" "queue_url c \<noteq> claim_url c"
  by (simp_all add: claim_url_def ack_url_def queue_url_def)

lemma ev_deps_simps [simp]:
  "dp_cp (ev_deps D) = dp_cp D" "dp_net (ev_deps D) = ev_net (dp_now D) (dp_net D)" "dp_now (ev_deps D) w = dp_now D (fst w)"
  by (simp_all add: ev_deps_def)

text \<open>A posted call logs at most its one request; a call that decoded its answer logged it.\<close>

lemma postJSON_log:
  assumes "postJSON c (ev_net now N) path inp zero out (s, l) = (r, (s', l'))"
  shows "(l' = l \<and> isl r) \<or> (\<exists>q x. l' = Sent q x (now s') # l \<and> rq_URL q = cl_baseURL c @ path \<and> rq_Body q = json_encode inp
      \<and> (\<forall>y. r = Inr y \<longrightarrow> (\<exists>resp. x = Inr resp \<and> (case out of None \<Rightarrow> True | Some dec \<Rightarrow>
            y = zero \<or> unmarshal dec (fst (read_limited MiB resp)) = Some y))))"
  using assms
  by (auto simp: postJSON_def send_def NewRequest_def doRequest_def rq_set_def ev_net_def op_bind_def op_try_def op_lift_def op_err_def
      op_ret_def split: prod.splits sum.splits if_splits option.splits)

lemma claim_log:
  assumes "ClaimAttachmentPurges c (ev_net now N) n (s, l) = (r, (s', l'))"
  shows "(l' = l \<and> isl r) \<or> (\<exists>q x. l' = Sent q x (now s') # l \<and> rq_URL q = claim_url c
      \<and> (\<forall>tok ps. r = Inr (tok, ps) \<and> ps \<noteq> [] \<longrightarrow>
           (\<exists>resp. x = Inr resp \<and> unmarshal dec_purge_claim (fst (read_limited MiB resp)) = Some (tok, ps))))"
  using postJSON_log [OF assms [unfolded ClaimAttachmentPurges_def]] unfolding claim_url_def by auto

lemma ack_log:
  assumes "AckAttachmentPurges c (ev_net now N) tok (Some ids) (s, l) = (r, (s', l'))"
  shows "l' = l \<or> (\<exists>q x. l' = Sent q x (now s') # l \<and> rq_URL q = ack_url c
      \<and> rq_Body q = json_encode (JObj [(''claim_token'', JStr tok), (''attachment_ids'', JArr (map JStr ids))]))"
  using postJSON_log [OF assms [unfolded AckAttachmentPurges_def]] unfolding ack_url_def json_strings_def by auto

lemma queue_log:
  assumes "PurgeUnreferencedAttachments c (ev_net now N) n (s, l) = (r, (s', l'))"
  shows "l' = l \<or> (\<exists>q x. l' = Sent q x (now s') # l \<and> rq_URL q = queue_url c)"
  using postJSON_log [OF assms [unfolded PurgeUnreferencedAttachments_def]] unfolding queue_url_def by auto

lemma delete_leased_log:
  assumes "delete_leased (ev_deps D) dl ps (s, l) = ((ids, errs), (s', l'))"
  shows "\<exists>dels. l' = dels @ l \<and> ids = map deleted_id (rev dels)
    \<and> (\<forall>d \<in> set dels. \<exists>p \<in> set ps. \<exists>t. d = Deleted (ap_ClerkUserID p) (ap_AttachmentID p) t \<and> t < dl)"
  using assms
proof (induction ps arbitrary: s l ids errs)
  case (Cons p ps)
  show ?case
  proof (cases "dl - dp_now D s \<le> 0")
    case False
    obtain x s1 where del: "dp_buckets_Delete D (ap_ClerkUserID p) (ap_AttachmentID p) s = (x, s1)"
      by (cases "dp_buckets_Delete D (ap_ClerkUserID p) (ap_AttachmentID p) s")
    let ?l1 = "case x of Inl _ \<Rightarrow> l | Inr _ \<Rightarrow> Deleted (ap_ClerkUserID p) (ap_AttachmentID p) (dp_now D s) # l"
    obtain ids' errs' where rest: "delete_leased (ev_deps D) dl ps (s1, ?l1) = ((ids', errs'), (s', l'))"
      and ids: "ids = (case x of Inl _ \<Rightarrow> ids' | Inr _ \<Rightarrow> ap_AttachmentID p # ids')"
      using Cons.prems False del
      by (cases x) (auto simp: ev_deps_def split: prod.splits)
    obtain dels where d: "l' = dels @ ?l1" "ids' = map deleted_id (rev dels)"
      "\<forall>d \<in> set dels. \<exists>p \<in> set ps. \<exists>t. d = Deleted (ap_ClerkUserID p) (ap_AttachmentID p) t \<and> t < dl"
      using Cons.IH [OF rest] by blast
    show ?thesis
    proof (cases x)
      case (Inl e)
      then show ?thesis using d ids by (intro exI [of _ dels]) auto
    next
      case (Inr y)
      then show ?thesis using d ids False
        by (intro exI [of _ "dels @ [Deleted (ap_ClerkUserID p) (ap_AttachmentID p) (dp_now D s)]"]) auto
    qed
  qed (use Cons.prems in auto)
qed simp

lemma deleted_quiet:
  assumes "\<forall>d \<in> set dels. \<exists>p \<in> P. \<exists>t. d = Deleted (f p) (g p) t \<and> Q t"
  shows "acks_backed c (dels @ l) = acks_backed c l" "claims c (dels @ l) = claims c l"
  using assms by (induction dels) auto

lemma purge_rounds_log:
  assumes "purge_rounds n (ev_deps D) del errs (s, l) = (r, (s', l'))" "acks_backed (dp_cp D) l"
  shows "acks_backed (dp_cp D) l' \<and> claims (dp_cp D) l' \<le> claims (dp_cp D) l + n"
  using assms
proof (induction n arbitrary: del errs s l)
  case (Suc n)
  let ?c = "dp_cp D" and ?N = "ev_net (dp_now D) (dp_net D)"
  obtain a s1 l1 where claim: "ClaimAttachmentPurges ?c ?N (int attachmentPurgeClaimBatchSize) (s, l) = (a, (s1, l1))"
    by (metis prod.exhaust)
  note cl = claim_log [OF claim]
  have l1: "acks_backed ?c l1" "claims ?c l1 \<le> claims ?c l + 1" using cl Suc.prems(2) by auto
  show ?case
  proof (cases "\<exists>tok ps. a = Inr (tok, ps) \<and> ps \<noteq> [] \<and> tok \<noteq> []")
    case False
    then have "l' = l1" using Suc.prems(1) claim by (auto split: sum.splits if_splits)
    then show ?thesis using l1 by simp
  next
    case True
    then obtain tok ps where a: "a = Inr (tok, ps)" "ps \<noteq> []" "tok \<noteq> []" by blast
    obtain q resp where q: "l1 = Sent q (Inr resp) (dp_now D s1) # l" "rq_URL q = claim_url ?c"
      "unmarshal dec_purge_claim (fst (read_limited MiB resp)) = Some (tok, ps)"
      using cl a by auto
    obtain ids es s2 l2 where dels: "delete_leased (ev_deps D) (dp_now D s1 + attachmentPurgeLeaseBudget) ps (s1, l1) = ((ids, es), (s2, l2))"
      by (metis prod.exhaust)
    obtain ds where ds: "l2 = ds @ l1" "ids = map deleted_id (rev ds)"
      "\<forall>d \<in> set ds. \<exists>p \<in> set ps. \<exists>t. d = Deleted (ap_ClerkUserID p) (ap_AttachmentID p) t
         \<and> t < dp_now D s1 + attachmentPurgeLeaseBudget"
      using delete_leased_log [OF dels] by blast
    have l2: "acks_backed ?c l2" "claims ?c l2 \<le> claims ?c l + 1"
      using deleted_quiet [OF ds(3)] l1 unfolding ds(1) by simp_all
    obtain b s3 l3 where ack: "(if ids = [] then (Inr (), (s2, l2)) else AckAttachmentPurges ?c ?N tok (Some ids) (s2, l2)) = (b, (s3, l3))"
      by (metis prod.exhaust)
    have l3: "acks_backed ?c l3 \<and> claims ?c l3 \<le> claims ?c l + 1"
    proof (cases "ids = []")
      case True
      then show ?thesis using ack l2 by simp
    next
      case False
      then have sent: "AckAttachmentPurges ?c ?N tok (Some ids) (s2, l2) = (b, (s3, l3))" using ack by simp
      have "backed ?c k l2" if "rq_Body k = json_encode (JObj [(''claim_token'', JStr tok), (''attachment_ids'', JArr (map JStr ids))])" for k
      proof -
        have "l2 = ds @ Sent q (Inr resp) (dp_now D s1) # l" using ds(1) q(1) by simp
        moreover have "ds \<noteq> []" using False ds(2) by auto
        ultimately show ?thesis using that [unfolded ds(2)] q(2,3) a(3) ds(3) unfolding backed_def by blast
      qed
      then show ?thesis using ack_log [OF sent] l2 by (auto simp del: json_encode.simps)
    qed
    have run: "purge_rounds (Suc n) (ev_deps D) del errs (s, l) =
       (case b of Inl err \<Rightarrow> ((del, errs @ es @ [err]), (s3, l3))
        | Inr _ \<Rightarrow> if length ps < attachmentPurgeClaimBatchSize then ((del + int (length ids), errs @ es), (s3, l3))
            else purge_rounds n (ev_deps D) (del + int (length ids)) (errs @ es) (s3, l3))"
      using claim a dels ack by (cases "ids = []"; cases b) simp_all
    show ?thesis
    proof (cases b)
      case (Inl e)
      then show ?thesis using run Suc.prems(1) l3 by auto
    next
      case (Inr y)
      then show ?thesis using run Suc.prems(1) l3
          Suc.IH [of "del + int (length ids)" "errs @ es" s3 l3] by (auto split: if_splits)
    qed
  qed
qed simp


text \<open>A world in which every claim hands out one attachment.\<close>

definition purge_json :: json where
  "purge_json = JObj [(''claim_token'', JStr ''t1''), (''purges'',
     JArr [JObj [(''attachment_id'', JStr ''a1''), (''clerk_user_id'', JStr ''u1'')]])]"

definition purge_reply :: "string \<Rightarrow> http_response" where
  "purge_reply url = \<lparr> rs_Status = 200, rs_Header = [],
     rs_Body = (if url = claim_url example_client then json_encode purge_json else []), rs_Broken = False \<rparr>"

definition purge_net :: "nat net" where
  "purge_net = \<lparr> net_url_ok = (\<lambda>_. True), net_do = (\<lambda>r n. (Inr (purge_reply (rq_URL r)), Suc n)), net_ctx_err = (\<lambda>_. False),
     net_time = \<lparr> tm_parse = (\<lambda>_. None), tm_format = (\<lambda>_. []) \<rparr> \<rparr>"

lemma purge_claim_decodes:
  "unmarshal dec_purge_claim (json_encode purge_json)
     = Some (''t1'', [\<lparr> ap_AttachmentID = ''a1'', ap_ClerkUserID = ''u1'', ap_ChatID = [] \<rparr>])"
  "length (json_encode purge_json) \<le> 1000" "\<not> blank (json_encode purge_json)"
proof -
  have "json_ok 10000 purge_json" by (simp add: purge_json_def is_ascii_def)
  from json_parse_encode [OF this] show "unmarshal dec_purge_claim (json_encode purge_json)
     = Some (''t1'', [\<lparr> ap_AttachmentID = ''a1'', ap_ClerkUserID = ''u1'', ap_ChatID = [] \<rparr>])"
    by (simp add: unmarshal_def) (simp add: purge_json_def dec_purge_claim_def struct_members_def field_values_def)
  show "length (json_encode purge_json) \<le> 1000" "\<not> blank (json_encode purge_json)"
    by (simp_all add: purge_json_def jstring_def estr.simps(2) ascii_escape_def blank_def is_space_def)
qed

lemma purge_reply_read [simp]: "1000 \<le> n \<Longrightarrow> read_limited n (purge_reply u) = (rs_Body (purge_reply u), False)"
  using purge_claim_decodes(2) by (simp add: read_limited_def purge_reply_def)


end
