(* ===== verification/Backup_Inventory.thy ===== *)
theory Backup_Inventory
  imports Stub_Pages Server_Ops
begin

text \<open>
  \<^verbatim>\<open>controlplane/backup_inventory.go\<close> and \<^verbatim>\<open>server/backup_inventory.go\<close>: the list of everything a
  user has stored, fetched in one call, checked item by item and sorted.
\<close>

section \<open>The client call\<close>

definition BackupInventoryPath :: string where "BackupInventoryPath = ''/api/sync/backup-inventory''"
definition MaxBackupInventoryItems :: nat where "MaxBackupInventoryItems = 100000"
definition maxBackupInventoryResponseBytes :: nat where "maxBackupInventoryResponseBytes = 128 * 1024 * 1024"

record backup_inventory =
  bv_CapturedAt :: string
  bv_TotalItems :: int
  bv_Items :: "backup_inventory_item list option"

text \<open>
  \<^verbatim>\<open>strings.TrimSpace(s) == ""\<close>: the runes of \<^verbatim>\<open>unicode.IsSpace\<close> in UTF-8.
\<close>

fun all_space :: "string \<Rightarrow> bool" where
  "all_space [] = True"
| "all_space (c # s) =
     (if is_space c then all_space s
      else if c = CHR 0xC2 then (case s of d # r \<Rightarrow> (d = CHR 0x85 \<or> d = CHR 0xA0) \<and> all_space r | [] \<Rightarrow> False)
      else (case s of
        d # e # r \<Rightarrow>
          (c = CHR 0xE1 \<and> d = CHR 0x9A \<and> e = CHR 0x80
           \<or> c = CHR 0xE2 \<and> d = CHR 0x80 \<and> (128 \<le> byte_val e \<and> byte_val e \<le> 138 \<or> byte_val e \<in> {0xA8, 0xA9, 0xAF})
           \<or> c = CHR 0xE2 \<and> d = CHR 0x81 \<and> e = CHR 0x9F
           \<or> c = CHR 0xE3 \<and> d = CHR 0x80 \<and> e = CHR 0x80) \<and> all_space r
      | _ \<Rightarrow> False))"

definition dec_backup_item :: "json \<Rightarrow> backup_inventory_item option" where
  "dec_backup_item j = do {
     m \<leftarrow> struct_members j;
     sc \<leftarrow> dec_string [] (field_values ''scope'' m);
     i \<leftarrow> dec_string [] (field_values ''id'' m);
     e \<leftarrow> dec_string [] (field_values ''etag'' m);
     p \<leftarrow> dec_ptr_string None (field_values ''project_id'' m);
     c \<leftarrow> dec_string [] (field_values ''created_at'' m);
     u \<leftarrow> dec_string [] (field_values ''updated_at'' m);
     Some \<lparr> bi_Scope = sc, bi_ID = i, bi_ETag = e, bi_ProjectID = p, bi_CreatedAt = c, bi_UpdatedAt = u \<rparr> }"

text \<open>A slice field that is absent or null stays nil.\<close>

definition dec_inventory :: "(string \<times> json) list \<Rightarrow> backup_inventory option" where
  "dec_inventory m = do {
     c \<leftarrow> dec_string [] (field_values ''captured_at'' m);
     t \<leftarrow> dec_int 0 (field_values ''total_items'' m);
     xs \<leftarrow> dec_list dec_backup_item [] (field_values ''items'' m);
     Some \<lparr> bv_CapturedAt = c, bv_TotalItems = t,
       bv_Items = (if field_values ''items'' m = [] \<or> last (field_values ''items'' m) = JNull then None else Some xs) \<rparr> }"

definition invalid_item :: "nat \<Rightarrow> string \<Rightarrow> go_error" where
  "invalid_item index what = ENew (''controlplane: invalid backup inventory item '' @ itoa (int index) @ what)"

definition project_ok :: "backup_inventory_item \<Rightarrow> bool" where
  "project_ok i =
     (if bi_Scope i = ''chat'' then (case bi_ProjectID i of None \<Rightarrow> True | Some p \<Rightarrow> \<not> all_space p)
      else if bi_Scope i = ''project'' then bi_ProjectID i = None
      else (case bi_ProjectID i of None \<Rightarrow> False | Some p \<Rightarrow> \<not> all_space p))"

text \<open>One item: \<open>None\<close> when it is accepted.\<close>

definition item_error :: "time_lib \<Rightarrow> nat \<Rightarrow> (string \<times> string) list \<Rightarrow> backup_inventory_item \<Rightarrow> go_error option" where
  "item_error T index seen i =
     (if all_space (bi_ID i) \<or> all_space (bi_ETag i) then Some (invalid_item index '' identity'')
      else if bi_Scope i \<notin> {''chat'', ''project'', ''project_document''} then Some (invalid_item index '' scope'')
      else if \<not> project_ok i then Some (invalid_item index '' project relationship'')
      else case tm_parse T (bi_CreatedAt i) of
        None \<Rightarrow> Some (invalid_item index '' created_at'')
      | Some createdAt \<Rightarrow>
          (case tm_parse T (bi_UpdatedAt i) of
             None \<Rightarrow> Some (invalid_item index '' updated_at'')
           | Some updatedAt \<Rightarrow>
               if updatedAt < createdAt then Some (invalid_item index '' updated_at'')
               else if inventory_pos i \<in> set seen
               then Some (ENew (''controlplane: duplicate backup inventory item '' @ itoa (int index)))
               else None))"

fun validate_items :: "time_lib \<Rightarrow> nat \<Rightarrow> (string \<times> string) list \<Rightarrow> backup_inventory_item list \<Rightarrow> unit result" where
  "validate_items T index seen [] = Inr ()"
| "validate_items T index seen (i # xs) =
     (case item_error T index seen i of
        Some e \<Rightarrow> Inl e
      | None \<Rightarrow> validate_items T (Suc index) (inventory_pos i # seen) xs)"

definition validateBackupInventory :: "time_lib \<Rightarrow> backup_inventory \<Rightarrow> unit result" where
  "validateBackupInventory T bk =
     (if bv_CapturedAt bk = [] \<or> tm_parse T (bv_CapturedAt bk) = None
      then Inl (ENew ''controlplane: invalid backup inventory captured_at'')
      else case bv_Items bk of
        None \<Rightarrow> Inl (ENew ''controlplane: invalid backup inventory items'')
      | Some xs \<Rightarrow>
          if length xs > MaxBackupInventoryItems
          then Inl (ENew (''controlplane: backup inventory exceeds '' @ itoa (int MaxBackupInventoryItems) @ '' items''))
          else if bv_TotalItems bk \<noteq> int (length xs)
          then Inl (ENew ''controlplane: backup inventory total_items does not match items'')
          else validate_items T 0 [] xs)"

text \<open>Only the code is kept of an error body; a code of another type is skipped.\<close>

definition parseBackupInventoryError :: "int \<Rightarrow> bytes \<Rightarrow> go_error" where
  "parseBackupInventoryError status body =
     (let codes = (case Option.bind (json_parse body) struct_members of
                     None \<Rightarrow> [] | Some m \<Rightarrow> concat (map (\<lambda>v. case v of JStr s \<Rightarrow> [s] | _ \<Rightarrow> []) (field_values ''code'' m)))
      in ECp (zero_cp_error\<lparr>cpe_StatusCode := status, cpe_Code := (if codes = [] then [] else last codes)\<rparr>))"

text \<open>What the call makes of a response.\<close>

definition read_inventory :: "time_lib \<Rightarrow> http_response \<Rightarrow> backup_inventory result" where
  "read_inventory T resp =
     (case read_limited (maxBackupInventoryResponseBytes + 1) resp of (body, readErr) \<Rightarrow>
       if readErr then Inl (wrap_prefix ''controlplane: read backup inventory: '' read_err)
       else if length body > maxBackupInventoryResponseBytes
       then Inl (ENew (''controlplane: backup inventory exceeds '' @ itoa (int maxBackupInventoryResponseBytes) @ '' bytes''))
       else if rs_Status resp \<ge> 400 then Inl (parseBackupInventoryError (rs_Status resp) body)
       else case decode_first dec_inventory body of
         None \<Rightarrow> Inl (wrap_prefix ''controlplane: decode backup inventory: '' json_err)
       | Some (bk, rest) \<Rightarrow>
           if skip_ws rest \<noteq> [] then Inl (ENew ''controlplane: decode backup inventory: trailing data'')
           else rbind (validateBackupInventory T bk)
                  (\<lambda>_. Inr (bk\<lparr>bv_Items := map_option (sort_key inventory_pos) (bv_Items bk)\<rparr>)))"

definition cp_BackupInventory :: "client \<Rightarrow> 's net \<Rightarrow> string \<Rightarrow> string \<Rightarrow> ('s, backup_inventory) op" where
  "cp_BackupInventory c N jwt clerkUserID =
     op_bind (send c N ''GET'' (cl_baseURL c @ BackupInventoryPath) [] (addAuth jwt clerkUserID))
       (\<lambda>resp. op_lift (read_inventory (net_time N) resp))"

section \<open>The operation\<close>

definition BackupInventoryCacheControl :: string where "BackupInventoryCacheControl = ''no-store''"
definition MaxBackupInventoryRequestBytes :: nat where "MaxBackupInventoryRequestBytes = 1024"

text \<open>\<^verbatim>\<open>bytes.TrimSpace\<close> of a value the decoder found, which has only ASCII space around it.\<close>

definition trim_ascii :: "bytes \<Rightarrow> bytes" where
  "trim_ascii b = rev (dropWhile is_space (rev (dropWhile is_space b)))"

definition request_UnmarshalJSON :: "bytes \<Rightarrow> unit result" where
  "request_UnmarshalJSON data =
     (let trimmed = trim_ascii data
      in case trimmed of
        [] \<Rightarrow> Inl (ENew ''backup inventory request must be an empty JSON object'')
      | c # _ \<Rightarrow>
          if c \<noteq> CHR ''{'' then Inl (ENew ''backup inventory request must be an empty JSON object'')
          else case Option.bind (json_parse trimmed) struct_members of
            None \<Rightarrow> Inl json_err
          | Some members \<Rightarrow>
              if members \<noteq> [] then Inl (ENew ''backup inventory request must be an empty JSON object'') else Inr ())"

definition withBackupInventoryNoStore :: "http_response \<Rightarrow> http_response" where
  "withBackupInventoryNoStore resp = resp\<lparr>rs_Header := header_set ''Cache-Control'' BackupInventoryCacheControl (rs_Header resp)\<rparr>"

definition BackupInventory :: "'s deps \<Rightarrow> session \<Rightarrow> ('s, backup_inventory) op" where
  "BackupInventory D sess = cp_BackupInventory (dp_cp D) (dp_net D) (se_RawJWT sess) (se_Subject sess)"

section \<open>Facts\<close>

definition item_ok :: "time_lib \<Rightarrow> backup_inventory_item \<Rightarrow> bool" where
  "item_ok T i \<longleftrightarrow> \<not> all_space (bi_ID i) \<and> \<not> all_space (bi_ETag i)
     \<and> bi_Scope i \<in> {''chat'', ''project'', ''project_document''} \<and> project_ok i
     \<and> (\<exists>c u. tm_parse T (bi_CreatedAt i) = Some c \<and> tm_parse T (bi_UpdatedAt i) = Some u \<and> c \<le> u)"

lemma item_error_None: "item_error T n seen i = None \<longleftrightarrow> item_ok T i \<and> inventory_pos i \<notin> set seen"
  by (auto simp: item_error_def item_ok_def split: option.split if_splits)

lemma validate_items_Inr:
  "validate_items T n seen xs = Inr () \<longleftrightarrow>
     list_all (item_ok T) xs \<and> distinct (map inventory_pos xs) \<and> set (map inventory_pos xs) \<inter> set seen = {}"
proof (induction "xs" arbitrary: n seen)
  case (Cons i "xs")
  show ?case
    by (cases "item_error T n seen i") (use Cons item_error_None [of T n seen i] in auto)
qed simp

lemma send_net_do: "send c N meth url body hs s = (Inr resp, s') \<Longrightarrow> \<exists>q. net_do N q s = (Inr resp, s')"
  unfolding send_def op_bind_eq_Inr
  by (elim exE conjE, rule exI) (auto simp: doRequest_def split: prod.splits sum.splits)

text \<open>
  C10. An inventory that is returned is complete, well-formed and in order: it holds exactly the
  items of the one JSON document the controlplane answered, nothing after it, as many as the
  announced total and at most 100000; every item has an identity, a known scope with the project it
  needs and times that do not run backwards; no scope and id occurs twice; and the items come in
  strictly ascending order of scope and id.
\<close>

theorem backup_inventory_sound:
  assumes "BackupInventory D sess s = (Inr bk, s')"
  shows "\<exists>xs q resp doc rest. bv_Items bk = Some xs
    \<and> net_do (dp_net D) q s = (Inr resp, s') \<and> length (rs_Body resp) \<le> maxBackupInventoryResponseBytes
    \<and> decode_first dec_inventory (rs_Body resp) = Some (doc, rest) \<and> skip_ws rest = []
    \<and> (\<exists>js. bv_Items doc = Some js \<and> mset xs = mset js)
    \<and> bv_TotalItems bk = int (length xs) \<and> length xs \<le> 100000
    \<and> list_all (item_ok (net_time (dp_net D))) xs
    \<and> sorted_wrt (<) (map inventory_pos xs)"
proof -
  let ?T = "net_time (dp_net D)"
  obtain q resp where q: "net_do (dp_net D) q s = (Inr resp, s')" and read: "read_inventory ?T resp = Inr bk"
    using assms unfolding BackupInventory_def cp_BackupInventory_def op_bind_eq_Inr op_lift_eq_Inr by (metis send_net_do)
  obtain doc rest' where r: "length (rs_Body resp) \<le> maxBackupInventoryResponseBytes"
    and d: "decode_first dec_inventory (rs_Body resp) = Some (doc, rest')" "skip_ws rest' = []"
    "validateBackupInventory ?T doc = Inr ()" "bk = doc\<lparr>bv_Items := map_option (sort_key inventory_pos) (bv_Items doc)\<rparr>"
    using read by (auto simp: read_inventory_def read_limited_def result_simps split: if_splits option.splits)
  obtain js where js: "bv_Items doc = Some js" "length js \<le> 100000" "bv_TotalItems doc = int (length js)"
    "list_all (item_ok ?T) js" "distinct (map inventory_pos js)"
    using d(3) by (auto simp: validateBackupInventory_def validate_items_Inr MaxBackupInventoryItems_def split: if_splits option.splits)
  let ?xs = "sort_key inventory_pos js"
  have "sorted (map inventory_pos ?xs)" by simp
  moreover have "distinct (map inventory_pos ?xs)"
    using js(5) by (metis mset_eq_imp_distinct_iff mset_map mset_sort)
  ultimately have sorted: "sorted_wrt (<) (map inventory_pos ?xs)" by (simp add: strict_sorted_iff)
  have items: "bv_Items bk = Some ?xs" "bv_TotalItems bk = int (length ?xs)" "length ?xs \<le> 100000" "list_all (item_ok ?T) ?xs"
    "mset ?xs = mset js" using d(4) js by (simp_all add: list_all_iff)
  show ?thesis
    by (rule exI [of _ ?xs], rule exI [of _ q], rule exI [of _ resp], rule exI [of _ doc], rule exI [of _ rest'])
      (use items q r d(1,2) js(1) sorted in simp)
qed

definition example_inventory :: json where
  "example_inventory = JObj [(''captured_at'', JStr ''t''), (''total_items'', JNum (itoa 1)), (''items'',
     JArr [enc_backup_item \<lparr> bi_Scope = ''chat'', bi_ID = ''c1'', bi_ETag = ''1'', bi_ProjectID = None, bi_CreatedAt = ''t'',
       bi_UpdatedAt = ''t'' \<rparr>])]"

definition inventory_net :: "unit net" where
  "inventory_net = (fixed_net \<lparr> rs_Status = 200, rs_Header = [], rs_Body = json_encode example_inventory, rs_Broken = False \<rparr>)
     \<lparr>net_time := \<lparr> tm_parse = (\<lambda>_. Some 0), tm_format = (\<lambda>_. []) \<rparr>\<rparr>"

theorem backup_inventory_sound_witness:
  "\<exists>bk. BackupInventory (example_deps inventory_net (\<lambda>_. 0)) example_session () = (Inr bk, ())
     \<and> (\<exists>xs. bv_Items bk = Some xs \<and> length xs = 1 \<and> list_all (item_ok (net_time inventory_net)) xs)"
proof -
  let ?D = "example_deps inventory_net (\<lambda>_. 0)"
  let ?i = "\<lparr> bi_Scope = ''chat'', bi_ID = ''c1'', bi_ETag = ''1'', bi_ProjectID = None, bi_CreatedAt = ''t'', bi_UpdatedAt = ''t'' \<rparr>"
  let ?bk = "\<lparr> bv_CapturedAt = ''t'', bv_TotalItems = 1, bv_Items = Some [?i] \<rparr>"
  let ?resp = "\<lparr> rs_Status = 200, rs_Header = [], rs_Body = json_encode example_inventory, rs_Broken = False \<rparr>"
  have ok: "json_ok 10000 example_inventory"
    by (simp add: example_inventory_def enc_backup_item_def is_ascii_def)
  have "json_first (json_encode example_inventory) = Some (example_inventory, [])"
    using json_first_encode [OF ok, of "[]"] by simp
  then have dec: "decode_first dec_inventory (json_encode example_inventory) = Some (?bk, [])"
    by (simp add: decode_first_def)
      (simp add: example_inventory_def enc_backup_item_def dec_inventory_def dec_backup_item_def struct_members_def field_values_def
        parse_int64_itoa)
  have len: "length (json_encode example_inventory) \<le> 1000"
    by (simp add: example_inventory_def enc_backup_item_def jstring_def estr.simps(2) ascii_escape_def small_itoa)
  have T: "net_time inventory_net = \<lparr> tm_parse = (\<lambda>_. Some 0), tm_format = (\<lambda>_. []) \<rparr>" by (simp add: inventory_net_def)
  have "validateBackupInventory (net_time inventory_net) ?bk = Inr ()"
    by (simp add: T validateBackupInventory_def MaxBackupInventoryItems_def item_error_def project_ok_def is_space_def)
  then have "read_inventory (net_time inventory_net) ?resp = Inr ?bk"
    using dec len by (simp add: read_inventory_def read_limited_def maxBackupInventoryResponseBytes_def skip_ws_def)
  then have run: "BackupInventory ?D example_session () = (Inr ?bk, ())"
    by (simp add: BackupInventory_def cp_BackupInventory_def send_def NewRequest_def doRequest_def op_bind_def op_try_def
        example_deps_def inventory_net_def fixed_net_def)
  then show ?thesis using backup_inventory_sound [OF run] by (auto simp: example_deps_def)
qed

end
