(* ===== verification/Search_Index.thy ===== *)
theory Search_Index
  imports Go_HTTP Go_Crypto
begin

text \<open>
  \<^verbatim>\<open>searchindex/index.go\<close>: the inverted index over the chats of a user. Chats own slots of a
  table, posting lists name chats by slot, an updated or removed chat leaves an empty slot behind and
  compaction reclaims the empty slots in bulk. Here: the data, the mutating operations, the invariant
  they keep, and their refinement of a plain map from chats to entries and token sets. A slice access
  out of range is a runtime panic, the value \<open>None\<close> of an operation.
\<close>

section \<open>Bounds\<close>

definition FormatVersion :: int where "FormatVersion = 1"
definition MaxChats :: nat where "MaxChats = 50000"
definition MaxTokensPerChat :: nat where "MaxTokensPerChat = 512"
definition MaxChunksPerChat :: nat where "MaxChunksPerChat = 8"
definition minTokenLen :: nat where "minTokenLen = 2"
definition maxTokenLen :: nat where "maxTokenLen = 40"
definition maxIdentifierLen :: nat where "maxIdentifierLen = 64"
definition compactionMinDead :: int where "compactionMinDead = 64"

section \<open>The index\<close>

text \<open>A quantized embedding: signed bytes.\<close>

type_synonym vector = "8 word list"

record search_entry =
  en_Slot :: int
  en_ETag :: string
  en_SourceRevision :: int
  en_UpdatedAt :: string
  en_Vectors :: "vector list"
  en_EmbeddingPending :: bool
  en_EmbeddingKeyID :: string

record reindex_progress =
  rp_NextCursor :: string
  rp_TargetSourceRevision :: int
  rp_StartedAt :: string

text \<open>The two maps are association lists, in an iteration order of the runtime's choice.\<close>

type_synonym postings = "(string \<times> int list) list"

record search_index =
  ix_Version :: int
  ix_Model :: string
  ix_Dims :: int
  ix_Incomplete :: bool
  ix_Reindex :: "reindex_progress option"
  ix_Slots :: "string list"
  ix_Chats :: "(string \<times> search_entry) list"
  ix_Postings :: postings
  ix_dead :: int

definition index_New :: "string \<Rightarrow> search_index" where
  "index_New model = \<lparr> ix_Version = FormatVersion, ix_Model = model, ix_Dims = 0, ix_Incomplete = False,
     ix_Reindex = None, ix_Slots = [], ix_Chats = [], ix_Postings = [], ix_dead = 0 \<rparr>"

definition ix_ErrTooLarge :: go_error where "ix_ErrTooLarge = ENew ''searchindex: index is full''"

section \<open>Validation\<close>

definition validEmbeddingKeyID :: "string \<Rightarrow> bool" where
  "validEmbeddingKeyID k \<longleftrightarrow> k = [] \<or> length k = 32 \<and> list_all is_lower_hex_char k"

definition validPostingToken :: "string \<Rightarrow> bool" where
  "validPostingToken t \<longleftrightarrow> minTokenLen \<le> length t \<and> length t \<le> maxIdentifierLen"

fun vector_dims :: "int \<Rightarrow> vector list \<Rightarrow> int result" where
  "vector_dims dims [] = Inr dims"
| "vector_dims dims (v # vs) =
     (if v = [] then Inl (ENew ''searchindex: empty chunk vector'')
      else if dims = 0 then vector_dims (int (length v)) vs
      else if int (length v) \<noteq> dims
      then Inl (ENew (''searchindex: vector has '' @ itoa (int (length v)) @ '' dims, index has '' @ itoa dims))
      else vector_dims dims vs)"

definition validatedVectorDims :: "int \<Rightarrow> vector list \<Rightarrow> int result" where
  "validatedVectorDims indexDims vectors =
     (if length vectors > MaxChunksPerChat
      then Inl (ENew (''searchindex: '' @ itoa (int (length vectors)) @ '' chunk vectors exceeds limit ''
             @ itoa (int MaxChunksPerChat)))
      else vector_dims indexDims vectors)"

text \<open>The checks of \<open>Upsert\<close> that look at its arguments and the dimension only.\<close>

definition entry_dims :: "int \<Rightarrow> string \<Rightarrow> search_entry \<Rightarrow> int result" where
  "entry_dims indexDims i e =
     (if i = [] then Inl (ENew ''searchindex: id is required'')
      else if en_SourceRevision e < 0 then Inl (ENew ''searchindex: entry source revision is negative'')
      else if \<not> validEmbeddingKeyID (en_EmbeddingKeyID e)
      then Inl (ENew ''searchindex: entry embedding key id is invalid'')
      else if \<not> en_EmbeddingPending e \<and> en_EmbeddingKeyID e \<noteq> []
      then Inl (ENew ''searchindex: embedding key id requires pending embedding'')
      else validatedVectorDims indexDims (en_Vectors e))"

section \<open>Compaction\<close>

text \<open>The new number of every slot in use.\<close>

fun remap_from :: "int \<Rightarrow> int \<Rightarrow> string list \<Rightarrow> (int \<times> int) list" where
  "remap_from old new [] = []"
| "remap_from old new (i # slots) =
     (if i = [] then remap_from (old + 1) new slots
      else (old, new) # remap_from (old + 1) (new + 1) slots)"

definition remap_entry :: "(int \<times> int) list \<Rightarrow> search_entry \<Rightarrow> search_entry" where
  "remap_entry remap e =
     e\<lparr> en_Slot := (case map_of remap (en_Slot e) of Some n \<Rightarrow> n | None \<Rightarrow> 0) \<rparr>"

definition remap_postings :: "(int \<times> int) list \<Rightarrow> postings \<Rightarrow> postings" where
  "remap_postings remap ps =
     filter (\<lambda>(t, ss). ss \<noteq> []) (map (\<lambda>(t, ss). (t, sort (List.map_filter (map_of remap) ss))) ps)"

definition maybeCompact :: "search_index \<Rightarrow> search_index" where
  "maybeCompact ix =
     (if ix_dead ix < compactionMinDead \<or> ix_dead ix \<le> int (length (ix_Chats ix)) then ix
      else let remap = remap_from 0 0 (ix_Slots ix) in
        ix\<lparr> ix_Chats := map (\<lambda>(i, e). (i, remap_entry remap e)) (ix_Chats ix),
            ix_Postings := remap_postings remap (ix_Postings ix),
            ix_Slots := filter (\<lambda>i. i \<noteq> []) (ix_Slots ix),
            ix_dead := 0 \<rparr>)"

section \<open>Mutations\<close>

definition bury :: "int \<Rightarrow> search_index \<Rightarrow> search_index option" where
  "bury s ix =
     (if 0 \<le> s \<and> s < int (length (ix_Slots ix))
      then Some (ix\<lparr> ix_Slots := (ix_Slots ix)[nat s := []], ix_dead := ix_dead ix + 1 \<rparr>) else None)"

text \<open>The tokens posted for one chat: valid, each once, at most \<open>MaxTokensPerChat\<close>.\<close>

fun post_tokens :: "int \<Rightarrow> string list \<Rightarrow> string list \<Rightarrow> postings \<Rightarrow> postings" where
  "post_tokens slot seen [] ps = ps"
| "post_tokens slot seen (t # ts) ps =
     (if \<not> validPostingToken t \<or> t \<in> set seen then post_tokens slot seen ts ps
      else let ps' = al_set t ((case map_of ps t of Some ss \<Rightarrow> ss | None \<Rightarrow> []) @ [slot]) ps in
        if length (t # seen) \<ge> MaxTokensPerChat then ps' else post_tokens slot (t # seen) ts ps')"

definition Upsert ::
  "string \<Rightarrow> search_entry \<Rightarrow> string list \<Rightarrow> search_index \<Rightarrow> (unit result \<times> search_index) option" where
  "Upsert i e tokens ix =
     (case entry_dims (ix_Dims ix) i e of
        Inl err \<Rightarrow> Some (Inl err, ix)
      | Inr dims \<Rightarrow>
          if map_of (ix_Chats ix) i = None \<and> length (ix_Chats ix) \<ge> MaxChats then Some (Inl ix_ErrTooLarge, ix)
          else case (case map_of (ix_Chats ix) i of
                       Some old \<Rightarrow> bury (en_Slot old) (ix\<lparr> ix_Dims := dims \<rparr>)
                     | None \<Rightarrow> Some (ix\<lparr> ix_Dims := dims \<rparr>)) of
            None \<Rightarrow> None
          | Some ix1 \<Rightarrow>
              let slot = int (length (ix_Slots ix1)) in
              Some (Inr (), maybeCompact (ix1\<lparr>
                ix_Slots := ix_Slots ix1 @ [i],
                ix_Chats := al_set i (e\<lparr> en_Slot := slot \<rparr>) (ix_Chats ix1),
                ix_Postings := post_tokens slot [] tokens (ix_Postings ix1) \<rparr>)))"

definition RepairEmbedding :: "string \<Rightarrow> vector list \<Rightarrow> search_index \<Rightarrow> unit result \<times> search_index" where
  "RepairEmbedding i vectors ix =
     (case map_of (ix_Chats ix) i of
        None \<Rightarrow> (Inl (ENew ''searchindex: chat does not exist''), ix)
      | Some entry \<Rightarrow>
          (case validatedVectorDims (ix_Dims ix) vectors of
             Inl err \<Rightarrow> (Inl err, ix)
           | Inr dims \<Rightarrow>
               (Inr (), ix\<lparr> ix_Chats := al_set i (entry\<lparr> en_Vectors := vectors, en_EmbeddingPending := False,
                                en_EmbeddingKeyID := [] \<rparr>) (ix_Chats ix),
                            ix_Dims := dims \<rparr>)))"

definition MarkEmbeddingKey :: "string \<Rightarrow> string \<Rightarrow> search_index \<Rightarrow> bool \<times> search_index" where
  "MarkEmbeddingKey i keyID ix =
     (case map_of (ix_Chats ix) i of
        None \<Rightarrow> (False, ix)
      | Some entry \<Rightarrow>
          if \<not> en_EmbeddingPending entry \<or> keyID = [] \<or> \<not> validEmbeddingKeyID keyID \<or> en_EmbeddingKeyID entry = keyID
          then (False, ix)
          else (True, ix\<lparr> ix_Chats := al_set i (entry\<lparr> en_EmbeddingKeyID := keyID \<rparr>) (ix_Chats ix) \<rparr>))"

definition index_Remove :: "string \<Rightarrow> search_index \<Rightarrow> search_index option" where
  "index_Remove i ix =
     (case map_of (ix_Chats ix) i of
        None \<Rightarrow> Some ix
      | Some e \<Rightarrow>
          map_option (\<lambda>ix1. maybeCompact (ix1\<lparr> ix_Chats := al_del i (ix_Chats ix1) \<rparr>)) (bury (en_Slot e) ix))"

section \<open>Queries on the entries\<close>

definition Compatible :: "search_index \<Rightarrow> string \<Rightarrow> bool" where
  "Compatible ix model \<longleftrightarrow> ix_Model ix = model"

definition NeedsEmbeddingRepair :: "search_index \<Rightarrow> bool" where
  "NeedsEmbeddingRepair ix \<longleftrightarrow> list_ex (\<lambda>(i, e). en_EmbeddingPending e) (ix_Chats ix)"

definition NeedsEmbeddingRepairFor :: "search_index \<Rightarrow> string \<Rightarrow> bool" where
  "NeedsEmbeddingRepairFor ix keyID \<longleftrightarrow>
     list_ex (\<lambda>(i, e). en_EmbeddingPending e \<and> (en_EmbeddingKeyID e = [] \<or> en_EmbeddingKeyID e = keyID)) (ix_Chats ix)"

section \<open>The invariant\<close>

text \<open>The slot table and the entries name each other; every other slot is counted as dead.\<close>

definition table_ok :: "string list \<Rightarrow> (string \<times> search_entry) list \<Rightarrow> int \<Rightarrow> bool" where
  "table_ok slots chats dead \<longleftrightarrow> distinct (map fst chats)
     \<and> (\<forall>i e. map_of chats i = Some e \<longrightarrow>
          i \<noteq> [] \<and> 0 \<le> en_Slot e \<and> en_Slot e < int (length slots) \<and> slots ! nat (en_Slot e) = i)
     \<and> (\<forall>s < length slots. slots ! s \<noteq> [] \<longrightarrow> (\<exists>e. map_of chats (slots ! s) = Some e \<and> en_Slot e = int s))
     \<and> dead = int (length (filter (\<lambda>i. i = []) slots))"

definition posted :: "postings \<Rightarrow> int \<Rightarrow> string set" where
  "posted ps s = {t. \<exists>ss. map_of ps t = Some ss \<and> s \<in> set ss}"

definition postings_ok :: "nat \<Rightarrow> postings \<Rightarrow> bool" where
  "postings_ok n ps \<longleftrightarrow> distinct (map fst ps)
     \<and> (\<forall>t ss. map_of ps t = Some ss \<longrightarrow> validPostingToken t \<and> ss \<noteq> [] \<and> sorted_wrt (<) ss
          \<and> (\<forall>s \<in> set ss. 0 \<le> s \<and> s < int n))"

definition token_bound :: "postings \<Rightarrow> bool" where
  "token_bound ps \<longleftrightarrow> (\<forall>s. card (posted ps s) \<le> MaxTokensPerChat)"

definition vectors_ok :: "int \<Rightarrow> vector list \<Rightarrow> bool" where
  "vectors_ok dims vs \<longleftrightarrow> length vs \<le> MaxChunksPerChat \<and> (\<forall>v \<in> set vs. v \<noteq> [] \<and> int (length v) = dims)"

definition entry_ok :: "int \<Rightarrow> search_entry \<Rightarrow> bool" where
  "entry_ok dims e \<longleftrightarrow> 0 \<le> en_SourceRevision e \<and> validEmbeddingKeyID (en_EmbeddingKeyID e)
     \<and> (en_EmbeddingKeyID e \<noteq> [] \<longrightarrow> en_EmbeddingPending e) \<and> vectors_ok dims (en_Vectors e)"

definition index_ok :: "search_index \<Rightarrow> bool" where
  "index_ok ix \<longleftrightarrow> table_ok (ix_Slots ix) (ix_Chats ix) (ix_dead ix)
     \<and> postings_ok (length (ix_Slots ix)) (ix_Postings ix)
     \<and> (\<forall>i e. map_of (ix_Chats ix) i = Some e \<longrightarrow> entry_ok (ix_Dims ix) e)
     \<and> length (ix_Chats ix) \<le> MaxChats"

definition compacted :: "search_index \<Rightarrow> bool" where
  "compacted ix \<longleftrightarrow> ix_dead ix < compactionMinDead \<or> ix_dead ix \<le> int (length (ix_Chats ix))"

text \<open>What the index stands for: the chats with their entries, less the slot, and their tokens.\<close>

definition chat_of :: "search_entry \<Rightarrow> search_entry" where
  "chat_of e = e\<lparr> en_Slot := 0 \<rparr>"

definition abs_index :: "search_index \<Rightarrow> string \<Rightarrow> (search_entry \<times> string set) option" where
  "abs_index ix i = map_option (\<lambda>e. (chat_of e, posted (ix_Postings ix) (en_Slot e))) (map_of (ix_Chats ix) i)"

lemma index_New_ok: "index_ok (index_New model)" "token_bound (ix_Postings (index_New model))" "compacted (index_New model)" "abs_index (index_New model) = Map.empty"
  by (simp_all add: index_New_def index_ok_def compacted_def table_ok_def postings_ok_def posted_def abs_index_def token_bound_def
      compactionMinDead_def fun_eq_iff)

section \<open>Compaction keeps what the index stands for\<close>

definition slot_rank :: "string list \<Rightarrow> nat \<Rightarrow> nat" where
  "slot_rank slots s = length (filter (\<lambda>i. i \<noteq> []) (take s slots))"

lemma remap_from_lookup:
  "map_of (remap_from old new slots) s =
     (if old \<le> s \<and> s < old + int (length slots) \<and> slots ! nat (s - old) \<noteq> []
      then Some (new + int (slot_rank slots (nat (s - old)))) else None)"
proof (induction slots arbitrary: old new)
  case (Cons i slots)
  have "nat (s - old) = Suc (nat (s - (old + 1)))" if "old + 1 \<le> s" using that by simp
  then show ?case using Cons [of "old + 1" new] Cons [of "old + 1" "new + 1"]
    by (cases "s = old") (auto simp: slot_rank_def nth_Cons split: nat.splits)
qed (simp add: slot_rank_def)

lemma slot_rank_less: "r < s \<Longrightarrow> s \<le> length slots \<Longrightarrow> slots ! r \<noteq> [] \<Longrightarrow> slot_rank slots r < slot_rank slots s"
proof -
  assume a: "r < s" "s \<le> length slots" "slots ! r \<noteq> []"
  then have "take s slots = take r slots @ slots ! r # drop (Suc r) (take s slots)"
    by (metis (no_types, lifting) id_take_nth_drop length_take min.absorb2 min.strict_order_iff nth_take take_take)
  from arg_cong [OF this, of "\<lambda>l. length (filter (\<lambda>i. i \<noteq> []) l)"] show ?thesis using a(3) by (simp add: slot_rank_def)
qed

lemma slot_rank_inj:
  assumes "r < length slots" "s < length slots" "slots ! r \<noteq> []" "slots ! s \<noteq> []" "slot_rank slots r = slot_rank slots s"
  shows "r = s"
  using assms slot_rank_less [of r s slots] slot_rank_less [of s r slots] by (metis less_imp_le_nat less_irrefl_nat linorder_neqE_nat)

lemma nth_slot_rank:
  assumes "s < length slots" "slots ! s \<noteq> []"
  shows "slot_rank slots s < length (filter (\<lambda>i. i \<noteq> []) slots)"
    and "filter (\<lambda>i. i \<noteq> []) slots ! slot_rank slots s = slots ! s"
proof -
  have "filter (\<lambda>i. i \<noteq> []) slots = filter (\<lambda>i. i \<noteq> []) (take s slots) @ slots ! s # filter (\<lambda>i. i \<noteq> []) (drop (Suc s) slots)"
    by (subst id_take_nth_drop [OF assms(1)]) (simp add: assms(2))
  then show "slot_rank slots s < length (filter (\<lambda>i. i \<noteq> []) slots)"
    and "filter (\<lambda>i. i \<noteq> []) slots ! slot_rank slots s = slots ! s"
    by (simp_all add: slot_rank_def)
qed

lemma slot_rank_onto:
  "n < length (filter (\<lambda>i. i \<noteq> []) slots) \<Longrightarrow> \<exists>s < length slots. slots ! s \<noteq> [] \<and> slot_rank slots s = n"
proof (induction slots rule: rev_induct)
  case (snoc i slots)
  show ?case
  proof (cases "n < length (filter (\<lambda>i. i \<noteq> []) slots)")
    case True
    then obtain s where "s < length slots" "slots ! s \<noteq> []" "slot_rank slots s = n" using snoc.IH by blast
    then show ?thesis by (intro exI [of _ s]) (simp add: nth_append slot_rank_def)
  next
    case False
    then show ?thesis using snoc.prems
      by (intro exI [of _ "length slots"]) (auto simp: slot_rank_def split: if_splits)
  qed
qed simp

text \<open>The remapping of the slots, as a function on the slots in use.\<close>

lemma remap_lookup:
  "map_of (remap_from 0 0 slots) s =
     (if 0 \<le> s \<and> s < int (length slots) \<and> slots ! nat s \<noteq> [] then Some (int (slot_rank slots (nat s))) else None)"
  by (simp add: remap_from_lookup)

lemma remap_inj:
  assumes "map_of (remap_from 0 0 slots) r = Some n" "map_of (remap_from 0 0 slots) s = Some n"
  shows "r = s"
proof -
  have "nat r = nat s"
    using assms slot_rank_inj [of "nat r" slots "nat s"] by (auto simp: remap_lookup split: if_splits)
  then show ?thesis using assms by (auto simp: remap_lookup split: if_splits)
qed

lemma remap_mono:
  assumes "map_of (remap_from 0 0 slots) r = Some m" "map_of (remap_from 0 0 slots) s = Some n" "r < s"
  shows "m < n"
  using assms slot_rank_less [of "nat r" "nat s" slots] by (auto simp: remap_lookup split: if_splits)

lemma remapped_sorted:
  assumes "sorted_wrt (<) ss"
  shows "sorted_wrt (<) (List.map_filter (map_of (remap_from 0 0 slots)) ss)"
  using assms
proof (induction ss)
  case (Cons s ss)
  have "n < m" if n: "map_of (remap_from 0 0 slots) s = Some n"
    and m: "m \<in> set (List.map_filter (map_of (remap_from 0 0 slots)) ss)" for n m
  proof -
    from m obtain r where "r \<in> set ss" "map_of (remap_from 0 0 slots) r = Some m"
      by (auto simp: map_filter_def)
    then show ?thesis using remap_mono [OF n] Cons.prems by auto
  qed
  then show ?case using Cons by (simp add: map_filter_simps split: option.splits)
qed (simp add: map_filter_simps)

lemma sort_remapped [simp]:
  "sorted_wrt (<) ss \<Longrightarrow> sort (List.map_filter (map_of (remap_from 0 0 slots)) ss)
     = List.map_filter (map_of (remap_from 0 0 slots)) ss"
  by (rule sorted_sort_id) (metis remapped_sorted strict_sorted_iff)

lemma map_of_filter_snd: "distinct (map fst ps) \<Longrightarrow> map_of (filter (\<lambda>(t, ss). P ss) ps) t =
   (case map_of ps t of Some ss \<Rightarrow> if P ss then Some ss else None | None \<Rightarrow> None)"
  by (induction ps) (auto simp: map_of_eq_None_iff [symmetric] split: option.splits)

lemma map_of_map_snd: "map_of (map (\<lambda>(t, x). (t, f x)) ps) t = map_option f (map_of ps t)"
  by (induction ps) auto

lemma map_of_remap_postings:
  assumes "postings_ok n ps"
  shows "map_of (remap_postings (remap_from 0 0 slots) ps) t =
    (case map_of ps t of
       Some ss \<Rightarrow> let ns = List.map_filter (map_of (remap_from 0 0 slots)) ss in if ns = [] then None else Some ns
     | None \<Rightarrow> None)"
proof -
  let ?f = "\<lambda>ss. sort (List.map_filter (map_of (remap_from 0 0 slots)) ss)"
  have d: "distinct (map fst (map (\<lambda>(t, ss). (t, ?f ss)) ps))"
    using assms by (simp add: postings_ok_def comp_def case_prod_unfold)
  show ?thesis
    using assms unfolding remap_postings_def map_of_filter_snd [OF d] map_of_map_snd
    by (auto simp: postings_ok_def Let_def split: option.splits)
qed

lemma posted_remap:
  assumes "postings_ok n ps" "map_of (remap_from 0 0 slots) s = Some m"
  shows "posted (remap_postings (remap_from 0 0 slots) ps) m = posted ps s"
proof -
  have "m \<in> set (List.map_filter (map_of (remap_from 0 0 slots)) ss) \<longleftrightarrow> s \<in> set ss" for ss
    using assms(2) by (auto simp: map_filter_def dest: remap_inj [OF _ assms(2)] intro: rev_image_eqI)
  then have "m \<in> set (List.map_filter (map_of (remap_from 0 0 slots)) ss) \<longleftrightarrow> s \<in> set ss" for ss .
  moreover from this have "s \<in> set ss \<Longrightarrow> List.map_filter (map_of (remap_from 0 0 slots)) ss \<noteq> []" for ss by force
  ultimately show ?thesis
    by (simp add: posted_def map_of_remap_postings [OF assms(1)] Let_def set_eq_iff split: option.split) blast
qed

lemma remap_postings_ok:
  assumes "postings_ok (length slots) ps"
  shows "postings_ok (length (filter (\<lambda>i. i \<noteq> []) slots)) (remap_postings (remap_from 0 0 slots) ps)"
  unfolding postings_ok_def
proof (intro conjI allI impI)
  show "distinct (map fst (remap_postings (remap_from 0 0 slots) ps))"
    using assms unfolding remap_postings_def postings_ok_def
    by (auto intro!: distinct_map_filter simp: comp_def case_prod_unfold)
next
  fix t ss assume "map_of (remap_postings (remap_from 0 0 slots) ps) t = Some ss"
  then obtain old where old: "map_of ps t = Some old" "ss = List.map_filter (map_of (remap_from 0 0 slots)) old" "ss \<noteq> []"
    by (auto simp: map_of_remap_postings [OF assms] Let_def split: option.splits if_splits)
  have ok: "validPostingToken t" "sorted_wrt (<) old" using assms old(1) by (auto simp: postings_ok_def)
  show "validPostingToken t" "ss \<noteq> []" using ok old(3) by auto
  show "sorted_wrt (<) ss" unfolding old(2) by (rule remapped_sorted [OF ok(2)])
  show "\<forall>s \<in> set ss. 0 \<le> s \<and> s < int (length (filter (\<lambda>i. i \<noteq> []) slots))"
    unfolding old(2) by (auto simp: map_filter_def remap_lookup nth_slot_rank(1) split: if_splits)
qed

lemma token_bound_remap:
  assumes "postings_ok (length slots) ps" "token_bound ps"
  shows "token_bound (remap_postings (remap_from 0 0 slots) ps)"
  unfolding token_bound_def
proof
  fix m
  show "card (posted (remap_postings (remap_from 0 0 slots) ps) m) \<le> MaxTokensPerChat"
  proof (cases "\<exists>s. map_of (remap_from 0 0 slots) s = Some m")
    case True
    then show ?thesis using posted_remap [OF assms(1)] assms(2) by (auto simp: token_bound_def)
  next
    case False
    then have "posted (remap_postings (remap_from 0 0 slots) ps) m = {}"
      by (auto simp: posted_def map_of_remap_postings [OF assms(1)] Let_def map_filter_def split: option.splits if_splits)
    then show ?thesis by simp
  qed
qed

lemma remap_table_ok:
  assumes "table_ok slots chats dead"
  shows "table_ok (filter (\<lambda>i. i \<noteq> []) slots) (map (\<lambda>(i, e). (i, remap_entry (remap_from 0 0 slots) e)) chats) 0"
    and "\<And>i e. map_of chats i = Some e \<Longrightarrow> \<exists>m. map_of (remap_from 0 0 slots) (en_Slot e) = Some m
           \<and> remap_entry (remap_from 0 0 slots) e = e\<lparr> en_Slot := m \<rparr>"
proof -
  show remap: "\<exists>m. map_of (remap_from 0 0 slots) (en_Slot e) = Some m
      \<and> remap_entry (remap_from 0 0 slots) e = e\<lparr> en_Slot := m \<rparr>" if "map_of chats i = Some e" for i e
    using assms that by (auto simp: table_ok_def remap_entry_def remap_lookup)
  let ?new = "filter (\<lambda>i. i \<noteq> []) slots"
  show "table_ok ?new (map (\<lambda>(i, e). (i, remap_entry (remap_from 0 0 slots) e)) chats) 0"
    unfolding table_ok_def map_of_map_snd
  proof (intro conjI allI impI)
    show "distinct (map fst (map (\<lambda>(i, e). (i, remap_entry (remap_from 0 0 slots) e)) chats))"
      using assms by (simp add: table_ok_def comp_def case_prod_unfold)
  next
    fix i e' assume "map_option (remap_entry (remap_from 0 0 slots)) (map_of chats i) = Some e'"
    then obtain e where e: "map_of chats i = Some e" "e' = remap_entry (remap_from 0 0 slots) e" by auto
    then have "i \<noteq> [] \<and> 0 \<le> en_Slot e \<and> en_Slot e < int (length slots) \<and> slots ! nat (en_Slot e) = i"
      using assms unfolding table_ok_def by blast
    then have t: "i \<noteq> []" "0 \<le> en_Slot e" "nat (en_Slot e) < length slots" "slots ! nat (en_Slot e) = i"
      "en_Slot e < int (length slots)" by auto
    then have "en_Slot e' = int (slot_rank slots (nat (en_Slot e)))"
      using e(2) by (simp add: remap_entry_def remap_lookup)
    then show "i \<noteq> []" "0 \<le> en_Slot e'" "en_Slot e' < int (length ?new)" "?new ! nat (en_Slot e') = i"
      using t nth_slot_rank [of "nat (en_Slot e)" slots] by auto
  next
    fix n assume "n < length ?new"
    then obtain s where s: "s < length slots" "slots ! s \<noteq> []" "slot_rank slots s = n" using slot_rank_onto by blast
    then obtain e where e: "map_of chats (slots ! s) = Some e" "en_Slot e = int s" using assms by (auto simp: table_ok_def)
    then show "\<exists>e. map_option (remap_entry (remap_from 0 0 slots)) (map_of chats (?new ! n)) = Some e \<and> en_Slot e = int n"
      using s nth_slot_rank(2) [OF s(1,2)] by (auto simp: remap_entry_def remap_lookup)
  next
    show "0 = int (length (filter (\<lambda>i. i = []) ?new))" by (simp add: filter_False)
  qed
qed

lemma entry_ok_slot [simp]: "entry_ok d (e\<lparr> en_Slot := m \<rparr>) = entry_ok d e"
  by (simp add: entry_ok_def)

lemma chat_of_slot [simp]: "chat_of (e\<lparr> en_Slot := m \<rparr>) = chat_of e"
  by (simp add: chat_of_def)

lemma maybeCompact_keeps:
  assumes "index_ok ix"
  shows "index_ok (maybeCompact ix)" "compacted (maybeCompact ix)" "abs_index (maybeCompact ix) = abs_index ix"
    and "token_bound (ix_Postings ix) \<Longrightarrow> token_bound (ix_Postings (maybeCompact ix))"
    and "ix_Dims (maybeCompact ix) = ix_Dims ix" "fst ` set (ix_Chats (maybeCompact ix)) = fst ` set (ix_Chats ix)"
proof -
  let ?r = "remap_from 0 0 (ix_Slots ix)"
  have t: "table_ok (ix_Slots ix) (ix_Chats ix) (ix_dead ix)" and p: "postings_ok (length (ix_Slots ix)) (ix_Postings ix)"
    using assms by (auto simp: index_ok_def)
  note r = remap_table_ok(2) [OF t]
  have e: "entry_ok (ix_Dims ix) (remap_entry ?r e)" if "map_of (ix_Chats ix) i = Some e" for i e
    using r [OF that] that assms by (auto simp: index_ok_def)
  have a: "(chat_of (remap_entry ?r e), posted (remap_postings ?r (ix_Postings ix)) (en_Slot (remap_entry ?r e)))
      = (chat_of e, posted (ix_Postings ix) (en_Slot e))" if "map_of (ix_Chats ix) i = Some e" for i e
    using r [OF that] posted_remap [OF p] by fastforce
  show "index_ok (maybeCompact ix)"
    using assms e remap_table_ok(1) [OF t] remap_postings_ok [OF p]
    by (auto simp: maybeCompact_def index_ok_def Let_def map_of_map_snd)
  show "compacted (maybeCompact ix)"
    by (auto simp: maybeCompact_def compacted_def Let_def compactionMinDead_def)
  show "abs_index (maybeCompact ix) = abs_index ix"
    using a by (auto simp: maybeCompact_def abs_index_def Let_def map_of_map_snd fun_eq_iff option.map_comp comp_def
        intro!: option.map_cong)
  show "token_bound (ix_Postings ix) \<Longrightarrow> token_bound (ix_Postings (maybeCompact ix))"
    using token_bound_remap [OF p] by (auto simp: maybeCompact_def Let_def)
  show "ix_Dims (maybeCompact ix) = ix_Dims ix" "fst ` set (ix_Chats (maybeCompact ix)) = fst ` set (ix_Chats ix)"
    by (auto simp: maybeCompact_def Let_def image_image case_prod_unfold)
qed

section \<open>The tokens an upsert posts\<close>

definition firsts :: "'a list \<Rightarrow> 'a list" where
  "firsts xs = rev (remdups (rev xs))"

definition indexed_tokens :: "string list \<Rightarrow> string list" where
  "indexed_tokens ts = take MaxTokensPerChat (firsts (filter validPostingToken ts))"

lemma firsts_simps [simp]: "firsts [] = []" "firsts (x # xs) = x # filter (\<lambda>y. y \<noteq> x) (firsts xs)"
proof -
  have "remdups (ys @ [x]) = filter (\<lambda>y. y \<noteq> x) (remdups ys) @ [x]" for ys
    by (induction ys) auto
  then show "firsts [] = []" "firsts (x # xs) = x # filter (\<lambda>y. y \<noteq> x) (firsts xs)"
    by (simp_all add: firsts_def rev_filter)
qed

lemma set_firsts [simp]: "set (firsts xs) = set xs" and distinct_firsts [simp]: "distinct (firsts xs)"
  by (simp_all add: firsts_def)

text \<open>The tokens still to be posted when \<open>seen\<close> are.\<close>

definition rest_tokens :: "string list \<Rightarrow> string list \<Rightarrow> string list" where
  "rest_tokens seen ts =
     take (MaxTokensPerChat - length seen) (filter (\<lambda>t. t \<notin> set seen) (firsts (filter validPostingToken ts)))"

lemma rest_tokens_Nil: "rest_tokens [] ts = indexed_tokens ts"
  by (simp add: rest_tokens_def indexed_tokens_def)

lemma rest_tokens_simps:
  "rest_tokens seen [] = []"
  "\<not> validPostingToken t \<or> t \<in> set seen \<Longrightarrow> rest_tokens seen (t # ts) = rest_tokens seen ts"
  "validPostingToken t \<Longrightarrow> t \<notin> set seen \<Longrightarrow> length seen < MaxTokensPerChat \<Longrightarrow>
     rest_tokens seen (t # ts) = t # rest_tokens (t # seen) ts"
proof -
  have f: "filter (\<lambda>u. u \<notin> set seen) (filter (\<lambda>u. u \<noteq> t) xs) = filter (\<lambda>u. u \<notin> set seen) xs" if "t \<in> set seen" for xs
    using that by (auto intro: filter_cong)
  have g: "filter (\<lambda>u. u \<notin> set seen) (filter (\<lambda>u. u \<noteq> t) xs) = filter (\<lambda>u. u \<notin> set (t # seen)) xs" for xs
    by (auto intro: filter_cong)
  show "rest_tokens seen [] = []" by (simp add: rest_tokens_def)
  show "rest_tokens seen (t # ts) = rest_tokens seen ts" if "\<not> validPostingToken t \<or> t \<in> set seen"
    using that f by (auto simp: rest_tokens_def)
  show "rest_tokens seen (t # ts) = t # rest_tokens (t # seen) ts"
    if "validPostingToken t" "t \<notin> set seen" "length seen < MaxTokensPerChat"
  proof -
    have "MaxTokensPerChat - length seen = Suc (MaxTokensPerChat - length (t # seen))" using that(3) by simp
    then show ?thesis using that(1,2) g by (simp add: rest_tokens_def)
  qed
qed

lemma rest_tokens_full: "MaxTokensPerChat \<le> length seen \<Longrightarrow> rest_tokens seen ts = []"
  by (simp add: rest_tokens_def)

lemma rest_tokens_fresh: "t \<in> set (rest_tokens seen ts) \<Longrightarrow> t \<notin> set seen \<and> validPostingToken t"
  by (auto simp: rest_tokens_def dest: in_set_takeD)

lemma post_tokens_lookup:
  "length seen < MaxTokensPerChat \<Longrightarrow>
   map_of (post_tokens slot seen ts ps) t =
     (if t \<in> set (rest_tokens seen ts)
      then Some ((case map_of ps t of Some ss \<Rightarrow> ss | None \<Rightarrow> []) @ [slot]) else map_of ps t)"
proof (induction slot seen ts ps rule: post_tokens.induct)
  case (2 slot seen u ts ps)
  show ?case
  proof (cases "\<not> validPostingToken u \<or> u \<in> set seen")
    case True
    then show ?thesis using 2 by (simp add: rest_tokens_simps)
  next
    case False
    let ?p = "al_set u ((case map_of ps u of Some ss \<Rightarrow> ss | None \<Rightarrow> []) @ [slot]) ps"
    have r: "rest_tokens seen (u # ts) = u # rest_tokens (u # seen) ts"
      using False 2(3) by (simp add: rest_tokens_simps)
    have f: "u \<notin> set (rest_tokens (u # seen) ts)" using rest_tokens_fresh [of u "u # seen" ts] by auto
    show ?thesis
    proof (cases "MaxTokensPerChat \<le> length (u # seen)")
      case True
      then show ?thesis using False r rest_tokens_full [OF True] by simp
    next
      case less: False
      then show ?thesis using False r f 2(2) [OF False refl] by (auto simp: Let_def)
    qed
  qed
qed (simp add: rest_tokens_simps)

lemma post_tokens_distinct: "distinct (map fst ps) \<Longrightarrow> distinct (map fst (post_tokens slot seen ts ps))"
  by (induction slot seen ts ps rule: post_tokens.induct) (auto simp: Let_def)

lemma post_indexed:
  "map_of (post_tokens slot [] ts ps) t =
     (if t \<in> set (indexed_tokens ts)
      then Some ((case map_of ps t of Some ss \<Rightarrow> ss | None \<Rightarrow> []) @ [slot]) else map_of ps t)"
  using post_tokens_lookup [of "[]" slot ts ps t] by (simp add: rest_tokens_Nil MaxTokensPerChat_def)

lemma indexed_token: "t \<in> set (indexed_tokens ts) \<Longrightarrow> validPostingToken t \<and> t \<in> set ts"
  by (auto simp: indexed_tokens_def dest: in_set_takeD)

lemma indexed_count: "length (indexed_tokens ts) \<le> MaxTokensPerChat" "distinct (indexed_tokens ts)"
  by (simp_all add: indexed_tokens_def)

lemma posted_beyond: "postings_ok n ps \<Longrightarrow> \<not> (0 \<le> s \<and> s < int n) \<Longrightarrow> posted ps s = {}"
  by (auto simp: posted_def postings_ok_def)

lemma post_postings_ok:
  assumes "postings_ok n ps"
  shows "postings_ok (Suc n) (post_tokens (int n) [] ts ps)"
    and "posted (post_tokens (int n) [] ts ps) s = (if s = int n then set (indexed_tokens ts) else posted ps s)"
    and "token_bound ps \<Longrightarrow> token_bound (post_tokens (int n) [] ts ps)"
proof -
  have lookup: "map_of ps t = Some ss \<Longrightarrow>
      validPostingToken t \<and> ss \<noteq> [] \<and> sorted_wrt (<) ss \<and> (\<forall>s \<in> set ss. 0 \<le> s \<and> s < int n)" for t ss
    using assms by (auto simp: postings_ok_def)
  show posted: "posted (post_tokens (int n) [] ts ps) s = (if s = int n then set (indexed_tokens ts) else posted ps s)" for s
  proof (rule set_eqI)
    fix t
    show "t \<in> posted (post_tokens (int n) [] ts ps) s \<longleftrightarrow> t \<in> (if s = int n then set (indexed_tokens ts) else posted ps s)"
      using lookup [of t] by (cases "map_of ps t") (auto simp: posted_def post_indexed)
  qed
  show "postings_ok (Suc n) (post_tokens (int n) [] ts ps)"
    unfolding postings_ok_def
  proof (intro conjI allI impI)
    show "distinct (map fst (post_tokens (int n) [] ts ps))"
      using assms by (simp add: post_tokens_distinct postings_ok_def)
  next
    fix t ss assume ss: "map_of (post_tokens (int n) [] ts ps) t = Some ss"
    show "validPostingToken t" "ss \<noteq> []" "sorted_wrt (<) ss" "\<forall>s \<in> set ss. 0 \<le> s \<and> s < int (Suc n)"
      using ss lookup [of t] indexed_token [of t ts]
      by (fastforce simp: post_indexed sorted_wrt_append split: if_splits option.splits)+
  qed
  show "token_bound ps \<Longrightarrow> token_bound (post_tokens (int n) [] ts ps)"
    using indexed_count [of ts] card_length [of "indexed_tokens ts"] by (auto simp: posted token_bound_def)
qed

section \<open>The slot table\<close>

lemma table_ok_cong:
  assumes "map_of chats' = map_of chats" "distinct (map fst chats')" "table_ok slots chats dead"
  shows "table_ok slots chats' dead"
  using assms(2,3) unfolding table_ok_def assms(1) by blast

lemma table_okD:
  assumes "table_ok slots chats dead" "map_of chats i = Some e"
  shows "i \<noteq> []" "0 \<le> en_Slot e" "en_Slot e < int (length slots)" "nat (en_Slot e) < length slots"
    "slots ! nat (en_Slot e) = i"
proof -
  have *: "i \<noteq> [] \<and> 0 \<le> en_Slot e \<and> en_Slot e < int (length slots) \<and> slots ! nat (en_Slot e) = i"
    using assms unfolding table_ok_def by blast
  show "i \<noteq> []" "0 \<le> en_Slot e" "en_Slot e < int (length slots)" "nat (en_Slot e) < length slots"
    "slots ! nat (en_Slot e) = i"
    using * by auto
qed

lemma dead_count_update:
  "k < length slots \<Longrightarrow> slots ! k \<noteq> [] \<Longrightarrow>
     length (filter (\<lambda>i. i = []) (slots[k := []])) = Suc (length (filter (\<lambda>i. i = []) slots))"
proof (induction slots arbitrary: k)
  case (Cons a slots)
  then show ?case by (cases k) auto
qed simp

lemma bury_table:
  assumes "table_ok slots chats dead" "map_of chats i = Some e"
  shows "table_ok (slots[nat (en_Slot e) := []]) (al_del i chats) (dead + 1)"
proof -
  let ?k = "nat (en_Slot e)"
  note e = table_okD [OF assms]
  have other: "?k \<noteq> nat (en_Slot e')" if "map_of chats j = Some e'" "j \<noteq> i" for j e'
    using table_okD(5) [OF assms(1) that(1)] that(2) e(5) by auto
  show ?thesis
    unfolding table_ok_def
  proof (intro conjI allI impI)
    show "distinct (map fst (al_del i chats))" using assms(1) by (simp add: table_ok_def)
  next
    fix j e' assume j: "map_of (al_del i chats) j = Some e'"
    then have *: "map_of chats j = Some e'" "j \<noteq> i" by (auto split: if_splits)
    note t = table_okD [OF assms(1) this(1)]
    then show "j \<noteq> []" "0 \<le> en_Slot e'" "en_Slot e' < int (length (slots[?k := []]))"
      "slots[?k := []] ! nat (en_Slot e') = j"
      using other [OF *] by simp_all
  next
    fix s assume s: "s < length (slots[?k := []])" "slots[?k := []] ! s \<noteq> []"
    then have k: "s \<noteq> ?k" by auto
    with s have "s < length slots" "slots ! s \<noteq> []" by auto
    then obtain e' where e': "map_of chats (slots ! s) = Some e'" "en_Slot e' = int s"
      using assms(1) unfolding table_ok_def by blast
    have "slots ! s \<noteq> i" using e' assms(2) k by auto
    then show "\<exists>e'. map_of (al_del i chats) (slots[?k := []] ! s) = Some e' \<and> en_Slot e' = int s"
      using e' k by simp
  next
    show "dead + 1 = int (length (filter (\<lambda>i. i = []) (slots[?k := []])))"
      using assms(1) e dead_count_update [of ?k slots] by (simp add: table_ok_def)
  qed
qed

lemma append_table:
  assumes "table_ok slots (al_del i chats) dead" "distinct (map fst chats)" "i \<noteq> []"
  shows "table_ok (slots @ [i]) (al_set i (e\<lparr> en_Slot := int (length slots) \<rparr>) chats) dead"
  unfolding table_ok_def
proof (intro conjI allI impI)
  show "distinct (map fst (al_set i (e\<lparr> en_Slot := int (length slots) \<rparr>) chats))" using assms(2) by simp
next
  fix j e' assume "map_of (al_set i (e\<lparr> en_Slot := int (length slots) \<rparr>) chats) j = Some e'"
  then consider "j = i" "e' = e\<lparr> en_Slot := int (length slots) \<rparr>" | "map_of (al_del i chats) j = Some e'"
    by (auto split: if_splits)
  then have "j \<noteq> [] \<and> 0 \<le> en_Slot e' \<and> en_Slot e' < int (length (slots @ [i])) \<and> (slots @ [i]) ! nat (en_Slot e') = j"
  proof cases
    case 2
    from table_okD [OF assms(1) this] show ?thesis by (simp add: nth_append)
  qed (simp add: assms(3))
  then show "j \<noteq> []" "0 \<le> en_Slot e'" "en_Slot e' < int (length (slots @ [i]))" "(slots @ [i]) ! nat (en_Slot e') = j"
    by auto
next
  fix s assume s: "s < length (slots @ [i])" "(slots @ [i]) ! s \<noteq> []"
  show "\<exists>e'. map_of (al_set i (e\<lparr> en_Slot := int (length slots) \<rparr>) chats) ((slots @ [i]) ! s) = Some e' \<and> en_Slot e' = int s"
  proof (cases "s = length slots")
    case False
    then have l: "s < length slots" "slots ! s \<noteq> []" using s by (auto simp: nth_append)
    then obtain e' where e': "map_of (al_del i chats) (slots ! s) = Some e'" "en_Slot e' = int s"
      using assms(1) unfolding table_ok_def by blast
    have "slots ! s \<noteq> i" using e'(1) by (auto simp: map_of_al_del)
    then show ?thesis using l(1) e' by (simp add: nth_append)
  qed simp
next
  show "dead = int (length (filter (\<lambda>i. i = []) (slots @ [i])))" using assms(1,3) by (simp add: table_ok_def)
qed

lemma al_del_fresh: "map_of m k = None \<Longrightarrow> al_del k m = m"
  by (induction m) (auto simp: al_del_def split: if_splits)

lemma length_al_set: "length (al_set k v m) = (if map_of m k = None then Suc (length m) else length m)"
  by (induction k v m rule: al_set.induct) auto

lemma length_al_del: "length (al_del k m) \<le> length m"
  by (simp add: al_del_def)

section \<open>Dimensions\<close>

lemma vector_dims_ok:
  "vector_dims d vs = Inr d' \<Longrightarrow>
     (d \<noteq> 0 \<longrightarrow> d' = d) \<and> (\<forall>v \<in> set vs. v \<noteq> [] \<and> int (length v) = d')"
proof (induction vs arbitrary: d)
  case (Cons v vs)
  let ?l = "int (length v)"
  have ne: "v \<noteq> []" using Cons.prems(1) by (cases "v = []") simp_all
  have rec: "vector_dims ?l vs = Inr d'" "d \<noteq> 0 \<longrightarrow> d = ?l"
    using Cons.prems(1) ne by (cases "d = 0"; cases "?l = d"; simp)+
  have l: "0 < ?l" using ne by simp
  show ?case using Cons.IH [OF rec(1)] l rec(2) ne by auto
qed simp

lemma validated_dims:
  assumes "validatedVectorDims d vs = Inr d'"
  shows "vectors_ok d' vs" "vectors_ok d ws \<Longrightarrow> vectors_ok d' ws"
proof -
  have v: "vector_dims d vs = Inr d'" "length vs \<le> MaxChunksPerChat"
    using assms(1) by (auto simp: validatedVectorDims_def split: if_splits)
  show "vectors_ok d' vs" using vector_dims_ok [OF v(1)] v(2) by (auto simp: vectors_ok_def)
  show "vectors_ok d' ws" if "vectors_ok d ws"
    using vector_dims_ok [OF v(1)] that by (cases "d = 0") (auto simp: vectors_ok_def)
qed

lemma entry_dims_ok:
  assumes "entry_dims d i e = Inr d'"
  shows "i \<noteq> []" "entry_ok d' e" "entry_ok d e' \<Longrightarrow> entry_ok d' e'"
proof -
  have v: "validatedVectorDims d (en_Vectors e) = Inr d'" and *: "i \<noteq> []" "0 \<le> en_SourceRevision e"
    "validEmbeddingKeyID (en_EmbeddingKeyID e)" "en_EmbeddingKeyID e \<noteq> [] \<longrightarrow> en_EmbeddingPending e"
    using assms(1) by (auto simp: entry_dims_def split: if_splits)
  show "i \<noteq> []" "entry_ok d' e" "entry_ok d e' \<Longrightarrow> entry_ok d' e'"
    using * validated_dims [OF v] by (auto simp: entry_ok_def)
qed

end
