(* ===== verification/Search_Refine.thy ===== *)
theory Search_Refine
  imports Search_Index
begin

text \<open>
  The search index refines a plain map from chat ids to entries and token sets, operation by
  operation and so over every sequence of operations; no operation reaches a slice access out of
  range, and the bounds of the index hold throughout.
\<close>

section \<open>Refinement of a deterministic specification\<close>

text \<open>
  An implementation whose steps may panic and a specification whose steps may not: when every step of
  a good state does what the specification does to its abstraction, so does every run.
\<close>

fun run_steps :: "('o \<Rightarrow> 's \<Rightarrow> ('r \<times> 's) option) \<Rightarrow> 'o list \<Rightarrow> 's \<Rightarrow> ('r list \<times> 's) option" where
  "run_steps step [] s = Some ([], s)"
| "run_steps step (x # xs) s =
     (case step x s of
        None \<Rightarrow> None
      | Some (r, s') \<Rightarrow> (case run_steps step xs s' of None \<Rightarrow> None | Some (rs, s'') \<Rightarrow> Some (r # rs, s'')))"

fun run_spec :: "('o \<Rightarrow> 'a \<Rightarrow> 'r \<times> 'a) \<Rightarrow> 'o list \<Rightarrow> 'a \<Rightarrow> 'r list \<times> 'a" where
  "run_spec spec [] a = ([], a)"
| "run_spec spec (x # xs) a =
     (case spec x a of (r, a') \<Rightarrow> (case run_spec spec xs a' of (rs, a'') \<Rightarrow> (r # rs, a'')))"

locale refined_steps =
  fixes good :: "'s \<Rightarrow> bool" and abs :: "'s \<Rightarrow> 'a"
    and step :: "'o \<Rightarrow> 's \<Rightarrow> ('r \<times> 's) option" and spec :: "'o \<Rightarrow> 'a \<Rightarrow> 'r \<times> 'a"
  assumes step_refines:
    "good s \<Longrightarrow> \<exists>r s'. step x s = Some (r, s') \<and> good s' \<and> spec x (abs s) = (r, abs s')"
begin

lemma steps_refine:
  "good s \<Longrightarrow> \<exists>rs s'. run_steps step xs s = Some (rs, s') \<and> good s' \<and> run_spec spec xs (abs s) = (rs, abs s')"
proof (induction xs arbitrary: s)
  case (Cons x xs)
  obtain r s1 where s1: "step x s = Some (r, s1)" "good s1" "spec x (abs s) = (r, abs s1)"
    using step_refines [OF Cons.prems] by blast
  show ?case using Cons.IH [OF s1(2)] s1 by auto
qed simp

end

section \<open>The specification\<close>

type_synonym abs_chats = "int \<times> (string \<Rightarrow> (search_entry \<times> string set) option)"

datatype index_op =
    OpUpsert string search_entry "string list"
  | OpRepair string "vector list"
  | OpMark string string
  | OpRemove string

definition spec_upsert :: "string \<Rightarrow> search_entry \<Rightarrow> string list \<Rightarrow> abs_chats \<Rightarrow> bool result \<times> abs_chats" where
  "spec_upsert i e tokens a =
     (case entry_dims (fst a) i e of
        Inl err \<Rightarrow> (Inl err, a)
      | Inr dims \<Rightarrow>
          if snd a i = None \<and> card (dom (snd a)) \<ge> MaxChats then (Inl ix_ErrTooLarge, a)
          else (Inr True, (dims, (snd a)(i \<mapsto> (chat_of e, set (indexed_tokens tokens))))))"

definition spec_repair :: "string \<Rightarrow> vector list \<Rightarrow> abs_chats \<Rightarrow> bool result \<times> abs_chats" where
  "spec_repair i vectors a =
     (case snd a i of
        None \<Rightarrow> (Inl (ENew ''searchindex: chat does not exist''), a)
      | Some (e, ts) \<Rightarrow>
          (case validatedVectorDims (fst a) vectors of
             Inl err \<Rightarrow> (Inl err, a)
           | Inr dims \<Rightarrow> (Inr True, (dims, (snd a)(i \<mapsto>
               (e\<lparr> en_Vectors := vectors, en_EmbeddingPending := False, en_EmbeddingKeyID := [] \<rparr>, ts))))))"

definition spec_mark :: "string \<Rightarrow> string \<Rightarrow> abs_chats \<Rightarrow> bool result \<times> abs_chats" where
  "spec_mark i keyID a =
     (case snd a i of
        None \<Rightarrow> (Inr False, a)
      | Some (e, ts) \<Rightarrow>
          if en_EmbeddingPending e \<and> keyID \<noteq> [] \<and> validEmbeddingKeyID keyID \<and> en_EmbeddingKeyID e \<noteq> keyID
          then (Inr True, (fst a, (snd a)(i \<mapsto> (e\<lparr> en_EmbeddingKeyID := keyID \<rparr>, ts)))) else (Inr False, a))"

fun spec_step :: "index_op \<Rightarrow> abs_chats \<Rightarrow> bool result \<times> abs_chats" where
  "spec_step (OpUpsert i e tokens) a = spec_upsert i e tokens a"
| "spec_step (OpRepair i vectors) a = spec_repair i vectors a"
| "spec_step (OpMark i keyID) a = spec_mark i keyID a"
| "spec_step (OpRemove i) a = (Inr True, (fst a, (snd a)(i := None)))"

section \<open>The operations\<close>

fun index_step :: "index_op \<Rightarrow> search_index \<Rightarrow> (bool result \<times> search_index) option" where
  "index_step (OpUpsert i e tokens) ix = map_option (\<lambda>(r, ix'). (map_sum id (\<lambda>_. True) r, ix')) (Upsert i e tokens ix)"
| "index_step (OpRepair i vectors) ix = Some (case RepairEmbedding i vectors ix of (r, ix') \<Rightarrow> (map_sum id (\<lambda>_. True) r, ix'))"
| "index_step (OpMark i keyID) ix = Some (case MarkEmbeddingKey i keyID ix of (b, ix') \<Rightarrow> (Inr b, ix'))"
| "index_step (OpRemove i) ix = map_option (\<lambda>ix'. (Inr True, ix')) (index_Remove i ix)"

definition index_good :: "search_index \<Rightarrow> bool" where
  "index_good ix \<longleftrightarrow> index_ok ix \<and> compacted ix \<and> token_bound (ix_Postings ix)"

definition index_abs :: "search_index \<Rightarrow> abs_chats" where
  "index_abs ix = (ix_Dims ix, abs_index ix)"

lemma dom_abs: "dom (abs_index ix) = fst ` set (ix_Chats ix)"
  unfolding dom_map_of_conv_image_fst [symmetric] by (auto simp: abs_index_def dom_def)

lemma card_abs: "index_ok ix \<Longrightarrow> card (dom (abs_index ix)) = length (ix_Chats ix)"
  unfolding dom_abs index_ok_def table_ok_def by (metis card_distinct distinct_card length_map list.set_map)

lemma compact_good:
  "index_ok ix \<Longrightarrow> token_bound (ix_Postings ix) \<Longrightarrow> index_good (maybeCompact ix) \<and> index_abs (maybeCompact ix) = index_abs ix"
  by (simp add: index_good_def index_abs_def maybeCompact_keeps)

lemma posted_new_slot:
  assumes "map_of (ix_Chats ix) j = Some e" "index_ok ix"
  shows "en_Slot e \<noteq> int (length (ix_Slots ix))"
  using table_okD(3) [of "ix_Slots ix" "ix_Chats ix" "ix_dead ix" j e] assms by (auto simp: index_ok_def)

text \<open>
  Appending a chat to an index from which it is absent, whether because it was never there or because
  its slot has just been buried.
\<close>

lemma append_chat:
  assumes "table_ok slots (al_del i (ix_Chats ix)) dead" "length slots = length (ix_Slots ix)" "index_ok ix"
    and "entry_dims (ix_Dims ix) i e = Inr dims" "map_of (ix_Chats ix) i = None \<longrightarrow> length (ix_Chats ix) < MaxChats"
    and "ix' = ix\<lparr> ix_Dims := dims, ix_dead := dead, ix_Slots := slots @ [i],
       ix_Chats := al_set i (e\<lparr> en_Slot := int (length slots) \<rparr>) (ix_Chats ix),
       ix_Postings := post_tokens (int (length slots)) [] tokens (ix_Postings ix) \<rparr>"
  shows "index_ok ix'" "abs_index ix' = (abs_index ix)(i \<mapsto> (chat_of e, set (indexed_tokens tokens)))"
    and "token_bound (ix_Postings ix) \<Longrightarrow> token_bound (ix_Postings ix')"
proof -
  have d: "distinct (map fst (ix_Chats ix))" and p: "postings_ok (length slots) (ix_Postings ix)"
    using assms(2,3) by (auto simp: index_ok_def table_ok_def)
  note dims = entry_dims_ok [OF assms(4)]
  have old: "entry_ok dims e'" if "map_of (ix_Chats ix) j = Some e'" for j e'
    using that assms(3) dims(3) unfolding index_ok_def by blast
  note post = post_postings_ok [OF p, of tokens]
  show "token_bound (ix_Postings ix) \<Longrightarrow> token_bound (ix_Postings ix')" using post(3) by (simp add: assms(6))
  show "index_ok ix'"
    unfolding index_ok_def assms(6)
    using append_table [OF assms(1) d dims(1)] post(1) dims(2) old assms(3,5)
    by (auto simp: length_al_set index_ok_def)
  show "abs_index ix' = (abs_index ix)(i \<mapsto> (chat_of e, set (indexed_tokens tokens)))"
  proof (rule ext)
    fix j
    have "en_Slot e' \<noteq> int (length slots)" if "map_of (ix_Chats ix) j = Some e'" for e'
      using posted_new_slot [OF that assms(3)] assms(2) by simp
    then show "abs_index ix' j = ((abs_index ix)(i \<mapsto> (chat_of e, set (indexed_tokens tokens)))) j"
      by (cases "map_of (ix_Chats ix) j") (auto simp: abs_index_def assms(6) post(2))
  qed
qed

lemma Upsert_refines:
  assumes "index_good ix"
  shows "\<exists>r ix'. Upsert i e tokens ix = Some (r, ix') \<and> index_good ix'
    \<and> spec_upsert i e tokens (index_abs ix) = (map_sum id (\<lambda>_. True) r, index_abs ix')"
proof (cases "entry_dims (ix_Dims ix) i e")
  case (Inl err)
  then show ?thesis using assms by (simp add: Upsert_def spec_upsert_def index_abs_def)
next
  case (Inr dims)
  have ok: "index_ok ix" "token_bound (ix_Postings ix)" using assms by (simp_all add: index_good_def)
  have abs_i: "abs_index ix i = None \<longleftrightarrow> map_of (ix_Chats ix) i = None" by (simp add: abs_index_def)
  show ?thesis
  proof (cases "map_of (ix_Chats ix) i = None \<and> length (ix_Chats ix) \<ge> MaxChats")
    case True
    then show ?thesis using Inr assms abs_i by (simp add: Upsert_def spec_upsert_def index_abs_def card_abs [OF ok(1)])
  next
    case room: False
    have t: "table_ok (ix_Slots ix) (ix_Chats ix) (ix_dead ix)" using ok(1) by (simp add: index_ok_def)
    obtain slots dead where slots: "table_ok slots (al_del i (ix_Chats ix)) dead" "length slots = length (ix_Slots ix)"
      "(case map_of (ix_Chats ix) i of Some old \<Rightarrow> bury (en_Slot old) (ix\<lparr> ix_Dims := dims \<rparr>) | None \<Rightarrow> Some (ix\<lparr> ix_Dims := dims \<rparr>))
         = Some (ix\<lparr> ix_Dims := dims, ix_Slots := slots, ix_dead := dead \<rparr>)"
    proof (cases "map_of (ix_Chats ix) i")
      case None
      then show ?thesis using that [of "ix_Slots ix" "ix_dead ix"] t by (simp add: al_del_fresh)
    next
      case (Some old)
      then show ?thesis using that [OF bury_table [OF t Some]] table_okD [OF t Some] by (simp add: bury_def)
    qed
    have room': "map_of (ix_Chats ix) i = None \<longrightarrow> length (ix_Chats ix) < MaxChats" using room by auto
    let ?ix = "ix\<lparr> ix_Dims := dims, ix_dead := dead, ix_Slots := slots @ [i],
       ix_Chats := al_set i (e\<lparr> en_Slot := int (length slots) \<rparr>) (ix_Chats ix),
       ix_Postings := post_tokens (int (length slots)) [] tokens (ix_Postings ix) \<rparr>"
    note app = append_chat [OF slots(1,2) ok(1) Inr room' refl, of tokens]
    have "Upsert i e tokens ix = Some (Inr (), maybeCompact ?ix)"
      using Inr room slots(3) by (simp add: Upsert_def Let_def)
    moreover have "spec_upsert i e tokens (index_abs ix) = (Inr True, index_abs ?ix)"
      using Inr room app(2) abs_i by (auto simp: spec_upsert_def index_abs_def card_abs [OF ok(1)])
    ultimately show ?thesis using compact_good [OF app(1) app(3) [OF ok(2)]] by simp
  qed
qed

lemma Remove_refines:
  assumes "index_good ix"
  shows "\<exists>ix'. index_Remove i ix = Some ix' \<and> index_good ix'
    \<and> index_abs ix' = (ix_Dims ix, (abs_index ix)(i := None))"
proof (cases "map_of (ix_Chats ix) i")
  case None
  then show ?thesis using assms by (auto simp: index_Remove_def index_abs_def abs_index_def fun_eq_iff)
next
  case (Some e)
  have ok: "index_ok ix" "token_bound (ix_Postings ix)" using assms by (simp_all add: index_good_def)
  then have t: "table_ok (ix_Slots ix) (ix_Chats ix) (ix_dead ix)" by (simp add: index_ok_def)
  let ?ix = "ix\<lparr> ix_Slots := (ix_Slots ix)[nat (en_Slot e) := []], ix_dead := ix_dead ix + 1, ix_Chats := al_del i (ix_Chats ix) \<rparr>"
  have "index_ok ?ix"
    using ok bury_table [OF t Some] length_al_del [of i "ix_Chats ix"] by (auto simp: index_ok_def split: if_splits)
  moreover have "abs_index ?ix = (abs_index ix)(i := None)" by (auto simp: abs_index_def fun_eq_iff)
  moreover have "index_Remove i ix = Some (maybeCompact ?ix)"
    using Some table_okD [OF t Some] by (simp add: index_Remove_def bury_def)
  ultimately show ?thesis using compact_good [of ?ix] ok(2) by (simp add: index_abs_def)
qed

text \<open>Replacing an entry in its slot.\<close>

lemma replace_entry:
  assumes "index_good ix" "map_of (ix_Chats ix) i = Some e" "en_Slot e' = en_Slot e" "entry_ok dims e'"
    and "\<And>j f. map_of (ix_Chats ix) j = Some f \<Longrightarrow> entry_ok dims f"
    and "ix' = ix\<lparr> ix_Chats := al_set i e' (ix_Chats ix), ix_Dims := dims \<rparr>"
  shows "index_good ix'" "abs_index ix' = (abs_index ix)(i \<mapsto> (chat_of e', posted (ix_Postings ix) (en_Slot e)))"
proof -
  have ok: "index_ok ix" "compacted ix" "token_bound (ix_Postings ix)" using assms(1) by (auto simp: index_good_def)
  have t: "table_ok (ix_Slots ix) (ix_Chats ix) (ix_dead ix)" using ok by (simp add: index_ok_def)
  have "table_ok (ix_Slots ix) (al_set i e' (ix_Chats ix)) (ix_dead ix)"
    unfolding table_ok_def
  proof (intro conjI allI impI)
    fix j f assume "map_of (al_set i e' (ix_Chats ix)) j = Some f"
    then obtain g where "map_of (ix_Chats ix) j = Some g" "en_Slot g = en_Slot f"
      using assms(2,3) by (auto split: if_splits)
    from table_okD [OF t this(1)] this(2)
    show "j \<noteq> []" "0 \<le> en_Slot f" "en_Slot f < int (length (ix_Slots ix))" "ix_Slots ix ! nat (en_Slot f) = j" by auto
  next
    fix s assume "s < length (ix_Slots ix)" "ix_Slots ix ! s \<noteq> []"
    then obtain f where f: "map_of (ix_Chats ix) (ix_Slots ix ! s) = Some f" "en_Slot f = int s"
      using t unfolding table_ok_def by blast
    show "\<exists>f. map_of (al_set i e' (ix_Chats ix)) (ix_Slots ix ! s) = Some f \<and> en_Slot f = int s"
      using f assms(2,3) by (cases "ix_Slots ix ! s = i") auto
  qed (use t in \<open>simp_all add: table_ok_def\<close>)
  then show "index_good ix'"
    using ok assms(2,4-6) by (auto simp: index_good_def index_ok_def compacted_def length_al_set)
  show "abs_index ix' = (abs_index ix)(i \<mapsto> (chat_of e', posted (ix_Postings ix) (en_Slot e)))"
    using assms(3,6) by (auto simp: abs_index_def fun_eq_iff)
qed

lemma RepairEmbedding_refines:
  assumes "index_good ix" "RepairEmbedding i vectors ix = (r, ix')"
  shows "index_good ix' \<and> spec_repair i vectors (index_abs ix) = (map_sum id (\<lambda>_. True) r, index_abs ix')"
proof (cases "map_of (ix_Chats ix) i")
  case None
  then show ?thesis using assms by (auto simp: RepairEmbedding_def spec_repair_def index_abs_def abs_index_def)
next
  case (Some e)
  have a: "abs_index ix i = Some (chat_of e, posted (ix_Postings ix) (en_Slot e))" using Some by (simp add: abs_index_def)
  show ?thesis
  proof (cases "validatedVectorDims (ix_Dims ix) vectors")
    case (Inl err)
    then show ?thesis using assms Some a by (auto simp: RepairEmbedding_def spec_repair_def index_abs_def)
  next
    case (Inr dims)
    have ok: "\<And>j f. map_of (ix_Chats ix) j = Some f \<Longrightarrow> entry_ok (ix_Dims ix) f"
      using assms(1) by (auto simp: index_good_def index_ok_def)
    note v = validated_dims [OF Inr]
    let ?e = "e\<lparr> en_Vectors := vectors, en_EmbeddingPending := False, en_EmbeddingKeyID := [] \<rparr>"
    have e: "entry_ok dims ?e" using ok [OF Some] v(1) by (simp add: entry_ok_def validEmbeddingKeyID_def)
    have f: "\<And>j f. map_of (ix_Chats ix) j = Some f \<Longrightarrow> entry_ok dims f" using ok v(2) by (auto simp: entry_ok_def)
    have ix': "r = Inr ()" "ix' = ix\<lparr> ix_Chats := al_set i ?e (ix_Chats ix), ix_Dims := dims \<rparr>"
      using assms(2) Some Inr by (auto simp: RepairEmbedding_def)
    show ?thesis
      using replace_entry [OF assms(1) Some _ e f ix'(2)] ix' a Inr
      by (auto simp: spec_repair_def index_abs_def chat_of_def)
  qed
qed

lemma MarkEmbeddingKey_refines:
  assumes "index_good ix" "MarkEmbeddingKey i keyID ix = (b, ix')"
  shows "index_good ix' \<and> spec_mark i keyID (index_abs ix) = (Inr b, index_abs ix')"
proof (cases "map_of (ix_Chats ix) i")
  case None
  then show ?thesis using assms by (auto simp: MarkEmbeddingKey_def spec_mark_def index_abs_def abs_index_def)
next
  case (Some e)
  have a: "abs_index ix i = Some (chat_of e, posted (ix_Postings ix) (en_Slot e))" using Some by (simp add: abs_index_def)
  have c: "en_EmbeddingPending (chat_of e) = en_EmbeddingPending e" "en_EmbeddingKeyID (chat_of e) = en_EmbeddingKeyID e"
    by (simp_all add: chat_of_def)
  show ?thesis
  proof (cases "en_EmbeddingPending e \<and> keyID \<noteq> [] \<and> validEmbeddingKeyID keyID \<and> en_EmbeddingKeyID e \<noteq> keyID")
    case False
    then show ?thesis using assms Some a c by (auto simp: MarkEmbeddingKey_def spec_mark_def index_abs_def)
  next
    case True
    let ?e = "e\<lparr> en_EmbeddingKeyID := keyID \<rparr>"
    have ok: "\<And>j f. map_of (ix_Chats ix) j = Some f \<Longrightarrow> entry_ok (ix_Dims ix) f"
      using assms(1) by (auto simp: index_good_def index_ok_def)
    have e: "entry_ok (ix_Dims ix) ?e" using ok [OF Some] True by (simp add: entry_ok_def)
    have ix': "b = True" "ix' = ix\<lparr> ix_Chats := al_set i ?e (ix_Chats ix), ix_Dims := ix_Dims ix \<rparr>"
      using assms(2) Some True by (auto simp: MarkEmbeddingKey_def)
    show ?thesis
      using replace_entry [OF assms(1) Some _ e ok ix'(2)] ix' a c True
      by (auto simp: spec_mark_def index_abs_def chat_of_def)
  qed
qed

lemma index_step_refines:
  assumes "index_good ix"
  shows "\<exists>r ix'. index_step x ix = Some (r, ix') \<and> index_good ix' \<and> spec_step x (index_abs ix) = (r, index_abs ix')"
proof (cases x)
  case (OpUpsert i e tokens)
  then show ?thesis using Upsert_refines [OF assms, of i e tokens] by auto
next
  case (OpRepair i vectors)
  obtain r ix' where run: "RepairEmbedding i vectors ix = (r, ix')" by fastforce
  show ?thesis using RepairEmbedding_refines [OF assms run] run OpRepair by simp
next
  case (OpMark i keyID)
  obtain b ix' where run: "MarkEmbeddingKey i keyID ix = (b, ix')" by fastforce
  show ?thesis using MarkEmbeddingKey_refines [OF assms run] run OpMark by simp
next
  case (OpRemove i)
  then show ?thesis using Remove_refines [OF assms, of i] by (auto simp: index_abs_def)
qed

interpretation sx: refined_steps index_good index_abs index_step spec_step
  by unfold_locales (rule index_step_refines)

text \<open>
  C11. The search index refines a map from chat ids to entries and token sets: whatever upserts,
  removals, repairs and key marks are applied to a new index, and whenever it compacts, none of them
  panics, every one answers what the specification answers, errors included, and afterwards the
  index stands for exactly the chats of the specification, each posted under exactly the first 512
  distinct valid tokens of its last upsert. All along the slot table and the entries name each other,
  posting lists are strictly ascending, and dead slots stay within the compaction bound.
\<close>

theorem index_refines:
  "\<exists>rs ix. run_steps index_step ops (index_New model) = Some (rs, ix)
     \<and> run_spec spec_step ops (0, Map.empty) = (rs, (ix_Dims ix, abs_index ix))
     \<and> index_good ix"
proof -
  have "index_good (index_New model)" "index_abs (index_New model) = (0, Map.empty)"
    by (simp_all add: index_good_def index_abs_def index_New_ok) (simp add: index_New_def)
  then show ?thesis
    using sx.steps_refine [of "index_New model" ops] by (auto simp: index_good_def index_abs_def)
qed

end
