(* ===== verification/Search_Query.thy ===== *)
theory Search_Query
  imports Search_Refine "HOL-Library.Monad_Syntax" "HOL-Library.Multiset"
begin

text \<open>
  Queries on the search index (\<^verbatim>\<open>searchindex/index.go\<close>): keyword hits scored by inverse document
  frequency, embeddings by cosine, the two rankings fused. Floating point is a record of operations:
  nothing here depends on how they round.
\<close>

section \<open>Floating point\<close>

record 'f floats =
  fl_int :: "int \<Rightarrow> 'f"
  fl_add :: "'f \<Rightarrow> 'f \<Rightarrow> 'f"
  fl_sub :: "'f \<Rightarrow> 'f \<Rightarrow> 'f"
  fl_mul :: "'f \<Rightarrow> 'f \<Rightarrow> 'f"
  fl_div :: "'f \<Rightarrow> 'f \<Rightarrow> 'f"
  fl_log :: "'f \<Rightarrow> 'f"
  fl_sqrt :: "'f \<Rightarrow> 'f"
  fl_abs :: "'f \<Rightarrow> 'f"
  fl_round :: "'f \<Rightarrow> int option"
  fl_inf :: "'f \<Rightarrow> bool"
  fl_less :: "'f \<Rightarrow> 'f \<Rightarrow> bool"
  fl_eq :: "'f \<Rightarrow> 'f \<Rightarrow> bool"
  fl_nan :: "'f \<Rightarrow> bool"
  fl_neg_inf :: 'f

definition fl_half :: "'f floats \<Rightarrow> 'f" where
  "fl_half F = fl_div F (fl_int F 1) (fl_int F 2)"

text \<open>Comparison of floats that are numbers: a strict weak order, with \<^verbatim>\<open>==\<close> its ties.\<close>

definition float_laws :: "'f floats \<Rightarrow> bool" where
  "float_laws F \<longleftrightarrow>
     (\<forall>a b. fl_less F a b \<longrightarrow> \<not> fl_nan F a \<and> \<not> fl_nan F b)
   \<and> (\<forall>a. \<not> fl_less F a a)
   \<and> (\<forall>a b c. fl_less F a b \<longrightarrow> fl_less F b c \<longrightarrow> fl_less F a c)
   \<and> (\<forall>a b. \<not> fl_nan F a \<longrightarrow> \<not> fl_nan F b \<longrightarrow> (fl_eq F a b \<longleftrightarrow> \<not> fl_less F a b \<and> \<not> fl_less F b a))
   \<and> (\<forall>a b c. \<not> fl_nan F a \<longrightarrow> \<not> fl_nan F b \<longrightarrow> \<not> fl_nan F c \<longrightarrow> fl_less F a c \<longrightarrow> fl_less F a b \<or> fl_less F b c)"

section \<open>Sorting by a comparison\<close>

text \<open>\<^verbatim>\<open>sort.Slice\<close>: for a strict order that is total on the elements there is one sorted list.\<close>

fun insert_by :: "('a \<Rightarrow> 'a \<Rightarrow> bool) \<Rightarrow> 'a \<Rightarrow> 'a list \<Rightarrow> 'a list" where
  "insert_by lt x [] = [x]"
| "insert_by lt x (y # ys) = (if lt y x then y # insert_by lt x ys else x # y # ys)"

fun sort_by :: "('a \<Rightarrow> 'a \<Rightarrow> bool) \<Rightarrow> 'a list \<Rightarrow> 'a list" where
  "sort_by lt [] = []"
| "sort_by lt (x # xs) = insert_by lt x (sort_by lt xs)"

definition order_on :: "('a \<Rightarrow> 'a \<Rightarrow> bool) \<Rightarrow> 'a set \<Rightarrow> bool" where
  "order_on lt A \<longleftrightarrow> (\<forall>a \<in> A. \<forall>b \<in> A. \<forall>c \<in> A. lt a b \<longrightarrow> lt b c \<longrightarrow> lt a c)
     \<and> (\<forall>a \<in> A. \<not> lt a a) \<and> (\<forall>a \<in> A. \<forall>b \<in> A. a = b \<or> lt a b \<or> lt b a)"

lemma mset_insert_by [simp]: "mset (insert_by lt x xs) = add_mset x (mset xs)"
  by (induction xs) auto

lemma mset_sort_by [simp]: "mset (sort_by lt xs) = mset xs"
  by (induction xs) auto

lemma set_insert_by [simp]: "set (insert_by lt x xs) = insert x (set xs)"
  by (induction xs) auto

lemma set_sort_by [simp]: "set (sort_by lt xs) = set xs"
  by (induction xs) auto

lemma length_sort_by [simp]: "length (sort_by lt xs) = length xs"
  by (metis mset_sort_by size_mset)

lemma distinct_sort_by [simp]: "distinct (sort_by lt xs) = distinct xs"
  by (metis mset_sort_by mset_eq_imp_distinct_iff)

lemma order_onD:
  assumes "order_on lt A"
  shows "a \<in> A \<Longrightarrow> b \<in> A \<Longrightarrow> c \<in> A \<Longrightarrow> lt a b \<Longrightarrow> lt b c \<Longrightarrow> lt a c" "a \<in> A \<Longrightarrow> b \<in> A \<Longrightarrow> a = b \<or> lt a b \<or> lt b a"
  using assms unfolding order_on_def by blast+

lemma order_on_subset: "order_on lt A \<Longrightarrow> B \<subseteq> A \<Longrightarrow> order_on lt B"
  unfolding order_on_def by blast

lemma sorted_insert_by:
  "order_on lt A \<Longrightarrow> insert x (set xs) \<subseteq> A \<Longrightarrow> x \<notin> set xs \<Longrightarrow> sorted_wrt lt xs \<Longrightarrow> sorted_wrt lt (insert_by lt x xs)"
proof (induction xs)
  case (Cons y ys)
  have in_A: "x \<in> A" "y \<in> A" "\<And>z. z \<in> set ys \<Longrightarrow> z \<in> A" using Cons.prems(2) by auto
  show ?case
  proof (cases "lt y x")
    case True
    have "sorted_wrt lt (insert_by lt x ys)" using Cons by (intro Cons.IH) auto
    then show ?thesis using True Cons.prems(4) by simp
  next
    case False
    then have xy: "lt x y" using order_onD(2) [OF Cons.prems(1) in_A(1,2)] Cons.prems(3) by auto
    have "lt x z" if "z \<in> set ys" for z
      using order_onD(1) [OF Cons.prems(1) in_A(1,2) in_A(3) [OF that] xy] Cons.prems(4) that by simp
    then show ?thesis using False xy Cons.prems(4) by simp
  qed
qed simp

lemma sorted_sort_by: "order_on lt (set xs) \<Longrightarrow> distinct xs \<Longrightarrow> sorted_wrt lt (sort_by lt xs)"
proof (induction xs)
  case (Cons x xs)
  have "sorted_wrt lt (sort_by lt xs)" using Cons order_on_subset [OF Cons.prems(1)] by (intro Cons.IH) auto
  then show ?case using Cons.prems sorted_insert_by [OF Cons.prems(1), of x "sort_by lt xs"] by simp
qed simp

lemma sorted_prefix:
  "sorted_wrt (\<lambda>a b. P a \<or> \<not> P b) xs \<Longrightarrow> take (length (filter P xs)) xs = filter P xs"
proof (induction xs)
  case (Cons x xs)
  show ?case
  proof (cases "P x")
    case False
    then have "filter P xs = []" using Cons.prems by (auto simp: filter_empty_conv)
    then show ?thesis using False by simp
  qed (use Cons in simp)
qed simp

section \<open>Quantization\<close>

text \<open>
  Symmetric max-abs scaling to a signed byte; \<open>fl_round\<close> is \<open>None\<close> on a NaN. A value that is no number
  or overflows the scale leaves zeros.
\<close>

definition max_abs :: "'f floats \<Rightarrow> 'f list \<Rightarrow> 'f" where
  "max_abs F v = fold (\<lambda>f m. if fl_less F m (fl_abs F f) then fl_abs F f else m) v (fl_int F 0)"

definition Quantize :: "'f floats \<Rightarrow> 'f list \<Rightarrow> vector" where
  "Quantize F v =
     (let maxAbs = max_abs F v in
      if fl_eq F maxAbs (fl_int F 0) \<or> fl_inf F maxAbs \<or> fl_nan F maxAbs then map (\<lambda>_. 0) v
      else let scale = fl_div F (fl_int F 127) maxAbs in
        map (\<lambda>f. case fl_round F (fl_mul F f scale) of None \<Rightarrow> 0 | Some q \<Rightarrow> word_of_int q) v)"

lemma length_Quantize [simp]: "length (Quantize F v) = length v"
  by (simp add: Quantize_def Let_def)

section \<open>Keyword hits\<close>

definition rrfK :: int where "rrfK = 60"
definition rrfCandidateDepth :: nat where "rrfCandidateDepth = 128"

definition slot_id :: "search_index \<Rightarrow> int \<Rightarrow> string option" where
  "slot_id ix s = (if 0 \<le> s \<and> s < int (length (ix_Slots ix)) then Some (ix_Slots ix ! nat s) else None)"

text \<open>The posting list of a token without the slots that are empty by now.\<close>

definition livePostings :: "search_index \<Rightarrow> string \<Rightarrow> int list option" where
  "livePostings ix t =
     (let slots = (case map_of (ix_Postings ix) t of Some ss \<Rightarrow> ss | None \<Rightarrow> []) in
      if list_all (\<lambda>s. slot_id ix s \<noteq> None) slots then Some (filter (\<lambda>s. slot_id ix s \<noteq> Some []) slots) else None)"

definition idf :: "'f floats \<Rightarrow> nat \<Rightarrow> nat \<Rightarrow> 'f" where
  "idf F n l = fl_log F (fl_add F (fl_int F 1)
     (fl_div F (fl_add F (fl_sub F (fl_int F (int n)) (fl_int F (int l))) (fl_half F))
               (fl_add F (fl_int F (int l)) (fl_half F))))"

definition bump :: "'f floats \<Rightarrow> 'f \<Rightarrow> int \<Rightarrow> (int \<times> 'f) list \<Rightarrow> (int \<times> 'f) list" where
  "bump F w s scores = al_set s (fl_add F (case map_of scores s of Some x \<Rightarrow> x | None \<Rightarrow> fl_int F 0) w) scores"

fun lexicalScores :: "'f floats \<Rightarrow> search_index \<Rightarrow> string list \<Rightarrow> (int \<times> 'f) list \<Rightarrow> (int \<times> 'f) list option" where
  "lexicalScores F ix [] scores = Some scores"
| "lexicalScores F ix (t # ts) scores =
     (case livePostings ix t of
        None \<Rightarrow> None
      | Some live \<Rightarrow>
          lexicalScores F ix ts (fold (bump F (idf F (length (ix_Chats ix)) (length live))) live scores))"

text \<open>
  Slots by descending score, ties by id. The tie break reads the slot table; a score for a slot
  outside of it is taken as a panic.
\<close>

definition rank_less :: "'f floats \<Rightarrow> (int \<Rightarrow> string) \<Rightarrow> (int \<times> 'f) list \<Rightarrow> int \<Rightarrow> int \<Rightarrow> bool" where
  "rank_less F name scores a b =
     (let sa = the (map_of scores a); sb = the (map_of scores b) in
      if \<not> fl_eq F sa sb then fl_less F sb sa else name a < name b)"

definition rankSlots :: "'f floats \<Rightarrow> search_index \<Rightarrow> (int \<times> 'f) list \<Rightarrow> int list option" where
  "rankSlots F ix scores =
     (if list_all (\<lambda>(s, _). slot_id ix s \<noteq> None) scores
      then Some (take rrfCandidateDepth
        (sort_by (rank_less F (\<lambda>s. the (slot_id ix s)) scores) (map fst scores))) else None)"

definition lexicalRanked :: "'f floats \<Rightarrow> search_index \<Rightarrow> string list \<Rightarrow> int list option" where
  "lexicalRanked F ix queryTokens = Option.bind (lexicalScores F ix (firsts queryTokens) []) (rankSlots F ix)"

section \<open>Embeddings\<close>

definition cosine :: "'f floats \<Rightarrow> 'f list \<Rightarrow> vector \<Rightarrow> 'f" where
  "cosine F a b =
     (let zero = fl_int F 0;
          (dot, na, nb) = fold (\<lambda>(x, q) (dot, na, nb).
             let y = fl_int F (sint q) in
             (fl_add F dot (fl_mul F x y), fl_add F na (fl_mul F x x), fl_add F nb (fl_mul F y y)))
             (zip a b) (zero, zero, zero)
      in if fl_eq F na zero \<or> fl_eq F nb zero then zero
         else fl_div F dot (fl_mul F (fl_sqrt F na) (fl_sqrt F nb)))"

definition best_cosine :: "'f floats \<Rightarrow> 'f list \<Rightarrow> vector list \<Rightarrow> 'f" where
  "best_cosine F q vs =
     fold (\<lambda>v best. if length v \<noteq> length q then best
        else let c = cosine F q v in if fl_less F best c then c else best) vs (fl_neg_inf F)"

fun semanticScores :: "'f floats \<Rightarrow> 'f list \<Rightarrow> (string \<times> search_entry) list \<Rightarrow> (int \<times> 'f) list \<Rightarrow> (int \<times> 'f) list" where
  "semanticScores F q [] scores = scores"
| "semanticScores F q ((i, e) # es) scores =
     (let best = best_cosine F q (en_Vectors e) in
      semanticScores F q es (if fl_eq F best (fl_neg_inf F) then scores else al_set (en_Slot e) best scores))"

definition semanticRanked :: "'f floats \<Rightarrow> search_index \<Rightarrow> 'f list \<Rightarrow> int list option" where
  "semanticRanked F ix q = (if q = [] then Some [] else rankSlots F ix (semanticScores F q (ix_Chats ix) []))"

section \<open>Fusion\<close>

fun add_ranks :: "'f floats \<Rightarrow> 'f \<Rightarrow> nat \<Rightarrow> int list \<Rightarrow> (int \<times> 'f) list \<Rightarrow> (int \<times> 'f) list" where
  "add_ranks F w rank [] fused = fused"
| "add_ranks F w rank (s # ss) fused =
     add_ranks F w (Suc rank) ss (bump F (fl_div F w (fl_int F (rrfK + int rank + 1))) s fused)"

definition chat_slot :: "search_index \<Rightarrow> string \<Rightarrow> int" where
  "chat_slot ix i = (case map_of (ix_Chats ix) i of Some e \<Rightarrow> en_Slot e | None \<Rightarrow> 0)"

definition result_less :: "'f floats \<Rightarrow> search_index \<Rightarrow> int list \<Rightarrow> string \<times> 'f \<Rightarrow> string \<times> 'f \<Rightarrow> bool" where
  "result_less F ix lexical a b =
     (let la = chat_slot ix (fst a) \<in> set lexical; lb = chat_slot ix (fst b) \<in> set lexical in
      if la \<noteq> lb then la
      else if \<not> fl_eq F (snd a) (snd b) then fl_less F (snd b) (snd a)
      else fst a < fst b)"

definition fused_scores :: "'f floats \<Rightarrow> int list \<Rightarrow> int list \<Rightarrow> (int \<times> 'f) list" where
  "fused_scores F lexical semantic =
     add_ranks F (fl_half F) 0 semantic (add_ranks F (fl_int F 1) 0 lexical [])"

definition Search :: "'f floats \<Rightarrow> search_index \<Rightarrow> 'f list \<Rightarrow> string list \<Rightarrow> int \<Rightarrow> (string \<times> 'f) list option" where
  "Search F ix queryVec queryTokens limit =
     (if limit \<le> 0 \<or> ix_Chats ix = [] then Some []
      else do {
        lexical \<leftarrow> lexicalRanked F ix queryTokens;
        semantic \<leftarrow> semanticRanked F ix queryVec;
        results \<leftarrow> all_some (map (\<lambda>(s, score). map_option (\<lambda>i. (i, score)) (slot_id ix s))
                      (fused_scores F lexical semantic));
        Some (take (nat limit) (sort_by (result_less F ix lexical) results)) })"

section \<open>What a search finds\<close>

lemma float_lawsD:
  assumes "float_laws F"
  shows "fl_less F a b \<Longrightarrow> \<not> fl_nan F a \<and> \<not> fl_nan F b" "\<not> fl_less F a a"
    "fl_less F a b \<Longrightarrow> fl_less F b c \<Longrightarrow> fl_less F a c"
    "\<not> fl_nan F a \<Longrightarrow> \<not> fl_nan F b \<Longrightarrow> fl_eq F a b \<longleftrightarrow> \<not> fl_less F a b \<and> \<not> fl_less F b a"
    "\<not> fl_nan F a \<Longrightarrow> \<not> fl_nan F b \<Longrightarrow> \<not> fl_nan F c \<Longrightarrow> fl_less F a c \<Longrightarrow> fl_less F a b \<or> fl_less F b c"
  using assms unfolding float_laws_def by blast+

lemma float_weak:
  assumes "float_laws F" "\<not> fl_nan F a" "\<not> fl_nan F b" "\<not> fl_nan F c"
  shows "fl_eq F a b \<Longrightarrow> fl_eq F b c \<Longrightarrow> fl_eq F a c"
    and "fl_eq F a b \<Longrightarrow> fl_less F c b \<Longrightarrow> fl_less F c a" "fl_less F b a \<Longrightarrow> fl_eq F b c \<Longrightarrow> fl_less F c a"
proof -
  note eq = float_lawsD(4) [OF assms(1,2,3)] float_lawsD(4) [OF assms(1,3,4)] float_lawsD(4) [OF assms(1,2,4)]
  show "fl_eq F a b \<Longrightarrow> fl_eq F b c \<Longrightarrow> fl_eq F a c"
    using float_lawsD(5) [OF assms(1,2,3,4)] float_lawsD(5) [OF assms(1,4,3,2)] unfolding eq by blast
  show "fl_eq F a b \<Longrightarrow> fl_less F c b \<Longrightarrow> fl_less F c a"
    using float_lawsD(5) [OF assms(1,4,2,3)] unfolding eq by blast
  show "fl_less F b a \<Longrightarrow> fl_eq F b c \<Longrightarrow> fl_less F c a"
    using float_lawsD(5) [OF assms(1,3,4,2)] unfolding eq by blast
qed

definition score_less :: "'f floats \<Rightarrow> string \<times> 'f \<Rightarrow> string \<times> 'f \<Rightarrow> bool" where
  "score_less F a b \<longleftrightarrow> (if \<not> fl_eq F (snd a) (snd b) then fl_less F (snd b) (snd a) else fst a < fst b)"

lemma score_less_trans:
  assumes F: "float_laws F" and n: "\<not> fl_nan F (snd a)" "\<not> fl_nan F (snd b)" "\<not> fl_nan F (snd c)"
    and ab: "score_less F a b" and bc: "score_less F b c"
  shows "score_less F a c"
proof (cases "fl_eq F (snd a) (snd b)")
  case eq: True
  show ?thesis
  proof (cases "fl_eq F (snd b) (snd c)")
    case True
    then show ?thesis using float_weak(1) [OF F n eq] ab bc eq by (auto simp: score_less_def)
  next
    case False
    then have "fl_less F (snd c) (snd a)" using float_weak(2) [OF F n eq] bc by (simp add: score_less_def)
    then show ?thesis using float_lawsD(4) [OF F n(1,3)] by (simp add: score_less_def)
  qed
next
  case False
  then have l: "fl_less F (snd b) (snd a)" using ab by (simp add: score_less_def)
  have "fl_less F (snd c) (snd a)"
    using float_weak(3) [OF F n l] float_lawsD(3) [OF F _ l, of "snd c"] bc by (auto simp: score_less_def split: if_splits)
  then show ?thesis using float_lawsD(4) [OF F n(1,3)] by (simp add: score_less_def)
qed

lemma result_less_score:
  "result_less F ix lexical a b \<longleftrightarrow>
     (if chat_slot ix (fst a) \<in> set lexical \<longleftrightarrow> chat_slot ix (fst b) \<in> set lexical then score_less F a b
      else chat_slot ix (fst a) \<in> set lexical)"
  by (auto simp: result_less_def score_less_def Let_def)

lemma result_less_order:
  assumes "float_laws F" "distinct (map fst rs)" "\<And>r. r \<in> set rs \<Longrightarrow> \<not> fl_nan F (snd r)"
  shows "order_on (result_less F ix lexical) (set rs)"
proof -
  have eq: "fl_eq F (snd a) (snd b) \<longleftrightarrow> \<not> fl_less F (snd a) (snd b) \<and> \<not> fl_less F (snd b) (snd a)"
    if "a \<in> set rs" "b \<in> set rs" for a b
    using float_lawsD(4) [OF assms(1)] assms(3) that by blast
  have total: "score_less F a b \<or> score_less F b a" if "a \<in> set rs" "b \<in> set rs" "a \<noteq> b" for a b
  proof -
    have "fst a \<noteq> fst b" using assms(2) that by (meson distinct_map inj_onD)
    then show ?thesis using eq [OF that(1,2)] eq [OF that(2,1)] by (auto simp: score_less_def)
  qed
  have irrefl: "\<not> score_less F a a" if "a \<in> set rs" for a
    using eq [OF that that] float_lawsD(2) [OF assms(1)] by (simp add: score_less_def)
  have trans: "score_less F a c" if "a \<in> set rs" "b \<in> set rs" "c \<in> set rs" "score_less F a b" "score_less F b c" for a b c
    using score_less_trans [OF assms(1)] assms(3) that by blast
  show ?thesis
    unfolding order_on_def
  proof (intro conjI ballI impI)
    fix a b c assume *: "a \<in> set rs" "b \<in> set rs" "c \<in> set rs"
      "result_less F ix lexical a b" "result_less F ix lexical b c"
    show "result_less F ix lexical a c"
      using *(4,5) trans [OF *(1-3)] unfolding result_less_score by (simp split: if_splits)
  next
    fix a assume "a \<in> set rs"
    then show "\<not> result_less F ix lexical a a" using irrefl unfolding result_less_score by simp
  next
    fix a b assume "a \<in> set rs" "b \<in> set rs"
    then show "a = b \<or> result_less F ix lexical a b \<or> result_less F ix lexical b a"
      using total [of a b] unfolding result_less_score by (simp split: if_splits) blast
  qed
qed

text \<open>The slots of the chats, each with the id of its chat.\<close>

definition chat_slots :: "search_index \<Rightarrow> int set" where
  "chat_slots ix = {en_Slot e | i e. map_of (ix_Chats ix) i = Some e}"

lemma slot_id_chat:
  assumes "index_ok ix" "map_of (ix_Chats ix) i = Some e"
  shows "slot_id ix (en_Slot e) = Some i" "i \<noteq> []"
  using table_okD [of "ix_Slots ix" "ix_Chats ix" "ix_dead ix" i e] assms by (auto simp: index_ok_def slot_id_def)

lemma slot_id_live:
  assumes "index_ok ix" "slot_id ix s = Some i" "i \<noteq> []"
  shows "\<exists>e. map_of (ix_Chats ix) i = Some e \<and> en_Slot e = s"
proof -
  have s: "nat s < length (ix_Slots ix)" "ix_Slots ix ! nat s = i" "int (nat s) = s"
    using assms(2) by (auto simp: slot_id_def split: if_splits)
  have "table_ok (ix_Slots ix) (ix_Chats ix) (ix_dead ix)" using assms(1) by (simp add: index_ok_def)
  then have "\<forall>k < length (ix_Slots ix). ix_Slots ix ! k \<noteq> [] \<longrightarrow>
      (\<exists>e. map_of (ix_Chats ix) (ix_Slots ix ! k) = Some e \<and> en_Slot e = int k)"
    unfolding table_ok_def by blast
  then show ?thesis using s assms(3) by metis
qed

lemma chat_slots_iff: "index_ok ix \<Longrightarrow> s \<in> chat_slots ix \<longleftrightarrow> (\<exists>i. slot_id ix s = Some i \<and> i \<noteq> [])"
  using slot_id_chat slot_id_live by (fastforce simp: chat_slots_def)

lemma chat_slot_id: "index_ok ix \<Longrightarrow> s \<in> chat_slots ix \<Longrightarrow> chat_slot ix (the (slot_id ix s)) = s"
  using slot_id_chat by (fastforce simp: chat_slots_def chat_slot_def)

lemma livePostings_ok:
  assumes "index_ok ix"
  shows "\<exists>l. livePostings ix t = Some l \<and> set l = {s \<in> chat_slots ix. t \<in> posted (ix_Postings ix) s}"
proof -
  have p: "slot_id ix s \<noteq> None" if "map_of (ix_Postings ix) t = Some ss" "s \<in> set ss" for ss s
    using assms that unfolding index_ok_def postings_ok_def slot_id_def by auto
  have c: "s \<in> chat_slots ix \<longleftrightarrow> slot_id ix s \<noteq> None \<and> slot_id ix s \<noteq> Some []" for s
    using chat_slots_iff [OF assms] by auto
  show ?thesis
  proof (cases "map_of (ix_Postings ix) t")
    case None
    then show ?thesis by (simp add: livePostings_def posted_def)
  next
    case (Some ss)
    have l: "livePostings ix t = Some (filter (\<lambda>s. slot_id ix s \<noteq> Some []) ss)"
      using p [OF Some] Some by (simp add: livePostings_def list_all_iff)
    have "s \<in> set (filter (\<lambda>s. slot_id ix s \<noteq> Some []) ss) \<longleftrightarrow> s \<in> chat_slots ix \<and> t \<in> posted (ix_Postings ix) s" for s
      using p [OF Some, of s] Some unfolding c posted_def by auto
    then show ?thesis using l by auto
  qed
qed

lemma fold_bump:
  "fst ` set (fold (bump F w) l scores) = fst ` set scores \<union> set l"
  "distinct (map fst scores) \<Longrightarrow> distinct (map fst (fold (bump F w) l scores))"
  by (induction l arbitrary: scores) (auto simp: bump_def)

lemma lexicalScores_ok:
  assumes "index_ok ix"
  shows "distinct (map fst scores) \<Longrightarrow> \<exists>sc. lexicalScores F ix ts scores = Some sc \<and> distinct (map fst sc)
    \<and> fst ` set sc = fst ` set scores \<union> {s \<in> chat_slots ix. posted (ix_Postings ix) s \<inter> set ts \<noteq> {}}"
proof (induction ts arbitrary: scores)
  case (Cons t ts)
  obtain l where l: "livePostings ix t = Some l" "set l = {s \<in> chat_slots ix. t \<in> posted (ix_Postings ix) s}"
    using livePostings_ok [OF assms] by blast
  let ?sc = "fold (bump F (idf F (length (ix_Chats ix)) (length l))) l scores"
  obtain sc where sc: "lexicalScores F ix ts ?sc = Some sc" "distinct (map fst sc)"
    "fst ` set sc = fst ` set ?sc \<union> {s \<in> chat_slots ix. posted (ix_Postings ix) s \<inter> set ts \<noteq> {}}"
    using Cons.IH [OF fold_bump(2) [OF Cons.prems]] by blast
  show ?case using l sc by (intro exI [of _ sc]) (auto simp: fold_bump(1))
qed simp

lemma rankSlots_ok:
  assumes "index_ok ix" "fst ` set scores \<subseteq> chat_slots ix" "distinct (map fst scores)"
  shows "\<exists>r. rankSlots F ix scores = Some r \<and> distinct r \<and> set r \<subseteq> fst ` set scores
    \<and> (card (fst ` set scores) \<le> rrfCandidateDepth \<longrightarrow> set r = fst ` set scores)"
proof -
  have "slot_id ix s \<noteq> None" if "(s, x) \<in> set scores" for s x
  proof -
    have "s \<in> chat_slots ix" using assms(2) that by force
    then show ?thesis using chat_slots_iff [OF assms(1)] by auto
  qed
  moreover have "card (fst ` set scores) = length scores" using distinct_card [OF assms(3)] by simp
  ultimately show ?thesis
    using assms(3) by (auto simp: rankSlots_def list_all_iff dest: in_set_takeD)
qed

lemma semanticScores_dom:
  "fst ` set (semanticScores F q es scores) \<subseteq> fst ` set scores \<union> (en_Slot \<circ> snd) ` set es"
proof (induction es arbitrary: scores)
  case (Cons x es)
  obtain i e where x: "x = (i, e)" by fastforce
  show ?case unfolding x semanticScores.simps Let_def by (rule subset_trans [OF Cons.IH]) auto
qed simp

lemma semanticScores_distinct:
  "distinct (map fst scores) \<Longrightarrow> distinct (map fst (semanticScores F q es scores))"
proof (induction es arbitrary: scores)
  case (Cons x es)
  obtain i e where x: "x = (i, e)" by fastforce
  show ?case unfolding x semanticScores.simps Let_def using Cons.prems by (intro Cons.IH) simp
qed simp

lemma semanticRanked_ok:
  assumes "index_ok ix"
  shows "\<exists>r. semanticRanked F ix q = Some r \<and> set r \<subseteq> chat_slots ix"
proof (cases "q = []")
  case False
  have d: "distinct (map fst (ix_Chats ix))" using assms by (simp add: index_ok_def table_ok_def)
  have c: "fst ` set (semanticScores F q (ix_Chats ix) []) \<subseteq> chat_slots ix"
    using semanticScores_dom [of F q "ix_Chats ix" "[]"] map_of_eq_Some_iff [OF d] by (fastforce simp: chat_slots_def)
  obtain r where "rankSlots F ix (semanticScores F q (ix_Chats ix) []) = Some r"
    "set r \<subseteq> fst ` set (semanticScores F q (ix_Chats ix) [])"
    using rankSlots_ok [OF assms c semanticScores_distinct, where F = F] by auto
  then show ?thesis using False c by (auto simp: semanticRanked_def)
qed (simp add: semanticRanked_def)

lemma all_some_map: "(\<And>x. x \<in> set xs \<Longrightarrow> f x = Some (g x)) \<Longrightarrow> all_some (map f xs) = Some (map g xs)"
  by (induction xs) auto

lemma add_ranks_dom:
  "fst ` set (add_ranks F w k ss fused) = fst ` set fused \<union> set ss"
  "distinct (map fst fused) \<Longrightarrow> distinct (map fst (add_ranks F w k ss fused))"
  by (induction F w k ss fused rule: add_ranks.induct) (auto simp: bump_def)

text \<open>The chats posted under one of the tokens asked for.\<close>

definition keyword_hits :: "search_index \<Rightarrow> string list \<Rightarrow> string set" where
  "keyword_hits ix ts = {i. \<exists>e posted. abs_index ix i = Some (e, posted) \<and> posted \<inter> set ts \<noteq> {}}"

definition hit_slots :: "search_index \<Rightarrow> string list \<Rightarrow> int set" where
  "hit_slots ix ts = {s \<in> chat_slots ix. posted (ix_Postings ix) s \<inter> set ts \<noteq> {}}"

lemma slot_id_inj: "index_ok ix \<Longrightarrow> inj_on (\<lambda>s. the (slot_id ix s)) (chat_slots ix)"
  by (rule inj_on_inverseI [where g = "chat_slot ix"]) (rule chat_slot_id)

lemma hit_slots_ids:
  assumes "index_ok ix"
  shows "(\<lambda>s. the (slot_id ix s)) ` hit_slots ix ts = keyword_hits ix ts" "card (hit_slots ix ts) = card (keyword_hits ix ts)"
proof -
  show ids: "(\<lambda>s. the (slot_id ix s)) ` hit_slots ix ts = keyword_hits ix ts"
  proof (intro equalityI subsetI)
    fix i assume "i \<in> (\<lambda>s. the (slot_id ix s)) ` hit_slots ix ts"
    then obtain e j where "map_of (ix_Chats ix) j = Some e" "posted (ix_Postings ix) (en_Slot e) \<inter> set ts \<noteq> {}"
      "i = the (slot_id ix (en_Slot e))"
      by (auto simp: hit_slots_def chat_slots_def)
    then show "i \<in> keyword_hits ix ts" using slot_id_chat [OF assms] by (auto simp: keyword_hits_def abs_index_def)
  next
    fix i assume "i \<in> keyword_hits ix ts"
    then obtain e where e: "map_of (ix_Chats ix) i = Some e" "posted (ix_Postings ix) (en_Slot e) \<inter> set ts \<noteq> {}"
      by (auto simp: keyword_hits_def abs_index_def)
    then have "en_Slot e \<in> hit_slots ix ts" by (auto simp: hit_slots_def chat_slots_def)
    moreover have "i = the (slot_id ix (en_Slot e))" using slot_id_chat [OF assms e(1)] by simp
    ultimately show "i \<in> (\<lambda>s. the (slot_id ix s)) ` hit_slots ix ts" by blast
  qed
  have "inj_on (\<lambda>s. the (slot_id ix s)) (hit_slots ix ts)"
    by (rule inj_on_subset [OF slot_id_inj [OF assms]]) (auto simp: hit_slots_def)
  from card_image [OF this] show "card (hit_slots ix ts) = card (keyword_hits ix ts)" by (simp add: ids)
qed

lemma lexicalRanked_ok:
  assumes "index_ok ix"
  shows "\<exists>l. lexicalRanked F ix ts = Some l \<and> set l \<subseteq> hit_slots ix ts
    \<and> (card (keyword_hits ix ts) \<le> rrfCandidateDepth \<longrightarrow> set l = hit_slots ix ts)"
proof -
  obtain sc where sc: "lexicalScores F ix (firsts ts) [] = Some sc" "distinct (map fst sc)" "fst ` set sc = hit_slots ix ts"
    using lexicalScores_ok [OF assms, of "[]" F "firsts ts"] by (auto simp: hit_slots_def)
  have "fst ` set sc \<subseteq> chat_slots ix" by (auto simp: sc(3) hit_slots_def)
  from rankSlots_ok [OF assms this sc(2), where F = F] show ?thesis
    by (auto simp: lexicalRanked_def sc(1,3) hit_slots_ids(2) [OF assms])
qed

lemma Search_shape:
  assumes "index_ok ix" "0 < limit" "ix_Chats ix \<noteq> []" "lexicalRanked F ix ts = Some l" "semanticRanked F ix q = Some m"
    and "set l \<subseteq> chat_slots ix" "set m \<subseteq> chat_slots ix"
  obtains rs where "Search F ix q ts limit = Some (take (nat limit) (sort_by (result_less F ix l) rs))"
    "distinct (map fst rs)" "fst ` set rs = (\<lambda>s. the (slot_id ix s)) ` (set l \<union> set m)"
    "snd ` set rs = snd ` set (fused_scores F l m)"
proof -
  let ?f = "fused_scores F l m" and ?g = "\<lambda>(s, score). (the (slot_id ix s), score)"
  have dom: "fst ` set ?f = set l \<union> set m" "distinct (map fst ?f)"
    by (simp_all add: fused_scores_def add_ranks_dom)
  have slots: "fst ` set ?f \<subseteq> chat_slots ix" using dom(1) assms(6,7) by simp
  have "map_option (\<lambda>i. (i, score)) (slot_id ix s) = Some (?g (s, score))" if "(s, score) \<in> set ?f" for s score
  proof -
    have "s \<in> chat_slots ix" using that slots by force
    then show ?thesis using chat_slots_iff [OF assms(1)] by auto
  qed
  then have "all_some (map (\<lambda>(s, score). map_option (\<lambda>i. (i, score)) (slot_id ix s)) ?f) = Some (map ?g ?f)"
    by (intro all_some_map) (auto split: prod.splits)
  moreover have "map fst (map ?g ?f) = map (\<lambda>s. the (slot_id ix s)) (map fst ?f)" by (simp add: comp_def case_prod_unfold)
  moreover from this have "distinct (map fst (map ?g ?f))"
    using dom(2) slots inj_on_subset [OF slot_id_inj [OF assms(1)]] by (metis distinct_map list.set_map)
  moreover have "snd ` set (map ?g ?f) = snd ` set ?f" by (simp add: image_image case_prod_unfold)
  moreover have "fst ` set (map ?g ?f) = (\<lambda>s. the (slot_id ix s)) ` (set l \<union> set m)"
    unfolding dom(1) [symmetric] by (simp add: image_image case_prod_unfold)
  ultimately show thesis using that [of "map ?g ?f"] assms(2-5) by (simp add: Search_def)
qed

lemma not_nan_order:
  assumes "float_laws F" "\<not> fl_nan F (snd a)" "\<not> fl_nan F (snd b)" "score_less F a b"
  shows "\<not> fl_less F (snd a) (snd b)"
proof
  assume l: "fl_less F (snd a) (snd b)"
  then have "\<not> fl_eq F (snd a) (snd b)" using float_lawsD(4) [OF assms(1-3)] by simp
  then have "fl_less F (snd b) (snd a)" using assms(4) by (simp add: score_less_def)
  then show False using float_lawsD(3) [OF assms(1) l] float_lawsD(2) [OF assms(1)] by blast
qed


text \<open>A small index, and integers for floats.\<close>

definition example_floats :: "int floats" where
  "example_floats = \<lparr> fl_int = (\<lambda>x. x), fl_add = (+), fl_sub = (-), fl_mul = (*), fl_div = (div), fl_log = (\<lambda>x. x),
     fl_sqrt = (\<lambda>x. x), fl_abs = abs, fl_round = Some, fl_inf = (\<lambda>x. False), fl_less = (<), fl_eq = (=), fl_nan = (\<lambda>x. False), fl_neg_inf = - 1000 \<rparr>"

definition plain_entry :: search_entry where
  "plain_entry = \<lparr> en_Slot = 0, en_ETag = [], en_SourceRevision = 0, en_UpdatedAt = [], en_Vectors = [],
     en_EmbeddingPending = False, en_EmbeddingKeyID = [] \<rparr>"

lemma plain_dims: "i \<noteq> [] \<Longrightarrow> entry_dims 0 i plain_entry = Inr 0"
  by (simp add: entry_dims_def plain_entry_def validEmbeddingKeyID_def validatedVectorDims_def)


end
