(* ===== verification/Search_Tokens.thy ===== *)
theory Search_Tokens
  imports Search_Query Go_JSON
begin

text \<open>
  \<open>Tokenize\<close> of \<^verbatim>\<open>searchindex/index.go\<close>: whole identifiers by a regular expression, then the
  words of the text. The regular expression is matched the way Go does, by trying alternatives and
  repetitions in order of preference; the Unicode tables beyond ASCII are parameters.
\<close>

section \<open>Regular expressions, leftmost and first\<close>

datatype regex = Chr "char \<Rightarrow> bool" | Rep1 "char \<Rightarrow> bool" | Cat regex regex | Alt regex regex

fun repeats :: "(char \<Rightarrow> bool) \<Rightarrow> string \<Rightarrow> string list" where
  "repeats p [] = []"
| "repeats p (c # s) = (if p c then repeats p s @ [s] else [])"

text \<open>What may remain after a match at the start of a text, the preferred match first.\<close>

fun matches :: "regex \<Rightarrow> string \<Rightarrow> string list" where
  "matches (Chr p) s = (case s of c # r \<Rightarrow> if p c then [r] else [] | [] \<Rightarrow> [])"
| "matches (Rep1 p) s = repeats p s"
| "matches (Cat a b) s = concat (map (matches b) (matches a s))"
| "matches (Alt a b) s = matches a s @ matches b s"

lemma repeats_shorter: "r \<in> set (repeats p s) \<Longrightarrow> length r < length s"
  by (induction s) (auto split: if_splits)

lemma matches_shorter: "r \<in> set (matches e s) \<Longrightarrow> length r < length s"
proof (induction e arbitrary: r s)
  case (Cat a b)
  then obtain x where "x \<in> set (matches a s)" "r \<in> set (matches b x)" by auto
  from Cat.IH(1) [OF this(1)] Cat.IH(2) [OF this(2)] show ?case by simp
qed (auto dest: repeats_shorter split: list.splits if_splits)

text \<open>\<^verbatim>\<open>FindAllString\<close>: the matches from left to right, each starting after the last.\<close>

function find_all :: "regex \<Rightarrow> string \<Rightarrow> string list" where
  "find_all e [] = []"
| "find_all e (c # s) =
     (case matches e (c # s) of
        [] \<Rightarrow> find_all e s
      | r # _ \<Rightarrow> take (length (c # s) - length r) (c # s) # find_all e r)"
  by pat_completeness auto
termination
proof (relation "measure (\<lambda>(e, s). length s)")
  fix e c s x21 x22 assume "matches e (c # s) = x21 # x22"
  then have "x21 \<in> set (matches e (c # s))" by simp
  from matches_shorter [OF this] show "((e, x21), e, c # s) \<in> measure (\<lambda>(e, s). length s)" by simp
qed simp_all

fun literal :: "string \<Rightarrow> regex" where
  "literal [c] = Chr (\<lambda>x. x = c)"
| "literal (c # d # s) = Cat (Chr (\<lambda>x. x = c)) (literal (d # s))"
| "literal [] = Alt (Chr (\<lambda>x. False)) (Chr (\<lambda>x. False))"

section \<open>Identifiers\<close>

definition lower_letter :: "char \<Rightarrow> bool" where "lower_letter = in_range 97 122"

definition url_char :: "char \<Rightarrow> bool" where
  "url_char c \<longleftrightarrow> byte_val c \<notin> {9, 10, 12, 13, 32, 60, 62, 34, 39}"

definition local_char :: "char \<Rightarrow> bool" where
  "local_char c \<longleftrightarrow> lower_letter c \<or> is_digit c \<or> c \<in> set ''._%+-''"

definition domain_char :: "char \<Rightarrow> bool" where
  "domain_char c \<longleftrightarrow> lower_letter c \<or> is_digit c \<or> c \<in> set ''.-''"

definition identifierPattern :: regex where
  "identifierPattern =
     Alt (Cat (literal ''http'') (Alt (Cat (literal ''s://'') (Rep1 url_char)) (Cat (literal ''://'') (Rep1 url_char))))
    (Alt (Cat (literal ''www.'') (Rep1 url_char))
         (Cat (Rep1 local_char) (Cat (literal ''@'') (Cat (Rep1 domain_char)
            (Cat (literal ''.'') (Cat (Chr lower_letter) (Rep1 lower_letter)))))))"

definition trim_marks :: "string \<Rightarrow> string" where
  "trim_marks s = (let t = dropWhile (\<lambda>c. c \<in> set ''.,;:!?'') in rev (t (rev (t s))))"

section \<open>Words\<close>

text \<open>The lower case of a rune beyond ASCII, and whether one is a letter or a number.\<close>

record unicode_lib =
  uc_lower :: "string \<Rightarrow> string"
  uc_word :: "string \<Rightarrow> bool"

definition lower_char :: "char \<Rightarrow> char" where
  "lower_char c = (if in_range 65 90 c then byte_of (byte_val c + 32) else c)"

function to_lower :: "unicode_lib \<Rightarrow> string \<Rightarrow> string" where
  "to_lower U [] = []"
| "to_lower U (c # s) =
     (if byte_val c < 128 then lower_char c # to_lower U s
      else case utf8_tail c s of
        Some n \<Rightarrow> uc_lower U (c # take n s) @ to_lower U (drop n s)
      | None \<Rightarrow> replacement @ to_lower U s)"
  by pat_completeness auto
termination by (relation "measure (\<lambda>(U, s). length s)") auto

definition word_char :: "char \<Rightarrow> bool" where
  "word_char c \<longleftrightarrow> lower_letter c \<or> in_range 65 90 c \<or> is_digit c"

text \<open>\<^verbatim>\<open>strings.FieldsFunc\<close>: the maximal runs of letters and numbers; \<open>cur\<close> is the run being read.\<close>

function fields_of :: "unicode_lib \<Rightarrow> string \<Rightarrow> string \<Rightarrow> string list" where
  "fields_of U cur [] = (if cur = [] then [] else [cur])"
| "fields_of U cur (c # s) =
     (let (w, rune, rest) =
        (if byte_val c < 128 then (word_char c, [c], s)
         else case utf8_tail c s of
           Some n \<Rightarrow> (uc_word U (c # take n s), c # take n s, drop n s)
         | None \<Rightarrow> (uc_word U replacement, [c], s))
      in if w then fields_of U (cur @ rune) rest
         else if cur = [] then fields_of U [] rest else cur # fields_of U [] rest)"
  by pat_completeness auto
termination
  by (relation "measure (\<lambda>(U, cur, s). length s)") (auto split: if_splits option.splits)

section \<open>Tokenize\<close>

text \<open>Adding candidates up to the cap; the second component is whether there is room for more.\<close>

fun add_tokens :: "nat \<Rightarrow> string list \<Rightarrow> string list \<Rightarrow> string list \<times> bool" where
  "add_tokens maxLen [] out = (out, True)"
| "add_tokens maxLen (t # ts) out =
     (if length t < minTokenLen \<or> length t > maxLen \<or> t \<in> set out then add_tokens maxLen ts out
      else if length (out @ [t]) < MaxTokensPerChat then add_tokens maxLen ts (out @ [t])
      else (out @ [t], False))"

definition Tokenize :: "unicode_lib \<Rightarrow> string \<Rightarrow> string list" where
  "Tokenize U text =
     (let lower = to_lower U text in
      case add_tokens maxIdentifierLen (map trim_marks (find_all identifierPattern lower)) [] of
        (out, False) \<Rightarrow> out
      | (out, True) \<Rightarrow> fst (add_tokens maxTokenLen (fields_of U [] lower) out))"

section \<open>What Tokenize yields\<close>

definition token_length :: "nat \<Rightarrow> string \<Rightarrow> bool" where
  "token_length maxLen t \<longleftrightarrow> minTokenLen \<le> length t \<and> length t \<le> maxLen"

lemma add_tokens_spec:
  "length out < MaxTokensPerChat \<Longrightarrow>
   add_tokens m ts out =
     (let all = out @ filter (\<lambda>t. t \<notin> set out) (firsts (filter (token_length m) ts))
      in (take MaxTokensPerChat all, length all < MaxTokensPerChat))"
proof (induction m ts out rule: add_tokens.induct)
  case (2 m t ts out)
  have skip: "filter (\<lambda>u. u \<notin> set out) (filter (\<lambda>u. u \<noteq> t) xs) = filter (\<lambda>u. u \<notin> set out) xs" if "t \<in> set out" for xs
    using that by (auto intro: filter_cong)
  have keep: "filter (\<lambda>u. u \<notin> set out) (filter (\<lambda>u. u \<noteq> t) xs) = filter (\<lambda>u. u \<notin> set (out @ [t])) xs" for xs
    by (auto intro: filter_cong)
  show ?case
  proof (cases "\<not> token_length m t \<or> t \<in> set out")
    case True
    then have "add_tokens m (t # ts) out = add_tokens m ts out" by (auto simp: token_length_def)
    moreover have "length t < minTokenLen \<or> m < length t \<or> t \<in> set out" using True by (auto simp: token_length_def)
    ultimately show ?thesis using 2(1) [OF _ 2(3)] True skip by (auto simp: Let_def)
  next
    case False
    then have new: "\<not> (length t < minTokenLen \<or> m < length t \<or> t \<in> set out)" by (auto simp: token_length_def)
    show ?thesis
    proof (cases "length (out @ [t]) < MaxTokensPerChat")
      case True
      then show ?thesis using 2(2) [OF new True True] False new keep by (simp add: Let_def)
    next
      case full: False
      then have "length out = MaxTokensPerChat - 1" "0 < MaxTokensPerChat" using 2(3) by auto
      then show ?thesis using False new full by (simp add: Let_def)
    qed
  qed
qed (simp add: Let_def)

lemma firsts_append: "firsts (xs @ ys) = firsts xs @ filter (\<lambda>y. y \<notin> set xs) (firsts ys)"
proof (induction xs)
  case (Cons x xs)
  have "filter (\<lambda>y. y \<noteq> x) (filter (\<lambda>y. y \<notin> set xs) zs) = filter (\<lambda>y. y \<notin> set (x # xs)) zs" for zs
    by (auto intro: filter_cong)
  then show ?case using Cons by simp
qed simp

definition token_candidates :: "unicode_lib \<Rightarrow> string \<Rightarrow> string list" where
  "token_candidates U text =
     filter (token_length maxIdentifierLen) (map trim_marks (find_all identifierPattern (to_lower U text)))
   @ filter (token_length maxTokenLen) (fields_of U [] (to_lower U text))"

text \<open>
  C16. \<open>Tokenize\<close> computes exactly the first 512 distinct candidates: the e-mail addresses and URLs of
  the lower-cased text, in order and without surrounding punctuation, then its words, each of
  them between 2 and 64 (words: 40) bytes long. So identifiers are never crowded out by words, every
  token is one a posting list accepts, and an upsert posts a chat under all of them.
\<close>

theorem Tokenize_exact:
  "Tokenize U text = take MaxTokensPerChat (firsts (token_candidates U text))
     \<and> indexed_tokens (Tokenize U text) = Tokenize U text"
proof -
  let ?i = "map trim_marks (find_all identifierPattern (to_lower U text))" and ?w = "fields_of U [] (to_lower U text)"
  let ?I = "firsts (filter (token_length maxIdentifierLen) ?i)"
  have e: "add_tokens maxIdentifierLen ?i [] = (take MaxTokensPerChat ?I, length ?I < MaxTokensPerChat)"
    using add_tokens_spec [of "[]" maxIdentifierLen ?i] by (simp add: Let_def MaxTokensPerChat_def)
  have c: "firsts (token_candidates U text) = ?I @ filter (\<lambda>t. t \<notin> set ?I) (firsts (filter (token_length maxTokenLen) ?w))"
    by (simp add: token_candidates_def firsts_append)
  have t: "Tokenize U text = take MaxTokensPerChat (firsts (token_candidates U text))"
  proof (cases "length ?I < MaxTokensPerChat")
    case True
    then show ?thesis using e add_tokens_spec [OF True, of maxTokenLen ?w] by (simp add: Tokenize_def Let_def c)
  next
    case False
    then show ?thesis using e by (simp add: Tokenize_def Let_def c)
  qed
  have "list_all validPostingToken (token_candidates U text)"
    by (auto simp: list_all_iff token_candidates_def token_length_def validPostingToken_def maxTokenLen_def maxIdentifierLen_def)
  then have "filter validPostingToken (Tokenize U text) = Tokenize U text"
    by (auto simp: t list_all_iff filter_id_conv dest: in_set_takeD)
  moreover have "firsts xs = xs" if "distinct xs" for xs :: "string list" using that by (simp add: firsts_def distinct_remdups_id)
  ultimately have "indexed_tokens (Tokenize U text) = Tokenize U text" by (simp add: indexed_tokens_def t)
  with t show ?thesis by blast
qed

end
