(* ===== verification/Search_Codec.thy ===== *)
theory Search_Codec
  imports Search_Tokens
begin

text \<open>
  The stored form of the search index (\<open>Encode\<close> and \<open>Decode\<close> of \<^verbatim>\<open>searchindex/index.go\<close>): a JSON
  object, validated when it is read. The runtime walks its maps in no fixed order; here the order of
  the text decides which of several errors is reported. A vector is read from the decoded string, so the
  one difference is that a base64 letter written as an escape is accepted.
\<close>

section \<open>Encode\<close>

definition member :: "bool \<Rightarrow> string \<Rightarrow> json \<Rightarrow> (string \<times> json) list" where
  "member present name v = (if present then [(name, v)] else [])"

definition enc_vector :: "vector \<Rightarrow> json" where
  "enc_vector v = JStr (b64_encode (map cbyte v))"

definition enc_entry :: "search_entry \<Rightarrow> json" where
  "enc_entry e = JObj (
     member True ''slot'' (JNum (itoa (en_Slot e)))
   @ member (en_ETag e \<noteq> []) ''etag'' (JStr (en_ETag e))
   @ member (en_SourceRevision e \<noteq> 0) ''source_revision'' (JNum (itoa (en_SourceRevision e)))
   @ member (en_UpdatedAt e \<noteq> []) ''updated_at'' (JStr (en_UpdatedAt e))
   @ member (en_Vectors e \<noteq> []) ''vectors'' (JArr (map enc_vector (en_Vectors e)))
   @ member (en_EmbeddingPending e) ''embedding_pending'' (JBool True)
   @ member (en_EmbeddingKeyID e \<noteq> []) ''embedding_key_id'' (JStr (en_EmbeddingKeyID e)))"

definition enc_reindex :: "reindex_progress \<Rightarrow> json" where
  "enc_reindex r = JObj [(''next_cursor'', JStr (rp_NextCursor r)),
     (''target_source_revision'', JNum (itoa (rp_TargetSourceRevision r))), (''started_at'', JStr (rp_StartedAt r))]"

definition enc_index :: "search_index \<Rightarrow> json" where
  "enc_index ix = JObj (
     member True ''version'' (JNum (itoa (ix_Version ix)))
   @ member (ix_Model ix \<noteq> []) ''model'' (JStr (ix_Model ix))
   @ member (ix_Dims ix \<noteq> 0) ''dims'' (JNum (itoa (ix_Dims ix)))
   @ member (ix_Incomplete ix) ''incomplete'' (JBool True)
   @ (case ix_Reindex ix of None \<Rightarrow> [] | Some r \<Rightarrow> [(''reindex'', enc_reindex r)])
   @ member (ix_Slots ix \<noteq> []) ''slots'' (JArr (map JStr (ix_Slots ix)))
   @ member True ''chats'' (json_map (map (\<lambda>(i, e). (i, enc_entry e)) (ix_Chats ix)))
   @ member (ix_Postings ix \<noteq> []) ''postings''
       (json_map (map (\<lambda>(t, ss). (t, JArr (map (\<lambda>s. JNum (itoa s)) ss))) (ix_Postings ix))))"

definition index_Encode :: "search_index \<Rightarrow> bytes" where
  "index_Encode ix = json_encode (enc_index ix)"

section \<open>Reading the JSON\<close>

text \<open>A line break in the string can only come from an escape, which is no base64.\<close>

definition dec_vector :: "json \<Rightarrow> vector option" where
  "dec_vector j =
     (case j of
        JStr s \<Rightarrow> if CHR 0x0A \<in> set s \<or> CHR 0x0D \<in> set s then None else map_option (map wbyte) (std_decode s)
      | _ \<Rightarrow> None)"

definition dec_entry :: "json \<Rightarrow> search_entry option" where
  "dec_entry j = do {
     m \<leftarrow> struct_members j;
     sl \<leftarrow> dec_int 0 (field_values ''slot'' m);
     et \<leftarrow> dec_string [] (field_values ''etag'' m);
     sr \<leftarrow> dec_int 0 (field_values ''source_revision'' m);
     ua \<leftarrow> dec_string [] (field_values ''updated_at'' m);
     vs \<leftarrow> dec_list dec_vector [] (field_values ''vectors'' m);
     ep \<leftarrow> dec_bool False (field_values ''embedding_pending'' m);
     ek \<leftarrow> dec_string [] (field_values ''embedding_key_id'' m);
     Some \<lparr> en_Slot = sl, en_ETag = et, en_SourceRevision = sr, en_UpdatedAt = ua, en_Vectors = vs,
       en_EmbeddingPending = ep, en_EmbeddingKeyID = ek \<rparr> }"

text \<open>A pointer to a struct: null clears it, an object is read into what it points to.\<close>

fun dec_reindex :: "reindex_progress option \<Rightarrow> json list \<Rightarrow> reindex_progress option option" where
  "dec_reindex cur [] = Some cur"
| "dec_reindex cur (v # vs) =
     (case v of
        JNull \<Rightarrow> dec_reindex None vs
      | JObj m \<Rightarrow> do {
          nc \<leftarrow> dec_string (case cur of Some r \<Rightarrow> rp_NextCursor r | None \<Rightarrow> []) (field_values ''next_cursor'' m);
          tr \<leftarrow> dec_int (case cur of Some r \<Rightarrow> rp_TargetSourceRevision r | None \<Rightarrow> 0) (field_values ''target_source_revision'' m);
          st \<leftarrow> dec_string (case cur of Some r \<Rightarrow> rp_StartedAt r | None \<Rightarrow> []) (field_values ''started_at'' m);
          dec_reindex (Some \<lparr> rp_NextCursor = nc, rp_TargetSourceRevision = tr, rp_StartedAt = st \<rparr>) vs }
      | _ \<Rightarrow> None)"

text \<open>A map: members in turn, later keys over earlier ones.\<close>

fun dec_members :: "(json \<Rightarrow> 'a option) \<Rightarrow> (string \<times> 'a) list \<Rightarrow> (string \<times> json) list \<Rightarrow> (string \<times> 'a) list option" where
  "dec_members f cur [] = Some cur"
| "dec_members f cur ((k, v) # m) = (case f v of None \<Rightarrow> None | Some x \<Rightarrow> dec_members f (al_set k x cur) m)"

fun dec_map :: "(json \<Rightarrow> 'a option) \<Rightarrow> (string \<times> 'a) list \<Rightarrow> json list \<Rightarrow> (string \<times> 'a) list option" where
  "dec_map f cur [] = Some cur"
| "dec_map f cur (v # vs) =
     (case v of
        JNull \<Rightarrow> dec_map f [] vs
      | JObj m \<Rightarrow> (case dec_members f cur m of None \<Rightarrow> None | Some cur' \<Rightarrow> dec_map f cur' vs)
      | _ \<Rightarrow> None)"

definition dec_slot :: "json \<Rightarrow> int option" where
  "dec_slot j = dec_int 0 [j]"

definition dec_posting :: "json \<Rightarrow> int list option" where
  "dec_posting j = dec_list dec_slot [] [j]"

definition dec_index :: "(string \<times> json) list \<Rightarrow> search_index option" where
  "dec_index m = do {
     vn \<leftarrow> dec_int 0 (field_values ''version'' m);
     md \<leftarrow> dec_string [] (field_values ''model'' m);
     dm \<leftarrow> dec_int 0 (field_values ''dims'' m);
     ic \<leftarrow> dec_bool False (field_values ''incomplete'' m);
     rx \<leftarrow> dec_reindex None (field_values ''reindex'' m);
     sl \<leftarrow> dec_strings [] (field_values ''slots'' m);
     ch \<leftarrow> dec_map dec_entry [] (field_values ''chats'' m);
     ps \<leftarrow> dec_map dec_posting [] (field_values ''postings'' m);
     Some \<lparr> ix_Version = vn, ix_Model = md, ix_Dims = dm, ix_Incomplete = ic, ix_Reindex = rx, ix_Slots = sl,
       ix_Chats = ch, ix_Postings = ps, ix_dead = 0 \<rparr> }"

section \<open>Validation\<close>

definition ErrFormat :: go_error where "ErrFormat = ENew ''searchindex: unsupported index format''"
definition maxReindexCursorLength :: nat where "maxReindexCursorLength = 4096"
definition maxSerializedSlots :: nat where "maxSerializedSlots = MaxChats * 2"

definition bad_table :: go_error where
  "bad_table = ENew ''searchindex: slot table does not match entries''"

definition over_limit :: "string \<Rightarrow> nat \<Rightarrow> nat \<Rightarrow> go_error" where
  "over_limit what n limit = ENew (''searchindex: '' @ itoa (int n) @ what @ itoa (int limit))"

text \<open>The slots in turn; counts the empty ones and the others.\<close>

fun check_slots :: "search_index \<Rightarrow> int \<Rightarrow> int \<Rightarrow> string list \<Rightarrow> (int \<times> int) result" where
  "check_slots ix dead live [] = Inr (dead, live)"
| "check_slots ix dead live (i # slots) =
     (if i = [] then check_slots ix (dead + 1) live slots
      else case map_of (ix_Chats ix) i of
        None \<Rightarrow> Inl bad_table
      | Some e \<Rightarrow> if slot_id ix (en_Slot e) = Some i then check_slots ix dead (live + 1) slots else Inl bad_table)"

definition check_reindex :: "time_lib \<Rightarrow> search_index \<Rightarrow> unit result" where
  "check_reindex T ix =
     (case ix_Reindex ix of
        None \<Rightarrow> Inr ()
      | Some r \<Rightarrow>
          if \<not> ix_Incomplete ix then Inl (ENew ''searchindex: complete index has reindex progress'')
          else if rp_NextCursor r = [] \<or> length (rp_NextCursor r) > maxReindexCursorLength
          then Inl (ENew ''searchindex: reindex cursor is invalid'')
          else if rp_TargetSourceRevision r < 0 then Inl (ENew ''searchindex: reindex source revision is negative'')
          else if tm_parse T (rp_StartedAt r) = None then Inl (ENew ''searchindex: reindex start time is invalid'')
          else Inr ())"

definition check_entry :: "int \<Rightarrow> search_entry \<Rightarrow> unit result" where
  "check_entry dims e =
     (if en_SourceRevision e < 0 then Inl (ENew ''searchindex: entry source revision is negative'')
      else if \<not> validEmbeddingKeyID (en_EmbeddingKeyID e) then Inl (ENew ''searchindex: entry embedding key id is invalid'')
      else if \<not> en_EmbeddingPending e \<and> en_EmbeddingKeyID e \<noteq> []
      then Inl (ENew ''searchindex: entry embedding key id requires pending embedding'')
      else if length (en_Vectors e) > MaxChunksPerChat
      then Inl (over_limit '' chunk vectors exceeds limit '' (length (en_Vectors e)) MaxChunksPerChat)
      else if list_ex (\<lambda>v. v = [] \<or> int (length v) \<noteq> dims) (en_Vectors e)
      then Inl (ENew ''searchindex: entry vector does not match index dims'')
      else Inr ())"

fun check_each :: "('a \<Rightarrow> unit result) \<Rightarrow> 'a list \<Rightarrow> unit result" where
  "check_each f [] = Inr ()"
| "check_each f (x # xs) = (case f x of Inl err \<Rightarrow> Inl err | Inr _ \<Rightarrow> check_each f xs)"

text \<open>One posting list; \<open>cnt\<close> counts the postings of all lists so far.\<close>

fun check_posting :: "nat \<Rightarrow> nat \<Rightarrow> int \<Rightarrow> nat \<Rightarrow> int list \<Rightarrow> nat result" where
  "check_posting n maxPostings prev cnt [] = Inr cnt"
| "check_posting n maxPostings prev cnt (s # ss) =
     (if s < 0 \<or> s \<ge> int n then Inl (ENew ''searchindex: posting references unknown slot'')
      else if s \<le> prev then Inl (ENew ''searchindex: posting list is not strictly ordered'')
      else if Suc cnt > maxPostings then Inl (ENew ''searchindex: postings exceed token limit'')
      else check_posting n maxPostings s (Suc cnt) ss)"

fun check_postings :: "nat \<Rightarrow> nat \<Rightarrow> nat \<Rightarrow> postings \<Rightarrow> nat result" where
  "check_postings n maxPostings cnt [] = Inr cnt"
| "check_postings n maxPostings cnt ((t, ss) # ps) =
     (if \<not> validPostingToken t then Inl (ENew ''searchindex: posting token is invalid'')
      else if ss = [] then Inl (ENew ''searchindex: posting list is empty'')
      else if length ss > n then Inl (ENew ''searchindex: posting list exceeds slot table'')
      else case check_posting n maxPostings (- 1) cnt ss of
        Inl err \<Rightarrow> Inl err
      | Inr cnt' \<Rightarrow> check_postings n maxPostings cnt' ps)"

text \<open>
  Entries posted but without vectors are marked pending. Here the slot of the entry indexes a slice: a
  slot out of range is a panic.
\<close>

definition posted_slots :: "postings \<Rightarrow> int set" where
  "posted_slots ps = (\<Union>(t, ss) \<in> set ps. set ss)"

definition infer_pending :: "nat \<Rightarrow> postings \<Rightarrow> string \<times> search_entry \<Rightarrow> (string \<times> search_entry) option" where
  "infer_pending n ps x =
     (case x of (i, e) \<Rightarrow>
        if en_Vectors e \<noteq> [] then Some (i, e)
        else if 0 \<le> en_Slot e \<and> en_Slot e < int n
        then Some (i, if en_Slot e \<in> posted_slots ps then e\<lparr> en_EmbeddingPending := True \<rparr> else e)
        else None)"

definition index_validate :: "time_lib \<Rightarrow> search_index \<Rightarrow> search_index result" where
  "index_validate T ix =
     (let slots = ix_Slots ix; n = length slots in
      if ix_Version ix \<noteq> FormatVersion then Inl ErrFormat
      else if n > maxSerializedSlots then Inl (over_limit '' slots exceeds limit '' n maxSerializedSlots)
      else case check_slots ix 0 0 slots of
        Inl err \<Rightarrow> Inl err
      | Inr (dead, live) \<Rightarrow>
          if live \<noteq> int (length (ix_Chats ix)) then Inl bad_table
          else if dead \<ge> compactionMinDead \<and> dead > live
          then Inl (ENew ''searchindex: tombstones exceed compaction invariant'')
          else if length (ix_Chats ix) > MaxChats
          then Inl (over_limit '' chats exceeds limit '' (length (ix_Chats ix)) MaxChats)
          else case check_reindex T ix of
            Inl err \<Rightarrow> Inl err
          | Inr _ \<Rightarrow>
              (case check_each (\<lambda>(i, e). check_entry (ix_Dims ix) e) (ix_Chats ix) of
                 Inl err \<Rightarrow> Inl err
               | Inr _ \<Rightarrow>
                   (case check_postings n (n * MaxTokensPerChat) 0 (ix_Postings ix) of
                      Inl err \<Rightarrow> Inl err
                    | Inr _ \<Rightarrow> Inr (ix\<lparr> ix_dead := dead \<rparr>))))"

definition index_Decode :: "time_lib \<Rightarrow> bytes \<Rightarrow> search_index result option" where
  "index_Decode T data =
     (case unmarshal dec_index data of
        None \<Rightarrow> Some (Inl (wrap_prefix ''searchindex: decode: '' (ELib ''encoding/json'')))
      | Some raw \<Rightarrow>
          (case index_validate T raw of
             Inl err \<Rightarrow> Some (Inl err)
           | Inr ix \<Rightarrow>
               (case all_some (map (infer_pending (length (ix_Slots ix)) (ix_Postings ix)) (ix_Chats ix)) of
                  None \<Rightarrow> None
                | Some chats \<Rightarrow> Some (Inr (ix\<lparr> ix_Chats := chats \<rparr>)))))"

section \<open>What validation accepts\<close>

lemma check_slots_iff:
  "check_slots ix dead live slots =
     (if \<forall>i \<in> set slots. i \<noteq> [] \<longrightarrow> (\<exists>e. map_of (ix_Chats ix) i = Some e \<and> slot_id ix (en_Slot e) = Some i)
      then Inr (dead + int (length (filter (\<lambda>i. i = []) slots)), live + int (length (filter (\<lambda>i. i \<noteq> []) slots)))
      else Inl bad_table)"
  by (induction slots arbitrary: dead live) (auto split: option.split)

lemma check_each_ok: "check_each f xs = Inr () \<longleftrightarrow> (\<forall>x \<in> set xs. f x = Inr ())"
  by (induction xs) (auto split: sum.split)

lemma check_entry_ok: "check_entry dims e = Inr () \<longleftrightarrow> entry_ok dims e"
  by (auto simp: check_entry_def entry_ok_def vectors_ok_def list_ex_iff)

lemma check_posting_sound:
  "check_posting n m prev cnt ss = Inr cnt' \<Longrightarrow>
     sorted_wrt (<) (prev # ss) \<and> (\<forall>s \<in> set ss. 0 \<le> s \<and> s < int n)"
  by (induction ss arbitrary: prev cnt) (fastforce split: if_splits)+

lemma check_posting_complete:
  "sorted_wrt (<) (prev # ss) \<Longrightarrow> \<forall>s \<in> set ss. 0 \<le> s \<and> s < int n \<Longrightarrow> cnt + length ss \<le> m \<Longrightarrow>
     check_posting n m prev cnt ss = Inr (cnt + length ss)"
  by (induction ss arbitrary: prev cnt) auto

lemma check_postings_sound:
  "check_postings n m cnt ps = Inr cnt' \<Longrightarrow> (t, ss) \<in> set ps \<Longrightarrow>
     validPostingToken t \<and> ss \<noteq> [] \<and> sorted_wrt (<) ss \<and> (\<forall>s \<in> set ss. 0 \<le> s \<and> s < int n)"
proof (induction n m cnt ps rule: check_postings.induct)
  case (2 n m cnt u us ps)
  then obtain c where c: "check_posting n m (- 1) cnt us = Inr c" "check_postings n m c ps = Inr cnt'"
    and u: "validPostingToken u" "us \<noteq> []" "length us \<le> n"
    by (auto split: if_splits sum.splits)
  show ?case
  proof (cases "(t, ss) = (u, us)")
    case True
    then show ?thesis using check_posting_sound [OF c(1)] u by simp
  next
    case False
    then show ?thesis using "2.IH" c u "2.prems"(2) by auto
  qed
qed simp

lemma check_postings_complete:
  "\<forall>(t, ss) \<in> set ps. validPostingToken t \<and> ss \<noteq> [] \<and> length ss \<le> n \<and> sorted_wrt (<) ss \<and> (\<forall>s \<in> set ss. 0 \<le> s \<and> s < int n) \<Longrightarrow>
   cnt + sum_list (map (length \<circ> snd) ps) \<le> m \<Longrightarrow>
   check_postings n m cnt ps = Inr (cnt + sum_list (map (length \<circ> snd) ps))"
proof (induction n m cnt ps rule: check_postings.induct)
  case (2 n m cnt u us ps)
  have "check_posting n m (- 1) cnt us = Inr (cnt + length us)"
    using "2.prems" by (intro check_posting_complete) auto
  then show ?case using 2 by (auto simp: ac_simps)
qed simp

text \<open>Distinct ids in the slots, as many as entries: the table is in order.\<close>

lemma distinct_filter_nth:
  "distinct (filter P xs) \<Longrightarrow> i < length xs \<Longrightarrow> j < length xs \<Longrightarrow> P (xs ! i) \<Longrightarrow> xs ! i = xs ! j \<Longrightarrow> i = j"
proof (induction xs arbitrary: i j)
  case (Cons x xs)
  then show ?case by (cases i; cases j) (auto split: if_splits)
qed simp

lemma checked_table:
  assumes "check_slots ix 0 0 (ix_Slots ix) = Inr (dead, live)" "live = int (length (ix_Chats ix))"
    and "distinct (filter (\<lambda>i. i \<noteq> []) (ix_Slots ix))" "distinct (map fst (ix_Chats ix))"
  shows "table_ok (ix_Slots ix) (ix_Chats ix) dead"
proof -
  let ?ids = "filter (\<lambda>i. i \<noteq> []) (ix_Slots ix)"
  have c: "\<And>i. i \<in> set (ix_Slots ix) \<Longrightarrow> i \<noteq> [] \<Longrightarrow> \<exists>e. map_of (ix_Chats ix) i = Some e \<and> slot_id ix (en_Slot e) = Some i"
    and n: "dead = int (length (filter (\<lambda>i. i = []) (ix_Slots ix)))" "live = int (length ?ids)"
    using assms(1) by (auto simp: check_slots_iff split: if_splits)
  have "set ?ids \<subseteq> fst ` set (ix_Chats ix)"
    using c by (force simp: map_of_eq_None_iff [symmetric] image_iff dest!: map_of_SomeD)
  moreover have "card (set ?ids) = card (fst ` set (ix_Chats ix))"
    using n(2) assms(2) distinct_card [OF assms(3)] distinct_card [OF assms(4)] by simp
  ultimately have ids: "set ?ids = fst ` set (ix_Chats ix)" by (simp add: card_subset_eq)
  show ?thesis
    unfolding table_ok_def
  proof (intro conjI allI impI)
    fix i e assume e: "map_of (ix_Chats ix) i = Some e"
    then have "i \<in> set ?ids" unfolding ids by (metis domI dom_map_of_conv_image_fst)
    then have "i \<noteq> [] \<and> slot_id ix (en_Slot e) = Some i" using c [of i] e by auto
    then show "i \<noteq> []" "0 \<le> en_Slot e" "en_Slot e < int (length (ix_Slots ix))" "ix_Slots ix ! nat (en_Slot e) = i"
      by (auto simp: slot_id_def split: if_splits)
  next
    fix s assume s: "s < length (ix_Slots ix)" "ix_Slots ix ! s \<noteq> []"
    then obtain e where e: "map_of (ix_Chats ix) (ix_Slots ix ! s) = Some e" "slot_id ix (en_Slot e) = Some (ix_Slots ix ! s)"
      using c [of "ix_Slots ix ! s"] by auto
    then have "0 \<le> en_Slot e" "nat (en_Slot e) < length (ix_Slots ix)" "ix_Slots ix ! nat (en_Slot e) = ix_Slots ix ! s"
      by (auto simp: slot_id_def split: if_splits)
    moreover from this have "s = nat (en_Slot e)" using distinct_filter_nth [OF assms(3) s(1) _ s(2)] by simp
    ultimately show "\<exists>e. map_of (ix_Chats ix) (ix_Slots ix ! s) = Some e \<and> en_Slot e = int s" using e(1) by auto
  qed (use assms(4) n(1) in simp_all)
qed

lemma dec_members_distinct:
  "dec_members f cur m = Some r \<Longrightarrow> distinct (map fst cur) \<Longrightarrow> distinct (map fst r)"
  by (induction f cur m rule: dec_members.induct) (auto split: option.splits)

lemma dec_map_distinct: "dec_map f cur vs = Some r \<Longrightarrow> distinct (map fst cur) \<Longrightarrow> distinct (map fst r)"
  by (induction f cur vs rule: dec_map.induct) (auto split: json.splits option.splits dest: dec_members_distinct)

lemma dec_index_distinct:
  "dec_index m = Some raw \<Longrightarrow> distinct (map fst (ix_Chats raw)) \<and> distinct (map fst (ix_Postings raw))"
  by (auto simp: dec_index_def Option.bind_eq_Some_conv dest!: dec_map_distinct)

lemma check_reindex_cong:
  "ix_Reindex a = ix_Reindex b \<Longrightarrow> ix_Incomplete a = ix_Incomplete b \<Longrightarrow> check_reindex T a = check_reindex T b"
  by (simp add: check_reindex_def split: option.split)

definition reindex_ok :: "time_lib \<Rightarrow> search_index \<Rightarrow> bool" where
  "reindex_ok T ix \<longleftrightarrow> check_reindex T ix = Inr ()"

lemma index_validate_ok:
  assumes "index_validate T raw = Inr ix" "distinct (map fst (ix_Chats raw))" "distinct (map fst (ix_Postings raw))"
    and "distinct (filter (\<lambda>i. i \<noteq> []) (ix_Slots raw))"
  shows "ix = raw\<lparr> ix_dead := ix_dead ix \<rparr>" "ix_Version ix = FormatVersion" "compacted ix" "reindex_ok T ix"
    and "table_ok (ix_Slots ix) (ix_Chats ix) (ix_dead ix)" "postings_ok (length (ix_Slots ix)) (ix_Postings ix)"
    and "\<And>i e. map_of (ix_Chats ix) i = Some e \<Longrightarrow> entry_ok (ix_Dims ix) e" "length (ix_Chats ix) \<le> MaxChats"
proof -
  obtain dead live cnt where v: "ix_Version raw = FormatVersion" "check_slots raw 0 0 (ix_Slots raw) = Inr (dead, live)"
    "live = int (length (ix_Chats raw))" "\<not> (dead \<ge> compactionMinDead \<and> dead > live)" "length (ix_Chats raw) \<le> MaxChats"
    "check_reindex T raw = Inr ()" "check_each (\<lambda>(i, e). check_entry (ix_Dims raw) e) (ix_Chats raw) = Inr ()"
    "check_postings (length (ix_Slots raw)) (length (ix_Slots raw) * MaxTokensPerChat) 0 (ix_Postings raw) = Inr cnt"
    "ix = raw\<lparr> ix_dead := dead \<rparr>"
    using assms(1) by (auto simp: index_validate_def Let_def split: if_splits sum.splits prod.splits)
  show "ix = raw\<lparr> ix_dead := ix_dead ix \<rparr>" "ix_Version ix = FormatVersion" "compacted ix" "length (ix_Chats ix) \<le> MaxChats"
    using v by (auto simp: compacted_def)
  show "reindex_ok T ix" using v(6,9) check_reindex_cong [of ix raw T] by (simp add: reindex_ok_def)
  show "table_ok (ix_Slots ix) (ix_Chats ix) (ix_dead ix)"
    using checked_table [OF v(2,3) assms(4,2)] by (simp add: v(9))
  show "postings_ok (length (ix_Slots ix)) (ix_Postings ix)"
    using check_postings_sound [OF v(8)] assms(3) by (auto simp: v(9) postings_ok_def dest: map_of_SomeD)
  show "entry_ok (ix_Dims ix) e" if "map_of (ix_Chats ix) i = Some e" for i e
    using v(7) map_of_SomeD [OF that] by (auto simp: check_each_ok check_entry_ok v(9))
qed

definition pending_entry :: "postings \<Rightarrow> search_entry \<Rightarrow> search_entry" where
  "pending_entry ps e =
     (if en_Vectors e = [] \<and> en_Slot e \<in> posted_slots ps then e\<lparr> en_EmbeddingPending := True \<rparr> else e)"

lemma infer_pending_ok:
  "0 \<le> en_Slot e \<Longrightarrow> en_Slot e < int n \<Longrightarrow> infer_pending n ps (i, e) = Some (i, pending_entry ps e)"
  by (simp add: infer_pending_def pending_entry_def)

lemma infer_all_ok:
  assumes "table_ok slots chats dead"
  shows "all_some (map (infer_pending (length slots) ps) chats) = Some (map (\<lambda>(i, e). (i, pending_entry ps e)) chats)"
proof (rule all_some_map)
  fix x assume "x \<in> set chats"
  moreover obtain i e where x: "x = (i, e)" by fastforce
  ultimately have "map_of chats i = Some e" using assms by (simp add: table_ok_def)
  from table_okD [OF assms this] show "infer_pending (length slots) ps x = Some ((\<lambda>(i, e). (i, pending_entry ps e)) x)"
    by (simp add: x infer_pending_ok)
qed

lemma pending_entry_keeps [simp]:
  "en_Slot (pending_entry ps e) = en_Slot e" "entry_ok d e \<Longrightarrow> entry_ok d (pending_entry ps e)"
  by (auto simp: pending_entry_def entry_ok_def)

lemma table_ok_map:
  assumes "table_ok slots chats dead" "\<And>e. en_Slot (f e) = en_Slot e"
  shows "table_ok slots (map (\<lambda>(i, e). (i, f e)) chats) dead"
  unfolding table_ok_def map_of_map_snd
proof (intro conjI allI impI)
  show "distinct (map fst (map (\<lambda>(i, e). (i, f e)) chats))"
    using assms(1) by (simp add: table_ok_def comp_def case_prod_unfold)
next
  fix i e assume "map_option f (map_of chats i) = Some e"
  then obtain e0 where e0: "map_of chats i = Some e0" "e = f e0" by auto
  from table_okD [OF assms(1) e0(1)]
  show "i \<noteq> []" "0 \<le> en_Slot e" "en_Slot e < int (length slots)" "slots ! nat (en_Slot e) = i"
    by (simp_all add: e0(2) assms(2))
next
  fix s assume "s < length slots" "slots ! s \<noteq> []"
  then obtain e where "map_of chats (slots ! s) = Some e" "en_Slot e = int s" using assms(1) unfolding table_ok_def by blast
  then show "\<exists>e. map_option f (map_of chats (slots ! s)) = Some e \<and> en_Slot e = int s" by (simp add: assms(2))
qed (use assms(1) in \<open>simp add: table_ok_def\<close>)

text \<open>
  C14. A stored index that \<open>Decode\<close> accepts and whose slot table names no chat twice is well-formed:
  the version is the supported one, table and entries name each other, posting lists are strictly
  ascending and inside the table, entries and their vectors are valid for the pinned dimension, and the
  size and compaction bounds hold. So every operation and every search on it runs without a panic.
\<close>

theorem Decode_sound:
  assumes "index_Decode T data = Some (Inr ix)" "distinct (filter (\<lambda>i. i \<noteq> []) (ix_Slots ix))"
  shows "index_ok ix \<and> compacted ix \<and> reindex_ok T ix \<and> ix_Version ix = FormatVersion"
proof -
  obtain raw ix0 chats where d: "unmarshal dec_index data = Some raw" "index_validate T raw = Inr ix0"
    "all_some (map (infer_pending (length (ix_Slots ix0)) (ix_Postings ix0)) (ix_Chats ix0)) = Some chats"
    "ix = ix0\<lparr> ix_Chats := chats \<rparr>"
    using assms(1) by (auto simp: index_Decode_def split: option.splits sum.splits)
  have raw: "distinct (map fst (ix_Chats raw))" "distinct (map fst (ix_Postings raw))"
    using d(1) dec_index_distinct by (auto simp: unmarshal_def Option.bind_eq_Some_conv)
  have "ix_Slots ix0 = ix_Slots raw"
    using d(2) by (auto simp: index_validate_def Let_def split: if_splits sum.splits prod.splits)
  then have slots: "distinct (filter (\<lambda>i. i \<noteq> []) (ix_Slots raw))" using assms(2) d(4) by simp
  note ok = index_validate_ok [OF d(2) raw slots]
  have ch: "chats = map (\<lambda>(i, e). (i, pending_entry (ix_Postings ix0) e)) (ix_Chats ix0)"
    using d(3) infer_all_ok [OF ok(5)] by simp
  have "table_ok (ix_Slots ix) (ix_Chats ix) (ix_dead ix)" using table_ok_map [OF ok(5)] by (simp add: d(4) ch)
  moreover have "entry_ok (ix_Dims ix) e" if "map_of (ix_Chats ix) i = Some e" for i e
    using that ok(7) by (auto simp: d(4) ch map_of_map_snd)
  moreover have "compacted ix" using ok(3) by (simp add: d(4) ch compacted_def)
  moreover have "reindex_ok T ix" using ok(4) check_reindex_cong [of ix ix0 T] by (simp add: d(4) reindex_ok_def)
  ultimately show ?thesis using ok(2,6,8) by (simp add: index_ok_def d(4) ch)
qed

text \<open>
  C15. \<open>Decode\<close> panics only on an object whose slot table names a chat twice. The witness is such an
  object, of the kind the validation is meant to turn into an error: two slots for one chat make up
  for an entry that has none, whose slot is then used unchecked.
\<close>

theorem Decode_panic_only:
  assumes "index_Decode T data = None"
  shows "\<exists>raw. unmarshal dec_index data = Some raw \<and> \<not> distinct (filter (\<lambda>i. i \<noteq> []) (ix_Slots raw))"
proof -
  obtain raw ix where d: "unmarshal dec_index data = Some raw" "index_validate T raw = Inr ix"
    "all_some (map (infer_pending (length (ix_Slots ix)) (ix_Postings ix)) (ix_Chats ix)) = None"
    using assms by (auto simp: index_Decode_def split: option.splits sum.splits)
  have raw: "distinct (map fst (ix_Chats raw))" "distinct (map fst (ix_Postings raw))"
    using d(1) dec_index_distinct by (auto simp: unmarshal_def Option.bind_eq_Some_conv)
  have "\<not> distinct (filter (\<lambda>i. i \<noteq> []) (ix_Slots raw))"
    using index_validate_ok(5) [OF d(2) raw] infer_all_ok d(3) by fastforce
  with d(1) show ?thesis by blast
qed

text \<open>Stored objects over two slots of one chat, with and without an entry outside of the table.\<close>

definition stored_object :: "string list \<Rightarrow> (string \<times> int) list \<Rightarrow> (string \<times> json) list" where
  "stored_object slots chats = [(''version'', JNum (itoa 1)), (''slots'', JArr (map JStr slots)),
     (''chats'', JObj (map (\<lambda>(i, s). (i, JObj [(''slot'', JNum (itoa s))])) chats)),
     (''postings'', JObj [(''duck'', JArr [JNum (itoa 0)])])]"

lemma slot_entry: "0 \<le> s \<Longrightarrow> s < 2 ^ 63 \<Longrightarrow>
    dec_entry (JObj [(''slot'', JNum (itoa s))]) = Some (plain_entry\<lparr> en_Slot := s \<rparr>)"
  by (simp add: dec_entry_def struct_members_def field_values_def parse_int64_itoa plain_entry_def)

lemma stored_members:
  assumes "\<forall>(i, s) \<in> set chats. 0 \<le> s \<and> s < 2 ^ 63" "distinct (map fst chats)"
  shows "dec_index (stored_object slots chats) = Some (index_New [] \<lparr> ix_Slots := slots,
     ix_Chats := map (\<lambda>(i, s). (i, plain_entry\<lparr> en_Slot := s \<rparr>)) chats, ix_Postings := [(''duck'', [0])] \<rparr>)"
proof -
  have strs: "strings_of (map JStr xs) = Some xs" for xs by (induction xs) auto
  have fresh: "al_set k v m = m @ [(k, v)]" if "k \<notin> fst ` set m" for k :: string and v :: search_entry and m
    using that by (induction m) auto
  have mem: "dec_members dec_entry cur (map (\<lambda>(i, s). (i, JObj [(''slot'', JNum (itoa s))])) xs)
      = Some (cur @ map (\<lambda>(i, s). (i, plain_entry\<lparr> en_Slot := s \<rparr>)) xs)"
    if "\<forall>(i, s) \<in> set xs. 0 \<le> s \<and> s < 2 ^ 63" "distinct (map fst (cur @ map (\<lambda>(i, s). (i, plain_entry\<lparr> en_Slot := s \<rparr>)) xs))"
    for xs cur
    using that
  proof (induction xs arbitrary: cur)
    case (Cons x xs)
    obtain i s where x: "x = (i, s)" by fastforce
    have n: "i \<notin> fst ` set cur" using Cons.prems(2) by (auto simp: x)
    show ?case
      using Cons.IH [of "cur @ [(i, plain_entry\<lparr> en_Slot := s \<rparr>)]"] Cons.prems by (simp add: x slot_entry fresh [OF n])
  qed simp
  show ?thesis
    using mem [of chats "[]"] assms
    by (simp add: dec_index_def stored_object_def field_values_def parse_int64_itoa strs index_New_def FormatVersion_def
        dec_posting_def dec_slot_def case_prod_unfold comp_def)
qed

lemma itoa_number: "0 \<le> i \<Longrightarrow> num_start (itoa i)" "0 \<le> i \<Longrightarrow> num_ok (itoa i)"
  using json_ok_itoa [of i 0] by simp_all

lemma stored_unmarshal:
  assumes "\<forall>(i, s) \<in> set chats. 0 \<le> s \<and> s < 2 ^ 63 \<and> is_ascii i" "distinct (map fst chats)" "list_all is_ascii slots"
  shows "unmarshal dec_index (json_encode (JObj (stored_object slots chats))) = Some (index_New [] \<lparr> ix_Slots := slots,
     ix_Chats := map (\<lambda>(i, s). (i, plain_entry\<lparr> en_Slot := s \<rparr>)) chats, ix_Postings := [(''duck'', [0])] \<rparr>)"
proof -
  have "json_ok 10000 (JObj (stored_object slots chats))"
    using assms(1,3) by (auto simp: stored_object_def is_ascii_def list_all_iff itoa_number)
  then show ?thesis
    using stored_members [of chats slots] assms(1,2)
    by (auto simp: unmarshal_def json_parse_encode struct_members_def simp del: json_encode.simps)
qed

lemmas small_check = index_Decode_def stored_unmarshal index_validate_def check_slots_iff slot_id_def check_reindex_def
  check_entry_def Let_def validEmbeddingKeyID_def maxSerializedSlots_def MaxChats_def compactionMinDead_def
  MaxTokensPerChat_def validPostingToken_def minTokenLen_def maxIdentifierLen_def index_New_def plain_entry_def
  infer_pending_def posted_slots_def is_ascii_def

definition search_times :: time_lib where
  "search_times = \<lparr> tm_parse = (\<lambda>s. None), tm_format = (\<lambda>t. []) \<rparr>"

theorem Decode_sound_witness:
  "\<exists>ix. index_Decode search_times (json_encode (JObj (stored_object [''a'', []] [(''a'', 0)]))) = Some (Inr ix)
     \<and> ix_Slots ix = [''a'', []] \<and> ix_dead ix = 1 \<and> index_ok ix"
proof -
  obtain ix where ix: "index_Decode search_times (json_encode (JObj (stored_object [''a'', []] [(''a'', 0)]))) = Some (Inr ix)"
    "ix_Slots ix = [''a'', []]" "ix_dead ix = 1"
    by (simp add: small_check del: json_encode.simps)
  then show ?thesis using Decode_sound [OF ix(1)] by auto
qed

theorem Decode_panic_only_witness:
  "index_Decode search_times (json_encode (JObj (stored_object [''a'', ''a''] [(''a'', 0), (''b'', 9)]))) = None
     \<and> (\<exists>raw. unmarshal dec_index (json_encode (JObj (stored_object [''a'', ''a''] [(''a'', 0), (''b'', 9)]))) = Some raw
          \<and> \<not> distinct (filter (\<lambda>i. i \<noteq> []) (ix_Slots raw)))"
proof -
  have *: "index_Decode search_times (json_encode (JObj (stored_object [''a'', ''a''] [(''a'', 0), (''b'', 9)]))) = None"
    by (simp add: small_check del: json_encode.simps)
  then show ?thesis using Decode_panic_only [OF *] by blast
qed

end
