(* ===== verification/Search_Roundtrip.thy ===== *)
theory Search_Roundtrip
  imports Search_Codec
begin

text \<open>
  What \<open>Encode\<close> of the search index writes, \<open>Decode\<close> reads back: the same index, its maps in key order,
  entries that are posted but have no vectors marked as pending.
\<close>

section \<open>Members\<close>

lemma field_values_append [simp]: "field_values n (xs @ ys) = field_values n xs @ field_values n ys"
  by (simp add: field_values_def)

lemma field_values_member [simp]:
  "plain_name n \<Longrightarrow> plain_name k \<Longrightarrow> field_values n (member p k v) = (if p \<and> k = n then [v] else [])"
  by (simp add: field_values_def member_def)

lemma set_member [simp]: "x \<in> set (member p k v) \<longleftrightarrow> p \<and> x = (k, v)"
  by (auto simp: member_def)

lemma field_values_reindex [simp]:
  "plain_name n \<Longrightarrow> field_values n (case r of None \<Rightarrow> [] | Some x \<Rightarrow> [(''reindex'', enc_reindex x)]) =
     (if n = ''reindex'' then (case r of None \<Rightarrow> [] | Some x \<Rightarrow> [enc_reindex x]) else [])"
  by (simp add: field_values_def split: option.split)

text \<open>A field left out reads as its zero value.\<close>

lemma dec_omitted [simp]:
  "dec_string [] (if s \<noteq> [] then [JStr s] else []) = Some s" "dec_bool False (if b then [JBool True] else []) = Some b"
  by simp_all

section \<open>Vectors, entries, progress\<close>

lemma b64_no_break: "CHR 0x0A \<notin> set (b64_encode b) \<and> CHR 0x0D \<notin> set (b64_encode b)"
  using b64_encode_no_newline [of b] by (auto simp: list_all_iff filter_id_conv)

lemma dec_enc_vector [simp]: "dec_vector (enc_vector v) = Some v"
  using b64_no_break [of "map cbyte v"] by (simp add: dec_vector_def enc_vector_def comp_def)

definition in_range64 :: "int \<Rightarrow> bool" where
  "in_range64 i \<longleftrightarrow> 0 \<le> i \<and> i < 2 ^ 63"

lemma parse_range64 [simp]: "in_range64 i \<Longrightarrow> parse_int64 (itoa i) = Some i"
  by (simp add: in_range64_def parse_int64_itoa)

lemma all_some_id: "all_some (map Some xs) = Some xs"
  by (induction xs) auto

lemma dec_enc_entry:
  assumes "in_range64 (en_Slot e)" "in_range64 (en_SourceRevision e)"
  shows "dec_entry (enc_entry e) = Some e"
proof -
  have v: "all_some (map dec_vector (map enc_vector vs)) = Some vs" for vs
    by (simp add: comp_def all_some_id)
  show ?thesis
    using assms v by (cases e) (simp add: dec_entry_def enc_entry_def struct_members_def del: map_map)
qed

lemma dec_enc_reindex:
  "in_range64 (rp_TargetSourceRevision r) \<Longrightarrow> dec_reindex None [enc_reindex r] = Some (Some r)"
  by (cases r) (simp add: enc_reindex_def field_values_def)

section \<open>Maps\<close>

lemma insort_key_map: "insort_key fst (k, f x) (map (\<lambda>(k, x). (k, f x)) xs) = map (\<lambda>(k, x). (k, f x)) (insort_key fst (k, x) xs)"
  by (induction xs) auto

lemma sort_key_map: "sort_key fst (map (\<lambda>(k, x). (k, f x)) xs) = map (\<lambda>(k, x). (k, f x)) (sort_key fst xs)"
  by (induction xs) (auto simp: insort_key_map)

lemma al_set_fresh: "k \<notin> fst ` set m \<Longrightarrow> al_set k v m = m @ [(k, v)]"
  by (induction m) auto

lemma dec_members_map:
  "\<forall>(k, x) \<in> set xs. f (h x) = Some x \<Longrightarrow> distinct (map fst (cur @ xs)) \<Longrightarrow>
     dec_members f cur (map (\<lambda>(k, x). (k, h x)) xs) = Some (cur @ xs)"
proof (induction xs arbitrary: cur)
  case (Cons y xs)
  obtain k x where y: "y = (k, x)" by fastforce
  have "k \<notin> fst ` set cur" using Cons.prems(2) by (auto simp: y)
  then show ?case using Cons.IH [of "cur @ [(k, x)]"] Cons.prems by (simp add: y al_set_fresh)
qed simp

lemma dec_map_json:
  assumes "\<forall>(k, x) \<in> set xs. f (h x) = Some x" "distinct (map fst xs)"
  shows "dec_map f [] [json_map (map (\<lambda>(k, x). (k, h x)) xs)] = Some (sort_key fst xs)"
proof -
  have "distinct (map fst (sort_key fst xs))" using assms(2) by (simp add: distinct_map)
  then have "dec_members f [] (map (\<lambda>(k, x). (k, h x)) (sort_key fst xs)) = Some (sort_key fst xs)"
    using assms(1) dec_members_map [of "sort_key fst xs" f h "[]"] by simp
  then show ?thesis by (simp add: json_map_def sort_key_map)
qed

lemma dec_enc_posting:
  assumes "\<forall>s \<in> set ss. in_range64 s"
  shows "dec_posting (JArr (map (\<lambda>s. JNum (itoa s)) ss)) = Some ss"
proof -
  have "all_some (map dec_slot (map (\<lambda>s. JNum (itoa s)) ss)) = Some ss"
    using assms by (induction ss) (auto simp: dec_slot_def)
  then show ?thesis by (simp add: dec_posting_def)
qed

section \<open>The stored form\<close>

text \<open>Text the JSON writer passes through unchanged, and numbers that fit their machine integer.\<close>

definition plain_entry_text :: "search_entry \<Rightarrow> bool" where
  "plain_entry_text e \<longleftrightarrow> is_ascii (en_ETag e) \<and> is_ascii (en_UpdatedAt e) \<and> in_range64 (en_SourceRevision e)"

definition index_plain :: "search_index \<Rightarrow> bool" where
  "index_plain ix \<longleftrightarrow> is_ascii (ix_Model ix) \<and> in_range64 (ix_Dims ix)
     \<and> (\<forall>r. ix_Reindex ix = Some r \<longrightarrow>
          is_ascii (rp_NextCursor r) \<and> is_ascii (rp_StartedAt r) \<and> in_range64 (rp_TargetSourceRevision r))
     \<and> (\<forall>i \<in> set (ix_Slots ix). is_ascii i)
     \<and> (\<forall>(i, e) \<in> set (ix_Chats ix). is_ascii i \<and> plain_entry_text e)
     \<and> (\<forall>(t, ss) \<in> set (ix_Postings ix). is_ascii t)"

definition sorted_maps :: "search_index \<Rightarrow> search_index" where
  "sorted_maps ix = ix\<lparr> ix_Chats := sort_key fst (ix_Chats ix), ix_Postings := sort_key fst (ix_Postings ix) \<rparr>"

definition stored_form :: "search_index \<Rightarrow> search_index" where
  "stored_form ix = (let ix' = sorted_maps ix in
     ix'\<lparr> ix_Chats := map (\<lambda>(i, e). (i, pending_entry (ix_Postings ix) e)) (ix_Chats ix') \<rparr>)"

lemma map_of_sort_key:
  assumes "distinct (map fst xs)"
  shows "distinct (map fst (sort_key fst xs))" "map_of (sort_key fst xs) = map_of xs"
proof -
  show d: "distinct (map fst (sort_key fst xs))" using assms by (simp add: distinct_map)
  show "map_of (sort_key fst xs) = map_of xs" using map_of_inject_set [OF d assms] by simp
qed

lemma sorted_maps_good:
  assumes "index_good ix"
  shows "index_good (sorted_maps ix)" "map_of (ix_Chats (sorted_maps ix)) = map_of (ix_Chats ix)"
    "map_of (ix_Postings (sorted_maps ix)) = map_of (ix_Postings ix)"
proof -
  have t: "table_ok (ix_Slots ix) (ix_Chats ix) (ix_dead ix)" and p: "postings_ok (length (ix_Slots ix)) (ix_Postings ix)"
    using assms by (auto simp: index_good_def index_ok_def)
  have d: "distinct (map fst (ix_Chats ix))" "distinct (map fst (ix_Postings ix))"
    using t p by (simp_all add: table_ok_def postings_ok_def)
  note c = map_of_sort_key [OF d(1)] and q = map_of_sort_key [OF d(2)]
  show "map_of (ix_Chats (sorted_maps ix)) = map_of (ix_Chats ix)"
    "map_of (ix_Postings (sorted_maps ix)) = map_of (ix_Postings ix)"
    by (simp_all add: sorted_maps_def c(2) q(2))
  have "table_ok (ix_Slots ix) (sort_key fst (ix_Chats ix)) (ix_dead ix)" by (rule table_ok_cong [OF c(2,1) t])
  moreover have "postings_ok (length (ix_Slots ix)) (sort_key fst (ix_Postings ix))"
    using p q(1) unfolding postings_ok_def q(2) by blast
  moreover have "token_bound (sort_key fst (ix_Postings ix))"
    using assms unfolding index_good_def token_bound_def posted_def q(2) by simp
  moreover have "entry_ok (ix_Dims ix) e" if "map_of (sort_key fst (ix_Chats ix)) i = Some e" for i e
    using assms that unfolding index_good_def index_ok_def c(2) by blast
  ultimately show "index_good (sorted_maps ix)"
    using assms by (simp add: index_good_def index_ok_def sorted_maps_def compacted_def)
qed

section \<open>Counting\<close>

lemma distinct_filter_intro:
  "(\<And>i j. i < length xs \<Longrightarrow> j < length xs \<Longrightarrow> P (xs ! i) \<Longrightarrow> xs ! i = xs ! j \<Longrightarrow> i = j) \<Longrightarrow> distinct (filter P xs)"
proof (induction xs)
  case (Cons x xs)
  have "distinct (filter P xs)" using Cons.prems [of "Suc _" "Suc _"] by (intro Cons.IH) force
  moreover have "x \<notin> set xs" if "P x"
  proof
    assume "x \<in> set xs"
    then obtain j where "j < length xs" "xs ! j = x" by (auto simp: in_set_conv_nth)
    then show False using Cons.prems [of 0 "Suc j"] that by simp
  qed
  ultimately show ?case by auto
qed simp

lemma table_counts:
  assumes "table_ok slots chats dead"
  shows "distinct (filter (\<lambda>i. i \<noteq> []) slots)" "length (filter (\<lambda>i. i \<noteq> []) slots) = length chats"
proof -
  have slot: "\<exists>e. map_of chats (slots ! s) = Some e \<and> en_Slot e = int s" if "s < length slots" "slots ! s \<noteq> []" for s
    using assms that unfolding table_ok_def by blast
  show d: "distinct (filter (\<lambda>i. i \<noteq> []) slots)"
  proof (rule distinct_filter_intro)
    fix i j assume *: "i < length slots" "j < length slots" "slots ! i \<noteq> []" "slots ! i = slots ! j"
    show "i = j" using slot [OF *(1,3)] slot [of j] * by auto
  qed
  have "set (filter (\<lambda>i. i \<noteq> []) slots) = fst ` set chats"
  proof (intro equalityI subsetI)
    fix i assume "i \<in> set (filter (\<lambda>i. i \<noteq> []) slots)"
    then obtain s where "s < length slots" "slots ! s = i" "i \<noteq> []" by (auto simp: in_set_conv_nth)
    then show "i \<in> fst ` set chats" using slot [of s] by (metis domI dom_map_of_conv_image_fst)
  next
    fix i assume "i \<in> fst ` set chats"
    then obtain e where "map_of chats i = Some e" by (metis domD dom_map_of_conv_image_fst)
    from table_okD [OF assms this] show "i \<in> set (filter (\<lambda>i. i \<noteq> []) slots)" by (auto simp: in_set_conv_nth)
  qed
  moreover have "card (fst ` set chats) = length chats"
    using distinct_card [of "map fst chats"] assms by (simp add: table_ok_def)
  ultimately show "length (filter (\<lambda>i. i \<noteq> []) slots) = length chats" using distinct_card [OF d] by simp
qed

lemma posted_Cons:
  "posted ((t, ss) # ps) s = (if s \<in> set ss then {t} else {}) \<union> (posted ps s - {t})"
  by (auto simp: posted_def)

lemma finite_posted [simp]: "finite (posted ps s)"
proof (rule finite_subset)
  show "posted ps s \<subseteq> fst ` set ps" by (auto simp: posted_def intro: rev_image_eqI dest!: map_of_SomeD)
qed simp

lemma postings_count:
  "distinct (map fst ps) \<Longrightarrow> \<forall>(t, ss) \<in> set ps. distinct ss \<and> set ss \<subseteq> {0..<int n} \<Longrightarrow>
     sum_list (map (length \<circ> snd) ps) \<le> (\<Sum>s \<in> {0..<int n}. card (posted ps s))"
proof (induction ps)
  case (Cons x ps)
  obtain t ss where x: "x = (t, ss)" by fastforce
  have "t \<notin> posted ps s" for s
    using Cons.prems(1) by (auto simp: x posted_def dest!: map_of_SomeD intro: rev_image_eqI)
  then have c: "card (posted (x # ps) s) = (if s \<in> set ss then 1 else 0) + card (posted ps s)" for s
    by (simp add: x posted_Cons)
  have "(\<Sum>s \<in> {0..<int n}. if s \<in> set ss then 1 else 0 :: nat) = card (set ss)"
    using Cons.prems(2) by (simp add: x sum.If_cases Int_absorb1 flip: Int_def)
  also have "\<dots> = length ss" using Cons.prems(2) by (simp add: x distinct_card)
  finally show ?case using Cons by (simp add: c [unfolded x] sum.distrib x)
qed simp

lemma good_postings_count:
  assumes "postings_ok n ps" "token_bound ps"
  shows "sum_list (map (length \<circ> snd) ps) \<le> n * MaxTokensPerChat"
    and "(t, ss) \<in> set ps \<Longrightarrow> validPostingToken t \<and> ss \<noteq> [] \<and> length ss \<le> n \<and> sorted_wrt (<) ss
       \<and> (\<forall>s \<in> set ss. 0 \<le> s \<and> s < int n)"
proof -
  have p: "validPostingToken t \<and> ss \<noteq> [] \<and> sorted_wrt (<) ss \<and> (\<forall>s \<in> set ss. 0 \<le> s \<and> s < int n)"
    if "(t, ss) \<in> set ps" for t ss
    using assms(1) that by (simp add: postings_ok_def)
  have d: "distinct ss" if "(t, ss) \<in> set ps" for t ss
    using p [OF that] strict_sorted_iff by blast
  have sub: "set ss \<subseteq> {0..<int n}" if "(t, ss) \<in> set ps" for t ss using p [OF that] by auto
  have "sum_list (map (length \<circ> snd) ps) \<le> (\<Sum>s \<in> {0..<int n}. card (posted ps s))"
    using d sub assms(1) by (intro postings_count) (auto simp: postings_ok_def)
  also have "\<dots> \<le> card {0..<int n} * MaxTokensPerChat"
    by (rule sum_bounded_above [of _ _ MaxTokensPerChat, simplified]) (use assms(2) in \<open>simp add: token_bound_def\<close>)
  finally show "sum_list (map (length \<circ> snd) ps) \<le> n * MaxTokensPerChat" by simp
  show "validPostingToken t \<and> ss \<noteq> [] \<and> length ss \<le> n \<and> sorted_wrt (<) ss \<and> (\<forall>s \<in> set ss. 0 \<le> s \<and> s < int n)"
    if "(t, ss) \<in> set ps"
  proof -
    have "length ss \<le> n" using card_mono [OF _ sub [OF that]] distinct_card [OF d [OF that]] by simp
    then show ?thesis using p [OF that] by blast
  qed
qed

section \<open>Writing and reading back\<close>

lemma good_is_accepted:
  assumes "index_good ix" "ix_Version ix = FormatVersion" "reindex_ok T ix"
  shows "index_validate T (ix\<lparr> ix_dead := 0 \<rparr>) = Inr ix"
proof -
  let ?raw = "ix\<lparr> ix_dead := 0 \<rparr>"
  have t: "table_ok (ix_Slots ix) (ix_Chats ix) (ix_dead ix)" and p: "postings_ok (length (ix_Slots ix)) (ix_Postings ix)"
    and b: "token_bound (ix_Postings ix)" and m: "length (ix_Chats ix) \<le> MaxChats" and c: "compacted ix"
    using assms(1) by (auto simp: index_good_def index_ok_def)
  have slot: "\<exists>e. map_of (ix_Chats ix) i = Some e \<and> slot_id ?raw (en_Slot e) = Some i"
    if i: "i \<in> set (ix_Slots ix)" "i \<noteq> []" for i
  proof -
    obtain s where "s < length (ix_Slots ix)" "ix_Slots ix ! s = i" using i(1) by (auto simp: in_set_conv_nth)
    moreover from this obtain e where "map_of (ix_Chats ix) i = Some e" "en_Slot e = int s"
      using t i(2) unfolding table_ok_def by blast
    ultimately show ?thesis by (auto simp: slot_id_def)
  qed
  have dead: "ix_dead ix = int (length (filter (\<lambda>i. i = []) (ix_Slots ix)))" using t by (simp add: table_ok_def)
  have slots: "check_slots ?raw 0 0 (ix_Slots ix) = Inr (ix_dead ix, int (length (ix_Chats ix)))"
    using slot dead table_counts(2) [OF t] by (simp add: check_slots_iff)
  have "length (ix_Slots ix) = length (filter (\<lambda>i. i = []) (ix_Slots ix)) + length (ix_Chats ix)"
    using sum_length_filter_compl [of "\<lambda>i. i = []" "ix_Slots ix"] table_counts(2) [OF t] by simp
  then have n: "length (ix_Slots ix) \<le> maxSerializedSlots"
    using c dead m by (auto simp: compacted_def maxSerializedSlots_def compactionMinDead_def MaxChats_def)
  have e: "check_each (\<lambda>(i, e). check_entry (ix_Dims ix) e) (ix_Chats ix) = Inr ()"
  proof -
    have "entry_ok (ix_Dims ix) e" if "(i, e) \<in> set (ix_Chats ix)" for i e
    proof -
      have "map_of (ix_Chats ix) i = Some e" using t that by (simp add: table_ok_def)
      then show ?thesis using assms(1) unfolding index_good_def index_ok_def by blast
    qed
    then show ?thesis by (auto simp: check_each_ok check_entry_ok)
  qed
  have "\<exists>cnt. check_postings (length (ix_Slots ix)) (length (ix_Slots ix) * MaxTokensPerChat) 0 (ix_Postings ix) = Inr cnt"
    using check_postings_complete [of "ix_Postings ix" "length (ix_Slots ix)" 0 "length (ix_Slots ix) * MaxTokensPerChat"]
      good_postings_count [OF p b] by auto
  then show ?thesis
    using assms(2,3) c m n e slots check_reindex_cong [of ?raw ix T]
    by (auto simp: index_validate_def Let_def compacted_def reindex_ok_def)
qed

lemma slots_in_range64:
  assumes "index_good ix"
  shows "0 \<le> s \<Longrightarrow> s < int (length (ix_Slots ix)) \<Longrightarrow> in_range64 s"
proof -
  have t: "table_ok (ix_Slots ix) (ix_Chats ix) (ix_dead ix)" and m: "length (ix_Chats ix) \<le> MaxChats" and c: "compacted ix"
    using assms by (auto simp: index_good_def index_ok_def)
  have "length (ix_Slots ix) = length (filter (\<lambda>i. i = []) (ix_Slots ix)) + length (ix_Chats ix)"
    using sum_length_filter_compl [of "\<lambda>i. i = []" "ix_Slots ix"] table_counts(2) [OF t] by simp
  then have "int (length (ix_Slots ix)) = ix_dead ix + int (length (ix_Chats ix))" using t by (simp add: table_ok_def)
  then show "0 \<le> s \<Longrightarrow> s < int (length (ix_Slots ix)) \<Longrightarrow> in_range64 s"
    using m c by (auto simp: in_range64_def compacted_def compactionMinDead_def MaxChats_def)
qed

lemma key_id_ascii: "validEmbeddingKeyID k \<Longrightarrow> is_ascii k"
  by (auto simp: validEmbeddingKeyID_def is_ascii_hex is_ascii_def [of "[]"])

lemma entry_json_ok:
  assumes "is_ascii (en_ETag e)" "is_ascii (en_UpdatedAt e)" "is_ascii (en_EmbeddingKeyID e)"
    "0 \<le> en_SourceRevision e" "0 \<le> en_Slot e" "2 \<le> d"
  shows "json_ok d (enc_entry e)"
proof -
  have "json_ok (d - Suc 0 - Suc 0) (enc_vector v)" for v by (simp add: enc_vector_def)
  then show ?thesis
    using assms itoa_number by (auto simp: enc_entry_def is_ascii_def)
qed

lemma json_ok_map:
  "(\<And>k x. (k, x) \<in> set xs \<Longrightarrow> is_ascii k \<and> json_ok (d - 1) (h x)) \<Longrightarrow> 0 < d \<Longrightarrow>
     json_ok d (json_map (map (\<lambda>(k, x). (k, h x)) xs))"
  by (auto simp: json_map_def)

lemma dec_enc_index:
  assumes "index_good ix" "index_plain ix" "ix_Version ix = FormatVersion"
  shows "unmarshal dec_index (index_Encode ix) = Some (sorted_maps ix\<lparr> ix_dead := 0 \<rparr>)"
proof -
  have t: "table_ok (ix_Slots ix) (ix_Chats ix) (ix_dead ix)" and p: "postings_ok (length (ix_Slots ix)) (ix_Postings ix)"
    and b: "token_bound (ix_Postings ix)"
    using assms(1) by (auto simp: index_good_def index_ok_def)
  have d: "distinct (map fst (ix_Chats ix))" "distinct (map fst (ix_Postings ix))"
    using t p by (simp_all add: table_ok_def postings_ok_def)
  have chat: "i \<noteq> [] \<and> in_range64 (en_Slot e) \<and> entry_ok (ix_Dims ix) e \<and> is_ascii i \<and> plain_entry_text e"
    if "(i, e) \<in> set (ix_Chats ix)" for i e
  proof -
    have m: "map_of (ix_Chats ix) i = Some e" using d(1) that by simp
    show ?thesis
      using table_okD [OF t m] slots_in_range64 [OF assms(1)] assms(1,2) m that unfolding index_good_def index_ok_def index_plain_def
      by blast
  qed
  have post: "\<forall>s \<in> set ss. in_range64 s" "is_ascii t" if "(t, ss) \<in> set (ix_Postings ix)" for t ss
    using good_postings_count(2) [OF p b that] slots_in_range64 [OF assms(1)] assms(2) that by (auto simp: index_plain_def)
  have strs: "strings_of (map JStr xs) = Some xs" for xs by (induction xs) auto
  have chats: "dec_map dec_entry [] [json_map (map (\<lambda>(i, e). (i, enc_entry e)) (ix_Chats ix))] = Some (sort_key fst (ix_Chats ix))"
    by (rule dec_map_json [OF _ d(1)]) (use chat in \<open>auto simp: dec_enc_entry plain_entry_text_def\<close>)
  have posts: "dec_map dec_posting [] [json_map (map (\<lambda>(t, ss). (t, JArr (map (\<lambda>s. JNum (itoa s)) ss))) (ix_Postings ix))]
      = Some (sort_key fst (ix_Postings ix))"
    by (rule dec_map_json [OF _ d(2)]) (use post in \<open>auto simp: dec_enc_posting\<close>)
  have "json_ok 10000 (enc_index ix)"
  proof -
    have "json_ok 9999 (json_map (map (\<lambda>(i, e). (i, enc_entry e)) (ix_Chats ix)))"
      by (rule json_ok_map)
        (use chat key_id_ascii in \<open>auto intro!: entry_json_ok simp: plain_entry_text_def entry_ok_def in_range64_def\<close>)
    moreover have "json_ok 9999 (json_map (map (\<lambda>(t, ss). (t, JArr (map (\<lambda>s. JNum (itoa s)) ss))) (ix_Postings ix)))"
      by (rule json_ok_map) (use post in \<open>auto simp: in_range64_def itoa_number\<close>)
    ultimately show ?thesis
      using assms(2,3) by (auto simp: enc_index_def index_plain_def FormatVersion_def in_range64_def enc_reindex_def is_ascii_def
          itoa_number split: option.splits)
  qed
  then have "json_parse (index_Encode ix) = Some (enc_index ix)" by (simp add: index_Encode_def json_parse_encode)
  moreover have "dec_index (case enc_index ix of JObj m \<Rightarrow> m | _ \<Rightarrow> []) = Some (sorted_maps ix\<lparr> ix_dead := 0 \<rparr>)"
  proof -
    have r: "dec_reindex None (case ix_Reindex ix of None \<Rightarrow> [] | Some x \<Rightarrow> [enc_reindex x]) = Some (ix_Reindex ix)"
      using assms(2) dec_enc_reindex by (auto simp: index_plain_def split: option.split)
    have v: "dec_int 0 [JNum (itoa FormatVersion)] = Some FormatVersion" by (simp add: FormatVersion_def parse_int64_itoa)
    have n: "dec_int 0 (if ix_Dims ix \<noteq> 0 then [JNum (itoa (ix_Dims ix))] else []) = Some (ix_Dims ix)"
      using assms(2) by (simp add: index_plain_def)
    have sl: "dec_strings [] (if ix_Slots ix \<noteq> [] then [JArr (map JStr (ix_Slots ix))] else []) = Some (ix_Slots ix)"
      by (simp add: strs)
    have ps: "dec_map dec_posting [] (if ix_Postings ix \<noteq> []
        then [json_map (map (\<lambda>(t, ss). (t, JArr (map (\<lambda>s. JNum (itoa s)) ss))) (ix_Postings ix))] else [])
        = Some (sort_key fst (ix_Postings ix))"
      using posts by (cases "ix_Postings ix") simp_all
    have "ix\<lparr> ix_Chats := c, ix_Postings := q, ix_dead := 0 \<rparr> = \<lparr> ix_Version = FormatVersion, ix_Model = ix_Model ix,
        ix_Dims = ix_Dims ix, ix_Incomplete = ix_Incomplete ix, ix_Reindex = ix_Reindex ix, ix_Slots = ix_Slots ix,
        ix_Chats = c, ix_Postings = q, ix_dead = 0 \<rparr>" for c q
      using assms(3) by (cases ix) simp
    then show ?thesis
      unfolding enc_index_def dec_index_def
      by (simp add: r v n sl ps chats assms(3) sorted_maps_def del: dec_int.simps(2) dec_map.simps(2) dec_strings.simps(2)
          dec_string.simps(2) dec_bool.simps(2) if_split split del: if_split)
  qed
  ultimately show ?thesis by (simp add: unmarshal_def struct_members_def enc_index_def)
qed



end
