(* ===== verification/Go_Raw.thy ===== *)
theory Go_Raw
  imports Go_JSON
begin

text \<open>
  JSON kept as text: \<^verbatim>\<open>map[string]json.RawMessage\<close> and \<^verbatim>\<open>[]json.RawMessage\<close> as \<^verbatim>\<open>encoding/json\<close> reads
  and writes them, and \<^verbatim>\<open>strconv.Quote\<close>. A raw map is an association list with distinct keys from
  names to the text of the value; writing one compacts the texts and fails when one of them is not
  JSON.
\<close>

type_synonym raw_map = "(string \<times> bytes) list"

section \<open>Reading\<close>

text \<open>The text of the first value of \<open>s\<close>, and what follows it.\<close>

definition raw_first :: "string \<Rightarrow> (bytes \<times> string) option" where
  "raw_first s =
     (case pval (parse_fuel s) 10000 s of
        None \<Rightarrow> None
      | Some (_, r) \<Rightarrow> Some (take (length s - length r) s, r))"

fun raw_elems :: "nat \<Rightarrow> string \<Rightarrow> bytes list option" where
  "raw_elems 0 s = None"
| "raw_elems (Suc f) s =
     (case raw_first s of
        None \<Rightarrow> None
      | Some (v, r) \<Rightarrow>
          (case skip_ws r of
             [] \<Rightarrow> None
           | c # r' \<Rightarrow>
               if c = CHR '']'' then Some [v]
               else if c = CHR '','' then map_option (\<lambda>vs. v # vs) (raw_elems f (skip_ws r'))
               else None))"

fun raw_members :: "nat \<Rightarrow> string \<Rightarrow> raw_map option" where
  "raw_members 0 s = None"
| "raw_members (Suc f) s =
     (case pstr (tl s) of
        None \<Rightarrow> None
      | Some (k, r1) \<Rightarrow>
          (case raw_first (skip_ws (tl (skip_ws r1))) of
             None \<Rightarrow> None
           | Some (v, r) \<Rightarrow>
               (case skip_ws r of
                  [] \<Rightarrow> None
                | c # r' \<Rightarrow>
                    if c = CHR ''}'' then Some [(k, v)]
                    else if c = CHR '','' then map_option (\<lambda>m. (k, v) # m) (raw_members f (skip_ws r'))
                    else None)))"

text \<open>The elements of an array, the members of an object in order (\<open>[]\<close> for \<^verbatim>\<open>null\<close>).\<close>

definition raw_array :: "bytes \<Rightarrow> bytes list option" where
  "raw_array s =
     (case json_parse s of
        Some JNull \<Rightarrow> Some []
      | Some (JArr vs) \<Rightarrow> if vs = [] then Some [] else raw_elems (length s) (skip_ws (tl (skip_ws s)))
      | _ \<Rightarrow> None)"

definition raw_fields :: "bytes \<Rightarrow> raw_map option" where
  "raw_fields s =
     (case json_parse s of
        Some JNull \<Rightarrow> Some []
      | Some (JObj m) \<Rightarrow> if m = [] then Some [] else raw_members (length s) (skip_ws (tl (skip_ws s)))
      | _ \<Rightarrow> None)"

text \<open>The last of equal keys wins.\<close>

definition raw_map_of :: "raw_map \<Rightarrow> raw_map" where
  "raw_map_of kvs = fold (\<lambda>(k, v) m. al_set k v m) kvs []"

definition raw_object :: "bytes \<Rightarrow> raw_map option" where
  "raw_object s = map_option raw_map_of (raw_fields s)"

text \<open>The values of a raw map, decoded.\<close>

definition raw_json :: "raw_map \<Rightarrow> (string \<times> json) list" where
  "raw_json m = map (\<lambda>(k, t). (k, the (json_parse t))) (filter (\<lambda>(k, t). json_parse t \<noteq> None) m)"

section \<open>Writing\<close>

text \<open>\<^verbatim>\<open>json.compact\<close> with HTML escaping; \<open>q\<close>: within a string literal.\<close>

definition html_escape :: "char \<Rightarrow> string" where
  "html_escape c = [CHR 0x5C] @ ''u00'' @ [hexdigit (byte_val c div 16), hexdigit (byte_val c mod 16)]"

function compact :: "bool \<Rightarrow> string \<Rightarrow> string" where
  "compact q [] = []"
| "compact q (c # r) =
     (if c = CHR ''<'' \<or> c = CHR ''>'' \<or> c = CHR ''&'' then html_escape c @ compact q r
      else if c = CHR 0xE2 \<and> (has_prefix r [CHR 0x80, CHR 0xA8] \<or> has_prefix r [CHR 0x80, CHR 0xA9])
      then [CHR 0x5C] @ (if has_prefix r [CHR 0x80, CHR 0xA8] then ''u2028'' else ''u2029'') @ compact q (drop 2 r)
      else if q then
        (if c = CHR 0x5C then c # take 1 r @ compact q (drop 1 r) else c # compact (c \<noteq> CHR 0x22) r)
      else if is_ws c then compact False r
      else c # compact (c = CHR 0x22) r)"
  by pat_completeness auto
termination by (relation "measure (\<lambda>(q, s). length s)") auto

declare compact.simps(2) [simp del]

definition raw_value :: "bytes \<Rightarrow> bytes option" where
  "raw_value t = (if json_parse t = None then None else Some (compact False t))"

fun all_values :: "bytes option list \<Rightarrow> bytes list option" where
  "all_values [] = Some []"
| "all_values (x # xs) = (case (x, all_values xs) of (Some y, Some ys) \<Rightarrow> Some (y # ys) | _ \<Rightarrow> None)"

definition raw_member :: "string \<times> bytes \<Rightarrow> bytes option" where
  "raw_member kv = map_option (\<lambda>t. jstring (fst kv) @ '':'' @ t) (raw_value (snd kv))"

text \<open>\<^verbatim>\<open>json.Marshal\<close> of a raw map and of a slice of raw maps.\<close>

definition marshal_raw :: "raw_map \<Rightarrow> bytes option" where
  "marshal_raw m =
     map_option (\<lambda>ts. ''{'' @ intersperse ts @ ''}'') (all_values (map raw_member (sort_key fst m)))"

definition marshal_raws :: "raw_map list \<Rightarrow> bytes option" where
  "marshal_raws ms = map_option (\<lambda>ts. ''['' @ intersperse ts @ '']'') (all_values (map marshal_raw ms))"

section \<open>strconv.Quote\<close>

text \<open>The code point of a valid sequence of 2 to 4 bytes.\<close>

definition rune_of :: "string \<Rightarrow> nat" where
  "rune_of bs =
     (case map byte_val bs of
        [a, b] \<Rightarrow> (a - 192) * 64 + (b - 128)
      | [a, b, c] \<Rightarrow> (a - 224) * 4096 + (b - 128) * 64 + (c - 128)
      | [a, b, c, d] \<Rightarrow> (a - 240) * 262144 + (b - 128) * 4096 + (c - 128) * 64 + (d - 128)
      | _ \<Rightarrow> 0)"

fun hex_digits :: "nat \<Rightarrow> nat \<Rightarrow> string" where
  "hex_digits 0 n = []"
| "hex_digits (Suc k) n = hex_digits k (n div 16) @ [hexdigit (n mod 16)]"

definition quote_ascii :: "char \<Rightarrow> string" where
  "quote_ascii c =
     (if c = CHR 0x22 \<or> c = CHR 0x5C then [CHR 0x5C, c]
      else if in_range 32 126 c then [c]
      else if c = CHR 0x07 then [CHR 0x5C, CHR ''a'']
      else if c = CHR 0x08 then [CHR 0x5C, CHR ''b'']
      else if c = CHR 0x0C then [CHR 0x5C, CHR ''f'']
      else if c = CHR 0x0A then [CHR 0x5C, CHR ''n'']
      else if c = CHR 0x0D then [CHR 0x5C, CHR ''r'']
      else if c = CHR 0x09 then [CHR 0x5C, CHR ''t'']
      else if c = CHR 0x0B then [CHR 0x5C, CHR ''v'']
      else [CHR 0x5C, CHR ''x''] @ hex_digits 2 (byte_val c))"

definition quote_rune :: "(nat \<Rightarrow> bool) \<Rightarrow> string \<Rightarrow> string" where
  "quote_rune is_print bs =
     (let r = rune_of bs
      in if is_print r then bs
         else if r < 65536 then [CHR 0x5C, CHR ''u''] @ hex_digits 4 r
         else [CHR 0x5C, CHR ''U''] @ hex_digits 8 r)"

text \<open>\<open>is_print\<close> is \<^verbatim>\<open>strconv.IsPrint\<close> beyond ASCII.\<close>

function quote_body :: "(nat \<Rightarrow> bool) \<Rightarrow> string \<Rightarrow> string" where
  "quote_body is_print [] = []"
| "quote_body is_print (c # r) =
     (if byte_val c < 128 then quote_ascii c @ quote_body is_print r
      else case utf8_tail c r of
             None \<Rightarrow> [CHR 0x5C, CHR ''x''] @ hex_digits 2 (byte_val c) @ quote_body is_print r
           | Some n \<Rightarrow> quote_rune is_print (c # take n r) @ quote_body is_print (drop n r))"
  by pat_completeness auto
termination by (relation "measure (\<lambda>(p, s). length s)") auto

declare quote_body.simps(2) [simp del]

definition Quote :: "(nat \<Rightarrow> bool) \<Rightarrow> string \<Rightarrow> string" where
  "Quote is_print s = [CHR 0x22] @ quote_body is_print s @ [CHR 0x22]"

section \<open>Facts\<close>

lemma distinct_raw_map_of [simp]: "distinct (map fst (raw_map_of kvs))"
proof -
  have "distinct (map fst (fold (\<lambda>(k, v) m. al_set k v m) kvs m))" if "distinct (map fst m)" for m
    using that by (induction kvs arbitrary: m) auto
  then show ?thesis by (simp add: raw_map_of_def)
qed

lemma raw_object_distinct: "raw_object s = Some m \<Longrightarrow> distinct (map fst m)"
  by (auto simp: raw_object_def)

lemma all_values_None: "None \<in> set xs \<Longrightarrow> all_values xs = None"
  by (induction xs) (auto split: option.splits)

lemma marshal_raw_None:
  assumes "map_of m k = Some t" "json_parse t = None"
  shows "marshal_raw m = None"
proof -
  have "(k, t) \<in> set (sort_key fst m)" using assms(1) by (simp add: map_of_SomeD)
  then have "raw_member (k, t) \<in> set (map raw_member (sort_key fst m))" by (metis imageI set_map)
  moreover have "raw_member (k, t) = None" using assms(2) by (simp add: raw_member_def raw_value_def)
  ultimately show ?thesis by (simp add: marshal_raw_def all_values_None)
qed

lemma all_values_Some: "None \<notin> set xs \<Longrightarrow> \<exists>ys. all_values xs = Some ys"
proof (induction xs)
  case (Cons x xs)
  then show ?case by (cases x) auto
qed simp

lemma marshal_raw_Some:
  assumes "\<forall>t \<in> snd ` set m. json_parse t \<noteq> None"
  shows "\<exists>b. marshal_raw m = Some b"
proof -
  have "None \<notin> set (map raw_member (sort_key fst m))"
    using assms by (force simp: raw_member_def raw_value_def)
  from all_values_Some [OF this] show ?thesis by (auto simp: marshal_raw_def)
qed

text \<open>
  The bytes for which \<open>Quote\<close> writes an escape that is not one of JSON's: bell, vertical tab, and every
  control character or DEL it writes in hexadecimal.
\<close>

definition unquotable :: "char \<Rightarrow> bool" where
  "unquotable c = ((byte_val c < 32 \<or> byte_val c = 127) \<and> byte_val c \<notin> {8, 9, 10, 12, 13})"

lemma escaped_chars:
  "c = CHR 0x07 \<longleftrightarrow> byte_val c = 7" "c = CHR 0x08 \<longleftrightarrow> byte_val c = 8" "c = CHR 0x0C \<longleftrightarrow> byte_val c = 12"
  "c = CHR 0x0A \<longleftrightarrow> byte_val c = 10" "c = CHR 0x0D \<longleftrightarrow> byte_val c = 13" "c = CHR 0x09 \<longleftrightarrow> byte_val c = 9"
  "c = CHR 0x0B \<longleftrightarrow> byte_val c = 11" "c = CHR 0x22 \<longleftrightarrow> byte_val c = 34" "c = CHR 0x5C \<longleftrightarrow> byte_val c = 92"
  by (simp_all flip: byte_val_inject)

lemma pstr_bad_escape: "simple_escape e = None \<Longrightarrow> e \<noteq> CHR ''u'' \<Longrightarrow> pstr (CHR 0x5C # e # r) = None"
  by (simp add: pstr.simps(2))

lemma pstr_plain: "byte_val c \<ge> 32 \<Longrightarrow> byte_val c < 128 \<Longrightarrow> c \<noteq> CHR 0x22 \<Longrightarrow> c \<noteq> CHR 0x5C \<Longrightarrow> pstr (c # r) = prepend [c] (pstr r)"
  by (simp add: pstr.simps(2))

lemma pstr_quote_ascii:
  assumes "byte_val c < 128"
  shows "pstr (quote_ascii c @ r) = (if unquotable c then None else prepend [c] (pstr r))"
proof -
  consider (esc) "byte_val c \<in> {34, 92, 8, 9, 10, 12, 13}" | (plain) "in_range 32 126 c" "byte_val c \<notin> {34, 92}"
    | (bad) "unquotable c"
    using assms by (fastforce simp: unquotable_def in_range_def)
  then show ?thesis
  proof cases
    case esc
    then have "c \<in> {CHR 0x22, CHR 0x5C, CHR 0x08, CHR 0x09, CHR 0x0A, CHR 0x0C, CHR 0x0D}" by (simp add: escaped_chars)
    then show ?thesis by (auto simp: quote_ascii_def unquotable_def in_range_def pstr.simps(2) simple_escape_def)
  next
    case plain
    then show ?thesis by (simp add: quote_ascii_def escaped_chars unquotable_def in_range_def pstr_plain)
  next
    case bad
    then have n: "c \<noteq> CHR 0x22" "c \<noteq> CHR 0x5C" "\<not> in_range 32 126 c" "c \<noteq> CHR 0x08" "c \<noteq> CHR 0x0C" "c \<noteq> CHR 0x0A"
        "c \<noteq> CHR 0x0D" "c \<noteq> CHR 0x09"
      by (auto simp: unquotable_def in_range_def escaped_chars simp del: char.inject)
    have "\<exists>e t. quote_ascii c = CHR 0x5C # e # t \<and> e \<in> {CHR ''a'', CHR ''v'', CHR ''x''}"
      unfolding quote_ascii_def by (simp add: n del: hex_digits.simps)
    then show ?thesis using bad by (auto intro!: pstr_bad_escape simp: simple_escape_def)
  qed
qed

lemma pstr_quote_body: "is_ascii s \<Longrightarrow> c \<in> set s \<Longrightarrow> unquotable c \<Longrightarrow> pstr (quote_body P s @ r) = None"
  by (induction s) (auto simp: is_ascii_def quote_body.simps(2) pstr_quote_ascii prepend_def)

lemma Quote_not_json:
  assumes "is_ascii s" "c \<in> set s" "unquotable c"
  shows "json_parse (Quote P s) = None"
  using pstr_quote_body [OF assms]
  by (simp add: Quote_def json_parse_def json_first_def skip_ws_def is_ws_def parse_fuel_def)

lemma pstr_quote_body_ok:
  "is_ascii s \<Longrightarrow> list_all (\<lambda>c. \<not> unquotable c) s \<Longrightarrow> pstr (quote_body P s @ CHR 0x22 # r) = Some (s, r)"
  by (induction s) (simp_all add: is_ascii_def quote_body.simps(2) pstr_quote_ascii prepend_def pstr.simps(2))

lemma Quote_json:
  assumes "is_ascii s" "list_all (\<lambda>c. \<not> unquotable c) s"
  shows "json_parse (Quote P s) = Some (JStr s)"
  using pstr_quote_body_ok [OF assms, of P "[]"]
  by (simp add: Quote_def json_parse_def json_first_def skip_ws_def is_ws_def parse_fuel_def)

end
