(* ===== verification/Fork.thy ===== *)
theory Fork
  imports Go_Raw Attachments Server_Migrate
begin

text \<open>
  \<^verbatim>\<open>server/fork_ops.go\<close>, with the chat document it reads (\<^verbatim>\<open>nativeChatPayload\<close> and its parts in
  \<^verbatim>\<open>server/import_native.go\<close>). The members of a chat, a message or an attachment are kept as text
  and carried to the new chat untouched unless the fork sets or strips them.

  \<open>is_print\<close> is \<^verbatim>\<open>strconv.IsPrint\<close> beyond ASCII.
\<close>

section \<open>Chat documents\<close>

record native_attachment =
  na_ID :: string
  na_Type :: string
  na_FileName :: string
  na_MimeType :: string
  na_TextContent :: string
  na_Description :: string
  na_FileSize :: int
  na_ArchivePath :: string
  na_Raw :: raw_map

record native_message =
  nm_Role :: string
  nm_Content :: string
  nm_Attachments :: "native_attachment list"
  nm_Timestamp :: "bytes option"
  nm_Thoughts :: string
  nm_ThinkingDuration :: string
  nm_Raw :: raw_map

record native_chat =
  nc_Title :: string
  nc_Messages :: "native_message list"
  nc_CreatedAt :: "bytes option"
  nc_IsLocalOnly :: "bool option"
  nc_ProjectID :: string
  nc_Raw :: raw_map

text \<open>The texts of the members that match a field, and a slice field read from them.\<close>

definition field_texts :: "string \<Rightarrow> raw_map \<Rightarrow> bytes list" where
  "field_texts name kvs = map snd (filter (\<lambda>kv. fold_name (fst kv) = fold_name name) kvs)"

definition last_text :: "bytes list \<Rightarrow> bytes option" where
  "last_text ts = (if ts = [] then None else Some (last ts))"

fun dec_texts :: "(bytes \<Rightarrow> 'a option) \<Rightarrow> 'a list \<Rightarrow> bytes list \<Rightarrow> 'a list option" where
  "dec_texts f cur [] = Some cur"
| "dec_texts f cur (t # ts) =
     (case raw_array t of
        None \<Rightarrow> None
      | Some xs \<Rightarrow> (case all_some (map f xs) of Some ys \<Rightarrow> dec_texts f ys ts | None \<Rightarrow> None))"

fun dec_ptr_bool :: "bool option \<Rightarrow> json list \<Rightarrow> bool option option" where
  "dec_ptr_bool cur [] = Some cur"
| "dec_ptr_bool cur (v # vs) =
     (case v of JBool b \<Rightarrow> dec_ptr_bool (Some b) vs | JNull \<Rightarrow> dec_ptr_bool None vs | _ \<Rightarrow> None)"

text \<open>\<^verbatim>\<open>json.Number\<close>: a number, or a string that is one.\<close>

fun dec_number :: "string \<Rightarrow> json list \<Rightarrow> string option" where
  "dec_number cur [] = Some cur"
| "dec_number cur (v # vs) =
     (case v of
        JNum t \<Rightarrow> dec_number t vs
      | JStr t \<Rightarrow> if pnum t = Some (t, []) then dec_number t vs else None
      | JNull \<Rightarrow> dec_number cur vs
      | _ \<Rightarrow> None)"

definition dec_native_attachment :: "raw_map \<Rightarrow> (string \<times> json) list \<Rightarrow> native_attachment option" where
  "dec_native_attachment raws m =
     Option.bind (dec_string [] (field_values ''id'' m)) (\<lambda>i.
     Option.bind (dec_string [] (field_values ''type'' m)) (\<lambda>ty.
     Option.bind (dec_string [] (field_values ''fileName'' m)) (\<lambda>fn.
     Option.bind (dec_string [] (field_values ''mimeType'' m)) (\<lambda>mt.
     Option.bind (dec_string [] (field_values ''textContent'' m)) (\<lambda>tc.
     Option.bind (dec_string [] (field_values ''description'' m)) (\<lambda>de.
     Option.bind (dec_int 0 (field_values ''fileSize'' m)) (\<lambda>sz.
     Option.bind (dec_string [] (field_values ''archivePath'' m)) (\<lambda>ap.
       Some \<lparr> na_ID = i, na_Type = ty, na_FileName = fn, na_MimeType = mt, na_TextContent = tc,
              na_Description = de, na_FileSize = sz, na_ArchivePath = ap, na_Raw = raw_map_of raws \<rparr>))))))))"

text \<open>Reading a text into a struct: its members, decoded and as text.\<close>

definition unmarshal_raw :: "(raw_map \<Rightarrow> (string \<times> json) list \<Rightarrow> 'a option) \<Rightarrow> bytes \<Rightarrow> 'a option" where
  "unmarshal_raw dec text =
     (case (raw_fields text, Option.bind (json_parse text) struct_members) of
        (Some raws, Some m) \<Rightarrow> dec raws m
      | _ \<Rightarrow> None)"

definition parse_attachment :: "bytes \<Rightarrow> native_attachment option" where
  "parse_attachment = unmarshal_raw dec_native_attachment"

text \<open>The extra check of a message: \<^verbatim>\<open>thinkingDuration\<close>, when there, is a number.\<close>

definition duration_ok :: "(string \<times> json) list \<Rightarrow> bool" where
  "duration_ok m = (case map_of (rev m) ''thinkingDuration'' of None \<Rightarrow> True | Some (JNum _) \<Rightarrow> True | _ \<Rightarrow> False)"

definition dec_native_message :: "raw_map \<Rightarrow> (string \<times> json) list \<Rightarrow> native_message option" where
  "dec_native_message raws m =
     Option.bind (dec_string [] (field_values ''role'' m)) (\<lambda>ro.
     Option.bind (dec_string [] (field_values ''content'' m)) (\<lambda>co.
     Option.bind (dec_texts parse_attachment [] (field_texts ''attachments'' raws)) (\<lambda>at.
     Option.bind (dec_string [] (field_values ''thoughts'' m)) (\<lambda>th.
     Option.bind (dec_number [] (field_values ''thinkingDuration'' m)) (\<lambda>du.
       if duration_ok m
       then Some \<lparr> nm_Role = ro, nm_Content = co, nm_Attachments = at,
                   nm_Timestamp = last_text (field_texts ''timestamp'' raws), nm_Thoughts = th,
                   nm_ThinkingDuration = du, nm_Raw = raw_map_of raws \<rparr>
       else None)))))"

definition parse_message :: "bytes \<Rightarrow> native_message option" where
  "parse_message = unmarshal_raw dec_native_message"

definition title_ok :: "(string \<times> json) list \<Rightarrow> bool" where
  "title_ok m = (case map_of (rev m) ''title'' of None \<Rightarrow> True | Some (JStr _) \<Rightarrow> True | _ \<Rightarrow> False)"

definition dec_native_chat :: "raw_map \<Rightarrow> (string \<times> json) list \<Rightarrow> native_chat option" where
  "dec_native_chat raws m =
     Option.bind (dec_string [] (field_values ''title'' m)) (\<lambda>ti.
     Option.bind (dec_texts parse_message [] (field_texts ''messages'' raws)) (\<lambda>ms.
     Option.bind (dec_ptr_bool None (field_values ''isLocalOnly'' m)) (\<lambda>lo.
     Option.bind (dec_string [] (field_values ''projectId'' m)) (\<lambda>pr.
       if title_ok m
       then Some \<lparr> nc_Title = ti, nc_Messages = ms, nc_CreatedAt = last_text (field_texts ''createdAt'' raws),
                   nc_IsLocalOnly = lo, nc_ProjectID = pr, nc_Raw = raw_map_of raws \<rparr>
       else None))))"

definition parse_chat :: "bytes \<Rightarrow> native_chat option" where
  "parse_chat = unmarshal_raw dec_native_chat"

definition setRawString :: "(nat \<Rightarrow> bool) \<Rightarrow> raw_map \<Rightarrow> string \<Rightarrow> string \<Rightarrow> raw_map" where
  "setRawString is_print payload name value = al_set name (Quote is_print value) payload"

definition setRawJSON :: "raw_map \<Rightarrow> string \<Rightarrow> raw_map list \<Rightarrow> raw_map result" where
  "setRawJSON payload name value =
     (case marshal_raws value of None \<Rightarrow> Inl (ELib ''encoding/json'') | Some t \<Rightarrow> Inr (al_set name t payload))"

section \<open>Times\<close>

text \<open>
  The layout \<^verbatim>\<open>2006-01-02T15:04:05.000Z\<close> of an instant in UTC. The civil date is the one of the
  proleptic Gregorian calendar; its cycle of 400 years starts on 1 March of year 0, which is 719468
  days before the epoch.
\<close>

definition pad :: "nat \<Rightarrow> int \<Rightarrow> string" where
  "pad w n = (let t = itoa n in replicate (w - length t) (CHR ''0'') @ t)"

definition civil :: "int \<Rightarrow> int \<times> int \<times> int" where
  "civil days =
     (let z = days + 719468;
          era = z div 146097;
          doe = z mod 146097;
          yoe = (doe - doe div 1460 + doe div 36524 - doe div 146096) div 365;
          doy = doe - (365 * yoe + yoe div 4 - yoe div 100);
          mp = (5 * doy + 2) div 153;
          d = doy - (153 * mp + 2) div 5 + 1;
          m = (if mp < 10 then mp + 3 else mp - 9)
      in (yoe + era * 400 + (if m \<le> 2 then 1 else 0), m, d))"

definition jsTime :: "gtime \<Rightarrow> string" where
  "jsTime t =
     (let ms = t div 1000000; days = ms div 86400000; r = ms mod 86400000 in
      case civil days of (y, m, d) \<Rightarrow>
        pad 4 y @ ''-'' @ pad 2 m @ ''-'' @ pad 2 d @ ''T'' @ pad 2 (r div 3600000) @ '':'' @
        pad 2 (r div 60000 mod 60) @ '':'' @ pad 2 (r div 1000 mod 60) @ ''.'' @ pad 3 (r mod 1000) @ ''Z'')"

section \<open>Requests\<close>

record fork_request =
  fk_SourceID :: string
  fk_TargetID :: string
  fk_Key :: string
  fk_MessageCount :: int
  fk_Title :: string
  fk_CreatedAt :: string
  fk_IdempotencyKey :: string

record fork_response =
  fr_OK :: bool
  fr_ID :: string
  fr_ETag :: string
  fr_KeyID :: string
  fr_SearchIndexed :: "bool option"

definition maxForkAttachments :: nat where "maxForkAttachments = 200"
definition MaxRequestBytes :: int where "MaxRequestBytes = 64 * 1024 * 1024"
definition maxForkAttachmentBytes :: int where "maxForkAttachmentBytes = MaxRequestBytes"
definition maxForkTitleBytes :: nat where "maxForkTitleBytes = 4096"
definition forkTitleState :: string where "forkTitleState = ''manual''"

definition forkStrippedFields :: "string list" where
  "forkStrippedFields =
     [''clock'', ''clockVersion'', ''codeExecutionAccessToken'', ''dataCorrupted'', ''decryptionFailed'',
      ''formatVersion'', ''isBlankChat'', ''isMetadataOnly'', ''isTemporary'', ''lastAccessedAt'', ''loadedAt'',
      ''locallyModified'', ''messageCount'', ''pendingRecoveries'', ''pendingSave'', ''pendingUpload'',
      ''projectLocallyModified'', ''syncPending'', ''syncUserId'', ''syncedAt'', ''syncVersion'', ''version'', ''writer'']"

section \<open>Copying attachments\<close>

definition cleanup_one :: "'s deps \<Rightarrow> session \<Rightarrow> string \<Rightarrow> ('s, unit) op" where
  "cleanup_one D sess aid =
     op_try (DeleteAttachmentIndex (dp_cp D) (dp_net D) (se_RawJWT sess) (se_Subject sess) aid) (\<lambda>r.
       case r of
         Inl _ \<Rightarrow> op_ret ()
       | Inr _ \<Rightarrow> if dp_buckets_configured D then op_ignore (dp_buckets_Delete D (se_Subject sess) aid) else op_ret ())"

fun cleanupNativeAttachments :: "'s deps \<Rightarrow> session \<Rightarrow> string list \<Rightarrow> ('s, unit) op" where
  "cleanupNativeAttachments D sess [] = op_ret ()"
| "cleanupNativeAttachments D sess (i # ids) =
     op_try (cleanup_one D sess i) (\<lambda>_. cleanupNativeAttachments D sess ids)"

definition forkAttachmentIdemKey :: "string \<Rightarrow> string \<Rightarrow> nat \<Rightarrow> string" where
  "forkAttachmentIdemKey forkIdemKey sourceAttachmentID index =
     hex_encode (take 16 (sha256 (''fork-att:'' @ forkIdemKey @ '':'' @ sourceAttachmentID @ '':'' @ itoa (int index))))"

definition copy_get_failed :: "go_error \<Rightarrow> go_error" where
  "copy_get_failed err =
     (if errors_is ErrBucketNotFound err then appError 404 CodeNotFound ''source attachment not found''
      else if errors_is ErrBucketForbidden err then badRequest ''fork: source attachment key does not match''
      else if errors_is ErrBucketTooLarge err then badRequest ''fork: source attachment too large''
      else appError 502 CodeUpstream (''buckets get failed: '' @ error_string err))"

definition copyForkAttachment ::
  "'s deps \<Rightarrow> session \<Rightarrow> fork_request \<Rightarrow> string \<Rightarrow> string \<Rightarrow> nat \<Rightarrow> ('s, attachment_put_response) op" where
  "copyForkAttachment D sess req sourceID sourceKeyB64 index =
     (if \<not> dp_buckets_configured D then op_err no_buckets
      else case std_decode sourceKeyB64 of
        None \<Rightarrow> op_err (badRequest ''fork: source attachment key is invalid'')
      | Some sourceKey \<Rightarrow>
          if length sourceKey \<noteq> attKeySize then op_err (badRequest ''fork: source attachment key is invalid'')
          else op_try (dp_buckets_GetLimited D (se_Subject sess) sourceID sourceKey maxForkAttachmentBytes) (\<lambda>r.
            case r of
              Inl err \<Rightarrow> op_err (copy_get_failed err)
            | Inr plaintext \<Rightarrow>
                AttachmentPut D sess
                  \<lparr> at_ChatID = fk_TargetID req, at_Plaintext = b64_encode plaintext,
                    at_IdempotencyKey = forkAttachmentIdemKey (fk_IdempotencyKey req) sourceID index \<rparr>))"

text \<open>An attachment owns a stored object when it has an id and a server key.\<close>

definition source_key :: "native_attachment \<Rightarrow> string" where
  "source_key a = attachmentServerKey (raw_json (na_Raw a))"

definition needs_copy :: "native_attachment \<Rightarrow> bool" where
  "needs_copy a = (na_ID a \<noteq> [] \<and> source_key a \<noteq> [])"

definition copied_raw :: "(nat \<Rightarrow> bool) \<Rightarrow> native_attachment \<Rightarrow> string \<Rightarrow> string \<Rightarrow> raw_map" where
  "copied_raw is_print a newID newKey =
     setRawString is_print (setRawString is_print (al_del ''key'' (na_Raw a)) ''id'' newID) ''encryptionKey'' newKey"

text \<open>
  The two nested loops. \<open>ids\<close> are the attachments copied so far (their number is the index of the next);
  they are returned with an error too.
\<close>

fun fork_attachments ::
  "(nat \<Rightarrow> bool) \<Rightarrow> 's deps \<Rightarrow> session \<Rightarrow> fork_request \<Rightarrow> native_attachment list \<Rightarrow> string list \<Rightarrow> 's \<Rightarrow>
   (raw_map list result \<times> string list) \<times> 's" where
  "fork_attachments is_print D sess req [] ids s = ((Inr [], ids), s)"
| "fork_attachments is_print D sess req (a # as) ids s =
     (if \<not> needs_copy a
      then (case fork_attachments is_print D sess req as ids s of
              ((r, ids'), s') \<Rightarrow> ((rbind r (\<lambda>out. Inr (na_Raw a # out)), ids'), s'))
      else if maxForkAttachments \<le> length ids
      then ((Inl (badRequest ''fork: attachment limit exceeded''), ids), s)
      else case copyForkAttachment D sess req (na_ID a) (source_key a) (length ids) s of
             (Inl err, s1) \<Rightarrow> ((Inl err, ids), s1)
           | (Inr p, s1) \<Rightarrow>
               (case fork_attachments is_print D sess req as (ids @ [apr_ID p]) s1 of
                  ((r, ids'), s') \<Rightarrow>
                    ((rbind r (\<lambda>out. Inr (copied_raw is_print a (apr_ID p) (apr_AttKey p) # out)), ids'), s')))"

fun fork_messages ::
  "(nat \<Rightarrow> bool) \<Rightarrow> 's deps \<Rightarrow> session \<Rightarrow> fork_request \<Rightarrow> native_message list \<Rightarrow> string list \<Rightarrow> 's \<Rightarrow>
   (raw_map list result \<times> string list) \<times> 's" where
  "fork_messages is_print D sess req [] ids s = ((Inr [], ids), s)"
| "fork_messages is_print D sess req (m # ms) ids s =
     (if nm_Attachments m = []
      then (case fork_messages is_print D sess req ms ids s of
              ((r, ids'), s') \<Rightarrow> ((rbind r (\<lambda>out. Inr (nm_Raw m # out)), ids'), s'))
      else case fork_attachments is_print D sess req (nm_Attachments m) ids s of
             ((Inl err, ids1), s1) \<Rightarrow> ((Inl err, ids1), s1)
           | ((Inr atts, ids1), s1) \<Rightarrow>
               (case setRawJSON (nm_Raw m) ''attachments'' atts of
                  Inl err \<Rightarrow> ((Inl err, ids1), s1)
                | Inr raw \<Rightarrow>
                    (case fork_messages is_print D sess req ms ids1 s1 of
                       ((r, ids'), s') \<Rightarrow> ((rbind r (\<lambda>out. Inr (raw # out)), ids'), s'))))"

section \<open>The payload\<close>

definition fork_payload ::
  "(nat \<Rightarrow> bool) \<Rightarrow> fork_request \<Rightarrow> native_chat \<Rightarrow> gtime \<Rightarrow> string \<Rightarrow> raw_map \<Rightarrow> raw_map" where
  "fork_payload is_print req chat createdAt projectID m0 =
     (let set = setRawString is_print;
          m1 = set (fold al_del forkStrippedFields m0) ''id'' (fk_TargetID req);
          m2 = set m1 ''title'' (fk_Title req);
          m3 = set m2 ''titleState'' forkTitleState;
          m4 = set m3 ''createdAt'' (jsTime createdAt);
          m5 = set m4 ''updatedAt'' (jsTime createdAt);
          m6 = al_set ''isLocalOnly'' ''false'' m5
      in if projectID \<noteq> [] then set m6 ''projectId'' projectID else al_del ''projectId'' m6)"

definition buildForkPayload ::
  "(nat \<Rightarrow> bool) \<Rightarrow> 's deps \<Rightarrow> session \<Rightarrow> fork_request \<Rightarrow> native_chat \<Rightarrow> gtime \<Rightarrow> string \<Rightarrow> 's \<Rightarrow>
   (bytes result \<times> string list) \<times> 's" where
  "buildForkPayload is_print D sess req chat createdAt projectID s =
     (case fork_messages is_print D sess req (take (nat (fk_MessageCount req)) (nc_Messages chat)) [] s of
        ((r, ids), s') \<Rightarrow>
          ((rbind r (\<lambda>messages.
            rbind (setRawJSON (fork_payload is_print req chat createdAt projectID (nc_Raw chat)) ''messages'' messages) (\<lambda>payload.
            of_option (ELib ''encoding/json'') (marshal_raw payload))), ids), s'))"

section \<open>Fork\<close>

definition readForkSource :: "'s deps \<Rightarrow> session \<Rightarrow> string \<Rightarrow> key \<Rightarrow> ('s, bytes \<times> string) op" where
  "readForkSource D sess sourceID k =
     op_try (GetBlob (dp_cp D) (dp_net D) ScopeChat sourceID (se_RawJWT sess) (se_Subject sess)) (\<lambda>r.
       case r of
         Inl err \<Rightarrow>
           if (case errors_as_cp err of None \<Rightarrow> False | Some c \<Rightarrow> cpe_StatusCode c = 404)
           then op_err (appError 404 CodeNotFound ''source chat not found'')
           else op_err err
       | Inr blob \<Rightarrow>
           (case decryptAnyVersion (dp_gz D) (gr_Ciphertext blob) [k] ScopeChat sourceID (se_Subject sess) of
              None \<Rightarrow> op_err (EApp (zero_app_error\<lparr>ae_Status := 409, ae_Code := CodeUnknownKey,
                                                   ae_Reason := ''source_not_decryptable''\<rparr>))
            | Some plaintext \<Rightarrow>
                op_ret (plaintext, case (gr_ProjectIDSet blob, gr_ProjectID blob) of (True, Some p) \<Rightarrow> p | _ \<Rightarrow> [])))"

text \<open>The checks on the request, in order; the parsed time.\<close>

definition fork_checked :: "time_lib \<Rightarrow> fork_request \<Rightarrow> gtime result" where
  "fork_checked T req =
     (if fk_SourceID req = [] then Inl (badRequest ''source_id is required'')
      else if fk_TargetID req = [] then Inl (badRequest ''target_id is required'')
      else if fk_SourceID req = fk_TargetID req then Inl (badRequest ''target_id must differ from source_id'')
      else if fk_MessageCount req < 1 then Inl (badRequest ''message_count must be at least 1'')
      else if maxForkTitleBytes < length (fk_Title req) then Inl (badRequest ''title is too long'')
      else case tm_parse T (fk_CreatedAt req) of
             None \<Rightarrow> Inl (badRequest ''created_at must be an RFC 3339 timestamp'')
           | Some createdAt \<Rightarrow>
               if fk_IdempotencyKey req = [] then Inl (badRequest ''idempotency_key is required'')
               else Inr createdAt)"

definition fork_push :: "fork_request \<Rightarrow> string \<Rightarrow> bytes \<Rightarrow> push_request" where
  "fork_push req projectID plaintext =
     \<lparr> pu_Scope = ''chat'', pu_ID = fk_TargetID req, pu_Key = fk_Key req, pu_Plaintext = b64_encode plaintext,
       pu_IfMatch = None, pu_IdempotencyKey = fk_IdempotencyKey req,
       pu_Metadata = (if projectID \<noteq> [] then [(''projectId'', AStr projectID)] else []) \<rparr>"

text \<open>Writing the new row, and what is undone when that fails.\<close>

definition fork_commit ::
  "'s deps \<Rightarrow> session \<Rightarrow> fork_request \<Rightarrow> string \<Rightarrow> bytes \<Rightarrow> string list \<Rightarrow> ('s, fork_response) op" where
  "fork_commit D sess req projectID plaintext ids =
     op_try (Push D sess (fork_push req projectID plaintext)) (\<lambda>r.
       case r of
         Inl err \<Rightarrow>
           op_try (if errors_as_outcome_unknown err then op_ret () else cleanupNativeAttachments D sess ids)
             (\<lambda>_. op_err err)
       | Inr p \<Rightarrow> op_ret \<lparr> fr_OK = True, fr_ID = fk_TargetID req, fr_ETag = pus_ETag p, fr_KeyID = pus_KeyID p,
                            fr_SearchIndexed = pus_SearchIndexed p \<rparr>)"

definition fork_build ::
  "(nat \<Rightarrow> bool) \<Rightarrow> 's deps \<Rightarrow> session \<Rightarrow> fork_request \<Rightarrow> gtime \<Rightarrow> bytes \<Rightarrow> string \<Rightarrow> ('s, fork_response) op" where
  "fork_build is_print D sess req createdAt source projectID s =
     (case parse_chat source of
        None \<Rightarrow> (Inl (badRequest ''source chat is not a valid chat document''), s)
      | Some chat \<Rightarrow>
          if int (length (nc_Messages chat)) < fk_MessageCount req
          then (Inl (badRequest (''message_count '' @ itoa (fk_MessageCount req) @ '' exceeds source message count ''
                  @ itoa (int (length (nc_Messages chat))))), s)
          else (case buildForkPayload is_print D sess req chat createdAt projectID s of
                  ((Inl err, ids), s') \<Rightarrow> op_try (cleanupNativeAttachments D sess ids) (\<lambda>_. op_err err) s'
                | ((Inr plaintext, ids), s') \<Rightarrow> fork_commit D sess req projectID plaintext ids s'))"

definition server_Fork :: "(nat \<Rightarrow> bool) \<Rightarrow> 's deps \<Rightarrow> session \<Rightarrow> fork_request \<Rightarrow> ('s, fork_response) op" where
  "server_Fork is_print D sess req =
     op_bind (op_lift (fork_checked (net_time (dp_net D)) req)) (\<lambda>createdAt.
     op_bind (op_lift (requestKey ''invalid key: '' (fk_Key req))) (\<lambda>k.
     op_bind (op_lift (DeriveKeyID (dp_hkdf D) k)) (\<lambda>kidBytes.
     op_bind (ensureCurrentKeyRegistered D sess (fk_Key req)) (\<lambda>_.
     op_bind (readForkSource D sess (fk_SourceID req) \<lparr> key_Bytes = k, key_KeyIDHex = KeyIDHex kidBytes \<rparr>)
       (\<lambda>(source, projectID). fork_build is_print D sess req createdAt source projectID)))))"

section \<open>What a fork contains\<close>

text \<open>
  The messages of the fork, given the id and key of every copied object in order: attachments that own
  an object take the next pair, everything else keeps its members.
\<close>

definition n_copies :: "native_attachment list \<Rightarrow> nat" where
  "n_copies as = length (filter needs_copy as)"

fun placed_atts :: "(nat \<Rightarrow> bool) \<Rightarrow> (string \<times> string) list \<Rightarrow> native_attachment list \<Rightarrow> raw_map list" where
  "placed_atts P ps [] = []"
| "placed_atts P ps (a # as) =
     (if needs_copy a
      then (case ps of (i, k) # ps' \<Rightarrow> copied_raw P a i k # placed_atts P ps' as | [] \<Rightarrow> [])
      else na_Raw a # placed_atts P ps as)"

definition placed_message :: "(nat \<Rightarrow> bool) \<Rightarrow> (string \<times> string) list \<Rightarrow> native_message \<Rightarrow> raw_map \<Rightarrow> bool" where
  "placed_message P ps m out =
     (if nm_Attachments m = [] then out = nm_Raw m
      else case marshal_raws (placed_atts P ps (nm_Attachments m)) of
             None \<Rightarrow> False
           | Some t \<Rightarrow> out = al_set ''attachments'' t (nm_Raw m))"

fun placed_messages :: "(nat \<Rightarrow> bool) \<Rightarrow> (string \<times> string) list \<Rightarrow> native_message list \<Rightarrow> raw_map list \<Rightarrow> bool" where
  "placed_messages P ps [] out = (ps = [] \<and> out = [])"
| "placed_messages P ps (m # ms) out =
     (case out of
        [] \<Rightarrow> False
      | x # xs \<Rightarrow> let n = n_copies (nm_Attachments m)
                 in n \<le> length ps \<and> placed_message P (take n ps) m x \<and> placed_messages P (drop n ps) ms xs)"

text \<open>The pair is what a copy of one of the attachments under the target id returned.\<close>

definition copied_as :: "'s deps \<Rightarrow> session \<Rightarrow> fork_request \<Rightarrow> native_attachment set \<Rightarrow> string \<times> string \<Rightarrow> bool" where
  "copied_as D sess req A p =
     (\<exists>a \<in> A. \<exists>index < maxForkAttachments. \<exists>s r s'.
        copyForkAttachment D sess req (na_ID a) (source_key a) index s = (Inr r, s') \<and> p = (apr_ID r, apr_AttKey r))"

lemma copied_as_mono: "copied_as D sess req A p \<Longrightarrow> A \<subseteq> B \<Longrightarrow> copied_as D sess req B p"
  unfolding copied_as_def by blast

definition placed :: "'s deps \<Rightarrow> session \<Rightarrow> fork_request \<Rightarrow> native_attachment set \<Rightarrow> string list \<Rightarrow> string list \<Rightarrow>
  (string \<times> string) list \<Rightarrow> bool" where
  "placed D sess req A ids ids' ps \<longleftrightarrow>
     ids' = ids @ map fst ps \<and> (length ids \<le> maxForkAttachments \<longrightarrow> length ids' \<le> maxForkAttachments)
     \<and> list_all (copied_as D sess req A) ps"

lemma placed_Nil: "placed D sess req A ids ids []"
  by (simp add: placed_def)

lemma placed_append: "placed D sess req A ids ids1 ps \<Longrightarrow> placed D sess req B ids1 ids2 qs \<Longrightarrow>
  placed D sess req (A \<union> B) ids ids2 (ps @ qs)"
  by (auto simp: placed_def list_all_iff dest: copied_as_mono [where B = "A \<union> B"])

lemma placed_mono: "placed D sess req A ids ids' ps \<Longrightarrow> A \<subseteq> B \<Longrightarrow> placed D sess req B ids ids' ps"
  by (auto simp: placed_def list_all_iff dest: copied_as_mono)

lemma fork_attachments_Inr:
  "fork_attachments P D sess req as ids s = ((Inr out, ids'), s') \<Longrightarrow>
   \<exists>ps. placed D sess req (set as) ids ids' ps \<and> length ps = n_copies as \<and> out = placed_atts P ps as"
proof (induction as arbitrary: ids s out)
  case Nil
  then show ?case by (auto simp: n_copies_def intro: placed_Nil)
next
  case (Cons a as)
  show ?case
  proof (cases "needs_copy a")
    case False
    then obtain out1 where "fork_attachments P D sess req as ids s = ((Inr out1, ids'), s')" "out = na_Raw a # out1"
      using Cons.prems by (auto simp: result_simps split: prod.splits)
    then show ?thesis using Cons.IH False by (fastforce simp: n_copies_def intro: placed_mono)
  next
    case True
    then obtain p s1 out1 where lt: "length ids < maxForkAttachments"
      and c: "copyForkAttachment D sess req (na_ID a) (source_key a) (length ids) s = (Inr p, s1)"
      and f: "fork_attachments P D sess req as (ids @ [apr_ID p]) s1 = ((Inr out1, ids'), s')"
      and out: "out = copied_raw P a (apr_ID p) (apr_AttKey p) # out1"
      using Cons.prems by (auto simp: result_simps split: prod.splits sum.splits if_splits)
    obtain ps where ps: "placed D sess req (set as) (ids @ [apr_ID p]) ids' ps" "length ps = n_copies as"
      "out1 = placed_atts P ps as" using Cons.IH [OF f] by blast
    have "placed D sess req {a} ids (ids @ [apr_ID p]) [(apr_ID p, apr_AttKey p)]"
      using lt c by (auto simp: placed_def copied_as_def)
    from placed_append [OF this ps(1)] show ?thesis
      using ps(2,3) out True by (intro exI [of _ "(apr_ID p, apr_AttKey p) # ps"]) (simp add: n_copies_def)
  qed
qed

definition message_attachments_of :: "native_message list \<Rightarrow> native_attachment set" where
  "message_attachments_of ms = (\<Union>m \<in> set ms. set (nm_Attachments m))"

lemma fork_messages_Inr:
  "fork_messages P D sess req ms ids s = ((Inr out, ids'), s') \<Longrightarrow>
   \<exists>ps. placed D sess req (message_attachments_of ms) ids ids' ps \<and> placed_messages P ps ms out"
proof (induction ms arbitrary: ids s out)
  case Nil
  then show ?case by (auto intro: placed_Nil)
next
  case (Cons m ms)
  have sub: "message_attachments_of (m # ms) = set (nm_Attachments m) \<union> message_attachments_of ms"
    by (simp add: message_attachments_of_def)
  show ?case
  proof (cases "nm_Attachments m = []")
    case True
    then obtain out1 where f: "fork_messages P D sess req ms ids s = ((Inr out1, ids'), s')" "out = nm_Raw m # out1"
      using Cons.prems by (auto simp: result_simps split: prod.splits)
    obtain ps where "placed D sess req (message_attachments_of ms) ids ids' ps" "placed_messages P ps ms out1"
      using Cons.IH [OF f(1)] by blast
    then show ?thesis using f(2) True sub
      by (intro exI [of _ ps]) (auto simp: placed_message_def n_copies_def Let_def)
  next
    case False
    then obtain atts ids1 s1 raw out1 where
        a: "fork_attachments P D sess req (nm_Attachments m) ids s = ((Inr atts, ids1), s1)"
      and r: "setRawJSON (nm_Raw m) ''attachments'' atts = Inr raw"
      and f: "fork_messages P D sess req ms ids1 s1 = ((Inr out1, ids'), s')" and out: "out = raw # out1"
      using Cons.prems by (auto simp: result_simps split: prod.splits sum.splits)
    obtain ps where ps: "placed D sess req (set (nm_Attachments m)) ids ids1 ps" "length ps = n_copies (nm_Attachments m)"
      "atts = placed_atts P ps (nm_Attachments m)" using fork_attachments_Inr [OF a] by blast
    obtain qs where qs: "placed D sess req (message_attachments_of ms) ids1 ids' qs" "placed_messages P qs ms out1"
      using Cons.IH [OF f] by blast
    have "placed_message P ps m raw"
      using r ps(3) False by (auto simp: placed_message_def setRawJSON_def split: option.splits)
    then show ?thesis using placed_append [OF ps(1) qs(1)] ps(2) qs(2) out sub
      by (intro exI [of _ "ps @ qs"]) (simp add: Let_def)
  qed
qed

text \<open>The members of the new chat.\<close>

definition fork_member :: "(nat \<Rightarrow> bool) \<Rightarrow> fork_request \<Rightarrow> native_chat \<Rightarrow> gtime \<Rightarrow> string \<Rightarrow> bytes \<Rightarrow> string \<Rightarrow> bytes option" where
  "fork_member P req chat createdAt projectID messages k =
     (if k = ''messages'' then Some messages
      else if k = ''id'' then Some (Quote P (fk_TargetID req))
      else if k = ''title'' then Some (Quote P (fk_Title req))
      else if k = ''titleState'' then Some (Quote P forkTitleState)
      else if k = ''createdAt'' \<or> k = ''updatedAt'' then Some (Quote P (jsTime createdAt))
      else if k = ''isLocalOnly'' then Some ''false''
      else if k = ''projectId'' then (if projectID = [] then None else Some (Quote P projectID))
      else if k \<in> set forkStrippedFields then None
      else map_of (nc_Raw chat) k)"

lemma map_of_stripped: "map_of (fold al_del ks m) k = (if k \<in> set ks then None else map_of m k)"
  by (induction ks arbitrary: m) auto

lemma map_of_fork_payload:
  "map_of (al_set ''messages'' t (fork_payload P req chat createdAt projectID (nc_Raw chat)))
     = fork_member P req chat createdAt projectID t"
  by (rule ext) (auto simp: fork_payload_def fork_member_def setRawString_def map_of_stripped Let_def)



text \<open>Forking the first of two messages, whose document was never offloaded.\<close>

definition example_chat :: native_chat where
  "example_chat = \<lparr> nc_Title = ''a'',
     nc_Messages = [\<lparr> nm_Role = ''user'', nm_Content = ''hi'',
         nm_Attachments = [\<lparr> na_ID = ''d'', na_Type = ''document'', na_FileName = [], na_MimeType = [], na_TextContent = [],
           na_Description = [], na_FileSize = 0, na_ArchivePath = [], na_Raw = [(''id'', [CHR 0x22, CHR ''d'', CHR 0x22])] \<rparr>],
         nm_Timestamp = None, nm_Thoughts = [], nm_ThinkingDuration = [],
         nm_Raw = [(''attachments'', ''[]''), (''n'', ''1'')] \<rparr>,
       \<lparr> nm_Role = ''user'', nm_Content = [], nm_Attachments = [], nm_Timestamp = None, nm_Thoughts = [],
         nm_ThinkingDuration = [], nm_Raw = [] \<rparr>],
     nc_CreatedAt = None, nc_IsLocalOnly = None, nc_ProjectID = [],
     nc_Raw = [(''clock'', ''7''), (''model'', ''[2 ]''), (''messages'', ''[]'')] \<rparr>"

definition example_fork :: fork_request where
  "example_fork = \<lparr> fk_SourceID = ''s'', fk_TargetID = ''t'', fk_Key = [], fk_MessageCount = 1, fk_Title = ''b'',
     fk_CreatedAt = [], fk_IdempotencyKey = ''i'' \<rparr>"

abbreviation no_print :: "nat \<Rightarrow> bool" where
  "no_print \<equiv> (\<lambda>_. False)"

definition example_attachments :: bytes where
  "example_attachments = ''[{'' @ [CHR 0x22] @ ''id'' @ [CHR 0x22] @ '':'' @ [CHR 0x22] @ ''d'' @ [CHR 0x22] @ ''}]''"

definition example_messages :: bytes where
  "example_messages = ''[{'' @ [CHR 0x22] @ ''attachments'' @ [CHR 0x22] @ '':'' @ example_attachments
     @ '','' @ [CHR 0x22] @ ''n'' @ [CHR 0x22] @ '':1}]''"

lemma example_texts:
  "marshal_raws [[(''id'', [CHR 0x22, CHR ''d'', CHR 0x22])]] = Some example_attachments"
  "marshal_raws [[(''attachments'', example_attachments), (''n'', ''1'')]] = Some example_messages"
  "json_parse example_messages \<noteq> None"
  by code_simp+

lemma example_payload_texts:
  "list_all (\<lambda>(k, t). json_parse t \<noteq> None)
     (al_set ''messages'' example_messages (fork_payload no_print example_fork example_chat 0 [] (nc_Raw example_chat)))"
  by code_simp

lemma example_build:
  obtains body where "buildForkPayload no_print D sess example_fork example_chat 0 [] s = ((Inr body, []), s)"
proof -
  have m: "fork_messages no_print D sess example_fork (take 1 (nc_Messages example_chat)) [] s
      = ((Inr [[(''attachments'', example_attachments), (''n'', ''1'')]], []), s)"
    using example_texts(1)
    by (simp add: example_chat_def needs_copy_def source_key_def attachmentServerKey_def raw_string_def raw_json_def setRawJSON_def)
  have "\<exists>b. marshal_raw (al_set ''messages'' example_messages
      (fork_payload no_print example_fork example_chat 0 [] (nc_Raw example_chat))) = Some b"
    using example_payload_texts by (intro marshal_raw_Some) (auto simp: list_all_iff)
  then show ?thesis
    using m example_texts(2) that by (auto simp: buildForkPayload_def setRawJSON_def example_fork_def)
qed


definition bell_fork :: fork_request where
  "bell_fork = example_fork\<lparr>fk_Title := [CHR 0x07]\<rparr>"


end
