(* ===== verification/Search_Cache.thy ===== *)
theory Search_Cache
  imports Search_Index "HOL-Library.Sublist"
begin

text \<open>
  \<^verbatim>\<open>server/search_cache.go\<close>: the cache of decoded indices, one entry per owner, least recently used last,
  under a byte budget. The list and the map of its elements by owner are one list here, whose
  owners are distinct. Removing the back of an empty list is a nil dereference, \<open>None\<close>;
  \<open>cache_put_spec\<close> shows that it does not happen.
\<close>

record 'v cache_entry =
  ce_owner :: string
  ce_ix :: 'v
  ce_keyHash :: bytes
  ce_size :: int

record 'v search_cache =
  sc_budget :: int
  sc_total :: int
  sc_lru :: "'v cache_entry list"

definition searchCacheBudgetBytes :: int where "searchCacheBudgetBytes = 4 * 2 ^ 30"

definition newSearchIndexCache :: "int \<Rightarrow> 'v search_cache" where
  "newSearchIndexCache budget = \<lparr> sc_budget = budget, sc_total = 0, sc_lru = [] \<rparr>"

definition cache_find :: "string \<Rightarrow> 'v search_cache \<Rightarrow> 'v cache_entry option" where
  "cache_find owner c = find (\<lambda>e. ce_owner e = owner) (sc_lru c)"

definition removeLocked :: "'v cache_entry \<Rightarrow> 'v search_cache \<Rightarrow> 'v search_cache" where
  "removeLocked el c = c\<lparr> sc_lru := filter (\<lambda>e. ce_owner e \<noteq> ce_owner el) (sc_lru c), sc_total := sc_total c - ce_size el \<rparr>"

definition cache_drop :: "string \<Rightarrow> 'v search_cache \<Rightarrow> 'v search_cache" where
  "cache_drop owner c = (case cache_find owner c of None \<Rightarrow> c | Some el \<Rightarrow> removeLocked el c)"

definition cache_get :: "string \<Rightarrow> bytes \<Rightarrow> 'v search_cache \<Rightarrow> 'v option \<times> 'v search_cache" where
  "cache_get owner keyHash c =
     (case cache_find owner c of
        None \<Rightarrow> (None, c)
      | Some el \<Rightarrow>
          if ce_keyHash el \<noteq> keyHash then (None, removeLocked el c)
          else (Some (ce_ix el), c\<lparr> sc_lru := el # filter (\<lambda>e. ce_owner e \<noteq> owner) (sc_lru c) \<rparr>))"

text \<open>Removing from the back until the total fits.\<close>

function cache_evict :: "'v search_cache \<Rightarrow> 'v search_cache option" where
  "cache_evict c =
     (if sc_total c \<le> sc_budget c then Some c
      else if sc_lru c = [] then None
      else cache_evict (c\<lparr> sc_lru := butlast (sc_lru c), sc_total := sc_total c - ce_size (last (sc_lru c)) \<rparr>))"
  by pat_completeness auto
termination by (relation "measure (\<lambda>c. length (sc_lru c))") auto

declare cache_evict.simps [simp del]

definition cache_put :: "string \<Rightarrow> bytes \<Rightarrow> 'v \<Rightarrow> int \<Rightarrow> 'v search_cache \<Rightarrow> 'v search_cache option" where
  "cache_put owner keyHash ix sz c =
     (let c1 = cache_drop owner c in
      if sc_budget c1 < sz then Some c1
      else cache_evict (c1\<lparr> sc_lru := \<lparr> ce_owner = owner, ce_ix = ix, ce_keyHash = keyHash, ce_size = sz \<rparr> # sc_lru c1,
                            sc_total := sc_total c1 + sz \<rparr>))"

definition cache_stats :: "'v search_cache \<Rightarrow> nat \<times> int" where
  "cache_stats c = (length (sc_lru c), sc_total c)"

section \<open>The invariant\<close>

definition total_size :: "'v cache_entry list \<Rightarrow> int" where
  "total_size es = sum_list (map ce_size es)"

definition cache_ok :: "'v search_cache \<Rightarrow> bool" where
  "cache_ok c \<longleftrightarrow> distinct (map ce_owner (sc_lru c)) \<and> (\<forall>e \<in> set (sc_lru c). 0 \<le> ce_size e)
     \<and> sc_total c = total_size (sc_lru c) \<and> sc_total c \<le> sc_budget c"

lemma new_cache_ok: "0 \<le> budget \<Longrightarrow> cache_ok (newSearchIndexCache budget)"
  by (simp add: cache_ok_def newSearchIndexCache_def total_size_def)

lemma cache_find_Some: "cache_find owner c = Some e \<Longrightarrow> e \<in> set (sc_lru c) \<and> ce_owner e = owner"
  by (auto simp: cache_find_def find_Some_iff)

lemma cache_find_None: "cache_find owner c = None \<longleftrightarrow> owner \<notin> ce_owner ` set (sc_lru c)"
  by (auto simp: cache_find_def find_None_iff)

lemma distinct_owner: "distinct (map ce_owner es) \<Longrightarrow> e \<in> set es \<Longrightarrow> f \<in> set es \<Longrightarrow> ce_owner e = ce_owner f \<Longrightarrow> e = f"
  by (induction es) (auto simp: image_iff)

lemma find_unique: "distinct (map ce_owner es) \<Longrightarrow> e \<in> set es \<Longrightarrow> find (\<lambda>x. ce_owner x = ce_owner e) es = Some e"
  by (induction es) (auto simp: image_iff)

lemma total_remove:
  "distinct (map ce_owner es) \<Longrightarrow> e \<in> set es \<Longrightarrow>
   total_size (filter (\<lambda>x. ce_owner x \<noteq> ce_owner e) es) = total_size es - ce_size e"
proof (induction es)
  case (Cons x es)
  show ?case
  proof (cases "ce_owner x = ce_owner e")
    case True
    then have "x = e" using distinct_owner [OF Cons.prems(1), of x e] Cons.prems(2) by simp
    moreover have "filter (\<lambda>y. ce_owner y \<noteq> ce_owner e) es = es"
      using Cons.prems(1) True by (auto simp: filter_id_conv image_iff)
    ultimately show ?thesis by (simp add: total_size_def)
  next
    case False
    then show ?thesis using Cons by (auto simp: total_size_def)
  qed
qed simp

lemma removeLocked_ok:
  assumes "cache_ok c" "e \<in> set (sc_lru c)"
  shows "cache_ok (removeLocked e c)" "sc_budget (removeLocked e c) = sc_budget c"
    "sc_lru (removeLocked e c) = filter (\<lambda>x. ce_owner x \<noteq> ce_owner e) (sc_lru c)"
proof -
  have "0 \<le> ce_size e" using assms by (simp add: cache_ok_def)
  then show "cache_ok (removeLocked e c)"
    using assms total_remove [of "sc_lru c" e] by (auto simp: cache_ok_def removeLocked_def distinct_map_filter)
qed (simp_all add: removeLocked_def)

lemma cache_drop_ok:
  assumes "cache_ok c"
  shows "cache_ok (cache_drop owner c)" "sc_budget (cache_drop owner c) = sc_budget c"
    "sc_lru (cache_drop owner c) = filter (\<lambda>x. ce_owner x \<noteq> owner) (sc_lru c)"
proof -
  have "cache_ok (cache_drop owner c) \<and> sc_budget (cache_drop owner c) = sc_budget c
      \<and> sc_lru (cache_drop owner c) = filter (\<lambda>x. ce_owner x \<noteq> owner) (sc_lru c)"
  proof (cases "cache_find owner c")
    case None
    then have "filter (\<lambda>x. ce_owner x \<noteq> owner) (sc_lru c) = sc_lru c"
      by (auto simp: cache_find_None filter_id_conv)
    then show ?thesis using None assms by (simp add: cache_drop_def)
  next
    case (Some e)
    then show ?thesis using cache_find_Some [OF Some] removeLocked_ok [OF assms] by (simp add: cache_drop_def)
  qed
  then show "cache_ok (cache_drop owner c)" "sc_budget (cache_drop owner c) = sc_budget c"
    "sc_lru (cache_drop owner c) = filter (\<lambda>x. ce_owner x \<noteq> owner) (sc_lru c)" by simp_all
qed

lemma cache_get_ok:
  assumes "cache_ok c"
  shows "cache_ok (snd (cache_get owner h c))" "sc_budget (snd (cache_get owner h c)) = sc_budget c"
    "set (sc_lru (snd (cache_get owner h c))) \<subseteq> set (sc_lru c)"
proof -
  have "cache_ok (snd (cache_get owner h c)) \<and> sc_budget (snd (cache_get owner h c)) = sc_budget c
      \<and> set (sc_lru (snd (cache_get owner h c))) \<subseteq> set (sc_lru c)"
  proof (cases "cache_find owner c")
    case (Some e)
    note e = cache_find_Some [OF Some]
    show ?thesis
    proof (cases "ce_keyHash e = h")
      case True
      have "total_size (e # filter (\<lambda>x. ce_owner x \<noteq> owner) (sc_lru c)) = total_size (sc_lru c)"
        using e total_remove [of "sc_lru c" e] assms by (simp add: cache_ok_def total_size_def)
      then show ?thesis using e Some True assms by (auto simp: cache_get_def cache_ok_def distinct_map_filter)
    qed (use e Some removeLocked_ok [OF assms] in \<open>auto simp: cache_get_def\<close>)
  qed (use assms in \<open>simp add: cache_get_def\<close>)
  then show "cache_ok (snd (cache_get owner h c))" "sc_budget (snd (cache_get owner h c)) = sc_budget c"
    "set (sc_lru (snd (cache_get owner h c))) \<subseteq> set (sc_lru c)" by simp_all
qed

text \<open>Eviction keeps the longest prefix that fits.\<close>

lemma evict_spec:
  assumes "\<forall>e \<in> set (sc_lru c). 0 \<le> ce_size e" "sc_total c = total_size (sc_lru c)" "0 \<le> sc_budget c"
  shows "\<exists>c'. cache_evict c = Some c' \<and> prefix (sc_lru c') (sc_lru c) \<and> sc_budget c' = sc_budget c
    \<and> sc_total c' = total_size (sc_lru c') \<and> sc_total c' \<le> sc_budget c
    \<and> (\<forall>p. prefix p (sc_lru c) \<longrightarrow> total_size p \<le> sc_budget c \<longrightarrow> prefix p (sc_lru c'))"
  using assms
proof (induction c rule: cache_evict.induct)
  case (1 c)
  show ?case
  proof (cases "sc_total c \<le> sc_budget c")
    case True
    then show ?thesis using "1.prems" by (simp add: cache_evict.simps)
  next
    case False
    then have ne: "sc_lru c \<noteq> []" using "1.prems" by (auto simp: total_size_def)
    let ?c = "c\<lparr> sc_lru := butlast (sc_lru c), sc_total := sc_total c - ce_size (last (sc_lru c)) \<rparr>"
    have split: "sc_lru c = butlast (sc_lru c) @ [last (sc_lru c)]" using ne by simp
    have "total_size (sc_lru c) = total_size (butlast (sc_lru c)) + ce_size (last (sc_lru c))"
      by (subst split) (simp add: total_size_def del: append_butlast_last_id)
    then have prems: "\<forall>e \<in> set (sc_lru ?c). 0 \<le> ce_size e" "sc_total ?c = total_size (sc_lru ?c)" "0 \<le> sc_budget ?c"
      using "1.prems" by (auto dest: in_set_butlastD)
    obtain c' where c': "cache_evict ?c = Some c'" "prefix (sc_lru c') (sc_lru ?c)" "sc_budget c' = sc_budget ?c"
      "sc_total c' = total_size (sc_lru c')" "sc_total c' \<le> sc_budget ?c"
      "\<forall>p. prefix p (sc_lru ?c) \<longrightarrow> total_size p \<le> sc_budget ?c \<longrightarrow> prefix p (sc_lru c')"
      using "1.IH" [OF False ne prems] by blast
    have "prefix p (butlast (sc_lru c))" if "prefix p (sc_lru c)" "total_size p \<le> sc_budget c" for p
    proof -
      have "p \<noteq> sc_lru c" using that(2) False "1.prems"(2) by auto
      then show ?thesis using that(1) split by (metis prefix_snoc)
    qed
    moreover have "prefix (butlast (sc_lru c)) (sc_lru c)" by (metis split prefixI)
    ultimately show ?thesis using c' False ne prefix_order.trans
      by (intro exI [of _ c']) (auto simp: cache_evict.simps [of c])
  qed
qed

text \<open>What storing an index does: it never fails and keeps the invariant.\<close>

definition cache_slot :: "string \<Rightarrow> bytes \<Rightarrow> 'v \<Rightarrow> int \<Rightarrow> 'v cache_entry" where
  "cache_slot owner keyHash v sz = \<lparr> ce_owner = owner, ce_ix = v, ce_keyHash = keyHash, ce_size = sz \<rparr>"

definition others :: "string \<Rightarrow> 'v search_cache \<Rightarrow> 'v cache_entry list" where
  "others owner c = filter (\<lambda>e. ce_owner e \<noteq> owner) (sc_lru c)"

lemma cache_put_fit:
  assumes "cache_ok c" "0 \<le> sz" "sz \<le> sc_budget c"
  shows "\<exists>c'. cache_put owner h v sz c = Some c' \<and> cache_ok c' \<and> sc_budget c' = sc_budget c
    \<and> (\<exists>kept. sc_lru c' = cache_slot owner h v sz # kept \<and> prefix kept (others owner c))
    \<and> (\<forall>p. prefix p (cache_slot owner h v sz # others owner c) \<longrightarrow> total_size p \<le> sc_budget c \<longrightarrow> prefix p (sc_lru c'))"
proof -
  note d = cache_drop_ok [OF assms(1), of owner]
  let ?new = "cache_slot owner h v sz"
  let ?c = "(cache_drop owner c)\<lparr> sc_lru := ?new # others owner c, sc_total := sc_total (cache_drop owner c) + sz \<rparr>"
  have put: "cache_put owner h v sz c = cache_evict ?c"
    using assms(3) d by (simp add: cache_put_def Let_def cache_slot_def others_def)
  have pre: "\<forall>e \<in> set (sc_lru ?c). 0 \<le> ce_size e" "sc_total ?c = total_size (sc_lru ?c)" "0 \<le> sc_budget ?c"
    using assms d by (auto simp: cache_ok_def total_size_def cache_slot_def others_def)
  obtain c' where c': "cache_evict ?c = Some c'" "prefix (sc_lru c') (sc_lru ?c)" "sc_budget c' = sc_budget ?c"
    "sc_total c' = total_size (sc_lru c')" "sc_total c' \<le> sc_budget ?c"
    "\<forall>p. prefix p (sc_lru ?c) \<longrightarrow> total_size p \<le> sc_budget ?c \<longrightarrow> prefix p (sc_lru c')"
    using evict_spec [OF pre] by blast
  have "prefix [?new] (sc_lru c')"
    using c'(6) assms(3) d(2) by (auto simp: total_size_def cache_slot_def)
  then obtain kept where kept: "sc_lru c' = ?new # kept" by (auto simp: prefix_def)
  have dist: "distinct (map ce_owner (?new # others owner c))"
    using assms(1) by (auto simp: cache_ok_def others_def cache_slot_def distinct_map_filter)
  obtain zs where zs: "?new # others owner c = sc_lru c' @ zs" using c'(2) by (auto simp: prefix_def)
  have "distinct (map ce_owner (sc_lru c'))" using dist unfolding zs by simp
  moreover have "\<forall>e \<in> set (sc_lru c'). 0 \<le> ce_size e" using pre(1) set_mono_prefix [OF c'(2)] by blast
  ultimately have "cache_ok c'" using c'(3-5) by (simp add: cache_ok_def)
  then show ?thesis using put c' kept d(2) by (intro exI [of _ c']) auto
qed

lemma cache_put_spec:
  assumes "cache_ok c" "0 \<le> sz"
  shows "\<exists>c'. cache_put owner h v sz c = Some c' \<and> cache_ok c' \<and> sc_budget c' = sc_budget c
    \<and> set (sc_lru c') \<subseteq> insert (cache_slot owner h v sz) (set (others owner c))"
proof (cases "sz \<le> sc_budget c")
  case True
  from cache_put_fit [OF assms True, of owner h v] obtain c' kept where
    c': "cache_put owner h v sz c = Some c'" "cache_ok c'" "sc_budget c' = sc_budget c"
      "sc_lru c' = cache_slot owner h v sz # kept" "prefix kept (others owner c)" by blast
  show ?thesis using c' set_mono_prefix [OF c'(5)] by (intro exI [of _ c']) auto
next
  case False
  then show ?thesis using cache_drop_ok [OF assms(1), of owner]
    by (intro exI [of _ "cache_drop owner c"]) (auto simp: cache_put_def Let_def others_def)
qed



end
