(* ===== verification/Search_Chunks.thy ===== *)
theory Search_Chunks
  imports Search_Index
begin

text \<open>
  The text of a chat that is indexed (\<^verbatim>\<open>chatSearchChunks\<close> and \<^verbatim>\<open>truncateUTF8\<close> of
  \<^verbatim>\<open>server/search_ops.go\<close>): the title and the messages, packed into chunks for the embedding model.

  The packing loop of the source would spin for ever on a part whose next 2000 bytes hold no start
  of a character; that is the value \<open>None\<close> here, and \<open>chunks_total\<close> shows that no decoded chat has such a part.
\<close>

definition searchChunkChars :: nat where "searchChunkChars = 2000"

section \<open>Trimming\<close>

text \<open>The runes of a text; a byte that starts none stands alone.\<close>

function runes :: "string \<Rightarrow> string list" where
  "runes [] = []"
| "runes (c # r) =
     (if byte_val c < 128 then [c] # runes r
      else case utf8_tail c r of
             None \<Rightarrow> [c] # runes r
           | Some n \<Rightarrow> (c # take n r) # runes (drop n r))"
  by pat_completeness auto
termination by (relation "measure length") auto

declare runes.simps(2) [simp del]

text \<open>\<^verbatim>\<open>unicode.IsSpace\<close>, by the encoding of the rune.\<close>

definition space_rune :: "string \<Rightarrow> bool" where
  "space_rune r =
     (case map byte_val r of
        [a] \<Rightarrow> a \<in> {9, 10, 11, 12, 13, 32}
      | [a, b] \<Rightarrow> a = 194 \<and> b \<in> {133, 160}
      | [a, b, c] \<Rightarrow> (a, b, c) \<in> {(225, 154, 128), (226, 128, 168), (226, 128, 169), (226, 128, 175), (226, 129, 159), (227, 128, 128)}
                    \<or> a = 226 \<and> b = 128 \<and> 128 \<le> c \<and> c \<le> 138
      | _ \<Rightarrow> False)"

definition TrimSpace :: "string \<Rightarrow> string" where
  "TrimSpace s = (let t = dropWhile space_rune in concat (rev (t (rev (t (runes s))))))"

section \<open>Cutting a text\<close>

text \<open>The largest cut at or below \<open>n\<close> where a character starts.\<close>

fun cut_at :: "string \<Rightarrow> nat \<Rightarrow> nat" where
  "cut_at s 0 = 0"
| "cut_at s (Suc n) = (if cont_byte (s ! Suc n) then cut_at s n else Suc n)"

definition truncateUTF8 :: "string \<Rightarrow> int \<Rightarrow> string" where
  "truncateUTF8 s n =
     (if n \<le> 0 then [] else if int (length s) \<le> n then s else take (cut_at s (nat n)) s)"

lemma cut_at_le: "cut_at s n \<le> n"
  by (induction n) auto

section \<open>Packing\<close>

text \<open>Closing the current chunk; the loop goes on while there is room for another.\<close>

definition flush_chunk :: "string list \<Rightarrow> string \<Rightarrow> string list \<times> bool" where
  "flush_chunk chunks cur =
     (if cur = [] then (chunks, True) else (chunks @ [cur], length chunks + 1 < MaxChunksPerChat))"

datatype pack_step =
    Packed "string list" string           \<comment> \<open>the part is used up\<close>
  | Again string "string list" string     \<comment> \<open>go round with the rest of the part\<close>
  | Full "string list"                    \<comment> \<open>the last chunk is closed\<close>

definition join_cur :: "string \<Rightarrow> string \<Rightarrow> string" where
  "join_cur cur piece = (if cur = [] then piece else cur @ [CHR 0x0A] @ piece)"

definition flush_and :: "string \<Rightarrow> string list \<Rightarrow> string \<Rightarrow> pack_step" where
  "flush_and part chunks cur =
     (case flush_chunk chunks cur of (chunks', room) \<Rightarrow> if room then Again part chunks' [] else Full chunks')"

text \<open>One round of the inner loop on a part that is not empty.\<close>

definition pack_round :: "string \<Rightarrow> string list \<Rightarrow> string \<Rightarrow> pack_step" where
  "pack_round part chunks cur =
     (if cur \<noteq> [] \<and> int (length part) + 1 \<le> int searchChunkChars - int (length cur)
      then Packed chunks (cur @ [CHR 0x0A] @ part)
      else if cur \<noteq> [] \<and> length part \<le> searchChunkChars then flush_and part chunks cur
      else let available = int searchChunkChars - int (length cur) - (if cur = [] then 0 else 1);
               piece = truncateUTF8 part available
           in if piece = [] then flush_and part chunks cur
              else let cur' = join_cur cur piece; rest = drop (length piece) part
                   in if rest = [] then Packed chunks cur' else flush_and rest chunks cur')"

text \<open>The current chunk and the part are no longer after a round; one of them is shorter, or the loop spins.\<close>

lemma flush_and_Again: "flush_and part chunks cur = Again p ch c \<Longrightarrow> p = part \<and> c = []"
  by (auto simp: flush_and_def split: prod.splits if_splits)

lemma pack_round_Again:
  assumes "pack_round part chunks cur = Again part' chunks' cur'"
  shows "cur' = [] \<and> (length part' < length part \<or> part' = part)"
proof -
  let ?a = "int searchChunkChars - int (length cur) - (if cur = [] then 0 else 1)"
  from assms have "\<exists>rest c. flush_and rest chunks c = Again part' chunks' cur'
      \<and> (rest = part \<or> rest = drop (length (truncateUTF8 part ?a)) part \<and> truncateUTF8 part ?a \<noteq> [] \<and> rest \<noteq> [])"
    by (auto simp: pack_round_def Let_def split: if_splits)
  then obtain rest c where f: "flush_and rest chunks c = Again part' chunks' cur'"
    and r: "rest = part \<or> rest = drop (length (truncateUTF8 part ?a)) part \<and> truncateUTF8 part ?a \<noteq> [] \<and> rest \<noteq> []" by blast
  have "length (drop (length p) part) < length part" if "p \<noteq> []" "drop (length p) part \<noteq> []" for p :: string
    using that by (cases p) (auto simp: not_le)
  then show ?thesis using flush_and_Again [OF f] r by blast
qed

function pack_part :: "string \<Rightarrow> string list \<Rightarrow> string \<Rightarrow> ((string list \<times> string) + string list) option" where
  "pack_part part chunks cur =
     (if part = [] then Some (Inl (chunks, cur))
      else case pack_round part chunks cur of
             Packed chunks' cur' \<Rightarrow> Some (Inl (chunks', cur'))
           | Full chunks' \<Rightarrow> Some (Inr chunks')
           | Again part' chunks' cur' \<Rightarrow>
               if cur = [] \<and> part' = part then None else pack_part part' chunks' cur')"
  by pat_completeness auto
termination
proof (relation "measure (\<lambda>(part, chunks, cur). 2 * length part + (if cur = [] then 0 else 1))", goal_cases)
  case (2 part chunks cur part' chunks' cur')
  then show ?case using pack_round_Again [of part chunks cur part' chunks' cur'] by auto
qed simp

declare pack_part.simps [simp del]

fun pack_parts :: "string list \<Rightarrow> string list \<Rightarrow> string \<Rightarrow> string list option" where
  "pack_parts [] chunks cur = Some (fst (flush_chunk chunks cur))"
| "pack_parts (p # ps) chunks cur =
     (case pack_part p chunks cur of
        None \<Rightarrow> None
      | Some (Inl (chunks', cur')) \<Rightarrow> pack_parts ps chunks' cur'
      | Some (Inr chunks') \<Rightarrow> Some chunks')"

section \<open>The document\<close>

record search_doc =
  sd_Title :: string
  sd_Messages :: "string list"

definition dec_search_message :: "json \<Rightarrow> string option" where
  "dec_search_message j = Option.bind (struct_members j) (\<lambda>m. dec_string [] (field_values ''content'' m))"

definition dec_search_doc :: "(string \<times> json) list \<Rightarrow> search_doc option" where
  "dec_search_doc m =
     Option.bind (dec_string [] (field_values ''title'' m)) (\<lambda>t.
     Option.bind (dec_list dec_search_message [] (field_values ''messages'' m)) (\<lambda>ms.
       Some \<lparr> sd_Title = t, sd_Messages = ms \<rparr>))"

definition search_parts :: "search_doc \<Rightarrow> string list" where
  "search_parts doc = filter (\<lambda>p. p \<noteq> []) (map TrimSpace (sd_Title doc # sd_Messages doc))"

definition chatSearchChunks :: "bytes \<Rightarrow> string list option" where
  "chatSearchChunks plaintext =
     (case unmarshal dec_search_doc plaintext of
        None \<Rightarrow> Some []
      | Some doc \<Rightarrow> pack_parts (search_parts doc) [] [])"

section \<open>No text is lost in a chunk\<close>

lemma truncate_split: "truncateUTF8 s n @ drop (length (truncateUTF8 s n)) s = s"
  by (auto simp: truncateUTF8_def min_def)

lemma truncate_length: "n \<ge> 0 \<Longrightarrow> int (length (truncateUTF8 s n)) \<le> n"
  using cut_at_le [of s "nat n"] by (auto simp: truncateUTF8_def min_def)

definition chunk_ok :: "string \<Rightarrow> bool" where
  "chunk_ok c \<longleftrightarrow> c \<noteq> [] \<and> length c \<le> searchChunkChars"

definition pack_inv :: "string list \<Rightarrow> string \<Rightarrow> bool" where
  "pack_inv chunks cur \<longleftrightarrow> length chunks < MaxChunksPerChat \<and> length cur \<le> searchChunkChars \<and> list_all chunk_ok chunks"

text \<open>The text without its line breaks, which packing adds.\<close>

definition strip :: "string \<Rightarrow> string" where
  "strip s = filter (\<lambda>c. c \<noteq> CHR 0x0A) s"

lemma strip_append [simp]: "strip (a @ b) = strip a @ strip b" and strip_Nil [simp]: "strip [] = []"
  and strip_nl [simp]: "strip (CHR 0x0A # a) = strip a"
  by (simp_all add: strip_def)

lemma strip_join [simp]: "strip (join_cur cur piece) = strip cur @ strip piece"
  by (simp add: join_cur_def)

fun packs :: "string list \<Rightarrow> string \<Rightarrow> string \<Rightarrow> pack_step \<Rightarrow> bool" where
  "packs chunks cur part (Packed ch c) \<longleftrightarrow>
     pack_inv ch c \<and> strip (concat ch @ c) = strip (concat chunks @ cur @ part)"
| "packs chunks cur part (Again p ch c) \<longleftrightarrow>
     pack_inv ch c \<and> strip (concat ch @ c @ p) = strip (concat chunks @ cur @ part) \<and> (\<exists>a. part = a @ p)"
| "packs chunks cur part (Full ch) \<longleftrightarrow>
     length ch = MaxChunksPerChat \<and> list_all chunk_ok ch
     \<and> (\<exists>rest. strip (concat ch) @ rest = strip (concat chunks @ cur @ part))"

lemma flush_and_packs:
  assumes "pack_inv chunks c" "strip (concat chunks @ c @ rest) = strip (concat chunks @ cur @ part)" "part = a @ rest"
  shows "packs chunks cur part (flush_and rest chunks c)"
  using assms by (auto simp: flush_and_def flush_chunk_def pack_inv_def chunk_ok_def searchChunkChars_def MaxChunksPerChat_def)

lemma pack_round_packs:
  assumes "pack_inv chunks cur"
  shows "packs chunks cur part (pack_round part chunks cur)"
proof -
  let ?a = "int searchChunkChars - int (length cur) - (if cur = [] then 0 else 1)"
  define piece where "piece = truncateUTF8 part ?a"
  define rest where "rest = drop (length piece) part"
  have split: "part = piece @ rest" using truncate_split [of part ?a] by (simp add: piece_def rest_def)
  have le: "length cur \<le> searchChunkChars" using assms by (simp add: pack_inv_def)
  have len: "length (join_cur cur piece) \<le> searchChunkChars" if "piece \<noteq> []"
  proof -
    have "?a \<ge> 0" using that by (auto simp: piece_def truncateUTF8_def split: if_splits)
    from truncate_length [OF this, of part] show ?thesis
      unfolding piece_def [symmetric] by (auto simp: join_cur_def split: if_splits)
  qed
  then have inv: "pack_inv chunks (join_cur cur piece)" if "piece \<noteq> []"
    using assms that by (simp add: pack_inv_def)
  have again: "packs chunks cur part (flush_and part chunks cur)"
    by (rule flush_and_packs [OF assms, of _ _ _ "[]"]) simp_all
  have after_cut: "packs chunks cur part (flush_and rest chunks (join_cur cur piece))" if "piece \<noteq> []"
    using that inv split by (intro flush_and_packs [where a = piece]) simp_all
  have round: "pack_round part chunks cur =
      (if cur \<noteq> [] \<and> int (length part) + 1 \<le> int searchChunkChars - int (length cur)
       then Packed chunks (cur @ [CHR 0x0A] @ part)
       else if cur \<noteq> [] \<and> length part \<le> searchChunkChars then flush_and part chunks cur
       else if piece = [] then flush_and part chunks cur
       else if rest = [] then Packed chunks (join_cur cur piece) else flush_and rest chunks (join_cur cur piece))"
    by (simp only: pack_round_def Let_def piece_def rest_def)
  consider (fits) "cur \<noteq> []" "int (length part) + 1 \<le> int searchChunkChars - int (length cur)"
    | (flush) "\<not> (cur \<noteq> [] \<and> int (length part) + 1 \<le> int searchChunkChars - int (length cur))"
        "cur \<noteq> [] \<and> length part \<le> searchChunkChars \<or> piece = []"
    | (cut) "\<not> (cur \<noteq> [] \<and> int (length part) + 1 \<le> int searchChunkChars - int (length cur))"
        "\<not> (cur \<noteq> [] \<and> length part \<le> searchChunkChars)" "piece \<noteq> []"
    by blast
  then show ?thesis
  proof cases
    case fits
    then show ?thesis using assms by (simp add: pack_round_def pack_inv_def)
  next
    case flush
    then have "pack_round part chunks cur = flush_and part chunks cur"
      unfolding round by (cases "piece = []") (simp_all only: if_False if_True if_cancel simp_thms)
    then show ?thesis using again by simp
  next
    case cut
    then have "pack_round part chunks cur = (if rest = [] then Packed chunks (join_cur cur piece)
        else flush_and rest chunks (join_cur cur piece))"
      unfolding round by (simp only: if_False if_True)
    then show ?thesis using cut after_cut inv split by simp
  qed
qed

lemma pack_part_packs:
  "pack_inv chunks cur \<Longrightarrow> pack_part part chunks cur = Some r \<Longrightarrow>
   packs chunks cur part (case r of Inl (ch, c) \<Rightarrow> Packed ch c | Inr ch \<Rightarrow> Full ch)"
proof (induction part chunks cur rule: pack_part.induct)
  case (1 part chunks cur)
  show ?case
  proof (cases "part = []")
    case True
    then show ?thesis using 1 by (auto simp: pack_part.simps)
  next
    case False
    note p = pack_round_packs [OF "1.prems"(1), of part]
    show ?thesis
    proof (cases "pack_round part chunks cur")
      case (Again part' chunks' cur')
      then have r: "pack_part part' chunks' cur' = Some r" "\<not> (cur = [] \<and> part' = part)"
        using "1.prems"(2) False by (auto simp: pack_part.simps [of part] split: if_splits)
      have inv: "pack_inv chunks' cur'" and eq: "strip (concat chunks' @ cur' @ part') = strip (concat chunks @ cur @ part)"
        using p Again by auto
      from "1.IH" [OF False Again r(2) inv r(1)] show ?thesis
        using eq by (auto split: sum.splits)
    qed (use "1.prems"(2) False p in \<open>auto simp: pack_part.simps [of part]\<close>)
  qed
qed

lemma pack_parts_packs:
  "pack_inv chunks cur \<Longrightarrow> pack_parts ps chunks cur = Some out \<Longrightarrow>
   length out \<le> MaxChunksPerChat \<and> list_all chunk_ok out
   \<and> (\<exists>rest. strip (concat out) @ rest = strip (concat chunks @ cur @ concat ps)
        \<and> (length out < MaxChunksPerChat \<longrightarrow> rest = []))"
proof (induction ps arbitrary: chunks cur)
  case Nil
  then show ?case by (auto simp: flush_chunk_def pack_inv_def) (auto simp: chunk_ok_def)
next
  case (Cons p ps)
  obtain r where r: "pack_part p chunks cur = Some r" using Cons.prems(2) by (auto split: option.splits)
  note pk = pack_part_packs [OF Cons.prems(1) r]
  show ?case
  proof (cases r)
    case (Inr ch)
    then obtain rest where "strip (concat ch) @ rest = strip (concat chunks @ cur @ p)" using pk by auto
    then have eq: "strip (concat ch) @ rest @ strip (concat ps) = strip (concat chunks @ cur @ concat (p # ps))"
      by (simp flip: append_assoc)
    have "out = ch" "length ch = MaxChunksPerChat" "list_all chunk_ok ch" using Cons.prems(2) r Inr pk by auto
    then show ?thesis using eq by (intro conjI exI [of _ "rest @ strip (concat ps)"]) simp_all
  next
    case (Inl x)
    obtain ch c where x: "x = (ch, c)" by (cases x)
    have inv: "pack_inv ch c" and eq: "strip (concat ch @ c) = strip (concat chunks @ cur @ p)"
      using pk Inl x by auto
    have "pack_parts ps ch c = Some out" using Cons.prems(2) r Inl x by simp
    moreover have "strip (concat ch @ c @ concat ps) = strip (concat chunks @ cur @ concat (p # ps))"
      using eq by (simp flip: append_assoc)
    ultimately show ?thesis using Cons.IH [OF inv] by (simp only:)
  qed
qed

section \<open>Decoded text has no long run of continuation bytes\<close>

definition short_runs :: "string \<Rightarrow> bool" where
  "short_runs s \<longleftrightarrow> (\<forall>i. i + 3 < length s \<longrightarrow> (\<exists>j \<le> 3. \<not> cont_byte (s ! (i + j))))"

lemma short_runs_factor: "short_runs (a @ s @ b) \<Longrightarrow> short_runs s"
  unfolding short_runs_def
proof (intro allI impI)
  fix i assume all: "\<forall>i. i + 3 < length (a @ s @ b) \<longrightarrow> (\<exists>j \<le> 3. \<not> cont_byte ((a @ s @ b) ! (i + j)))" and i: "i + 3 < length s"
  then obtain j where "j \<le> 3" "\<not> cont_byte ((a @ s @ b) ! (length a + i + j))"
    by (metis add.assoc add_less_cancel_left length_append trans_less_add1)
  then show "\<exists>j \<le> 3. \<not> cont_byte (s ! (i + j))"
    using i by (intro exI [of _ j]) (simp add: nth_append)
qed

text \<open>The same as a recursion: \<open>k\<close> continuation bytes have just been read.\<close>

fun runs_ok :: "nat \<Rightarrow> string \<Rightarrow> bool" where
  "runs_ok k [] = True"
| "runs_ok k (c # s) = (if cont_byte c then k < 3 \<and> runs_ok (Suc k) s else runs_ok 0 s)"

lemma runs_ok_mono: "runs_ok k s \<Longrightarrow> m \<le> k \<Longrightarrow> runs_ok m s"
  by (induction s arbitrary: k m) (auto split: if_splits)

lemma runs_ok_drop: "runs_ok k s \<Longrightarrow> runs_ok 0 (drop n s)"
  by (induction s arbitrary: k n) (auto simp: drop_Cons' intro: runs_ok_mono split: if_splits)

lemma runs_ok_short: "runs_ok 0 s \<Longrightarrow> short_runs s"
  unfolding short_runs_def
proof (intro allI impI)
  fix i assume "runs_ok 0 s" and i: "i + 3 < length s"
  then have r: "runs_ok 0 (drop i s)" by (simp add: runs_ok_drop)
  have "Suc (Suc (Suc (Suc 0))) \<le> length (drop i s)" using i by simp
  then obtain a b c d rest where s: "drop i s = a # b # c # d # rest" by (auto simp: Suc_le_length_iff simp del: length_drop)
  have n: "s ! (i + j) = (a # b # c # d # rest) ! j" for j
    using i by (metis s nth_drop add_lessD1 less_imp_le)
  show "\<exists>j \<le> 3. \<not> cont_byte (s ! (i + j))"
  proof (rule ccontr)
    assume "\<not> ?thesis"
    then have "cont_byte (s ! (i + j))" if "j \<le> 3" for j using that by blast
    from this [of 0] this [of 1] this [of 2] this [of 3] r s show False
      unfolding n by (simp add: numeral_2_eq_2 numeral_3_eq_3)
  qed
qed

text \<open>A rune in front of well-formed text.\<close>

lemma runs_ok_rune:
  "\<not> cont_byte c \<Longrightarrow> length t \<le> 3 \<Longrightarrow> runs_ok 3 x \<Longrightarrow> runs_ok k (c # t @ x)"
proof -
  assume c: "\<not> cont_byte c" and t: "length t \<le> 3" and x: "runs_ok 3 x"
  have "runs_ok m (t @ x)" if "m + length t \<le> 3" for m
    using that x by (induction t arbitrary: m) (auto intro: runs_ok_mono)
  then show ?thesis using c t by simp
qed

lemma utf8_tail_runes: "utf8_tail c r = Some n \<Longrightarrow> n \<le> 3 \<and> \<not> cont_byte c"
  by (auto simp: utf8_tail_def in_range_def split: list.splits if_splits)

lemma utf8_encode_rune: "u < 1114112 \<Longrightarrow> \<exists>c t. utf8_encode u = c # t \<and> \<not> cont_byte c \<and> length t \<le> 3"
  by (auto simp: utf8_encode_def in_range_def)

lemma replacement_rune: "\<exists>c t. replacement = c # t \<and> \<not> cont_byte c \<and> length t \<le> 3"
  unfolding replacement_def by (rule utf8_encode_rune) simp

lemma getu4_less:
  assumes "getu4 s = Some u"
  shows "u < 65536"
proof -
  obtain a b c d w x y z where h: "fromHexChar a = Some w" "fromHexChar b = Some x" "fromHexChar c = Some y"
      "fromHexChar d = Some z" "u = w * 4096 + x * 256 + y * 16 + z"
    using assms by (auto simp: getu4_def split: list.splits option.splits)
  then show ?thesis using fromHexChar_less [OF h(1)] fromHexChar_less [OF h(2)] fromHexChar_less [OF h(3)] fromHexChar_less [OF h(4)]
    by simp
qed

lemma low_surrogate_less: "low_surrogate s = Some v \<Longrightarrow> v \<le> 57343 \<and> 56320 \<le> v"
  by (auto simp: low_surrogate_def split: list.splits option.splits if_splits)

lemma simple_escape_rune: "simple_escape e = Some x \<Longrightarrow> \<not> cont_byte x"
  by (auto simp: simple_escape_def in_range_def split: if_splits)

lemma runs_ok_prepend:
  assumes "prepend p x = Some (y, r)" "\<exists>c t. p = c # t \<and> \<not> cont_byte c \<and> length t \<le> 3"
    and "\<And>b. x = Some (b, r) \<Longrightarrow> runs_ok 3 b"
  shows "runs_ok 3 y"
  using assms by (auto simp: prepend_Some simp del: runs_ok.simps intro: runs_ok_rune)

lemma pstr_runs: "pstr s = Some (x, r) \<Longrightarrow> runs_ok 3 x"
proof (induction s arbitrary: x rule: pstr.induct)
  case (2 c r0)
  note split = pstr.simps(2) [of c r0]
  show ?case
  proof (cases "c = CHR 0x22 \<or> c = CHR 0x5C")
    case False
    then show ?thesis using "2.prems" "2.IH"
      by (auto simp: split in_range_def simp del: runs_ok.simps split: if_splits option.splits
          dest: utf8_tail_runes intro: replacement_rune elim!: runs_ok_prepend)
  next
    case True
    then show ?thesis using "2.prems" "2.IH"
      apply (auto simp: split simp del: runs_ok.simps split: if_splits option.splits list.splits
          dest: getu4_less low_surrogate_less simple_escape_rune intro: replacement_rune utf8_encode_rune elim!: runs_ok_prepend)
      subgoal by simp
      subgoal by (intro utf8_encode_rune) (auto dest!: low_surrogate_less)
      subgoal for t u using getu4_less [of t u] by (intro utf8_encode_rune) simp
      done
  qed
qed simp

fun json_runs :: "json \<Rightarrow> bool" where
  "json_runs (JStr s) = runs_ok 3 s"
| "json_runs (JArr vs) = list_all json_runs vs"
| "json_runs (JObj m) = list_all (\<lambda>kv. json_runs (snd kv)) m"
| "json_runs _ = True"

lemma pval_runs:
  "pval f d s = Some (j, r) \<Longrightarrow> json_runs j"
  "pelems f d s = Some (js, r) \<Longrightarrow> list_all json_runs js"
  "pmembers f d s = Some (m, r) \<Longrightarrow> list_all (\<lambda>kv. json_runs (snd kv)) m"
proof (induction f d s and f d s and f d s arbitrary: j r and js r and m r rule: pval_pelems_pmembers.induct)
  case (2 f d s)
  then show ?case by (auto split: list.splits if_splits intro: pstr_runs)
next
  case (4 f d s)
  then show ?case by (auto split: option.splits list.splits if_splits)
next
  case (6 f d s)
  then show ?case by (auto split: option.splits list.splits if_splits)
qed auto

lemma json_parse_runs: "json_parse s = Some j \<Longrightarrow> json_runs j"
  by (auto simp: json_parse_def json_first_def split: option.splits if_splits dest: pval_runs(1))

lemma dec_string_runs: "list_all json_runs vs \<Longrightarrow> runs_ok 3 cur \<Longrightarrow> dec_string cur vs = Some x \<Longrightarrow> runs_ok 3 x"
  by (induction cur vs rule: dec_string.induct) (auto split: json.splits)

lemma field_values_runs: "list_all (\<lambda>kv. json_runs (snd kv)) m \<Longrightarrow> list_all json_runs (field_values name m)"
  by (auto simp: field_values_def list_all_iff)

lemma struct_members_runs: "json_runs j \<Longrightarrow> struct_members j = Some m \<Longrightarrow> list_all (\<lambda>kv. json_runs (snd kv)) m"
  by (auto simp: struct_members_def split: json.splits)

lemma all_some_Some: "all_some xs = Some ys \<Longrightarrow> y \<in> set ys \<Longrightarrow> Some y \<in> set xs"
  by (induction xs arbitrary: ys) (auto split: option.splits)

lemma dec_list_runs:
  assumes "\<And>j x. json_runs j \<Longrightarrow> f j = Some x \<Longrightarrow> P x"
  shows "list_all json_runs vs \<Longrightarrow> list_all P cur \<Longrightarrow> dec_list f cur vs = Some xs \<Longrightarrow> list_all P xs"
proof (induction vs arbitrary: cur)
  case (Cons v vs)
  have "list_all P ys" if "list_all json_runs js" "all_some (map f js) = Some ys" for js ys
    using all_some_Some [OF that(2)] that(1) assms by (fastforce simp: list_all_iff)
  then show ?case using Cons.IH [of "[]"] Cons.IH Cons.prems
    by (cases v) (auto split: option.splits)
qed simp

lemma search_doc_runs:
  assumes "unmarshal dec_search_doc plaintext = Some doc"
  shows "runs_ok 3 (sd_Title doc)" "list_all (runs_ok 3) (sd_Messages doc)"
proof -
  obtain j m where j: "json_parse plaintext = Some j" "struct_members j = Some m" "dec_search_doc m = Some doc"
    using assms by (auto simp: unmarshal_def bind_eq_Some_conv)
  then have m: "list_all (\<lambda>kv. json_runs (snd kv)) m" using json_parse_runs struct_members_runs by blast
  have msg: "runs_ok 3 x" if v: "json_runs v" "dec_search_message v = Some x" for v x
  proof -
    obtain m where m: "struct_members v = Some m" "dec_string [] (field_values ''content'' m) = Some x"
      using v(2) by (auto simp: dec_search_message_def bind_eq_Some_conv)
    show ?thesis using dec_string_runs [OF field_values_runs [OF struct_members_runs [OF v(1) m(1)]] _ m(2)] by simp
  qed
  obtain t ms where d: "dec_string [] (field_values ''title'' m) = Some t"
      "dec_list dec_search_message [] (field_values ''messages'' m) = Some ms" "doc = \<lparr> sd_Title = t, sd_Messages = ms \<rparr>"
    using j(3) by (auto simp: dec_search_doc_def bind_eq_Some_conv)
  show "runs_ok 3 (sd_Title doc)" using dec_string_runs [OF field_values_runs [OF m] _ d(1)] d(3) by simp
  show "list_all (runs_ok 3) (sd_Messages doc)"
    using dec_list_runs [where P = "runs_ok 3", OF msg field_values_runs [OF m] _ d(2)] d(3) by simp
qed

section \<open>Packing ends\<close>

lemma concat_runes [simp]: "concat (runes s) = s"
  by (induction s rule: runes.induct) (auto simp: runes.simps(2) split: option.splits)

lemma TrimSpace_factor: "\<exists>a b. s = a @ TrimSpace s @ b"
proof -
  define r where "r = runes s"
  define u where "u = dropWhile space_rune (rev (dropWhile space_rune (rev r)))"
  let ?d = "dropWhile space_rune (rev r)"
  have "r = rev ?d @ rev (takeWhile space_rune (rev r))" by (metis rev_append rev_rev_ident takeWhile_dropWhile_id)
  moreover have "rev ?d = takeWhile space_rune (rev ?d) @ u" by (simp add: u_def)
  ultimately have "concat r = concat (takeWhile space_rune (rev ?d)) @ concat u @ concat (rev (takeWhile space_rune (rev r)))"
    by (metis append_assoc concat_append)
  moreover have "\<exists>a b. r = a @ rev (dropWhile space_rune (rev (dropWhile space_rune r))) @ b"
    by (metis append_assoc rev_append rev_rev_ident takeWhile_dropWhile_id)
  then obtain a b where "r = a @ rev (dropWhile space_rune (rev (dropWhile space_rune r))) @ b" by blast
  then have "concat r = concat a @ TrimSpace s @ concat b"
    by (metis TrimSpace_def concat_append r_def)
  ultimately show ?thesis by (metis concat_runes r_def)
qed

lemma cut_at_zero: "cut_at s n = 0 \<Longrightarrow> 0 < k \<Longrightarrow> k \<le> n \<Longrightarrow> cont_byte (s ! k)"
  by (induction n) (auto split: if_splits simp: le_Suc_eq)

lemma truncate_progress:
  assumes "short_runs s" "s \<noteq> []" "4 \<le> n"
  shows "truncateUTF8 s n \<noteq> []"
proof (cases "int (length s) \<le> n")
  case False
  have "cut_at s (nat n) \<noteq> 0"
  proof
    assume z: "cut_at s (nat n) = 0"
    have "1 + 3 < length s" using False assms(3) by linarith
    then obtain j where "j \<le> 3" "\<not> cont_byte (s ! (1 + j))" using assms(1) unfolding short_runs_def by blast
    moreover have "1 + j \<le> nat n" using \<open>j \<le> 3\<close> assms(3) by linarith
    ultimately show False using cut_at_zero [OF z, of "1 + j"] by simp
  qed
  then show ?thesis using False assms by (simp add: truncateUTF8_def)
qed (use assms in \<open>simp add: truncateUTF8_def\<close>)

lemma pack_part_total: "pack_inv chunks cur \<Longrightarrow> short_runs part \<Longrightarrow> \<exists>r. pack_part part chunks cur = Some r"
proof (induction part chunks cur rule: pack_part.induct)
  case (1 part chunks cur)
  show ?case
  proof (cases "part = []")
    case False
    show ?thesis
    proof (cases "pack_round part chunks cur")
      case (Again part' chunks' cur')
      have p: "pack_inv chunks' cur'" "\<exists>a. part = a @ part'"
        using pack_round_packs [OF "1.prems"(1), of part] Again by auto
      then have s: "short_runs part'" using "1.prems"(2) short_runs_factor [of _ part' "[]"] by auto
      have "\<not> (cur = [] \<and> part' = part)"
      proof
        assume c: "cur = [] \<and> part' = part"
        define piece where "piece = truncateUTF8 part (int searchChunkChars)"
        have "piece \<noteq> []"
          unfolding piece_def by (rule truncate_progress [OF "1.prems"(2) False]) (simp add: searchChunkChars_def)
        moreover have "pack_round part chunks cur = (if piece = [] then flush_and part chunks []
            else if drop (length piece) part = [] then Packed chunks piece else flush_and (drop (length piece) part) chunks piece)"
          using c by (simp add: pack_round_def piece_def Let_def join_cur_def)
        ultimately have "drop (length piece) part = part"
          using Again c by (auto split: if_splits dest: flush_and_Again)
        then show False using \<open>piece \<noteq> []\<close> False by (metis diff_less length_drop length_greater_0_conv less_irrefl)
      qed
      from "1.IH" [OF False Again this p(1) s] this Again False show ?thesis
        by (auto simp: pack_part.simps [of part])
    qed (use False in \<open>simp_all add: pack_part.simps [of part]\<close>)
  qed (simp add: pack_part.simps)
qed

lemma pack_parts_total: "pack_inv chunks cur \<Longrightarrow> list_all short_runs ps \<Longrightarrow> \<exists>out. pack_parts ps chunks cur = Some out"
proof (induction ps arbitrary: chunks cur)
  case (Cons p ps)
  obtain r where r: "pack_part p chunks cur = Some r" using pack_part_total Cons.prems by fastforce
  show ?case
  proof (cases r)
    case (Inl x)
    obtain ch c where x: "x = (ch, c)" by (cases x)
    have "pack_inv ch c" using pack_part_packs [OF Cons.prems(1) r] Inl x by simp
    then show ?thesis using Cons r Inl x by simp
  qed (use r in simp)
qed simp

text \<open>
  C20. The text of a chat is always cut into chunks: for every plaintext the packing loop ends, with at most
  8 chunks, none empty and none longer than 2000 bytes; up to the line breaks it inserts, the chunks
  are the trimmed title and messages from their beginning, nothing lost, repeated or reordered, and all of
  them unless 8 chunks are full.
\<close>

theorem chunks_exact:
  "\<exists>chunks. chatSearchChunks plaintext = Some chunks \<and> length chunks \<le> MaxChunksPerChat \<and> list_all chunk_ok chunks
     \<and> (case unmarshal dec_search_doc plaintext of
          None \<Rightarrow> chunks = []
        | Some doc \<Rightarrow> \<exists>rest. strip (concat chunks) @ rest = strip (concat (search_parts doc))
                        \<and> (rest = [] \<or> length chunks = MaxChunksPerChat))"
proof (cases "unmarshal dec_search_doc plaintext")
  case (Some doc)
  have inv: "pack_inv [] []" by (simp add: pack_inv_def MaxChunksPerChat_def)
  have "short_runs (TrimSpace s)" if "runs_ok 3 s" for s
    using TrimSpace_factor [of s] short_runs_factor runs_ok_short runs_ok_mono [OF that, of 0] by (metis zero_le)
  then have "list_all short_runs (search_parts doc)"
    using search_doc_runs [OF Some] by (auto simp: search_parts_def list_all_iff)
  from pack_parts_total [OF inv this] obtain out where out: "pack_parts (search_parts doc) [] [] = Some out" by blast
  show ?thesis using pack_parts_packs [OF inv out] out Some
    by (auto simp: chatSearchChunks_def le_less)
qed (simp add: chatSearchChunks_def)

end
