(* ===== verification/Search_Memory.thy ===== *)
theory Search_Memory
  imports Search_Cache Search_Chunks Search_Codec Search_Query Search_Tokens Server_Migrate
begin

text \<open>
  Where the search indices of the users live (\<^verbatim>\<open>server/search_ops.go\<close>): the encrypted objects of the
  search buckets, the published state at the controlplane, and the decoded indices in memory.

  A decoded index is shared by reference between the cache and the operation that loaded it, and the
  operations change it in place. The memory is therefore explicit: indices at addresses, and cache
  entries that hold addresses. The state of an operation is the world outside paired with this memory.
  The per-user locks make the operations run one after the other and need no counterpart.

  A runtime panic is the error \<open>panicked\<close>; \<open>indexCurrentChatForSearch\<close> recovers from it.
\<close>

record search_mem =
  sm_heap :: "nat \<Rightarrow> search_index"
  sm_next :: nat
  sm_cache :: "nat search_cache option"

type_synonym ('s, 'a) sop = "('s \<times> search_mem, 'a) op"

text \<open>
  The dependencies of search: those of the other operations, the second buckets client, and the
  embedding service behind its gate. No lock is held while embeddings are computed, so that call acts
  on the whole state: other requests may have run meanwhile.
\<close>

record ('s, 'f) search_env =
  sv_deps :: "'s deps"
  sv_unicode :: unicode_lib
  sv_floats :: "'f floats"
  sv_buckets_configured :: bool
  sv_Put :: "string \<Rightarrow> string \<Rightarrow> bytes \<Rightarrow> bytes \<Rightarrow> ('s, unit) op"
  sv_GetLimited :: "string \<Rightarrow> string \<Rightarrow> bytes \<Rightarrow> int \<Rightarrow> ('s, bytes) op"
  sv_Delete :: "string \<Rightarrow> string \<Rightarrow> ('s, unit) op"
  sv_embedder_configured :: bool
  sv_Model :: string
  sv_embed :: "string \<Rightarrow> string list \<Rightarrow> bool \<Rightarrow> ('s, 'f list list) sop"

definition searchIndexObjectPrefix :: string where "searchIndexObjectPrefix = ''search-index-v1''"
definition maxIndexDecompressedBytes :: int where "maxIndexDecompressedBytes = 512 * 2 ^ 20"
definition maxIndexStoredBytes :: int where "maxIndexStoredBytes = maxIndexDecompressedBytes + 2 ^ 20"
definition maxSearchPublishRetries :: nat where "maxSearchPublishRetries = 3"

definition searchConfigured :: "('s, 'f) search_env \<Rightarrow> bool" where
  "searchConfigured E \<longleftrightarrow> sv_buckets_configured E \<and> sv_embedder_configured E"

definition searchUnavailable :: go_error where
  "searchUnavailable = EApp (zero_app_error\<lparr>ae_Status := 503, ae_Code := CodeInternal,
                                           ae_Message := ''search backend not configured''\<rparr>)"

definition panicked :: go_error where "panicked = ELib ''runtime''"

section \<open>Running on the two halves of the state\<close>

definition out_op :: "('s, 'a) op \<Rightarrow> ('s, 'a) sop" where
  "out_op m w = (case m (fst w) of (r, s') \<Rightarrow> (r, (s', snd w)))"

definition mem_op :: "(search_mem \<Rightarrow> 'a \<times> search_mem) \<Rightarrow> ('s, 'a) sop" where
  "mem_op f w = (case f (snd w) of (x, m') \<Rightarrow> (Inr x, (fst w, m')))"

definition mem_read :: "nat \<Rightarrow> ('s, search_index) sop" where
  "mem_read a = mem_op (\<lambda>m. (sm_heap m a, m))"

definition mem_write :: "nat \<Rightarrow> search_index \<Rightarrow> ('s, unit) sop" where
  "mem_write a ix = mem_op (\<lambda>m. ((), m\<lparr> sm_heap := (sm_heap m)(a := ix) \<rparr>))"

definition mem_new :: "search_index \<Rightarrow> ('s, nat) sop" where
  "mem_new ix = mem_op (\<lambda>m. (sm_next m, m\<lparr> sm_heap := (sm_heap m)(sm_next m := ix), sm_next := Suc (sm_next m) \<rparr>))"

text \<open>The methods of the cache on a receiver that may be nil.\<close>

definition SearchCache_get :: "string \<Rightarrow> bytes \<Rightarrow> ('s, nat option) sop" where
  "SearchCache_get owner h = mem_op (\<lambda>m. case sm_cache m of
     None \<Rightarrow> (None, m)
   | Some c \<Rightarrow> (case cache_get owner h c of (x, c') \<Rightarrow> (x, m\<lparr> sm_cache := Some c' \<rparr>)))"

definition SearchCache_drop :: "string \<Rightarrow> ('s, unit) sop" where
  "SearchCache_drop owner = mem_op (\<lambda>m. ((), m\<lparr> sm_cache := map_option (cache_drop owner) (sm_cache m) \<rparr>))"

definition SearchCache_put :: "string \<Rightarrow> bytes \<Rightarrow> nat \<Rightarrow> int \<Rightarrow> ('s, unit) sop" where
  "SearchCache_put owner h a sz w =
     (case sm_cache (snd w) of
        None \<Rightarrow> (Inr (), w)
      | Some c \<Rightarrow>
          (case cache_put owner h a sz c of
             None \<Rightarrow> (Inl panicked, w)
           | Some c' \<Rightarrow> (Inr (), (fst w, (snd w)\<lparr> sm_cache := Some c' \<rparr>))))"

section \<open>Loading\<close>

datatype load_state = LoadOK | LoadMissing | LoadUnreadable

definition searchCacheKey :: "bytes \<Rightarrow> string \<Rightarrow> bytes" where
  "searchCacheKey indexKey objectKey = sha256 (indexKey @ [CHR 0x00] @ objectKey)"

definition gunzipIndex :: "gzip_lib \<Rightarrow> bytes \<Rightarrow> bytes result" where
  "gunzipIndex gz compressed =
     (case gz_stream gz compressed of
        None \<Rightarrow> Inl (ELib ''compress/gzip'')
      | Some (out, bad) \<Rightarrow>
          if bad \<and> int (length out) \<le> maxIndexDecompressedBytes then Inl (ELib ''compress/gzip'')
          else if maxIndexDecompressedBytes < int (length out)
          then Inl (ENew ''search index exceeds decompressed size limit'')
          else Inr out)"

definition loaded_new :: "('s, 'f) search_env \<Rightarrow> load_state \<Rightarrow> ('s, nat \<times> load_state) sop" where
  "loaded_new E st = op_bind (mem_new (index_New (sv_Model E))) (\<lambda>a. op_ret (a, st))"

text \<open>What is made of a stored object: the decoded index, or an empty one.\<close>

definition load_stored ::
  "('s, 'f) search_env \<Rightarrow> string \<Rightarrow> bytes \<Rightarrow> bytes \<Rightarrow> ('s, nat \<times> load_state) sop" where
  "load_stored E owner keyHash raw =
     (let D = sv_deps E in
      case gunzipIndex (dp_gz D) raw of
        Inl _ \<Rightarrow> loaded_new E LoadUnreadable
      | Inr encoded \<Rightarrow>
          (case index_Decode (net_time (dp_net D)) encoded of
             None \<Rightarrow> op_err panicked
           | Some (Inl _) \<Rightarrow> loaded_new E LoadUnreadable
           | Some (Inr ix) \<Rightarrow>
               if \<not> Compatible ix (sv_Model E) then loaded_new E LoadUnreadable
               else op_bind (mem_new ix) (\<lambda>a.
                    op_bind (SearchCache_put owner keyHash a (int (length encoded))) (\<lambda>_.
                    op_ret (a, LoadOK)))))"

definition load_fetch ::
  "('s, 'f) search_env \<Rightarrow> string \<Rightarrow> string \<Rightarrow> bytes \<Rightarrow> ('s, nat \<times> load_state) sop" where
  "load_fetch E owner objectKey indexKey =
     op_try (out_op (sv_GetLimited E owner objectKey indexKey maxIndexStoredBytes)) (\<lambda>r.
       case r of
         Inl err \<Rightarrow>
           if errors_is ErrBucketNotFound err then loaded_new E LoadMissing
           else if errors_is ErrBucketForbidden err \<or> errors_is ErrBucketTooLarge err then loaded_new E LoadUnreadable
           else op_err err
       | Inr raw \<Rightarrow> load_stored E owner (searchCacheKey indexKey objectKey) raw)"

definition loadSearchIndex ::
  "('s, 'f) search_env \<Rightarrow> string \<Rightarrow> string \<Rightarrow> bytes \<Rightarrow> ('s, nat \<times> load_state) sop" where
  "loadSearchIndex E owner objectKey indexKey =
     (if objectKey = [] then loaded_new E LoadMissing
      else op_bind (SearchCache_get owner (searchCacheKey indexKey objectKey)) (\<lambda>hit.
        case hit of
          None \<Rightarrow> load_fetch E owner objectKey indexKey
        | Some a \<Rightarrow> op_bind (mem_read a) (\<lambda>ix.
            if Compatible ix (sv_Model E) then op_ret (a, LoadOK)
            else op_bind (SearchCache_drop owner) (\<lambda>_. load_fetch E owner objectKey indexKey))))"

section \<open>Publishing\<close>

definition newSearchIndexObjectKey :: "'s deps \<Rightarrow> int \<Rightarrow> ('s, string) op" where
  "newSearchIndexObjectKey D fence = with_entropy D (\<lambda>ent.
     of_option (ELib ''crypto/rand'') (map_option (\<lambda>(suffix, ent').
       (searchIndexObjectPrefix @ ''-'' @ itoa fence @ ''-'' @ hex_encode suffix, ent')) (rand_read 16 ent)))"

definition saveSearchIndex ::
  "('s, 'f) search_env \<Rightarrow> string \<Rightarrow> string \<Rightarrow> bytes \<Rightarrow> nat \<Rightarrow> ('s, unit) sop" where
  "saveSearchIndex E owner objectKey indexKey a =
     op_bind (mem_read a) (\<lambda>ix.
     let encoded = index_Encode ix in
     op_try (out_op (sv_Put E owner objectKey (gz_compress (dp_gz (sv_deps E)) encoded) indexKey)) (\<lambda>r.
       case r of
         Inl err \<Rightarrow> op_bind (SearchCache_drop owner) (\<lambda>_. op_err err)
       | Inr _ \<Rightarrow> SearchCache_put owner (searchCacheKey indexKey objectKey) a (int (length encoded))))"

definition deleteSearchObjectBestEffort :: "('s, 'f) search_env \<Rightarrow> string \<Rightarrow> string \<Rightarrow> ('s, unit) sop" where
  "deleteSearchObjectBestEffort E owner objectKey =
     (if objectKey = [] then op_ret () else op_ignore (out_op (sv_Delete E owner objectKey)))"

text \<open>\<^verbatim>\<open>errors.As\<close> for the conflict of a publication; only \<open>PublishSearchIndex\<close> makes one, unwrapped.\<close>

definition is_search_conflict :: "go_error \<Rightarrow> bool" where
  "is_search_conflict err \<longleftrightarrow> (case err of ESearchConflict _ \<Rightarrow> True | _ \<Rightarrow> False)"

definition publish_request ::
  "('s, 'f) search_env \<Rightarrow> session \<Rightarrow> search_index_state \<Rightarrow> string \<Rightarrow> string \<Rightarrow> int \<Rightarrow> bool \<Rightarrow> publish_search_index_request" where
  "publish_request E sess state objectKey keyID covered incomplete =
     \<lparr> ps_JWT = se_RawJWT sess, ps_ClerkUserID = se_Subject sess,
       ps_ExpectedGeneration = sis_PublicationGeneration state, ps_ExpectedFence = sis_FenceGeneration state,
       ps_CoveredSourceRevision = covered, ps_ObjectKey = objectKey, ps_KeyID = keyID, ps_Model = sv_Model E,
       ps_Incomplete = incomplete \<rparr>"

definition get_state :: "('s, 'f) search_env \<Rightarrow> session \<Rightarrow> ('s, search_index_state) sop" where
  "get_state E sess = out_op (GetSearchIndexState (dp_cp (sv_deps E)) (dp_net (sv_deps E)) (se_RawJWT sess) (se_Subject sess))"

text \<open>A failed publication: a conflict is definite, anything else is looked up again.\<close>

definition publish_failed ::
  "('s, 'f) search_env \<Rightarrow> session \<Rightarrow> search_index_state \<Rightarrow> string \<Rightarrow> go_error \<Rightarrow> ('s, search_index_state) sop" where
  "publish_failed E sess state objectKey err =
     op_bind (SearchCache_drop (se_Subject sess)) (\<lambda>_.
       if is_search_conflict err
       then op_bind (deleteSearchObjectBestEffort E (se_Subject sess) objectKey) (\<lambda>_. op_err err)
       else op_try (get_state E sess) (\<lambda>r.
         case r of
           Inl _ \<Rightarrow> op_err err
         | Inr current \<Rightarrow>
             if sis_ObjectKey current = objectKey
             then op_bind (deleteSearchObjectBestEffort E (se_Subject sess) (sis_ObjectKey state)) (\<lambda>_. op_ret current)
             else op_bind (deleteSearchObjectBestEffort E (se_Subject sess) objectKey) (\<lambda>_. op_err err)))"

definition publishSearchIndex ::
  "('s, 'f) search_env \<Rightarrow> session \<Rightarrow> search_index_state \<Rightarrow> bytes \<Rightarrow> string \<Rightarrow> int \<Rightarrow> bool \<Rightarrow> nat \<Rightarrow> ('s, search_index_state) sop"
  where
  "publishSearchIndex E sess state indexKey keyID covered incomplete a =
     op_bind (out_op (newSearchIndexObjectKey (sv_deps E) (sis_FenceGeneration state))) (\<lambda>objectKey.
     op_bind (saveSearchIndex E (se_Subject sess) objectKey indexKey a) (\<lambda>_.
     op_try (out_op (PublishSearchIndex (dp_cp (sv_deps E)) (dp_net (sv_deps E))
                       (publish_request E sess state objectKey keyID covered incomplete))) (\<lambda>r.
       case r of
         Inl err \<Rightarrow> publish_failed E sess state objectKey err
       | Inr published \<Rightarrow>
           op_bind (deleteSearchObjectBestEffort E (se_Subject sess) (sis_ObjectKey state)) (\<lambda>_. op_ret published))))"

text \<open>Publishing as the loops do it: \<open>None\<close> asks for another attempt after a conflict.\<close>

definition publish_or_retry ::
  "('s, 'f) search_env \<Rightarrow> session \<Rightarrow> search_index_state \<Rightarrow> bytes \<Rightarrow> string \<Rightarrow> int \<Rightarrow> bool \<Rightarrow> nat \<Rightarrow> 'a \<Rightarrow> ('s, 'a option) sop"
  where
  "publish_or_retry E sess state indexKey keyID covered incomplete a x =
     op_try (publishSearchIndex E sess state indexKey keyID covered incomplete a) (\<lambda>r.
       case r of
         Inr _ \<Rightarrow> op_ret (Some x)
       | Inl err \<Rightarrow> if is_search_conflict err then op_ret None else op_err err)"

fun retry_publish :: "nat \<Rightarrow> string \<Rightarrow> ('w, 'a option) op \<Rightarrow> ('w, 'a) op" where
  "retry_publish 0 exhausted attempt = op_err (ENew exhausted)"
| "retry_publish (Suc n) exhausted attempt =
     op_bind attempt (\<lambda>r. case r of Some x \<Rightarrow> op_ret x | None \<Rightarrow> retry_publish n exhausted attempt)"

section \<open>Keys of a request\<close>

text \<open>The key id and the index key of a key: some operations derive the id first, some the index key.\<close>

definition search_keys :: "hkdf \<Rightarrow> bytes \<Rightarrow> (string \<times> bytes) result" where
  "search_keys H cek =
     rbind (DeriveKeyID H cek) (\<lambda>kid. rbind (DeriveSearchIndexKey H cek) (\<lambda>ik. Inr (KeyIDHex kid, ik)))"

definition index_keys :: "hkdf \<Rightarrow> bytes \<Rightarrow> (string \<times> bytes) result" where
  "index_keys H cek =
     rbind (DeriveSearchIndexKey H cek) (\<lambda>ik. rbind (DeriveKeyID H cek) (\<lambda>kid. Inr (KeyIDHex kid, ik)))"

definition request_keys :: "('s, 'f) search_env \<Rightarrow> string \<Rightarrow> ('s, string \<times> bytes) sop" where
  "request_keys E key64 =
     op_bind (op_lift (requestKey ''invalid key: '' key64)) (\<lambda>cek. op_lift (search_keys (dp_hkdf (sv_deps E)) cek))"

end
