(* ===== verification/Search_Upkeep.thy ===== *)
theory Search_Upkeep
  imports Search_Memory
begin

text \<open>
  The request-time operations of \<^verbatim>\<open>server/search_ops.go\<close>: indexing a chat after a push, removing a
  deleted one, and the query. The rebuild is in \<^verbatim>\<open>Search_Reindex\<close>.
\<close>

section \<open>Embedding\<close>

definition searchEmbedBatch :: nat where "searchEmbedBatch = 32"
definition searchDocPrefix :: string where "searchDocPrefix = ''search_document: ''"
definition searchQueryPrefix :: string where "searchQueryPrefix = ''search_query: ''"

function embedChunks ::
  "('s, 'f) search_env \<Rightarrow> string \<Rightarrow> string \<Rightarrow> string list \<Rightarrow> bool \<Rightarrow> ('s, 'f list list) sop" where
  "embedChunks E owner pre chunks wait =
     (if chunks = [] then op_ret []
      else op_bind (sv_embed E owner (map (\<lambda>c. pre @ c) (take searchEmbedBatch chunks)) wait) (\<lambda>vecs.
           op_bind (embedChunks E owner pre (drop searchEmbedBatch chunks) wait) (\<lambda>rest.
           op_ret (vecs @ rest))))"
  by pat_completeness auto
termination by (relation "measure (\<lambda>(E, owner, pre, chunks, wait). length chunks)") (auto simp: searchEmbedBatch_def)

declare embedChunks.simps [simp del]

definition quantizeAll :: "('s, 'f) search_env \<Rightarrow> 'f list list \<Rightarrow> vector list" where
  "quantizeAll E vecs = map (Quantize (sv_floats E)) vecs"

section \<open>Which write is newer\<close>

definition searchEntryTime :: "time_lib \<Rightarrow> search_entry \<Rightarrow> gtime" where
  "searchEntryTime T e = (case tm_parse T (en_UpdatedAt e) of None \<Rightarrow> zero_time | Some t \<Rightarrow> t)"

definition searchEtagGeneration :: "string \<Rightarrow> int option" where
  "searchEtagGeneration etag = parse_int64 etag"

definition searchEntrySupersedes :: "time_lib \<Rightarrow> search_entry \<Rightarrow> string \<Rightarrow> int \<Rightarrow> gtime \<Rightarrow> bool" where
  "searchEntrySupersedes T existing etag sourceRevision committedAt =
     (if 0 < en_SourceRevision existing \<and> 0 < sourceRevision then sourceRevision < en_SourceRevision existing
      else case (searchEtagGeneration (en_ETag existing), searchEtagGeneration etag) of
             (Some eg, Some cg) \<Rightarrow> cg < eg
           | _ \<Rightarrow> committedAt < searchEntryTime T existing)"

datatype snapshot_state = SnapshotCurrent | SnapshotStale | SnapshotDeleted

definition snapshot_of :: "string \<Rightarrow> string \<Rightarrow> snapshot_state" where
  "snapshot_of live etag = (if live \<noteq> etag then SnapshotStale else SnapshotCurrent)"

definition is_not_found :: "go_error \<Rightarrow> bool" where
  "is_not_found err \<longleftrightarrow> (case errors_as_cp err of None \<Rightarrow> False | Some c \<Rightarrow> cpe_StatusCode c = 404)"

definition searchChatSnapshotState :: "'s deps \<Rightarrow> session \<Rightarrow> string \<Rightarrow> string \<Rightarrow> ('s, snapshot_state) op" where
  "searchChatSnapshotState D sess chatID etag =
     op_try (HeadBlob (dp_cp D) (dp_net D) ScopeChat chatID (se_RawJWT sess) (se_Subject sess)) (\<lambda>r.
       case r of
         Inr (_, live, _) \<Rightarrow> op_ret (snapshot_of live etag)
       | Inl _ \<Rightarrow>
           op_try (GetBlob (dp_cp D) (dp_net D) ScopeChat chatID (se_RawJWT sess) (se_Subject sess)) (\<lambda>g.
             case g of
               Inl gerr \<Rightarrow> if is_not_found gerr then op_ret SnapshotDeleted else op_err gerr
             | Inr blob \<Rightarrow> op_ret (snapshot_of (gr_ETag blob) etag)))"

section \<open>Changing an index in place\<close>

text \<open>A panic of \<open>Upsert\<close> or \<open>Remove\<close> leaves the index as it was before the call.\<close>

definition mem_Upsert :: "nat \<Rightarrow> string \<Rightarrow> search_entry \<Rightarrow> string list \<Rightarrow> ('s, unit) sop" where
  "mem_Upsert a i e tokens =
     op_bind (mem_read a) (\<lambda>ix.
       case Upsert i e tokens ix of
         None \<Rightarrow> op_err panicked
       | Some (r, ix') \<Rightarrow> op_bind (mem_write a ix') (\<lambda>_. op_lift r))"

definition mem_Remove :: "nat \<Rightarrow> string \<Rightarrow> ('s, unit) sop" where
  "mem_Remove a i =
     op_bind (mem_read a) (\<lambda>ix.
       case index_Remove i ix of None \<Rightarrow> op_err panicked | Some ix' \<Rightarrow> mem_write a ix')"

definition mem_set_incomplete :: "nat \<Rightarrow> bool \<Rightarrow> ('s, unit) sop" where
  "mem_set_incomplete a b = op_bind (mem_read a) (\<lambda>ix. mem_write a (ix\<lparr> ix_Incomplete := b \<rparr>))"

definition mem_entry :: "nat \<Rightarrow> string \<Rightarrow> ('s, search_entry option) sop" where
  "mem_entry a i = op_bind (mem_read a) (\<lambda>ix. op_ret (map_of (ix_Chats ix) i))"

section \<open>Indexing a chat\<close>

text \<open>What a write may cover: the next source revision on top of a complete, readable publication.\<close>

definition coverage_after :: "search_index_state \<Rightarrow> load_state \<Rightarrow> int \<Rightarrow> int \<times> bool" where
  "coverage_after publication st sourceRevision =
     (if sourceRevision = sis_PublishedSourceRevision publication + 1 \<and> \<not> sis_PublicationIncomplete publication
         \<and> (sis_ObjectKey publication = [] \<or> st = LoadOK)
      then (sourceRevision, False) else (sis_PublishedSourceRevision publication, True))"

text \<open>The object to build on: none when the published one is of another key or model.\<close>

definition object_to_update :: "('s, 'f) search_env \<Rightarrow> string \<Rightarrow> search_index_state \<Rightarrow> string" where
  "object_to_update E keyID publication =
     (if sis_KeyID publication \<noteq> [] \<and> (sis_KeyID publication \<noteq> keyID \<or> sis_Model publication \<noteq> sv_Model E)
      then [] else sis_ObjectKey publication)"

text \<open>A hook sees the loaded index and says whether to go on and whether it changed the index.\<close>

type_synonym 's write_hook = "nat \<Rightarrow> load_state \<Rightarrow> search_index_state \<Rightarrow> ('s, bool \<times> bool) sop"

definition index_entry ::
  "('s, 'f) search_env \<Rightarrow> string \<Rightarrow> string \<Rightarrow> string list \<Rightarrow> string \<Rightarrow> gtime \<Rightarrow> int \<Rightarrow> ('s, search_entry) sop" where
  "index_entry E owner keyID chunks etag committedAt sourceRevision =
     (let T = net_time (dp_net (sv_deps E));
          pending = \<lparr> en_Slot = 0, en_ETag = etag, en_SourceRevision = sourceRevision, en_UpdatedAt = tm_format T committedAt,
                      en_Vectors = [], en_EmbeddingPending = True, en_EmbeddingKeyID = keyID \<rparr>;
          plain = pending\<lparr> en_EmbeddingPending := False, en_EmbeddingKeyID := [] \<rparr>
      in if chunks = [] then op_ret plain
         else op_try (embedChunks E owner searchDocPrefix chunks False) (\<lambda>r.
           case r of
             Inl _ \<Rightarrow> op_ret pending
           | Inr vecs \<Rightarrow> op_ret (plain\<lparr> en_Vectors := quantizeAll E vecs \<rparr>)))"

definition index_merge ::
  "('s, 'f) search_env \<Rightarrow> session \<Rightarrow> bytes \<Rightarrow> string \<Rightarrow> string \<Rightarrow> search_entry \<Rightarrow> string list \<Rightarrow> string \<Rightarrow> gtime \<Rightarrow> int \<Rightarrow>
   search_index_state \<Rightarrow> nat \<Rightarrow> load_state \<Rightarrow> ('s, unit option) sop" where
  "index_merge E sess indexKey keyID chatID entry tokens etag committedAt sourceRevision publication a st =
     op_bind (mem_entry a chatID) (\<lambda>old.
       if (case old of None \<Rightarrow> False
           | Some e \<Rightarrow> searchEntrySupersedes (net_time (dp_net (sv_deps E))) e etag sourceRevision committedAt
                       \<or> en_SourceRevision e = sourceRevision \<and> en_ETag e = etag)
       then op_ret (Some ())
       else op_bind (mem_Upsert a chatID entry tokens) (\<lambda>_.
            case coverage_after publication st sourceRevision of (covered, incomplete) \<Rightarrow>
            op_bind (mem_set_incomplete a incomplete) (\<lambda>_.
            publish_or_retry E sess publication indexKey keyID covered incomplete a ())))"

definition index_attempt ::
  "('s, 'f) search_env \<Rightarrow> session \<Rightarrow> bytes \<Rightarrow> string \<Rightarrow> string \<Rightarrow> search_entry \<Rightarrow> string list \<Rightarrow> string \<Rightarrow> gtime \<Rightarrow> int \<Rightarrow>
   's write_hook option \<Rightarrow> ('s, unit option) sop" where
  "index_attempt E sess indexKey keyID chatID entry tokens etag committedAt sourceRevision hook =
     op_bind (get_state E sess) (\<lambda>publication.
     let objectKey = object_to_update E keyID publication in
     op_bind (loadSearchIndex E (se_Subject sess) objectKey indexKey) (\<lambda>(a, st0).
     let st = (if sis_ObjectKey publication \<noteq> [] \<and> objectKey = [] then LoadUnreadable else st0);
         merge = index_merge E sess indexKey keyID chatID entry tokens etag committedAt sourceRevision publication a st in
     case hook of
       None \<Rightarrow> merge
     | Some h \<Rightarrow> op_bind (h a st publication) (\<lambda>(cont, mutated).
         if cont then merge
         else if \<not> mutated then op_ret (Some ())
         else op_bind (mem_set_incomplete a True) (\<lambda>_.
              publish_or_retry E sess publication indexKey keyID (sis_PublishedSourceRevision publication) True a ()))))"

definition join_chunks :: "string list \<Rightarrow> string" where
  "join_chunks cs = (case cs of [] \<Rightarrow> [] | c # r \<Rightarrow> c @ concat (map (\<lambda>x. CHR 0x0A # x) r))"

definition indexChatForSearchWithHook ::
  "('s, 'f) search_env \<Rightarrow> session \<Rightarrow> bytes \<Rightarrow> string \<Rightarrow> bytes \<Rightarrow> string \<Rightarrow> gtime \<Rightarrow> int \<Rightarrow> 's write_hook option \<Rightarrow> ('s, unit) sop"
  where
  "indexChatForSearchWithHook E sess cek chatID plaintext etag committedAt sourceRevision hook =
     op_bind (op_lift (index_keys (dp_hkdf (sv_deps E)) cek)) (\<lambda>(keyID, indexKey).
     case chatSearchChunks plaintext of
       None \<Rightarrow> op_err panicked
     | Some chunks \<Rightarrow>
         op_bind (index_entry E (se_Subject sess) keyID chunks etag committedAt sourceRevision) (\<lambda>entry.
         retry_publish maxSearchPublishRetries ''search index publication retries exhausted''
           (index_attempt E sess indexKey keyID chatID entry (Tokenize (sv_unicode E) (join_chunks chunks)) etag
              committedAt sourceRevision hook)))"

text \<open>The hook of a push: whether the chat is still the one that was pushed.\<close>

definition current_hook :: "('s, 'f) search_env \<Rightarrow> session \<Rightarrow> string \<Rightarrow> string \<Rightarrow> int \<Rightarrow> 's write_hook" where
  "current_hook E sess chatID etag sourceRevision a st publication =
     (if 0 < sourceRevision \<and> sis_SourceRevision publication = sourceRevision then op_ret (True, False)
      else op_bind (out_op (searchChatSnapshotState (sv_deps E) sess chatID etag)) (\<lambda>snap.
        case snap of
          SnapshotCurrent \<Rightarrow> op_ret (True, False)
        | SnapshotStale \<Rightarrow> op_ret (False, False)
        | SnapshotDeleted \<Rightarrow>
            op_bind (mem_entry a chatID) (\<lambda>old.
              if old = None then op_ret (False, False)
              else op_bind (mem_Remove a chatID) (\<lambda>_. op_ret (False, True)))))"

definition errSearchIndexPanic :: go_error where "errSearchIndexPanic = ENew ''search index update panicked''"

definition indexCurrentChatForSearch ::
  "('s, 'f) search_env \<Rightarrow> session \<Rightarrow> bytes \<Rightarrow> string \<Rightarrow> bytes \<Rightarrow> string \<Rightarrow> gtime \<Rightarrow> int \<Rightarrow> ('s, unit) sop" where
  "indexCurrentChatForSearch E sess cek chatID plaintext etag committedAt sourceRevision =
     op_try (indexChatForSearchWithHook E sess cek chatID plaintext etag committedAt sourceRevision
               (Some (current_hook E sess chatID etag sourceRevision))) (\<lambda>r.
       case r of
         Inl err \<Rightarrow> op_err (if err = panicked then errSearchIndexPanic else err)
       | Inr x \<Rightarrow> op_ret x)"

definition indexChatForSearch ::
  "('s, 'f) search_env \<Rightarrow> string \<Rightarrow> bytes \<Rightarrow> string \<Rightarrow> bytes \<Rightarrow> string \<Rightarrow> gtime \<Rightarrow> ('s, unit) sop" where
  "indexChatForSearch E owner cek chatID plaintext etag committedAt =
     indexChatForSearchWithHook E \<lparr> se_RawJWT = [], se_Subject = owner \<rparr> cek chatID plaintext etag committedAt 0 None"

section \<open>Removing a deleted chat\<close>

definition remove_attempt ::
  "('s, 'f) search_env \<Rightarrow> session \<Rightarrow> bytes \<Rightarrow> string \<Rightarrow> string \<Rightarrow> int \<Rightarrow> ('s, unit option) sop" where
  "remove_attempt E sess indexKey keyID chatID sourceRevision =
     op_bind (get_state E sess) (\<lambda>publication.
     op_bind (loadSearchIndex E (se_Subject sess) (object_to_update E keyID publication) indexKey) (\<lambda>(a, st).
     op_bind (mem_entry a chatID) (\<lambda>old.
       if old = None \<and> st = LoadOK then op_ret (Some ())
       else op_bind (mem_Remove a chatID) (\<lambda>_.
            case coverage_after publication st sourceRevision of (covered, incomplete) \<Rightarrow>
            op_bind (mem_set_incomplete a incomplete) (\<lambda>_.
            publish_or_retry E sess publication indexKey keyID covered incomplete a ())))))"

definition removeDeletedChatFromSearch ::
  "('s, 'f) search_env \<Rightarrow> session \<Rightarrow> bytes \<Rightarrow> string \<Rightarrow> int \<Rightarrow> ('s, unit) sop" where
  "removeDeletedChatFromSearch E sess cek chatID sourceRevision =
     op_bind (op_lift (index_keys (dp_hkdf (sv_deps E)) cek)) (\<lambda>(keyID, indexKey).
     op_try (out_op (GetBlob (dp_cp (sv_deps E)) (dp_net (sv_deps E)) ScopeChat chatID (se_RawJWT sess) (se_Subject sess))) (\<lambda>r.
       case r of
         Inr _ \<Rightarrow> op_ret ()
       | Inl err \<Rightarrow>
           if is_not_found err
           then retry_publish maxSearchPublishRetries ''search index delete publication retries exhausted''
                  (remove_attempt E sess indexKey keyID chatID sourceRevision)
           else op_err err))"

text \<open>After a reset of the user's data; the reindex job has been cancelled before.\<close>

definition resetSearchForUser :: "('s, 'f) search_env \<Rightarrow> string \<Rightarrow> string \<Rightarrow> ('s, unit) sop" where
  "resetSearchForUser E owner oldObjectKey =
     op_bind (SearchCache_drop owner) (\<lambda>_. deleteSearchObjectBestEffort E owner oldObjectKey)"

section \<open>Queries\<close>

record search_query_request =
  qr_Key :: string
  qr_Query :: string
  qr_Limit :: int

record 'f search_query_response =
  qs_Results :: "(string \<times> 'f) list"
  qs_TotalIndexed :: nat
  qs_NeedsReindex :: bool
  qs_repairEmbeddings :: bool

definition maxSearchQueryChars :: nat where "maxSearchQueryChars = 1000"
definition defaultSearchLimit :: int where "defaultSearchLimit = 20"
definition maxSearchLimit :: int where "maxSearchLimit = 100"

text \<open>One look at the published state and the index it selects.\<close>

definition key_mismatch :: "('s, 'f) search_env \<Rightarrow> string \<Rightarrow> search_index_state \<Rightarrow> bool" where
  "key_mismatch E keyID publication \<longleftrightarrow>
     sis_ObjectKey publication \<noteq> [] \<and> (sis_KeyID publication \<noteq> keyID \<or> sis_Model publication \<noteq> sv_Model E)"

definition query_load ::
  "('s, 'f) search_env \<Rightarrow> session \<Rightarrow> string \<Rightarrow> bytes \<Rightarrow> ('s, search_index_state \<times> search_index \<times> load_state) sop" where
  "query_load E sess keyID indexKey =
     op_bind (get_state E sess) (\<lambda>publication.
     op_bind (loadSearchIndex E (se_Subject sess)
                (if key_mismatch E keyID publication then [] else sis_ObjectKey publication) indexKey) (\<lambda>(a, st).
     op_bind (mem_read a) (\<lambda>ix. op_ret (publication, ix, st))))"

definition needs_reindex :: "('s, 'f) search_env \<Rightarrow> string \<Rightarrow> search_index_state \<Rightarrow> search_index \<Rightarrow> load_state \<Rightarrow> bool" where
  "needs_reindex E keyID publication ix st \<longleftrightarrow>
     sis_Incomplete publication \<or> key_mismatch E keyID publication \<or> ix_Incomplete ix
     \<or> sis_ObjectKey publication \<noteq> [] \<and> st \<noteq> LoadOK \<or> sis_ObjectKey publication = [] \<and> 0 < sis_SourceRevision publication"

text \<open>The embedding of the query; without one the search goes on by keywords, unless the request is over.\<close>

definition query_vector :: "('s, 'f) search_env \<Rightarrow> session \<Rightarrow> string \<Rightarrow> ('s, 'f list) sop" where
  "query_vector E sess query =
     op_try (sv_embed E (se_Subject sess) [searchQueryPrefix @ query] False) (\<lambda>r w.
       case r of
         Inl _ \<Rightarrow> if net_ctx_err (dp_net (sv_deps E)) (fst w) then (Inl ECtx, w) else (Inr [], w)
       | Inr vecs \<Rightarrow> (case vecs of [] \<Rightarrow> (Inl panicked, w) | v # _ \<Rightarrow> (Inr v, w)))"

definition search_answer ::
  "('s, 'f) search_env \<Rightarrow> string \<Rightarrow> string \<Rightarrow> int \<Rightarrow> 'f list \<Rightarrow> search_index_state \<Rightarrow> search_index \<Rightarrow> load_state \<Rightarrow>
   'f search_query_response result" where
  "search_answer E keyID query limit v publication ix st =
     (case Search (sv_floats E) ix v (Tokenize (sv_unicode E) query) limit of
        None \<Rightarrow> Inl panicked
      | Some results \<Rightarrow>
          let needs = needs_reindex E keyID publication ix st in
          Inr \<lparr> qs_Results = results, qs_TotalIndexed = length (ix_Chats ix), qs_NeedsReindex = needs,
                qs_repairEmbeddings = (v \<noteq> [] \<and> \<not> needs \<and> NeedsEmbeddingRepairFor ix keyID) \<rparr>)"

definition SearchQuery ::
  "('s, 'f) search_env \<Rightarrow> session \<Rightarrow> search_query_request \<Rightarrow> ('s, 'f search_query_response) sop" where
  "SearchQuery E sess req =
     (let query = TrimSpace (qr_Query req);
          limit = (if qr_Limit req \<le> 0 \<or> maxSearchLimit < qr_Limit req then defaultSearchLimit else qr_Limit req) in
      if \<not> searchConfigured E then op_err searchUnavailable
      else if query = [] then op_err (badRequest ''query is required'')
      else if maxSearchQueryChars < length query then op_err (badRequest ''query is too long'')
      else op_bind (request_keys E (qr_Key req)) (\<lambda>(keyID, indexKey).
        op_bind (query_load E sess keyID indexKey) (\<lambda>(publication, ix, st).
        if ix_Chats ix = []
        then op_ret \<lparr> qs_Results = [], qs_TotalIndexed = 0, qs_NeedsReindex = needs_reindex E keyID publication ix st,
                      qs_repairEmbeddings = False \<rparr>
        else op_bind (query_vector E sess query) (\<lambda>v.
             op_bind (query_load E sess keyID indexKey) (\<lambda>(publication', ix', st').
             op_lift (search_answer E keyID query limit v publication' ix' st'))))))"

section \<open>Whether an index needs repair\<close>

definition repair_needed :: "bool \<Rightarrow> string \<Rightarrow> search_index_state \<Rightarrow> search_index \<Rightarrow> load_state \<Rightarrow> bool" where
  "repair_needed embeddingOnly keyID state ix st \<longleftrightarrow>
     st \<noteq> LoadOK \<or> ix_Incomplete ix \<or> sis_Incomplete state
     \<or> (if embeddingOnly then NeedsEmbeddingRepairFor ix keyID else NeedsEmbeddingRepair ix)"

definition searchIndexNeedsRepair :: "('s, 'f) search_env \<Rightarrow> session \<Rightarrow> string \<Rightarrow> bool \<Rightarrow> ('s, bool) sop" where
  "searchIndexNeedsRepair E sess key64 embeddingOnly =
     op_bind (request_keys E key64) (\<lambda>(keyID, indexKey).
     op_bind (get_state E sess) (\<lambda>state.
       if sis_ObjectKey state = [] then op_ret (sis_Incomplete state \<or> 0 < sis_SourceRevision state)
       else if sis_KeyID state \<noteq> keyID \<or> sis_Model state \<noteq> sv_Model E then op_ret True
       else op_bind (SearchCache_drop (se_Subject sess)) (\<lambda>_.
            op_bind (loadSearchIndex E (se_Subject sess) (sis_ObjectKey state) indexKey) (\<lambda>(a, st).
            op_bind (mem_read a) (\<lambda>ix. op_ret (repair_needed embeddingOnly keyID state ix st))))))"

end
