(* ===== verification/Search_Reindex.thy ===== *)
theory Search_Reindex
  imports Search_Upkeep
begin

text \<open>
  Rebuilding an index: one page of \<^verbatim>\<open>searchReindexPage\<close> and the repair of missing embeddings in
  \<^verbatim>\<open>server/search_ops.go\<close>, and the two runners in \<^verbatim>\<open>server/search_reindex_job.go\<close>. What a runner
  tells its job is returned as a list of events, in order.
\<close>

definition reindexPageSize :: nat where "reindexPageSize = 16"

record reindex_page_result =
  rg_Indexed :: int
  rg_Failed :: int
  rg_EmbeddingFailed :: bool
  rg_NextCursor :: string
  rg_Done :: bool
  rg_Partial :: bool
  rg_TotalIndexed :: nat
  rg_ResumeStartedAt :: gtime
  rg_ResumeTargetSourceRevision :: int

definition zero_page :: reindex_page_result where
  "zero_page = \<lparr> rg_Indexed = 0, rg_Failed = 0, rg_EmbeddingFailed = False, rg_NextCursor = [], rg_Done = False,
     rg_Partial = False, rg_TotalIndexed = 0, rg_ResumeStartedAt = zero_time, rg_ResumeTargetSourceRevision = 0 \<rparr>"

section \<open>The chats of a page\<close>

record page_chat =
  pc_id :: string
  pc_etag :: string
  pc_keyID :: string
  pc_chunks :: "string list"

text \<open>Cutting always ends (\<open>chunks_exact\<close>).\<close>

definition chunks_of :: "bytes \<Rightarrow> string list" where
  "chunks_of pt = (case chatSearchChunks pt of Some c \<Rightarrow> c | None \<Rightarrow> [])"

definition page_chat_of :: "pull_item \<Rightarrow> page_chat option" where
  "page_chat_of item =
     (if \<not> pi_OK item then None
      else map_option (\<lambda>pt. \<lparr> pc_id = pi_ID item, pc_etag = pi_ETag item, pc_keyID = pi_KeyID item, pc_chunks = chunks_of pt \<rparr>)
             (std_decode (pi_Plaintext item)))"

definition page_chats :: "pull_item list \<Rightarrow> page_chat list" where
  "page_chats items = List.map_filter page_chat_of items"

definition page_failures :: "pull_item list \<Rightarrow> int" where
  "page_failures items = int (length (filter (\<lambda>i. page_chat_of i = None) items))"

definition page_texts :: "page_chat list \<Rightarrow> string list" where
  "page_texts page = concat (map pc_chunks page)"

text \<open>
  The embeddings of the texts \<open>i\<close> to \<open>i + n\<close>. The slice has capacity for all texts: one that the service left out
  reads as an empty embedding.
\<close>

definition vector_slice :: "nat \<Rightarrow> nat \<Rightarrow> 'f list list \<Rightarrow> 'f list list" where
  "vector_slice i n vs = map (\<lambda>k. if k < length vs then vs ! k else []) [i ..< i + n]"

section \<open>One page\<close>

text \<open>What the first page removes: the entries from before the rebuild.\<close>

definition stale_entry :: "time_lib \<Rightarrow> int \<Rightarrow> gtime \<Rightarrow> search_entry \<Rightarrow> bool" where
  "stale_entry T target startedAt e \<longleftrightarrow>
     (if 0 < en_SourceRevision e then en_SourceRevision e \<le> target else searchEntryTime T e < startedAt)"

definition stale_ids :: "time_lib \<Rightarrow> int \<Rightarrow> gtime \<Rightarrow> search_index \<Rightarrow> string list" where
  "stale_ids T target startedAt ix = map fst (filter (\<lambda>(i, e). stale_entry T target startedAt e) (ix_Chats ix))"

fun remove_all :: "nat \<Rightarrow> string list \<Rightarrow> ('s, unit) sop" where
  "remove_all a [] = op_ret ()"
| "remove_all a (i # ids) = op_bind (mem_Remove a i) (\<lambda>_. remove_all a ids)"

definition supersedes :: "time_lib \<Rightarrow> search_entry option \<Rightarrow> string \<Rightarrow> int \<Rightarrow> gtime \<Rightarrow> bool" where
  "supersedes T old etag target startedAt \<longleftrightarrow>
     (case old of None \<Rightarrow> False | Some e \<Rightarrow> searchEntrySupersedes T e etag target startedAt)"

definition page_entry ::
  "('s, 'f) search_env \<Rightarrow> page_chat \<Rightarrow> int \<Rightarrow> gtime \<Rightarrow> 'f list list option \<Rightarrow> nat \<Rightarrow> search_entry" where
  "page_entry E p target now vectors idx =
     (let pending = (pc_chunks p \<noteq> [] \<and> vectors = None) in
      \<lparr> en_Slot = 0, en_ETag = pc_etag p, en_SourceRevision = target,
        en_UpdatedAt = tm_format (net_time (dp_net (sv_deps E))) now,
        en_Vectors = (case vectors of None \<Rightarrow> [] | Some vs \<Rightarrow> quantizeAll E (vector_slice idx (length (pc_chunks p)) vs)),
        en_EmbeddingPending = pending, en_EmbeddingKeyID = (if pending then pc_keyID p else []) \<rparr>)"

definition put_chat ::
  "('s, 'f) search_env \<Rightarrow> nat \<Rightarrow> page_chat \<Rightarrow> int \<Rightarrow> 'f list list option \<Rightarrow> nat \<Rightarrow> ('s, int \<times> int) sop" where
  "put_chat E a p target vectors idx w =
     op_try (mem_Upsert a (pc_id p) (page_entry E p target (dp_now (sv_deps E) (fst w)) vectors idx)
               (Tokenize (sv_unicode E) (join_chunks (pc_chunks p)))) (\<lambda>r.
       case r of
         Inr _ \<Rightarrow> op_ret (1, 0)
       | Inl err \<Rightarrow> if err = panicked then op_err err else op_ret (0, 1)) w"

text \<open>One chat of the page: how many it adds to the indexed and to the failed ones.\<close>

definition index_page_chat ::
  "('s, 'f) search_env \<Rightarrow> session \<Rightarrow> nat \<Rightarrow> int \<Rightarrow> gtime \<Rightarrow> 'f list list option \<Rightarrow> nat \<Rightarrow> page_chat \<Rightarrow> ('s, int \<times> int) sop" where
  "index_page_chat E sess a target startedAt vectors idx p =
     op_bind (out_op (searchChatSnapshotState (sv_deps E) sess (pc_id p) (pc_etag p))) (\<lambda>snap.
     op_bind (mem_entry a (pc_id p)) (\<lambda>old.
     let newer = supersedes (net_time (dp_net (sv_deps E))) old (pc_etag p) target startedAt in
     case snap of
       SnapshotDeleted \<Rightarrow> op_bind (mem_Remove a (pc_id p)) (\<lambda>_. op_ret (0, 0))
     | SnapshotStale \<Rightarrow> op_ret (if newer then 1 else 0, 0)
     | SnapshotCurrent \<Rightarrow> if newer then op_ret (1, 0) else put_chat E a p target vectors idx))"

fun index_page_chats ::
  "('s, 'f) search_env \<Rightarrow> session \<Rightarrow> nat \<Rightarrow> int \<Rightarrow> gtime \<Rightarrow> 'f list list option \<Rightarrow> nat \<Rightarrow> page_chat list \<Rightarrow> ('s, int \<times> int) sop"
  where
  "index_page_chats E sess a target startedAt vectors idx [] = op_ret (0, 0)"
| "index_page_chats E sess a target startedAt vectors idx (p # ps) =
     op_bind (index_page_chat E sess a target startedAt vectors idx p) (\<lambda>(i, f).
     op_bind (index_page_chats E sess a target startedAt vectors (idx + length (pc_chunks p)) ps) (\<lambda>(i', f').
     op_ret (i + i', f + f')))"

text \<open>A page that does not fit the checkpoint in the index is answered without touching it.\<close>

definition resume_instead ::
  "('s, 'f) search_env \<Rightarrow> string \<Rightarrow> gtime \<Rightarrow> int \<Rightarrow> search_index_state \<Rightarrow> search_index \<Rightarrow> reindex_page_result option result" where
  "resume_instead E cursor startedAt target publication ix =
     (case ix_Reindex ix of
        Some rp \<Rightarrow>
          (case tm_parse (net_time (dp_net (sv_deps E))) (rp_StartedAt rp) of
             None \<Rightarrow> Inl (ELib ''time'')
           | Some started \<Rightarrow>
               if cursor = rp_NextCursor rp \<and> target = rp_TargetSourceRevision rp \<and> startedAt = started then Inr None
               else Inr (Some (zero_page\<lparr> rg_NextCursor := rp_NextCursor rp, rg_TotalIndexed := length (ix_Chats ix),
                                rg_ResumeStartedAt := started, rg_ResumeTargetSourceRevision := rp_TargetSourceRevision rp \<rparr>)))
      | None \<Rightarrow>
          if cursor \<noteq> []
          then Inr (Some (zero_page\<lparr> rg_Done := True, rg_Partial := ix_Incomplete ix \<or> sis_PublicationIncomplete publication,
                      rg_TotalIndexed := length (ix_Chats ix), rg_ResumeStartedAt := startedAt,
                      rg_ResumeTargetSourceRevision := target \<rparr>))
          else Inr None)"

definition page_incomplete ::
  "bool \<Rightarrow> load_state \<Rightarrow> string \<Rightarrow> string \<Rightarrow> bool \<Rightarrow> int \<Rightarrow> search_index_state \<Rightarrow> int \<Rightarrow> bool" where
  "page_incomplete compatible st cursor next_cursor priorFailure failed publication target \<longleftrightarrow>
     next_cursor \<noteq> [] \<or> priorFailure \<or> 0 < failed \<or> (\<not> compatible \<or> st \<noteq> LoadOK) \<and> cursor \<noteq> []
     \<or> target < sis_PublishedSourceRevision publication \<and> sis_PublicationIncomplete publication"

definition next_checkpoint ::
  "time_lib \<Rightarrow> bool \<Rightarrow> bool \<Rightarrow> int \<Rightarrow> string \<Rightarrow> int \<Rightarrow> gtime \<Rightarrow> reindex_progress option" where
  "next_checkpoint T incomplete priorFailure failed next_cursor target startedAt =
     (if incomplete \<and> \<not> priorFailure \<and> failed = 0 \<and> next_cursor \<noteq> []
      then Some \<lparr> rp_NextCursor = next_cursor, rp_TargetSourceRevision = target, rp_StartedAt = tm_format T startedAt \<rparr>
      else None)"

definition mem_checkpoint :: "nat \<Rightarrow> reindex_progress option \<Rightarrow> bool \<Rightarrow> ('s, nat) sop" where
  "mem_checkpoint a rp incomplete =
     op_bind (mem_read a) (\<lambda>ix.
     op_bind (mem_write a (ix\<lparr> ix_Reindex := rp, ix_Incomplete := incomplete \<rparr>)) (\<lambda>_. op_ret (length (ix_Chats ix))))"

text \<open>What a page has gathered before it takes the lock.\<close>

record 'f gathered =
  ga_chats :: "page_chat list"
  ga_failed :: int
  ga_next :: string
  ga_vectors :: "'f list list option"
  ga_embeddingFailed :: bool

definition reindex_write ::
  "('s, 'f) search_env \<Rightarrow> session \<Rightarrow> bytes \<Rightarrow> string \<Rightarrow> string \<Rightarrow> gtime \<Rightarrow> int \<Rightarrow> bool \<Rightarrow> 'f gathered \<Rightarrow>
   search_index_state \<Rightarrow> bool \<Rightarrow> nat \<Rightarrow> load_state \<Rightarrow> ('s, reindex_page_result option) sop" where
  "reindex_write E sess indexKey keyID cursor startedAt target priorFailure g publication compatible a st =
     (let T = net_time (dp_net (sv_deps E)) in
      op_bind (mem_read a) (\<lambda>ix.
      op_bind (if cursor = [] then remove_all a (stale_ids T target startedAt ix) else op_ret ()) (\<lambda>_.
      op_bind (index_page_chats E sess a target startedAt (ga_vectors g) 0 (ga_chats g)) (\<lambda>(indexed, f).
      let failed = ga_failed g + f;
          incomplete = page_incomplete compatible st cursor (ga_next g) priorFailure failed publication target;
          covered = max target (sis_PublishedSourceRevision publication) in
      op_bind (mem_checkpoint a (next_checkpoint T incomplete priorFailure failed (ga_next g) target startedAt) incomplete) (\<lambda>total.
      publish_or_retry E sess publication indexKey keyID covered incomplete a
        \<lparr> rg_Indexed = indexed, rg_Failed = failed, rg_EmbeddingFailed = ga_embeddingFailed g,
          rg_NextCursor = ga_next g, rg_Done = (ga_next g = []), rg_Partial = incomplete, rg_TotalIndexed = total,
          rg_ResumeStartedAt = startedAt, rg_ResumeTargetSourceRevision = target \<rparr>)))))"

definition reindex_attempt ::
  "('s, 'f) search_env \<Rightarrow> session \<Rightarrow> bytes \<Rightarrow> string \<Rightarrow> string \<Rightarrow> gtime \<Rightarrow> int \<Rightarrow> bool \<Rightarrow> 'f gathered \<Rightarrow>
   ('s, reindex_page_result option) sop" where
  "reindex_attempt E sess indexKey keyID cursor startedAt target priorFailure g =
     op_bind (get_state E sess) (\<lambda>publication.
     let compatible = (\<not> key_mismatch E keyID publication) in
     op_bind (loadSearchIndex E (se_Subject sess) (if compatible then sis_ObjectKey publication else []) indexKey) (\<lambda>(a, st).
     op_bind (mem_read a) (\<lambda>ix.
     op_bind (op_lift (resume_instead E cursor startedAt target publication ix)) (\<lambda>instead.
     case instead of
       Some page \<Rightarrow> op_ret (Some page)
     | None \<Rightarrow> reindex_write E sess indexKey keyID cursor startedAt target priorFailure g publication compatible a st))))"

definition page_embed ::
  "('s, 'f) search_env \<Rightarrow> session \<Rightarrow> bool \<Rightarrow> string list \<Rightarrow> ('s, 'f list list option \<times> bool) sop" where
  "page_embed E sess embedDocuments texts =
     (if texts = [] then op_ret (None, False)
      else if \<not> embedDocuments then op_ret (None, True)
      else op_try (embedChunks E (se_Subject sess) searchDocPrefix texts True) (\<lambda>r w.
        case r of
          Inr vs \<Rightarrow> (Inr (Some vs, False), w)
        | Inl _ \<Rightarrow> if net_ctx_err (dp_net (sv_deps E)) (fst w) then (Inl ECtx, w) else (Inr (None, True), w)))"

definition gather_page ::
  "('s, 'f) search_env \<Rightarrow> session \<Rightarrow> pull_key list \<Rightarrow> string \<Rightarrow> bool \<Rightarrow> ('s, 'f gathered) sop" where
  "gather_page E sess keys cursor embedDocuments =
     op_bind (out_op (Pull (sv_deps E) sess
       \<lparr> pq_Scope = ScopeChat, pq_IDs = [], pq_All = True, pq_Cursor = cursor, pq_Limit = int reindexPageSize, pq_Keys = keys \<rparr>))
       (\<lambda>(items, next_cursor).
     let page = page_chats items in
     op_bind (page_embed E sess embedDocuments (page_texts page)) (\<lambda>(vectors, embeddingFailed).
     op_ret \<lparr> ga_chats = page, ga_failed = page_failures items, ga_next = next_cursor,
              ga_vectors = vectors, ga_embeddingFailed = embeddingFailed \<rparr>))"

text \<open>\<^verbatim>\<open>keys[0]\<close> of an empty slice is a panic.\<close>

definition first_key :: "pull_key list \<Rightarrow> ('s, string) sop" where
  "first_key keys = (case keys of [] \<Rightarrow> op_err panicked | k # _ \<Rightarrow> op_ret (pk_Key k))"

definition searchReindexPage ::
  "('s, 'f) search_env \<Rightarrow> session \<Rightarrow> pull_key list \<Rightarrow> string \<Rightarrow> gtime \<Rightarrow> int \<Rightarrow> bool \<Rightarrow> bool \<Rightarrow> ('s, reindex_page_result) sop"
  where
  "searchReindexPage E sess keys cursor startedAt target priorFailure embedDocuments =
     op_bind (first_key keys) (\<lambda>key64.
     op_bind (request_keys E key64) (\<lambda>(keyID, indexKey).
     op_bind (gather_page E sess keys cursor embedDocuments) (\<lambda>g.
     retry_publish maxSearchPublishRetries ''search index reindex publication retries exhausted''
       (reindex_attempt E sess indexKey keyID cursor startedAt target priorFailure g))))"

end
