(* ===== verification/Search_Rebuild.thy ===== *)
theory Search_Rebuild
  imports Search_Reindex Migration_Jobs "HOL-Library.Char_ord" "HOL-Library.List_Lexorder"
begin

text \<open>
  The two runs a reindex job can do: the repair of missing embeddings and resumable checkpoints of
  \<^verbatim>\<open>server/search_ops.go\<close>, and the page loop \<^verbatim>\<open>runSearchReindex\<close> with the check of its request in
  \<^verbatim>\<open>server/search_reindex_job.go\<close>. What a run tells its job (\<^verbatim>\<open>reportPage\<close>, \<^verbatim>\<open>markPartial\<close>) is a list
  of events, in order, beside the error it ends with.
\<close>

datatype job_event = ReportPage reindex_page_result | MarkJobPartial

type_synonym run_result = "go_error option \<times> job_event list"

text \<open>Running on after an error, but not after a panic.\<close>

definition op_attempt :: "('s, 'a) op \<Rightarrow> ('a result \<Rightarrow> ('s, 'b) op) \<Rightarrow> ('s, 'b) op" where
  "op_attempt m f = op_try m (\<lambda>r. if r = Inl panicked then op_err panicked else f r)"

definition as_run :: "('s, run_result) op \<Rightarrow> ('s, run_result) op" where
  "as_run m = op_attempt m (\<lambda>r. case r of Inl e \<Rightarrow> op_ret (Some e, []) | Inr x \<Rightarrow> op_ret x)"

definition ctx_done :: "('s, 'f) search_env \<Rightarrow> 's \<times> search_mem \<Rightarrow> bool" where
  "ctx_done E w = net_ctx_err (dp_net (sv_deps E)) (fst w)"

section \<open>Applying repairs\<close>

record repair_candidate =
  rc_id :: string
  rc_etag :: string
  rc_vectors :: "vector list"

record repair_blocked =
  rb_id :: string
  rb_etag :: string
  rb_keyID :: string

definition still_pending :: "search_entry option \<Rightarrow> string \<Rightarrow> bool" where
  "still_pending old etag \<longleftrightarrow> (case old of None \<Rightarrow> False | Some e \<Rightarrow> en_EmbeddingPending e \<and> en_ETag e = etag)"

definition mem_mark :: "nat \<Rightarrow> string \<Rightarrow> string \<Rightarrow> ('s, bool) sop" where
  "mem_mark a i keyID = op_bind (mem_read a) (\<lambda>ix.
     case MarkEmbeddingKey i keyID ix of (b, ix') \<Rightarrow> op_bind (mem_write a ix') (\<lambda>_. op_ret b))"

definition mem_repair :: "nat \<Rightarrow> string \<Rightarrow> vector list \<Rightarrow> ('s, unit) sop" where
  "mem_repair a i vectors = op_bind (mem_read a) (\<lambda>ix.
     case RepairEmbedding i vectors ix of (r, ix') \<Rightarrow> op_bind (mem_write a ix') (\<lambda>_. op_lift r))"

fun mark_blocked :: "nat \<Rightarrow> repair_blocked list \<Rightarrow> ('s, bool) sop" where
  "mark_blocked a [] = op_ret False"
| "mark_blocked a (b # bs) =
     op_bind (mem_entry a (rb_id b)) (\<lambda>old.
     op_bind (if still_pending old (rb_etag b) then mem_mark a (rb_id b) (rb_keyID b) else op_ret False) (\<lambda>m.
     op_bind (mark_blocked a bs) (\<lambda>m'. op_ret (m \<or> m'))))"

fun repair_entries :: "nat \<Rightarrow> repair_candidate list \<Rightarrow> ('s, int) sop" where
  "repair_entries a [] = op_ret 0"
| "repair_entries a (c # cs) =
     op_bind (mem_entry a (rc_id c)) (\<lambda>old.
     if still_pending old (rc_etag c)
     then op_bind (mem_repair a (rc_id c) (rc_vectors c)) (\<lambda>_. op_bind (repair_entries a cs) (\<lambda>n. op_ret (1 + n)))
     else repair_entries a cs)"

text \<open>The answer is the number of repaired chats and of all chats.\<close>

definition repair_attempt ::
  "('s, 'f) search_env \<Rightarrow> session \<Rightarrow> bytes \<Rightarrow> string \<Rightarrow> repair_candidate list \<Rightarrow> repair_blocked list \<Rightarrow>
   ('s, (int \<times> nat) option) sop" where
  "repair_attempt E sess indexKey keyID repairs blocked =
     op_bind (get_state E sess) (\<lambda>publication.
     if sis_ObjectKey publication = [] \<or> sis_KeyID publication \<noteq> keyID \<or> sis_Model publication \<noteq> sv_Model E
     then op_ret (Some (0, 0))
     else op_bind (loadSearchIndex E (se_Subject sess) (sis_ObjectKey publication) indexKey) (\<lambda>(a, st).
       if st \<noteq> LoadOK then op_ret (Some (0, 0))
       else op_bind (mark_blocked a blocked) (\<lambda>marked.
            op_bind (repair_entries a repairs) (\<lambda>repaired.
            op_bind (mem_read a) (\<lambda>ix.
              if \<not> marked \<and> repaired = 0 then op_ret (Some (0, length (ix_Chats ix)))
              else publish_or_retry E sess publication indexKey keyID (sis_PublishedSourceRevision publication)
                     (sis_PublicationIncomplete publication \<or> ix_Incomplete ix) a (repaired, length (ix_Chats ix)))))))"

definition applySearchEmbeddingRepairs ::
  "('s, 'f) search_env \<Rightarrow> session \<Rightarrow> bytes \<Rightarrow> string \<Rightarrow> repair_candidate list \<Rightarrow> repair_blocked list \<Rightarrow> ('s, int \<times> nat) sop"
  where
  "applySearchEmbeddingRepairs E sess indexKey keyID repairs blocked =
     retry_publish maxSearchPublishRetries ''search embedding repair publication retries exhausted''
       (repair_attempt E sess indexKey keyID repairs blocked)"

section \<open>Repairing missing embeddings\<close>

text \<open>A batch either ends the run, with an error or not, or the run goes on; it says if a chat failed.\<close>

datatype batch_outcome = BatchStop "go_error option" "job_event list" | BatchNext bool "job_event list"

definition repairable_ids :: "string \<Rightarrow> search_index \<Rightarrow> string list" where
  "repairable_ids keyID ix = sort (map fst (filter (\<lambda>(i, e).
     en_EmbeddingPending e \<and> (en_EmbeddingKeyID e = [] \<or> en_EmbeddingKeyID e = keyID)) (ix_Chats ix)))"

definition blocked_of :: "pull_item \<Rightarrow> repair_blocked option" where
  "blocked_of item =
     (if \<not> pi_OK item \<and> pi_Code item = CodeUnknownKey \<and> pi_KeyID item \<noteq> [] \<and> pi_ETag item \<noteq> []
      then Some \<lparr> rb_id = pi_ID item, rb_etag = pi_ETag item, rb_keyID = pi_KeyID item \<rparr> else None)"

definition repair_failures :: "pull_item list \<Rightarrow> int" where
  "repair_failures items = int (length (filter (\<lambda>i. page_chat_of i = None \<and> blocked_of i = None) items))"

fun repair_candidates :: "('s, 'f) search_env \<Rightarrow> 'f list list \<Rightarrow> nat \<Rightarrow> page_chat list \<Rightarrow> repair_candidate list" where
  "repair_candidates E vs idx [] = []"
| "repair_candidates E vs idx (p # ps) =
     \<lparr> rc_id = pc_id p, rc_etag = pc_etag p, rc_vectors = quantizeAll E (vector_slice idx (length (pc_chunks p)) vs) \<rparr>
     # repair_candidates E vs (idx + length (pc_chunks p)) ps"

definition page_report :: "int \<Rightarrow> int \<Rightarrow> nat \<Rightarrow> job_event" where
  "page_report indexed failed chats =
     ReportPage (zero_page\<lparr> rg_Indexed := indexed, rg_Failed := failed, rg_TotalIndexed := chats \<rparr>)"

definition repair_apply ::
  "('s, 'f) search_env \<Rightarrow> session \<Rightarrow> bytes \<Rightarrow> string \<Rightarrow> page_chat list \<Rightarrow> repair_blocked list \<Rightarrow> int \<Rightarrow> 'f list list \<Rightarrow>
   ('s, batch_outcome) sop" where
  "repair_apply E sess indexKey keyID page blocked failed vectors =
     op_attempt (applySearchEmbeddingRepairs E sess indexKey keyID (repair_candidates E vectors 0 page) blocked) (\<lambda>r.
       case r of
         Inl err \<Rightarrow> op_ret (BatchStop (Some err) [])
       | Inr (repaired, chats) \<Rightarrow> op_ret (BatchNext (0 < failed) [page_report repaired failed chats]))"

text \<open>Without embeddings only the blocked chats are marked, and the run ends as partial.\<close>

definition repair_outage ::
  "('s, 'f) search_env \<Rightarrow> session \<Rightarrow> bytes \<Rightarrow> string \<Rightarrow> page_chat list \<Rightarrow> repair_blocked list \<Rightarrow> int \<Rightarrow> ('s, batch_outcome) sop"
  where
  "repair_outage E sess indexKey keyID page blocked failed w =
     (if ctx_done E w then (Inr (BatchStop None [MarkJobPartial]), w)
      else op_attempt (applySearchEmbeddingRepairs E sess indexKey keyID [] blocked) (\<lambda>r.
        case r of
          Inl err \<Rightarrow> op_ret (BatchStop (Some err) [])
        | Inr (_, chats) \<Rightarrow>
            op_ret (BatchStop None [page_report 0 (int (length page) + failed) chats, MarkJobPartial])) w)"

definition repair_batch ::
  "('s, 'f) search_env \<Rightarrow> session \<Rightarrow> bytes \<Rightarrow> string \<Rightarrow> pull_key list \<Rightarrow> string list \<Rightarrow> ('s, batch_outcome) sop" where
  "repair_batch E sess indexKey keyID keys ids =
     op_attempt (out_op (Pull (sv_deps E) sess
       \<lparr> pq_Scope = ScopeChat, pq_IDs = ids, pq_All = False, pq_Cursor = [], pq_Limit = 0, pq_Keys = keys \<rparr>)) (\<lambda>r w.
       case r of
         Inl err \<Rightarrow> (Inr (if ctx_done E w then BatchStop None [MarkJobPartial] else BatchStop (Some err) []), w)
       | Inr (items, _) \<Rightarrow>
           (let page = page_chats items;
                blocked = List.map_filter blocked_of items;
                failed = repair_failures items;
                texts = page_texts page in
            if texts = [] then repair_apply E sess indexKey keyID page blocked failed [] w
            else op_attempt (embedChunks E (se_Subject sess) searchDocPrefix texts True) (\<lambda>v.
              case v of
                Inl _ \<Rightarrow> repair_outage E sess indexKey keyID page blocked failed
              | Inr vectors \<Rightarrow> repair_apply E sess indexKey keyID page blocked failed vectors) w))"

function repair_loop ::
  "('s, 'f) search_env \<Rightarrow> session \<Rightarrow> bytes \<Rightarrow> string \<Rightarrow> pull_key list \<Rightarrow> string list \<Rightarrow> bool \<Rightarrow> job_event list \<Rightarrow> ('s, run_result) sop"
  where
  "repair_loop E sess indexKey keyID keys ids hadFailure ev w =
     (if ids = [] then (Inr (None, ev @ (if hadFailure then [MarkJobPartial] else [])), w)
      else if ctx_done E w then (Inr (None, ev @ [MarkJobPartial]), w)
      else case repair_batch E sess indexKey keyID keys (take reindexPageSize ids) w of
             (Inl err, w') \<Rightarrow> (Inl err, w')
           | (Inr (BatchStop err ev'), w') \<Rightarrow> (Inr (err, ev @ ev'), w')
           | (Inr (BatchNext failed ev'), w') \<Rightarrow>
               repair_loop E sess indexKey keyID keys (drop reindexPageSize ids) (hadFailure \<or> failed) (ev @ ev') w')"
  by pat_completeness auto
termination by (relation "measure (\<lambda>(E, sess, indexKey, keyID, keys, ids, hadFailure, ev, w). length ids)")
  (auto simp: reindexPageSize_def)

declare repair_loop.simps [simp del]

definition runSearchEmbeddingRepair ::
  "('s, 'f) search_env \<Rightarrow> session \<Rightarrow> pull_key list \<Rightarrow> ('s, run_result) sop" where
  "runSearchEmbeddingRepair E sess keys = as_run (
     op_bind (first_key keys) (\<lambda>key64.
     op_bind (request_keys E key64) (\<lambda>(keyID, indexKey).
     op_bind (get_state E sess) (\<lambda>publication.
       if sis_ObjectKey publication = [] \<or> sis_KeyID publication \<noteq> keyID \<or> sis_Model publication \<noteq> sv_Model E
       then op_ret (None, [MarkJobPartial])
       else op_bind (loadSearchIndex E (se_Subject sess) (sis_ObjectKey publication) indexKey) (\<lambda>(a, st).
         if st \<noteq> LoadOK then op_ret (None, [MarkJobPartial])
         else op_bind (mem_read a) (\<lambda>ix.
              repair_loop E sess indexKey keyID keys (repairable_ids keyID ix) False []))))))"

section \<open>Resuming a rebuild\<close>

definition checkpoint_of ::
  "time_lib \<Rightarrow> search_index_state \<Rightarrow> search_index \<Rightarrow> load_state \<Rightarrow> (string \<times> gtime \<times> int) option result" where
  "checkpoint_of T publication ix st =
     (case ix_Reindex ix of
        None \<Rightarrow> Inr None
      | Some rp \<Rightarrow>
          if st \<noteq> LoadOK \<or> \<not> ix_Incomplete ix \<or> sis_PublishedSourceRevision publication \<noteq> rp_TargetSourceRevision rp
          then Inr None
          else case tm_parse T (rp_StartedAt rp) of
                 None \<Rightarrow> Inl (ELib ''time'')
               | Some startedAt \<Rightarrow> Inr (Some (rp_NextCursor rp, startedAt, rp_TargetSourceRevision rp)))"

definition loadSearchReindexCheckpoint ::
  "('s, 'f) search_env \<Rightarrow> session \<Rightarrow> string \<Rightarrow> search_index_state \<Rightarrow> ('s, (string \<times> gtime \<times> int) option) sop" where
  "loadSearchReindexCheckpoint E sess key64 publication =
     (let H = dp_hkdf (sv_deps E) in
      if sis_ObjectKey publication = [] \<or> \<not> sis_PublicationIncomplete publication then op_ret None
      else op_bind (op_lift (requestKey ''invalid key: '' key64)) (\<lambda>cek.
           op_bind (op_lift (DeriveKeyID H cek)) (\<lambda>kid.
             if sis_KeyID publication \<noteq> KeyIDHex kid \<or> sis_Model publication \<noteq> sv_Model E then op_ret None
             else op_bind (op_lift (DeriveSearchIndexKey H cek)) (\<lambda>indexKey.
                  op_bind (loadSearchIndex E (se_Subject sess) (sis_ObjectKey publication) indexKey) (\<lambda>(a, st).
                  op_bind (mem_read a) (\<lambda>ix.
                  op_lift (checkpoint_of (net_time (dp_net (sv_deps E))) publication ix st)))))))"

section \<open>Rebuilding\<close>

definition errSearchReindexIncomplete :: go_error where
  "errSearchReindexIncomplete = ENew ''search reindex incomplete''"

definition run_end_of :: "bool \<Rightarrow> go_error option" where
  "run_end_of coverageFailure = (if coverageFailure then Some errSearchReindexIncomplete else None)"

text \<open>What a page adds to the events.\<close>

definition page_events :: "reindex_page_result \<Rightarrow> job_event list" where
  "page_events page = ReportPage page # (if 0 < rg_Failed page then [MarkJobPartial] else [])
     @ (if rg_Done page \<and> rg_Partial page then [MarkJobPartial] else [])"

text \<open>The loop over the pages has no bound of its own: the fuel counts pages.\<close>

fun reindex_loop ::
  "nat \<Rightarrow> ('s, 'f) search_env \<Rightarrow> session \<Rightarrow> pull_key list \<Rightarrow> string \<Rightarrow> gtime \<Rightarrow> int \<Rightarrow> bool \<Rightarrow> bool \<Rightarrow> job_event list \<Rightarrow>
   's \<times> search_mem \<Rightarrow> (run_result result \<times> 's \<times> search_mem) option" where
  "reindex_loop 0 E sess keys cursor startedAt target coverageFailure embedDocuments ev w = None"
| "reindex_loop (Suc n) E sess keys cursor startedAt target coverageFailure embedDocuments ev w =
     (if ctx_done E w then Some (Inr (run_end_of coverageFailure, ev @ [MarkJobPartial]), w)
      else case searchReindexPage E sess keys cursor startedAt target coverageFailure embedDocuments w of
             (Inl err, w') \<Rightarrow>
               if err = panicked then Some (Inl err, w')
               else if ctx_done E w' then Some (Inr (run_end_of coverageFailure, ev @ [MarkJobPartial]), w')
               else Some (Inr (Some err, ev), w')
           | (Inr page, w') \<Rightarrow>
               (let failing = coverageFailure \<or> 0 < rg_Failed page;
                    ev' = ev @ page_events page
                in if rg_Done page then Some (Inr (run_end_of (failing \<or> rg_Partial page), ev'), w')
                   else reindex_loop n E sess keys (rg_NextCursor page) (rg_ResumeStartedAt page)
                          (rg_ResumeTargetSourceRevision page) failing (embedDocuments \<and> \<not> rg_EmbeddingFailed page) ev' w'))"

text \<open>Where a run starts: at a checkpoint, or at the beginning.\<close>

definition reindex_start ::
  "('s, 'f) search_env \<Rightarrow> session \<Rightarrow> pull_key list \<Rightarrow> gtime \<Rightarrow> ('s, string \<times> gtime \<times> int) sop" where
  "reindex_start E sess keys startedAt =
     op_bind (get_state E sess) (\<lambda>publication.
     op_bind (first_key keys) (\<lambda>key64.
     op_bind (loadSearchReindexCheckpoint E sess key64 publication) (\<lambda>resume.
       op_ret (case resume of None \<Rightarrow> ([], startedAt, sis_SourceRevision publication) | Some r \<Rightarrow> r))))"

definition rebuild_run ::
  "nat \<Rightarrow> ('s, 'f) search_env \<Rightarrow> session \<Rightarrow> pull_key list \<Rightarrow> gtime \<Rightarrow> 's \<times> search_mem \<Rightarrow>
   (run_result result \<times> 's \<times> search_mem) option" where
  "rebuild_run fuel E sess keys startedAt w =
     (case reindex_start E sess keys startedAt w of
        (Inl err, w') \<Rightarrow>
          if err = panicked then Some (Inl err, w')
          else if ctx_done E w' then Some (Inr (None, [MarkJobPartial]), w')
          else Some (Inr (Some err, []), w')
      | (Inr (cursor, started, target), w') \<Rightarrow> reindex_loop fuel E sess keys cursor started target False True [] w')"

record search_reindex_request =
  ri_Keys :: "pull_key list"
  ri_embeddingRepairOnly :: bool

definition runSearchReindex ::
  "nat \<Rightarrow> ('s, 'f) search_env \<Rightarrow> session \<Rightarrow> search_reindex_request \<Rightarrow> gtime \<Rightarrow> 's \<times> search_mem \<Rightarrow>
   (run_result result \<times> 's \<times> search_mem) option" where
  "runSearchReindex fuel E sess req startedAt w =
     (if ri_embeddingRepairOnly req then Some (runSearchEmbeddingRepair E sess (ri_Keys req) w)
      else rebuild_run fuel E sess (ri_Keys req) startedAt w)"

text \<open>The context of a job: detached from the request, with a budget of its own.\<close>

definition SearchReindexJobBudget :: gtime where "SearchReindexJobBudget = 1200 * 1000000000"

definition job_env :: "('s, 'f) search_env \<Rightarrow> gtime \<Rightarrow> ('s, 'f) search_env" where
  "job_env E deadline = E\<lparr> sv_deps := detached (sv_deps E) deadline \<rparr>"

section \<open>The request\<close>

definition maxSearchReindexKeys :: nat where "maxSearchReindexKeys = 8"

text \<open>The first key of each id.\<close>

fun first_of_ids :: "string list \<Rightarrow> key list \<Rightarrow> key list" where
  "first_of_ids seen [] = []"
| "first_of_ids seen (k # ks) =
     (if key_KeyIDHex k \<in> set seen then first_of_ids seen ks else k # first_of_ids (key_KeyIDHex k # seen) ks)"

definition normal_key :: "key \<Rightarrow> pull_key" where
  "normal_key k = \<lparr> pk_Key = b64_encode (key_Bytes k), pk_KeyID = key_KeyIDHex k \<rparr>"

definition normalizeSearchReindexRequest :: "hkdf \<Rightarrow> search_reindex_request \<Rightarrow> search_reindex_request result" where
  "normalizeSearchReindexRequest H req =
     (if ri_Keys req = [] then Inl (badRequest ''keys is required and must not be empty'')
      else if maxSearchReindexKeys < length (ri_Keys req) then Inl (badRequest ''too many keys'')
      else rbind (decodeKeys H (ri_Keys req)) (\<lambda>keys.
           case map normal_key (first_of_ids [] keys) of
             [] \<Rightarrow> Inl panicked
           | k # legacy \<Rightarrow> Inr (req\<lparr> ri_Keys := k # sort_key pk_KeyID legacy \<rparr>)))"

definition reindexRequestFingerprint :: "search_reindex_request \<Rightarrow> bytes" where
  "reindexRequestFingerprint req =
     sha256 ((if ri_embeddingRepairOnly req then CHR 0x01 else CHR 0x00)
             # concat (map (\<lambda>k. pk_Key k @ [CHR 0x00]) (ri_Keys req)))"

end
