(* ===== verification/Search_Order.thy ===== *)
theory Search_Order
  imports Search_Rebuild
begin

text \<open>
  The search operations and orders on their two-part state, as \<^verbatim>\<open>Op_Order\<close> has it for the other
  operations. \<open>search_order\<close> is the interface of a pair of preorders, one on the world outside and
  one on the memory, that the primitives respect; the lemmas inside follow every operation that does
  not change a shared index. \<open>search_write_order\<close> adds the change in place. The contract is
  interpreted on the memory at addresses that are in use, and on the clock, which shows that a
  rebuild ends.
\<close>

section \<open>The calls that search makes\<close>

context net_order
begin

lemma keeps_HeadBlob: "op_keeps le (HeadBlob c N scope bid jwt user)"
  unfolding HeadBlob_def by (intro keeps_step)

lemma keeps_GetSearchIndexState: "op_keeps le (GetSearchIndexState c N jwt user)"
  unfolding GetSearchIndexState_def by (intro keeps_step)

lemma keeps_PublishSearchIndex: "op_keeps le (PublishSearchIndex c N req)"
  unfolding PublishSearchIndex_def Let_def by (intro keeps_step)

lemma keeps_ListStatus: "op_keeps le (ListStatus c N scope cursor limit jwt user pid direction)"
  unfolding ListStatus_def Let_def by (intro keeps_step)

lemma keeps_GetCurrentKey: "op_keeps le (GetCurrentKey c N jwt user)"
  unfolding GetCurrentKey_def Let_def by (intro keeps_step)

lemma keeps_ignore: "op_keeps le m \<Longrightarrow> op_keeps le (op_ignore m)"
  unfolding op_ignore_def by (intro keeps_step)

lemma keeps_BackfillChatActivity: "op_keeps le (BackfillChatActivity c N jwt user bid etag t)"
  unfolding BackfillChatActivity_def post_ignoring_def [abs_def] by (intro keeps_step)

end

context deps_order
begin

lemma keeps_backfill: "op_keeps le (backfillChatActivity D sess scope bid blob etag pt)"
  unfolding backfillChatActivity_def Let_def by (intro keeps_step keeps_ignore keeps_BackfillChatActivity)

lemma keeps_pullOne: "op_keeps le (pullOne D sess scope bid keys tk kid rewrap)"
proof -
  have v2: "op_keeps le (pull_v2 D sess scope bid keys blob)" for blob
    unfolding pull_v2_def Let_def by (intro keeps_step keeps_backfill)
  have legacy: "op_keeps le (pull_legacy D sess scope bid keys tk kid rewrap blob)" for blob
    unfolding pull_legacy_def Let_def by (intro keeps_step keeps_backfill keeps_server_rewrapBlob)
  have arms: "op_keeps le (case Detect x of VersionV2 \<Rightarrow> pull_v2 D sess scope bid keys blob
      | VersionV0 \<Rightarrow> pull_legacy D sess scope bid keys tk kid rewrap blob
      | VersionV1 \<Rightarrow> pull_legacy D sess scope bid keys tk kid rewrap blob
      | VersionUnknown \<Rightarrow> op_ret i)" for x blob i
    by (cases "Detect x") (simp_all add: v2 legacy keeps_prim)
  show ?thesis unfolding pullOne_def by (intro keeps_step keeps_GetBlob arms)
qed

lemma keeps_pull_distinct:
  assumes "\<And>i. op_keeps le (f i)"
  shows "le s (snd (pull_distinct f ids acc s))"
proof (induction ids arbitrary: acc s)
  case (Cons i ids)
  obtain r s1 where f: "f i s = (r, s1)" by (metis surj_pair)
  from assms f have "le s s1" by (rule op_keepsD)
  then show ?case using f Cons by (auto split: sum.splits intro: le_trans)
qed (simp add: le_refl)

lemma keeps_currentPrimaryKeyIs: "op_keeps le (currentPrimaryKeyIs D sess kid)"
  unfolding currentPrimaryKeyIs_def by (intro keeps_step keeps_GetCurrentKey)

lemma keeps_Pull: "op_keeps le (Pull D sess req)"
proof -
  have rest: "op_keeps le (\<lambda>s. case pull_distinct (\<lambda>i. pullOne D sess scope i keys tk kid b) ids [] s of
      (m, s') \<Rightarrow> (Inr (out m), s'))" for scope keys tk kid b ids out
    by (simp add: op_keeps_def case_prod_beta keeps_pull_distinct [OF keeps_pullOne])
  show ?thesis unfolding Pull_def Let_def
    by (intro keeps_step keeps_currentPrimaryKeyIs rest keeps_ListStatus)
qed

lemma keeps_snapshot: "op_keeps le (searchChatSnapshotState D sess chatID etag)"
  unfolding searchChatSnapshotState_def by (intro keeps_step keeps_HeadBlob keeps_GetBlob)

lemma keeps_newObjectKey: "op_keeps le (newSearchIndexObjectKey D fence)"
  unfolding newSearchIndexObjectKey_def by (rule keeps_with_entropy)

end

section \<open>The contract\<close>

lemma op_keeps_at: "op_keeps le m \<Longrightarrow> le w (snd (m w))"
  by (simp add: op_keeps_def)

definition pair_le :: "('s \<Rightarrow> 's \<Rightarrow> bool) \<Rightarrow> (search_mem \<Rightarrow> search_mem \<Rightarrow> bool) \<Rightarrow> 's \<times> search_mem \<Rightarrow> 's \<times> search_mem \<Rightarrow> bool"
  where "pair_le leS leM w w' \<longleftrightarrow> leS (fst w) (fst w') \<and> leM (snd w) (snd w')"

locale search_order = D: deps_order leS "sv_deps E" + M: op_order leM
  for leS :: "'s \<Rightarrow> 's \<Rightarrow> bool" and leM :: "search_mem \<Rightarrow> search_mem \<Rightarrow> bool" and E :: "('s, 'f) search_env" +
  assumes S_Put: "leS s (snd (sv_Put E owner objectKey pt key s))"
    and S_GetLimited: "leS s (snd (sv_GetLimited E owner objectKey key n s))"
    and S_Delete: "leS s (snd (sv_Delete E owner objectKey s))"
    and M_cache: "leM m (m\<lparr> sm_cache := c \<rparr>)"
    and M_new: "leM m (m\<lparr> sm_heap := (sm_heap m)(sm_next m := ix), sm_next := Suc (sm_next m) \<rparr>)"
begin

sublocale B: op_order "pair_le leS leM"
  by unfold_locales (auto simp: pair_le_def intro: D.le_refl M.le_refl D.le_trans M.le_trans)

lemma keeps_out: "op_keeps leS m \<Longrightarrow> op_keeps (pair_le leS leM) (out_op m)"
  by (auto simp: op_keeps_def out_op_def pair_le_def M.le_refl split: prod.split) (metis snd_conv)

lemma keeps_mem: "(\<And>m. leM m (snd (f m))) \<Longrightarrow> op_keeps (pair_le leS leM) (mem_op f)"
  by (auto simp: op_keeps_def mem_op_def pair_le_def D.le_refl split: prod.split) (metis snd_conv)

lemma keeps_mem_prim: "op_keeps (pair_le leS leM) (mem_read a)" "op_keeps (pair_le leS leM) (mem_new ix)"
    "op_keeps (pair_le leS leM) (SearchCache_drop owner)" "op_keeps (pair_le leS leM) (SearchCache_get owner h)"
  unfolding mem_read_def mem_new_def SearchCache_drop_def SearchCache_get_def
  by (rule keeps_mem; simp add: M.le_refl M_new M_cache split: option.split prod.split)+

lemma keeps_SearchCache_put: "op_keeps (pair_le leS leM) (SearchCache_put owner h a sz)"
  using M_cache by (auto simp: op_keeps_def SearchCache_put_def pair_le_def D.le_refl M.le_refl split: option.split)

lemmas keeps_step = B.keeps_bind B.keeps_try B.keeps_prim keeps_cases keeps_mem_prim keeps_SearchCache_put

lemma keeps_ignored: "op_keeps (pair_le leS leM) m \<Longrightarrow> op_keeps (pair_le leS leM) (op_ignore m)"
  unfolding op_ignore_def by (intro keeps_step)

lemma keeps_buckets: "op_keeps leS (sv_Put E owner objectKey pt key)" "op_keeps leS (sv_GetLimited E owner objectKey key n)"
    "op_keeps leS (sv_Delete E owner objectKey)"
  by (simp_all add: op_keeps_def S_Put S_GetLimited S_Delete)

lemmas keeps_calls = keeps_out [OF keeps_buckets(1)] keeps_out [OF keeps_buckets(2)] keeps_out [OF keeps_buckets(3)]
  keeps_out [OF D.keeps_GetSearchIndexState] keeps_out [OF D.keeps_PublishSearchIndex] keeps_out [OF D.keeps_newObjectKey]
  keeps_out [OF D.keeps_snapshot] keeps_out [OF D.keeps_GetBlob] keeps_out [OF D.keeps_Pull]

lemma keeps_loaded_new: "op_keeps (pair_le leS leM) (loaded_new E st)"
  unfolding loaded_new_def by (intro keeps_step)

lemma keeps_loadSearchIndex: "op_keeps (pair_le leS leM) (loadSearchIndex E owner objectKey indexKey)"
proof -
  have stored: "op_keeps (pair_le leS leM) (load_stored E owner h raw)" for h raw
    unfolding load_stored_def Let_def by (intro keeps_step keeps_loaded_new)
  have fetch: "op_keeps (pair_le leS leM) (load_fetch E owner objectKey indexKey)"
    unfolding load_fetch_def by (intro keeps_step keeps_calls keeps_loaded_new stored)
  show ?thesis unfolding loadSearchIndex_def by (intro keeps_step keeps_loaded_new fetch)
qed

lemma keeps_deleteObject: "op_keeps (pair_le leS leM) (deleteSearchObjectBestEffort E owner objectKey)"
  unfolding deleteSearchObjectBestEffort_def by (intro keeps_step keeps_ignored keeps_calls)

lemma keeps_get_state: "op_keeps (pair_le leS leM) (get_state E sess)"
  unfolding get_state_def by (intro keeps_calls)

lemma keeps_publishSearchIndex: "op_keeps (pair_le leS leM) (publishSearchIndex E sess state indexKey keyID covered incomplete a)"
proof -
  have save: "op_keeps (pair_le leS leM) (saveSearchIndex E owner objectKey indexKey a)" for owner objectKey
    unfolding saveSearchIndex_def Let_def by (intro keeps_step keeps_calls)
  have failed: "op_keeps (pair_le leS leM) (publish_failed E sess state objectKey err)" for objectKey err
    unfolding publish_failed_def by (intro keeps_step keeps_deleteObject keeps_get_state)
  show ?thesis unfolding publishSearchIndex_def by (intro keeps_step keeps_calls save failed keeps_deleteObject)
qed

lemma keeps_publish_or_retry:
  "op_keeps (pair_le leS leM) (publish_or_retry E sess publication indexKey keyID covered incomplete a x)"
  unfolding publish_or_retry_def by (intro keeps_step keeps_publishSearchIndex)

lemma keeps_retry_publish: "op_keeps (pair_le leS leM) attempt \<Longrightarrow> op_keeps (pair_le leS leM) (retry_publish n exhausted attempt)"
  by (induction n) (auto intro!: keeps_step)

lemma keeps_request_keys: "op_keeps (pair_le leS leM) (request_keys E key64)"
  unfolding request_keys_def by (intro keeps_step)

lemma keeps_query_load: "op_keeps (pair_le leS leM) (query_load E sess keyID indexKey)"
  unfolding query_load_def by (intro keeps_step keeps_get_state keeps_loadSearchIndex)

lemma keeps_needs_repair: "op_keeps (pair_le leS leM) (searchIndexNeedsRepair E sess key64 embeddingOnly)"
  unfolding searchIndexNeedsRepair_def
  by (intro keeps_step keeps_request_keys keeps_get_state keeps_loadSearchIndex)

lemma keeps_first_key: "op_keeps (pair_le leS leM) (first_key keys)"
  unfolding first_key_def by (cases keys) (simp_all add: B.keeps_prim)

lemma keeps_checkpoint: "op_keeps (pair_le leS leM) (loadSearchReindexCheckpoint E sess key64 publication)"
  unfolding loadSearchReindexCheckpoint_def Let_def by (intro keeps_step keeps_loadSearchIndex)

lemma keeps_reindex_start: "op_keeps (pair_le leS leM) (reindex_start E sess keys startedAt)"
  unfolding reindex_start_def by (intro keeps_step keeps_get_state keeps_first_key keeps_checkpoint)

end

text \<open>Embeddings are computed without the lock, so this call may change everything.\<close>

locale search_embed_order = search_order leS leM E
  for leS :: "'s \<Rightarrow> 's \<Rightarrow> bool" and leM :: "search_mem \<Rightarrow> search_mem \<Rightarrow> bool" and E :: "('s, 'f) search_env" +
  assumes embed: "pair_le leS leM w (snd (sv_embed E owner texts wait w))"
begin

lemma keeps_embedChunks: "op_keeps (pair_le leS leM) (embedChunks E owner pre chunks wait)"
proof (induction chunks rule: measure_induct_rule [of length])
  case (less chunks)
  have one: "op_keeps (pair_le leS leM) (sv_embed E owner texts wait)" for texts
    by (simp add: op_keeps_def embed)
  have "op_keeps (pair_le leS leM) (embedChunks E owner pre (drop searchEmbedBatch chunks) wait)" if "chunks \<noteq> []"
    using that by (intro less) (simp add: searchEmbedBatch_def)
  then show ?case by (subst embedChunks.simps) (intro keeps_step one; simp)
qed

text \<open>Operations whose steps also look at the state they run in.\<close>

lemma keeps_looking: "op_keeps (pair_le leS leM) m \<Longrightarrow> (\<And>r w. pair_le leS leM w (snd (f r w))) \<Longrightarrow> op_keeps (pair_le leS leM) (op_try m f)"
  by (rule B.keeps_try) (simp_all add: op_keeps_def)

lemma keeps_page_embed: "op_keeps (pair_le leS leM) (page_embed E sess embedDocuments texts)"
  unfolding page_embed_def
  by (intro keeps_step keeps_looking keeps_embedChunks) (simp add: B.le_refl split: sum.split)

lemma keeps_gather_page: "op_keeps (pair_le leS leM) (gather_page E sess keys cursor embedDocuments)"
  unfolding gather_page_def Let_def by (intro keeps_step keeps_calls keeps_page_embed)

lemma keeps_SearchQuery: "op_keeps (pair_le leS leM) (SearchQuery E sess req)"
proof -
  have one: "op_keeps (pair_le leS leM) (sv_embed E owner texts wait)" for owner texts wait
    by (simp add: op_keeps_def embed)
  have vec: "op_keeps (pair_le leS leM) (query_vector E sess query)" for query
    unfolding query_vector_def by (intro keeps_looking one) (simp add: B.le_refl split: sum.split list.split)
  show ?thesis unfolding SearchQuery_def Let_def by (intro keeps_step keeps_request_keys keeps_query_load vec)
qed

end

locale search_write_order = search_order leS leM E
  for leS :: "'s \<Rightarrow> 's \<Rightarrow> bool" and leM :: "search_mem \<Rightarrow> search_mem \<Rightarrow> bool" and E :: "('s, 'f) search_env" +
  assumes M_write: "leM m (m\<lparr> sm_heap := (sm_heap m)(a := ix) \<rparr>)"
begin

lemma keeps_write: "op_keeps (pair_le leS leM) (mem_write a ix)"
  unfolding mem_write_def by (rule keeps_mem) (simp add: M_write)

lemma keeps_Remove: "op_keeps (pair_le leS leM) (mem_Remove a i)"
  unfolding mem_Remove_def by (intro keeps_step keeps_write)

lemma keeps_Upsert: "op_keeps (pair_le leS leM) (mem_Upsert a i e tokens)"
  unfolding mem_Upsert_def by (intro keeps_step keeps_write)

lemma keeps_entry: "op_keeps (pair_le leS leM) (mem_entry a i)"
  unfolding mem_entry_def by (intro keeps_step)

lemma keeps_remove_all: "op_keeps (pair_le leS leM) (remove_all a ids)"
  by (induction ids; unfold remove_all.simps; intro keeps_step keeps_Remove; assumption)

lemma keeps_index_page_chats: "op_keeps (pair_le leS leM) (index_page_chats E sess a target startedAt vectors idx ps)"
proof (induction ps arbitrary: idx)
  case (Cons p ps)
  have upsert: "op_keeps (pair_le leS leM) (op_try (mem_Upsert a i e tokens) (\<lambda>r. case r of
      Inr _ \<Rightarrow> op_ret (1, 0) | Inl err \<Rightarrow> if err = panicked then op_err err else op_ret (0, 1)))" for i e tokens
    by (intro keeps_step keeps_Upsert)
  have put: "op_keeps (pair_le leS leM) (put_chat E a p target vectors idx)"
    unfolding op_keeps_def put_chat_def by (intro allI, rule op_keeps_at, rule upsert)
  have "op_keeps (pair_le leS leM) (index_page_chat E sess a target startedAt vectors idx p)"
    unfolding index_page_chat_def Let_def
    by (intro keeps_step keeps_calls keeps_entry; (split snapshot_state.split)?; intro conjI impI keeps_step keeps_Remove put)
  then show ?case by (simp, intro keeps_step Cons)
qed (simp add: B.keeps_prim)

lemma keeps_reindex_attempt:
  "op_keeps (pair_le leS leM) (reindex_attempt E sess indexKey keyID cursor startedAt target priorFailure g)"
proof -
  have mark: "op_keeps (pair_le leS leM) (mem_checkpoint a rp incomplete)" for a rp incomplete
    unfolding mem_checkpoint_def by (intro keeps_step keeps_write)
  have "op_keeps (pair_le leS leM) (reindex_write E sess indexKey keyID cursor startedAt target priorFailure g publication compatible a st)"
    for publication compatible a st
    unfolding reindex_write_def Let_def
    by (intro keeps_step keeps_remove_all keeps_index_page_chats keeps_publish_or_retry mark)
  then show ?thesis unfolding reindex_attempt_def Let_def
    by (intro keeps_step keeps_get_state keeps_loadSearchIndex)
qed

end

locale search_run_order = search_embed_order leS leM E + search_write_order leS leM E
  for leS :: "'s \<Rightarrow> 's \<Rightarrow> bool" and leM :: "search_mem \<Rightarrow> search_mem \<Rightarrow> bool" and E :: "('s, 'f) search_env"
begin

lemma keeps_searchReindexPage:
  "op_keeps (pair_le leS leM) (searchReindexPage E sess keys cursor startedAt target priorFailure embedDocuments)"
  unfolding searchReindexPage_def
  by (intro keeps_step keeps_first_key keeps_request_keys keeps_gather_page keeps_retry_publish keeps_reindex_attempt)

end

section \<open>Interpretations\<close>

text \<open>Memory in use is left alone, whatever the calls outside do.\<close>

definition mem_le :: "search_mem \<Rightarrow> search_mem \<Rightarrow> bool" where
  "mem_le m m' \<longleftrightarrow> sm_next m \<le> sm_next m' \<and> (\<forall>a < sm_next m. sm_heap m' a = sm_heap m a)"

interpretation frame: search_order "\<lambda>_ _. True" mem_le E for E
  by unfold_locales (auto simp: mem_le_def)

text \<open>Addresses stay in use.\<close>

interpretation alloc: search_write_order "\<lambda>_ _. True" "\<lambda>m m'. sm_next m \<le> sm_next m'" E for E
  by unfold_locales auto

text \<open>The log of requests only grows, in every operation of search.\<close>

definition search_log :: "('s, 'f) search_env \<Rightarrow> ('s \<times> http_request list, 'f) search_env" where
  "search_log E =
     \<lparr> sv_deps = deps_log (sv_deps E), sv_unicode = sv_unicode E, sv_floats = sv_floats E,
       sv_buckets_configured = sv_buckets_configured E,
       sv_Put = (\<lambda>o' i p k. op_log (sv_Put E o' i p k)), sv_GetLimited = (\<lambda>o' i k n. op_log (sv_GetLimited E o' i k n)),
       sv_Delete = (\<lambda>o' i. op_log (sv_Delete E o' i)), sv_embedder_configured = sv_embedder_configured E,
       sv_Model = sv_Model E,
       sv_embed = (\<lambda>o' ts b ((s, l), m). case sv_embed E o' ts b (s, m) of (r, (s', m')) \<Rightarrow> (r, ((s', l), m'))) \<rparr>"

interpretation logged_search: search_run_order log_le "\<lambda>_ _. True" "search_log E" for E
proof -
  have base: "search_order log_le (\<lambda>_ _. True) (search_log E)"
  proof (intro search_order.intro)
    show "deps_order log_le (sv_deps (search_log E))"
      by (simp add: search_log_def logged.deps_order_axioms)
    show "op_order (\<lambda>_ _ :: search_mem. True)" by unfold_locales auto
    show "search_order_axioms log_le (\<lambda>_ _. True) (search_log E)"
      by unfold_locales (auto simp: search_log_def op_log_def log_le_def)
  qed
  have "search_embed_order_axioms log_le (\<lambda>_ _. True) (search_log E)"
    by unfold_locales (auto simp: search_log_def pair_le_def log_le_def split: prod.split)
  moreover have "search_write_order_axioms (\<lambda>_ _. True)" by unfold_locales simp
  ultimately show "search_run_order log_le (\<lambda>_ _. True) (search_log E)"
    using base by (simp add: search_run_order_def search_embed_order_def search_write_order_def)
qed

end
