(* ===== verification/Search_Jobs.thy ===== *)
theory Search_Jobs
  imports Search_Rebuild
begin

text \<open>
  The reindex jobs of \<^verbatim>\<open>server/search_reindex_job.go\<close>. Jobs live in a heap and are addressed by
  their index, because the coordinator compares pointers. A kickoff has two critical sections with
  a gap between them, and a job's goroutine first waits for the job it replaces: each of these is
  a step of its own, and the interleavings are the transition relation \<open>reindex_step\<close>.
\<close>

section \<open>Jobs\<close>

record reindex_job =
  rj_ID :: string
  rj_UserID :: string
  rj_StartedAt :: gtime
  rj_keyFP :: bytes
  rj_cancelled :: bool
  rj_updatedAt :: gtime
  rj_status :: migration_job_status
  rj_errMsg :: string
  rj_indexed :: int
  rj_failed :: int
  rj_totalIndexed :: nat
  rj_partial :: bool
  rj_done :: bool

text \<open>\<open>rj_cancelled\<close>: the context of the job is done, cancelled or out of time.\<close>

definition newSearchReindexJob :: "string \<Rightarrow> gtime \<Rightarrow> string \<Rightarrow> bytes \<Rightarrow> reindex_job" where
  "newSearchReindexJob jid now userID fp = \<lparr> rj_ID = jid, rj_UserID = userID, rj_StartedAt = now, rj_keyFP = fp,
     rj_cancelled = False, rj_updatedAt = now, rj_status = MigrationJobRunning, rj_errMsg = [], rj_indexed = 0,
     rj_failed = 0, rj_totalIndexed = 0, rj_partial = False, rj_done = False \<rparr>"

definition reindex_event :: "gtime \<Rightarrow> job_event \<Rightarrow> reindex_job \<Rightarrow> reindex_job" where
  "reindex_event now e j =
     (case e of
        ReportPage page \<Rightarrow> j\<lparr> rj_indexed := rj_indexed j + rg_Indexed page, rj_failed := rj_failed j + rg_Failed page,
                              rj_totalIndexed := rg_TotalIndexed page, rj_updatedAt := now \<rparr>
      | MarkJobPartial \<Rightarrow> j\<lparr> rj_partial := True, rj_updatedAt := now \<rparr>)"

text \<open>\<open>None\<close> is the panic of closing a closed channel.\<close>

definition reindex_finish :: "gtime \<Rightarrow> go_error option \<Rightarrow> reindex_job \<Rightarrow> reindex_job option" where
  "reindex_finish now err j =
     (if rj_done j then None
      else Some ((case err of
                    None \<Rightarrow> j\<lparr> rj_status := MigrationJobCompleted \<rparr>
                  | Some e \<Rightarrow> j\<lparr> rj_status := MigrationJobFailed, rj_errMsg := error_string e \<rparr>)
                 \<lparr> rj_updatedAt := now, rj_done := True \<rparr>))"

definition job_running :: "reindex_job \<Rightarrow> bool" where
  "job_running j \<longleftrightarrow> rj_status j = MigrationJobRunning"

definition blocksRestart :: "reindex_job \<Rightarrow> bool" where
  "blocksRestart j \<longleftrightarrow> rj_status j = MigrationJobRunning \<or> rj_status j = MigrationJobCompleted \<and> \<not> rj_partial j"

record reindex_status_response =
  rsr_JobID :: string
  rsr_Status :: string
  rsr_Indexed :: int
  rsr_Failed :: int
  rsr_TotalIndexed :: nat
  rsr_Partial :: bool
  rsr_StartedAt :: string
  rsr_UpdatedAt :: string
  rsr_Error :: string

definition reindexStatusResponse :: "time_lib \<Rightarrow> reindex_job \<Rightarrow> reindex_status_response" where
  "reindexStatusResponse T j =
     \<lparr> rsr_JobID = rj_ID j, rsr_Status = status_string (rj_status j), rsr_Indexed = rj_indexed j, rsr_Failed = rj_failed j,
       rsr_TotalIndexed = rj_totalIndexed j,
       rsr_Partial = (if rj_status j = MigrationJobRunning then True else rj_partial j),
       rsr_StartedAt = (if rj_StartedAt j = zero_time then [] else tm_format T (rj_StartedAt j)),
       rsr_UpdatedAt = (if rj_updatedAt j = zero_time then [] else tm_format T (rj_updatedAt j)),
       rsr_Error = rj_errMsg j \<rparr>"

section \<open>The coordinator\<close>

text \<open>
  Beside the map, its heap and the pending retention timers: the kickoffs that have put a job into
  the map and not yet started its goroutine, with the job they found there; the goroutines that
  wait, with the job they wait for; and the goroutines in the runner.
\<close>

record reindex_coordinator =
  rk_jobs :: "(string \<times> nat) list"
  rk_retention :: gtime
  rk_heap :: "reindex_job list"
  rk_kickoffs :: "(nat \<times> nat option) list"
  rk_waiting :: "(nat \<times> nat option) list"
  rk_runs :: "nat list"
  rk_timers :: "nat list"

definition SearchReindexJobRetention :: gtime where "SearchReindexJobRetention = 300 * 1000000000"

definition NewSearchReindexCoordinator :: reindex_coordinator where
  "NewSearchReindexCoordinator = \<lparr> rk_jobs = [], rk_retention = SearchReindexJobRetention, rk_heap = [], rk_kickoffs = [],
     rk_waiting = [], rk_runs = [], rk_timers = [] \<rparr>"

definition upd_job :: "nat \<Rightarrow> (reindex_job \<Rightarrow> reindex_job) \<Rightarrow> reindex_coordinator \<Rightarrow> reindex_coordinator" where
  "upd_job a f c = c\<lparr> rk_heap := (rk_heap c)[a := f (rk_heap c ! a)] \<rparr>"

definition cancel_job :: "nat \<Rightarrow> reindex_coordinator \<Rightarrow> reindex_coordinator" where
  "cancel_job a c = upd_job a (rj_cancelled_update (\<lambda>_. True)) c"

text \<open>What a kickoff finds: a job to join, one that is joined if its index is healthy, or neither.\<close>

datatype start_outcome = JoinJob nat | CheckIndex nat | StartJob

definition start_look :: "bool \<Rightarrow> string \<Rightarrow> bytes \<Rightarrow> reindex_coordinator \<Rightarrow> start_outcome" where
  "start_look embeddingRepairOnly userID fp c =
     (case map_of (rk_jobs c) userID of
        None \<Rightarrow> StartJob
      | Some a \<Rightarrow>
          (let j = rk_heap c ! a in
           if embeddingRepairOnly \<and> job_running j then JoinJob a
           else if rj_keyFP j = fp then
             (if job_running j then JoinJob a else if blocksRestart j then CheckIndex a else StartJob)
           else StartJob))"

text \<open>Back from the check: \<open>None\<close> starts over, the job in the map is another one by now.\<close>

definition start_recheck :: "string \<Rightarrow> nat \<Rightarrow> bool \<Rightarrow> reindex_coordinator \<Rightarrow> start_outcome option" where
  "start_recheck userID a needsRepair c =
     (if map_of (rk_jobs c) userID \<noteq> Some a then None else Some (if needsRepair then StartJob else JoinJob a))"

definition start_new :: "string \<Rightarrow> gtime \<Rightarrow> string \<Rightarrow> bytes \<Rightarrow> reindex_coordinator \<Rightarrow> nat \<times> reindex_coordinator" where
  "start_new jid now userID fp c =
     (let a = length (rk_heap c) in
      (a, c\<lparr> rk_heap := rk_heap c @ [newSearchReindexJob jid now userID fp], rk_jobs := al_set userID a (rk_jobs c),
             rk_kickoffs := (a, map_of (rk_jobs c) userID) # rk_kickoffs c \<rparr>))"

text \<open>After the lock is released: a job found running is cancelled and waited for.\<close>

definition start_go :: "nat \<Rightarrow> nat option \<Rightarrow> reindex_coordinator \<Rightarrow> reindex_coordinator" where
  "start_go a existing c =
     (let c1 = c\<lparr> rk_kickoffs := removeAll (a, existing) (rk_kickoffs c) \<rparr> in
      case existing of
        None \<Rightarrow> c1\<lparr> rk_waiting := (a, None) # rk_waiting c \<rparr>
      | Some e \<Rightarrow>
          if job_running (rk_heap c ! e) then (cancel_job e c1)\<lparr> rk_waiting := (a, Some e) # rk_waiting c \<rparr>
          else c1\<lparr> rk_waiting := (a, None) # rk_waiting c \<rparr>)"

text \<open>The whole of \<^verbatim>\<open>StartOrGet\<close> for a request that no other one interleaves with.\<close>

definition StartOrGetReindex ::
  "('s, 'f) search_env \<Rightarrow> session \<Rightarrow> search_reindex_request \<Rightarrow> string \<Rightarrow> gtime \<Rightarrow> reindex_coordinator \<Rightarrow>
   's \<times> search_mem \<Rightarrow> ((nat \<times> bool) result \<times> reindex_coordinator) \<times> 's \<times> search_mem" where
  "StartOrGetReindex E sess req jid now c w =
     (let userID = se_Subject sess;
          fp = reindexRequestFingerprint req;
          start = (case start_new jid now userID fp c of
                     (a, c') \<Rightarrow> (Inr (a, True), start_go a (map_of (rk_jobs c) userID) c')) in
      case start_look (ri_embeddingRepairOnly req) userID fp c of
        JoinJob a \<Rightarrow> ((Inr (a, False), c), w)
      | StartJob \<Rightarrow> (start, w)
      | CheckIndex a \<Rightarrow>
          (case op_bind (first_key (ri_Keys req)) (\<lambda>k. searchIndexNeedsRepair E sess k (ri_embeddingRepairOnly req)) w of
             (Inl err, w') \<Rightarrow> ((Inl err, c), w')
           | (Inr needsRepair, w') \<Rightarrow>
               (case start_recheck userID a needsRepair c of
                  Some StartJob \<Rightarrow> (start, w')
                | _ \<Rightarrow> ((Inr (a, False), c), w'))))"

definition ReindexStatus :: "string \<Rightarrow> reindex_coordinator \<Rightarrow> nat option" where
  "ReindexStatus userID c = map_of (rk_jobs c) userID"

definition CancelReindex :: "string \<Rightarrow> reindex_coordinator \<Rightarrow> reindex_coordinator" where
  "CancelReindex userID c =
     (let c1 = c\<lparr> rk_jobs := al_del userID (rk_jobs c) \<rparr> in
      case map_of (rk_jobs c) userID of None \<Rightarrow> c1 | Some a \<Rightarrow> cancel_job a c1)"

definition deleteReindexIfSame :: "nat \<Rightarrow> reindex_coordinator \<Rightarrow> reindex_coordinator" where
  "deleteReindexIfSame a c =
     (let u = rj_UserID (rk_heap c ! a) in
      if map_of (rk_jobs c) u = Some a then c\<lparr> rk_jobs := al_del u (rk_jobs c) \<rparr> else c)"

text \<open>A goroutine goes on when there is nothing to wait for any more, or when its own context is done.\<close>

definition may_run :: "nat \<Rightarrow> nat option \<Rightarrow> reindex_coordinator \<Rightarrow> bool" where
  "may_run a predecessor c \<longleftrightarrow>
     (case predecessor of None \<Rightarrow> True | Some p \<Rightarrow> rj_done (rk_heap c ! p) \<or> rj_cancelled (rk_heap c ! a))"

definition reindex_begin :: "nat \<Rightarrow> nat option \<Rightarrow> reindex_coordinator \<Rightarrow> reindex_coordinator" where
  "reindex_begin a predecessor c =
     c\<lparr> rk_waiting := removeAll (a, predecessor) (rk_waiting c), rk_runs := a # rk_runs c \<rparr>"

text \<open>What \<^verbatim>\<open>run\<close> does once the runner has returned and the job is finished.\<close>

definition reindex_end :: "nat \<Rightarrow> reindex_coordinator \<Rightarrow> reindex_coordinator" where
  "reindex_end a c =
     (let c1 = cancel_job a (c\<lparr> rk_runs := removeAll a (rk_runs c) \<rparr>) in
      if rk_retention c \<le> 0 then deleteReindexIfSame a c1 else c1\<lparr> rk_timers := a # rk_timers c \<rparr>)"

section \<open>Interleavings\<close>

inductive reindex_step :: "reindex_coordinator \<Rightarrow> reindex_coordinator \<Rightarrow> bool" where
  kickoff: "\<not> (\<exists>a. start_look embeddingRepairOnly userID fp c = JoinJob a) \<Longrightarrow> start_new jid now userID fp c = (a, c') \<Longrightarrow>
    reindex_step c c'"
| go: "(a, existing) \<in> set (rk_kickoffs c) \<Longrightarrow> reindex_step c (start_go a existing c)"
| begin_run: "(a, predecessor) \<in> set (rk_waiting c) \<Longrightarrow> may_run a predecessor c \<Longrightarrow> reindex_step c (reindex_begin a predecessor c)"
| report: "a \<in> set (rk_runs c) \<Longrightarrow> reindex_step c (upd_job a (reindex_event now e) c)"
| ended: "a \<in> set (rk_runs c) \<Longrightarrow> reindex_finish now err (rk_heap c ! a) = Some j \<Longrightarrow>
    reindex_step c (reindex_end a (upd_job a (\<lambda>_. j) c))"
| expired: "a \<in> set (rk_timers c) \<Longrightarrow> reindex_step c (deleteReindexIfSame a (c\<lparr> rk_timers := remove1 a (rk_timers c) \<rparr>))"
| cancel: "reindex_step c (CancelReindex userID c)"
| timeout: "a < length (rk_heap c) \<Longrightarrow> reindex_step c (cancel_job a c)"

inductive reindex_reachable :: "reindex_coordinator \<Rightarrow> bool" where
  init: "reindex_reachable (NewSearchReindexCoordinator\<lparr> rk_retention := retention \<rparr>)"
| step: "reindex_reachable c \<Longrightarrow> reindex_step c c' \<Longrightarrow> reindex_reachable c'"

text \<open>
  A kickoff that has found a job to check and comes back while it is still in the map finds what it
  found before: a completed job never changes again, so \<open>kickoff\<close> covers both ways into
  \<open>start_new\<close>.
\<close>

section \<open>The invariant of the coordinator\<close>

text \<open>A job is live while it is neither done nor cancelled.\<close>

definition job_live :: "reindex_coordinator \<Rightarrow> nat \<Rightarrow> bool" where
  "job_live c a \<longleftrightarrow> a < length (rk_heap c) \<and> \<not> rj_done (rk_heap c ! a) \<and> \<not> rj_cancelled (rk_heap c ! a)"

definition owner_of :: "reindex_coordinator \<Rightarrow> nat \<Rightarrow> string" where
  "owner_of c a = rj_UserID (rk_heap c ! a)"

text \<open>A live job is the one in the map, or a kickoff is about to cancel it.\<close>

definition live_known :: "reindex_coordinator \<Rightarrow> bool" where
  "live_known c \<longleftrightarrow> (\<forall>a. job_live c a \<longrightarrow>
     map_of (rk_jobs c) (owner_of c a) = Some a \<or> (\<exists>x. (x, Some a) \<in> set (rk_kickoffs c)))"

definition reindex_inv :: "reindex_coordinator \<Rightarrow> bool" where
  "reindex_inv c \<longleftrightarrow> live_known c
   \<and> (\<forall>u a. map_of (rk_jobs c) u = Some a \<longrightarrow> a < length (rk_heap c) \<and> owner_of c a = u)
   \<and> (\<forall>(a, ex) \<in> set (rk_kickoffs c). a < length (rk_heap c) \<and> (\<forall>e. ex = Some e \<longrightarrow> e < length (rk_heap c)))
   \<and> (\<forall>(a, p) \<in> set (rk_waiting c). a < length (rk_heap c))
   \<and> (\<forall>a \<in> set (rk_runs c). a < length (rk_heap c))
   \<and> (\<forall>a \<in> set (rk_timers c). a < length (rk_heap c) \<and> rj_done (rk_heap c ! a))
   \<and> (\<forall>a < length (rk_heap c). job_running (rk_heap c ! a) \<longleftrightarrow> \<not> rj_done (rk_heap c ! a))"

text \<open>A change of a job that keeps its user, and that may end or cancel it but not revive it.\<close>

definition ages :: "reindex_job \<Rightarrow> reindex_job \<Rightarrow> bool" where
  "ages j j' \<longleftrightarrow> rj_UserID j' = rj_UserID j \<and> (rj_done j \<longrightarrow> rj_done j') \<and> (rj_cancelled j \<longrightarrow> rj_cancelled j')
     \<and> ((job_running j \<longleftrightarrow> \<not> rj_done j) \<longrightarrow> (job_running j' \<longleftrightarrow> \<not> rj_done j'))"

lemma ages_simps: "ages j (reindex_event now e j)" "ages j (rj_cancelled_update (\<lambda>_. True) j)"
  "reindex_finish now err j = Some j' \<Longrightarrow> ages j j' \<and> rj_done j'"
  by (auto simp: ages_def reindex_event_def reindex_finish_def job_running_def split: job_event.splits option.splits if_splits)

lemma upd_job_simps [simp]:
  "rk_jobs (upd_job a f c) = rk_jobs c" "rk_kickoffs (upd_job a f c) = rk_kickoffs c"
  "rk_waiting (upd_job a f c) = rk_waiting c" "rk_runs (upd_job a f c) = rk_runs c"
  "rk_timers (upd_job a f c) = rk_timers c" "length (rk_heap (upd_job a f c)) = length (rk_heap c)"
  "rk_retention (upd_job a f c) = rk_retention c"
  by (simp_all add: upd_job_def)

lemma upd_job_nth: "b < length (rk_heap c) \<Longrightarrow>
    rk_heap (upd_job a f c) ! b = (if a = b then f (rk_heap c ! b) else rk_heap c ! b)"
  by (simp add: upd_job_def nth_list_update)

lemma upd_job_facts:
  assumes "ages (rk_heap c ! a) (f (rk_heap c ! a))" "b < length (rk_heap c)"
  shows "owner_of (upd_job a f c) b = owner_of c b" "job_live (upd_job a f c) b \<Longrightarrow> job_live c b"
    "rj_done (rk_heap c ! b) \<Longrightarrow> rj_done (rk_heap (upd_job a f c) ! b)"
  using assms by (auto simp: owner_of_def job_live_def upd_job_nth ages_def split: if_splits)

lemma reindex_inv_upd:
  assumes "reindex_inv c" "ages (rk_heap c ! a) (f (rk_heap c ! a))"
  shows "reindex_inv (upd_job a f c)"
proof -
  note old = upd_job_facts [of c a f, OF assms(2)]
  have "live_known (upd_job a f c)"
    unfolding live_known_def
  proof (intro allI impI)
    fix b assume b: "job_live (upd_job a f c) b"
    then have "b < length (rk_heap c)" by (simp add: job_live_def)
    then show "map_of (rk_jobs (upd_job a f c)) (owner_of (upd_job a f c) b) = Some b
        \<or> (\<exists>x. (x, Some b) \<in> set (rk_kickoffs (upd_job a f c)))"
      using old [of b] b assms(1) by (auto simp: reindex_inv_def live_known_def)
  qed
  moreover have "job_running (rk_heap (upd_job a f c) ! b) \<longleftrightarrow> \<not> rj_done (rk_heap (upd_job a f c) ! b)"
    if "b < length (rk_heap c)" for b
    using that assms by (auto simp: upd_job_nth reindex_inv_def ages_def)
  ultimately show ?thesis using old assms(1) unfolding reindex_inv_def by (auto simp: owner_of_def)
qed

lemma reindex_inv_lists:
  assumes "reindex_inv c" "rk_heap c' = rk_heap c" "rk_jobs c' = rk_jobs c" "rk_kickoffs c' = rk_kickoffs c"
    and "set (rk_waiting c') \<subseteq> set (rk_waiting c)" "\<forall>a \<in> set (rk_runs c'). a < length (rk_heap c)"
    and "\<forall>a \<in> set (rk_timers c'). a < length (rk_heap c) \<and> rj_done (rk_heap c ! a)"
  shows "reindex_inv c'"
  using assms unfolding reindex_inv_def live_known_def job_live_def owner_of_def by auto

text \<open>Taking a job out of the map that is not live.\<close>

lemma reindex_inv_unmap:
  assumes "reindex_inv c" "\<And>a. map_of (rk_jobs c) u = Some a \<Longrightarrow> \<not> job_live c a"
  shows "reindex_inv (c\<lparr> rk_jobs := al_del u (rk_jobs c) \<rparr>)"
proof -
  let ?c = "c\<lparr> rk_jobs := al_del u (rk_jobs c) \<rparr>"
  have "live_known ?c"
    unfolding live_known_def
  proof (intro allI impI)
    fix b assume "job_live ?c b"
    then have b: "job_live c b" by (simp add: job_live_def)
    then have "map_of (rk_jobs c) (owner_of c b) = Some b \<or> (\<exists>x. (x, Some b) \<in> set (rk_kickoffs c))"
      using assms(1) by (simp add: reindex_inv_def live_known_def)
    then show "map_of (rk_jobs ?c) (owner_of ?c b) = Some b \<or> (\<exists>x. (x, Some b) \<in> set (rk_kickoffs ?c))"
      using assms(2) b by (auto simp: owner_of_def)
  qed
  then show ?thesis using assms(1) unfolding reindex_inv_def by (auto simp: owner_of_def split: if_splits)
qed

lemma reindex_inv_delete:
  assumes "reindex_inv c" "\<not> job_live c a"
  shows "reindex_inv (deleteReindexIfSame a c)"
  using reindex_inv_unmap [OF assms(1), of "rj_UserID (rk_heap c ! a)"] assms by (auto simp: deleteReindexIfSame_def Let_def)

section \<open>Every step keeps it\<close>

lemma reindex_inv_new:
  assumes "reindex_inv c" "start_new jid now u fp c = (a, c')"
  shows "reindex_inv c'"
proof -
  have c': "rk_heap c' = rk_heap c @ [newSearchReindexJob jid now u fp]" "rk_jobs c' = al_set u a (rk_jobs c)"
    "rk_kickoffs c' = (a, map_of (rk_jobs c) u) # rk_kickoffs c" "rk_waiting c' = rk_waiting c" "rk_runs c' = rk_runs c"
    "rk_timers c' = rk_timers c" and a: "a = length (rk_heap c)"
    using assms(2) by (auto simp: start_new_def Let_def)
  have new: "owner_of c' a = u" "job_running (rk_heap c' ! a)" "\<not> rj_done (rk_heap c' ! a)"
    by (simp_all add: c' a owner_of_def newSearchReindexJob_def job_running_def)
  have old: "rk_heap c' ! b = rk_heap c ! b" if "b < length (rk_heap c)" for b
    using that by (simp add: c' nth_append)
  have "live_known c'"
    unfolding live_known_def
  proof (intro allI impI)
    fix b assume live: "job_live c' b"
    show "map_of (rk_jobs c') (owner_of c' b) = Some b \<or> (\<exists>x. (x, Some b) \<in> set (rk_kickoffs c'))"
    proof (cases "b = a")
      case False
      then have b: "b < length (rk_heap c)" using live by (simp add: job_live_def c' a)
      then have "job_live c b" using live old by (simp add: job_live_def)
      then have "map_of (rk_jobs c) (owner_of c b) = Some b \<or> (\<exists>x. (x, Some b) \<in> set (rk_kickoffs c))"
        using assms(1) by (simp add: reindex_inv_def live_known_def)
      then show ?thesis using old [OF b] by (auto simp: c' owner_of_def)
    qed (use new in \<open>simp add: c'\<close>)
  qed
  then show ?thesis using assms(1) new old unfolding reindex_inv_def
    by (auto simp: c' a owner_of_def less_Suc_eq split: if_splits)
qed

lemma reindex_inv_go:
  assumes "reindex_inv c" "(a, existing) \<in> set (rk_kickoffs c)"
  shows "reindex_inv (start_go a existing c)"
proof -
  define c1 where "c1 = (case existing of
      Some e \<Rightarrow> if job_running (rk_heap c ! e) then cancel_job e c else c | None \<Rightarrow> c)"
  have c1: "reindex_inv c1" "rk_kickoffs c1 = rk_kickoffs c" "rk_waiting c1 = rk_waiting c"
    "length (rk_heap c1) = length (rk_heap c)"
    using assms(1) reindex_inv_upd [of c _ "rj_cancelled_update (\<lambda>_. True)"] ages_simps(2)
    by (auto simp: c1_def cancel_job_def split: option.splits)
  have dead: "\<not> job_live c1 e" if "existing = Some e" for e
    using that assms unfolding c1_def reindex_inv_def
    by (auto simp: job_live_def cancel_job_def upd_job_nth)
  have a: "a < length (rk_heap c)" using assms by (auto simp: reindex_inv_def)
  let ?p = "case existing of Some e \<Rightarrow> if job_running (rk_heap c ! e) then Some e else None | None \<Rightarrow> None"
  have eq: "start_go a existing c
      = c1\<lparr> rk_kickoffs := removeAll (a, existing) (rk_kickoffs c1), rk_waiting := (a, ?p) # rk_waiting c1 \<rparr>" (is "_ = ?c2")
    by (simp add: start_go_def c1_def Let_def cancel_job_def upd_job_def split: option.splits)
  have "live_known ?c2"
    unfolding live_known_def
  proof (intro allI impI)
    fix b assume "job_live ?c2 b"
    then have b: "job_live c1 b" by (simp add: job_live_def)
    then have "map_of (rk_jobs c1) (owner_of c1 b) = Some b \<or> (\<exists>x. (x, Some b) \<in> set (rk_kickoffs c1))"
      using c1(1) by (simp add: reindex_inv_def live_known_def)
    then show "map_of (rk_jobs ?c2) (owner_of ?c2 b) = Some b \<or> (\<exists>x. (x, Some b) \<in> set (rk_kickoffs ?c2))"
      using dead b by (auto simp: owner_of_def)
  qed
  then show ?thesis using c1(1,4) a unfolding eq reindex_inv_def by (auto simp: owner_of_def)
qed

lemma reindex_inv_end:
  assumes "reindex_inv c" "a \<in> set (rk_runs c)" "reindex_finish now err (rk_heap c ! a) = Some j"
  shows "reindex_inv (reindex_end a (upd_job a (\<lambda>_. j) c))"
proof -
  let ?c1 = "upd_job a (\<lambda>_. j) c"
  define c2 where "c2 = cancel_job a (?c1\<lparr> rk_runs := removeAll a (rk_runs ?c1) \<rparr>)"
  have a: "a < length (rk_heap c)" and age: "ages (rk_heap c ! a) j" "rj_done j"
    using assms(1,2) ages_simps(3) [OF assms(3)] by (auto simp: reindex_inv_def)
  have "reindex_inv ?c1" using reindex_inv_upd [OF assms(1), of a "\<lambda>_. j"] age by simp
  then have "reindex_inv (?c1\<lparr> rk_runs := removeAll a (rk_runs ?c1) \<rparr>)"
    by (rule reindex_inv_lists) (use assms(1) in \<open>auto simp: reindex_inv_def upd_job_nth age\<close>)
  then have c2: "reindex_inv c2"
    unfolding c2_def cancel_job_def by (rule reindex_inv_upd) (rule ages_simps)
  have fin: "rj_done (rk_heap c2 ! a)" "a < length (rk_heap c2)"
    using a age by (simp_all add: c2_def cancel_job_def upd_job_def)
  have "reindex_inv (c2\<lparr> rk_timers := a # rk_timers ?c1 \<rparr>)"
    by (rule reindex_inv_lists [OF c2]) (use c2 fin in \<open>auto simp: reindex_inv_def c2_def cancel_job_def\<close>)
  moreover have "reindex_inv (deleteReindexIfSame a c2)"
    by (rule reindex_inv_delete [OF c2]) (simp add: job_live_def fin)
  ultimately show ?thesis by (simp add: reindex_end_def Let_def c2_def)
qed

lemma reindex_inv_cancel: "reindex_inv c \<Longrightarrow> reindex_inv (CancelReindex u c)"
proof (cases "map_of (rk_jobs c) u")
  case (Some a)
  assume c: "reindex_inv c"
  let ?c = "cancel_job a c"
  have "reindex_inv ?c" unfolding cancel_job_def by (rule reindex_inv_upd [OF c]) (rule ages_simps)
  moreover have "\<not> job_live ?c b" if "map_of (rk_jobs ?c) u = Some b" for b
    using that Some c by (auto simp: job_live_def cancel_job_def upd_job_nth reindex_inv_def)
  ultimately have "reindex_inv (?c\<lparr> rk_jobs := al_del u (rk_jobs ?c) \<rparr>)" by (rule reindex_inv_unmap)
  moreover have "cancel_job a (c\<lparr> rk_jobs := al_del u (rk_jobs c) \<rparr>) = ?c\<lparr> rk_jobs := al_del u (rk_jobs ?c) \<rparr>"
    by (cases c) (simp add: cancel_job_def upd_job_def)
  ultimately show ?thesis using Some by (simp add: CancelReindex_def)
qed (use reindex_inv_unmap [of c u] in \<open>simp add: CancelReindex_def\<close>)

lemma reindex_inv_step: "reindex_step c c' \<Longrightarrow> reindex_inv c \<Longrightarrow> reindex_inv c'"
proof (induction rule: reindex_step.induct)
  case (begin_run a p c)
  have "a < length (rk_heap c)" using begin_run by (auto simp: reindex_inv_def)
  then show ?case
    by (intro reindex_inv_lists [OF begin_run(3)]) (use begin_run(3) in \<open>auto simp: reindex_begin_def reindex_inv_def\<close>)
next
  case (report a c now e)
  then show ?case by (intro reindex_inv_upd) (auto intro: ages_simps)
next
  case (expired a c)
  let ?c = "c\<lparr> rk_timers := remove1 a (rk_timers c) \<rparr>"
  have "reindex_inv ?c" by (rule reindex_inv_lists [OF expired(2)])
    (use expired(2) in \<open>auto simp: reindex_inv_def dest: notin_set_remove1\<close>)
  then show ?case by (rule reindex_inv_delete) (use expired in \<open>auto simp: reindex_inv_def job_live_def\<close>)
next
  case (timeout a c)
  then show ?case unfolding cancel_job_def by (intro reindex_inv_upd) (auto intro: ages_simps)
qed (auto intro: reindex_inv_new reindex_inv_go reindex_inv_end reindex_inv_cancel)

lemma reindex_reachable_inv: "reindex_reachable c \<Longrightarrow> reindex_inv c"
proof (induction rule: reindex_reachable.induct)
  case init
  show ?case by (simp add: reindex_inv_def live_known_def job_live_def NewSearchReindexCoordinator_def)
qed (rule reindex_inv_step)

section \<open>One rebuild at a time\<close>

text \<open>
  C22. At most one reindex job of a user is live at any time: two jobs of one user that are both
  unfinished and uncancelled are the same job, the one in the coordinator's map, unless a kickoff
  that has replaced one of them is just about to cancel it. This holds after any interleaving of
  kickoffs with any key sets, resets, waiting and running goroutines, progress reports, ends,
  timeouts and retention timers.
\<close>

theorem one_live_rebuild:
  assumes "reindex_reachable c" "job_live c a" "job_live c b" "owner_of c a = owner_of c b"
    and "\<And>x. (x, Some a) \<notin> set (rk_kickoffs c) \<and> (x, Some b) \<notin> set (rk_kickoffs c)"
  shows "a = b \<and> ReindexStatus (owner_of c a) c = Some a"
proof -
  have known: "live_known c" using reindex_reachable_inv [OF assms(1)] by (simp add: reindex_inv_def)
  have "map_of (rk_jobs c) (owner_of c a) = Some a" "map_of (rk_jobs c) (owner_of c b) = Some b"
    using known [unfolded live_known_def, rule_format, OF assms(2)] known [unfolded live_known_def, rule_format, OF assms(3)]
      assms(5) by auto
  then show ?thesis using assms(4) by (metis ReindexStatus_def option.inject)
qed

text \<open>Three kickoffs of one user, each with other keys, while the first job is winding down.\<close>

definition kick :: "bytes \<Rightarrow> reindex_coordinator \<Rightarrow> reindex_coordinator" where
  "kick fp c = (case start_new ''job'' 0 ''u'' fp c of (a, c') \<Rightarrow> start_go a (map_of (rk_jobs c) ''u'') c')"

definition example_first :: reindex_coordinator where
  "example_first = reindex_begin 0 None (kick ''1'' NewSearchReindexCoordinator)"

definition example_third :: reindex_coordinator where
  "example_third = kick ''3'' (kick ''2'' example_first)"

definition example_second_over :: reindex_coordinator where
  "example_second_over =
     (let c = reindex_begin 1 (Some 0) example_third in
      reindex_end 1 (upd_job 1 (\<lambda>j. the (reindex_finish 0 None j)) c))"

definition example_overlap :: reindex_coordinator where
  "example_overlap = reindex_begin 2 (Some 1) example_second_over"

lemma kick_reachable:
  assumes "reindex_reachable c" "start_look False ''u'' fp c = StartJob"
  shows "reindex_reachable (kick fp c)"
proof -
  obtain a c' where new: "start_new ''job'' 0 ''u'' fp c = (a, c')" by (metis surj_pair)
  then have kicked: "(a, map_of (rk_jobs c) ''u'') \<in> set (rk_kickoffs c')" by (auto simp: start_new_def Let_def)
  have "reindex_reachable c'"
    by (rule reindex_reachable.step [OF assms(1) reindex_step.kickoff [of False, OF _ new]]) (simp add: assms(2))
  then have "reindex_reachable (start_go a (map_of (rk_jobs c) ''u'') c')"
    by (rule reindex_reachable.step) (rule reindex_step.go [OF kicked])
  then show ?thesis by (simp add: kick_def new)
qed

lemma example_first_reachable: "reindex_reachable example_first"
proof -
  have "reindex_reachable NewSearchReindexCoordinator"
    using reindex_reachable.init [of SearchReindexJobRetention] by (simp add: NewSearchReindexCoordinator_def)
  then have "reindex_reachable (kick ''1'' NewSearchReindexCoordinator)"
    by (rule kick_reachable) code_simp
  then show ?thesis unfolding example_first_def
    by (rule reindex_reachable.step) (rule reindex_step.begin_run; code_simp)
qed

lemma example_overlap_reachable: "reindex_reachable example_overlap"
proof -
  have "reindex_reachable (kick ''2'' example_first)"
    by (rule kick_reachable [OF example_first_reachable]) code_simp
  then have "reindex_reachable example_third" unfolding example_third_def
    by (rule kick_reachable) code_simp
  then have "reindex_reachable (reindex_begin 1 (Some 0) example_third)"
    by (rule reindex_reachable.step) (rule reindex_step.begin_run; code_simp)
  then have "reindex_reachable example_second_over"
    unfolding example_second_over_def Let_def
  proof (rule reindex_reachable.step)
    let ?c = "reindex_begin 1 (Some 0) example_third"
    have "1 \<in> set (rk_runs ?c)" by code_simp
    moreover have "reindex_finish 0 None (rk_heap ?c ! 1) = Some (the (reindex_finish 0 None (rk_heap ?c ! 1)))"
      by code_simp
    ultimately have "reindex_step ?c (reindex_end 1 (upd_job 1 (\<lambda>_. the (reindex_finish 0 None (rk_heap ?c ! 1))) ?c))"
      by (rule reindex_step.ended)
    then show "reindex_step ?c (reindex_end 1 (upd_job 1 (\<lambda>j. the (reindex_finish 0 None j)) ?c))"
      by (simp add: upd_job_def)
  qed
  then show ?thesis unfolding example_overlap_def
    by (rule reindex_reachable.step) (rule reindex_step.begin_run; code_simp)
qed

theorem one_live_rebuild_witness:
  "\<exists>c. reindex_reachable c \<and> job_live c 2 \<and> ReindexStatus (owner_of c 2) c = Some 2"
proof -
  have live: "job_live example_overlap 2" "rk_kickoffs example_overlap = []" by code_simp+
  then show ?thesis
    using one_live_rebuild [OF example_overlap_reachable live(1) live(1) refl] example_overlap_reachable by auto
qed

text \<open>
  A new rebuild does not always wait for the one before it to wind down, as the comment in
  \<^verbatim>\<open>StartOrGet\<close> says. A job that is replaced while it waits is cancelled, which ends its waiting at
  once; its successor then only waits for it, and starts while the job before both is still in its
  runner. Here two jobs of one user are in the runner, the older one cancelled and unfinished.
\<close>

theorem rebuilds_can_overlap:
  "\<exists>c a b. reindex_reachable c \<and> a \<noteq> b \<and> a \<in> set (rk_runs c) \<and> b \<in> set (rk_runs c) \<and> owner_of c a = owner_of c b
     \<and> job_live c b \<and> \<not> rj_done (rk_heap c ! a) \<and> rk_kickoffs c = []"
proof -
  have "0 \<noteq> (2::nat) \<and> 0 \<in> set (rk_runs example_overlap) \<and> 2 \<in> set (rk_runs example_overlap)
     \<and> owner_of example_overlap 0 = owner_of example_overlap 2 \<and> job_live example_overlap 2
     \<and> \<not> rj_done (rk_heap example_overlap ! 0) \<and> rk_kickoffs example_overlap = []"
    by code_simp
  with example_overlap_reachable show ?thesis by blast
qed

end
