(* ===== verification/Search_End.thy ===== *)
theory Search_End
  imports Search_Order Search_Jobs
begin

text \<open>
  A reindex job ends. The contract of \<^verbatim>\<open>Search_Order\<close> is interpreted on the clock: no operation of
  search turns it back, and a page of a rebuild that succeeds takes time, so the page loop of
  \<^verbatim>\<open>runSearchReindex\<close> leaves its budget before the fuel is used up.
\<close>

definition search_clock :: "('s, 'f) search_env \<Rightarrow> bool" where
  "search_clock E \<longleftrightarrow> clock_ok (sv_deps E)
     \<and> (\<forall>o' i p k s. dp_now (sv_deps E) s \<le> dp_now (sv_deps E) (snd (sv_Put E o' i p k s)))
     \<and> (\<forall>o' i k n s. dp_now (sv_deps E) s \<le> dp_now (sv_deps E) (snd (sv_GetLimited E o' i k n s)))
     \<and> (\<forall>o' i s. dp_now (sv_deps E) s \<le> dp_now (sv_deps E) (snd (sv_Delete E o' i s)))
     \<and> (\<forall>o' ts b w. dp_now (sv_deps E) (fst w) \<le> dp_now (sv_deps E) (fst (snd (sv_embed E o' ts b w))))"

lemma search_clock_order:
  assumes "search_clock E"
  shows "search_run_order (\<lambda>s s'. dp_now (sv_deps E) s \<le> dp_now (sv_deps E) s') (\<lambda>_ _. True) E"
proof -
  have base: "search_order (\<lambda>s s'. dp_now (sv_deps E) s \<le> dp_now (sv_deps E) s') (\<lambda>_ _. True) E"
  proof (intro search_order.intro)
    show "deps_order (\<lambda>s s'. dp_now (sv_deps E) s \<le> dp_now (sv_deps E) s') (sv_deps E)"
      using assms by (intro clock_order) (simp add: search_clock_def)
    show "op_order (\<lambda>_ _ :: search_mem. True)" by unfold_locales auto
    show "search_order_axioms (\<lambda>s s'. dp_now (sv_deps E) s \<le> dp_now (sv_deps E) s') (\<lambda>_ _. True) E"
      using assms by unfold_locales (auto simp: search_clock_def)
  qed
  have "search_embed_order_axioms (\<lambda>s s'. dp_now (sv_deps E) s \<le> dp_now (sv_deps E) s') (\<lambda>_ _. True) E"
    using assms by unfold_locales (auto simp: search_clock_def pair_le_def)
  moreover have "search_write_order_axioms (\<lambda>_ _. True)" by unfold_locales simp
  ultimately show ?thesis
    using base by (simp add: search_run_order_def search_embed_order_def search_write_order_def)
qed

lemma search_clock_job [simp]: "search_clock (job_env E deadline) \<longleftrightarrow> search_clock E"
  by (simp add: search_clock_def job_env_def detached_def clock_ok_def)

text \<open>A pull of a whole page has to list first.\<close>

lemma ListStatus_advances:
  assumes "clock_ok D" "ListStatus c (dp_net D) scope cursor limit jwt user pid direction s = (Inr out, s')"
  shows "dp_now D s < dp_now D s'"
  using assms(1) assms(2) [unfolded ListStatus_def Let_def]
  by (rule exchange_advances) (intro keeps_cases same_state.keeps_prim)

lemma Pull_advances:
  assumes "clock_ok D" "Pull D sess req s = (Inr out, s')" "pq_IDs req = []"
  shows "dp_now D s < dp_now D s'"
proof -
  note ord = clock_order [OF assms(1)]
  from assms(2,3) obtain limit l s1 b s2 ids keys tk kid where
    l: "ListStatus (dp_cp D) (dp_net D) (pq_Scope req) (pq_Cursor req) limit (se_RawJWT sess) (se_Subject sess) [] [] s = (Inr l, s1)"
    and b: "currentPrimaryKeyIs D sess kid s1 = (Inr b, s2)"
    and s': "s' = snd (pull_distinct (\<lambda>i. pullOne D sess (pq_Scope req) i keys tk kid b) ids [] s2)"
    by (auto simp: Pull_def Let_def op_inv case_prod_eq split: if_splits) (metis snd_conv)+
  have "dp_now D s2 \<le> dp_now D s'" unfolding s' by (rule deps_order.keeps_pull_distinct [OF ord]) (rule deps_order.keeps_pullOne [OF ord])
  with ListStatus_advances [OF assms(1) l] op_keepsD [OF deps_order.keeps_currentPrimaryKeyIs [OF ord] b] show ?thesis by linarith
qed

definition now_of :: "('s, 'f) search_env \<Rightarrow> 's \<times> search_mem \<Rightarrow> gtime" where
  "now_of E w = dp_now (sv_deps E) (fst w)"

lemma page_advances:
  assumes "search_clock E" "searchReindexPage E sess keys cursor startedAt target prior embedDocuments w = (Inr page, w')"
  shows "now_of E w < now_of E w'"
proof -
  note W = search_clock_order [OF assms(1)]
  note O = W [THEN search_run_order.axioms(1)] and C = W [THEN search_run_order.axioms(2)]
  note R = O [THEN search_embed_order.axioms(1)]
  note mono = op_keepsD [where le = "pair_le (\<lambda>s s'. dp_now (sv_deps E) s \<le> dp_now (sv_deps E) s') (\<lambda>_ _. True)"]
  from assms(2) obtain key64 w1 keyID indexKey w2 g w3 where
    k: "first_key keys w = (Inr key64, w1)" and r: "request_keys E key64 w1 = (Inr (keyID, indexKey), w2)"
    and g: "gather_page E sess keys cursor embedDocuments w2 = (Inr g, w3)"
    and rest: "retry_publish maxSearchPublishRetries ''search index reindex publication retries exhausted''
       (reindex_attempt E sess indexKey keyID cursor startedAt target prior g) w3 = (Inr page, w')"
    by (auto simp: searchReindexPage_def op_inv case_prod_beta)
  from g obtain items next_cursor s4 where
    p: "Pull (sv_deps E) sess \<lparr> pq_Scope = ScopeChat, pq_IDs = [], pq_All = True, pq_Cursor = cursor,
          pq_Limit = int reindexPageSize, pq_Keys = keys \<rparr> (fst w2) = (Inr (items, next_cursor), s4)"
    and e: "op_bind (page_embed E sess embedDocuments (page_texts (page_chats items))) (\<lambda>(vectors, embeddingFailed).
       op_ret \<lparr> ga_chats = page_chats items, ga_failed = page_failures items, ga_next = next_cursor,
              ga_vectors = vectors, ga_embeddingFailed = embeddingFailed \<rparr>) (s4, snd w2) = (Inr g, w3)"
    by (auto simp: gather_page_def Let_def op_bind_eq_Inr out_op_def split: prod.splits)
  have "dp_now (sv_deps E) (fst w2) < dp_now (sv_deps E) s4"
    using Pull_advances [OF _ p] assms(1) by (simp add: search_clock_def)
  moreover have "pair_le (\<lambda>s s'. dp_now (sv_deps E) s \<le> dp_now (sv_deps E) s') (\<lambda>_ _. True) (s4, snd w2) w3"
    using e by (rule mono [rotated]) (intro search_order.keeps_step [OF R] search_embed_order.keeps_page_embed [OF O])
  ultimately show ?thesis
    using mono [OF search_order.keeps_first_key [OF R] k] mono [OF search_order.keeps_request_keys [OF R] r]
      mono [OF search_order.keeps_retry_publish [OF R search_write_order.keeps_reindex_attempt [OF C]] rest]
    by (simp add: now_of_def pair_le_def)
qed

lemma reindex_loop_returns:
  assumes "search_clock E" "nat (deadline - now_of E w) < fuel"
  shows "\<exists>r w'. reindex_loop fuel (job_env E deadline) sess keys cursor startedAt target cf emb ev w = Some (r, w')"
  using assms(2)
proof (induction fuel arbitrary: cursor startedAt target cf emb ev w)
  case (Suc n)
  let ?E = "job_env E deadline"
  have now: "now_of ?E u = now_of E u" for u by (simp add: now_of_def job_env_def detached_def)
  have ctx: "ctx_done ?E u \<longleftrightarrow> deadline \<le> now_of E u" for u
    by (simp add: ctx_done_def job_env_def detached_def now_of_def)
  show ?case
  proof (cases "deadline \<le> now_of E w")
    case go: False
    obtain r w1 where p: "searchReindexPage ?E sess keys cursor startedAt target cf emb w = (r, w1)" by (metis surj_pair)
    show ?thesis
    proof (cases r)
      case (Inr page)
      have "now_of E w < now_of E w1"
        using page_advances [of ?E sess keys cursor startedAt target cf emb w page w1] p Inr assms(1) now by simp
      then have "nat (deadline - now_of E w1) < n" using Suc.prems go by linarith
      then show ?thesis using go p Inr Suc.IH by (simp add: ctx Let_def)
    qed (use go p in \<open>simp add: ctx\<close>)
  qed (simp add: ctx)
qed simp

lemma runSearchReindex_returns:
  assumes "search_clock E" "nat (deadline - now_of E w) < fuel"
  shows "\<exists>r w'. runSearchReindex fuel (job_env E deadline) sess req startedAt w = Some (r, w')"
proof -
  let ?E = "job_env E deadline"
  have "search_clock ?E" using assms(1) by simp
  note R = search_clock_order [OF this, THEN search_run_order.axioms(1), THEN search_embed_order.axioms(1)]
  obtain r w1 where st: "reindex_start ?E sess (ri_Keys req) startedAt w = (r, w1)" by (metis surj_pair)
  have "now_of E w \<le> now_of E w1"
    using op_keepsD [OF search_order.keeps_reindex_start [OF R] st] by (simp add: now_of_def pair_le_def job_env_def detached_def)
  then have fuel: "nat (deadline - now_of E w1) < fuel" using assms(2) by linarith
  show ?thesis
    using reindex_loop_returns [OF assms(1) fuel] st
    by (cases r; cases "runSearchEmbeddingRepair ?E sess (ri_Keys req) w") (auto simp: runSearchReindex_def rebuild_run_def)
qed

section \<open>What the end of a run means\<close>

lemma page_events_clean: "MarkJobPartial \<notin> set (page_events page) \<longleftrightarrow> rg_Failed page \<le> 0 \<and> \<not> (rg_Done page \<and> rg_Partial page)"
  by (auto simp: page_events_def)

lemma reindex_loop_clean:
  assumes "reindex_loop n E sess keys cursor startedAt target cf emb ev w = Some (Inr (None, ev'), w')"
    and "MarkJobPartial \<notin> set ev'"
  shows "\<not> cf \<and> (\<exists>pages. ev' = ev @ map ReportPage pages \<and> pages \<noteq> [] \<and> rg_Done (last pages)
      \<and> \<not> rg_Partial (last pages) \<and> (\<forall>p \<in> set pages. rg_Failed p \<le> 0))"
  using assms
proof (induction n arbitrary: cursor startedAt target cf emb ev w)
  case (Suc n)
  obtain r w1 where p: "searchReindexPage E sess keys cursor startedAt target cf emb w = (r, w1)" by (metis surj_pair)
  show ?case
  proof (cases r)
    case (Inl err)
    then show ?thesis using Suc.prems p by (auto split: if_splits)
  next
    case (Inr page)
    have not_ctx: "\<not> ctx_done E w" using Suc.prems by (auto split: if_splits)
    show ?thesis
    proof (cases "rg_Done page")
      case True
      then have e: "ev' = ev @ page_events page" and f: "\<not> (cf \<or> 0 < rg_Failed page \<or> rg_Partial page)"
        using Suc.prems(1) p Inr not_ctx by (auto simp: Let_def run_end_of_def split: if_splits)
      then show ?thesis using True by (intro conjI exI [of _ "[page]"]) (auto simp: page_events_def)
    next
      case False
      from Suc.prems(1) p Inr not_ctx False
      have rec: "reindex_loop n E sess keys (rg_NextCursor page) (rg_ResumeStartedAt page) (rg_ResumeTargetSourceRevision page)
          (cf \<or> 0 < rg_Failed page) (emb \<and> \<not> rg_EmbeddingFailed page) (ev @ page_events page) w1 = Some (Inr (None, ev'), w')"
        by (simp add: Let_def)
      from Suc.IH [OF rec Suc.prems(2)] obtain pages where
        cf: "\<not> (cf \<or> 0 < rg_Failed page)" and e: "ev' = (ev @ page_events page) @ map ReportPage pages" and
        ps: "pages \<noteq> []" "rg_Done (last pages)" "\<not> rg_Partial (last pages)" "\<forall>p \<in> set pages. rg_Failed p \<le> 0"
        by blast
      have "page_events page = [ReportPage page]" using cf False by (simp add: page_events_def)
      then show ?thesis using cf e ps by (intro conjI exI [of _ "page # pages"]) auto
    qed
  qed
qed simp

text \<open>\<^verbatim>\<open>run\<close>: the job is told what the runner reports and finished with its error. A panic ends the process.\<close>

definition run_reindex_job ::
  "nat \<Rightarrow> ('s, 'f) search_env \<Rightarrow> gtime \<Rightarrow> session \<Rightarrow> search_reindex_request \<Rightarrow> (nat \<Rightarrow> gtime) \<Rightarrow> reindex_job \<Rightarrow>
   's \<times> search_mem \<Rightarrow> (reindex_job option \<times> 's \<times> search_mem) option" where
  "run_reindex_job fuel E deadline sess req tick job w =
     (case runSearchReindex fuel (job_env E deadline) sess req (rj_StartedAt job) w of
        None \<Rightarrow> None
      | Some (Inl _, w') \<Rightarrow> Some (None, w')
      | Some (Inr (err, events), w') \<Rightarrow>
          Some (reindex_finish (tick (length events)) err
                  (fold (\<lambda>(t, e). reindex_event t e) (zip (map tick [0..<length events]) events) job), w'))"

lemma reindex_event_flags:
  "rj_done (reindex_event t e j) = rj_done j" "rj_partial (reindex_event t e j) \<longleftrightarrow> rj_partial j \<or> e = MarkJobPartial"
  by (auto simp: reindex_event_def split: job_event.split)

lemma replay_flags:
  "rj_done (fold (\<lambda>(t, e). reindex_event t e) evs j) = rj_done j"
  "rj_partial (fold (\<lambda>(t, e). reindex_event t e) evs j) \<longleftrightarrow> rj_partial j \<or> MarkJobPartial \<in> snd ` set evs"
  by (induction evs arbitrary: j) (auto simp: reindex_event_flags case_prod_beta)


definition counting_search :: "(unit \<times> http_request list, int) search_env" where
  "counting_search = \<lparr> sv_deps = counting_deps, sv_unicode = \<lparr> uc_lower = (\<lambda>s. s), uc_word = (\<lambda>_. False) \<rparr>,
     sv_floats = example_floats, sv_buckets_configured = True, sv_Put = (\<lambda>_ _ _ _. op_ret ()),
     sv_GetLimited = (\<lambda>_ _ _ _. op_err (ESent ErrBucketNotFound)), sv_Delete = (\<lambda>_ _. op_ret ()),
     sv_embedder_configured = True, sv_Model = ''m'', sv_embed = (\<lambda>_ texts _. op_ret (map (\<lambda>_. []) texts)) \<rparr>"

lemma counting_search_clock: "search_clock counting_search"
  by (auto simp: search_clock_def counting_search_def counting_clock op_ret_def op_err_def)

definition example_reindex :: search_reindex_request where
  "example_reindex = \<lparr> ri_Keys = [example_pull_key], ri_embeddingRepairOnly = False \<rparr>"

definition empty_mem :: search_mem where
  "empty_mem = \<lparr> sm_heap = (\<lambda>_. index_New []), sm_next = 0, sm_cache = None \<rparr>"


end
