(* ===== verification/Search_Faults.thy ===== *)
theory Search_Faults
  imports Search_End Stub_Registry
begin

text \<open>
  Two ways a rebuild goes wrong, as theorems on the model: a page with a chat that cannot be indexed
  ends the rebuild, and a page that fails after it has removed the old entries leaves a cached index
  that was never stored.
\<close>

section \<open>A page that cannot be resumed\<close>

lemma mem_ops: "mem_read a w = (Inr (sm_heap (snd w) a), w)"
  "mem_write a ix w = (Inr (), (fst w, (snd w)\<lparr> sm_heap := (sm_heap (snd w))(a := ix) \<rparr>))"
  by (simp_all add: mem_read_def mem_write_def mem_op_def)

lemma frameD: "pair_le (\<lambda>_ _. True) mem_le w w' \<Longrightarrow> a < sm_next (snd w) \<Longrightarrow>
    a < sm_next (snd w') \<and> sm_heap (snd w') a = sm_heap (snd w) a"
  by (auto simp: pair_le_def mem_le_def)

text \<open>The checkpoint that a page leaves in the index it has written.\<close>

lemma page_checkpoint:
  assumes "reindex_write E sess indexKey keyID cursor startedAt target prior g publication compatible a st w = (Inr (Some page), w')"
    and "a < sm_next (snd w)"
  shows "\<exists>failed incomplete. a < sm_next (snd w') \<and> rg_Failed page = failed \<and> rg_NextCursor page = ga_next g
     \<and> rg_Done page = (ga_next g = [])
     \<and> ix_Reindex (sm_heap (snd w') a) = next_checkpoint (net_time (dp_net (sv_deps E))) incomplete prior failed (ga_next g) target startedAt"
proof -
  let ?T = "net_time (dp_net (sv_deps E))"
  from assms(1) obtain u1 w1 indexed f w2 where
    rm: "(if cursor = [] then remove_all a (stale_ids ?T target startedAt (sm_heap (snd w) a)) else op_ret ()) w = (Inr u1, w1)"
    and ixd: "index_page_chats E sess a target startedAt (ga_vectors g) 0 (ga_chats g) w1 = (Inr (indexed, f), w2)"
    and rest: "op_bind (mem_checkpoint a (next_checkpoint ?T
        (page_incomplete compatible st cursor (ga_next g) prior (ga_failed g + f) publication target) prior (ga_failed g + f) (ga_next g) target startedAt)
        (page_incomplete compatible st cursor (ga_next g) prior (ga_failed g + f) publication target)) (\<lambda>chats.
      publish_or_retry E sess publication indexKey keyID (max target (sis_PublishedSourceRevision publication))
        (page_incomplete compatible st cursor (ga_next g) prior (ga_failed g + f) publication target) a
        \<lparr> rg_Indexed = indexed, rg_Failed = ga_failed g + f, rg_EmbeddingFailed = ga_embeddingFailed g,
          rg_NextCursor = ga_next g, rg_Done = (ga_next g = []),
          rg_Partial = page_incomplete compatible st cursor (ga_next g) prior (ga_failed g + f) publication target,
          rg_TotalIndexed = chats, rg_ResumeStartedAt = startedAt, rg_ResumeTargetSourceRevision = target \<rparr>) w2 = (Inr (Some page), w')"
    by (auto simp: reindex_write_def Let_def op_bind_eq_Inr mem_ops case_prod_beta)
  let ?inc = "page_incomplete compatible st cursor (ga_next g) prior (ga_failed g + f) publication target"
  let ?rp = "next_checkpoint ?T ?inc prior (ga_failed g + f) (ga_next g) target startedAt"
  have "pair_le (\<lambda>_ _. True) (\<lambda>m m'. sm_next m \<le> sm_next m') w w1"
    using rm by (rule op_keepsD [rotated]) (intro alloc.keeps_step alloc.keeps_remove_all)
  moreover have "pair_le (\<lambda>_ _. True) (\<lambda>m m'. sm_next m \<le> sm_next m') w1 w2"
    using ixd by (rule op_keepsD [rotated]) (rule alloc.keeps_index_page_chats)
  ultimately have a2: "a < sm_next (snd w2)" using assms(2) by (simp add: pair_le_def)
  define m3 where "m3 = (snd w2)\<lparr> sm_heap := (sm_heap (snd w2))(a := (sm_heap (snd w2) a)\<lparr> ix_Reindex := ?rp, ix_Incomplete := ?inc \<rparr>) \<rparr>"
  obtain x where pub: "publish_or_retry E sess publication indexKey keyID (max target (sis_PublishedSourceRevision publication)) ?inc a x
      (fst w2, m3) = (Inr (Some page), w')"
    and x: "rg_Failed x = ga_failed g + f" "rg_NextCursor x = ga_next g" "rg_Done x = (ga_next g = [])"
    using rest by (auto simp: mem_checkpoint_def op_bind_eq_Inr mem_ops m3_def)
  have "a < sm_next (snd w') \<and> sm_heap (snd w') a = sm_heap m3 a"
    using frameD [OF op_keepsD [OF frame.keeps_publish_or_retry pub]] a2 by (simp add: m3_def)
  moreover have "page = x"
    using pub by (auto simp: publish_or_retry_def op_try_def op_ret_def op_err_def split: prod.splits sum.splits if_splits)
  ultimately show ?thesis using x by (intro exI [of _ "ga_failed g + f"] exI [of _ ?inc]) (simp add: m3_def)
qed


section \<open>A small world\<close>

text \<open>
  The controlplane knows the publication \<open>faulty_state\<close> and accepts every other one the same way; any
  other request fails. The world counts what is stored in and deleted from the search bucket.
\<close>

definition faulty_object :: string where
  "faulty_object = searchIndexObjectPrefix @ ''-'' @ itoa 0 @ ''-'' @ hex_encode (replicate 16 (CHR ''r''))"

definition faulty_state :: search_index_state where
  "faulty_state = \<lparr> sis_SourceRevision = 0, sis_PublicationGeneration = 0, sis_FenceGeneration = 0,
     sis_PublishedSourceRevision = 0, sis_ObjectKey = faulty_object, sis_KeyID = ''k'', sis_Model = ''m'',
     sis_Incomplete = False, sis_PublicationIncomplete = False \<rparr>"

definition faulty_answer :: http_response where
  "faulty_answer = \<lparr> rs_Status = 200, rs_Header = [], rs_Body = json_encode (enc_search_state faulty_state), rs_Broken = False \<rparr>"

definition faulty_net :: "nat net" where
  "faulty_net = \<lparr> net_url_ok = (\<lambda>_. True),
     net_do = (\<lambda>q s. (if rq_URL q = cl_baseURL example_client @ SearchIndexStatePath then Inr faulty_answer else Inl (ELib ''net''), s)),
     net_ctx_err = (\<lambda>_. False), net_time = \<lparr> tm_parse = (\<lambda>_. None), tm_format = (\<lambda>_. []) \<rparr> \<rparr>"

definition faulty_env :: "(nat, int) search_env" where
  "faulty_env = \<lparr> sv_deps = example_deps faulty_net (\<lambda>_. 0), sv_unicode = \<lparr> uc_lower = (\<lambda>s. s), uc_word = (\<lambda>_. False) \<rparr>,
     sv_floats = example_floats, sv_buckets_configured = True, sv_Put = (\<lambda>_ _ _ _ n. (Inr (), Suc n)),
     sv_GetLimited = (\<lambda>_ _ _ _. op_err (ESent ErrBucketNotFound)), sv_Delete = (\<lambda>_ _ n. (Inr (), Suc n)),
     sv_embedder_configured = True, sv_Model = ''m'', sv_embed = (\<lambda>_ texts _. op_ret (map (\<lambda>_. []) texts)) \<rparr>"

lemma faulty_deps: "sv_deps faulty_env = example_deps faulty_net (\<lambda>_. 0)" "dp_net (example_deps N t) = N"
    "dp_cp (example_deps N t) = example_client" "sv_Model faulty_env = ''m''"
  by (simp_all add: faulty_env_def example_deps_def)

lemma faulty_decodes: "unmarshal dec_search_state (rs_Body faulty_answer) = Some faulty_state"
proof -
  have obj: "faulty_object = ''search-index-v1-0-72727272727272727272727272727272''" by code_simp
  have num: "num_start (itoa 0) \<and> num_ok (itoa 0)" using json_ok_itoa [of _ 0] by simp
  have ok: "json_ok 10000 (enc_search_state faulty_state)"
    by (simp add: enc_search_state_def faulty_state_def obj jint_def j_omit_def num is_ascii_def)
  have "Option.bind (struct_members (enc_search_state faulty_state)) dec_search_state = Some faulty_state"
    by (simp add: enc_search_state_def faulty_state_def jint_def j_omit_def obj struct_members_def dec_search_state_def
        field_values_def parse_int64_itoa)
  then show ?thesis by (simp add: faulty_answer_def unmarshal_def json_parse_encode [OF ok])
qed

lemma faulty_read: "read_limited 1048576 faulty_answer = (rs_Body faulty_answer, False)"
proof -
  have "length (rs_Body faulty_answer) \<le> 1000" by code_simp
  then show ?thesis by (simp add: read_limited_def faulty_answer_def)
qed

lemma faulty_send:
  "send example_client faulty_net meth (cl_baseURL example_client @ SearchIndexStatePath) body hs s = (Inr faulty_answer, s)"
  by (simp add: send_def NewRequest_def doRequest_def faulty_net_def op_bind_def op_try_def op_lift_def op_ret_def)

lemma faulty_get: "get_state faulty_env sess w = (Inr faulty_state, w)"
  by (simp add: get_state_def out_op_def GetSearchIndexState_def faulty_deps faulty_send op_bind_def op_try_def
      faulty_decodes faulty_read op_ret_def faulty_answer_def [THEN arg_cong [where f = rs_Status]])

lemma faulty_publish: "PublishSearchIndex example_client faulty_net req s = (Inr faulty_state, s)"
  by (simp add: PublishSearchIndex_def faulty_send op_bind_def op_try_def Let_def
      faulty_decodes faulty_read op_ret_def faulty_answer_def [THEN arg_cong [where f = rs_Status]])

text \<open>A memory with one index, and a cache that just holds it.\<close>

definition faulty_mem :: "bytes \<Rightarrow> search_index \<Rightarrow> search_index \<Rightarrow> search_mem" where
  "faulty_mem indexKey ix room = \<lparr> sm_heap = (\<lambda>_. ix), sm_next = 1,
     sm_cache = Some \<lparr> sc_budget = int (length (index_Encode room)), sc_total = 0,
       sc_lru = [\<lparr> ce_owner = ''user_1'', ce_ix = 0, ce_keyHash = searchCacheKey indexKey faulty_object, ce_size = 0 \<rparr>] \<rparr> \<rparr>"

lemma faulty_load:
  assumes "ix_Model (sm_heap m 0) = ''m''"
    and "sm_cache m = Some \<lparr> sc_budget = b, sc_total = t,
       sc_lru = [\<lparr> ce_owner = ''user_1'', ce_ix = 0, ce_keyHash = searchCacheKey indexKey faulty_object, ce_size = z \<rparr>] \<rparr>"
  shows "loadSearchIndex faulty_env ''user_1'' faulty_object indexKey (n, m) = (Inr (0, LoadOK), (n, m))"
proof -
  have "faulty_object \<noteq> []" by code_simp
  then show ?thesis using assms
    by (simp add: loadSearchIndex_def op_bind_def op_try_def SearchCache_get_def mem_op_def cache_get_def cache_find_def
        mem_ops faulty_deps Compatible_def op_ret_def)
qed

lemma faulty_save:
  assumes "sm_heap m 0 = ix" "sm_cache m = sm_cache (faulty_mem indexKey ix' ix)"
  shows "publishSearchIndex faulty_env example_session faulty_state indexKey keyID covered incomplete 0 (n, m)
    = (Inr faulty_state, (n + 2, m\<lparr> sm_cache := Some \<lparr> sc_budget = int (length (index_Encode ix)), sc_total = int (length (index_Encode ix)),
        sc_lru = [\<lparr> ce_owner = ''user_1'', ce_ix = 0, ce_keyHash = searchCacheKey indexKey faulty_object,
                    ce_size = int (length (index_Encode ix)) \<rparr>] \<rparr> \<rparr>))"
proof -
  have key: "newSearchIndexObjectKey (example_deps faulty_net (\<lambda>_. 0)) 0 n = (Inr faulty_object, n)" for n
    by (simp add: newSearchIndexObjectKey_def with_entropy_def example_deps_def example_entropy_def rand_read_def faulty_object_def)
  have obj: "faulty_object \<noteq> []" by code_simp
  have save: "saveSearchIndex faulty_env ''user_1'' faulty_object indexKey 0 (n, m)
    = (Inr (), (Suc n, m\<lparr> sm_cache := Some \<lparr> sc_budget = int (length (index_Encode ix)), sc_total = int (length (index_Encode ix)),
        sc_lru = [\<lparr> ce_owner = ''user_1'', ce_ix = 0, ce_keyHash = searchCacheKey indexKey faulty_object,
                    ce_size = int (length (index_Encode ix)) \<rparr>] \<rparr> \<rparr>))"
    using assms
    by (simp add: saveSearchIndex_def op_bind_def op_try_def mem_ops Let_def out_op_def faulty_env_def SearchCache_put_def
        faulty_mem_def cache_put_def cache_drop_def cache_find_def removeLocked_def cache_evict.simps)
  show ?thesis
    by (simp add: publishSearchIndex_def op_bind_def op_try_def out_op_def faulty_deps key save example_session_def
        faulty_state_def [THEN arg_cong [where f = sis_FenceGeneration]] faulty_publish deleteSearchObjectBestEffort_def
        faulty_state_def [THEN arg_cong [where f = sis_ObjectKey]] obj op_ignore_def op_ret_def
        faulty_env_def [THEN arg_cong [where f = sv_Delete]])
qed

definition failing_page :: "int gathered" where
  "failing_page = \<lparr> ga_chats = [], ga_failed = 1, ga_next = ''c1'', ga_vectors = None, ga_embeddingFailed = False \<rparr>"

definition truncated_index :: search_index where
  "truncated_index = (index_New ''m'')\<lparr> ix_Reindex := None, ix_Incomplete := True \<rparr>"

lemma failing_page_written:
  "\<exists>page m. reindex_write faulty_env example_session [] ''k'' [] 0 0 False failing_page faulty_state True 0 LoadOK
       (0, faulty_mem [] (index_New ''m'') truncated_index) = (Inr (Some page), (2, m))
     \<and> rg_Failed page = 1 \<and> rg_NextCursor page = ''c1'' \<and> sm_heap m 0 = truncated_index
     \<and> sm_cache m = Some \<lparr> sc_budget = int (length (index_Encode truncated_index)), sc_total = int (length (index_Encode truncated_index)),
        sc_lru = [\<lparr> ce_owner = ''user_1'', ce_ix = 0, ce_keyHash = searchCacheKey [] faulty_object,
                    ce_size = int (length (index_Encode truncated_index)) \<rparr>] \<rparr>"
proof -
  let ?m = "(faulty_mem [] (index_New ''m'') truncated_index)\<lparr> sm_heap := (\<lambda>_. index_New ''m'')(0 := truncated_index) \<rparr>"
  have "publishSearchIndex faulty_env example_session faulty_state [] ''k'' 0 True 0 (0, ?m)
    = (Inr faulty_state, (2, ?m\<lparr> sm_cache := Some \<lparr> sc_budget = int (length (index_Encode truncated_index)),
        sc_total = int (length (index_Encode truncated_index)),
        sc_lru = [\<lparr> ce_owner = ''user_1'', ce_ix = 0, ce_keyHash = searchCacheKey [] faulty_object,
                    ce_size = int (length (index_Encode truncated_index)) \<rparr>] \<rparr> \<rparr>))"
    using faulty_save [of ?m truncated_index "[]" "index_New ''m''" "''k''" 0 True 0] by (simp add: faulty_mem_def)
  then show ?thesis
    by (simp add: reindex_write_def op_bind_def op_try_def mem_ops faulty_mem_def failing_page_def stale_ids_def
        index_New_def [THEN arg_cong [where f = ix_Chats]] op_ret_def Let_def page_incomplete_def next_checkpoint_def
        mem_checkpoint_def publish_or_retry_def truncated_index_def faulty_state_def [THEN arg_cong [where f = sis_PublishedSourceRevision]])
qed


section \<open>A rebuild that fails half way\<close>

definition one_chat_index :: search_index where
  "one_chat_index = (index_New ''m'')\<lparr> ix_Slots := [''c''], ix_Chats := [(''c'', \<lparr> en_Slot = 0, en_ETag = ''1'', en_SourceRevision = 1,
     en_UpdatedAt = [], en_Vectors = [], en_EmbeddingPending = False, en_EmbeddingKeyID = [] \<rparr>)] \<rparr>"

definition one_chat_page :: "int gathered" where
  "one_chat_page = \<lparr> ga_chats = [\<lparr> pc_id = ''c'', pc_etag = ''1'', pc_keyID = ''k'', pc_chunks = [] \<rparr>], ga_failed = 0, ga_next = [],
     ga_vectors = None, ga_embeddingFailed = False \<rparr>"

lemma one_chat_removed: "index_Remove ''c'' one_chat_index \<noteq> None"
    "ix_Chats (the (index_Remove ''c'' one_chat_index)) = []" "ix_Model (the (index_Remove ''c'' one_chat_index)) = ''m''"
    "ix_Incomplete (the (index_Remove ''c'' one_chat_index)) = False"
  by code_simp+

lemma faulty_snapshot: "\<exists>err. searchChatSnapshotState (example_deps faulty_net (\<lambda>_. 0)) example_session ''c'' ''1'' n = (Inl err, n)"
proof -
  have url: "urlFor example_client ScopeChat ''c'' = Inr ''https://cp/api/sync/blob/chat/c''" by code_simp
  have down: "send example_client faulty_net meth ''https://cp/api/sync/blob/chat/c'' body hs n
    = (Inl (wrap_prefix ''controlplane: request: '' (ELib ''net'')), n)" for meth body hs
    by (simp add: send_def NewRequest_def doRequest_def faulty_net_def op_bind_def op_try_def op_lift_def op_ret_def
        example_client_def SearchIndexStatePath_def)
  have "\<not> is_not_found (wrap_prefix ''controlplane: request: '' (ELib ''net''))" by code_simp
  then show ?thesis
    by (simp add: searchChatSnapshotState_def HeadBlob_def GetBlob_def op_bind_def op_try_def op_lift_def faulty_deps url down
        op_err_def)
qed


end
