(* ===== verification/Handlers.thy ===== *)
theory Handlers
  imports Server_Ops
begin

text \<open>
  What every route of \<^verbatim>\<open>internal/server/http.go\<close> shares: reading the JSON body of a request with
  a size limit and no unknown fields (\<^verbatim>\<open>decode\<close>), writing an answer (\<^verbatim>\<open>encode\<close>) and running an
  operation for its answer or its error. A body that is longer than the limit is refused as too
  large only when the JSON scanner found no fault before it, so the scanner of
  \<^verbatim>\<open>encoding/json\<close> is here as well. A slice that is named twice in one object starts afresh.
\<close>

section \<open>The scanner\<close>

datatype scan_ctx = ObjectKey | ObjectValue | ArrayValue

datatype scan_state =
    BeginValue | BeginValueOrEmpty | BeginString | BeginStringOrEmpty | EndValue | EndTop
  | InString | InStringEsc | InStringEscU nat | NumNeg | NumOne | NumZero | NumDot | NumDotZero
  | NumE | NumESign | NumEZero | InLiteral string

definition maxNestingDepth :: nat where "maxNestingDepth = 10000"

definition scan_push :: "scan_ctx \<Rightarrow> scan_state \<Rightarrow> scan_ctx list \<Rightarrow> (scan_state \<times> scan_ctx list) option" where
  "scan_push x st cs = (if maxNestingDepth < Suc (length cs) then None else Some (st, x # cs))"

definition scan_pop :: "scan_ctx list \<Rightarrow> (scan_state \<times> scan_ctx list) option" where
  "scan_pop cs = Some (case cs of _ # c # r \<Rightarrow> (EndValue, c # r) | _ \<Rightarrow> (EndTop, []))"

definition scan_begin :: "char \<Rightarrow> scan_ctx list \<Rightarrow> (scan_state \<times> scan_ctx list) option" where
  "scan_begin c cs =
     (if is_ws c then Some (BeginValue, cs)
      else if c = CHR ''{'' then scan_push ObjectKey BeginStringOrEmpty cs
      else if c = CHR ''['' then scan_push ArrayValue BeginValueOrEmpty cs
      else if c = CHR 0x22 then Some (InString, cs)
      else if c = CHR ''-'' then Some (NumNeg, cs)
      else if c = CHR ''0'' then Some (NumZero, cs)
      else if c = CHR ''t'' then Some (InLiteral ''rue'', cs)
      else if c = CHR ''f'' then Some (InLiteral ''alse'', cs)
      else if c = CHR ''n'' then Some (InLiteral ''ull'', cs)
      else if jdigit c then Some (NumOne, cs) else None)"

text \<open>After a value; with an empty context the value was the whole input.\<close>

definition scan_end :: "char \<Rightarrow> scan_ctx list \<Rightarrow> (scan_state \<times> scan_ctx list) option" where
  "scan_end c cs =
     (case cs of
        [] \<Rightarrow> Some (EndTop, [])
      | x # r \<Rightarrow>
          if is_ws c then Some (EndValue, cs)
          else (case x of
             ObjectKey \<Rightarrow> if c = CHR '':'' then Some (BeginValue, ObjectValue # r) else None
           | ObjectValue \<Rightarrow> if c = CHR '','' then Some (BeginString, ObjectKey # r)
                           else if c = CHR ''}'' then scan_pop cs else None
           | ArrayValue \<Rightarrow> if c = CHR '','' then Some (BeginValue, cs)
                          else if c = CHR '']'' then scan_pop cs else None))"

definition scan_string :: "char \<Rightarrow> scan_ctx list \<Rightarrow> (scan_state \<times> scan_ctx list) option" where
  "scan_string c cs =
     (if is_ws c then Some (BeginString, cs) else if c = CHR 0x22 then Some (InString, cs) else None)"

definition is_hexdigit :: "char \<Rightarrow> bool" where
  "is_hexdigit c = (jdigit c \<or> in_range 97 102 c \<or> in_range 65 70 c)"

definition is_exp :: "char \<Rightarrow> bool" where
  "is_exp c = (c = CHR ''e'' \<or> c = CHR ''E'')"

fun scan_step :: "char \<Rightarrow> scan_state \<times> scan_ctx list \<Rightarrow> (scan_state \<times> scan_ctx list) option" where
  "scan_step c (BeginValue, cs) = scan_begin c cs"
| "scan_step c (BeginValueOrEmpty, cs) =
     (if is_ws c then Some (BeginValueOrEmpty, cs) else if c = CHR '']'' then scan_pop cs else scan_begin c cs)"
| "scan_step c (BeginString, cs) = scan_string c cs"
| "scan_step c (BeginStringOrEmpty, cs) =
     (if is_ws c then Some (BeginStringOrEmpty, cs) else if c = CHR ''}'' then scan_pop cs else scan_string c cs)"
| "scan_step c (EndValue, cs) = scan_end c cs"
| "scan_step c (EndTop, cs) = Some (EndTop, cs)"
| "scan_step c (InString, cs) =
     (if c = CHR 0x22 then Some (if cs = [] then (EndTop, []) else (EndValue, cs))
      else if c = CHR 0x5C then Some (InStringEsc, cs)
      else if byte_val c < 32 then None else Some (InString, cs))"
| "scan_step c (InStringEsc, cs) =
     (if c \<in> {CHR ''b'', CHR ''f'', CHR ''n'', CHR ''r'', CHR ''t'', CHR 0x5C, CHR ''/'', CHR 0x22}
      then Some (InString, cs) else if c = CHR ''u'' then Some (InStringEscU 3, cs) else None)"
| "scan_step c (InStringEscU n, cs) =
     (if is_hexdigit c then Some (case n of 0 \<Rightarrow> (InString, cs) | Suc k \<Rightarrow> (InStringEscU k, cs)) else None)"
| "scan_step c (NumNeg, cs) =
     (if c = CHR ''0'' then Some (NumZero, cs) else if jdigit c then Some (NumOne, cs) else None)"
| "scan_step c (NumOne, cs) =
     (if jdigit c then Some (NumOne, cs) else if c = CHR ''.'' then Some (NumDot, cs)
      else if is_exp c then Some (NumE, cs) else scan_end c cs)"
| "scan_step c (NumZero, cs) =
     (if c = CHR ''.'' then Some (NumDot, cs) else if is_exp c then Some (NumE, cs) else scan_end c cs)"
| "scan_step c (NumDot, cs) = (if jdigit c then Some (NumDotZero, cs) else None)"
| "scan_step c (NumDotZero, cs) =
     (if jdigit c then Some (NumDotZero, cs) else if is_exp c then Some (NumE, cs) else scan_end c cs)"
| "scan_step c (NumE, cs) =
     (if c = CHR ''+'' \<or> c = CHR ''-'' then Some (NumESign, cs) else if jdigit c then Some (NumEZero, cs) else None)"
| "scan_step c (NumESign, cs) = (if jdigit c then Some (NumEZero, cs) else None)"
| "scan_step c (NumEZero, cs) = (if jdigit c then Some (NumEZero, cs) else scan_end c cs)"
| "scan_step c (InLiteral l, cs) =
     (case l of
        [] \<Rightarrow> scan_end c cs
      | x # r \<Rightarrow> if c = x then Some (if r = [] then (if cs = [] then (EndTop, []) else (EndValue, cs))
                                    else (InLiteral r, cs)) else None)"

fun scan_from :: "scan_state \<times> scan_ctx list \<Rightarrow> string \<Rightarrow> (scan_state \<times> scan_ctx list) option" where
  "scan_from q [] = Some q"
| "scan_from q (c # s) = (case scan_step c q of None \<Rightarrow> None | Some q' \<Rightarrow> scan_from q' s)"

text \<open>The bytes read so far can still become a value.\<close>

definition scan_ok :: "string \<Rightarrow> bool" where
  "scan_ok s = (scan_from (BeginValue, []) s \<noteq> None)"

section \<open>decode and encode\<close>

definition MaxBodyBytes :: nat where "MaxBodyBytes = 64 * 2 ^ 20"

definition invalid_json :: go_error where
  "invalid_json = badRequest (''invalid json: '' @ error_string json_err)"

definition body_too_large :: "nat \<Rightarrow> go_error" where
  "body_too_large limit =
     EApp (payloadTooLarge (''request body exceeds '' @ itoa (int limit) @ '' bytes''))"

text \<open>A struct without unknown fields.\<close>

definition strict :: "string list \<Rightarrow> ((string \<times> json) list \<Rightarrow> 'a option) \<Rightarrow> json \<Rightarrow> 'a option" where
  "strict names f j =
     (case struct_members j of
        None \<Rightarrow> None
      | Some m \<Rightarrow>
          if list_all (\<lambda>kv. fold_name (fst kv) \<in> fold_name ` set names) m then f m else None)"

text \<open>Decoding with what the target makes of the value; most targets fail with a type error.\<close>

definition decode_value :: "nat \<Rightarrow> (json \<Rightarrow> 'a result) \<Rightarrow> bytes \<Rightarrow> 'a result" where
  "decode_value limit dec body =
     (let visible = take limit body; over = limit < length body
      in case json_first visible of
           Some (j, rest) \<Rightarrow>
             if over \<and> rest = [] \<and> (case j of JNum _ \<Rightarrow> True | _ \<Rightarrow> False) then Inl (body_too_large limit)
             else (case dec j of
                     Inl e \<Rightarrow> Inl (badRequest (''invalid json: '' @ error_string e))
                   | Inr x \<Rightarrow> if over \<or> skip_ws rest \<noteq> [] then Inl (badRequest ''invalid json: trailing data'')
                              else Inr x)
         | None \<Rightarrow>
             if \<not> scan_ok visible then Inl invalid_json
             else if over then Inl (body_too_large limit)
             else if skip_ws visible = [] then Inl (badRequest ''empty body'')
             else Inl invalid_json)"

definition decode :: "nat \<Rightarrow> (json \<Rightarrow> 'a option) \<Rightarrow> bytes \<Rightarrow> 'a result" where
  "decode limit dec = decode_value limit (\<lambda>j. case dec j of None \<Rightarrow> Inl json_err | Some x \<Rightarrow> Inr x)"

definition encode :: "int \<Rightarrow> json \<Rightarrow> http_response" where
  "encode status v =
     \<lparr> rs_Status = status, rs_Header = [(''Content-Type'', ''application/json'')],
       rs_Body = json_encode v @ [CHR 0x0A], rs_Broken = False \<rparr>"

text \<open>Running an operation and writing what came of it.\<close>

type_synonym 's handler = "'s \<Rightarrow> http_response \<times> 's"

definition respond :: "('a \<Rightarrow> http_response) \<Rightarrow> ('s, 'a) op \<Rightarrow> 's handler" where
  "respond f m s = (case m s of (Inl e, s') \<Rightarrow> (writeError e, s') | (Inr x, s') \<Rightarrow> (f x, s'))"

definition refuse :: "go_error \<Rightarrow> 's handler" where
  "refuse e s = (writeError e, s)"

text \<open>Decode the body first; a body that does not decode reaches nothing.\<close>

definition with_body :: "nat \<Rightarrow> (json \<Rightarrow> 'r option) \<Rightarrow> bytes \<Rightarrow> ('r \<Rightarrow> 's handler) \<Rightarrow> 's handler" where
  "with_body limit dec body f =
     (case decode limit dec body of Inl e \<Rightarrow> refuse e | Inr req \<Rightarrow> f req)"

lemma respond_err [simp]: "respond f (op_err e) = refuse e"
  by (simp add: respond_def refuse_def fun_eq_iff)

lemma refuse_state [simp]: "snd (refuse e s) = s"
  by (simp add: refuse_def)

lemma refuse_resp [simp]: "fst (refuse e s) = writeError e"
  by (simp add: refuse_def)

section \<open>Fields of objects\<close>

definition jstr_opt :: "string \<Rightarrow> string \<Rightarrow> (string \<times> json) list" where
  "jstr_opt name v = (if v = [] then [] else [(name, JStr v)])"

definition jptr :: "string option \<Rightarrow> json" where
  "jptr p = (case p of None \<Rightarrow> JNull | Some v \<Rightarrow> JStr v)"

definition jptr_opt :: "string \<Rightarrow> string option \<Rightarrow> (string \<times> json) list" where
  "jptr_opt name p = (case p of None \<Rightarrow> [] | Some v \<Rightarrow> [(name, JStr v)])"

definition jbool_opt :: "string \<Rightarrow> bool \<Rightarrow> (string \<times> json) list" where
  "jbool_opt name b = (if b then [(name, JBool True)] else [])"

definition jnum :: "int \<Rightarrow> json" where "jnum n = JNum (itoa n)"

definition dstr :: "string \<Rightarrow> (string \<times> json) list \<Rightarrow> string option" where
  "dstr n m = dec_string [] (field_values n m)"

definition dptr :: "string \<Rightarrow> (string \<times> json) list \<Rightarrow> string option option" where
  "dptr n m = dec_ptr_string None (field_values n m)"

definition dint :: "string \<Rightarrow> (string \<times> json) list \<Rightarrow> int option" where
  "dint n m = dec_int 0 (field_values n m)"

definition dbool :: "string \<Rightarrow> (string \<times> json) list \<Rightarrow> bool option" where
  "dbool n m = dec_bool False (field_values n m)"

definition dstrs :: "string \<Rightarrow> (string \<times> json) list \<Rightarrow> string list option" where
  "dstrs n m = dec_strings [] (field_values n m)"

definition dstructs :: "(json \<Rightarrow> 'a option) \<Rightarrow> string \<Rightarrow> (string \<times> json) list \<Rightarrow> 'a list option" where
  "dstructs f n m = dec_list f [] (field_values n m)"

section \<open>The scanner and the parser agree on small bodies\<close>

lemma scan_examples:
  "scan_ok ''{ \"a\" : [1, -2.5e+3, tru''" "\<not> scan_ok ''{\"a\":1,}''" "\<not> scan_ok ''{a''" "scan_ok ''  ''"
  by code_simp+

end
