(* ===== verification/Credentials.thy ===== *)
theory Credentials
  imports Handlers Search_Chunks
begin

text \<open>
  Who may call: \<^verbatim>\<open>internal/auth/jwt.go\<close>, which checks a session token after the JWT library
  parsed it, and \<^verbatim>\<open>internal/server/run_credential.go\<close>, delegated credentials that are bound to
  one chat, one project upload, an import or an export. The JWT library (golang-jwt) is a record of
  functions; HKDF of \<^verbatim>\<open>crypto/hkdf\<close> is written out over the HMAC of \<^verbatim>\<open>Go_Crypto\<close>. Parsing a
  session token may fetch keys over the network, so it moves the world; parsing a run credential
  does not. Wiping the decoded keys has no counterpart here.
\<close>

section \<open>The JWT library\<close>

record run_credential =
  rc_Issuer :: string
  rc_Subject :: string
  rc_Audience :: "string list"
  rc_ExpiresAt :: "gtime option"
  rc_NotBefore :: "gtime option"
  rc_IssuedAt :: "gtime option"
  rc_ID :: string
  rc_Operation :: string
  rc_ChatID :: string
  rc_ProjectID :: string
  rc_KeyID :: string

definition zero_credential :: run_credential where
  "zero_credential = \<lparr> rc_Issuer = [], rc_Subject = [], rc_Audience = [], rc_ExpiresAt = None,
     rc_NotBefore = None, rc_IssuedAt = None, rc_ID = [], rc_Operation = [], rc_ChatID = [],
     rc_ProjectID = [], rc_KeyID = [] \<rparr>"

record jwt_options =
  jo_ValidMethods :: "string list"
  jo_Issuer :: string
  jo_Audience :: "string option"
  jo_ExpirationRequired :: bool
  jo_IssuedAt :: bool
  jo_Leeway :: gtime

text \<open>
  \<open>jl_sign\<close>: HS256 signature under a key; \<open>jl_parse_run\<close> and \<open>jl_parse\<close>: the parser under its
  options at a time, with the flag \<^verbatim>\<open>Valid\<close>, the second with the keys of the issuer and the claims
  as a map if they are one; \<open>jl_date\<close>: \<^verbatim>\<open>NewNumericDate\<close>; \<open>jl_trunc\<close>: \<^verbatim>\<open>int64\<close> of a float.
\<close>

record 's jwt_lib =
  jl_sign :: "bytes \<Rightarrow> run_credential \<Rightarrow> string result"
  jl_parse_run :: "bytes \<Rightarrow> jwt_options \<Rightarrow> gtime \<Rightarrow> string \<Rightarrow> (run_credential \<times> bool) result"
  jl_parse :: "jwt_options \<Rightarrow> gtime \<Rightarrow> string \<Rightarrow> ('s, (string \<times> any) list option \<times> bool) op"
  jl_date :: "gtime \<Rightarrow> gtime"
  jl_trunc :: "go_float \<Rightarrow> int"

section \<open>auth/jwt.go\<close>

definition ClockSkewLeeway :: gtime where "ClockSkewLeeway = 30 * 1000000000"

definition ErrMissingIssuer :: go_error where "ErrMissingIssuer = ENew ''auth: issuer is required''"
definition ErrTokenMissing :: go_error where "ErrTokenMissing = ENew ''auth: missing bearer token''"
definition ErrTokenInvalid :: go_error where "ErrTokenInvalid = ENew ''auth: token invalid''"
definition ErrSubjectMissing :: go_error where "ErrSubjectMissing = ENew ''auth: token has no subject''"
definition ErrIssuerMismatch :: go_error where "ErrIssuerMismatch = ENew ''auth: issuer mismatch''"
definition ErrAudienceMismatch :: go_error where "ErrAudienceMismatch = ENew ''auth: audience mismatch''"

record auth_claims =
  ac_Subject :: string
  ac_Issuer :: string
  ac_Audiences :: "string list"
  ac_ExpiresAt :: "gtime option"
  ac_IssuedAt :: "gtime option"
  ac_NotBefore :: "gtime option"

record clerk_verifier =
  cv_issuer :: string
  cv_audience :: string

definition trim_slashes :: "string \<Rightarrow> string" where
  "trim_slashes s = rev (dropWhile (\<lambda>c. c = CHR ''/'') (rev s))"

definition NewVerifierWithKeyfunc :: "string \<Rightarrow> string \<Rightarrow> clerk_verifier result" where
  "NewVerifierWithKeyfunc issuer audience =
     (if issuer = [] then Inl ErrMissingIssuer
      else Inr \<lparr> cv_issuer = trim_slashes issuer, cv_audience = audience \<rparr>)"

fun any_strings :: "any list \<Rightarrow> string list" where
  "any_strings [] = []"
| "any_strings (AStr s # r) = (if s = [] then any_strings r else s # any_strings r)"
| "any_strings (_ # r) = any_strings r"

definition extractAudiences :: "any option \<Rightarrow> string list" where
  "extractAudiences v =
     (case v of
        Some (AStr s) \<Rightarrow> if s = [] then [] else [s]
      | Some (AList xs) \<Rightarrow> any_strings xs
      | _ \<Rightarrow> [])"

definition numericDate :: "(go_float \<Rightarrow> int) \<Rightarrow> any option \<Rightarrow> gtime option" where
  "numericDate tr v =
     (case v of
        Some (AFloat f) \<Rightarrow> Some ((case f of FIntegral i \<Rightarrow> i | _ \<Rightarrow> tr f) * 1000000000)
      | Some (AInt i) \<Rightarrow> Some (i * 1000000000)
      | _ \<Rightarrow> None)"

definition claim_string :: "(string \<times> any) list \<Rightarrow> string \<Rightarrow> string" where
  "claim_string m k = (case map_of m k of Some (AStr s) \<Rightarrow> s | _ \<Rightarrow> [])"

definition verifier_options :: "clerk_verifier \<Rightarrow> jwt_options" where
  "verifier_options v = \<lparr> jo_ValidMethods = [''RS256'', ''RS384'', ''RS512'', ''ES256'', ''ES384'', ''ES512''],
     jo_Issuer = cv_issuer v, jo_Audience = None, jo_ExpirationRequired = True, jo_IssuedAt = False,
     jo_Leeway = ClockSkewLeeway \<rparr>"

definition verify_claims :: "(go_float \<Rightarrow> int) \<Rightarrow> clerk_verifier \<Rightarrow> (string \<times> any) list \<Rightarrow> auth_claims result" where
  "verify_claims tr v m =
     (let sub = claim_string m ''sub''; iss = claim_string m ''iss''; auds = extractAudiences (map_of m ''aud'')
      in if sub = [] then Inl ErrSubjectMissing
         else if trim_slashes iss \<noteq> cv_issuer v then Inl ErrIssuerMismatch
         else if cv_audience v \<noteq> [] \<and> cv_audience v \<notin> set auds then Inl ErrAudienceMismatch
         else Inr \<lparr> ac_Subject = sub, ac_Issuer = iss, ac_Audiences = auds,
                    ac_ExpiresAt = numericDate tr (map_of m ''exp''),
                    ac_IssuedAt = numericDate tr (map_of m ''iat''),
                    ac_NotBefore = numericDate tr (map_of m ''nbf'') \<rparr>)"

definition Verify :: "'s jwt_lib \<Rightarrow> clerk_verifier \<Rightarrow> gtime \<Rightarrow> string \<Rightarrow> ('s, auth_claims) op" where
  "Verify J v now raw =
     (if raw = [] then op_err ErrTokenMissing
      else op_try (jl_parse J (verifier_options v) now raw) (\<lambda>r.
        case r of
          Inl e \<Rightarrow> op_err (EWrap (''auth: token invalid: '' @ error_string e) ErrTokenInvalid)
        | Inr (claims, valid) \<Rightarrow>
            if \<not> valid then op_err ErrTokenInvalid
            else case claims of
                   None \<Rightarrow> op_err ErrTokenInvalid
                 | Some m \<Rightarrow> op_lift (verify_claims (jl_trunc J) v m)))"

definition BearerToken :: "string \<Rightarrow> string result" where
  "BearerToken h =
     (if \<not> has_prefix h ''Bearer '' then Inl ErrTokenMissing
      else let tok = TrimSpace (drop (length ''Bearer '') h)
           in if tok = [] then Inl ErrTokenMissing else Inr tok)"

section \<open>Scopes of run credentials\<close>

definition runCredentialPrefix :: string where "runCredentialPrefix = ''sync_run_''"
definition runCredentialIssuer :: string where "runCredentialIssuer = ''tinfoil-sync''"
definition runCredentialAudience :: string where "runCredentialAudience = ''chat-run''"
definition runCredentialKeyPurpose :: string where "runCredentialKeyPurpose = ''tinfoil-sync/run-credential/v1''"
definition runCredentialLifetime :: gtime where "runCredentialLifetime = 3600 * 1000000000"
definition maxRunResourceID :: nat where "maxRunResourceID = 256"

text \<open>\<^verbatim>\<open>hkdf.Key\<close> with SHA-256 and no salt: extract, then expand block by block.\<close>

fun hkdf_blocks :: "bytes \<Rightarrow> bytes \<Rightarrow> nat \<Rightarrow> nat \<Rightarrow> bytes \<Rightarrow> bytes" where
  "hkdf_blocks prk info i 0 t = []"
| "hkdf_blocks prk info i (Suc k) t =
     (let t' = hmac_sha256 prk (t @ info @ [byte_of i]) in t' @ hkdf_blocks prk info (Suc i) k t')"

definition hkdf_Key :: "bytes \<Rightarrow> bytes \<Rightarrow> nat \<Rightarrow> bytes result" where
  "hkdf_Key secret info n =
     (if 255 * 32 < n then Inl (ELib ''crypto/hkdf'')
      else Inr (take n (hkdf_blocks (hmac_sha256 (replicate 32 (byte_of 0)) secret) info 1 ((n + 31) div 32) [])))"

definition runSigningKey :: "string \<Rightarrow> bytes result" where
  "runSigningKey secret =
     (if secret = [] then Inl (ENew ''run credentials are not configured'')
      else hkdf_Key secret runCredentialKeyPurpose 32)"

definition runKeyID :: "hkdf \<Rightarrow> string \<Rightarrow> string result" where
  "runKeyID H encoded =
     (case decodeKey encoded of
        Inl _ \<Rightarrow> Inl (badRequest ''invalid key'')
      | Inr key \<Rightarrow> rbind (DeriveKeyID H key) (\<lambda>i. Inr (KeyIDHex i)))"

definition runIDValid :: "string \<Rightarrow> bool" where
  "runIDValid i = (i \<noteq> [] \<and> i \<noteq> ''.'' \<and> i \<noteq> ''..'' \<and> length i \<le> maxRunResourceID
                   \<and> CHR ''/'' \<notin> set i \<and> CHR 0x00 \<notin> set i)"

definition ownsDocument :: "run_credential \<Rightarrow> string \<Rightarrow> bool" where
  "ownsDocument g i =
     (rc_ProjectID g \<noteq> [] \<and> has_prefix i (rc_ProjectID g @ ''/'')
      \<and> runIDValid (drop (length (rc_ProjectID g) + 1) i))"

definition routeAllowed :: "run_credential \<Rightarrow> string \<Rightarrow> bool" where
  "routeAllowed g path =
     (if rc_Operation g = ''project-upload'' then path = ''/v1/sync/pull'' \<or> path = ''/v1/sync/push''
      else if rc_Operation g = ''import''
      then path = ''/v1/import/create'' \<or> path = ''/v1/import/upload'' \<or> path = ''/v1/import/start''
           \<or> path = ''/v1/import/status''
      else if rc_Operation g = ''export''
      then path = ''/v1/sync/pull'' \<or> path = ''/v1/sync/list-status'' \<or> path = ''/v1/attachment/get''
      else path \<in> {''/v1/sync/push'', ''/v1/sync/pull'', ''/v1/sync/list-status'', ''/v1/attachment/put'',
                   ''/v1/attachment/get''})"

definition runScopeRefused :: go_error where
  "runScopeRefused = EApp (zero_app_error\<lparr>ae_Status := 403, ae_Code := ''RUN_SCOPE_REFUSED'',
     ae_Message := ''operation is outside this run's storage scope''\<rparr>)"

definition keyMatches :: "hkdf \<Rightarrow> run_credential \<Rightarrow> string \<Rightarrow> bool" where
  "keyMatches H g key = (case runKeyID H key of Inl _ \<Rightarrow> False | Inr i \<Rightarrow> i = rc_KeyID g)"

text \<open>The test of one requested id, for the upload of a project and for a chat run.\<close>

definition upload_id_ok :: "run_credential \<Rightarrow> string \<Rightarrow> string \<Rightarrow> bool" where
  "upload_id_ok g scope i =
     (scope = ''project'' \<and> i = rc_ProjectID g \<or> scope = ''project_document'' \<and> ownsDocument g i)"

definition run_id_ok :: "run_credential \<Rightarrow> string \<Rightarrow> string \<Rightarrow> bool" where
  "run_id_ok g scope i =
     (if scope = ''chat'' then i = rc_ChatID g
      else if scope = ''profile'' then i = ''profile''
      else if scope = ''project'' then rc_ProjectID g \<noteq> [] \<and> i = rc_ProjectID g
      else if scope = ''project_document'' then ownsDocument g i
      else False)"

definition permitsPull :: "hkdf \<Rightarrow> run_credential \<Rightarrow> pull_request \<Rightarrow> bool" where
  "permitsPull H g req =
     (if pq_Keys req = [] then False
      else if \<not> list_all (\<lambda>k. keyMatches H g (pk_Key k)) (pq_Keys req) then False
      else if rc_Operation g = ''export''
      then pq_Scope req \<in> {''chat'', ''profile'', ''project'', ''project_document''}
      else if pq_All req \<or> pq_IDs req = [] then False
      else if rc_Operation g = ''project-upload'' then list_all (upload_id_ok g (pq_Scope req)) (pq_IDs req)
      else list_all (run_id_ok g (pq_Scope req)) (pq_IDs req))"

definition permitsPush :: "hkdf \<Rightarrow> run_credential \<Rightarrow> push_request \<Rightarrow> bool" where
  "permitsPush H g req =
     (if \<not> keyMatches H g (pu_Key req) then False
      else if rc_Operation g = ''project-upload''
      then pu_Scope req = ''project_document'' \<and> ownsDocument g (pu_ID req) \<and> pu_IfMatch req = None
           \<and> map_of (pu_Metadata req) ''projectId'' = Some (AStr (rc_ProjectID g))
      else rc_Operation g = [] \<and> pu_Scope req = ''chat'' \<and> pu_ID req = rc_ChatID g)"

section \<open>Sessions\<close>

record user_session = session +
  us_Claims :: auth_claims
  us_Run :: "run_credential option"

definition run_options :: jwt_options where
  "run_options = \<lparr> jo_ValidMethods = [''HS256''], jo_Issuer = runCredentialIssuer,
     jo_Audience = Some runCredentialAudience, jo_ExpirationRequired = True, jo_IssuedAt = True,
     jo_Leeway = ClockSkewLeeway \<rparr>"

definition validScope :: "run_credential \<Rightarrow> bool" where
  "validScope c =
     (rc_Operation c = [] \<and> runIDValid (rc_ChatID c) \<or> rc_Operation c = ''import'' \<or> rc_Operation c = ''export''
      \<or> rc_Operation c = ''project-upload'' \<and> runIDValid (rc_ProjectID c))"

definition run_session :: "run_credential \<Rightarrow> user_session" where
  "run_session c = \<lparr> se_RawJWT = [], se_Subject = rc_Subject c,
     us_Claims = \<lparr> ac_Subject = rc_Subject c, ac_Issuer = [], ac_Audiences = [],
                   ac_ExpiresAt = rc_ExpiresAt c, ac_IssuedAt = None, ac_NotBefore = None \<rparr>,
     us_Run = Some c \<rparr>"

definition verifyRunCredential :: "'s jwt_lib \<Rightarrow> string \<Rightarrow> gtime \<Rightarrow> string \<Rightarrow> user_session result" where
  "verifyRunCredential J secret now token =
     rbind (runSigningKey secret) (\<lambda>key.
     case jl_parse_run J key run_options now
            (if has_prefix token runCredentialPrefix then drop (length runCredentialPrefix) token else token) of
       Inl _ \<Rightarrow> Inl (ENew ''invalid run credential'')
     | Inr (c, valid) \<Rightarrow>
         if \<not> valid \<or> rc_Subject c = [] \<or> \<not> validScope c \<or> rc_KeyID c = []
         then Inl (ENew ''invalid run credential'') else Inr (run_session c))"

section \<open>Issuing\<close>

definition credential_response :: "time_lib \<Rightarrow> string \<Rightarrow> gtime \<Rightarrow> http_response" where
  "credential_response T token expires =
     (let r = encode 200 (JObj [(''token'', JStr (runCredentialPrefix @ token)),
                                (''expires_at'', JStr (tm_format T expires))])
      in r\<lparr>rs_Header := (''Cache-Control'', ''no-store'') # rs_Header r\<rparr>)"

definition issued :: "'s jwt_lib \<Rightarrow> gtime \<Rightarrow> run_credential \<Rightarrow> run_credential" where
  "issued J now c = c\<lparr>rc_Issuer := runCredentialIssuer, rc_Audience := [runCredentialAudience],
     rc_IssuedAt := Some (jl_date J now), rc_ExpiresAt := Some (jl_date J (now + runCredentialLifetime))\<rparr>"

definition writeStorageCredential :: "'s deps \<Rightarrow> 's jwt_lib \<Rightarrow> run_credential \<Rightarrow> 's handler" where
  "writeStorageCredential D J claims s =
     (case runSigningKey (dp_SyncEnclaveSecret D) of
        Inl _ \<Rightarrow> refuse (EApp (zero_app_error\<lparr>ae_Status := 503, ae_Code := CodeInternal,
                                  ae_Message := ''run credentials are unavailable''\<rparr>)) s
      | Inr key \<Rightarrow>
          let c = issued J (dp_now D s) claims
          in case jl_sign J key c of
               Inl e \<Rightarrow> refuse e s
             | Inr token \<Rightarrow>
                 (credential_response (net_time (dp_net D)) token (jl_date J (dp_now D s + runCredentialLifetime)), s))"

record operation_request =
  or_Operation :: string
  or_Key :: string
  or_ProjectID :: string

definition dec_operation_request :: "json \<Rightarrow> operation_request option" where
  "dec_operation_request = strict [''operation'', ''key'', ''project_id''] (\<lambda>m.
     case (dstr ''operation'' m, dstr ''key'' m, dstr ''project_id'' m) of
       (Some a, Some b, Some c) \<Rightarrow> Some \<lparr> or_Operation = a, or_Key = b, or_ProjectID = c \<rparr>
     | _ \<Rightarrow> None)"

definition authorizeOperation :: "'s deps \<Rightarrow> 's jwt_lib \<Rightarrow> user_session \<Rightarrow> bytes \<Rightarrow> 's handler" where
  "authorizeOperation D J sess body =
     with_body MaxBodyBytes dec_operation_request body (\<lambda>req.
       if or_Operation req \<notin> {''import'', ''export'', ''project-upload''}
       then refuse (badRequest ''invalid storage operation'')
       else if or_Operation req = ''project-upload'' \<and> \<not> runIDValid (or_ProjectID req)
       then refuse (badRequest ''invalid project id'')
       else case runKeyID (dp_hkdf D) (or_Key req) of
              Inl e \<Rightarrow> refuse e
            | Inr kid \<Rightarrow> writeStorageCredential D J (zero_credential\<lparr>rc_Subject := se_Subject sess,
                           rc_Operation := or_Operation req, rc_ProjectID := or_ProjectID req,
                           rc_KeyID := kid\<rparr>))"

record run_request =
  ru_ThreadID :: string
  ru_ProjectID :: string
  ru_Key :: string

definition dec_run_request :: "json \<Rightarrow> run_request option" where
  "dec_run_request = strict [''thread_id'', ''project_id'', ''key''] (\<lambda>m.
     case (dstr ''thread_id'' m, dstr ''project_id'' m, dstr ''key'' m) of
       (Some a, Some b, Some c) \<Rightarrow> Some \<lparr> ru_ThreadID = a, ru_ProjectID = b, ru_Key = c \<rparr>
     | _ \<Rightarrow> None)"

text \<open>The project of the stored chat, or the requested one when there is no such chat.\<close>

fun run_project :: "pull_item list \<Rightarrow> string \<Rightarrow> string result" where
  "run_project [] p = Inr p"
| "run_project (item # items) p =
     (if \<not> pi_OK item then
        if pi_Code item \<noteq> CodeNotFound
        then Inl (EApp (zero_app_error\<lparr>ae_Status := 409, ae_Code := pi_Code item,
                          ae_Message := ''chat cannot be opened''\<rparr>))
        else run_project items p
      else if pi_ProjectIDSet item
      then run_project items (case pi_ProjectID item of None \<Rightarrow> [] | Some q \<Rightarrow> q)
      else case std_decode (pi_Plaintext item) of
             None \<Rightarrow> Inl (badRequest ''invalid chat'')
           | Some plain \<Rightarrow>
               (case unmarshal (dstr ''projectId'') plain of
                  None \<Rightarrow> Inl (badRequest ''invalid chat'')
                | Some q \<Rightarrow> run_project items q))"

definition run_pull :: "run_request \<Rightarrow> pull_request" where
  "run_pull req = \<lparr> pq_Scope = ''chat'', pq_IDs = [ru_ThreadID req], pq_All = False, pq_Cursor = [],
     pq_Limit = 0, pq_Keys = [\<lparr> pk_Key = ru_Key req, pk_KeyID = [] \<rparr>] \<rparr>"

text \<open>The claims of a run, before they are signed.\<close>

definition run_claims :: "'s deps \<Rightarrow> user_session \<Rightarrow> run_request \<Rightarrow> ('s, run_credential) op" where
  "run_claims D sess req =
     (if \<not> runIDValid (ru_ThreadID req) \<or> ru_ProjectID req \<noteq> [] \<and> \<not> runIDValid (ru_ProjectID req)
      then op_err (badRequest ''invalid chat or project id'')
      else op_bind (op_lift (runKeyID (dp_hkdf D) (ru_Key req))) (\<lambda>kid.
      op_bind (Pull D (session.truncate sess) (run_pull req)) (\<lambda>(items, _).
      op_bind (op_lift (run_project items (ru_ProjectID req))) (\<lambda>project.
      if project \<noteq> [] \<and> \<not> runIDValid project then op_err (badRequest ''invalid project id'')
      else op_ret (zero_credential\<lparr>rc_Subject := se_Subject sess, rc_ChatID := ru_ThreadID req,
                     rc_ProjectID := project, rc_KeyID := kid\<rparr>)))))"

definition authorizeRun :: "'s deps \<Rightarrow> 's jwt_lib \<Rightarrow> user_session \<Rightarrow> bytes \<Rightarrow> 's handler" where
  "authorizeRun D J sess body =
     with_body MaxBodyBytes dec_run_request body (\<lambda>req s.
       case run_claims D sess req s of
         (Inl e, s') \<Rightarrow> (writeError e, s')
       | (Inr claims, s') \<Rightarrow> writeStorageCredential D J claims s')"

section \<open>Facts\<close>

definition credential_text :: "run_credential \<Rightarrow> bool" where
  "credential_text c \<longleftrightarrow> list_all is_ascii [rc_Issuer c, rc_Subject c, rc_ID c, rc_Operation c, rc_ChatID c,
     rc_ProjectID c, rc_KeyID c] \<and> list_all is_ascii (rc_Audience c)"

text \<open>
  What the code relies on: under the key it was signed with, a token with ASCII claims parses to
  its claims while it is in its time and meets the options, and dates are cut to seconds.
\<close>

definition token_accepted :: "jwt_options \<Rightarrow> gtime \<Rightarrow> run_credential \<Rightarrow> bool" where
  "token_accepted opts now c \<longleftrightarrow> ''HS256'' \<in> set (jo_ValidMethods opts) \<and> rc_Issuer c = jo_Issuer opts
     \<and> (case jo_Audience opts of None \<Rightarrow> True | Some a \<Rightarrow> a \<in> set (rc_Audience c))
     \<and> (case rc_ExpiresAt c of None \<Rightarrow> \<not> jo_ExpirationRequired opts | Some e \<Rightarrow> now < e + jo_Leeway opts)
     \<and> (case rc_IssuedAt c of None \<Rightarrow> True | Some i \<Rightarrow> i - jo_Leeway opts \<le> now)
     \<and> rc_NotBefore c = None"

definition jwt_ok :: "'s jwt_lib \<Rightarrow> bool" where
  "jwt_ok J \<longleftrightarrow>
     (\<forall>k c t opts now. jl_sign J k c = Inr t \<and> credential_text c \<and> token_accepted opts now c
        \<and> (\<forall>e \<in> set_option (rc_ExpiresAt c) \<union> set_option (rc_IssuedAt c). jl_date J e = e) \<longrightarrow>
        jl_parse_run J k opts now t = Inr (c, True))
   \<and> (\<forall>t. jl_date J t \<le> t \<and> t - 1000000000 < jl_date J t \<and> jl_date J (jl_date J t) = jl_date J t)"

lemma jwt_ok_parse:
  assumes "jwt_ok J" "jl_sign J k c = Inr t" "credential_text c" "token_accepted opts now c"
    "\<forall>e \<in> set_option (rc_ExpiresAt c) \<union> set_option (rc_IssuedAt c). jl_date J e = e"
  shows "jl_parse_run J k opts now t = Inr (c, True)"
  using assms unfolding jwt_ok_def by blast

lemma jwt_ok_date:
  assumes "jwt_ok J"
  shows "jl_date J t \<le> t" "t - 1000000000 < jl_date J t" "jl_date J (jl_date J t) = jl_date J t"
  using assms unfolding jwt_ok_def by blast+

lemma issued_simps [simp]:
  "rc_Subject (issued J now c) = rc_Subject c" "rc_Operation (issued J now c) = rc_Operation c"
  "rc_ChatID (issued J now c) = rc_ChatID c" "rc_ProjectID (issued J now c) = rc_ProjectID c"
  "rc_KeyID (issued J now c) = rc_KeyID c"
  by (simp_all add: issued_def)

lemma credential_text_issued: "credential_text c \<Longrightarrow> credential_text (issued J now c)"
  by (simp add: credential_text_def issued_def is_ascii_def runCredentialIssuer_def runCredentialAudience_def)

lemma token_accepted_issued:
  assumes "jwt_ok J" "rc_NotBefore c = None" "t \<le> now" "now \<le> t + runCredentialLifetime"
  shows "token_accepted run_options now (issued J t c)"
proof -
  have "t + runCredentialLifetime - 1000000000 < jl_date J (t + runCredentialLifetime)"
    by (rule jwt_ok_date(2) [OF assms(1)])
  then have "now < jl_date J (t + runCredentialLifetime) + ClockSkewLeeway"
    using assms(4) by (simp add: ClockSkewLeeway_def)
  moreover have "jl_date J t - ClockSkewLeeway \<le> now"
    using jwt_ok_date(1) [OF assms(1), of t] assms(3) by (simp add: ClockSkewLeeway_def)
  ultimately show ?thesis
    using assms(2) by (simp add: token_accepted_def run_options_def issued_def)
qed

lemma has_prefix_append [simp]: "has_prefix (p @ r) p"
  by (simp add: has_prefix_iff)

text \<open>Whatever is signed for a valid scope is read back for an hour.\<close>

lemma issued_verifies:
  assumes J: "jwt_ok J" and key: "runSigningKey secret = Inr k"
    and sign: "jl_sign J k (issued J t c) = Inr tok" and c: "credential_text c" "rc_NotBefore c = None"
    and scope: "validScope c" "rc_Subject c \<noteq> []" "rc_KeyID c \<noteq> []"
    and now: "t \<le> now" "now \<le> t + runCredentialLifetime"
  shows "verifyRunCredential J secret now (runCredentialPrefix @ tok) = Inr (run_session (issued J t c))"
proof -
  have dates: "\<forall>e \<in> set_option (rc_ExpiresAt (issued J t c)) \<union> set_option (rc_IssuedAt (issued J t c)). jl_date J e = e"
    using jwt_ok_date(3) [OF J] by (simp add: issued_def)
  have "jl_parse_run J k run_options now tok = Inr (issued J t c, True)"
    by (rule jwt_ok_parse [OF J sign credential_text_issued [OF c(1)] token_accepted_issued [OF J c(2) now] dates])
  moreover have "validScope (issued J t c)" using scope(1) by (simp add: validScope_def)
  ultimately show ?thesis using key scope by (simp add: verifyRunCredential_def rbind_def)
qed

lemma runKeyID_nonempty:
  assumes "hkdf_ok H" "runKeyID H k = Inr kid"
  shows "kid \<noteq> []"
proof -
  obtain raw b where "DeriveKeyID H raw = Inr b" "kid = KeyIDHex b"
    using assms(2) by (auto simp: runKeyID_def rbind_def split: sum.splits)
  moreover from this have "length b = 16" using DeriveKeyID_length assms(1) by blast
  ultimately show ?thesis using length_hex_encode [of b] by (auto simp: KeyIDHex_def simp del: length_hex_encode)
qed

lemma Pull_single:
  assumes "Pull D sess req s = (Inr (items, nc), s')" "pq_IDs req = [i]"
  shows "\<exists>item. items = [item] \<and> pi_ID item = i \<and> nc = []"
proof -
  from assms obtain keys kid can s1 byID where
    run: "pull_distinct (\<lambda>i. pullOne D sess (pq_Scope req) i keys (key_Bytes (hd keys)) (KeyIDHex kid) can)
      [i] [] s1 = (byID, s')" and items: "items = [the (map_of byID i)]" "nc = []"
    by (auto simp: Pull_def Let_def op_inv case_prod_eq simp del: pull_distinct.simps split: if_splits)
  have "map_of byID i \<noteq> None \<and> (\<forall>i item. map_of byID i = Some item \<longrightarrow> pi_ID item = i)"
    using pull_distinct_props [OF pullOne_Inr run] by simp
  then show ?thesis using items by auto
qed

text \<open>What a run is given: the chat it asked for, and the project the chat is in.\<close>

lemma run_claims_Inr:
  assumes "run_claims D sess req s = (Inr c, s')"
  shows "\<exists>item. Pull D (session.truncate sess) (run_pull req) s = (Inr ([item], []), s')
    \<and> pi_ID item = ru_ThreadID req \<and> runIDValid (ru_ThreadID req)
    \<and> run_project [item] (ru_ProjectID req) = Inr (rc_ProjectID c)
    \<and> (rc_ProjectID c = [] \<or> runIDValid (rc_ProjectID c))
    \<and> runKeyID (dp_hkdf D) (ru_Key req) = Inr (rc_KeyID c)
    \<and> c = zero_credential\<lparr>rc_Subject := se_Subject sess, rc_ChatID := ru_ThreadID req,
                         rc_ProjectID := rc_ProjectID c, rc_KeyID := rc_KeyID c\<rparr>"
proof -
  from assms obtain kid items nc project where
    ok: "runIDValid (ru_ThreadID req)" and kid: "runKeyID (dp_hkdf D) (ru_Key req) = Inr kid"
    and pull: "Pull D (session.truncate sess) (run_pull req) s = (Inr (items, nc), s')"
    and project: "run_project items (ru_ProjectID req) = Inr project" "project = [] \<or> runIDValid project"
    and c: "c = zero_credential\<lparr>rc_Subject := se_Subject sess, rc_ChatID := ru_ThreadID req,
               rc_ProjectID := project, rc_KeyID := kid\<rparr>"
    by (auto simp: run_claims_def op_inv split: if_splits prod.splits)
  have "pq_IDs (run_pull req) = [ru_ThreadID req]" by (simp add: run_pull_def)
  from Pull_single [OF pull this] obtain item where item: "items = [item]" "pi_ID item = ru_ThreadID req" "nc = []"
    by blast
  show ?thesis
    by (rule exI [of _ item]) (use ok kid pull project item in \<open>simp add: c zero_credential_def\<close>)
qed


text \<open>A controlplane without any row, and a library that signs one credential.\<close>

definition missing_net :: "unit net" where
  "missing_net = fixed_net \<lparr> rs_Status = 404, rs_Header = [], rs_Body = [], rs_Broken = False \<rparr>"

definition example_run :: run_request where
  "example_run = \<lparr> ru_ThreadID = ''c1'', ru_ProjectID = ''p1'', ru_Key = b64_encode example_key \<rparr>"

definition example_user :: user_session where
  "example_user = run_session (zero_credential\<lparr>rc_Subject := ''user_1''\<rparr>)"

definition one_token :: "run_credential \<Rightarrow> unit jwt_lib" where
  "one_token c = \<lparr> jl_sign = (\<lambda>k c'. if c' = c then Inr ''tok'' else Inl (ENew ''unsigned'')),
     jl_parse_run = (\<lambda>k opts now t. if t = ''tok'' \<and> token_accepted opts now c then Inr (c, True)
                       else Inl (ENew ''token is invalid'')),
     jl_parse = (\<lambda>opts now t. op_err (ENew ''token is invalid'')), jl_date = (\<lambda>t. t - t mod 1000000000),
     jl_trunc = (\<lambda>_. 0) \<rparr>"

lemma one_token_ok: "jwt_ok (one_token c)"
proof -
  have "t - (1000000000 :: int) < t - t mod 1000000000" for t
    using pos_mod_bound [of "1000000000 :: int" t] by linarith
  moreover have "(t - t mod 1000000000) mod (1000000000 :: int) = 0" for t
    by (simp add: minus_mod_eq_mult_div)
  ultimately show ?thesis by (auto simp: jwt_ok_def one_token_def)
qed

definition run_deps :: "unit deps" where
  "run_deps = (example_deps missing_net (\<lambda>_. 5000000007))\<lparr>dp_SyncEnclaveSecret := ''secret''\<rparr>"

lemma missing_GetBlob:
  assumes "urlFor example_client scope bid = Inr u"
  shows "GetBlob example_client missing_net scope bid jwt user s = (Inl (ECp (zero_cp_error\<lparr>cpe_StatusCode := 404\<rparr>)), s)"
  using assms by (simp add: GetBlob_def send_def NewRequest_def missing_net_def fixed_net_def doRequest_def op_try_def
      op_bind_def op_lift_def read_limited_def parseError_def)

lemma example_run_claims:
  "\<exists>kid. run_claims run_deps example_user example_run ()
     = (Inr (zero_credential\<lparr>rc_Subject := ''user_1'', rc_ChatID := ''c1'', rc_ProjectID := ''p1'', rc_KeyID := kid\<rparr>), ())
     \<and> is_ascii kid"
proof -
  obtain raw where kid: "DeriveKeyID example_hkdf example_key = Inr raw"
    using DeriveKeyID_total [OF example_hkdf_ok, of example_key] by auto
  have H: "dp_hkdf run_deps = example_hkdf" "dp_cp run_deps = example_client" "dp_net run_deps = missing_net"
    by (simp_all add: run_deps_def example_deps_def)
  have u: "urlFor example_client ''chat'' ''c1'' = Inr ''https://cp/api/sync/blob/chat/c1''" by code_simp
  obtain b where b: "currentPrimaryKeyIs run_deps (session.truncate example_user) (KeyIDHex raw) () = (Inr b, ())"
    by (metis currentPrimaryKeyIs_Inr unit.exhaust)
  have one: "pullOne run_deps (session.truncate example_user) ''chat'' ''c1'' ks tk kd b () = (Inr (failed_item ''c1'' ''NOT_FOUND''), ())"
    for ks tk kd
    by (simp add: pullOne_def op_try_def H missing_GetBlob [OF u] pull_get_failed_def zero_cp_error_def)
  have "Pull run_deps (session.truncate example_user) (run_pull example_run) () = (Inr ([failed_item ''c1'' ''NOT_FOUND''], []), ())"
    using kid b one
    by (simp add: Pull_def Let_def run_pull_def example_run_def Scope_Valid_def scope_defs MaxPullIDs_def decodeKeys_def
        decodeKey_example op_bind_def op_try_def op_lift_def op_ret_def H del: b64_encode.simps)
  moreover have "runKeyID example_hkdf (b64_encode example_key) = Inr (KeyIDHex raw)"
    using kid by (simp add: runKeyID_def decodeKey_example rbind_def del: b64_encode.simps)
  ultimately have "run_claims run_deps example_user example_run () = (Inr (zero_credential\<lparr>rc_Subject := ''user_1'',
      rc_ChatID := ''c1'', rc_ProjectID := ''p1'', rc_KeyID := KeyIDHex raw\<rparr>), ())"
    by (simp add: run_claims_def example_run_def runIDValid_def maxRunResourceID_def op_bind_def op_try_def op_lift_def
        failed_item_def CodeNotFound_def H example_user_def run_session_def del: b64_encode.simps)
  then show ?thesis by (auto simp: KeyIDHex_def)
qed


end
