(* ===== verification/Import_Failure.thy ===== *)
theory Import_Failure
  imports Server_Migrate
begin

text \<open>
  How a failed import is explained: \<^verbatim>\<open>server/import_failure.go\<close> and the retries of
  \<^verbatim>\<open>server/import_retry.go\<close>. An import error carries tags, so it has a type of its own: the errors of
  the operations and of the standard library, tagged with a reason and a detail, and wrapped. What
  \<^verbatim>\<open>errors.As\<close> finds first is the first in \<open>leaves\<close>, the chain in the order it is walked. Whether an
  error of an operation holds a timeout or a network error is known to the network only, which made
  it: a record of two functions.
\<close>

section \<open>Errors\<close>

datatype std_error =
    StdDeadlineExceeded | StdCanceled | StdNet bool | ZipAlgorithm | ZipFormat | ZipChecksum
  | IOUnexpectedEOF | FlateCorrupt | JSONSyntax | JSONType | ErrInvalidExport | StdText string

datatype ierror = IGo go_error | IStd std_error | ITag string string ierror | IWrap string "ierror list"

datatype leaf = LTag string string | LStd std_error | LGo go_error

fun leaves :: "ierror \<Rightarrow> leaf list" where
  "leaves (IGo g) = [LGo g]"
| "leaves (IStd e) = [LStd e]"
| "leaves (ITag r d e) = LTag r d # leaves e"
| "leaves (IWrap m es) = concat (map leaves es)"

fun first_some :: "('a \<Rightarrow> 'b option) \<Rightarrow> 'a list \<Rightarrow> 'b option" where
  "first_some f [] = None"
| "first_some f (x # xs) = (case f x of None \<Rightarrow> first_some f xs | Some y \<Rightarrow> Some y)"

definition leaf_tag :: "leaf \<Rightarrow> (string \<times> string) option" where
  "leaf_tag l = (case l of LTag r d \<Rightarrow> Some (r, d) | _ \<Rightarrow> None)"

definition as_tag :: "ierror \<Rightarrow> (string \<times> string) option" where
  "as_tag e = first_some leaf_tag (leaves e)"

definition as_app :: "ierror \<Rightarrow> app_error option" where
  "as_app e = first_some (\<lambda>l. case l of LGo g \<Rightarrow> errors_as_app g | _ \<Rightarrow> None) (leaves e)"

definition as_cp :: "ierror \<Rightarrow> cp_error option" where
  "as_cp e = first_some (\<lambda>l. case l of LGo g \<Rightarrow> errors_as_cp g | _ \<Rightarrow> None) (leaves e)"

fun bucket_status :: "go_error \<Rightarrow> int option"
  and bucket_status_any :: "go_error list \<Rightarrow> int option" where
  "bucket_status (EBucketStatus n) = Some n"
| "bucket_status (EWrap m e) = bucket_status e"
| "bucket_status (EAmbiguous k e) = bucket_status e"
| "bucket_status (EOutcomeUnknown e) = bucket_status e"
| "bucket_status (EJoin es) = bucket_status_any es"
| "bucket_status _ = None"
| "bucket_status_any [] = None"
| "bucket_status_any (e # es) = (case bucket_status e of Some n \<Rightarrow> Some n | None \<Rightarrow> bucket_status_any es)"

definition as_bucket :: "ierror \<Rightarrow> int option" where
  "as_bucket e = first_some (\<lambda>l. case l of LGo g \<Rightarrow> bucket_status g | _ \<Rightarrow> None) (leaves e)"

definition is_std :: "std_error \<Rightarrow> ierror \<Rightarrow> bool" where
  "is_std x e = (LStd x \<in> set (leaves e))"

text \<open>
  \<open>ge_deadline\<close>: the chain holds \<^verbatim>\<open>context.DeadlineExceeded\<close>; \<open>ge_net\<close>: the first network error of
  the chain, with its \<^verbatim>\<open>Timeout()\<close>.
\<close>

record go_error_info =
  ge_deadline :: "go_error \<Rightarrow> bool"
  ge_net :: "go_error \<Rightarrow> bool option"

definition is_deadline :: "go_error_info \<Rightarrow> ierror \<Rightarrow> bool" where
  "is_deadline I e = list_ex (\<lambda>l. case l of LStd x \<Rightarrow> x = StdDeadlineExceeded | LGo g \<Rightarrow> ge_deadline I g | _ \<Rightarrow> False) (leaves e)"

definition as_net :: "go_error_info \<Rightarrow> ierror \<Rightarrow> bool option" where
  "as_net I e = first_some (\<lambda>l. case l of LStd (StdNet t) \<Rightarrow> Some t | LStd StdDeadlineExceeded \<Rightarrow> Some True
                                       | LGo g \<Rightarrow> ge_net I g | _ \<Rightarrow> None) (leaves e)"

section \<open>Reasons and details\<close>

definition ImportFailureTimeout :: string where "ImportFailureTimeout = ''timeout''"
definition ImportFailureInvalidArchive :: string where "ImportFailureInvalidArchive = ''invalid_archive''"
definition ImportFailureLimitExceeded :: string where "ImportFailureLimitExceeded = ''limit_exceeded''"
definition ImportFailureKeyMismatch :: string where "ImportFailureKeyMismatch = ''key_mismatch''"
definition ImportFailureInternal :: string where "ImportFailureInternal = ''internal''"
definition ImportFailureRequestTimeout :: string where "ImportFailureRequestTimeout = ''request_timeout''"
definition ImportFailureServiceUnavailable :: string where "ImportFailureServiceUnavailable = ''service_unavailable''"
definition ImportFailureRateLimited :: string where "ImportFailureRateLimited = ''rate_limited''"
definition ImportFailureAuthorization :: string where "ImportFailureAuthorization = ''authorization_failed''"
definition ImportFailureExistingChatCheck :: string where "ImportFailureExistingChatCheck = ''existing_chat_check_failed''"
definition ImportFailureWorker :: string where "ImportFailureWorker = ''worker_failed''"

lemmas reason_defs = ImportFailureTimeout_def ImportFailureInvalidArchive_def ImportFailureLimitExceeded_def
  ImportFailureKeyMismatch_def ImportFailureInternal_def ImportFailureRequestTimeout_def
  ImportFailureServiceUnavailable_def ImportFailureRateLimited_def ImportFailureAuthorization_def
  ImportFailureExistingChatCheck_def ImportFailureWorker_def

definition ImportDetailHashMismatch :: string where "ImportDetailHashMismatch = ''hash_mismatch''"
definition ImportDetailCorruptZip :: string where "ImportDetailCorruptZip = ''corrupt_zip''"
definition ImportDetailUnsupportedCompression :: string where "ImportDetailUnsupportedCompression = ''unsupported_compression''"
definition ImportDetailUnsafeEntry :: string where "ImportDetailUnsafeEntry = ''unsafe_entry''"
definition ImportDetailMissingConversations :: string where "ImportDetailMissingConversations = ''missing_conversations''"
definition ImportDetailInvalidJSON :: string where "ImportDetailInvalidJSON = ''invalid_json''"
definition ImportDetailUnexpectedJSON :: string where "ImportDetailUnexpectedJSON = ''unexpected_json''"
definition ImportDetailNotZip :: string where "ImportDetailNotZip = ''not_zip''"
definition ImportDetailMissingManifest :: string where "ImportDetailMissingManifest = ''missing_manifest''"
definition ImportDetailInvalidBackup :: string where "ImportDetailInvalidBackup = ''invalid_backup''"
definition ImportDetailTooManyEntries :: string where "ImportDetailTooManyEntries = ''too_many_entries''"
definition ImportDetailTooLarge :: string where "ImportDetailTooLarge = ''too_large''"
definition ImportDetailTooManyConversations :: string where "ImportDetailTooManyConversations = ''too_many_conversations''"
definition ImportDetailTooManyMessages :: string where "ImportDetailTooManyMessages = ''too_many_messages''"
definition ImportDetailTooManyAttachments :: string where "ImportDetailTooManyAttachments = ''too_many_attachments''"

definition safeImportFailureDetail :: "string \<Rightarrow> string" where
  "safeImportFailureDetail d =
     (if d \<in> {ImportDetailHashMismatch, ImportDetailCorruptZip, ImportDetailUnsupportedCompression,
              ImportDetailUnsafeEntry, ImportDetailMissingConversations, ImportDetailInvalidJSON,
              ImportDetailUnexpectedJSON, ImportDetailNotZip, ImportDetailMissingManifest,
              ImportDetailInvalidBackup, ImportDetailTooManyEntries, ImportDetailTooLarge,
              ImportDetailTooManyConversations, ImportDetailTooManyMessages, ImportDetailTooManyAttachments}
      then d else [])"

definition safeImportFailureReason :: "string \<Rightarrow> string" where
  "safeImportFailureReason r =
     (if r \<in> {ImportFailureTimeout, ImportFailureInvalidArchive, ImportFailureLimitExceeded,
              ImportFailureKeyMismatch, ImportFailureRequestTimeout, ImportFailureServiceUnavailable,
              ImportFailureRateLimited, ImportFailureAuthorization, ImportFailureExistingChatCheck,
              ImportFailureWorker}
      then r else ImportFailureInternal)"

definition importFailureMessage :: "string \<Rightarrow> string" where
  "importFailureMessage r =
     (if r = ImportFailureTimeout then ''import timed out''
      else if r = ImportFailureInvalidArchive then ''import archive could not be read''
      else if r = ImportFailureLimitExceeded then ''import archive exceeds import limits''
      else if r = ImportFailureKeyMismatch then ''import key is not the current key''
      else if r = ImportFailureRequestTimeout then ''a request to Tinfoil storage timed out; please retry the import''
      else if r = ImportFailureServiceUnavailable
      then ''Tinfoil could not communicate with its storage service; please retry the import''
      else if r = ImportFailureRateLimited
      then ''Tinfoil storage is limiting requests; please wait and retry the import''
      else if r = ImportFailureAuthorization
      then ''Tinfoil could not authorize access to cloud storage for the import; please retry from a signed-in device''
      else if r = ImportFailureExistingChatCheck
      then ''Tinfoil could not check previously imported chats; the import stopped to avoid duplicates''
      else if r = ImportFailureWorker then ''the import worker stopped unexpectedly; please retry the import''
      else ''import failed'')"

section \<open>Tagging and classifying\<close>

definition importFailureWithDetail :: "string \<Rightarrow> string \<Rightarrow> ierror \<Rightarrow> ierror" where
  "importFailureWithDetail reason detail e = (if as_tag e \<noteq> None then e else ITag reason detail e)"

definition importFailure :: "string \<Rightarrow> ierror \<Rightarrow> ierror" where
  "importFailure reason e = importFailureWithDetail reason [] e"

definition invalidArchiveErr :: "string \<Rightarrow> string \<Rightarrow> ierror" where
  "invalidArchiveErr detail msg = importFailureWithDetail ImportFailureInvalidArchive detail (IStd (StdText msg))"

definition limitExceededErr :: "string \<Rightarrow> string \<Rightarrow> ierror" where
  "limitExceededErr detail msg = importFailureWithDetail ImportFailureLimitExceeded detail (IStd (StdText msg))"

definition classifyParseFailure :: "ierror \<Rightarrow> ierror" where
  "classifyParseFailure e =
     (if is_std ErrInvalidExport e
      then importFailureWithDetail ImportFailureInvalidArchive
             (if is_std JSONType e then ImportDetailUnexpectedJSON else ImportDetailInvalidJSON) e
      else e)"

definition classifyArchiveReadErr :: "ierror \<Rightarrow> ierror" where
  "classifyArchiveReadErr e =
     (if is_std ZipAlgorithm e
      then importFailureWithDetail ImportFailureInvalidArchive ImportDetailUnsupportedCompression e
      else if is_std ZipFormat e \<or> is_std ZipChecksum e \<or> is_std IOUnexpectedEOF e \<or> is_std FlateCorrupt e
      then importFailureWithDetail ImportFailureInvalidArchive ImportDetailCorruptZip e
      else e)"

text \<open>\<open>expired\<close>: the job's context ended by its deadline or was cancelled as stalled.\<close>

definition classifyImportFailure :: "go_error_info \<Rightarrow> bool \<Rightarrow> ierror \<Rightarrow> string" where
  "classifyImportFailure I expired e =
     (let tag = as_tag e; app = as_app e;
          statusCode = (case as_cp e of Some c \<Rightarrow> cpe_StatusCode c
                                      | None \<Rightarrow> (case as_bucket e of Some n \<Rightarrow> n | None \<Rightarrow> 0)) in
      if expired then ImportFailureTimeout
      else if is_deadline I e \<or> as_net I e = Some True then ImportFailureRequestTimeout
      else if (case tag of None \<Rightarrow> False | Some (r, _) \<Rightarrow> r \<noteq> ImportFailureInternal \<and> r \<noteq> ImportFailureExistingChatCheck)
      then safeImportFailureReason (fst (the tag))
      else if (case app of None \<Rightarrow> False | Some a \<Rightarrow> ae_Code a = StatusStaleKey \<or> ae_Code a = CodeUnknownKey)
      then ImportFailureKeyMismatch
      else if statusCode = 408 \<or> statusCode = 504 then ImportFailureRequestTimeout
      else if statusCode = 429 then ImportFailureRateLimited
      else if statusCode = 401 \<or> statusCode = 403 then ImportFailureAuthorization
      else if 500 \<le> statusCode then ImportFailureServiceUnavailable
      else if as_net I e \<noteq> None \<or> (case app of None \<Rightarrow> False | Some a \<Rightarrow> ae_Code a = CodeNetwork)
      then ImportFailureServiceUnavailable
      else (case tag of Some (r, _) \<Rightarrow> safeImportFailureReason r | None \<Rightarrow> ImportFailureInternal))"

definition importFailureDetail :: "ierror \<Rightarrow> string \<Rightarrow> string" where
  "importFailureDetail e reason =
     (case as_tag e of
        None \<Rightarrow> []
      | Some (r, d) \<Rightarrow> if r \<noteq> reason then [] else safeImportFailureDetail d)"

section \<open>import_retry.go\<close>

type_synonym ('s, 'a) iop = "'s \<Rightarrow> (ierror + 'a) \<times> 's"

definition iop_of :: "('s, 'a) op \<Rightarrow> ('s, 'a) iop" where
  "iop_of m s = (case m s of (Inl e, s') \<Rightarrow> (Inl (IGo e), s') | (Inr x, s') \<Rightarrow> (Inr x, s'))"

definition iop_bind :: "('s, 'a) iop \<Rightarrow> ('a \<Rightarrow> ('s, 'b) iop) \<Rightarrow> ('s, 'b) iop" where
  "iop_bind m f s = (case m s of (Inl e, s') \<Rightarrow> (Inl e, s') | (Inr x, s') \<Rightarrow> f x s')"

definition iop_lift :: "ierror + 'a \<Rightarrow> ('s, 'a) iop" where
  "iop_lift r s = (r, s)"

definition importRetryMaxAttempts :: nat where "importRetryMaxAttempts = 3"
definition importRetryBaseDelay :: gtime where "importRetryBaseDelay = 500 * 1000000"
definition importRetryMaxDelay :: gtime where "importRetryMaxDelay = 5 * 1000000000"

text \<open>
  The context of a job: the error it has ended with, whether it was cancelled as stalled, and a
  sleep that ends early with the context.
\<close>

record 's job_context =
  jc_err :: "'s \<Rightarrow> std_error option"
  jc_stalled :: "'s \<Rightarrow> bool"
  jc_sleep :: "gtime \<Rightarrow> 's \<Rightarrow> std_error option \<times> 's"
  jc_info :: go_error_info

definition jc_expired :: "'s job_context \<Rightarrow> 's \<Rightarrow> bool" where
  "jc_expired C s = (jc_err C s = Some StdDeadlineExceeded \<or> jc_stalled C s)"

definition isTransientImportFailure :: "'s job_context \<Rightarrow> 's \<Rightarrow> ierror \<Rightarrow> bool" where
  "isTransientImportFailure C s e =
     (jc_err C s = None
      \<and> classifyImportFailure (jc_info C) (jc_expired C s) e
          \<in> {ImportFailureRequestTimeout, ImportFailureServiceUnavailable, ImportFailureRateLimited})"

text \<open>\<open>n\<close> attempts are left.\<close>

fun retry_import :: "'s job_context \<Rightarrow> nat \<Rightarrow> gtime \<Rightarrow> ('s, 'a) iop \<Rightarrow> ('s, 'a) iop" where
  "retry_import C 0 delay fn s = (Inl (IStd (StdText ''unreachable'')), s)"
| "retry_import C (Suc n) delay fn s =
     (case jc_err C s of
        Some e \<Rightarrow> (Inl (IStd e), s)
      | None \<Rightarrow>
          (case fn s of
             (Inr x, s1) \<Rightarrow> (Inr x, s1)
           | (Inl e, s1) \<Rightarrow>
               if n = 0 \<or> \<not> isTransientImportFailure C s1 e then (Inl e, s1)
               else (case jc_sleep C delay s1 of
                       (Some se, s2) \<Rightarrow> (Inl (IWrap [] [e, IStd se]), s2)
                     | (None, s2) \<Rightarrow> retry_import C n (min (delay * 2) importRetryMaxDelay) fn s2)))"

definition retryTransientImportCall :: "'s job_context \<Rightarrow> ('s, 'a) iop \<Rightarrow> ('s, 'a) iop" where
  "retryTransientImportCall C fn = retry_import C importRetryMaxAttempts importRetryBaseDelay fn"

section \<open>Facts\<close>

definition failure_reasons :: "string list" where
  "failure_reasons = [''timeout'', ''invalid_archive'', ''limit_exceeded'', ''key_mismatch'', ''internal'',
     ''request_timeout'', ''service_unavailable'', ''rate_limited'', ''authorization_failed'',
     ''existing_chat_check_failed'', ''worker_failed'']"

definition failure_details :: "string list" where
  "failure_details = [[], ''hash_mismatch'', ''corrupt_zip'', ''unsupported_compression'', ''unsafe_entry'',
     ''missing_conversations'', ''invalid_json'', ''unexpected_json'', ''not_zip'', ''missing_manifest'',
     ''invalid_backup'', ''too_many_entries'', ''too_large'', ''too_many_conversations'', ''too_many_messages'',
     ''too_many_attachments'']"

lemma safe_reason: "safeImportFailureReason r \<in> set failure_reasons"
  by (auto simp: safeImportFailureReason_def failure_reasons_def reason_defs)

lemma safe_detail: "safeImportFailureDetail d \<in> set failure_details"
  by (auto simp: safeImportFailureDetail_def failure_details_def ImportDetailHashMismatch_def ImportDetailCorruptZip_def
      ImportDetailUnsupportedCompression_def ImportDetailUnsafeEntry_def ImportDetailMissingConversations_def
      ImportDetailInvalidJSON_def ImportDetailUnexpectedJSON_def ImportDetailNotZip_def ImportDetailMissingManifest_def
      ImportDetailInvalidBackup_def ImportDetailTooManyEntries_def ImportDetailTooLarge_def
      ImportDetailTooManyConversations_def ImportDetailTooManyMessages_def ImportDetailTooManyAttachments_def)

lemma reason_in:
  "ImportFailureTimeout \<in> set failure_reasons" "ImportFailureRequestTimeout \<in> set failure_reasons"
  "ImportFailureKeyMismatch \<in> set failure_reasons" "ImportFailureRateLimited \<in> set failure_reasons"
  "ImportFailureAuthorization \<in> set failure_reasons" "ImportFailureServiceUnavailable \<in> set failure_reasons"
  "ImportFailureInternal \<in> set failure_reasons"
  by (simp_all add: failure_reasons_def reason_defs)

lemma classify_known: "classifyImportFailure I expired e \<in> set failure_reasons"
  unfolding classifyImportFailure_def Let_def
  by (simp add: safe_reason reason_in split: option.splits prod.splits)

lemma detail_known: "importFailureDetail e reason \<in> set failure_details"
  using safe_detail by (auto simp: importFailureDetail_def failure_details_def split: option.splits)

text \<open>A tag made close to the cause is the one that counts.\<close>

lemma importFailure_tagged: "as_tag (importFailureWithDetail r d e) = Some (case as_tag e of None \<Rightarrow> (r, d) | Some t \<Rightarrow> t)"
  by (auto simp: importFailureWithDetail_def as_tag_def leaf_tag_def split: option.splits)

end
