(* ===== verification/Import_Jobs.thy ===== *)
theory Import_Jobs
  imports Import_Failure
begin

text \<open>
  The import jobs of \<^verbatim>\<open>server/import_jobs.go\<close>, the staging of archive chunks
  (\<^verbatim>\<open>stageImportChunk\<close> of \<^verbatim>\<open>server/import_ops.go\<close>) and the wire shapes of
  \<^verbatim>\<open>server/import_types.go\<close>. Jobs live in a heap and are addressed by their index, because the
  coordinator compares pointers. Uploads of chunks, starts that have passed their check, runs,
  staging timers and retention timers go on side by side: each is a list of the coordinator, and
  their interleavings are the transition relation \<open>import_step\<close>.
\<close>

section \<open>import_types.go\<close>

record import_create_request =
  icr_Source :: string
  icr_TotalBytes :: int
  icr_TotalChunks :: int
  icr_ArchiveSHA256 :: string

record import_upload_request =
  iur_UploadID :: string
  iur_ChunkIndex :: int
  iur_ChunkSHA256 :: string
  iur_Data :: string

record import_kind_counts =
  kc_Imported :: int
  kc_Skipped :: int
  kc_Failed :: int
  kc_Blocked :: int

definition zero_counts :: import_kind_counts where
  "zero_counts = \<lparr> kc_Imported = 0, kc_Skipped = 0, kc_Failed = 0, kc_Blocked = 0 \<rparr>"

definition MaxImportArchiveBytes :: int where "MaxImportArchiveBytes = 512 * 2 ^ 20"
definition MaxImportChunkBytes :: int where "MaxImportChunkBytes = 8 * 2 ^ 20"
definition MaxImportUncompressedBytes :: int where "MaxImportUncompressedBytes = 2 * 2 ^ 30"
definition MaxImportEntries :: nat where "MaxImportEntries = 50000"
definition MaxImportConversations :: nat where "MaxImportConversations = 100000"
definition MaxImportMessages :: nat where "MaxImportMessages = 2000000"
definition MaxImportAttachments :: nat where "MaxImportAttachments = 100000"
definition MaxImportAttachmentBytes :: int where "MaxImportAttachmentBytes = 32 * 2 ^ 20"
definition MaxImportJSONBytes :: int where "MaxImportJSONBytes = 256 * 2 ^ 20"
definition MaxImportJobErrors :: nat where "MaxImportJobErrors = 100"

section \<open>Jobs\<close>

definition ImportStallTimeout :: gtime where "ImportStallTimeout = 600 * 1000000000"
definition ImportJobRetention :: gtime where "ImportJobRetention = 300 * 1000000000"
definition ImportStagingRetention :: gtime where "ImportStagingRetention = 1800 * 1000000000"
definition importChunkPendingPrefix :: string where "importChunkPendingPrefix = ''pending:''"

datatype import_job_status =
    ImportJobIdle | ImportJobStaging | ImportJobRunning | ImportJobCompleted | ImportJobFailed

fun import_status_string :: "import_job_status \<Rightarrow> string" where
  "import_status_string ImportJobIdle = ''idle''"
| "import_status_string ImportJobStaging = ''staging''"
| "import_status_string ImportJobRunning = ''running''"
| "import_status_string ImportJobCompleted = ''completed''"
| "import_status_string ImportJobFailed = ''failed''"

record import_job =
  ij_ID :: string
  ij_UserID :: string
  ij_UploadID :: string
  ij_Source :: string
  ij_TotalBytes :: int
  ij_TotalChunks :: int
  ij_ArchiveSHA256 :: string
  ij_StartedAt :: gtime
  ij_stagingKey :: bytes
  ij_received :: "(int \<times> string) list"
  ij_cek :: bytes
  ij_status :: import_job_status
  ij_imported :: int
  ij_failed :: int
  ij_total :: int
  ij_phase :: string
  ij_counts :: "(string \<times> import_kind_counts) list"
  ij_projectMappings :: "(string \<times> string) list"
  ij_warnings :: "string list"
  ij_errs :: "string list"
  ij_failureReason :: string
  ij_failureDetail :: string
  ij_startedRun :: bool
  ij_updatedAt :: gtime
  ij_done :: bool

text \<open>What is polled; a copy of the job's public part.\<close>

record import_status_response =
  isr_Status :: string
  isr_Phase :: string
  isr_Imported :: int
  isr_Failed :: int
  isr_Total :: int
  isr_Counts :: "(string \<times> import_kind_counts) list"
  isr_Warnings :: "string list"
  isr_Errors :: "string list"
  isr_ProjectMappings :: "(string \<times> string) list"
  isr_JobID :: string
  isr_FailureReason :: string
  isr_FailureDetail :: string

definition importStatusResponse :: "import_job \<Rightarrow> import_status_response" where
  "importStatusResponse j = \<lparr> isr_Status = import_status_string (ij_status j), isr_Phase = ij_phase j,
     isr_Imported = ij_imported j, isr_Failed = ij_failed j, isr_Total = ij_total j, isr_Counts = ij_counts j,
     isr_Warnings = ij_warnings j, isr_Errors = ij_errs j, isr_ProjectMappings = ij_projectMappings j,
     isr_JobID = ij_ID j, isr_FailureReason = ij_failureReason j, isr_FailureDetail = ij_failureDetail j \<rparr>"

definition beginChunk :: "gtime \<Rightarrow> int \<Rightarrow> string \<Rightarrow> import_job \<Rightarrow> bool result \<times> import_job" where
  "beginChunk now i h j =
     (if ij_startedRun j then (Inl (ENew ''import: job already started''), j)
      else case map_of (ij_received j) i of
             Some prev \<Rightarrow>
               if (if has_prefix prev importChunkPendingPrefix then drop (length importChunkPendingPrefix) prev else prev) \<noteq> h
               then (Inl (ENew (''import: chunk '' @ itoa i @ '' hash conflict'')), j)
               else if has_prefix prev importChunkPendingPrefix
               then (Inl (ENew (''import: chunk '' @ itoa i @ '' upload already in progress'')), j)
               else (Inr True, j)
           | None \<Rightarrow>
               (Inr False, j\<lparr>ij_received := al_set i (importChunkPendingPrefix @ h) (ij_received j), ij_updatedAt := now\<rparr>))"

definition finishChunk :: "gtime \<Rightarrow> int \<Rightarrow> string \<Rightarrow> import_job \<Rightarrow> import_job" where
  "finishChunk now i h j =
     (if map_of (ij_received j) i = Some (importChunkPendingPrefix @ h)
      then j\<lparr>ij_received := al_set i h (ij_received j), ij_updatedAt := now\<rparr> else j)"

definition clearPendingChunk :: "gtime \<Rightarrow> int \<Rightarrow> string \<Rightarrow> import_job \<Rightarrow> import_job" where
  "clearPendingChunk now i h j =
     (if map_of (ij_received j) i = Some (importChunkPendingPrefix @ h)
      then j\<lparr>ij_received := al_del i (ij_received j), ij_updatedAt := now\<rparr> else j)"

definition allChunksReceived :: "import_job \<Rightarrow> bool" where
  "allChunksReceived j =
     (int (length (ij_received j)) = ij_TotalChunks j
      \<and> list_all (\<lambda>(_, status). \<not> has_prefix status importChunkPendingPrefix) (ij_received j))"

text \<open>The progress of a run.\<close>

datatype import_event =
    AddError string | AddWarning string | SetPhase string | SetKindCount string import_kind_counts
  | SetProjectMapping string string | SetProgress int int int

definition import_event :: "gtime \<Rightarrow> import_event \<Rightarrow> import_job \<Rightarrow> import_job" where
  "import_event now e j =
     (case e of
        AddError m \<Rightarrow> j\<lparr>ij_errs := (if length (ij_errs j) < MaxImportJobErrors then ij_errs j @ [m] else ij_errs j)\<rparr>
      | AddWarning m \<Rightarrow>
          j\<lparr>ij_warnings := (if length (ij_warnings j) < MaxImportJobErrors then ij_warnings j @ [m] else ij_warnings j)\<rparr>
      | SetPhase p \<Rightarrow> j\<lparr>ij_phase := p\<rparr>
      | SetKindCount k n \<Rightarrow> j\<lparr>ij_counts := al_set k n (ij_counts j)\<rparr>
      | SetProjectMapping a b \<Rightarrow> j\<lparr>ij_projectMappings := al_set a b (ij_projectMappings j)\<rparr>
      | SetProgress i f t \<Rightarrow> j\<lparr>ij_imported := i, ij_failed := f, ij_total := t\<rparr>)
     \<lparr>ij_updatedAt := now\<rparr>"

definition job_over :: "import_job \<Rightarrow> bool" where
  "job_over j = (ij_status j = ImportJobCompleted \<or> ij_status j = ImportJobFailed)"

definition finishWithReason :: "gtime \<Rightarrow> import_job_status \<Rightarrow> string \<Rightarrow> string \<Rightarrow> import_job \<Rightarrow> import_job" where
  "finishWithReason now status reason detail j =
     (if job_over j then j
      else j\<lparr>ij_status := status, ij_failureReason := reason, ij_failureDetail := detail, ij_updatedAt := now,
             ij_cek := Zero (ij_cek j), ij_stagingKey := Zero (ij_stagingKey j), ij_done := True\<rparr>)"

text \<open>The time that is left, or the failed job.\<close>

definition failIfStaleStaging :: "gtime \<Rightarrow> gtime \<Rightarrow> import_job \<Rightarrow> (gtime \<times> bool) \<times> import_job" where
  "failIfStaleStaging retention now j =
     (if ij_status j \<noteq> ImportJobStaging then ((0, False), j)
      else if 0 < retention - (now - ij_updatedAt j) then ((retention - (now - ij_updatedAt j), False), j)
      else ((0, True), j\<lparr>ij_status := ImportJobFailed, ij_updatedAt := now, ij_cek := Zero (ij_cek j),
                         ij_stagingKey := Zero (ij_stagingKey j), ij_done := True\<rparr>))"

section \<open>Creating a job\<close>

definition validateImportCreate :: "import_create_request \<Rightarrow> unit result" where
  "validateImportCreate req =
     (if icr_Source req \<notin> {''chatgpt'', ''claude'', ''tinfoil'', ''tinfoil_backup''}
      then Inl (badRequest ''invalid source'')
      else if icr_TotalBytes req \<le> 0 \<or> MaxImportArchiveBytes < icr_TotalBytes req
      then Inl (badRequest ''invalid total_bytes'')
      else if icr_TotalChunks req \<le> 0 then Inl (badRequest ''invalid total_chunks'')
      else if icr_TotalChunks req \<noteq> (icr_TotalBytes req + MaxImportChunkBytes - 1) div MaxImportChunkBytes
      then Inl (badRequest ''total_chunks does not match total_bytes'')
      else case hex_decode (icr_ArchiveSHA256 req) of
             None \<Rightarrow> Inl (badRequest ''invalid archive_sha256'')
           | Some h \<Rightarrow> if length h \<noteq> 32 then Inl (badRequest ''invalid archive_sha256'') else Inr ())"

text \<open>A random id, or the formatted time when the random source fails.\<close>

definition newImportID :: "string \<Rightarrow> entropy \<Rightarrow> string \<times> entropy" where
  "newImportID formatted ent =
     (case rand_read 16 ent of None \<Rightarrow> (formatted, ent) | Some (b, ent') \<Rightarrow> (hex_encode b, ent'))"

definition new_import_job ::
  "string \<Rightarrow> string \<Rightarrow> string \<Rightarrow> bytes \<Rightarrow> gtime \<Rightarrow> import_create_request \<Rightarrow> import_job" where
  "new_import_job jid uid userID stagingKey now req =
     \<lparr> ij_ID = jid, ij_UserID = userID, ij_UploadID = uid, ij_Source = icr_Source req,
       ij_TotalBytes = icr_TotalBytes req, ij_TotalChunks = icr_TotalChunks req,
       ij_ArchiveSHA256 = icr_ArchiveSHA256 req, ij_StartedAt = now, ij_stagingKey = stagingKey,
       ij_received = [], ij_cek = [], ij_status = ImportJobStaging, ij_imported = 0, ij_failed = 0,
       ij_total = 0, ij_phase = [], ij_counts = [], ij_projectMappings = [], ij_warnings = [], ij_errs = [],
       ij_failureReason = [], ij_failureDetail = [], ij_startedRun = False, ij_updatedAt = now, ij_done = False \<rparr>"

section \<open>The coordinator\<close>

text \<open>
  Beside the map and its heap: the timers of staged uploads, the chunk uploads on their way with
  their data, the start requests that have seen all chunks, the runs, the retention timers, and the
  chunks the bucket has confirmed.
\<close>

record import_coordinator =
  ic_jobs :: "(string \<times> nat) list"
  ic_retention :: gtime
  ic_stagingRetention :: gtime
  ic_heap :: "import_job list"
  ic_stagingTimers :: "nat list"
  ic_uploads :: "(nat \<times> int \<times> bytes) list"
  ic_starts :: "nat list"
  ic_runs :: "nat list"
  ic_timers :: "nat list"
  ic_stored :: "(nat \<times> int \<times> bytes) list"

definition NewImportCoordinator :: import_coordinator where
  "NewImportCoordinator = \<lparr> ic_jobs = [], ic_retention = ImportJobRetention,
     ic_stagingRetention = ImportStagingRetention, ic_heap = [], ic_stagingTimers = [], ic_uploads = [],
     ic_starts = [], ic_runs = [], ic_timers = [], ic_stored = [] \<rparr>"

definition import_in_progress :: go_error where
  "import_in_progress = EApp (zero_app_error\<lparr>ae_Status := 409, ae_Code := StatusIdempotencyConflict,
     ae_Message := ''an import is already in progress''\<rparr>)"

definition CreateImport ::
  "entropy \<Rightarrow> string \<Rightarrow> gtime \<Rightarrow> string \<Rightarrow> import_create_request \<Rightarrow> import_coordinator \<Rightarrow>
   nat result \<times> import_coordinator" where
  "CreateImport ent formatted now userID req c =
     (case validateImportCreate req of
        Inl e \<Rightarrow> (Inl e, c)
      | Inr _ \<Rightarrow>
          if (case map_of (ic_jobs c) userID of
                None \<Rightarrow> False
              | Some a \<Rightarrow> ij_status (ic_heap c ! a) \<in> {ImportJobStaging, ImportJobRunning})
          then (Inl import_in_progress, c)
          else (case RandomKey ent of
                  Inl e \<Rightarrow> (Inl e, c)
                | Inr (stagingKey, ent1) \<Rightarrow>
                    (case newImportID formatted ent1 of (jid, ent2) \<Rightarrow>
                     case newImportID formatted ent2 of (uid, _) \<Rightarrow>
                       (let a = length (ic_heap c) in
                        (Inr a, c\<lparr>ic_heap := ic_heap c @ [new_import_job jid uid userID stagingKey now req],
                                  ic_jobs := al_set userID a (ic_jobs c)\<rparr>)))))"

definition GetImport :: "string \<Rightarrow> import_coordinator \<Rightarrow> nat option" where
  "GetImport userID c = map_of (ic_jobs c) userID"

definition upd_import :: "nat \<Rightarrow> (import_job \<Rightarrow> import_job) \<Rightarrow> import_coordinator \<Rightarrow> import_coordinator" where
  "upd_import a f c = c\<lparr>ic_heap := (ic_heap c)[a := f (ic_heap c ! a)]\<rparr>"

definition StartImport :: "gtime \<Rightarrow> bytes \<Rightarrow> nat \<Rightarrow> import_coordinator \<Rightarrow> bool \<times> import_coordinator" where
  "StartImport now cek a c =
     (let j = ic_heap c ! a in
      if ij_startedRun j \<or> ij_status j \<noteq> ImportJobStaging then (False, c)
      else (True, (upd_import a (\<lambda>j. j\<lparr>ij_startedRun := True, ij_cek := cek, ij_status := ImportJobRunning,
                                        ij_updatedAt := now\<rparr>) c)\<lparr>ic_runs := a # ic_runs c\<rparr>))"

definition ScheduleStagingCleanup :: "nat \<Rightarrow> import_coordinator \<Rightarrow> import_coordinator" where
  "ScheduleStagingCleanup a c = c\<lparr>ic_stagingTimers := a # ic_stagingTimers c\<rparr>"

text \<open>A staging timer fires; the flag says that the staged chunks are deleted now.\<close>

definition reapStaleStaging :: "gtime \<Rightarrow> nat \<Rightarrow> import_coordinator \<Rightarrow> bool \<times> import_coordinator" where
  "reapStaleStaging now a c =
     (let c1 = c\<lparr>ic_stagingTimers := remove1 a (ic_stagingTimers c)\<rparr>; j = ic_heap c ! a in
      if map_of (ic_jobs c) (ij_UserID j) \<noteq> Some a then (False, c1)
      else case failIfStaleStaging (max 0 (ic_stagingRetention c)) now j of
             ((remaining, failed), j') \<Rightarrow>
               if 0 < remaining then (False, c1\<lparr>ic_stagingTimers := a # ic_stagingTimers c1\<rparr>)
               else if \<not> failed then (False, c1)
               else (True, (upd_import a (\<lambda>_. j') c1)\<lparr>ic_jobs := al_del (ij_UserID j) (ic_jobs c)\<rparr>))"

definition deleteImportIfSame :: "nat \<Rightarrow> import_coordinator \<Rightarrow> import_coordinator" where
  "deleteImportIfSame a c =
     (let u = ij_UserID (ic_heap c ! a) in
      if map_of (ic_jobs c) u = Some a then c\<lparr>ic_jobs := al_del u (ic_jobs c)\<rparr> else c)"

text \<open>What \<^verbatim>\<open>run\<close> does with the outcome of its runner: the error is classified, never passed on.\<close>

definition import_failed :: "go_error_info \<Rightarrow> bool \<Rightarrow> ierror \<Rightarrow> gtime \<Rightarrow> import_job \<Rightarrow> import_job" where
  "import_failed I expired e now j =
     (let reason = classifyImportFailure I expired e; detail = importFailureDetail e reason
      in finishWithReason now ImportJobFailed reason detail
           (import_event now (AddError (importFailureMessage reason)) j))"

definition import_outcome_job :: "go_error_info \<Rightarrow> bool \<Rightarrow> ierror option \<Rightarrow> gtime \<Rightarrow> import_job \<Rightarrow> import_job" where
  "import_outcome_job I expired err now j =
     (case err of
        Some e \<Rightarrow> import_failed I expired e now j
      | None \<Rightarrow> finishWithReason now ImportJobCompleted [] [] j)"

definition run_ended :: "nat \<Rightarrow> import_coordinator \<Rightarrow> import_coordinator" where
  "run_ended a c =
     (let c1 = c\<lparr>ic_runs := removeAll a (ic_runs c)\<rparr> in
      if ic_retention c \<le> 0 then deleteImportIfSame a c1 else c1\<lparr>ic_timers := a # ic_timers c\<rparr>)"

text \<open>The notification of a failed job, and the deletion of its staged chunks.\<close>

definition notifyImportOutcome :: "'s deps \<Rightarrow> import_outcome \<Rightarrow> ('s, unit) op" where
  "notifyImportOutcome D out = op_ignore (NotifyImportOutcome (dp_cp D) (dp_net D) out)"

definition notifyImportFailed :: "'s deps \<Rightarrow> import_job \<Rightarrow> string \<Rightarrow> string \<Rightarrow> ('s, unit) op" where
  "notifyImportFailed D j reason detail = notifyImportOutcome D
     \<lparr> io_ClerkUserID = ij_UserID j, io_JobID = ij_ID j, io_Source = ij_Source j, io_Status = ''failed'',
       io_Imported = ij_imported j, io_Failed = ij_failed j, io_FailureReason = reason, io_FailureDetail = detail \<rparr>"

definition notifyImportComplete :: "'s deps \<Rightarrow> string \<Rightarrow> string \<Rightarrow> string \<Rightarrow> int \<Rightarrow> int \<Rightarrow> ('s, unit) op" where
  "notifyImportComplete D user jid source imported failed = notifyImportOutcome D
     \<lparr> io_ClerkUserID = user, io_JobID = jid, io_Source = source, io_Status = ''completed'',
       io_Imported = imported, io_Failed = failed, io_FailureReason = [], io_FailureDetail = [] \<rparr>"

definition importChunkToken :: "string \<Rightarrow> int \<Rightarrow> string" where
  "importChunkToken uploadID i = ''import-staging-'' @ uploadID @ ''-chunk-'' @ itoa i"

fun delete_chunks :: "'s deps \<Rightarrow> import_job \<Rightarrow> nat list \<Rightarrow> ('s, unit) op" where
  "delete_chunks D j [] = op_ret ()"
| "delete_chunks D j (i # is) =
     op_try (dp_buckets_Delete D (ij_UserID j) (importChunkToken (ij_UploadID j) (int i))) (\<lambda>_. delete_chunks D j is)"

definition cleanupStaging :: "'s deps \<Rightarrow> import_job \<Rightarrow> ('s, unit) op" where
  "cleanupStaging D j =
     (if \<not> dp_buckets_configured D then op_ret () else delete_chunks D j [0..<nat (ij_TotalChunks j)])"

section \<open>Staging a chunk\<close>

definition lower_ascii :: "string \<Rightarrow> string" where
  "lower_ascii s = map (\<lambda>c. byte_of (lower_num c)) s"

definition expected_chunk_bytes :: "import_job \<Rightarrow> int \<Rightarrow> int" where
  "expected_chunk_bytes j i =
     (if i = ij_TotalChunks j - 1 then ij_TotalBytes j - i * MaxImportChunkBytes else MaxImportChunkBytes)"

text \<open>The checks before the chunk is recorded; the data and its hash.\<close>

definition check_chunk :: "import_job \<Rightarrow> import_upload_request \<Rightarrow> (bytes \<times> string) result" where
  "check_chunk j req =
     (let i = iur_ChunkIndex req in
      if i < 0 \<or> ij_TotalChunks j \<le> i then Inl (badRequest ''chunk_index out of range'')
      else case std_decode (iur_Data req) of
             None \<Rightarrow> Inl (badRequest ''invalid chunk data base64'')
           | Some data \<Rightarrow>
               if data = [] \<or> MaxImportChunkBytes < int (length data) then Inl (badRequest ''invalid chunk size'')
               else if \<not> equal_fold_ascii (hex_encode (sha256 data)) (iur_ChunkSHA256 req)
               then Inl (badRequest ''chunk hash mismatch'')
               else if int (length data) \<noteq> expected_chunk_bytes j i
               then Inl (badRequest ''chunk size does not match expected range'')
               else Inr (data, lower_ascii (iur_ChunkSHA256 req)))"

definition chunk_failure :: "'s deps \<Rightarrow> string \<Rightarrow> import_job \<Rightarrow> int \<Rightarrow> bytes \<Rightarrow> ('s, unit) op" where
  "chunk_failure D owner j i data =
     (if \<not> dp_buckets_configured D
      then op_err (EApp (zero_app_error\<lparr>ae_Status := 503, ae_Code := CodeInternal,
                           ae_Message := ''buckets backend not configured''\<rparr>))
      else op_try (dp_buckets_Put D owner (importChunkToken (ij_UploadID j) i) data (ij_stagingKey j)) (\<lambda>r.
        case r of
          Inr _ \<Rightarrow> op_ret ()
        | Inl e \<Rightarrow> op_err (EApp (zero_app_error\<lparr>ae_Status := 502, ae_Code := CodeUpstream,
                             ae_Message := ''stage chunk failed: '' @ error_string e\<rparr>))))"

definition stageImportChunk ::
  "'s deps \<Rightarrow> gtime \<Rightarrow> string \<Rightarrow> import_upload_request \<Rightarrow> import_job \<times> 's \<Rightarrow> unit result \<times> (import_job \<times> 's)" where
  "stageImportChunk D now owner req js =
     (case js of (j, s) \<Rightarrow>
      case check_chunk j req of
        Inl e \<Rightarrow> (Inl e, (j, s))
      | Inr (data, h) \<Rightarrow>
          (case beginChunk now (iur_ChunkIndex req) h j of
             (Inl e, j1) \<Rightarrow> (Inl (badRequest (error_string e)), (j1, s))
           | (Inr True, j1) \<Rightarrow> (Inr (), (j1, s))
           | (Inr False, j1) \<Rightarrow>
               (case chunk_failure D owner j1 (iur_ChunkIndex req) data s of
                  (Inl e, s') \<Rightarrow> (Inl e, (clearPendingChunk now (iur_ChunkIndex req) h j1, s'))
                | (Inr _, s') \<Rightarrow> (Inr (), (finishChunk now (iur_ChunkIndex req) h j1, s')))))"

definition cekFromImportStart :: "string \<Rightarrow> bytes result" where
  "cekFromImportStart key = requestKey ''invalid key: '' key"

end
