(* ===== verification/Import_Steps.thy ===== *)
theory Import_Steps
  imports Import_Jobs
begin

text \<open>
  The interleavings of the import coordinator and their invariant: what is known of a chunk that is
  being uploaded or was stored, that one import of a user is alive at a time, that a run starts only
  on a complete upload, and that a job that is over never changes what it reports and holds no key.
\<close>

section \<open>Interleavings\<close>

definition chunk_hash :: "bytes \<Rightarrow> string" where
  "chunk_hash d = hex_encode (sha256 d)"

definition chunk_fits :: "import_job \<Rightarrow> int \<Rightarrow> bytes \<Rightarrow> bool" where
  "chunk_fits j i d \<longleftrightarrow> 0 \<le> i \<and> i < ij_TotalChunks j \<and> int (length d) = expected_chunk_bytes j i"

inductive import_step :: "import_coordinator \<Rightarrow> import_coordinator \<Rightarrow> bool" where
  create: "CreateImport ent formatted now userID req c = (Inr a, c') \<Longrightarrow> import_step c c'"
| schedule: "a < length (ic_heap c) \<Longrightarrow> import_step c (ScheduleStagingCleanup a c)"
| chunk_begin: "a < length (ic_heap c) \<Longrightarrow> chunk_fits (ic_heap c ! a) i d \<Longrightarrow>
    beginChunk now i (chunk_hash d) (ic_heap c ! a) = (Inr False, j) \<Longrightarrow>
    import_step c ((upd_import a (\<lambda>_. j) c)\<lparr>ic_uploads := (a, i, d) # ic_uploads c\<rparr>)"
| chunk_stored: "(a, i, d) \<in> set (ic_uploads c) \<Longrightarrow>
    import_step c ((upd_import a (finishChunk now i (chunk_hash d)) c)
      \<lparr>ic_uploads := removeAll (a, i, d) (ic_uploads c), ic_stored := (a, i, d) # ic_stored c\<rparr>)"
| chunk_failed: "(a, i, d) \<in> set (ic_uploads c) \<Longrightarrow>
    import_step c ((upd_import a (clearPendingChunk now i (chunk_hash d)) c)
      \<lparr>ic_uploads := removeAll (a, i, d) (ic_uploads c)\<rparr>)"
| start_check: "a < length (ic_heap c) \<Longrightarrow> allChunksReceived (ic_heap c ! a) \<Longrightarrow>
    import_step c (c\<lparr>ic_starts := a # ic_starts c\<rparr>)"
| start: "a \<in> set (ic_starts c) \<Longrightarrow> StartImport now cek a c = (True, c') \<Longrightarrow> import_step c c'"
| report: "a \<in> set (ic_runs c) \<Longrightarrow> import_step c (upd_import a (import_event now e) c)"
| ended: "a \<in> set (ic_runs c) \<Longrightarrow>
    import_step c (run_ended a (upd_import a (import_outcome_job I expired err now) c))"
| reaped: "a \<in> set (ic_stagingTimers c) \<Longrightarrow> reapStaleStaging now a c = (b, c') \<Longrightarrow> import_step c c'"
| expired: "a \<in> set (ic_timers c) \<Longrightarrow>
    import_step c (deleteImportIfSame a (c\<lparr>ic_timers := remove1 a (ic_timers c)\<rparr>))"

inductive import_reachable :: "import_coordinator \<Rightarrow> bool" where
  init: "import_reachable (NewImportCoordinator\<lparr>ic_retention := r, ic_stagingRetention := t\<rparr>)"
| step: "import_reachable c \<Longrightarrow> import_step c c' \<Longrightarrow> import_reachable c'"

text \<open>The requests of the route are such chunks.\<close>

lemma hexdigit_fold:
  assumes "lower_num a = lower_num b" "is_lower_hex_char a"
  shows "byte_of (lower_num b) = a"
proof -
  have "lower_num a = byte_val a" using assms(2) by (auto simp: lower_num_def is_lower_hex_char_def Let_def)
  then have "byte_of (lower_num b) = byte_of (byte_val a)" using assms(1) by simp
  then show ?thesis by simp
qed

lemma fold_lower_hex:
  "equal_fold_ascii a b \<Longrightarrow> list_all is_lower_hex_char a \<Longrightarrow> lower_ascii b = a"
  unfolding equal_fold_ascii_def lower_ascii_def
proof (induction a arbitrary: b)
  case (Cons x a)
  then obtain y b' where "b = y # b'" by (cases b) auto
  then show ?case using Cons hexdigit_fold by auto
qed simp

lemma check_chunk_Inr:
  assumes "check_chunk j req = Inr (d, h)"
  shows "chunk_fits j (iur_ChunkIndex req) d \<and> h = chunk_hash d \<and> std_decode (iur_Data req) = Some d"
  using assms fold_lower_hex [OF _ hex_encode_lower]
  by (auto simp: check_chunk_def chunk_fits_def chunk_hash_def Let_def split: if_splits option.splits)

section \<open>One job and its chunks\<close>

text \<open>\<open>U\<close>: its uploads on their way, \<open>S\<close>: its stored chunks.\<close>

definition chunks_inv :: "import_job \<Rightarrow> (int \<times> bytes) list \<Rightarrow> (int \<times> bytes) list \<Rightarrow> bool" where
  "chunks_inv j U S \<longleftrightarrow> distinct (map fst (ij_received j)) \<and> distinct (map fst U) \<and> distinct (map fst S)
     \<and> (\<forall>i d. (i, d) \<in> set U \<longrightarrow> map_of (ij_received j) i = Some (importChunkPendingPrefix @ chunk_hash d))
     \<and> (\<forall>i d. (i, d) \<in> set S \<longrightarrow> map_of (ij_received j) i = Some (chunk_hash d))
     \<and> (\<forall>i d. (i, d) \<in> set U \<union> set S \<longrightarrow> chunk_fits j i d)
     \<and> fst ` set (ij_received j) \<subseteq> fst ` set U \<union> fst ` set S"

lemma hash_not_pending [simp]: "\<not> has_prefix (chunk_hash d) importChunkPendingPrefix"
proof
  assume "has_prefix (chunk_hash d) importChunkPendingPrefix"
  then have "CHR ''p'' \<in> set (chunk_hash d)"
    by (auto simp: has_prefix_iff importChunkPendingPrefix_def)
  moreover have "list_all is_lower_hex_char (chunk_hash d)" unfolding chunk_hash_def by (rule hex_encode_lower)
  ultimately show False by (auto simp: list_all_iff is_lower_hex_char_def Let_def)
qed

lemma pending_prefix [simp]: "has_prefix (importChunkPendingPrefix @ h) importChunkPendingPrefix"
  by (auto simp: has_prefix_iff)

lemma pending_neq [simp]: "importChunkPendingPrefix @ h \<noteq> chunk_hash d"
  using hash_not_pending pending_prefix by metis

lemma chunks_disjoint:
  assumes "chunks_inv j U S" "(i, d) \<in> set U"
  shows "(i, d') \<notin> set S"
  using assms pending_neq unfolding chunks_inv_def by (metis option.inject)

lemma chunks_parts:
  assumes "chunks_inv j U S"
  shows "distinct (map fst (ij_received j))" "distinct (map fst U)" "distinct (map fst S)"
    "(i, d) \<in> set U \<Longrightarrow> map_of (ij_received j) i = Some (importChunkPendingPrefix @ chunk_hash d)"
    "(i, d) \<in> set S \<Longrightarrow> map_of (ij_received j) i = Some (chunk_hash d)"
    "(i, d) \<in> set U \<or> (i, d) \<in> set S \<Longrightarrow> chunk_fits j i d"
    "k \<in> fst ` set (ij_received j) \<Longrightarrow> k \<in> fst ` set U \<or> k \<in> fst ` set S"
proof -
  note all = assms [unfolded chunks_inv_def]
  note pend = all [THEN conjunct2, THEN conjunct2, THEN conjunct2]
  show "distinct (map fst (ij_received j))" "distinct (map fst U)" "distinct (map fst S)"
    by (rule all [THEN conjunct1] all [THEN conjunct2, THEN conjunct1] all [THEN conjunct2, THEN conjunct2, THEN conjunct1])+
  show "(i, d) \<in> set U \<Longrightarrow> map_of (ij_received j) i = Some (importChunkPendingPrefix @ chunk_hash d)"
    by (rule pend [THEN conjunct1, rule_format])
  show "(i, d) \<in> set S \<Longrightarrow> map_of (ij_received j) i = Some (chunk_hash d)"
    by (rule pend [THEN conjunct2, THEN conjunct1, rule_format])
  show "(i, d) \<in> set U \<or> (i, d) \<in> set S \<Longrightarrow> chunk_fits j i d"
    by (rule pend [THEN conjunct2, THEN conjunct2, THEN conjunct1, rule_format]) simp
  show "k \<in> fst ` set (ij_received j) \<Longrightarrow> k \<in> fst ` set U \<or> k \<in> fst ` set S"
    by (drule subsetD [OF pend [THEN conjunct2, THEN conjunct2, THEN conjunct2]]) (erule UnE, erule disjI1, erule disjI2)
qed

text \<open>The uploads left when one is taken away.\<close>

lemma others:
  assumes "chunks_inv j U S" "(i, d) \<in> set U"
  shows "distinct (map fst (removeAll (i, d) U))" "(k, x) \<in> set (removeAll (i, d) U) \<longleftrightarrow> (k, x) \<in> set U \<and> k \<noteq> i"
    "k \<in> fst ` set (removeAll (i, d) U) \<longleftrightarrow> k \<in> fst ` set U \<and> k \<noteq> i"
proof -
  have U: "distinct (map fst U)" by (rule chunks_parts(2) [OF assms(1)])
  have only: "x = d" if "(i, x) \<in> set U" for x
    using U that assms(2) by (metis eq_key_imp_eq_value)
  show "distinct (map fst (removeAll (i, d) U))"
    using U by (simp add: distinct_map_filter removeAll_filter_not_eq)
  have one: "(k, x) \<in> set (removeAll (i, d) U) \<longleftrightarrow> (k, x) \<in> set U \<and> k \<noteq> i" for k x
    using assms(2) by (auto dest: only)
  then show "(k, x) \<in> set (removeAll (i, d) U) \<longleftrightarrow> (k, x) \<in> set U \<and> k \<noteq> i" .
  have keys: "k \<in> fst ` set V \<longleftrightarrow> (\<exists>x. (k, x) \<in> set V)" for V :: "(int \<times> bytes) list"
    by force
  show "k \<in> fst ` set (removeAll (i, d) U) \<longleftrightarrow> k \<in> fst ` set U \<and> k \<noteq> i"
    unfolding keys one by blast
qed

text \<open>What a chunk request, its success and its failure do to a job.\<close>

lemma beginChunk_new:
  assumes "beginChunk now i h j = (Inr False, j')"
  shows "\<not> ij_startedRun j \<and> map_of (ij_received j) i = None
    \<and> j' = j\<lparr>ij_received := al_set i (importChunkPendingPrefix @ h) (ij_received j), ij_updatedAt := now\<rparr>"
  using assms by (auto simp: beginChunk_def split: if_splits option.splits)

lemma chunk_fits_cong:
  "ij_TotalChunks j' = ij_TotalChunks j \<Longrightarrow> ij_TotalBytes j' = ij_TotalBytes j \<Longrightarrow> chunk_fits j' i d = chunk_fits j i d"
  by (simp add: chunk_fits_def expected_chunk_bytes_def)

lemma chunks_inv_cong:
  assumes "ij_TotalChunks j' = ij_TotalChunks j" "ij_TotalBytes j' = ij_TotalBytes j" "ij_received j' = ij_received j"
  shows "chunks_inv j' U S = chunks_inv j U S"
  unfolding chunks_inv_def chunk_fits_cong [OF assms(1,2)] assms(3) ..

lemma chunks_inv_begin:
  assumes "chunks_inv j U S" "chunk_fits j i d" "beginChunk now i (chunk_hash d) j = (Inr False, j')"
  shows "chunks_inv j' ((i, d) # U) S"
proof -
  note new = beginChunk_new [OF assms(3)]
  have none: "(i, x) \<notin> set U" "(i, x) \<notin> set S" for x
    using assms(1) new unfolding chunks_inv_def by auto
  have fits: "chunk_fits j' k x = chunk_fits j k x" for k x by (rule chunk_fits_cong) (simp_all add: new)
  have rec: "ij_received j' = al_set i (importChunkPendingPrefix @ chunk_hash d) (ij_received j)" using new by simp
  have keys: "fst ` set (ij_received j') \<subseteq> fst ` set ((i, d) # U) \<union> fst ` set S"
    using chunks_parts(7) [OF assms(1)] by (simp add: rec) blast
  show ?thesis
    unfolding chunks_inv_def fits
  proof (intro conjI allI impI, goal_cases)
    case 1 then show ?case using chunks_parts(1) [OF assms(1)] by (simp add: rec)
  next
    case 2 then show ?case using chunks_parts(2) [OF assms(1)] none by auto
  next
    case 3 then show ?case by (rule chunks_parts(3) [OF assms(1)])
  next
    case (4 k x) then show ?case using none chunks_parts(4) [OF assms(1), of k x] by (auto simp: rec)
  next
    case (5 k x) then show ?case using none chunks_parts(5) [OF assms(1), of k x] by (auto simp: rec)
  next
    case (6 k x) then show ?case using assms(2) chunks_parts(6) [OF assms(1), of k x] by auto
  next
    case 7 then show ?case by (rule keys)
  qed
qed

lemma chunks_inv_finish:
  assumes "chunks_inv j U S" "(i, d) \<in> set U"
  shows "chunks_inv (finishChunk now i (chunk_hash d) j) (removeAll (i, d) U) ((i, d) # S)"
proof -
  have at: "map_of (ij_received j) i = Some (importChunkPendingPrefix @ chunk_hash d)"
    using assms unfolding chunks_inv_def by blast
  have j': "finishChunk now i (chunk_hash d) j = j\<lparr>ij_received := al_set i (chunk_hash d) (ij_received j), ij_updatedAt := now\<rparr>"
    using at by (simp add: finishChunk_def)
  have fits: "chunk_fits (finishChunk now i (chunk_hash d) j) k x = chunk_fits j k x" for k x
    by (rule chunk_fits_cong) (simp_all add: j')
  have none: "(i, x) \<notin> set S" for x using chunks_disjoint [OF assms] .
  have "fst ` set (al_set i (chunk_hash d) (ij_received j)) \<subseteq> fst ` set (removeAll (i, d) U) \<union> insert i (fst ` set S)"
    using chunks_parts(7) [OF assms(1)] others(3) [OF assms] by (simp del: set_removeAll) blast
  then have keys: "fst ` set (ij_received (finishChunk now i (chunk_hash d) j))
      \<subseteq> fst ` set (removeAll (i, d) U) \<union> fst ` set ((i, d) # S)"
    by (simp add: j' del: set_removeAll fst_al_set)
  show ?thesis
    unfolding chunks_inv_def fits
  proof (intro conjI allI impI, goal_cases)
    case 1 then show ?case using chunks_parts(1) [OF assms(1)] by (simp add: j')
  next
    case 2 then show ?case by (rule others(1) [OF assms])
  next
    case 3 then show ?case using chunks_parts(3) [OF assms(1)] none by auto
  next
    case (4 k x) then show ?case
      using others(2) [OF assms, of k x] chunks_parts(4) [OF assms(1), of k x] by (simp add: j' del: set_removeAll)
  next
    case (5 k x) then show ?case
      using none chunks_parts(5) [OF assms(1), of k x] by (auto simp: j')
  next
    case (6 k x) then show ?case
      using assms(2) others(2) [OF assms, of k x] chunks_parts(6) [OF assms(1), of k x] by (auto simp del: set_removeAll)
  next
    case 7 then show ?case by (rule keys)
  qed
qed

lemma chunks_inv_clear:
  assumes "chunks_inv j U S" "(i, d) \<in> set U"
  shows "chunks_inv (clearPendingChunk now i (chunk_hash d) j) (removeAll (i, d) U) S"
proof -
  have at: "map_of (ij_received j) i = Some (importChunkPendingPrefix @ chunk_hash d)"
    using assms unfolding chunks_inv_def by blast
  have j': "clearPendingChunk now i (chunk_hash d) j = j\<lparr>ij_received := al_del i (ij_received j), ij_updatedAt := now\<rparr>"
    using at by (simp add: clearPendingChunk_def)
  have fits: "chunk_fits (clearPendingChunk now i (chunk_hash d) j) k x = chunk_fits j k x" for k x
    by (rule chunk_fits_cong) (simp_all add: j')
  have none: "(i, x) \<notin> set S" for x using chunks_disjoint [OF assms] .
  have "fst ` set (al_del i (ij_received j)) \<subseteq> fst ` set (removeAll (i, d) U) \<union> fst ` set S"
    using chunks_parts(7) [OF assms(1)] others(3) [OF assms] by (simp del: set_removeAll) blast
  then have keys: "fst ` set (ij_received (clearPendingChunk now i (chunk_hash d) j))
      \<subseteq> fst ` set (removeAll (i, d) U) \<union> fst ` set S"
    by (simp add: j' del: set_removeAll fst_al_del)
  show ?thesis
    unfolding chunks_inv_def fits
  proof (intro conjI allI impI, goal_cases)
    case 1 then show ?case using chunks_parts(1) [OF assms(1)] by (simp add: j')
  next
    case 2 then show ?case by (rule others(1) [OF assms])
  next
    case 3 then show ?case by (rule chunks_parts(3) [OF assms(1)])
  next
    case (4 k x) then show ?case
      using others(2) [OF assms, of k x] chunks_parts(4) [OF assms(1), of k x] by (simp add: j' del: set_removeAll)
  next
    case (5 k x) then show ?case
      using none chunks_parts(5) [OF assms(1), of k x] by (auto simp: j')
  next
    case (6 k x) then show ?case
      using others(2) [OF assms, of k x] chunks_parts(6) [OF assms(1), of k x] by (auto simp del: set_removeAll)
  next
    case 7 then show ?case by (rule keys)
  qed
qed

text \<open>A complete upload: one stored chunk for each index, and nothing on its way.\<close>

lemma all_received_no_upload:
  assumes "chunks_inv j U S" "allChunksReceived j"
  shows "U = []"
proof (rule ccontr)
  assume "U \<noteq> []"
  then obtain i d where "(i, d) \<in> set U" by (cases U) auto
  then have "(i, importChunkPendingPrefix @ chunk_hash d) \<in> set (ij_received j)"
    using assms(1) unfolding chunks_inv_def by (meson map_of_SomeD)
  then show False using assms(2) by (auto simp: allChunksReceived_def list_all_iff)
qed

lemma all_received_stored:
  assumes "chunks_inv j U S" "allChunksReceived j" "0 \<le> i" "i < ij_TotalChunks j"
  shows "\<exists>d. (i, d) \<in> set S"
proof -
  have U: "U = []" by (rule all_received_no_upload [OF assms(1,2)])
  let ?I = "{0..<ij_TotalChunks j}"
  have sub: "fst ` set S \<subseteq> ?I"
    using assms(1) unfolding chunks_inv_def chunk_fits_def by auto
  have "fst ` set (ij_received j) \<subseteq> fst ` set S" using assms(1) U unfolding chunks_inv_def by simp
  moreover have "card (fst ` set (ij_received j)) = length (ij_received j)"
    using assms(1) unfolding chunks_inv_def by (metis distinct_card length_map set_map)
  moreover have "int (length (ij_received j)) = ij_TotalChunks j" using assms(2) by (simp add: allChunksReceived_def)
  ultimately have "card ?I \<le> card (fst ` set S)"
    by (metis (no_types, lifting) List.finite_set card_atLeastLessThan_int card_mono diff_zero finite_imageI nat_int)
  then have "fst ` set S = ?I" using sub card_seteq finite_atLeastLessThan_int by blast
  then show ?thesis using assms(3,4) by (metis atLeastLessThan_iff imageE prod.collapse)
qed

section \<open>The invariant of the coordinator\<close>

definition chunks_of :: "nat \<Rightarrow> (nat \<times> int \<times> bytes) list \<Rightarrow> (int \<times> bytes) list" where
  "chunks_of a xs = map snd (filter (\<lambda>x. fst x = a) xs)"

lemma chunks_of_simps [simp]:
  "chunks_of a [] = []" "chunks_of a ((b, i, d) # xs) = (if b = a then (i, d) # chunks_of a xs else chunks_of a xs)"
  by (simp_all add: chunks_of_def)

lemma set_chunks_of [simp]: "(i, d) \<in> set (chunks_of a xs) \<longleftrightarrow> (a, i, d) \<in> set xs"
  by (induction xs) (auto simp: chunks_of_def)

lemma chunks_of_remove:
  "chunks_of b (removeAll (a, i, d) xs) = (if b = a then removeAll (i, d) (chunks_of a xs) else chunks_of b xs)"
  by (induction xs) (auto simp: chunks_of_def)

definition wiped :: "bytes \<Rightarrow> bool" where
  "wiped k \<longleftrightarrow> list_all (\<lambda>c. byte_val c = 0) k"

definition status_inv :: "import_job \<Rightarrow> bool" where
  "status_inv j \<longleftrightarrow> ij_status j \<noteq> ImportJobIdle \<and> (ij_done j \<longleftrightarrow> job_over j)
     \<and> (ij_status j = ImportJobStaging \<longrightarrow> \<not> ij_startedRun j) \<and> (ij_status j = ImportJobRunning \<longrightarrow> ij_startedRun j)
     \<and> (ij_done j \<longrightarrow> wiped (ij_cek j) \<and> wiped (ij_stagingKey j))
     \<and> 0 < ij_TotalBytes j \<and> ij_TotalChunks j = (ij_TotalBytes j + MaxImportChunkBytes - 1) div MaxImportChunkBytes"

lemma wiped_Zero [simp]: "wiped (Zero k)"
  by (simp add: wiped_def Zero_def list_all_iff)

lemma status_inv_new: "validateImportCreate req = Inr () \<Longrightarrow> status_inv (new_import_job jid uid u k now req)"
  by (auto simp: status_inv_def new_import_job_def validateImportCreate_def job_over_def split: if_splits option.splits)

lemma status_inv_cong:
  assumes "status_inv j" "ij_status j' = ij_status j" "ij_startedRun j' = ij_startedRun j" "ij_done j' = ij_done j"
    "ij_cek j' = ij_cek j" "ij_stagingKey j' = ij_stagingKey j" "ij_TotalBytes j' = ij_TotalBytes j"
    "ij_TotalChunks j' = ij_TotalChunks j"
  shows "status_inv j'"
  using assms by (simp add: status_inv_def job_over_def)

text \<open>The job keeps what it was created with, and its started flag.\<close>

definition same_job :: "import_job \<Rightarrow> import_job \<Rightarrow> bool" where
  "same_job j j' \<longleftrightarrow> ij_UserID j' = ij_UserID j \<and> ij_TotalChunks j' = ij_TotalChunks j \<and> ij_TotalBytes j' = ij_TotalBytes j
     \<and> ij_received j' = ij_received j \<and> ij_startedRun j' = ij_startedRun j"

lemma event_same [simp]:
  "same_job j (import_event now e j)" "ij_status (import_event now e j) = ij_status j"
  "ij_done (import_event now e j) = ij_done j" "ij_cek (import_event now e j) = ij_cek j"
  "ij_stagingKey (import_event now e j) = ij_stagingKey j" "ij_startedRun (import_event now e j) = ij_startedRun j"
  "ij_TotalBytes (import_event now e j) = ij_TotalBytes j" "ij_TotalChunks (import_event now e j) = ij_TotalChunks j"
  by (simp_all add: same_job_def import_event_def split: import_event.splits)

lemma event_status_inv: "status_inv j \<Longrightarrow> status_inv (import_event now e j)"
  by (erule status_inv_cong) simp_all

lemma finish_same [simp]: "same_job j (finishWithReason now st r d j)"
  by (simp add: same_job_def finishWithReason_def)

lemma finish_status_inv:
  "status_inv j \<Longrightarrow> st = ImportJobCompleted \<or> st = ImportJobFailed \<Longrightarrow> status_inv (finishWithReason now st r d j)"
  by (auto simp: status_inv_def finishWithReason_def job_over_def)

lemma same_job_trans: "same_job i j \<Longrightarrow> same_job j k \<Longrightarrow> same_job i k"
  by (simp add: same_job_def)

lemma outcome_same [simp]: "same_job j (import_outcome_job I expired err now j)"
  using same_job_trans [OF event_same(1) finish_same]
  by (auto simp: import_outcome_job_def import_failed_def Let_def split: option.splits)

lemma outcome_status_inv: "status_inv j \<Longrightarrow> status_inv (import_outcome_job I expired err now j)"
  by (auto simp: import_outcome_job_def import_failed_def Let_def intro!: finish_status_inv event_status_inv split: option.splits)

lemma outcome_over: "ij_status (import_outcome_job I expired err now j) \<in> {ImportJobCompleted, ImportJobFailed}"
  by (auto simp: import_outcome_job_def import_failed_def Let_def finishWithReason_def job_over_def split: option.splits)

definition import_owner :: "import_coordinator \<Rightarrow> nat \<Rightarrow> string" where
  "import_owner c a = ij_UserID (ic_heap c ! a)"

definition import_inv :: "import_coordinator \<Rightarrow> bool" where
  "import_inv c \<longleftrightarrow>
     (\<forall>a < length (ic_heap c). status_inv (ic_heap c ! a)
        \<and> chunks_inv (ic_heap c ! a) (chunks_of a (ic_uploads c)) (chunks_of a (ic_stored c))
        \<and> (ij_startedRun (ic_heap c ! a) \<or> a \<in> set (ic_starts c) \<longrightarrow> allChunksReceived (ic_heap c ! a))
        \<and> (\<not> ij_done (ic_heap c ! a) \<longrightarrow> map_of (ic_jobs c) (import_owner c a) = Some a)
        \<and> (ij_status (ic_heap c ! a) = ImportJobRunning \<longleftrightarrow> a \<in> set (ic_runs c)))
   \<and> (\<forall>u a. map_of (ic_jobs c) u = Some a \<longrightarrow> a < length (ic_heap c) \<and> import_owner c a = u)
   \<and> fst ` set (ic_uploads c) \<union> fst ` set (ic_stored c) \<union> set (ic_starts c) \<union> set (ic_runs c) \<union> set (ic_timers c)
       \<union> set (ic_stagingTimers c) \<subseteq> {..<length (ic_heap c)}
   \<and> (\<forall>a \<in> set (ic_timers c). ij_done (ic_heap c ! a))"

lemma import_invD:
  assumes "import_inv c" "a < length (ic_heap c)"
  shows "status_inv (ic_heap c ! a)"
    "chunks_inv (ic_heap c ! a) (chunks_of a (ic_uploads c)) (chunks_of a (ic_stored c))"
    "ij_startedRun (ic_heap c ! a) \<or> a \<in> set (ic_starts c) \<Longrightarrow> allChunksReceived (ic_heap c ! a)"
    "\<not> ij_done (ic_heap c ! a) \<Longrightarrow> map_of (ic_jobs c) (import_owner c a) = Some a"
    "ij_status (ic_heap c ! a) = ImportJobRunning \<longleftrightarrow> a \<in> set (ic_runs c)"
  using assms unfolding import_inv_def by (simp, simp, blast, simp, simp)

lemma import_inv_known:
  assumes "import_inv c"
  shows "map_of (ic_jobs c) u = Some a \<Longrightarrow> a < length (ic_heap c) \<and> import_owner c a = u"
    "a \<in> fst ` set (ic_uploads c) \<Longrightarrow> a < length (ic_heap c)" "a \<in> fst ` set (ic_stored c) \<Longrightarrow> a < length (ic_heap c)"
    "a \<in> set (ic_starts c) \<Longrightarrow> a < length (ic_heap c)" "a \<in> set (ic_runs c) \<Longrightarrow> a < length (ic_heap c)"
    "a \<in> set (ic_timers c) \<Longrightarrow> a < length (ic_heap c) \<and> ij_done (ic_heap c ! a)"
    "a \<in> set (ic_stagingTimers c) \<Longrightarrow> a < length (ic_heap c)"
  using assms unfolding import_inv_def by (simp, blast+)

text \<open>A step that touches one job: what has to be shown of it and of the lists.\<close>

lemma import_inv_change:
  assumes inv: "import_inv c" and a: "a < length (ic_heap c)"
    and heap: "ic_heap c' = (ic_heap c)[a := j]" and user: "ij_UserID j = ij_UserID (ic_heap c ! a)"
    and status: "status_inv j" and chunks: "chunks_inv j (chunks_of a (ic_uploads c')) (chunks_of a (ic_stored c'))"
    and others: "\<And>b. b \<noteq> a \<Longrightarrow> chunks_of b (ic_uploads c') = chunks_of b (ic_uploads c)
                          \<and> chunks_of b (ic_stored c') = chunks_of b (ic_stored c)"
    and started: "ij_startedRun j \<or> a \<in> set (ic_starts c') \<Longrightarrow> allChunksReceived j"
    and starts: "\<And>b. b \<noteq> a \<Longrightarrow> b \<in> set (ic_starts c') \<Longrightarrow> b \<in> set (ic_starts c)"
    and jobs: "\<And>u b. map_of (ic_jobs c') u = Some b \<Longrightarrow> map_of (ic_jobs c) u = Some b"
      "\<And>u b. b \<noteq> a \<Longrightarrow> map_of (ic_jobs c) u = Some b \<Longrightarrow> map_of (ic_jobs c') u = Some b"
    and live: "\<not> ij_done j \<Longrightarrow> map_of (ic_jobs c') (ij_UserID j) = Some a"
    and runs: "ij_status j = ImportJobRunning \<longleftrightarrow> a \<in> set (ic_runs c')"
      "\<And>b. b \<noteq> a \<Longrightarrow> b \<in> set (ic_runs c') \<longleftrightarrow> b \<in> set (ic_runs c)"
    and timers: "set (ic_timers c') \<subseteq> insert a (set (ic_timers c))" "a \<in> set (ic_timers c') \<Longrightarrow> ij_done j"
      "set (ic_stagingTimers c') \<subseteq> insert a (set (ic_stagingTimers c))"
    and lists: "fst ` set (ic_uploads c') \<subseteq> insert a (fst ` set (ic_uploads c))"
      "fst ` set (ic_stored c') \<subseteq> insert a (fst ` set (ic_stored c))"
  shows "import_inv c'"
proof -
  have len: "length (ic_heap c') = length (ic_heap c)" by (simp add: heap)
  have owner: "import_owner c' b = import_owner c b" for b
    using user a by (cases "b = a") (simp_all add: import_owner_def heap)
  have at: "ic_heap c' ! a = j" using a by (simp add: heap)
  have other: "b \<noteq> a \<Longrightarrow> ic_heap c' ! b = ic_heap c ! b" for b by (simp add: heap)
  have one: "status_inv (ic_heap c' ! b)
        \<and> chunks_inv (ic_heap c' ! b) (chunks_of b (ic_uploads c')) (chunks_of b (ic_stored c'))
        \<and> (ij_startedRun (ic_heap c' ! b) \<or> b \<in> set (ic_starts c') \<longrightarrow> allChunksReceived (ic_heap c' ! b))
        \<and> (\<not> ij_done (ic_heap c' ! b) \<longrightarrow> map_of (ic_jobs c') (import_owner c' b) = Some b)
        \<and> (ij_status (ic_heap c' ! b) = ImportJobRunning \<longleftrightarrow> b \<in> set (ic_runs c'))"
    if b: "b < length (ic_heap c')" for b
  proof (cases "b = a")
    case True
    have "import_owner c' a = ij_UserID j" by (simp add: import_owner_def at)
    then show ?thesis using True status chunks started live runs(1) at by simp
  next
    case False
    note old = import_invD [OF inv b [unfolded len]]
    show ?thesis
      unfolding other [OF False] owner using old others [OF False] starts [OF False] jobs(2) [OF False] runs(2) [OF False]
      by auto
  qed
  have known: "b < length (ic_heap c') \<and> import_owner c' b = u" if "map_of (ic_jobs c') u = Some b" for u b
    using import_inv_known(1) [OF inv jobs(1) [OF that]] by (simp add: len owner)
  have sets: "fst ` set (ic_uploads c') \<union> fst ` set (ic_stored c') \<union> set (ic_starts c') \<union> set (ic_runs c') \<union> set (ic_timers c')
       \<union> set (ic_stagingTimers c') \<subseteq> {..<length (ic_heap c')}"
  proof
    fix b assume "b \<in> fst ` set (ic_uploads c') \<union> fst ` set (ic_stored c') \<union> set (ic_starts c') \<union> set (ic_runs c')
       \<union> set (ic_timers c') \<union> set (ic_stagingTimers c')"
    then have "b = a \<or> b \<in> fst ` set (ic_uploads c) \<or> b \<in> fst ` set (ic_stored c) \<or> b \<in> set (ic_starts c)
       \<or> b \<in> set (ic_runs c) \<or> b \<in> set (ic_timers c) \<or> b \<in> set (ic_stagingTimers c)"
      using starts [of b] runs(2) [of b] timers(1,3) lists by blast
    then show "b \<in> {..<length (ic_heap c')}"
      using import_inv_known(2-7) [OF inv, of b] a len by auto
  qed
  have over: "ij_done (ic_heap c' ! b)" if "b \<in> set (ic_timers c')" for b
    using that timers import_inv_known(6) [OF inv, of b] at other by (cases "b = a") auto
  show ?thesis unfolding import_inv_def using one known sets over by blast
qed

lemma upd_import_simps [simp]:
  "ic_heap (upd_import a f c) = (ic_heap c)[a := f (ic_heap c ! a)]" "ic_jobs (upd_import a f c) = ic_jobs c"
  "ic_uploads (upd_import a f c) = ic_uploads c" "ic_stored (upd_import a f c) = ic_stored c"
  "ic_starts (upd_import a f c) = ic_starts c" "ic_runs (upd_import a f c) = ic_runs c"
  "ic_timers (upd_import a f c) = ic_timers c" "ic_stagingTimers (upd_import a f c) = ic_stagingTimers c"
  "ic_retention (upd_import a f c) = ic_retention c" "ic_stagingRetention (upd_import a f c) = ic_stagingRetention c"
  by (simp_all add: upd_import_def)

lemma allChunksReceived_cong:
  "ij_received j' = ij_received j \<Longrightarrow> ij_TotalChunks j' = ij_TotalChunks j \<Longrightarrow> allChunksReceived j' = allChunksReceived j"
  by (simp add: allChunksReceived_def)

text \<open>The chunk steps.\<close>

lemma same_statusI:
  assumes "import_inv c" "a < length (ic_heap c)" "ij_status j = ij_status (ic_heap c ! a)"
    "ij_startedRun j = ij_startedRun (ic_heap c ! a)" "ij_done j = ij_done (ic_heap c ! a)"
    "ij_cek j = ij_cek (ic_heap c ! a)" "ij_stagingKey j = ij_stagingKey (ic_heap c ! a)"
    "ij_TotalBytes j = ij_TotalBytes (ic_heap c ! a)" "ij_TotalChunks j = ij_TotalChunks (ic_heap c ! a)"
    "ij_UserID j = ij_UserID (ic_heap c ! a)"
  shows "status_inv j" "ij_status j = ImportJobRunning \<longleftrightarrow> a \<in> set (ic_runs c)"
    "\<not> ij_done j \<Longrightarrow> map_of (ic_jobs c) (ij_UserID j) = Some a"
    "a \<in> set (ic_timers c) \<Longrightarrow> ij_done j"
  using status_inv_cong [OF import_invD(1) [OF assms(1,2)] assms(3-9)] import_invD(4,5) [OF assms(1,2)]
    import_inv_known(6) [OF assms(1)] assms(3,5,10)
  by (simp_all add: import_owner_def)

lemma no_upload_started:
  assumes "import_inv c" "a < length (ic_heap c)" "ij_startedRun (ic_heap c ! a) \<or> a \<in> set (ic_starts c)"
  shows "(a, i, d) \<notin> set (ic_uploads c)"
proof -
  have "chunks_of a (ic_uploads c) = []"
    by (rule all_received_no_upload [OF import_invD(2) [OF assms(1,2)] import_invD(3) [OF assms(1-3)]])
  then show ?thesis by (metis empty_iff empty_set set_chunks_of)
qed

lemma inv_chunk_begin:
  assumes inv: "import_inv c" and a: "a < length (ic_heap c)" and fit: "chunk_fits (ic_heap c ! a) i d"
    and b: "beginChunk now i (chunk_hash d) (ic_heap c ! a) = (Inr False, j)"
  shows "import_inv ((upd_import a (\<lambda>_. j) c)\<lparr>ic_uploads := (a, i, d) # ic_uploads c\<rparr>)"
proof -
  note new = beginChunk_new [OF b]
  have keep: "ij_status j = ij_status (ic_heap c ! a)"
    "ij_startedRun j = ij_startedRun (ic_heap c ! a)" "ij_done j = ij_done (ic_heap c ! a)"
    "ij_cek j = ij_cek (ic_heap c ! a)" "ij_stagingKey j = ij_stagingKey (ic_heap c ! a)"
    "ij_TotalBytes j = ij_TotalBytes (ic_heap c ! a)" "ij_TotalChunks j = ij_TotalChunks (ic_heap c ! a)"
    "ij_UserID j = ij_UserID (ic_heap c ! a)" using new by simp_all
  note st = same_statusI [OF inv a keep]
  have chunks: "chunks_inv j ((i, d) # chunks_of a (ic_uploads c)) (chunks_of a (ic_stored c))"
    by (rule chunks_inv_begin [OF import_invD(2) [OF inv a] fit b])
  have "a \<notin> set (ic_starts c)"
  proof
    assume s: "a \<in> set (ic_starts c)"
    then have all: "allChunksReceived (ic_heap c ! a)" using import_invD(3) [OF inv a] by blast
    have "0 \<le> i" "i < ij_TotalChunks (ic_heap c ! a)" using fit by (simp_all add: chunk_fits_def)
    from all_received_stored [OF import_invD(2) [OF inv a] all this] obtain x where "(i, x) \<in> set (chunks_of a (ic_stored c))"
      by blast
    then have "map_of (ij_received (ic_heap c ! a)) i = Some (chunk_hash x)"
      by (rule chunks_parts(5) [OF import_invD(2) [OF inv a]])
    then show False using new by simp
  qed
  then show ?thesis
    by (intro import_inv_change [OF inv a, where j = j]) (use keep new st chunks in auto)
qed

lemma inv_chunk_stored:
  assumes inv: "import_inv c" and u: "(a, i, d) \<in> set (ic_uploads c)"
  shows "import_inv ((upd_import a (finishChunk now i (chunk_hash d)) c)
      \<lparr>ic_uploads := removeAll (a, i, d) (ic_uploads c), ic_stored := (a, i, d) # ic_stored c\<rparr>)"
proof -
  have a: "a < length (ic_heap c)" by (rule import_inv_known(2) [OF inv]) (use u in force)
  let ?j = "finishChunk now i (chunk_hash d) (ic_heap c ! a)"
  have keep: "ij_status ?j = ij_status (ic_heap c ! a)"
    "ij_startedRun ?j = ij_startedRun (ic_heap c ! a)" "ij_done ?j = ij_done (ic_heap c ! a)"
    "ij_cek ?j = ij_cek (ic_heap c ! a)" "ij_stagingKey ?j = ij_stagingKey (ic_heap c ! a)"
    "ij_TotalBytes ?j = ij_TotalBytes (ic_heap c ! a)" "ij_TotalChunks ?j = ij_TotalChunks (ic_heap c ! a)"
    "ij_UserID ?j = ij_UserID (ic_heap c ! a)" by (simp_all add: finishChunk_def)
  note st = same_statusI [OF inv a keep]
  have "(i, d) \<in> set (chunks_of a (ic_uploads c))" using u by simp
  then have chunks: "chunks_inv ?j (removeAll (i, d) (chunks_of a (ic_uploads c))) ((i, d) # chunks_of a (ic_stored c))"
    by (rule chunks_inv_finish [OF import_invD(2) [OF inv a]])
  have none: "\<not> ij_startedRun (ic_heap c ! a)" "a \<notin> set (ic_starts c)" using no_upload_started [OF inv a] u by blast+
  have sub: "fst ` set (removeAll (a, i, d) (ic_uploads c)) \<subseteq> insert a (fst ` set (ic_uploads c))" by auto
  have stay: "set (ic_timers c) \<subseteq> insert a (set (ic_timers c))" "set (ic_stagingTimers c) \<subseteq> insert a (set (ic_stagingTimers c))"
    "fst ` set (ic_stored c) \<subseteq> insert a (fst ` set (ic_stored c))" by auto
  show ?thesis
    by (rule import_inv_change [OF inv a, where j = ?j])
      (use keep st chunks none sub stay in \<open>simp_all add: chunks_of_remove del: set_removeAll\<close>)
qed

lemma inv_chunk_failed:
  assumes inv: "import_inv c" and u: "(a, i, d) \<in> set (ic_uploads c)"
  shows "import_inv ((upd_import a (clearPendingChunk now i (chunk_hash d)) c)
      \<lparr>ic_uploads := removeAll (a, i, d) (ic_uploads c)\<rparr>)"
proof -
  have a: "a < length (ic_heap c)" by (rule import_inv_known(2) [OF inv]) (use u in force)
  let ?j = "clearPendingChunk now i (chunk_hash d) (ic_heap c ! a)"
  have keep: "ij_status ?j = ij_status (ic_heap c ! a)"
    "ij_startedRun ?j = ij_startedRun (ic_heap c ! a)" "ij_done ?j = ij_done (ic_heap c ! a)"
    "ij_cek ?j = ij_cek (ic_heap c ! a)" "ij_stagingKey ?j = ij_stagingKey (ic_heap c ! a)"
    "ij_TotalBytes ?j = ij_TotalBytes (ic_heap c ! a)" "ij_TotalChunks ?j = ij_TotalChunks (ic_heap c ! a)"
    "ij_UserID ?j = ij_UserID (ic_heap c ! a)" by (simp_all add: clearPendingChunk_def)
  note st = same_statusI [OF inv a keep]
  have "(i, d) \<in> set (chunks_of a (ic_uploads c))" using u by simp
  then have chunks: "chunks_inv ?j (removeAll (i, d) (chunks_of a (ic_uploads c))) (chunks_of a (ic_stored c))"
    by (rule chunks_inv_clear [OF import_invD(2) [OF inv a]])
  have none: "\<not> ij_startedRun (ic_heap c ! a)" "a \<notin> set (ic_starts c)" using no_upload_started [OF inv a] u by blast+
  have sub: "fst ` set (removeAll (a, i, d) (ic_uploads c)) \<subseteq> insert a (fst ` set (ic_uploads c))" by auto
  have stay: "set (ic_timers c) \<subseteq> insert a (set (ic_timers c))" "set (ic_stagingTimers c) \<subseteq> insert a (set (ic_stagingTimers c))"
    "fst ` set (ic_stored c) \<subseteq> insert a (fst ` set (ic_stored c))" by auto
  show ?thesis
    by (rule import_inv_change [OF inv a, where j = ?j])
      (use keep st chunks none sub stay in \<open>simp_all add: chunks_of_remove del: set_removeAll\<close>)
qed

text \<open>The other steps.\<close>

lemma chunks_of_none: "a \<notin> fst ` set xs \<Longrightarrow> chunks_of a xs = []"
  by (force simp: chunks_of_def filter_empty_conv)

lemma inv_create:
  assumes inv: "import_inv c" and run: "CreateImport ent formatted now userID req c = (Inr a, c')"
  shows "import_inv c'"
proof -
  from run obtain jid uid k where
    v: "validateImportCreate req = Inr ()" and a: "a = length (ic_heap c)"
    and free: "\<And>b. map_of (ic_jobs c) userID = Some b \<Longrightarrow> ij_status (ic_heap c ! b) \<notin> {ImportJobStaging, ImportJobRunning}"
    and c': "c' = c\<lparr>ic_heap := ic_heap c @ [new_import_job jid uid userID k now req],
                   ic_jobs := al_set userID (length (ic_heap c)) (ic_jobs c)\<rparr>"
    by (auto simp: CreateImport_def Let_def split: sum.splits option.splits if_splits prod.splits)
  let ?j = "new_import_job jid uid userID k now req"
  have new: "ij_UserID ?j = userID" "\<not> ij_startedRun ?j" "ij_status ?j = ImportJobStaging" "ij_received ?j = []" "\<not> ij_done ?j"
    by (simp_all add: new_import_job_def)
  have at: "ic_heap c' ! length (ic_heap c) = ?j" by (simp add: c')
  have old: "b < length (ic_heap c) \<Longrightarrow> ic_heap c' ! b = ic_heap c ! b" for b by (simp add: c' nth_append)
  have owner: "b < length (ic_heap c) \<Longrightarrow> import_owner c' b = import_owner c b" for b by (simp add: import_owner_def old)
  have none: "chunks_of (length (ic_heap c)) (ic_uploads c) = []" "chunks_of (length (ic_heap c)) (ic_stored c) = []"
    using import_inv_known(2,3) [OF inv, of "length (ic_heap c)"] chunks_of_none by blast+
  have unknown: "length (ic_heap c) \<notin> set (ic_starts c)" "length (ic_heap c) \<notin> set (ic_runs c)"
    using import_inv_known(4,5) [OF inv, of "length (ic_heap c)"] by auto
  have one: "status_inv (ic_heap c' ! b)
        \<and> chunks_inv (ic_heap c' ! b) (chunks_of b (ic_uploads c')) (chunks_of b (ic_stored c'))
        \<and> (ij_startedRun (ic_heap c' ! b) \<or> b \<in> set (ic_starts c') \<longrightarrow> allChunksReceived (ic_heap c' ! b))
        \<and> (\<not> ij_done (ic_heap c' ! b) \<longrightarrow> map_of (ic_jobs c') (import_owner c' b) = Some b)
        \<and> (ij_status (ic_heap c' ! b) = ImportJobRunning \<longleftrightarrow> b \<in> set (ic_runs c'))"
    if b: "b < length (ic_heap c')" for b
  proof (cases "b = length (ic_heap c)")
    case True
    have "chunks_inv ?j [] []" by (simp add: chunks_inv_def new)
    then show ?thesis using True none unknown new status_inv_new [OF v]
      by (simp add: at import_owner_def c')
  next
    case False
    then have lt: "b < length (ic_heap c)" using b by (simp add: c')
    note D = import_invD [OF inv lt]
    have live: "map_of (ic_jobs c') (import_owner c b) = Some b" if "\<not> ij_done (ic_heap c ! b)"
    proof -
      have m: "map_of (ic_jobs c) (import_owner c b) = Some b" by (rule D(4) [OF that])
      have "ij_status (ic_heap c ! b) \<in> {ImportJobStaging, ImportJobRunning}"
        using D(1) that by (cases "ij_status (ic_heap c ! b)") (auto simp: status_inv_def job_over_def)
      then have "import_owner c b \<noteq> userID" using free m by auto
      then show ?thesis using m by (simp add: c')
    qed
    show ?thesis unfolding old [OF lt] owner [OF lt] using D live by (simp add: c')
  qed
  have known: "b < length (ic_heap c') \<and> import_owner c' b = u" if "map_of (ic_jobs c') u = Some b" for u b
  proof (cases "u = userID")
    case True
    then have "b = length (ic_heap c)" using that by (simp add: c')
    then show ?thesis using True by (simp add: import_owner_def at new) (simp add: c')
  next
    case False
    then have "map_of (ic_jobs c) u = Some b" using that by (simp add: c')
    from import_inv_known(1) [OF inv this] show ?thesis using owner by (simp add: c')
  qed
  have sets: "fst ` set (ic_uploads c') \<union> fst ` set (ic_stored c') \<union> set (ic_starts c') \<union> set (ic_runs c') \<union> set (ic_timers c')
       \<union> set (ic_stagingTimers c') \<subseteq> {..<length (ic_heap c')}"
    using import_inv_known(2-7) [OF inv] by (force simp: c')
  have over: "ij_done (ic_heap c' ! b)" if "b \<in> set (ic_timers c')" for b
    using import_inv_known(6) [OF inv, of b] that old by (simp add: c')
  show ?thesis unfolding import_inv_def using one known sets over by blast
qed

lemma subset_insert_same: "A \<subseteq> insert a A"
  by blast

lemma inv_same:
  assumes inv: "import_inv c" and a: "a < length (ic_heap c)"
    and c': "ic_heap c' = ic_heap c" "ic_uploads c' = ic_uploads c" "ic_stored c' = ic_stored c" "ic_runs c' = ic_runs c"
    and starts: "set (ic_starts c') \<subseteq> insert a (set (ic_starts c))" "a \<in> set (ic_starts c') \<Longrightarrow> allChunksReceived (ic_heap c ! a)"
    and jobs: "\<And>u b. map_of (ic_jobs c') u = Some b \<Longrightarrow> map_of (ic_jobs c) u = Some b"
      "\<And>u b. b \<noteq> a \<Longrightarrow> map_of (ic_jobs c) u = Some b \<Longrightarrow> map_of (ic_jobs c') u = Some b"
      "\<not> ij_done (ic_heap c ! a) \<Longrightarrow> ic_jobs c' = ic_jobs c"
    and timers: "set (ic_timers c') \<subseteq> set (ic_timers c)" "set (ic_stagingTimers c') \<subseteq> insert a (set (ic_stagingTimers c))"
  shows "import_inv c'"
proof (rule import_inv_change [OF inv a, where j = "ic_heap c ! a"])
  note D = import_invD [OF inv a]
  show "ic_heap c' = (ic_heap c)[a := ic_heap c ! a]" by (simp add: c')
  show "status_inv (ic_heap c ! a)" by (rule D(1))
  show "chunks_inv (ic_heap c ! a) (chunks_of a (ic_uploads c')) (chunks_of a (ic_stored c'))" using D(2) by (simp add: c')
  show "ij_startedRun (ic_heap c ! a) \<or> a \<in> set (ic_starts c') \<Longrightarrow> allChunksReceived (ic_heap c ! a)"
    using D(3) starts(2) by blast
  show "b \<noteq> a \<Longrightarrow> b \<in> set (ic_starts c') \<Longrightarrow> b \<in> set (ic_starts c)" for b using starts(1) by blast
  show "\<not> ij_done (ic_heap c ! a) \<Longrightarrow> map_of (ic_jobs c') (ij_UserID (ic_heap c ! a)) = Some a"
    using D(4) jobs(3) by (simp add: import_owner_def)
  show "(ij_status (ic_heap c ! a) = ImportJobRunning) = (a \<in> set (ic_runs c'))" using D(5) by (simp add: c')
  show "a \<in> set (ic_timers c') \<Longrightarrow> ij_done (ic_heap c ! a)" using timers(1) import_inv_known(6) [OF inv, of a] by blast
  show "set (ic_timers c') \<subseteq> insert a (set (ic_timers c))" using timers(1) by blast
  show "set (ic_stagingTimers c') \<subseteq> insert a (set (ic_stagingTimers c))" by (rule timers(2))
  show "map_of (ic_jobs c') u = Some b \<Longrightarrow> map_of (ic_jobs c) u = Some b" for u b by (rule jobs(1))
  show "b \<noteq> a \<Longrightarrow> map_of (ic_jobs c) u = Some b \<Longrightarrow> map_of (ic_jobs c') u = Some b" for u b by (rule jobs(2))
qed (simp_all add: c' subset_insert_same)

lemma inv_start:
  assumes inv: "import_inv c" and s: "a \<in> set (ic_starts c)" and run: "StartImport now cek a c = (True, c')"
  shows "import_inv c'"
proof -
  have a: "a < length (ic_heap c)" by (rule import_inv_known(4) [OF inv s])
  note D = import_invD [OF inv a]
  let ?j = "(ic_heap c ! a)\<lparr>ij_startedRun := True, ij_cek := cek, ij_status := ImportJobRunning, ij_updatedAt := now\<rparr>"
  have staging: "ij_status (ic_heap c ! a) = ImportJobStaging"
    and c': "c' = (upd_import a (\<lambda>j. j\<lparr>ij_startedRun := True, ij_cek := cek, ij_status := ImportJobRunning,
                                        ij_updatedAt := now\<rparr>) c)\<lparr>ic_runs := a # ic_runs c\<rparr>"
    using run by (auto simp: StartImport_def Let_def split: if_splits)
  have notdone: "\<not> ij_done (ic_heap c ! a)" using D(1) staging by (simp add: status_inv_def job_over_def)
  have st: "status_inv ?j" using D(1) notdone staging by (simp add: status_inv_def job_over_def)
  have all: "allChunksReceived ?j" using D(3) s by (simp add: allChunksReceived_def)
  have ch: "chunks_inv ?j (chunks_of a (ic_uploads c)) (chunks_of a (ic_stored c))"
    by (subst chunks_inv_cong [where j = "ic_heap c ! a"]) (simp_all add: D(2))
  have timer: "a \<notin> set (ic_timers c)" using import_inv_known(6) [OF inv, of a] notdone by blast
  show ?thesis unfolding c'
    by (rule import_inv_change [OF inv a, where j = ?j])
      (use st all ch timer D(4) notdone subset_insert_same in \<open>simp_all add: import_owner_def\<close>)
qed

lemma inv_report:
  assumes inv: "import_inv c" and r: "a \<in> set (ic_runs c)"
  shows "import_inv (upd_import a (import_event now e) c)"
proof -
  have a: "a < length (ic_heap c)" by (rule import_inv_known(5) [OF inv r])
  let ?j = "import_event now e (ic_heap c ! a)"
  note D = import_invD [OF inv a]
  have same: "same_job (ic_heap c ! a) ?j" by simp
  note st = same_statusI [OF inv a, of ?j]
  have ch: "chunks_inv ?j (chunks_of a (ic_uploads c)) (chunks_of a (ic_stored c))"
    by (subst chunks_inv_cong [where j = "ic_heap c ! a"]) (use same in \<open>simp_all add: D(2) same_job_def\<close>)
  have all: "allChunksReceived ?j = allChunksReceived (ic_heap c ! a)"
    by (rule allChunksReceived_cong) (use same in \<open>simp_all add: same_job_def\<close>)
  have user: "ij_UserID ?j = ij_UserID (ic_heap c ! a)" using same by (simp add: same_job_def)
  show ?thesis
    by (rule import_inv_change [OF inv a, where j = ?j])
      (use st ch user D(3,4,5) subset_insert_same event_status_inv [OF D(1)] import_inv_known(6) [OF inv, of a] in
        \<open>simp_all add: all import_owner_def\<close>)
qed

lemma inv_ended:
  assumes inv: "import_inv c" and r: "a \<in> set (ic_runs c)"
  shows "import_inv (run_ended a (upd_import a (import_outcome_job I expired err now) c))"
proof -
  have a: "a < length (ic_heap c)" by (rule import_inv_known(5) [OF inv r])
  let ?j = "import_outcome_job I expired err now (ic_heap c ! a)"
  note D = import_invD [OF inv a]
  have same: "same_job (ic_heap c ! a) ?j" by simp
  have st: "status_inv ?j" by (rule outcome_status_inv [OF D(1)])
  have over: "ij_done ?j" "ij_status ?j \<noteq> ImportJobRunning"
    using st outcome_over [of I expired err now "ic_heap c ! a"] by (auto simp: status_inv_def job_over_def)
  have ch: "chunks_inv ?j (chunks_of a (ic_uploads c)) (chunks_of a (ic_stored c))"
    by (subst chunks_inv_cong [where j = "ic_heap c ! a"]) (use same in \<open>simp_all add: D(2) same_job_def\<close>)
  have all: "allChunksReceived ?j = allChunksReceived (ic_heap c ! a)"
    by (rule allChunksReceived_cong) (use same in \<open>simp_all add: same_job_def\<close>)
  have user: "ij_UserID ?j = ij_UserID (ic_heap c ! a)" and started: "ij_startedRun ?j = ij_startedRun (ic_heap c ! a)"
    using same by (simp_all add: same_job_def)
  have keep: "map_of (ic_jobs c) u = Some b \<Longrightarrow> map_of (ic_jobs c) (ij_UserID ?j) = Some a \<Longrightarrow> b \<noteq> a \<Longrightarrow> u \<noteq> ij_UserID ?j" for u b
    by auto
  show ?thesis
    by (rule import_inv_change [OF inv a, where j = ?j])
      (use st over ch user started D(3) keep subset_insert_same in
        \<open>auto simp: run_ended_def deleteImportIfSame_def Let_def all a split: if_splits\<close>)
qed

lemma inv_reaped:
  assumes inv: "import_inv c" and t: "a \<in> set (ic_stagingTimers c)" and run: "reapStaleStaging now a c = (b, c')"
  shows "import_inv c'"
proof -
  have a: "a < length (ic_heap c)" by (rule import_inv_known(7) [OF inv t])
  note D = import_invD [OF inv a]
  let ?c1 = "c\<lparr>ic_stagingTimers := remove1 a (ic_stagingTimers c)\<rparr>"
  have sub: "set (remove1 a (ic_stagingTimers c)) \<subseteq> insert a (set (ic_stagingTimers c))"
    using set_remove1_subset [of a "ic_stagingTimers c"] by blast
  have same: "import_inv ?c1"
    by (rule inv_same [OF inv a]) (use sub D(3) in auto)
  have again: "import_inv (c\<lparr>ic_stagingTimers := a # remove1 a (ic_stagingTimers c)\<rparr>)"
    by (rule inv_same [OF inv a]) (use sub D(3) in auto)
  show ?thesis
  proof (cases "b")
    case False
    then show ?thesis using run same again
      by (auto simp: reapStaleStaging_def failIfStaleStaging_def Let_def split: if_splits)
  next
    case True
    let ?j = "(ic_heap c ! a)\<lparr>ij_status := ImportJobFailed, ij_updatedAt := now, ij_cek := Zero (ij_cek (ic_heap c ! a)),
                  ij_stagingKey := Zero (ij_stagingKey (ic_heap c ! a)), ij_done := True\<rparr>"
    have c': "c' = (upd_import a (\<lambda>_. ?j) ?c1)\<lparr>ic_jobs := al_del (ij_UserID (ic_heap c ! a)) (ic_jobs c)\<rparr>"
      and mine: "map_of (ic_jobs c) (ij_UserID (ic_heap c ! a)) = Some a"
      and staging: "ij_status (ic_heap c ! a) = ImportJobStaging"
      using run True by (auto simp: reapStaleStaging_def failIfStaleStaging_def Let_def split: if_splits)
    have st: "status_inv ?j" using D(1) staging by (simp add: status_inv_def job_over_def)
    have ch: "chunks_inv ?j (chunks_of a (ic_uploads c)) (chunks_of a (ic_stored c))"
      by (subst chunks_inv_cong [where j = "ic_heap c ! a"]) (simp_all add: D(2))
    have all: "allChunksReceived ?j = allChunksReceived (ic_heap c ! a)" by (rule allChunksReceived_cong) simp_all
    have "a \<notin> set (ic_runs c)" using D(5) staging by simp
    then show ?thesis unfolding c'
      by (intro import_inv_change [OF inv a, where j = ?j])
        (use st ch D(3) mine sub subset_insert_same in \<open>auto simp: all split: if_splits\<close>)
  qed
qed

theorem import_inv_reachable: "import_reachable c \<Longrightarrow> import_inv c"
proof (induction rule: import_reachable.induct)
  case (init r t)
  show ?case by (simp add: import_inv_def NewImportCoordinator_def)
next
  case (step c c')
  note inv = step.IH
  from step.hyps(2) show ?case
  proof cases
    case (schedule a)
    show ?thesis unfolding schedule(1)
      by (rule inv_same [OF inv schedule(2)]) (use import_invD(3) [OF inv schedule(2)] in \<open>auto simp: ScheduleStagingCleanup_def\<close>)
  next
    case (start_check a)
    show ?thesis unfolding start_check(1)
      by (rule inv_same [OF inv start_check(2)]) (use start_check(3) in auto)
  next
    case (expired a)
    have a: "a < length (ic_heap c)" and over: "ij_done (ic_heap c ! a)"
      using import_inv_known(6) [OF inv expired(2)] by auto
    have sub: "set (remove1 a (ic_timers c)) \<subseteq> set (ic_timers c)" by (rule set_remove1_subset)
    show ?thesis unfolding expired(1)
      by (rule inv_same [OF inv a])
        (use over sub import_invD(3) [OF inv a] in \<open>auto simp: deleteImportIfSame_def Let_def split: if_splits\<close>)
  next
    case create then show ?thesis by (rule inv_create [OF inv])
  next
    case chunk_begin then show ?thesis using inv_chunk_begin [OF inv chunk_begin(2-4)] by simp
  next
    case chunk_stored then show ?thesis using inv_chunk_stored [OF inv chunk_stored(2)] by simp
  next
    case chunk_failed then show ?thesis using inv_chunk_failed [OF inv chunk_failed(2)] by simp
  next
    case start then show ?thesis by (rule inv_start [OF inv])
  next
    case report then show ?thesis using inv_report [OF inv report(2)] by simp
  next
    case ended then show ?thesis using inv_ended [OF inv ended(2)] by simp
  next
    case reaped then show ?thesis by (rule inv_reaped [OF inv])
  qed
qed

section \<open>A run starts on a complete archive\<close>

lemma concat_chunks_length:
  assumes "length xs = Suc n" "\<forall>i < n. int (length (xs ! i)) = m" "int (length (xs ! n)) = r"
  shows "int (length (concat xs)) = int n * m + r"
  using assms
proof (induction n arbitrary: xs)
  case 0
  then obtain x where "xs = [x]" by (metis One_nat_def length_0_conv length_Suc_conv)
  then show ?case using 0 by simp
next
  case (Suc n)
  then obtain x ys where xs: "xs = x # ys" "length ys = Suc n" by (metis length_Suc_conv)
  have "\<forall>i < n. int (length (ys ! i)) = m"
  proof (intro allI impI)
    fix i assume "i < n"
    then show "int (length (ys ! i)) = m" using Suc.prems(2) [rule_format, of "Suc i"] xs by simp
  qed
  moreover have "int (length (ys ! n)) = r" using Suc.prems(3) xs by simp
  ultimately have "int (length (concat ys)) = int n * m + r" by (rule Suc.IH [OF xs(2)])
  moreover have "int (length x) = m" using Suc.prems(2) [rule_format, of 0] xs by simp
  ultimately show ?case using xs by (simp add: algebra_simps)
qed

lemma reach_step: "import_reachable c \<Longrightarrow> import_step c c' \<Longrightarrow> import_reachable c'"
  by (rule import_reachable.step)

text \<open>A user who uploads one byte in one chunk, and starts.\<close>

definition example_create :: import_create_request where
  "example_create = \<lparr> icr_Source = ''chatgpt'', icr_TotalBytes = 1, icr_TotalChunks = 1,
     icr_ArchiveSHA256 = hex_encode (replicate 32 (CHR 0x00)) \<rparr>"

definition example_staging :: import_job where
  "example_staging = new_import_job ''t'' ''t'' ''user_1'' (replicate 32 (CHR 0x07)) 0 example_create"

definition example_staged :: import_job where
  "example_staged = example_staging\<lparr>ij_received := [(0, chunk_hash ''x'')], ij_updatedAt := 2\<rparr>"

definition example_running :: import_job where
  "example_running = example_staged\<lparr>ij_startedRun := True, ij_cek := replicate 32 (CHR 0x05),
     ij_status := ImportJobRunning, ij_updatedAt := 3\<rparr>"

definition running_coordinator :: import_coordinator where
  "running_coordinator = NewImportCoordinator\<lparr>ic_retention := 1, ic_stagingRetention := 1, ic_heap := [example_running],
     ic_jobs := [(''user_1'', 0)], ic_stored := [(0, 0, ''x'')], ic_starts := [0], ic_runs := [0]\<rparr>"

lemma running_reachable: "import_reachable running_coordinator"
proof -
  let ?c0 = "NewImportCoordinator\<lparr>ic_retention := 1, ic_stagingRetention := 1\<rparr>"
  let ?c1 = "?c0\<lparr>ic_heap := [example_staging], ic_jobs := [(''user_1'', 0)]\<rparr>"
  have v: "validateImportCreate example_create = Inr ()"
    by (simp add: validateImportCreate_def example_create_def MaxImportArchiveBytes_def MaxImportChunkBytes_def)
  have "CreateImport (replicate 32 (CHR 0x07)) ''t'' 0 ''user_1'' example_create ?c0 = (Inr 0, ?c1)"
    by (simp add: CreateImport_def v NewImportCoordinator_def Let_def RandomKey_def rand_read_def KeySize_def
        newImportID_def example_staging_def)
  then have r1: "import_reachable ?c1" using import_step.create import_reachable.init reach_step by blast
  let ?j = "example_staging\<lparr>ij_received := [(0, importChunkPendingPrefix @ chunk_hash ''x'')], ij_updatedAt := 1\<rparr>"
  let ?c2 = "(upd_import 0 (\<lambda>_. ?j) ?c1)\<lparr>ic_uploads := [(0, 0, ''x'')]\<rparr>"
  have "beginChunk 1 0 (chunk_hash ''x'') example_staging = (Inr False, ?j)"
    by (simp add: beginChunk_def example_staging_def new_import_job_def)
  moreover have "chunk_fits example_staging 0 ''x''"
    by (simp add: chunk_fits_def expected_chunk_bytes_def example_staging_def new_import_job_def example_create_def)
  ultimately have "import_step ?c1 ?c2"
    using import_step.chunk_begin [of 0 ?c1 0 "''x''" 1 ?j] by (simp add: NewImportCoordinator_def)
  then have r2: "import_reachable ?c2" using reach_step r1 by blast
  let ?c3 = "(upd_import 0 (finishChunk 2 0 (chunk_hash ''x'')) ?c2)\<lparr>ic_uploads := [], ic_stored := [(0, 0, ''x'')]\<rparr>"
  have "import_step ?c2 ?c3"
    using import_step.chunk_stored [of 0 0 "''x''" ?c2 2] by (simp add: NewImportCoordinator_def upd_import_def)
  then have "import_reachable ?c3" using reach_step r2 by blast
  moreover have "?c3 = ?c0\<lparr>ic_heap := [example_staged], ic_jobs := [(''user_1'', 0)], ic_stored := [(0, 0, ''x'')]\<rparr>"
    by (simp add: upd_import_def NewImportCoordinator_def finishChunk_def example_staged_def)
  ultimately have r3: "import_reachable (?c0\<lparr>ic_heap := [example_staged], ic_jobs := [(''user_1'', 0)], ic_stored := [(0, 0, ''x'')]\<rparr>)"
    (is "import_reachable ?d") by simp
  have "allChunksReceived example_staged"
    by (simp add: allChunksReceived_def example_staged_def example_staging_def new_import_job_def example_create_def)
  then have "import_step ?d (?d\<lparr>ic_starts := [0]\<rparr>)"
    using import_step.start_check [of 0 ?d] by (simp add: NewImportCoordinator_def)
  then have r4: "import_reachable (?d\<lparr>ic_starts := [0]\<rparr>)" using reach_step r3 by blast
  have "StartImport 3 (replicate 32 (CHR 0x05)) 0 (?d\<lparr>ic_starts := [0]\<rparr>) = (True, running_coordinator)"
    by (simp add: StartImport_def Let_def example_staged_def example_staging_def new_import_job_def upd_import_def
        NewImportCoordinator_def running_coordinator_def example_running_def)
  then have "import_step (?d\<lparr>ic_starts := [0]\<rparr>) running_coordinator" using import_step.start by fastforce
  then show ?thesis using reach_step r4 by blast
qed

text \<open>
  C26. An import runs on a complete upload: whatever requests, uploads, failures, retries, timers and
  ends of runs interleave, when a job has been started every chunk of its archive has been confirmed
  by the bucket, each index exactly once and with the bytes whose SHA-256 the job has on record, no
  chunk is still on its way, and the confirmed chunks in order are exactly as long as the archive
  that was announced.
\<close>

theorem import_runs_complete:
  assumes "import_reachable c" "a < length (ic_heap c)" "ij_startedRun (ic_heap c ! a)"
  shows "\<exists>chunks. int (length chunks) = ij_TotalChunks (ic_heap c ! a)
    \<and> int (length (concat chunks)) = ij_TotalBytes (ic_heap c ! a)
    \<and> (\<forall>i d. (a, i, d) \<in> set (ic_stored c) \<longleftrightarrow> 0 \<le> i \<and> i < int (length chunks) \<and> d = chunks ! nat i)
    \<and> (\<forall>i < length chunks. map_of (ij_received (ic_heap c ! a)) (int i) = Some (hex_encode (sha256 (chunks ! i))))
    \<and> (\<forall>i d. (a, i, d) \<notin> set (ic_uploads c))"
proof -
  let ?j = "ic_heap c ! a" and ?S = "chunks_of a (ic_stored c)"
  have inv: "import_inv c" by (rule import_inv_reachable [OF assms(1)])
  note D = import_invD [OF inv assms(2)]
  have all: "allChunksReceived ?j" using D(3) assms(3) by blast
  note parts = chunks_parts [OF D(2)]
  let ?n = "nat (ij_TotalChunks ?j)"
  define chunks where "chunks = map (\<lambda>i. the (map_of ?S (int i))) [0..<?n]"
  have total: "0 < ij_TotalBytes ?j" "ij_TotalChunks ?j = (ij_TotalBytes ?j + MaxImportChunkBytes - 1) div MaxImportChunkBytes"
    using D(1) by (simp_all add: status_inv_def)
  have pos: "0 < ij_TotalChunks ?j" using total by (simp add: MaxImportChunkBytes_def)
  have at: "(i, d) \<in> set ?S \<longleftrightarrow> 0 \<le> i \<and> i < ij_TotalChunks ?j \<and> d = chunks ! nat i" for i d
  proof
    assume m: "(i, d) \<in> set ?S"
    then have r: "0 \<le> i" "i < ij_TotalChunks ?j" using parts(6) by (auto simp: chunk_fits_def)
    moreover have "map_of ?S i = Some d" using m parts(3) by simp
    ultimately show "0 \<le> i \<and> i < ij_TotalChunks ?j \<and> d = chunks ! nat i" by (simp add: chunks_def)
  next
    assume r: "0 \<le> i \<and> i < ij_TotalChunks ?j \<and> d = chunks ! nat i"
    then obtain x where x: "(i, x) \<in> set ?S" using all_received_stored [OF D(2) all] by blast
    then have "map_of ?S i = Some x" using parts(3) by simp
    then show "(i, d) \<in> set ?S" using r x by (simp add: chunks_def)
  qed
  have len: "length chunks = ?n" by (simp add: chunks_def)
  have one: "(int i, chunks ! i) \<in> set ?S" if "i < ?n" for i
    using that unfolding at by simp
  have size: "int (length (chunks ! i)) = expected_chunk_bytes ?j (int i)" if "i < ?n" for i
    using parts(6) one [OF that] by (auto simp: chunk_fits_def)
  obtain n where n: "?n = Suc n" using pos by (metis gr0_conv_Suc zero_less_nat_eq)
  then have last: "int n = ij_TotalChunks ?j - 1" using pos by linarith
  have "int (length (concat chunks)) = int n * MaxImportChunkBytes + (ij_TotalBytes ?j - int n * MaxImportChunkBytes)"
    by (rule concat_chunks_length) (use len n size last in \<open>auto simp: expected_chunk_bytes_def\<close>)
  then have "int (length (concat chunks)) = ij_TotalBytes ?j" by simp
  moreover have "map_of (ij_received ?j) (int i) = Some (hex_encode (sha256 (chunks ! i)))" if "i < length chunks" for i
    using parts(5) [OF one] that len by (simp add: chunk_hash_def)
  moreover have "(a, i, d) \<notin> set (ic_uploads c)" for i d
    using no_upload_started [OF inv assms(2)] assms(3) by blast
  moreover have "(a, i, d) \<in> set (ic_stored c) \<longleftrightarrow> 0 \<le> i \<and> i < int (length chunks) \<and> d = chunks ! nat i" for i d
    using at [of i d] len pos by simp
  ultimately show ?thesis using len pos by (intro exI [of _ chunks]) simp
qed

section \<open>One import at a time\<close>

theorem import_runs_complete_witness:
  "import_reachable running_coordinator
   \<and> (\<exists>chunks. length chunks = 1 \<and> length (concat chunks) = 1 \<and> (0, 0, chunks ! 0) \<in> set (ic_stored running_coordinator))"
proof -
  have a: "0 < length (ic_heap running_coordinator)" "ij_startedRun (ic_heap running_coordinator ! 0)"
    "ij_TotalChunks (ic_heap running_coordinator ! 0) = 1" "ij_TotalBytes (ic_heap running_coordinator ! 0) = 1"
    by (simp_all add: running_coordinator_def example_running_def example_staged_def example_staging_def new_import_job_def
        example_create_def)
  obtain chunks where "int (length chunks) = 1" "int (length (concat chunks)) = 1"
    "\<forall>i d. (0, i, d) \<in> set (ic_stored running_coordinator) \<longleftrightarrow> 0 \<le> i \<and> i < int (length chunks) \<and> d = chunks ! nat i"
    using import_runs_complete [OF running_reachable a(1,2)] unfolding a(3,4) by blast
  then show ?thesis using running_reachable by (intro conjI exI [of _ chunks]) auto
qed

lemma step_length: "import_step c c' \<Longrightarrow> length (ic_heap c) \<le> length (ic_heap c')"
  by (erule import_step.cases)
    (auto simp: CreateImport_def StartImport_def run_ended_def deleteImportIfSame_def reapStaleStaging_def
      ScheduleStagingCleanup_def Let_def split: sum.splits option.splits if_splits prod.splits)

definition final_view :: "import_job \<Rightarrow> import_status_response \<times> bool \<times> bytes \<times> bytes" where
  "final_view j = (importStatusResponse j, ij_done j, ij_cek j, ij_stagingKey j)"

lemma view_chunks [simp]:
  "final_view (finishChunk now i h j) = final_view j" "final_view (clearPendingChunk now i h j) = final_view j"
  "beginChunk now i h j = (r, j') \<Longrightarrow> final_view j' = final_view j"
  by (auto simp: final_view_def importStatusResponse_def finishChunk_def clearPendingChunk_def beginChunk_def
      split: if_splits option.splits)

lemma over_stays:
  assumes "import_inv c" "import_step c c'" "b < length (ic_heap c)" "ij_done (ic_heap c ! b)"
  shows "final_view (ic_heap c' ! b) = final_view (ic_heap c ! b)"
proof -
  note D = import_invD [OF assms(1,3)]
  have over: "job_over (ic_heap c ! b)" using D(1) assms(4) by (simp add: status_inv_def)
  then have idle: "b \<notin> set (ic_runs c)" "ij_status (ic_heap c ! b) \<noteq> ImportJobStaging"
    using D(5) by (auto simp: job_over_def)
  from assms(2) show ?thesis
  proof cases
    case create
    then show ?thesis using assms(3)
      by (auto simp: CreateImport_def Let_def nth_append split: sum.splits option.splits if_splits prod.splits)
  next
    case (chunk_begin a i d now j)
    then show ?thesis by (cases "b = a") simp_all
  next
    case (chunk_stored a i d now)
    then show ?thesis using assms(3) by (cases "b = a") simp_all
  next
    case (chunk_failed a i d now)
    then show ?thesis using assms(3) by (cases "b = a") simp_all
  next
    case (start a now cek)
    then show ?thesis using idle by (cases "b = a") (auto simp: StartImport_def Let_def split: if_splits)
  next
    case (report a now e)
    then show ?thesis using idle by (cases "b = a") auto
  next
    case (ended a I expired err now)
    then show ?thesis using idle by (cases "b = a") (auto simp: run_ended_def deleteImportIfSame_def Let_def)
  next
    case (reaped a now r)
    then show ?thesis using idle
      by (cases "b = a") (auto simp: reapStaleStaging_def failIfStaleStaging_def Let_def split: if_splits)
  next
    case expired
    then show ?thesis by (simp add: deleteImportIfSame_def Let_def)
  qed (simp_all add: ScheduleStagingCleanup_def)
qed

text \<open>
  C27. One import of a user at a time, and over means over: in every interleaving two jobs of the same
  user that are not over are the same job; a job that is over has completed or failed, its key and
  its staging key are overwritten with zeros, and no further step changes what it reports or puts a
  key into it.
\<close>

theorem one_import_at_a_time:
  assumes "import_reachable c" "a < length (ic_heap c)" "b < length (ic_heap c)"
  shows "(\<not> ij_done (ic_heap c ! a) \<and> \<not> ij_done (ic_heap c ! b)
      \<and> ij_UserID (ic_heap c ! a) = ij_UserID (ic_heap c ! b) \<longrightarrow> a = b)
    \<and> (ij_done (ic_heap c ! a) \<longrightarrow>
        ij_status (ic_heap c ! a) \<in> {ImportJobCompleted, ImportJobFailed}
        \<and> set (ij_cek (ic_heap c ! a)) \<union> set (ij_stagingKey (ic_heap c ! a)) \<subseteq> {CHR 0x00}
        \<and> (\<forall>c'. import_step c c' \<longrightarrow> a < length (ic_heap c') \<and> ij_done (ic_heap c' ! a)
             \<and> importStatusResponse (ic_heap c' ! a) = importStatusResponse (ic_heap c ! a)
             \<and> ij_cek (ic_heap c' ! a) = ij_cek (ic_heap c ! a)
             \<and> ij_stagingKey (ic_heap c' ! a) = ij_stagingKey (ic_heap c ! a)))"
proof -
  have inv: "import_inv c" by (rule import_inv_reachable [OF assms(1)])
  note A = import_invD [OF inv assms(2)] and B = import_invD [OF inv assms(3)]
  have "a = b" if "\<not> ij_done (ic_heap c ! a)" "\<not> ij_done (ic_heap c ! b)"
      "ij_UserID (ic_heap c ! a) = ij_UserID (ic_heap c ! b)"
    using A(4) B(4) that by (simp add: import_owner_def)
  moreover have "ij_status (ic_heap c ! a) \<in> {ImportJobCompleted, ImportJobFailed}" if "ij_done (ic_heap c ! a)"
    using A(1) that by (auto simp: status_inv_def job_over_def)
  moreover have "set (ij_cek (ic_heap c ! a)) \<union> set (ij_stagingKey (ic_heap c ! a)) \<subseteq> {CHR 0x00}" if "ij_done (ic_heap c ! a)"
  proof -
    have zero: "set k \<subseteq> {CHR 0x00}" if "wiped k" for k
    proof
      fix x assume "x \<in> set k"
      then have "byte_val x = 0" using that by (simp add: wiped_def list_all_iff)
      then have "byte_of (byte_val x) = byte_of 0" by simp
      then have "x = byte_of 0" by simp
      moreover have "byte_of 0 = CHR 0x00" by code_simp
      ultimately show "x \<in> {CHR 0x00}" by simp
    qed
    have "wiped (ij_cek (ic_heap c ! a))" "wiped (ij_stagingKey (ic_heap c ! a))"
      using A(1) that by (simp_all add: status_inv_def)
    then show ?thesis using zero by blast
  qed
  moreover have "a < length (ic_heap c') \<and> ij_done (ic_heap c' ! a)
             \<and> importStatusResponse (ic_heap c' ! a) = importStatusResponse (ic_heap c ! a)
             \<and> ij_cek (ic_heap c' ! a) = ij_cek (ic_heap c ! a)
             \<and> ij_stagingKey (ic_heap c' ! a) = ij_stagingKey (ic_heap c ! a)"
    if "ij_done (ic_heap c ! a)" "import_step c c'" for c'
    using over_stays [OF inv that(2) assms(2) that(1)] step_length [OF that(2)] that(1) assms(2)
    by (simp add: final_view_def)
  ultimately show ?thesis by blast
qed

theorem one_import_at_a_time_witness:
  "\<exists>c. import_reachable c \<and> ij_status (ic_heap c ! 0) = ImportJobFailed
     \<and> ij_failureReason (ic_heap c ! 0) = ''internal'' \<and> set (ij_cek (ic_heap c ! 0)) \<subseteq> {CHR 0x00}"
proof -
  let ?I = "\<lparr> ge_deadline = (\<lambda>_. False), ge_net = (\<lambda>_. None) \<rparr>"
  let ?e = "IGo (ENew ''upstream refused'')"
  let ?c = "run_ended 0 (upd_import 0 (import_outcome_job ?I False (Some ?e) 9) running_coordinator)"
  have "0 \<in> set (ic_runs running_coordinator)" by (simp add: running_coordinator_def)
  then have reach: "import_reachable ?c" using import_step.ended reach_step running_reachable by blast
  have over: "\<not> job_over example_running" by (simp add: job_over_def example_running_def)
  have h: "ic_heap ?c = [import_outcome_job ?I False (Some ?e) 9 example_running]"
    by (simp add: run_ended_def deleteImportIfSame_def Let_def running_coordinator_def NewImportCoordinator_def)
  have j: "ij_done (ic_heap ?c ! 0)" "ij_status (ic_heap ?c ! 0) = ImportJobFailed" "ij_failureReason (ic_heap ?c ! 0) = ''internal''"
    unfolding h using over
    by (simp_all add: import_outcome_job_def import_failed_def Let_def finishWithReason_def import_event_def job_over_def
        classifyImportFailure_def as_tag_def as_app_def as_cp_def as_bucket_def as_net_def is_deadline_def leaf_tag_def
        ImportFailureInternal_def)
  have len: "0 < length (ic_heap ?c)" by (simp add: h)
  from one_import_at_a_time [OF reach len len] j(1) have "set (ij_cek (ic_heap ?c ! 0)) \<subseteq> {CHR 0x00}" by blast
  then show ?thesis using reach j by blast
qed

end
